(* ===== verification/Prelude.thy ===== *)
theory Prelude
  imports Main "HOL-Library.Word" "HOL-Library.Monad_Syntax"
begin

unbundle bit_operations_syntax

section \<open>Shared vocabulary of the model\<close>

text \<open>
  The vocabulary every component shares. A C object in memory is the list of its bytes; a
  pointer and its length are that list. Reading or writing outside the object has no meaning
  in C, so memory accesses live in the option type: \<open>None\<close> is an access outside the object
  (undefined behaviour), \<open>Some\<close> a defined one. A C function that returns a success flag and
  fills an out-parameter becomes \<open>'a option mem\<close>: the outer option is the memory, the inner
  one the flag.

  The target is a 32-bit machine: \<open>size_t\<close> values are naturals below \<open>2 ^ 32\<close>, and every
  \<open>size_t\<close> operation that can wrap is written with the operators \<open>sz\<close>, \<open>sz_add\<close>, \<open>sz_sub\<close>
  and \<open>sz_mul\<close> below. Values the code keeps at a fixed width (bytes, timestamps, bit
  accumulators) are machine words.
\<close>

type_synonym u8 = "8 word"
type_synonym u16 = "16 word"
type_synonym u32 = "32 word"
type_synonym u64 = "64 word"
type_synonym bytes = "u8 list"
type_synonym 'a mem = "'a option"

named_theorems mem_safe \<open>facts that an operation never accesses memory outside its objects\<close>

subsection \<open>C integers\<close>

text \<open>The error codes of the platform the code returns.\<close>

datatype esp_err = ESP_OK | ESP_FAIL | ESP_ERR_NO_MEM | ESP_ERR_INVALID_ARG | ESP_ERR_INVALID_STATE

text \<open>Conversion to and arithmetic on a 32-bit \<open>size_t\<close>.\<close>

definition sz :: "nat \<Rightarrow> nat" where
  "sz n = n mod 2 ^ 32"

definition sz_add :: "nat \<Rightarrow> nat \<Rightarrow> nat" where
  "sz_add a b = sz (a + b)"

definition sz_sub :: "nat \<Rightarrow> nat \<Rightarrow> nat" where
  "sz_sub a b = sz (a + 2 ^ 32 - b)"

definition sz_mul :: "nat \<Rightarrow> nat \<Rightarrow> nat" where
  "sz_mul a b = sz (a * b)"

text \<open>Conversion of an unsigned value to a 32-bit and to a 64-bit signed integer.\<close>

definition c_int :: "nat \<Rightarrow> int" where
  "c_int n = sint (of_nat n :: 32 word)"

definition c_int64 :: "nat \<Rightarrow> int" where
  "c_int64 n = sint (of_nat n :: 64 word)"

lemma sz_id [simp]: "n < 2 ^ 32 \<Longrightarrow> sz n = n"
  by (simp add: sz_def)

lemma sz_less [simp]: "sz n < 2 ^ 32"
  by (simp add: sz_def)

lemma sz_less_num [simp]: "sz n < 4294967296"
  by (simp add: sz_def)

lemma sz_add_id [simp]: "a + b < 2 ^ 32 \<Longrightarrow> sz_add a b = a + b"
  by (simp add: sz_add_def)

lemma sz_mul_id [simp]: "a * b < 2 ^ 32 \<Longrightarrow> sz_mul a b = a * b"
  by (simp add: sz_mul_def)

lemma sz_sub_id [simp]:
  assumes "b \<le> a" "a < 2 ^ 32"
  shows "sz_sub a b = a - b"
proof -
  have "a + 2 ^ 32 - b = (a - b) + 2 ^ 32" using assms by simp
  then have "sz_sub a b = ((a - b) + 2 ^ 32) mod 2 ^ 32" by (simp only: sz_sub_def sz_def)
  also have "\<dots> = (a - b) mod 2 ^ 32" by (rule mod_add_self2)
  also have "\<dots> = a - b" using assms by (intro mod_less) linarith
  finally show ?thesis .
qed

lemma c_int_id [simp]: "n < 2 ^ 31 \<Longrightarrow> c_int n = int n"
  by (simp add: c_int_def signed_of_nat take_bit_nat_eq_self signed_take_bit_int_eq_self)

lemma c_int64_id [simp]: "n < 2 ^ 63 \<Longrightarrow> c_int64 n = int n"
  by (simp add: c_int64_def signed_of_nat take_bit_nat_eq_self signed_take_bit_int_eq_self)

lemma c_int64_mod [simp]: "c_int64 (n mod 18446744073709551616) = c_int64 n"
proof -
  have "(of_nat (n mod 18446744073709551616) :: 64 word) = of_nat n"
    by (rule word_unat_eq_iff [THEN iffD2]) (simp add: unsigned_of_nat take_bit_eq_mod)
  then show ?thesis by (simp only: c_int64_def)
qed

subsection \<open>Memory accesses\<close>

definition rd :: "'a list \<Rightarrow> nat \<Rightarrow> 'a mem" where
  "rd p i = (if i < length p then Some (p ! i) else None)"

definition rd_block :: "'a list \<Rightarrow> nat \<Rightarrow> nat \<Rightarrow> 'a list mem" where
  "rd_block p i n = (if i + n \<le> length p then Some (take n (drop i p)) else None)"

text \<open>\<open>wr buf i bs\<close> stores the bytes \<open>bs\<close> at index \<open>i\<close> of the object \<open>buf\<close>.\<close>

definition wr :: "'a list \<Rightarrow> nat \<Rightarrow> 'a list \<Rightarrow> 'a list mem" where
  "wr buf i bs = (if i + length bs \<le> length buf
     then Some (take i buf @ bs @ drop (i + length bs) buf) else None)"

lemma rd_Some [simp]: "i < length p \<Longrightarrow> rd p i = Some (p ! i)"
  by (simp add: rd_def)

lemma rd_block_Some [simp]: "i + n \<le> length p \<Longrightarrow> rd_block p i n = Some (take n (drop i p))"
  by (simp add: rd_block_def)

lemma wr_length: "wr buf i bs = Some buf' \<Longrightarrow> length buf' = length buf"
  by (auto simp: wr_def split: if_splits)

lemma rd_safe [mem_safe]: "i < length p \<Longrightarrow> rd p i \<noteq> None"
  by simp

lemma wr_safe [mem_safe]: "i + length bs \<le> length buf \<Longrightarrow> wr buf i bs \<noteq> None"
  by (simp add: wr_def)

lemma bind_safe [mem_safe]:
  "m \<noteq> None \<Longrightarrow> (\<And>x. m = Some x \<Longrightarrow> f x \<noteq> None) \<Longrightarrow> Option.bind m f \<noteq> None"
  by (cases m) auto

text \<open>
  Total correctness of a computation: it accesses no memory outside its objects, and its result has
  the property. There is one rule for each form of a computation.
\<close>

definition ensures :: "('a \<Rightarrow> bool) \<Rightarrow> 'a mem \<Rightarrow> bool" where
  "ensures P m \<longleftrightarrow> (\<exists>x. m = Some x \<and> P x)"

lemma ensures_Some [simp]: "ensures P (Some x) = P x"
  by (simp add: ensures_def)

lemma ensures_bind: "ensures Q m \<Longrightarrow> (\<And>x. Q x \<Longrightarrow> ensures P (f x)) \<Longrightarrow> ensures P (m \<bind> f)"
  by (auto simp: ensures_def)

lemma ensures_if: "(b \<Longrightarrow> ensures P x) \<Longrightarrow> (\<not> b \<Longrightarrow> ensures P y) \<Longrightarrow> ensures P (if b then x else y)"
  by simp

lemma ensures_mono: "ensures Q m \<Longrightarrow> (\<And>x. Q x \<Longrightarrow> P x) \<Longrightarrow> ensures P m"
  by (auto simp: ensures_def)

lemma ensures_not_None: "ensures P m \<Longrightarrow> m \<noteq> None"
  by (auto simp: ensures_def)

lemma ensuresI: "m = Some x \<Longrightarrow> P x \<Longrightarrow> ensures P m"
  by (simp add: ensures_def)

lemma ensuresD: "ensures P m \<Longrightarrow> m = Some x \<Longrightarrow> P x"
  by (simp add: ensures_def)

text \<open>The contents of a buffer after bytes were stored in it, and a store right behind them.\<close>

definition put_at :: "'a list \<Rightarrow> nat \<Rightarrow> 'a list \<Rightarrow> 'a list" where
  "put_at buf i bs = take i buf @ bs @ drop (i + length bs) buf"

lemma wr_put: "i + length bs \<le> length buf \<Longrightarrow> wr buf i bs = Some (put_at buf i bs)"
  by (simp add: wr_def put_at_def)

lemma length_put_at [simp]: "i + length bs \<le> length buf \<Longrightarrow> length (put_at buf i bs) = length buf"
  by (simp add: put_at_def)

lemma put_at_put_at:
  "i + length bs + length cs \<le> length buf \<Longrightarrow> j = i + length bs \<Longrightarrow>
    put_at (put_at buf i bs) j cs = put_at buf i (bs @ cs)"
  by (simp add: put_at_def ac_simps)

lemma put_at_Nil [simp]: "put_at buf i [] = buf"
  by (simp add: put_at_def)

text \<open>The index list of a counting loop.\<close>

lemma upto_subset [simp]: "{0..<n} \<subseteq> {..<(n :: nat)}"
  by auto

subsection \<open>Strings\<close>

text \<open>A C string literal as bytes, and the C string held in a byte array.\<close>

definition ascii :: "string \<Rightarrow> bytes" where
  "ascii s = map of_char s"

definition cstr :: "bytes \<Rightarrow> bytes" where
  "cstr bs = takeWhile (\<lambda>b. b \<noteq> 0) bs"

lemma length_ascii [simp]: "length (ascii s) = length s"
  by (simp add: ascii_def)

lemma ascii_eq_Nil [simp]: "ascii s = [] \<longleftrightarrow> s = []"
  by (simp add: ascii_def)

lemma ascii_append: "ascii (s @ t) = ascii s @ ascii t"
  by (simp add: ascii_def)

lemma cstr_no_nul [simp]: "0 \<notin> set bs \<Longrightarrow> cstr bs = bs"
  by (metis (mono_tags) cstr_def takeWhile_eq_all_conv)

lemma cstr_no_nul_append: "0 \<notin> set bs \<Longrightarrow> cstr (bs @ 0 # rest) = bs"
  by (induction bs) (auto simp: cstr_def)

subsection \<open>Big-endian integers\<close>

text \<open>The value of a big-endian byte string, and its 64-bit big-endian encoding.\<close>

definition be_val :: "bytes \<Rightarrow> nat" where
  "be_val bs = foldl (\<lambda>v b. 256 * v + unat b) 0 bs"

lemma be_foldl: "foldl (\<lambda>v b. 256 * v + unat (b :: u8)) a bs = a * 256 ^ length bs + be_val bs"
proof (induction bs arbitrary: a)
  case Nil
  then show ?case by (simp add: be_val_def)
next
  case (Cons b bs)
  show ?case
    using Cons [of "256 * a + unat b"] Cons [of "unat b"]
    by (simp add: be_val_def algebra_simps)
qed

lemma be_val_Nil [simp]: "be_val [] = 0"
  by (simp add: be_val_def)

lemma be_val_Cons: "be_val (b # bs) = unat b * 256 ^ length bs + be_val bs"
  using be_foldl [of "unat b" bs] by (simp add: be_val_def)

lemma be_val_snoc: "be_val (bs @ [b]) = 256 * be_val bs + unat b"
  by (simp add: be_val_def)

lemma be_val_less: "be_val bs < 256 ^ length bs"
proof (induction bs)
  case Nil
  then show ?case by simp
next
  case (Cons b bs)
  have "unat b < 2 ^ LENGTH(8)" by (rule unsigned_less)
  then have "unat b + 1 \<le> 256" by simp
  then have "(unat b + 1) * 256 ^ length bs \<le> 256 * 256 ^ length bs"
    by (rule mult_right_mono) simp
  then have "unat b * 256 ^ length bs + 256 ^ length bs \<le> 256 * 256 ^ length bs"
    by (simp only: add_mult_distrib mult_1)
  with Cons show ?case unfolding be_val_Cons length_Cons power_Suc by linarith
qed

lemma unat_less_exp: "unat (w :: 'a::len word) < 2 ^ LENGTH('a)"
  by (rule unsigned_less)

lemma unat_u8_less [simp]: "unat (b :: u8) < 256"
  using unat_less_exp [of b] by simp

lemma unat_u8_less_le [simp]: "256 \<le> k \<Longrightarrow> unat (b :: u8) < k"
  using unat_u8_less [of b] by (rule less_le_trans)

lemma unat_u16_less [simp]: "unat (b :: u16) < 65536"
  using unat_less_exp [of b] by simp

lemma unat_ucast_u8 [simp]:
  "unat (ucast (b :: u8) :: u16) = unat b"
  "unat (ucast (b :: u8) :: u32) = unat b"
  "unat (ucast (b :: u8) :: u64) = unat b"
  by (simp_all add: unsigned_ucast_eq take_bit_nat_eq_self_iff)

text \<open>The big-endian bytes of a 64-bit value.\<close>

definition be_bytes :: "nat \<Rightarrow> u64 \<Rightarrow> bytes" where
  "be_bytes n v = map (\<lambda>i. ucast (drop_bit (i * 8) v)) (rev [0..<n])"

lemma length_be_bytes [simp]: "length (be_bytes n v) = n"
  by (simp add: be_bytes_def)

lemma unat_ucast_byte: "unat (ucast (w :: 'a::len word) :: u8) = unat w mod 256"
  by (simp add: unsigned_ucast_eq take_bit_eq_mod)

lemma unat_drop_bit: "unat (drop_bit n (w :: 'a::len word)) = unat w div 2 ^ n"
proof -
  have "take_bit LENGTH('a) (unat w) = unat w" by (simp add: take_bit_nat_eq_self_iff)
  then show ?thesis by (simp only: unsigned_drop_bit_eq) (rule drop_bit_eq_div)
qed

lemma be_val_be_bytes: "be_val (be_bytes n v) = unat v mod 256 ^ n"
proof (induction n)
  case 0
  then show ?case by (simp add: be_bytes_def)
next
  case (Suc n)
  have "be_bytes (Suc n) v = ucast (drop_bit (n * 8) v) # be_bytes n v" by (simp add: be_bytes_def)
  moreover have "unat (ucast (drop_bit (n * 8) v) :: u8) = unat v div 256 ^ n mod 256"
    by (simp only: unat_ucast_byte unat_drop_bit mult.commute [of n] power_mult) simp
  moreover have "unat v mod 256 ^ Suc n = 256 ^ n * (unat v div 256 ^ n mod 256) + unat v mod 256 ^ n"
    by (metis mod_mult2_eq power_Suc2)
  ultimately show ?case using Suc by (simp add: be_val_Cons)
qed

lemma unat_of_nat_id: "n < 2 ^ LENGTH('a) \<Longrightarrow> unat (of_nat n :: 'a::len word) = n"
  by (simp add: unsigned_of_nat take_bit_nat_eq_self)

subsection \<open>Bits of narrow words\<close>

lemma not_bit_u8: "8 \<le> n \<Longrightarrow> \<not> bit (b :: u8) n"
  using bit_imp_le_length [of b n] by auto

lemma bit_u8_less: "bit (b :: u8) n \<Longrightarrow> n < 8"
  using bit_imp_le_length [of b n] by auto

lemma not_bit_u16: "16 \<le> n \<Longrightarrow> \<not> bit (b :: u16) n"
  using bit_imp_le_length [of b n] by auto

lemma bit_mask_numeral:
  "bit (3 :: int) n \<longleftrightarrow> n < 2"
  "bit (15 :: int) n \<longleftrightarrow> n < 4"
  "bit (63 :: int) n \<longleftrightarrow> n < 6"
  "bit (255 :: int) n \<longleftrightarrow> n < 8"
  "bit (48 :: int) n \<longleftrightarrow> 4 \<le> n \<and> n < 6"
  "bit (60 :: int) n \<longleftrightarrow> 2 \<le> n \<and> n < 6"
proof -
  note m = bit_mask_iff [where ?'a = int] mask_eq_exp_minus_1 [where ?'a = int]
  show 3: "bit (3 :: int) n \<longleftrightarrow> n < 2" for n using m(1) [of 2 n] by (simp add: m(2))
  show 15: "bit (15 :: int) n \<longleftrightarrow> n < 4" for n using m(1) [of 4 n] by (simp add: m(2))
  show "bit (63 :: int) n \<longleftrightarrow> n < 6" using m(1) [of 6 n] by (simp add: m(2))
  show "bit (255 :: int) n \<longleftrightarrow> n < 8" using m(1) [of 8 n] by (simp add: m(2))
  have "(48 :: int) = push_bit 4 3" "(60 :: int) = push_bit 2 15" by simp_all
  then show "bit (48 :: int) n \<longleftrightarrow> 4 \<le> n \<and> n < 6" "bit (60 :: int) n \<longleftrightarrow> 2 \<le> n \<and> n < 6"
    by (simp_all only: bit_push_bit_iff 3 15) auto
qed

lemma less_8_cases:
  "n < (8 :: nat) \<Longrightarrow> n = 0 \<or> n = 1 \<or> n = 2 \<or> n = 3 \<or> n = 4 \<or> n = 5 \<or> n = 6 \<or> n = 7"
  by auto

end
