(* ===== verification/Base64.thy ===== *)
theory Base64
  imports Prelude
begin

section \<open>Base64 (main/plist/base64.c)\<close>

text \<open>
  The encoder and the decoder of \<open>base64.c\<close>, with the output buffer as the object they write
  into (its length is \<open>output_capacity\<close>), a reference encoder by recursion over the input, and
  the theorems that relate them: the loop of the code computes the reference encoding, and
  decoding an encoding gives the input back.
\<close>

subsection \<open>Tables\<close>

definition b64_table :: bytes where
  "b64_table = ascii ''ABCDEFGHIJKLMNOPQRSTUVWXYZabcdefghijklmnopqrstuvwxyz0123456789+/''"

definition b64_decode_table :: bytes where
  "b64_decode_table =
    replicate 43 255 @ [62] @ replicate 3 255 @ [63] @
    [52, 53, 54, 55, 56, 57, 58, 59, 60, 61] @ replicate 3 255 @ [0] @ replicate 3 255 @
    [0, 1, 2, 3, 4, 5, 6, 7, 8, 9, 10, 11, 12, 13, 14, 15, 16, 17, 18, 19, 20, 21, 22, 23,
     24, 25] @ replicate 6 255 @
    [26, 27, 28, 29, 30, 31, 32, 33, 34, 35, 36, 37, 38, 39, 40, 41, 42, 43, 44, 45, 46, 47,
     48, 49, 50, 51] @ replicate 133 255"

definition b64_char :: "u32 \<Rightarrow> u8" where
  "b64_char x = b64_table ! unat (x AND 0x3F)"

subsection \<open>The encoder\<close>

definition base64_encoded_length :: "nat \<Rightarrow> nat" where
  "base64_encoded_length input_len = sz_mul (sz_add input_len 2 div 3) 4"

function b64_enc_loop :: "bytes \<Rightarrow> nat \<Rightarrow> nat \<Rightarrow> bytes \<Rightarrow> bytes mem" where
  "b64_enc_loop inp i pos out =
    (if i < length inp then
       let octet_a = ucast (inp ! i) :: u32;
           octet_b = (if i + 1 < length inp then ucast (inp ! (i + 1)) else 0) :: u32;
           octet_c = (if i + 2 < length inp then ucast (inp ! (i + 2)) else 0) :: u32;
           triple = push_bit 16 octet_a OR push_bit 8 octet_b OR octet_c
       in do {
         out \<leftarrow> wr out pos
           [b64_char (drop_bit 18 triple),
            b64_char (drop_bit 12 triple),
            (if i + 1 < length inp then b64_char (drop_bit 6 triple) else 61),
            (if i + 2 < length inp then b64_char triple else 61)];
         b64_enc_loop inp (i + 3) (pos + 4) out
       }
     else Some out)"
  by pat_completeness auto
termination
  by (relation "measure (\<lambda>(inp, i, pos, out). length inp - i)") auto

declare b64_enc_loop.simps [simp del]

definition base64_encode :: "bytes option \<Rightarrow> bytes option \<Rightarrow> (int \<times> bytes option) mem" where
  "base64_encode input output =
    (case (input, output) of
       (Some inp, Some out) \<Rightarrow>
         let out_len = base64_encoded_length (length inp) in
         if out_len > length out then Some (-1, Some out)
         else do {
           out \<leftarrow> b64_enc_loop inp 0 0 out;
           Some (c_int out_len, Some out)
         }
     | _ \<Rightarrow> Some (-1, output))"

subsection \<open>The decoder\<close>

definition b64_space :: "u8 \<Rightarrow> bool" where
  "b64_space c \<longleftrightarrow> c = 32 \<or> c = 9 \<or> c = 10 \<or> c = 13"

fun b64_dec_loop :: "bytes \<Rightarrow> nat \<Rightarrow> u32 \<Rightarrow> nat \<Rightarrow> bytes \<Rightarrow> (int \<times> bytes) mem" where
  "b64_dec_loop [] j accum bits out = Some (c_int j, out)"
| "b64_dec_loop (c # cs) j accum bits out =
    (if b64_space c then b64_dec_loop cs j accum bits out
     else if c = 61 then Some (c_int j, out)
     else let val = b64_decode_table ! unat c in
       if val = 255 then Some (-1, out)
       else let accum = push_bit 6 accum OR ucast val; bits = bits + 6 in
         if bits \<ge> 8 then
           let bits = bits - 8 in
           if j \<ge> length out then Some (-1, out)
           else do {
             out \<leftarrow> wr out j [ucast (drop_bit bits accum AND 0xFF)];
             b64_dec_loop cs (j + 1) accum bits out
           }
         else b64_dec_loop cs j accum bits out)"

definition base64_decode :: "bytes option \<Rightarrow> bytes option \<Rightarrow> (int \<times> bytes option) mem" where
  "base64_decode input output =
    (case (input, output) of
       (Some inp, Some out) \<Rightarrow>
         if length out = 0 then Some (-1, Some out)
         else
           let actual_len = length (filter (\<lambda>c. \<not> b64_space c) inp);
               output_len = sz_mul actual_len 3 div 4
           in if output_len > length out then Some (-1, Some out)
              else do {
                (r, out) \<leftarrow> b64_dec_loop inp 0 0 0 out;
                Some (r, Some out)
              }
     | _ \<Rightarrow> Some (-1, output))"

subsection \<open>Reference encoding\<close>

definition b64_c0 :: "u8 \<Rightarrow> u8" where
  "b64_c0 a = drop_bit 2 a"

definition b64_c1 :: "u8 \<Rightarrow> u8 \<Rightarrow> u8" where
  "b64_c1 a b = push_bit 4 (a AND 3) OR drop_bit 4 b"

definition b64_c2 :: "u8 \<Rightarrow> u8 \<Rightarrow> u8" where
  "b64_c2 b c = push_bit 2 (b AND 15) OR drop_bit 6 c"

definition b64_c3 :: "u8 \<Rightarrow> u8" where
  "b64_c3 c = c AND 63"

definition b64_sym :: "u8 \<Rightarrow> u8" where
  "b64_sym v = b64_table ! unat v"

fun b64_ref :: "bytes \<Rightarrow> bytes" where
  "b64_ref [] = []"
| "b64_ref [a] = [b64_sym (b64_c0 a), b64_sym (b64_c1 a 0), 61, 61]"
| "b64_ref [a, b] = [b64_sym (b64_c0 a), b64_sym (b64_c1 a b), b64_sym (b64_c2 b 0), 61]"
| "b64_ref (a # b # c # rest) =
    b64_sym (b64_c0 a) # b64_sym (b64_c1 a b) # b64_sym (b64_c2 b c) # b64_sym (b64_c3 c) #
    b64_ref rest"

lemmas b64_c_defs = b64_c0_def b64_c1_def b64_c2_def b64_c3_def

lemma length_b64_ref: "length (b64_ref xs) = 4 * ((length xs + 2) div 3)"
proof (induction xs rule: b64_ref.induct)
  case (4 a b c rest)
  have "(length (a # b # c # rest) + 2) div 3 = (length rest + 2 + 1 * 3) div 3" by simp
  also have "\<dots> = (length rest + 2) div 3 + 1" by (subst div_mult_self1) auto
  finally show ?case using 4 by simp
qed auto

subsection \<open>Sextets\<close>

lemma b64_char_ucast:
  assumes "x AND 63 = ucast v"
  shows "b64_char x = b64_sym v"
proof -
  have "unat (ucast v :: u32) = unat v"
    by simp
  with assms show ?thesis by (simp add: b64_char_def b64_sym_def)
qed

lemma b64_triple_bit:
  fixes a b c :: u8
  shows "bit (push_bit 16 (ucast a) OR push_bit 8 (ucast b) OR (ucast c :: u32)) n \<longleftrightarrow>
    (if n < 8 then bit c n else if n < 16 then bit b (n - 8) else n < 24 \<and> bit a (n - 16))"
  by (auto simp: bit_simps not_bit_u8 dest: bit_u8_less)

lemma b64_char_split:
  fixes a b c :: u8
  assumes t: "\<And>n. bit (t :: u32) n =
    (if n < 8 then bit c n else if n < 16 then bit b (n - 8) else n < 24 \<and> bit a (n - 16))"
  shows "b64_char (drop_bit 18 t) = b64_sym (b64_c0 a)"
    and "b64_char (drop_bit 12 t) = b64_sym (b64_c1 a b)"
    and "b64_char (drop_bit 6 t) = b64_sym (b64_c2 b c)"
    and "b64_char t = b64_sym (b64_c3 c)"
  by (rule b64_char_ucast, rule bit_word_eqI, case_tac "n < 8", drule less_8_cases, elim disjE;
      simp add: bit_simps bit_mask_numeral not_bit_u8 b64_c_defs t;
      (simp add: eval_nat_numeral)?)+

lemma b64_unsplit:
  fixes accum :: u32
  shows
    "ucast (drop_bit 4 (push_bit 6 (push_bit 6 accum OR ucast (b64_c0 a)) OR ucast (b64_c1 a b))
       AND 255) = a"
    "ucast (drop_bit 2 (push_bit 6 (push_bit 6 accum OR ucast (b64_c1 a b)) OR ucast (b64_c2 b c))
       AND 255) = b"
    "ucast ((push_bit 6 (push_bit 6 accum OR ucast (b64_c2 b c)) OR ucast (b64_c3 c)) AND 255) = c"
  by (rule bit_word_eqI, simp add: b64_c_defs bit_simps bit_mask_numeral not_bit_u8,
     drule less_8_cases, elim disjE; simp add: not_bit_u8 eval_nat_numeral)+

subsection \<open>The encoder computes the reference encoding\<close>

lemma drop_three:
  assumes "i < length xs"
  obtains (one) "drop i xs = [xs ! i]" "length xs = i + 1"
  | (two) "drop i xs = [xs ! i, xs ! (i + 1)]" "length xs = i + 2"
  | (more) "drop i xs = xs ! i # xs ! (i + 1) # xs ! (i + 2) # drop (i + 3) xs" "i + 2 < length xs"
proof -
  have cons: "drop j xs = xs ! j # drop (j + 1) xs" if "j < length xs" for j
    using that by (simp add: Cons_nth_drop_Suc)
  consider "length xs = i + 1" | "length xs = i + 2" | "i + 2 < length xs"
    using assms by linarith
  then show thesis
  proof cases
    case 1
    then show ?thesis using one cons [of i] by simp
  next
    case 2
    then show ?thesis using two cons [of i] cons [of "i + 1"] by simp
  next
    case 3
    then show ?thesis using more cons [of i] cons [of "i + 1"] cons [of "i + 2"]
      by (simp add: numeral_3_eq_3)
  qed
qed

text \<open>One turn of the loop stores the first four symbols of the reference encoding.\<close>

lemma b64_enc_step:
  assumes "i < length inp"
  shows "b64_enc_loop inp i pos out =
    Option.bind (wr out pos (take 4 (b64_ref (drop i inp)))) (b64_enc_loop inp (i + 3) (pos + 4))"
proof (rule drop_three [OF assms])
  note split = b64_char_split [OF b64_triple_bit]
  assume d: "drop i inp = [inp ! i]" "length inp = i + 1"
  show ?thesis
    using split [where a = "inp ! i" and b = 0 and c = 0] by (subst b64_enc_loop.simps) (simp add: d Let_def)
next
  note split = b64_char_split [OF b64_triple_bit]
  assume d: "drop i inp = [inp ! i, inp ! (i + 1)]" "length inp = i + 2"
  show ?thesis
    using split [where a = "inp ! i" and b = "inp ! (i + 1)" and c = 0] by (subst b64_enc_loop.simps) (simp add: d Let_def)
next
  note split = b64_char_split [OF b64_triple_bit]
  assume d: "drop i inp = inp ! i # inp ! (i + 1) # inp ! (i + 2) # drop (i + 3) inp"
    "i + 2 < length inp"
  show ?thesis
    using split [where a = "inp ! i" and b = "inp ! (i + 1)" and c = "inp ! (i + 2)"] d
    by (subst b64_enc_loop.simps) (simp add: Let_def)
qed

lemma b64_ref_split:
  assumes "i < length inp"
  shows "b64_ref (drop i inp) = take 4 (b64_ref (drop i inp)) @ b64_ref (drop (i + 3) inp)"
    and "length (take 4 (b64_ref (drop i inp))) = 4"
  by (rule drop_three [OF assms]; simp del: append_take_drop_id)+

lemma b64_enc_loop_ref:
  assumes "pos + length (b64_ref (drop i inp)) \<le> length out"
  shows "b64_enc_loop inp i pos out =
    Some (take pos out @ b64_ref (drop i inp) @ drop (pos + length (b64_ref (drop i inp))) out)"
  using assms
proof (induction "length inp - i" arbitrary: i pos out rule: less_induct)
  case less
  show ?case
  proof (cases "i < length inp")
    case False
    then show ?thesis by (simp add: b64_enc_loop.simps)
  next
    case True
    define q where "q = take 4 (b64_ref (drop i inp))"
    define r where "r = b64_ref (drop (i + 3) inp)"
    define out' where "out' = take pos out @ q @ drop (pos + 4) out"
    have ref: "b64_ref (drop i inp) = q @ r" and q: "length q = 4"
      using b64_ref_split [OF True] by (simp_all add: q_def r_def)
    have room: "pos + 4 + length r \<le> length out" using less.prems ref q by simp
    then have wr: "wr out pos q = Some out'" using q by (simp add: wr_def out'_def)
    have "b64_enc_loop inp (i + 3) (pos + 4) out' =
        Some (take (pos + 4) out' @ r @ drop (pos + 4 + length r) out')"
      using less.hyps [of "i + 3" "pos + 4" out'] True room q
      by (simp add: r_def out'_def)
    then show ?thesis
      using b64_enc_step [OF True, of pos out] wr ref q room
      by (simp add: q_def [symmetric] out'_def ac_simps)
  qed
qed

subsection \<open>Decoding an encoding\<close>

lemma b64_table_codes: "b64_table =
    [65, 66, 67, 68, 69, 70, 71, 72, 73, 74, 75, 76, 77, 78, 79, 80, 81, 82, 83, 84, 85,
     86, 87, 88, 89, 90, 97, 98, 99, 100, 101, 102, 103, 104, 105, 106, 107, 108, 109,
     110, 111, 112, 113, 114, 115, 116, 117, 118, 119, 120, 121, 122, 48, 49, 50, 51, 52,
     53, 54, 55, 56, 57, 43, 47]"
  by (simp add: b64_table_def ascii_def)

lemma b64_table_inverse: "map (\<lambda>c. b64_decode_table ! unat c) b64_table = map of_nat [0..<64]"
  by (simp add: b64_table_codes b64_decode_table_def nth_append upt_rec)

lemma b64_table_symbols: "list_all (\<lambda>c. c \<noteq> 61 \<and> \<not> b64_space c) b64_table"
  by (simp add: b64_table_codes b64_space_def)

lemma b64_sym_inverse:
  assumes "v < 64"
  shows "b64_decode_table ! unat (b64_sym v) = v" and "b64_sym v \<noteq> 61"
    and "\<not> b64_space (b64_sym v)" and "v \<noteq> 255"
proof -
  have v: "unat v < 64" using assms by (simp add: word_less_nat_alt)
  have len: "length b64_table = 64" by (simp add: b64_table_def)
  have "b64_decode_table ! unat (b64_table ! unat v) = map of_nat [0..<64] ! unat v"
    using v len by (simp add: b64_table_inverse [symmetric])
  then show "b64_decode_table ! unat (b64_sym v) = v" using v by (simp add: b64_sym_def)
  have "b64_sym v \<in> set b64_table" using v len by (simp add: b64_sym_def)
  then show "b64_sym v \<noteq> 61" "\<not> b64_space (b64_sym v)"
    using b64_table_symbols by (auto simp: list_all_iff)
  show "v \<noteq> 255" using assms by auto
qed

lemma b64_sextet_less: "b64_c0 a < 64" "b64_c1 a b < 64" "b64_c2 b c < 64" "b64_c3 c < 64"
proof -
  have small: "v < 64" if "\<And>n. 6 \<le> n \<Longrightarrow> \<not> bit v n" for v :: u8
  proof -
    have "n < 6" if "bit v n" for n using that \<open>\<And>n. 6 \<le> n \<Longrightarrow> \<not> bit v n\<close> not_le by blast
    then have "take_bit 6 v = v" by (intro bit_word_eqI) (auto simp: bit_simps)
    then have "unat v < 2 ^ 6" by (metis take_bit_nat_less_exp unsigned_take_bit_eq)
    then show ?thesis by (simp add: word_less_nat_alt)
  qed
  show "b64_c0 a < 64" "b64_c1 a b < 64" "b64_c2 b c < 64" "b64_c3 c < 64"
    by (rule small; auto simp: b64_c_defs bit_simps bit_mask_numeral not_bit_u8)+
qed

definition b64_push :: "u32 \<Rightarrow> u8 \<Rightarrow> u32" where
  "b64_push accum v = push_bit 6 accum OR ucast v"

definition b64_byte :: "nat \<Rightarrow> u32 \<Rightarrow> u8" where
  "b64_byte bits accum = ucast (drop_bit bits accum AND 0xFF)"

lemma b64_dec_sym:
  assumes "v < 64"
  shows "b64_dec_loop (b64_sym v # cs) j accum bits out =
    (if bits + 6 \<ge> 8 then
       if j \<ge> length out then Some (-1, out)
       else Option.bind (wr out j [b64_byte (bits + 6 - 8) (b64_push accum v)])
         (b64_dec_loop cs (j + 1) (b64_push accum v) (bits + 6 - 8))
     else b64_dec_loop cs j (b64_push accum v) (bits + 6) out)"
  using b64_sym_inverse [OF assms] by (simp add: Let_def b64_push_def b64_byte_def)

lemma b64_byte_push:
  "b64_byte 4 (b64_push (b64_push accum (b64_c0 a)) (b64_c1 a b)) = a"
  "b64_byte 2 (b64_push (b64_push accum (b64_c1 a b)) (b64_c2 b c)) = b"
  "b64_byte 0 (b64_push (b64_push accum (b64_c2 b c)) (b64_c3 c)) = c"
  unfolding b64_byte_def b64_push_def drop_bit_0 id_apply by (rule b64_unsplit)+

lemma b64_dec_pad: "b64_dec_loop (61 # cs) j accum bits out = Some (c_int j, out)"
  by (simp add: b64_space_def)

declare b64_dec_loop.simps(2) [simp del]

text \<open>A complete group of four symbols stores its three bytes and leaves no pending bits.\<close>

lemma b64_dec_group:
  assumes "j + 3 \<le> length out"
  shows "\<exists>accum'. b64_dec_loop
      (b64_sym (b64_c0 a) # b64_sym (b64_c1 a b) # b64_sym (b64_c2 b c) # b64_sym (b64_c3 c) # cs)
      j accum 0 out = b64_dec_loop cs (Suc (Suc (Suc j))) accum' 0 (put_at out j [a, b, c])"
  using assms
  by (simp add: b64_dec_sym b64_sextet_less wr_put put_at_put_at b64_byte_push) blast

lemma b64_dec_ref:
  assumes "j + length inp \<le> length out"
  shows "b64_dec_loop (b64_ref inp) j accum 0 out =
    Some (c_int (j + length inp), put_at out j inp)"
  using assms
proof (induction inp arbitrary: j accum out rule: b64_ref.induct)
  case 1
  then show ?case by simp
next
  case (2 a)
  then show ?case
    by (simp add: b64_dec_sym b64_sextet_less b64_dec_pad wr_put b64_byte_push)
next
  case (3 a b)
  then show ?case
    by (simp add: b64_dec_sym b64_sextet_less b64_dec_pad wr_put put_at_put_at b64_byte_push)
next
  case (4 a b c rest)
  then have "j + 3 \<le> length out" by simp
  then obtain accum' where
    "b64_dec_loop (b64_ref (a # b # c # rest)) j accum 0 out =
      b64_dec_loop (b64_ref rest) (Suc (Suc (Suc j))) accum' 0 (put_at out j [a, b, c])"
    using b64_dec_group [of j out a b c "b64_ref rest" accum] by auto
  with 4 show ?case by (simp add: put_at_put_at)
qed

subsection \<open>Memory safety and the two directions\<close>

lemma b64_dec_loop_safe:
  "\<exists>r out'. b64_dec_loop cs j accum bits out = Some (r, out') \<and> length out' = length out \<and>
     (j \<le> length out \<longrightarrow> length out < 2 ^ 31 \<longrightarrow> r \<le> int (length out))"
proof (induction cs arbitrary: j accum bits out)
  case Nil
  then show ?case by simp
next
  case (Cons c cs)
  let ?val = "b64_decode_table ! unat c"
  let ?acc = "push_bit 6 accum OR ucast ?val"
  let ?byte = "ucast (drop_bit (bits + 6 - 8) ?acc AND 0xFF)"
  consider (skip) "b64_space c" | (stop) "\<not> b64_space c" "c = 61 \<or> ?val = 255"
    | (few) "\<not> b64_space c" "c \<noteq> 61" "?val \<noteq> 255" "\<not> bits + 6 \<ge> 8"
    | (full) "\<not> b64_space c" "c \<noteq> 61" "?val \<noteq> 255" "bits + 6 \<ge> 8" "j \<ge> length out"
    | (store) "\<not> b64_space c" "c \<noteq> 61" "?val \<noteq> 255" "bits + 6 \<ge> 8" "j < length out"
    by linarith
  then show ?case
  proof cases
    case store
    define out' where "out' = take j out @ [?byte] @ drop (j + 1) out"
    have "wr out j [?byte] = Some out'" and "length out' = length out"
      using store by (simp_all add: wr_def out'_def)
    with store Cons.IH [of "j + 1" ?acc "bits + 6 - 8" out'] show ?thesis
      by (simp only: b64_dec_loop.simps Let_def if_False if_True not_le bind.bind_lunit
          Suc_eq_plus1 [symmetric] Suc_le_eq) simp
  qed (use Cons.IH in \<open>simp_all only: b64_dec_loop.simps Let_def if_False if_True\<close>; auto)+
qed

lemma base64_encode_ref:
  assumes "4 * ((length inp + 2) div 3) \<le> length out" and "length out < 2 ^ 31"
  shows "base64_encode (Some inp) (Some out) =
    Some (int (length (b64_ref inp)), Some (b64_ref inp @ drop (length (b64_ref inp)) out))"
proof -
  let ?n = "4 * ((length inp + 2) div 3)"
  have n: "?n < 2 ^ 31" using assms by linarith
  moreover have "length inp + 2 < 2 ^ 32" using assms by simp
  ultimately have "base64_encoded_length (length inp) = ?n"
    by (simp add: base64_encoded_length_def ac_simps)
  moreover have "b64_enc_loop inp 0 0 out = Some (b64_ref inp @ drop ?n out)"
    using b64_enc_loop_ref [of 0 0 inp out] assms(1) by (simp add: length_b64_ref)
  ultimately show ?thesis
    using assms n by (simp add: base64_encode_def length_b64_ref)
qed

text \<open>
  The encoder writes the reference encoding of its input at the start of the output buffer,
  leaves the rest of the buffer alone and returns the length it announced, and the decoder turns
  that encoding back into the input, in a buffer of three bytes per group of four symbols.
\<close>

theorem base64_roundtrip:
  assumes "4 * ((length inp + 2) div 3) \<le> length out" and "length out < 2 ^ 31"
    and "3 * ((length inp + 2) div 3) \<le> length dst" and "dst \<noteq> []" and "length dst < 2 ^ 31"
  shows "\<exists>n text. base64_encode (Some inp) (Some out) =
        Some (int n, Some (text @ drop n out)) \<and>
      n = base64_encoded_length (length inp) \<and> length text = n \<and>
      base64_decode (Some text) (Some dst) =
        Some (int (length inp), Some (inp @ drop (length inp) dst))"
proof -
  let ?n = "4 * ((length inp + 2) div 3)"
  let ?act = "length (filter (\<lambda>c. \<not> b64_space c) (b64_ref inp))"
  have inp: "length inp \<le> length dst" using assms(3) by linarith
  have "?act \<le> ?n"
    using length_filter_le [of _ "b64_ref inp"] by (simp add: length_b64_ref)
  moreover have "sz_mul ?act 3 \<le> ?act * 3" by (simp add: sz_mul_def sz_def)
  ultimately have cap: "sz_mul ?act 3 div 4 \<le> length dst" using assms(3) by linarith
  have len: "base64_encoded_length (length inp) = ?n"
    using assms by (simp add: base64_encoded_length_def ac_simps)
  have "base64_decode (Some (b64_ref inp)) (Some dst) =
      Some (int (length inp), Some (inp @ drop (length inp) dst))"
    using assms inp cap b64_dec_ref [of 0 inp dst 0]
    by (simp add: base64_decode_def put_at_def)
  with base64_encode_ref [OF assms(1,2)] show ?thesis
    by (intro exI [of _ ?n] exI [of _ "b64_ref inp"]) (simp add: len length_b64_ref)
qed

theorem base64_roundtrip_witness:
  "\<exists>n text. base64_encode (Some (ascii ''plist'')) (Some (replicate 10 0)) =
      Some (int n, Some (text @ drop n (replicate 10 0))) \<and>
    n = base64_encoded_length (length (ascii ''plist'')) \<and> length text = n \<and>
    base64_decode (Some text) (Some (replicate 6 7)) =
      Some (int (length (ascii ''plist'')), Some (ascii ''plist'' @ drop (length (ascii ''plist'')) (replicate 6 7)))"
  by (rule base64_roundtrip [of "ascii ''plist''" "replicate 10 0" "replicate 6 7"]) simp_all

text \<open>
  The decoder is total and memory safe on every input text: it never writes outside the
  output buffer, never changes its size, and reports at most as many bytes as the buffer holds.
\<close>

theorem base64_decode_safe:
  assumes "length out < 2 ^ 31"
  shows "\<exists>r out'. base64_decode (Some inp) (Some out) = Some (r, Some out') \<and>
    length out' = length out \<and> r \<le> int (length out)"
  using assms b64_dec_loop_safe [of inp 0 0 0 out]
  by (auto simp: base64_decode_def Let_def)

theorem base64_decode_safe_witness:
  "\<exists>r out'. base64_decode (Some (ascii ''QUJDRA'')) (Some (replicate 2 0)) = Some (r, Some out') \<and>
    length out' = 2 \<and> r \<le> 2"
  using base64_decode_safe [of "replicate 2 0" "ascii ''QUJDRA''"] by simp

end
