(* ===== verification/Writer.thy ===== *)
theory Writer
  imports Prelude
begin

section \<open>Writing into a bounded buffer\<close>

text \<open>
  The C code has one way of producing messages: a function takes the caller's buffer, a position
  and the capacity, appends its encoding and moves the position, or reports that there is no
  room. This theory holds what the encoders share: the state of such a writer, the unguarded
  stores (\<open>emit\<close>, where leaving the buffer is \<open>None\<close>), C's \<open>&&\<close> on writers, and the contract
  \<open>bounded_writer\<close> that each encoder interprets: it appends its encoding when that fits and else
  reports failure, and it never leaves the buffer. The capacity is the length of the buffer.
\<close>

type_synonym bw = "bytes \<times> nat"
type_synonym writer = "bw \<Rightarrow> (bool \<times> bw) mem"

text \<open>The stores \<open>out[(*pos)++] = b\<close> for the bytes \<open>b\<close> of a list.\<close>

definition emit :: "bytes \<Rightarrow> bw \<Rightarrow> bw mem" where
  "emit bs s = (case s of (out, pos) \<Rightarrow> do { out \<leftarrow> wr out pos bs; Some (out, pos + length bs) })"

text \<open>The code's \<open>&&\<close>: the second writer runs only when the first one has succeeded.\<close>

definition w_and :: "writer \<Rightarrow> writer \<Rightarrow> writer" where
  "w_and w1 w2 s = do { (ok, s) \<leftarrow> w1 s; if ok then w2 s else Some (False, s) }"

lemma emit_room: "pos + length bs \<le> length out \<Longrightarrow>
    emit bs (out, pos) = Some (put_at out pos bs, pos + length bs)"
  by (simp add: emit_def wr_put)

subsection \<open>The contract of a writer\<close>

locale bounded_writer =
  fixes put :: "bw \<Rightarrow> (bool \<times> bw) mem" and enc :: bytes and valid :: bool
  assumes write_fits: "valid \<Longrightarrow> pos + length enc \<le> length out \<Longrightarrow>
      put (out, pos) = Some (True, put_at out pos enc, pos + length enc)"
    and write_full: "pos \<le> length out \<Longrightarrow> \<not> (valid \<and> pos + length enc \<le> length out) \<Longrightarrow>
      \<exists>out' pos'. put (out, pos) = Some (False, out', pos') \<and> length out' = length out \<and>
        pos' \<le> length out"
begin

lemma write_safe: "pos \<le> length out \<Longrightarrow> put (out, pos) \<noteq> None"
  using write_fits [of pos out] write_full [of pos out] by auto

lemma write_True_iff:
  "pos \<le> length out \<Longrightarrow>
    (\<exists>s. put (out, pos) = Some (True, s)) \<longleftrightarrow> valid \<and> pos + length enc \<le> length out"
  by (cases "valid \<and> pos + length enc \<le> length out")
    (use write_fits [of pos out] write_full [of pos out] in auto)

end

locale writer_pair = first: bounded_writer w1 e1 v1 + second: bounded_writer w2 e2 v2
  for w1 w2 :: "bw \<Rightarrow> (bool \<times> bw) mem" and e1 e2 :: bytes and v1 v2 :: bool
begin

lemma w_and_fits:
  assumes "v1 \<and> v2" "pos + length (e1 @ e2) \<le> length out"
  shows "w_and w1 w2 (out, pos) = Some (True, put_at out pos (e1 @ e2), pos + length (e1 @ e2))"
  using assms first.write_fits [of pos out] second.write_fits [of "pos + length e1" "put_at out pos e1"]
  by (simp add: w_and_def put_at_put_at)

lemma w_and_full:
  assumes "pos \<le> length out" "\<not> ((v1 \<and> v2) \<and> pos + length (e1 @ e2) \<le> length out)"
  shows "\<exists>out' pos'. w_and w1 w2 (out, pos) = Some (False, out', pos') \<and> length out' = length out \<and>
    pos' \<le> length out"
proof (cases "v1 \<and> pos + length e1 \<le> length out")
  case True
  then show ?thesis
    using assms first.write_fits [of pos out]
      second.write_full [of "pos + length e1" "put_at out pos e1"]
    by (auto simp: w_and_def)
next
  case False
  then show ?thesis using first.write_full [OF assms(1)] by (auto simp: w_and_def)
qed

lemma bounded_pair: "bounded_writer (w_and w1 w2) (e1 @ e2) (v1 \<and> v2)"
  by (rule bounded_writer.intro; rule w_and_fits w_and_full; assumption)

end

sublocale writer_pair \<subseteq> both: bounded_writer "w_and w1 w2" "e1 @ e2" "v1 \<and> v2"
  by (rule bounded_pair)

lemma bounded_writer_and:
  assumes "bounded_writer w1 e1 v1" "bounded_writer w2 e2 v2"
  shows "bounded_writer (w_and w1 w2) (e1 @ e2) (v1 \<and> v2)"
  using assms by (intro writer_pair.bounded_pair writer_pair.intro)

end
