(* ===== verification/Bplist_Reader.thy ===== *)
theory Bplist_Reader
  imports Prelude
begin

section \<open>Binary plist objects (main/plist/bplist_parser.c)\<close>

text \<open>
  The object readers of \<open>bplist_parser.c\<close>: big-endian integers, the trailer, the offset table,
  strings, data, integers, reals and container headers. Offsets and indices are \<open>uint64_t\<close>
  values, lengths and positions \<open>size_t\<close> ones. Every byte access goes through \<open>rd\<close>, so that a
  reader that leaves the buffer is \<open>None\<close>; the lemmas in \<open>mem_safe\<close> show that none does.
\<close>

subsection \<open>Object types and constants\<close>

definition BPLIST_INT :: u8 where "BPLIST_INT = 0x10"
definition BPLIST_REAL :: u8 where "BPLIST_REAL = 0x20"
definition BPLIST_DATA :: u8 where "BPLIST_DATA = 0x40"
definition BPLIST_STRING :: u8 where "BPLIST_STRING = 0x50"
definition BPLIST_UNICODE :: u8 where "BPLIST_UNICODE = 0x60"
definition BPLIST_UID :: u8 where "BPLIST_UID = 0x80"
definition BPLIST_ARRAY :: u8 where "BPLIST_ARRAY = 0xA0"
definition BPLIST_SET :: u8 where "BPLIST_SET = 0xC0"
definition BPLIST_DICT :: u8 where "BPLIST_DICT = 0xD0"

lemmas bplist_types = BPLIST_INT_def BPLIST_REAL_def BPLIST_DATA_def BPLIST_STRING_def
  BPLIST_UNICODE_def BPLIST_UID_def BPLIST_ARRAY_def BPLIST_SET_def BPLIST_DICT_def

definition UINT64_MAX :: nat where "UINT64_MAX = 2 ^ 64 - 1"

definition obj_type :: "u8 \<Rightarrow> u8" where
  "obj_type marker = marker AND 0xF0"

definition obj_info :: "u8 \<Rightarrow> nat" where
  "obj_info marker = unat (marker AND 0x0F)"

subsection \<open>Integers, trailer and offset table\<close>

fun read_be_loop :: "bytes \<Rightarrow> nat \<Rightarrow> nat \<Rightarrow> u64 \<Rightarrow> u64 mem" where
  "read_be_loop p at 0 val = Some val"
| "read_be_loop p at (Suc n) val = do {
     b \<leftarrow> rd p at;
     read_be_loop p (Suc at) n (push_bit 8 val OR ucast b)
   }"

definition read_be_int :: "bytes \<Rightarrow> nat \<Rightarrow> nat \<Rightarrow> nat mem" where
  "read_be_int p at n = map_option unat (read_be_loop p at n 0)"

record bp_trailer =
  offset_size :: nat
  ref_size :: nat
  num_objects :: nat
  top_object :: nat
  offset_table_offset :: nat

definition bplist_parse_trailer :: "bytes \<Rightarrow> bp_trailer option mem" where
  "bplist_parse_trailer p =
    (if length p < 32 then Some None
     else let trailer = length p - 32 in do {
       os \<leftarrow> rd p (trailer + 6);
       rs \<leftarrow> rd p (trailer + 7);
       n \<leftarrow> read_be_int p (trailer + 8) 8;
       top \<leftarrow> read_be_int p (trailer + 16) 8;
       table \<leftarrow> read_be_int p (trailer + 24) 8;
       let os = unat os; rs = unat rs in
       if \<not> (os > 0 \<and> os \<le> 8 \<and> rs > 0 \<and> rs \<le> 8 \<and> table < length p) then Some None
       else let table_capacity = (length p - table) div os in
         if n = 0 \<or> n > table_capacity \<or> top \<ge> n then Some None
         else Some (Some \<lparr>offset_size = os, ref_size = rs, num_objects = n, top_object = top,
           offset_table_offset = table\<rparr>)
     })"

text \<open>A zero \<open>offset_size\<close> would divide by zero, which C leaves undefined.\<close>

definition bplist_get_offset :: "bytes \<Rightarrow> nat \<Rightarrow> nat \<Rightarrow> nat \<Rightarrow> nat mem" where
  "bplist_get_offset p table osize obj_idx =
    (if table > length p then Some UINT64_MAX
     else if osize = 0 then None
     else let entries = sz_sub (length p) (sz table) div osize in
       if obj_idx \<ge> entries then Some UINT64_MAX
       else do {
         offset \<leftarrow> read_be_int p (sz (table + obj_idx * osize)) osize;
         Some (if offset \<ge> length p then UINT64_MAX else offset)
       })"

subsection \<open>Strings and data\<close>

text \<open>
  The header every sized object starts with: a length in the marker's low nibble or, when that
  is 15, in an integer object that follows. The result is the length and the position after
  the header.
\<close>

definition bplist_read_length :: "bytes \<Rightarrow> nat \<Rightarrow> (nat \<times> nat) option mem" where
  "bplist_read_length p offset = do {
     marker \<leftarrow> rd p offset;
     let len = obj_info marker; pos = sz (offset + 1) in
     if len = 0x0F then
       if pos \<ge> length p then Some None
       else do {
         len_marker \<leftarrow> rd p pos;
         let pos = sz_add pos 1 in
         if obj_type len_marker \<noteq> BPLIST_INT then Some None
         else let len_bytes = 2 ^ obj_info len_marker in
           if len_bytes > sz_sub (length p) pos then Some None
           else do {
             v \<leftarrow> read_be_int p pos len_bytes;
             Some (Some (sz v, sz_add pos len_bytes))
           }
       }
     else Some (Some (len, pos))
   }"

fun bplist_unicode_loop :: "bytes \<Rightarrow> nat \<Rightarrow> nat \<Rightarrow> nat \<Rightarrow> bytes \<Rightarrow> (bool \<times> bytes) mem" where
  "bplist_unicode_loop p pos i 0 out = Some (True, out)"
| "bplist_unicode_loop p pos i (Suc n) out = do {
     hi \<leftarrow> rd p (pos + i * 2);
     lo \<leftarrow> rd p (pos + i * 2 + 1);
     let code = push_bit 8 (ucast hi :: u16) OR ucast lo in
     if code > 0x7F then Some (False, out)
     else do {
       out \<leftarrow> wr out i [ucast code];
       bplist_unicode_loop p pos (i + 1) n out
     }
   }"

text \<open>The flag is the C return value; the buffer is the caller's, after the call.\<close>

definition bplist_read_string :: "bytes \<Rightarrow> nat \<Rightarrow> bytes \<Rightarrow> (bool \<times> bytes) mem" where
  "bplist_read_string p offset out =
    (if offset \<ge> length p then Some (False, out)
     else do {
       marker \<leftarrow> rd p offset;
       header \<leftarrow> bplist_read_length p offset;
       case header of
         None \<Rightarrow> Some (False, out)
       | Some (len, pos) \<Rightarrow>
           if obj_type marker = BPLIST_STRING then
             if len > sz_sub (length p) pos \<or> len \<ge> length out then Some (False, out)
             else do {
               bs \<leftarrow> rd_block p pos len;
               out \<leftarrow> wr out 0 bs;
               out \<leftarrow> wr out len [0];
               Some (True, out)
             }
           else if obj_type marker = BPLIST_UNICODE then
             let bytes = sz_mul len 2 in
             if bytes > sz_sub (length p) pos \<or> len \<ge> length out then Some (False, out)
             else do {
               (ok, out) \<leftarrow> bplist_unicode_loop p pos 0 len out;
               if ok then do {
                 out \<leftarrow> wr out len [0];
                 Some (True, out)
               } else Some (False, out)
             }
           else Some (False, out)
     })"

text \<open>On success: the caller's buffer with the data in front, and the data's length.\<close>

definition bplist_read_data :: "bytes \<Rightarrow> nat \<Rightarrow> bytes \<Rightarrow> (bytes \<times> nat) option mem" where
  "bplist_read_data p offset out =
    (if offset \<ge> length p then Some None
     else do {
       marker \<leftarrow> rd p offset;
       header \<leftarrow> bplist_read_length p offset;
       case header of
         None \<Rightarrow> Some None
       | Some (len, pos) \<Rightarrow>
           if obj_type marker = BPLIST_DATA then
             if len > sz_sub (length p) pos \<or> len > length out then Some None
             else do {
               bs \<leftarrow> rd_block p pos len;
               out \<leftarrow> wr out 0 bs;
               Some (Some (out, len))
             }
           else Some None
     })"

definition bplist_read_data_len :: "bytes \<Rightarrow> nat \<Rightarrow> nat option mem" where
  "bplist_read_data_len p offset =
    (if offset \<ge> length p then Some None
     else do {
       marker \<leftarrow> rd p offset;
       header \<leftarrow> bplist_read_length p offset;
       case header of
         None \<Rightarrow> Some None
       | Some (len, pos) \<Rightarrow>
           if obj_type marker = BPLIST_DATA then
             if len > sz_sub (length p) pos then Some None else Some (Some len)
           else Some None
     })"

definition bplist_read_string_len :: "bytes \<Rightarrow> nat \<Rightarrow> nat option mem" where
  "bplist_read_string_len p offset =
    (if offset \<ge> length p then Some None
     else do {
       marker \<leftarrow> rd p offset;
       header \<leftarrow> bplist_read_length p offset;
       case header of
         None \<Rightarrow> Some None
       | Some (len, pos) \<Rightarrow>
           if obj_type marker = BPLIST_STRING then
             if len > sz_sub (length p) pos then Some None else Some (Some len)
           else if obj_type marker = BPLIST_UNICODE then
             let bytes = sz_mul len 2 in
             if bytes > sz_sub (length p) pos then Some None else Some (Some len)
           else Some None
     })"

subsection \<open>Numbers and container headers\<close>

definition bplist_read_int :: "bytes \<Rightarrow> nat \<Rightarrow> int option mem" where
  "bplist_read_int p offset =
    (if offset \<ge> length p then Some None
     else do {
       marker \<leftarrow> rd p offset;
       if obj_type marker = BPLIST_INT then
         let len = 2 ^ obj_info marker in
         if offset + 1 + len > length p then Some None
         else do {
           v \<leftarrow> read_be_int p (offset + 1) len;
           Some (Some (c_int64 v))
         }
       else Some None
     })"

text \<open>
  A real is kept as the bits the code hands to the FPU: a single that is widened, a double, or
  an integer that is converted (\<open>bplist_find_real\<close>).
\<close>

datatype bp_real = Single u32 | Double u64 | Of_Int int

definition bplist_read_real :: "bytes \<Rightarrow> nat \<Rightarrow> bp_real option mem" where
  "bplist_read_real p offset =
    (if offset \<ge> length p then Some None
     else do {
       marker \<leftarrow> rd p offset;
       if obj_type marker = BPLIST_REAL then
         let len = 2 ^ obj_info marker in
         if offset + 1 + len > length p then Some None
         else if len = 4 then do {
           bits \<leftarrow> read_be_int p (offset + 1) 4;
           Some (Some (Single (of_nat bits)))
         }
         else if len = 8 then do {
           bits \<leftarrow> read_be_int p (offset + 1) 8;
           Some (Some (Double (of_nat bits)))
         }
         else Some None
       else Some None
     })"

text \<open>The count and the length of the header of a container.\<close>

definition bplist_parse_count :: "bytes \<Rightarrow> nat \<Rightarrow> (nat \<times> nat) option mem" where
  "bplist_parse_count p offset =
    (if offset \<ge> length p then Some None
     else do {
       marker \<leftarrow> rd p offset;
       let info = obj_info marker; pos = sz (offset + 1) in
       if info = 0x0F then
         if pos \<ge> length p then Some None
         else do {
           len_marker \<leftarrow> rd p pos;
           let pos = sz_add pos 1; len_bytes = 2 ^ obj_info len_marker in
           if len_bytes > sz_sub (length p) pos then Some None
           else do {
             count \<leftarrow> read_be_int p pos len_bytes;
             Some (Some (sz count, sz_sub (sz_add pos len_bytes) (sz offset)))
           }
         }
       else Some (Some (info, sz_sub pos (sz offset)))
     })"

subsection \<open>What the readers return\<close>

text \<open>One turn of the loop of \<open>read_be_int\<close> appends a byte, modulo \<open>2 ^ 64\<close>.\<close>

lemma push_byte:
  "unat (push_bit 8 v OR ucast (b :: u8) :: u64) = (256 * unat v + unat b) mod 2 ^ 64"
proof -
  have "(push_bit 8 v AND ucast b :: u64) = 0"
    by (rule bit_word_eqI) (auto simp: bit_simps dest: bit_u8_less)
  then have "push_bit 8 v OR ucast b = push_bit 8 v + (ucast b :: u64)"
    by (simp add: disjunctive_add_eq_or)
  then have "push_bit 8 v OR ucast b = 256 * v + (ucast b :: u64)"
    by (simp add: push_bit_eq_mult)
  then show ?thesis by (simp add: unat_word_ariths mod_simps)
qed

lemma read_be_loop_val:
  assumes "at + n \<le> length p"
  shows "\<exists>w. read_be_loop p at n val = Some w \<and>
    unat w = foldl (\<lambda>v b. (256 * v + unat b) mod 2 ^ 64) (unat val) (take n (drop at p))"
  using assms
proof (induction n arbitrary: at val)
  case 0
  then show ?case by simp
next
  case (Suc n)
  have "take (Suc n) (drop at p) = p ! at # take n (drop (Suc at) p)"
    using Suc.prems by (simp add: Cons_nth_drop_Suc [symmetric])
  then show ?case
    using Suc.IH [of "Suc at" "push_bit 8 val OR ucast (p ! at)"] Suc.prems
    by (simp add: push_byte del: push_bit_eq_mult)
qed

lemma foldl_be_mod:
  "foldl (\<lambda>v b. (256 * v + unat (b :: u8)) mod 2 ^ 64) (a mod 2 ^ 64) bs =
    foldl (\<lambda>v b. 256 * v + unat b) a bs mod 2 ^ 64"
proof (induction bs arbitrary: a)
  case Nil
  then show ?case by simp
next
  case (Cons b bs)
  have "(256 * (a mod 2 ^ 64) + unat b) mod 2 ^ 64 = (256 * a + unat b) mod 2 ^ 64"
    by (metis mod_add_left_eq mod_mult_right_eq)
  with Cons [of "256 * a + unat b"] show ?case by simp
qed

lemma read_be_int_val:
  assumes "at + n \<le> length p"
  shows "read_be_int p at n = Some (be_val (take n (drop at p)) mod 2 ^ 64)"
  using read_be_loop_val [OF assms, of 0] foldl_be_mod [of 0]
  by (auto simp: read_be_int_def be_val_def simp del: power_numeral)

lemma read_be_int_short:
  assumes "at + n \<le> length p" and "n \<le> 8"
  shows "read_be_int p at n = Some (be_val (take n (drop at p)))"
proof -
  have "be_val (take n (drop at p)) < 256 ^ length (take n (drop at p))" by (rule be_val_less)
  also have "\<dots> \<le> 256 ^ 8" using assms(2) by (intro power_increasing) auto
  finally show ?thesis using assms by (simp add: read_be_int_val)
qed

lemma read_be_int_safe [mem_safe]: "at + n \<le> length p \<Longrightarrow> read_be_int p at n \<noteq> None"
  by (simp add: read_be_int_val)

subsection \<open>The trailer and the offset table\<close>

text \<open>What the trailer check guarantees; \<open>wf_trailer\<close> is the invariant all walks rely on.\<close>

definition wf_trailer :: "bytes \<Rightarrow> bp_trailer \<Rightarrow> bool" where
  "wf_trailer p t \<longleftrightarrow> 0 < offset_size t \<and> offset_size t \<le> 8 \<and> 0 < ref_size t \<and> ref_size t \<le> 8 \<and>
    offset_table_offset t < length p \<and> top_object t < num_objects t \<and>
    offset_table_offset t + num_objects t * offset_size t \<le> length p"

lemma bplist_parse_trailer_cases:
  obtains "bplist_parse_trailer p = Some None"
  | t where "bplist_parse_trailer p = Some (Some t)" "wf_trailer p t"
proof (cases "length p < 32")
  case True
  then show thesis using that(1) by (simp add: bplist_parse_trailer_def)
next
  case False
  define b where "b = length p - 32"
  have b: "b + 32 = length p" using False by (simp add: b_def)
  have rd: "\<exists>n. read_be_int p (b + k) 8 = Some n" if "k \<le> 24" for k
    using read_be_int_safe [of "b + k" 8 p] b that by auto
  obtain n top table where r: "read_be_int p (b + 8) 8 = Some n"
    "read_be_int p (b + 16) 8 = Some top" "read_be_int p (b + 24) 8 = Some table"
    using rd [of 8] rd [of 16] rd [of 24] by auto
  have m: "rd p (b + 6) = Some (p ! (b + 6))" "rd p (b + 7) = Some (p ! (b + 7))"
    using b by simp_all
  let ?os = "unat (p ! (b + 6))" and ?rs = "unat (p ! (b + 7))"
  let ?ok = "?os > 0 \<and> ?os \<le> 8 \<and> ?rs > 0 \<and> ?rs \<le> 8 \<and> table < length p"
  let ?bad = "n = 0 \<or> n > (length p - table) div ?os \<or> top \<ge> n"
  let ?t = "\<lparr>offset_size = ?os, ref_size = ?rs, num_objects = n, top_object = top,
      offset_table_offset = table\<rparr>"
  have eq: "bplist_parse_trailer p = (if \<not> ?ok \<or> ?bad then Some None else Some (Some ?t))"
    unfolding bplist_parse_trailer_def Let_def b_def [symmetric] r m bind.bind_lunit
    using False by auto
  show thesis
  proof (cases "\<not> ?ok \<or> ?bad")
    case True
    with eq show ?thesis using that(1) by simp
  next
    case ok: False
    then have "n * ?os \<le> length p - table"
      using div_times_less_eq_dividend [of "length p - table" ?os] mult_le_mono1 [of n] 
      by (meson le_trans not_less)
    then have "table + n * ?os \<le> length p" using ok by arith
    then have "wf_trailer p ?t" using ok by (simp add: wf_trailer_def)
    moreover have "bplist_parse_trailer p = Some (Some ?t)" using eq ok by (simp only: if_False)
    ultimately show ?thesis using that(2) by blast
  qed
qed

text \<open>
  The offset table lookup is total, and its result is an index of the buffer or the sentinel.
\<close>

lemma bplist_get_offset_val:
  assumes "table < length p" "0 < osize" "osize \<le> 8" "length p < 2 ^ 31"
  shows "bplist_get_offset p table osize idx = Some
    (if idx < (length p - table) div osize \<and>
        be_val (take osize (drop (table + idx * osize) p)) < length p
     then be_val (take osize (drop (table + idx * osize) p)) else UINT64_MAX)"
proof -
  have small: "sz table = table" "sz_sub (length p) table = length p - table"
    using assms by simp_all
  show ?thesis
  proof (cases "idx < (length p - table) div osize")
    case True
    then have "Suc idx \<le> (length p - table) div osize" by simp
    then have "Suc idx * osize \<le> length p - table"
      by (meson div_times_less_eq_dividend le_trans mult_le_mono1)
    then have fit: "table + idx * osize + osize \<le> length p" using assms(1) by simp
    moreover have "sz (table + idx * osize) = table + idx * osize"
      using fit assms(4) by simp
    ultimately show ?thesis
      using True assms small read_be_int_short [OF fit assms(3)]
      by (simp add: bplist_get_offset_def Let_def)
  next
    case False
    then show ?thesis using assms small by (simp add: bplist_get_offset_def Let_def)
  qed
qed

lemma bplist_get_offset_cases:
  assumes "wf_trailer p t" "length p < 2 ^ 31"
  obtains off where
    "bplist_get_offset p (offset_table_offset t) (offset_size t) idx = Some off"
    "off < length p \<or> off = UINT64_MAX"
  using assms by (subst (asm) bplist_get_offset_val) (auto simp: wf_trailer_def split: if_splits)

lemma UINT64_MAX_big [simp]: "length (p :: bytes) < 2 ^ 31 \<Longrightarrow> \<not> UINT64_MAX < length p"
  by (simp add: UINT64_MAX_def)

subsection \<open>The readers stay inside their buffers\<close>

lemma obj_info_less: "obj_info m < 16"
proof -
  have "m AND 15 = take_bit 4 m" by (simp add: take_bit_eq_mask mask_eq_exp_minus_1)
  then have "unat (m AND 15) < 2 ^ 4" by (metis take_bit_nat_less_exp unsigned_take_bit_eq)
  then show ?thesis by (simp add: obj_info_def)
qed

lemma pow_obj_info_less: "(2 :: nat) ^ obj_info m < 2 ^ 16"
  using power_strict_increasing [OF obj_info_less [of m], of "2 :: nat"] by simp

lemma bplist_read_length_cases:
  assumes "offset < length p" "length p < 2 ^ 31"
  obtains "bplist_read_length p offset = Some None"
  | len pos where "bplist_read_length p offset = Some (Some (len, pos))"
      "offset < pos" "pos \<le> length p" "len < 2 ^ 32"
proof (cases "obj_info (p ! offset) = 15")
  case False
  then show thesis
    using assms that(2) obj_info_less [of "p ! offset"]
    by (simp add: bplist_read_length_def Let_def)
next
  case True
  let ?m = "p ! Suc offset" and ?n = "(2 :: nat) ^ obj_info (p ! Suc offset)"
  consider (short) "Suc offset \<ge> length p"
    | (type) "Suc offset < length p" "obj_type ?m \<noteq> BPLIST_INT"
    | (long) "Suc offset < length p" "obj_type ?m = BPLIST_INT" "?n > length p - (offset + 2)"
    | (fits) "Suc offset < length p" "obj_type ?m = BPLIST_INT" "?n \<le> length p - (offset + 2)"
    by linarith
  then show thesis
  proof cases
    case fits
    then have "offset + 2 + ?n \<le> length p" by linarith
    then show ?thesis
      using fits True assms that(2) read_be_int_val [of "Suc (Suc offset)" ?n p]
      by (simp add: bplist_read_length_def Let_def)
  qed (use True assms that(1) in \<open>simp add: bplist_read_length_def Let_def\<close>)+
qed

lemma bplist_unicode_loop_safe:
  assumes "pos + 2 * (i + n) \<le> length p" "i + n \<le> length out"
  shows "\<exists>ok out'. bplist_unicode_loop p pos i n out = Some (ok, out') \<and> length out' = length out"
  using assms
proof (induction n arbitrary: i out)
  case 0
  then show ?case by auto
next
  case (Suc n)
  let ?code = "push_bit 8 (ucast (p ! (pos + i * 2)) :: u16) OR ucast (p ! (pos + i * 2 + 1))"
  have rd: "rd p (pos + i * 2) = Some (p ! (pos + i * 2))"
    "rd p (pos + i * 2 + 1) = Some (p ! (pos + i * 2 + 1))" using Suc.prems by simp_all
  have wr: "wr out i [x] = Some (put_at out i [x])" for x using Suc.prems by (simp add: wr_put)
  show ?case
    using Suc.IH [of "i + 1" "put_at out i [ucast ?code]"] Suc.prems
    unfolding bplist_unicode_loop.simps rd wr bind.bind_lunit Let_def by auto
qed

lemma bplist_read_string_safe:
  assumes "length p < 2 ^ 31" "length out < 2 ^ 31"
  shows "\<exists>ok out'. bplist_read_string p offset out = Some (ok, out') \<and> length out' = length out"
proof (cases "offset < length p")
  case False
  then show ?thesis by (auto simp: bplist_read_string_def)
next
  case True
  from True assms(1) show ?thesis
  proof (cases rule: bplist_read_length_cases)
    case 1
    with True show ?thesis by (auto simp: bplist_read_string_def)
  next
    case (2 len pos)
    have str: "\<exists>out'. Option.bind (rd_block p pos len) (\<lambda>bs. Option.bind (wr out 0 bs)
        (\<lambda>out. Option.bind (wr out len [0]) (\<lambda>out. Some (True, out)))) = Some (True, out') \<and>
        length out' = length out" if "len \<le> length p - pos" "len < length out"
      using that 2 by (simp add: wr_put)
    have uni: "\<exists>ok out'. bplist_unicode_loop p pos 0 len out = Some (ok, out') \<and>
        length out' = length out" if "sz_mul len 2 \<le> length p - pos" "len < length out"
      using that 2 assms(2) by (intro bplist_unicode_loop_safe) auto
    show ?thesis
      using True assms(1) 2 str uni by (auto simp: bplist_read_string_def Let_def wr_put not_le ex_bool_eq)
  qed
qed

lemma bplist_read_data_safe:
  assumes "length p < 2 ^ 31"
  shows "\<exists>r. bplist_read_data p offset out = Some r \<and>
    (\<forall>out' n. r = Some (out', n) \<longrightarrow> length out' = length out \<and> n \<le> length out)"
proof (cases "offset < length p")
  case False
  then show ?thesis by (simp add: bplist_read_data_def)
next
  case True
  from True assms show ?thesis
    by (cases rule: bplist_read_length_cases)
      (use assms in \<open>auto simp: bplist_read_data_def Let_def wr_put not_less\<close>)
qed

lemma bplist_read_data_len_safe [mem_safe]:
  assumes "length p < 2 ^ 31"
  shows "bplist_read_data_len p offset \<noteq> None"
proof (cases "offset < length p")
  case True
  from True assms show ?thesis
    by (cases rule: bplist_read_length_cases) (auto simp: bplist_read_data_len_def Let_def)
qed (simp add: bplist_read_data_len_def)

lemma bplist_read_string_len_safe [mem_safe]:
  assumes "length p < 2 ^ 31"
  shows "bplist_read_string_len p offset \<noteq> None"
proof (cases "offset < length p")
  case True
  from True assms show ?thesis
    by (cases rule: bplist_read_length_cases) (auto simp: bplist_read_string_len_def Let_def)
qed (simp add: bplist_read_string_len_def)

lemma bplist_read_int_safe [mem_safe]: "bplist_read_int p offset \<noteq> None"
  by (auto simp: bplist_read_int_def Let_def read_be_int_val)

lemma bplist_read_real_safe [mem_safe]: "bplist_read_real p offset \<noteq> None"
  by (auto simp: bplist_read_real_def Let_def read_be_int_val)

lemma bplist_parse_count_cases:
  assumes "offset < length p" "length p < 2 ^ 31"
  obtains "bplist_parse_count p offset = Some None"
  | count header where "bplist_parse_count p offset = Some (Some (count, header))"
      "0 < header" "offset + header \<le> length p" "count < 2 ^ 32"
proof (cases "obj_info (p ! offset) = 15")
  case False
  then show thesis
    using assms that(2) obj_info_less [of "p ! offset"]
    by (simp add: bplist_parse_count_def Let_def)
next
  case True
  let ?n = "(2 :: nat) ^ obj_info (p ! Suc offset)"
  consider (short) "Suc offset \<ge> length p"
    | (long) "Suc offset < length p" "?n > length p - (offset + 2)"
    | (fits) "Suc offset < length p" "?n \<le> length p - (offset + 2)"
    by linarith
  then show thesis
  proof cases
    case fits
    then have "offset + 2 + ?n \<le> length p" by linarith
    then show ?thesis
      using fits True assms that(2) read_be_int_val [of "Suc (Suc offset)" ?n p]
      by (simp add: bplist_parse_count_def Let_def)
  qed (use True assms that(1) in \<open>simp add: bplist_parse_count_def Let_def\<close>)+
qed

end
