(* ===== verification/Bplist_Query.thy ===== *)
theory Bplist_Query
  imports Bplist_Reader
begin

section \<open>Queries on binary plists (main/plist/bplist_parser.c)\<close>

text \<open>
  The queries the RTSP handlers make on a binary plist: a value by key in the top-level
  dictionary, a data value anywhere in the object graph, and the entries of the \<open>streams\<close>
  array. Loops over object references run over the list of their indices. A local C buffer
  such as \<open>found_key\<close> starts as zeros; the code reads it only after a reader has filled it.
\<close>

subsection \<open>Opening a plist\<close>

definition bplist_magic :: bytes where
  "bplist_magic = ascii ''bplist00''"

definition bp_header :: "bytes \<Rightarrow> bp_trailer option mem" where
  "bp_header p =
    (if length p < 40 \<or> take 8 p \<noteq> bplist_magic then Some None else bplist_parse_trailer p)"

definition bp_offset :: "bytes \<Rightarrow> bp_trailer \<Rightarrow> nat \<Rightarrow> nat mem" where
  "bp_offset p t idx = bplist_get_offset p (offset_table_offset t) (offset_size t) idx"

definition bp_open :: "bytes \<Rightarrow> (bp_trailer \<times> nat) option mem" where
  "bp_open p = do {
     header \<leftarrow> bp_header p;
     case header of
       None \<Rightarrow> Some None
     | Some t \<Rightarrow> do {
         top_offset \<leftarrow> bp_offset p t (top_object t);
         Some (if top_offset \<ge> length p then None else Some (t, top_offset))
       }
   }"

subsection \<open>Dictionaries\<close>

text \<open>The reference with index \<open>i\<close> in the reference array at \<open>refs\<close>.\<close>

definition bp_ref :: "bytes \<Rightarrow> bp_trailer \<Rightarrow> nat \<Rightarrow> nat \<Rightarrow> nat mem" where
  "bp_ref p t refs i = read_be_int p (sz_add refs (sz_mul i (ref_size t))) (ref_size t)"

text \<open>
  A dictionary's size and the position of its key references: once through
  \<open>bplist_parse_count\<close>, as \<open>bplist_find_data_in_dict\<close>, the recursive search and the stream
  queries do, and once with the header parsed in line, as \<open>bplist_find_int\<close> and its siblings do.
\<close>

definition bp_dict_counted :: "bytes \<Rightarrow> bp_trailer \<Rightarrow> nat \<Rightarrow> (nat \<times> nat) option mem" where
  "bp_dict_counted p t offset = do {
     c \<leftarrow> bplist_parse_count p offset;
     case c of
       None \<Rightarrow> Some None
     | Some (dict_size, header_len) \<Rightarrow>
         let pos = sz (offset + header_len) in
         if dict_size > sz_sub (length p) pos div (2 * ref_size t) then Some None
         else Some (Some (dict_size, pos))
   }"

definition bp_dict_inline :: "bytes \<Rightarrow> bp_trailer \<Rightarrow> nat \<Rightarrow> (nat \<times> nat) option mem" where
  "bp_dict_inline p t offset = do {
     marker \<leftarrow> rd p offset;
     if obj_type marker \<noteq> BPLIST_DICT then Some None
     else let dict_size = obj_info marker; pos = sz (offset + 1) in do {
       sized \<leftarrow>
         (if dict_size = 0x0F then
            if pos \<ge> length p then Some None
            else do {
              len_marker \<leftarrow> rd p pos;
              let pos = sz_add pos 1; len_bytes = 2 ^ obj_info len_marker in
              if len_bytes > sz_sub (length p) pos then Some None
              else do {
                v \<leftarrow> read_be_int p pos len_bytes;
                Some (Some (sz v, sz_add pos len_bytes))
              }
            }
          else Some (Some (dict_size, pos)));
       case sized of
         None \<Rightarrow> Some None
       | Some (dict_size, pos) \<Rightarrow>
           if dict_size > sz_sub (length p) pos div (2 * ref_size t) then Some None
           else Some (Some (dict_size, pos))
     }
   }"

definition bp_val_refs :: "bp_trailer \<Rightarrow> nat \<Rightarrow> nat \<Rightarrow> nat" where
  "bp_val_refs t pos dict_size = sz_add pos (sz_mul dict_size (ref_size t))"

text \<open>The key loop: the offset of the value of the first entry whose key equals \<open>key\<close>.\<close>

fun bp_find_key :: "bytes \<Rightarrow> bp_trailer \<Rightarrow> nat \<Rightarrow> nat \<Rightarrow> bytes \<Rightarrow> nat list \<Rightarrow> nat option mem" where
  "bp_find_key p t pos dict_size key [] = Some None"
| "bp_find_key p t pos dict_size key (i # is) = do {
     key_idx \<leftarrow> bp_ref p t pos i;
     key_offset \<leftarrow> bp_offset p t key_idx;
     (ok, found_key) \<leftarrow> bplist_read_string p key_offset (replicate 64 0);
     if ok \<and> cstr found_key = key then do {
       val_idx \<leftarrow> bp_ref p t (bp_val_refs t pos dict_size) i;
       val_offset \<leftarrow> bp_offset p t val_idx;
       Some (Some val_offset)
     }
     else bp_find_key p t pos dict_size key is
   }"

definition bplist_find_data_in_dict ::
  "bytes \<Rightarrow> bp_trailer \<Rightarrow> nat \<Rightarrow> bytes \<Rightarrow> bytes \<Rightarrow> (bytes \<times> nat) option mem" where
  "bplist_find_data_in_dict p t dict_offset key out =
    (if dict_offset \<ge> length p then Some None
     else do {
       marker \<leftarrow> rd p dict_offset;
       if obj_type marker \<noteq> BPLIST_DICT then Some None
       else do {
         d \<leftarrow> bp_dict_counted p t dict_offset;
         case d of
           None \<Rightarrow> Some None
         | Some (dict_size, pos) \<Rightarrow> do {
             v \<leftarrow> bp_find_key p t pos dict_size key [0..<dict_size];
             case v of
               None \<Rightarrow> Some None
             | Some val_offset \<Rightarrow> bplist_read_data p val_offset out
           }
       }
     })"

subsection \<open>The recursive search\<close>

fun bp_first_ref ::
  "(nat \<Rightarrow> 'r option mem) \<Rightarrow> bytes \<Rightarrow> bp_trailer \<Rightarrow> nat \<Rightarrow> nat list \<Rightarrow> 'r option mem" where
  "bp_first_ref f p t refs [] = Some None"
| "bp_first_ref f p t refs (i # is) = do {
     idx \<leftarrow> bp_ref p t refs i;
     r \<leftarrow> f idx;
     case r of None \<Rightarrow> bp_first_ref f p t refs is | Some x \<Rightarrow> Some (Some x)
   }"

text \<open>
  The first argument is the number of levels left: \<open>11 - depth\<close>, so that \<open>0\<close> is the code's
  \<open>depth > 10\<close>.
\<close>

primrec bplist_find_data_recursive ::
  "nat \<Rightarrow> bytes \<Rightarrow> bp_trailer \<Rightarrow> bytes \<Rightarrow> bytes \<Rightarrow> nat \<Rightarrow> (bytes \<times> nat) option mem" where
  "bplist_find_data_recursive 0 p t key out obj_idx = Some None"
| "bplist_find_data_recursive (Suc levels) p t key out obj_idx = do {
     offset \<leftarrow> bp_offset p t obj_idx;
     if offset \<ge> length p then Some None
     else do {
       marker \<leftarrow> rd p offset;
       if obj_type marker = BPLIST_DICT then do {
         d \<leftarrow> bp_dict_counted p t offset;
         case d of
           None \<Rightarrow> Some None
         | Some (dict_size, pos) \<Rightarrow> do {
             v \<leftarrow> bp_find_key p t pos dict_size key [0..<dict_size];
             case v of
               Some val_offset \<Rightarrow> bplist_read_data p val_offset out
             | None \<Rightarrow>
                 bp_first_ref (bplist_find_data_recursive levels p t key out) p t
                   (bp_val_refs t pos dict_size) [0..<dict_size]
           }
       }
       else if obj_type marker = BPLIST_ARRAY \<or> obj_type marker = BPLIST_SET then do {
         c \<leftarrow> bplist_parse_count p offset;
         case c of
           None \<Rightarrow> Some None
         | Some (count, header_len) \<Rightarrow>
             let pos = sz (offset + header_len) in
             if count > sz_sub (length p) pos div ref_size t then Some None
             else bp_first_ref (bplist_find_data_recursive levels p t key out) p t pos [0..<count]
       }
       else Some None
     }
   }"

subsection \<open>Public lookups\<close>

definition bplist_find_data :: "bytes \<Rightarrow> bytes \<Rightarrow> bytes \<Rightarrow> (bytes \<times> nat) option mem" where
  "bplist_find_data p key out = do {
     opened \<leftarrow> bp_open p;
     case opened of
       None \<Rightarrow> Some None
     | Some (t, top_offset) \<Rightarrow> bplist_find_data_in_dict p t top_offset key out
   }"

definition bplist_find_data_deep :: "bytes \<Rightarrow> bytes \<Rightarrow> bytes \<Rightarrow> (bytes \<times> nat) option mem" where
  "bplist_find_data_deep p key out = do {
     header \<leftarrow> bp_header p;
     case header of
       None \<Rightarrow> Some None
     | Some t \<Rightarrow> bplist_find_data_recursive 11 p t key out (top_object t)
   }"

text \<open>The part \<open>bplist_find_int\<close>, \<open>bplist_find_real\<close> and \<open>bplist_find_string\<close> have in common.\<close>

definition bp_find_top :: "bytes \<Rightarrow> bytes \<Rightarrow> nat option mem" where
  "bp_find_top p key = do {
     opened \<leftarrow> bp_open p;
     case opened of
       None \<Rightarrow> Some None
     | Some (t, top_offset) \<Rightarrow> do {
         d \<leftarrow> bp_dict_inline p t top_offset;
         case d of
           None \<Rightarrow> Some None
         | Some (dict_size, pos) \<Rightarrow> bp_find_key p t pos dict_size key [0..<dict_size]
       }
   }"

definition bplist_find_int :: "bytes \<Rightarrow> bytes \<Rightarrow> int option mem" where
  "bplist_find_int p key = do {
     v \<leftarrow> bp_find_top p key;
     case v of None \<Rightarrow> Some None | Some val_offset \<Rightarrow> bplist_read_int p val_offset
   }"

definition bplist_find_real :: "bytes \<Rightarrow> bytes \<Rightarrow> bp_real option mem" where
  "bplist_find_real p key = do {
     v \<leftarrow> bp_find_top p key;
     case v of
       None \<Rightarrow> Some None
     | Some val_offset \<Rightarrow> do {
         r \<leftarrow> bplist_read_real p val_offset;
         case r of
           Some x \<Rightarrow> Some (Some x)
         | None \<Rightarrow> do {
             n \<leftarrow> bplist_read_int p val_offset;
             Some (map_option Of_Int n)
           }
       }
   }"

definition bplist_find_string :: "bytes \<Rightarrow> bytes \<Rightarrow> bytes \<Rightarrow> (bool \<times> bytes) mem" where
  "bplist_find_string p key out = do {
     v \<leftarrow> bp_find_top p key;
     case v of
       None \<Rightarrow> Some (False, out)
     | Some val_offset \<Rightarrow> bplist_read_string p val_offset out
   }"

subsection \<open>References and dictionaries stay inside the buffer\<close>

text \<open>The standing assumptions of a walk: a checked trailer, in an object below 2 GiB.\<close>

definition bp_ok :: "bytes \<Rightarrow> bp_trailer \<Rightarrow> bool" where
  "bp_ok p t \<longleftrightarrow> wf_trailer p t \<and> length p < 2 ^ 31"

lemma bp_okD:
  assumes "bp_ok p t"
  shows "wf_trailer p t" and "length p < 2 ^ 31" and "0 < ref_size t" and "ref_size t \<le> 8"
  using assms by (auto simp: bp_ok_def wf_trailer_def)

lemma bp_offset_cases:
  assumes "bp_ok p t"
  obtains off where "bp_offset p t idx = Some off" "off < length p \<or> off = UINT64_MAX"
  using bplist_get_offset_cases [OF bp_okD(1,2) [OF assms], of idx]
  by (auto simp: bp_offset_def)

lemma bp_offset_safe [mem_safe]: "bp_ok p t \<Longrightarrow> bp_offset p t idx \<noteq> None"
  by (erule bp_offset_cases [of _ _ idx]) simp

lemma bp_ref_val:
  assumes "bp_ok p t" "refs + n * ref_size t \<le> length p" "i < n"
  shows "bp_ref p t refs i = Some (be_val (take (ref_size t) (drop (refs + i * ref_size t) p)))"
proof -
  have "Suc i * ref_size t \<le> n * ref_size t" using assms(3) by (intro mult_le_mono1) simp
  then have fit: "refs + i * ref_size t + ref_size t \<le> length p" using assms(2) by simp
  moreover have "length p < 2 ^ 31" by (rule bp_okD(2) [OF assms(1)])
  ultimately have "sz_add refs (sz_mul i (ref_size t)) = refs + i * ref_size t" by simp
  then show ?thesis
    using read_be_int_short [OF fit bp_okD(4) [OF assms(1)]] by (simp add: bp_ref_def)
qed

lemma bp_ref_safe [mem_safe]:
  "bp_ok p t \<Longrightarrow> refs + n * ref_size t \<le> length p \<Longrightarrow> i < n \<Longrightarrow> bp_ref p t refs i \<noteq> None"
  by (simp add: bp_ref_val)

lemma div_room:
  fixes n :: nat
  assumes "\<not> n > m div k"
  shows "n * k \<le> m"
  using assms by (meson div_times_less_eq_dividend le_trans mult_le_mono1 not_le)

lemma bp_dict_counted_cases:
  assumes "bp_ok p t" "offset < length p"
  obtains "bp_dict_counted p t offset = Some None"
  | dict_size pos where "bp_dict_counted p t offset = Some (Some (dict_size, pos))"
      "pos + dict_size * (2 * ref_size t) \<le> length p" "offset < pos"
proof -
  note len = bp_okD(2) [OF assms(1)]
  from assms(2) len show thesis
  proof (cases rule: bplist_parse_count_cases)
    case 1
    then show ?thesis using that(1) by (simp add: bp_dict_counted_def)
  next
    case (2 count header)
    then have pos: "sz (offset + header) = offset + header"
      "sz_sub (length p) (offset + header) = length p - (offset + header)"
      using len by simp_all
    show ?thesis
    proof (cases "count > (length p - (offset + header)) div (2 * ref_size t)")
      case True
      then show ?thesis using that(1) 2 pos by (simp add: bp_dict_counted_def Let_def)
    next
      case False
      then have "count * (2 * ref_size t) \<le> length p - (offset + header)" by (rule div_room)
      then have "offset + header + count * (2 * ref_size t) \<le> length p" using 2 by linarith
      then show ?thesis
        using that(2) 2 pos False by (simp add: bp_dict_counted_def Let_def)
    qed
  qed
qed

text \<open>The two ways the code opens a dictionary agree.\<close>

lemma bp_dict_inline_eq:
  assumes "bp_ok p t" "offset < length p"
  shows "bp_dict_inline p t offset =
    (if obj_type (p ! offset) \<noteq> BPLIST_DICT then Some None else bp_dict_counted p t offset)"
proof -
  note len = bp_okD(2) [OF assms(1)]
  consider "obj_info (p ! offset) \<noteq> 15" | "obj_info (p ! offset) = 15" "Suc offset \<ge> length p"
    | "obj_info (p ! offset) = 15" "Suc offset < length p"
      "2 ^ obj_info (p ! Suc offset) > length p - (offset + 2)"
    | "obj_info (p ! offset) = 15" "Suc offset < length p"
      "2 ^ obj_info (p ! Suc offset) \<le> length p - (offset + 2)"
    by linarith
  then show ?thesis
  proof cases
    case 1
    then show ?thesis using assms(2) len
      by (simp add: bp_dict_inline_def bp_dict_counted_def bplist_parse_count_def)
  next
    case 4
    let ?n = "(2 :: nat) ^ obj_info (p ! Suc offset)"
    have "offset + 2 + ?n \<le> length p" using 4 by linarith
    then show ?thesis using 4 assms(2) len read_be_int_val [of "Suc (Suc offset)" ?n p]
      by (simp add: bp_dict_inline_def bp_dict_counted_def bplist_parse_count_def Let_def)
  qed (use assms(2) len in
      \<open>simp add: bp_dict_inline_def bp_dict_counted_def bplist_parse_count_def Let_def\<close>)+
qed

lemma bp_dict_inline_cases:
  assumes "bp_ok p t" "offset < length p"
  obtains "bp_dict_inline p t offset = Some None"
  | dict_size pos where "bp_dict_inline p t offset = Some (Some (dict_size, pos))"
      "pos + dict_size * (2 * ref_size t) \<le> length p" "offset < pos"
      "obj_type (p ! offset) = BPLIST_DICT" "bp_dict_counted p t offset = Some (Some (dict_size, pos))"
proof (cases "obj_type (p ! offset) = BPLIST_DICT")
  case False
  then show thesis by (intro that(1)) (simp add: bp_dict_inline_eq [OF assms])
next
  case True
  then have "bp_dict_inline p t offset = bp_dict_counted p t offset"
    by (simp add: bp_dict_inline_eq [OF assms])
  then show thesis
    using that True by (metis bp_dict_counted_cases [OF assms])
qed

lemma bp_val_refs_eq:
  assumes "bp_ok p t" "pos + dict_size * (2 * ref_size t) \<le> length p"
  shows "bp_val_refs t pos dict_size = pos + dict_size * ref_size t"
  using assms bp_okD(2) [OF assms(1)] by (simp add: bp_val_refs_def)

lemma bp_refs_room:
  assumes "bp_ok p t" "pos + dict_size * (2 * ref_size t) \<le> length p"
  shows "pos + dict_size * ref_size t \<le> length p"
    and "bp_val_refs t pos dict_size + dict_size * ref_size t \<le> length p"
  using assms bp_val_refs_eq [OF assms] by (simp_all add: algebra_simps)

subsection \<open>The walks stay inside the buffer\<close>

lemma bp_find_key_step:
  assumes "bp_ok p t" "pos + dict_size * (2 * ref_size t) \<le> length p" "i < dict_size"
  obtains ok found val_offset where
    "\<And>is. bp_find_key p t pos dict_size key (i # is) =
      (if ok \<and> cstr found = key then Some (Some val_offset)
       else bp_find_key p t pos dict_size key is)"
    "val_offset < length p \<or> val_offset = UINT64_MAX"
proof -
  note room = bp_refs_room [OF assms(1,2)]
  obtain ki where ki: "bp_ref p t pos i = Some ki"
    using bp_ref_val [OF assms(1) room(1) assms(3)] by blast
  obtain ko where ko: "bp_offset p t ki = Some ko" using bp_offset_cases [OF assms(1)] .
  obtain ok found where str: "bplist_read_string p ko (replicate 64 0) = Some (ok, found)"
    using bplist_read_string_safe [of p "replicate 64 0" ko] bp_okD(2) [OF assms(1)] by auto
  obtain vi where vi: "bp_ref p t (bp_val_refs t pos dict_size) i = Some vi"
    using bp_ref_val [OF assms(1) room(2) assms(3)] by blast
  obtain vo where vo: "bp_offset p t vi = Some vo" "vo < length p \<or> vo = UINT64_MAX"
    using bp_offset_cases [OF assms(1)] .
  show thesis
    by (rule that [of ok found vo]) (simp_all add: ki ko str vi vo)
qed

lemma bp_find_key_cases:
  assumes "bp_ok p t" "pos + dict_size * (2 * ref_size t) \<le> length p" "set is \<subseteq> {..<dict_size}"
  shows "bp_find_key p t pos dict_size key is = Some None \<or>
    (\<exists>vo. bp_find_key p t pos dict_size key is = Some (Some vo) \<and>
      (vo < length p \<or> vo = UINT64_MAX))"
  using assms(3)
proof (induction "is")
  case Nil
  then show ?case by simp
next
  case (Cons i "is")
  then have i: "i < dict_size" by simp
  show ?case
    by (rule bp_find_key_step [OF assms(1,2) i, of key]) (use Cons in \<open>auto simp del: bp_find_key.simps\<close>)
qed

lemma bp_find_key_total:
  assumes "bp_ok p t" "pos + dict_size * (2 * ref_size t) \<le> length p"
  shows "bp_find_key p t pos dict_size key [0..<dict_size] = Some None \<or>
    (\<exists>vo. bp_find_key p t pos dict_size key [0..<dict_size] = Some (Some vo) \<and>
      (vo < length p \<or> vo = UINT64_MAX))"
  by (rule bp_find_key_cases [OF assms]) auto

lemma bp_first_ref_safe:
  assumes "bp_ok p t" "refs + n * ref_size t \<le> length p" "set is \<subseteq> {..<n}"
    and "\<And>idx. \<exists>r. f idx = Some r"
  shows "\<exists>r. bp_first_ref f p t refs is = Some r"
  using assms(3)
proof (induction "is")
  case (Cons i "is")
  then have i: "i < n" by simp
  obtain idx where idx: "bp_ref p t refs i = Some idx"
    using bp_ref_val [OF assms(1,2) i] by blast
  obtain r where "f idx = Some r" using assms(4) by blast
  then show ?case using Cons idx by (cases r) auto
qed simp

lemma bplist_read_data_total: "length p < 2 ^ 31 \<Longrightarrow> \<exists>r. bplist_read_data p offset out = Some r"
  using bplist_read_data_safe [of p offset out] by auto

lemma bplist_find_data_recursive_total:
  assumes "bp_ok p t"
  shows "\<exists>r. bplist_find_data_recursive levels p t key out idx = Some r"
proof (induction levels arbitrary: idx)
  case 0
  then show ?case by simp
next
  case (Suc levels)
  note len = bp_okD(2) [OF assms]
  let ?deep = "bplist_find_data_recursive levels p t key out"
  obtain off where off: "bp_offset p t idx = Some off" using bp_offset_cases [OF assms] .
  consider (none) "off \<ge> length p"
    | (dict) "off < length p" "obj_type (p ! off) = BPLIST_DICT"
    | (array) "off < length p" "obj_type (p ! off) \<noteq> BPLIST_DICT"
      "obj_type (p ! off) = BPLIST_ARRAY \<or> obj_type (p ! off) = BPLIST_SET"
    | (other) "off < length p" "obj_type (p ! off) \<noteq> BPLIST_DICT"
      "obj_type (p ! off) \<noteq> BPLIST_ARRAY" "obj_type (p ! off) \<noteq> BPLIST_SET"
    by fastforce
  then show ?case
  proof cases
    case dict
    show ?thesis
    proof (rule bp_dict_counted_cases [OF assms dict(1)])
      fix n pos assume d: "bp_dict_counted p t off = Some (Some (n, pos))"
        and room: "pos + n * (2 * ref_size t) \<le> length p"
      have "\<exists>r. bp_first_ref ?deep p t (bp_val_refs t pos n) [0..<n] = Some r"
        by (rule bp_first_ref_safe [OF assms bp_refs_room(2) [OF assms room]]) (auto simp: Suc)
      moreover have "\<exists>r. bplist_read_data p vo out = Some r" for vo
        using len by (rule bplist_read_data_total)
      ultimately show ?thesis
        using d off dict bp_find_key_total [OF assms room, of key] by auto
    qed (use dict off in auto)
  next
    case array
    show ?thesis
    proof (rule bplist_parse_count_cases [OF array(1) len])
      fix n h assume c: "bplist_parse_count p off = Some (Some (n, h))" "off + h \<le> length p"
      then have pos: "sz (off + h) = off + h" "sz_sub (length p) (off + h) = length p - (off + h)"
        using len by simp_all
      have "\<exists>r. bp_first_ref ?deep p t (off + h) [0..<n] = Some r"
        if "\<not> n > (length p - (off + h)) div ref_size t"
      proof (rule bp_first_ref_safe [OF assms])
        show "off + h + n * ref_size t \<le> length p" using div_room [OF that] c(2) by linarith
      qed (auto simp: Suc)
      then show ?thesis using c off array pos by (auto simp: Let_def)
    qed (use array off in auto)
  qed (use off in auto)
qed

lemma bp_header_cases:
  assumes "length p < 2 ^ 31"
  obtains "bp_header p = Some None" | t where "bp_header p = Some (Some t)" "bp_ok p t"
proof (rule bplist_parse_trailer_cases [of p])
  assume "bplist_parse_trailer p = Some None"
  then show thesis by (intro that(1)) (simp add: bp_header_def)
next
  fix t assume t: "bplist_parse_trailer p = Some (Some t)" "wf_trailer p t"
  then have "bp_ok p t" using assms by (simp add: bp_ok_def)
  with t that show thesis
    by (cases "length p < 40 \<or> take 8 p \<noteq> bplist_magic") (simp_all add: bp_header_def)
qed

lemma bp_open_cases:
  assumes "length p < 2 ^ 31"
  obtains "bp_open p = Some None"
  | t top where "bp_open p = Some (Some (t, top))" "bp_header p = Some (Some t)" "bp_ok p t"
      "top < length p" "bp_offset p t (top_object t) = Some top"
  using assms
proof (cases rule: bp_header_cases)
  case 1
  then show thesis using that(1) by (simp add: bp_open_def)
next
  case (2 t)
  obtain off where "bp_offset p t (top_object t) = Some off" using bp_offset_cases [OF 2(2)] .
  with 2 that show thesis by (cases "off < length p") (auto simp: bp_open_def)
qed

lemma bp_find_top_cases:
  assumes "length p < 2 ^ 31"
  shows "bp_find_top p key = Some None \<or> (\<exists>vo. bp_find_top p key = Some (Some vo))"
  using assms
proof (cases rule: bp_open_cases)
  case 1
  then show ?thesis by (simp add: bp_find_top_def)
next
  case (2 t top)
  from 2(3,4) show ?thesis
  proof (cases rule: bp_dict_inline_cases)
    case (2 n pos)
    then show ?thesis
      using bp_find_key_total [OF \<open>bp_ok p t\<close> 2(2), of key]
        \<open>bp_open p = Some (Some (t, top))\<close> by (auto simp: bp_find_top_def)
  qed (use 2 in \<open>simp add: bp_find_top_def\<close>)
qed

end
