(* ===== verification/Bplist_Streams.thy ===== *)
theory Bplist_Streams
  imports Bplist_Query
begin

section \<open>The streams array of a SETUP request (main/plist/bplist_parser.c)\<close>

text \<open>
  The queries that walk the \<open>streams\<close> array of a SETUP request: how many streams it has, the
  type and key lengths of one stream, a debug dump of one stream's entries, and the crypto
  fields of the stream of a given type. The three queries share their opening, which finds
  the array; it is \<open>bp_stream_array\<close> here.
\<close>

subsection \<open>Finding the array\<close>

text \<open>
  The scan over all objects for the string \<open>streams\<close>; no result stands for each way in which
  the C code then returns false (not found, or a length that cannot be read or is zero).
\<close>

fun bp_find_streams_key :: "bytes \<Rightarrow> bp_trailer \<Rightarrow> nat list \<Rightarrow> nat option mem" where
  "bp_find_streams_key p t [] = Some None"
| "bp_find_streams_key p t (i # is) = do {
     offset \<leftarrow> bp_offset p t i;
     if offset \<ge> length p then bp_find_streams_key p t is
     else do {
       (ok, key) \<leftarrow> bplist_read_string p offset (replicate 16 0);
       if ok \<and> cstr key = ascii ''streams'' then do {
         l \<leftarrow> bplist_read_string_len p offset;
         Some (case l of None \<Rightarrow> None | Some n \<Rightarrow> if n = 0 then None else Some offset)
       }
       else bp_find_streams_key p t is
     }
   }"

text \<open>The entry loop: the array's offset, element count and header length.\<close>

fun bp_find_stream_array ::
  "bytes \<Rightarrow> bp_trailer \<Rightarrow> nat \<Rightarrow> nat \<Rightarrow> nat \<Rightarrow> nat list \<Rightarrow> (nat \<times> nat \<times> nat) option mem" where
  "bp_find_stream_array p t pos dict_size key_at [] = Some None"
| "bp_find_stream_array p t pos dict_size key_at (i # is) = do {
     key_idx \<leftarrow> bp_ref p t pos i;
     key_offset \<leftarrow> bp_offset p t key_idx;
     if key_offset = key_at then do {
       val_idx \<leftarrow> bp_ref p t (bp_val_refs t pos dict_size) i;
       val_offset \<leftarrow> bp_offset p t val_idx;
       if val_offset \<ge> length p then Some None
       else do {
         val_marker \<leftarrow> rd p val_offset;
         if obj_type val_marker \<noteq> BPLIST_ARRAY then Some None
         else do {
           c \<leftarrow> bplist_parse_count p val_offset;
           Some (map_option (\<lambda>(array_count, header_len). (val_offset, array_count, header_len)) c)
         }
       }
     }
     else bp_find_stream_array p t pos dict_size key_at is
   }"

definition bp_stream_array :: "bytes \<Rightarrow> (bp_trailer \<times> nat \<times> nat \<times> nat) option mem" where
  "bp_stream_array p = do {
     opened \<leftarrow> bp_open p;
     case opened of
       None \<Rightarrow> Some None
     | Some (t, top_offset) \<Rightarrow> do {
         k \<leftarrow> bp_find_streams_key p t [0..<num_objects t];
         case k of
           None \<Rightarrow> Some None
         | Some key_at \<Rightarrow> do {
             d \<leftarrow> bp_dict_inline p t top_offset;
             case d of
               None \<Rightarrow> Some None
             | Some (dict_size, pos) \<Rightarrow> do {
                 a \<leftarrow> bp_find_stream_array p t pos dict_size key_at [0..<dict_size];
                 Some (map_option (Pair t) a)
               }
           }
       }
   }"

definition bplist_get_streams_count :: "bytes \<Rightarrow> nat option mem" where
  "bplist_get_streams_count p = do {
     a \<leftarrow> bp_stream_array p;
     Some (map_option (\<lambda>(t, val_offset, array_count, header_len). array_count) a)
   }"

subsection \<open>One stream\<close>

text \<open>The dictionary of stream \<open>index\<close>: its size and the position of its key references.\<close>

definition bp_stream_dict ::
  "bytes \<Rightarrow> nat \<Rightarrow> (bp_trailer \<times> nat \<times> nat) option mem" where
  "bp_stream_dict p index = do {
     a \<leftarrow> bp_stream_array p;
     case a of
       None \<Rightarrow> Some None
     | Some (t, val_offset, array_count, header_len) \<Rightarrow>
         if index \<ge> array_count then Some None
         else let array_pos = sz (val_offset + header_len) in
           if array_count > sz_sub (length p) array_pos div ref_size t then Some None
           else do {
             stream_idx \<leftarrow> bp_ref p t array_pos index;
             stream_offset \<leftarrow> bp_offset p t stream_idx;
             if stream_offset \<ge> length p then Some None
             else do {
               stream_marker \<leftarrow> rd p stream_offset;
               if obj_type stream_marker \<noteq> BPLIST_DICT then Some None
               else do {
                 d \<leftarrow> bp_dict_counted p t stream_offset;
                 Some (map_option (Pair t) d)
               }
             }
           }
   }"

record stream_info =
  si_type :: int
  si_ekey_len :: nat
  si_eiv_len :: nat
  si_shk_len :: nat

fun bp_stream_info_loop ::
  "bytes \<Rightarrow> bp_trailer \<Rightarrow> nat \<Rightarrow> nat \<Rightarrow> nat list \<Rightarrow> stream_info \<Rightarrow> stream_info mem" where
  "bp_stream_info_loop p t pos dict_size [] s = Some s"
| "bp_stream_info_loop p t pos dict_size (j # js) s = do {
     key_idx \<leftarrow> bp_ref p t pos j;
     key_offset \<leftarrow> bp_offset p t key_idx;
     (ok, stream_key) \<leftarrow> bplist_read_string p key_offset (replicate 32 0);
     if \<not> ok then bp_stream_info_loop p t pos dict_size js s
     else do {
       val_idx \<leftarrow> bp_ref p t (bp_val_refs t pos dict_size) j;
       val_offset \<leftarrow> bp_offset p t val_idx;
       s \<leftarrow>
         (if cstr stream_key = ascii ''type'' then do {
            v \<leftarrow> bplist_read_int p val_offset;
            Some (case v of None \<Rightarrow> s | Some type_val \<Rightarrow> s\<lparr>si_type := type_val\<rparr>)
          }
          else if cstr stream_key = ascii ''ekey'' then do {
            n \<leftarrow> bplist_read_data_len p val_offset;
            Some (case n of None \<Rightarrow> s | Some n \<Rightarrow> s\<lparr>si_ekey_len := n\<rparr>)
          }
          else if cstr stream_key = ascii ''eiv'' then do {
            n \<leftarrow> bplist_read_data_len p val_offset;
            Some (case n of None \<Rightarrow> s | Some n \<Rightarrow> s\<lparr>si_eiv_len := n\<rparr>)
          }
          else if cstr stream_key = ascii ''shk'' then do {
            n \<leftarrow> bplist_read_data_len p val_offset;
            Some (case n of None \<Rightarrow> s | Some n \<Rightarrow> s\<lparr>si_shk_len := n\<rparr>)
          }
          else Some s);
       bp_stream_info_loop p t pos dict_size js s
     }
   }"

definition stream_info_init :: stream_info where
  "stream_info_init = \<lparr>si_type = -1, si_ekey_len = 0, si_eiv_len = 0, si_shk_len = 0\<rparr>"

text \<open>The callers pass all four out-parameters; a false result leaves none that they read.\<close>

definition bplist_get_stream_info :: "bytes \<Rightarrow> nat \<Rightarrow> stream_info option mem" where
  "bplist_get_stream_info p index = do {
     d \<leftarrow> bp_stream_dict p index;
     case d of
       None \<Rightarrow> Some None
     | Some (t, dict_size, pos) \<Rightarrow> do {
         s \<leftarrow> bp_stream_info_loop p t pos dict_size [0..<dict_size] stream_info_init;
         Some (if si_type s \<noteq> -1 then Some s else None)
       }
   }"

subsection \<open>Key/value dump of a stream\<close>

datatype bp_value_type = VALUE_UNKNOWN | VALUE_INT | VALUE_DATA | VALUE_STRING | VALUE_UID
  | VALUE_ARRAY | VALUE_DICT

record kv_info =
  kv_key :: bytes
  kv_type :: bp_value_type
  kv_len :: nat
  kv_int :: int

definition bp_kv_value :: "bytes \<Rightarrow> bytes \<Rightarrow> nat \<Rightarrow> kv_info mem" where
  "bp_kv_value p stream_key val_offset = do {
     let info = \<lparr>kv_key = stream_key, kv_type = VALUE_UNKNOWN, kv_len = 0, kv_int = 0\<rparr>;
     marker \<leftarrow> rd p val_offset;
     let type = obj_type marker in
     if type = BPLIST_INT then do {
       v \<leftarrow> bplist_read_int p val_offset;
       Some (info\<lparr>kv_type := VALUE_INT, kv_int := (case v of None \<Rightarrow> 0 | Some n \<Rightarrow> n)\<rparr>)
     }
     else if type = BPLIST_DATA then do {
       n \<leftarrow> bplist_read_data_len p val_offset;
       Some (info\<lparr>kv_type := VALUE_DATA, kv_len := (case n of None \<Rightarrow> 0 | Some n \<Rightarrow> n)\<rparr>)
     }
     else if type = BPLIST_STRING \<or> type = BPLIST_UNICODE then do {
       n \<leftarrow> bplist_read_string_len p val_offset;
       Some (info\<lparr>kv_type := VALUE_STRING, kv_len := (case n of None \<Rightarrow> 0 | Some n \<Rightarrow> n)\<rparr>)
     }
     else Some (info\<lparr>kv_type :=
       (if type = BPLIST_UID then VALUE_UID else if type = BPLIST_ARRAY then VALUE_ARRAY
        else if type = BPLIST_DICT then VALUE_DICT else VALUE_UNKNOWN)\<rparr>)
   }"

text \<open>\<open>out\<close> is the filled part of the caller's array of \<open>cap\<close> entries.\<close>

fun bp_kv_loop ::
  "bytes \<Rightarrow> bp_trailer \<Rightarrow> nat \<Rightarrow> nat \<Rightarrow> nat \<Rightarrow> nat list \<Rightarrow> kv_info list \<Rightarrow> kv_info list option mem" where
  "bp_kv_loop p t pos dict_size cap [] out = Some (Some out)"
| "bp_kv_loop p t pos dict_size cap (j # js) out =
    (if length out \<ge> cap then Some (Some out)
     else do {
       key_idx \<leftarrow> bp_ref p t pos j;
       key_offset \<leftarrow> bp_offset p t key_idx;
       (ok, stream_key) \<leftarrow> bplist_read_string p key_offset (replicate 64 0);
       if \<not> ok then bp_kv_loop p t pos dict_size cap js out
       else do {
         val_idx \<leftarrow> bp_ref p t (bp_val_refs t pos dict_size) j;
         val_offset \<leftarrow> bp_offset p t val_idx;
         if val_offset \<ge> length p then Some None
         else do {
           info \<leftarrow> bp_kv_value p (cstr stream_key) val_offset;
           bp_kv_loop p t pos dict_size cap js (out @ [info])
         }
       }
     })"

definition bplist_get_stream_kv_info :: "bytes \<Rightarrow> nat \<Rightarrow> nat \<Rightarrow> kv_info list option mem" where
  "bplist_get_stream_kv_info p index cap =
    (if cap = 0 then Some None
     else do {
       d \<leftarrow> bp_stream_dict p index;
       case d of
         None \<Rightarrow> Some None
       | Some (t, dict_size, pos) \<Rightarrow> do {
           r \<leftarrow> bp_kv_loop p t pos dict_size cap [0..<dict_size] [];
           Some (case r of None \<Rightarrow> None | Some out \<Rightarrow> if length out > 0 then Some out else None)
         }
     })"

subsection \<open>Crypto fields of a stream\<close>

text \<open>One optional field: the buffer (\<open>None\<close> for a null pointer) and its length out-parameter.\<close>

record crypto_field =
  cf_buf :: "bytes option"
  cf_len :: nat

definition bp_copy_field ::
  "bytes \<Rightarrow> bytes \<Rightarrow> nat \<Rightarrow> crypto_field \<Rightarrow> bool \<Rightarrow> (crypto_field \<times> bool) mem" where
  "bp_copy_field p name local_len f found =
    (case cf_buf f of
       None \<Rightarrow> Some (f, found)
     | Some buf \<Rightarrow>
         if local_len > 0 then do {
           r \<leftarrow> bplist_find_data p name (replicate 512 0);
           case r of
             None \<Rightarrow> Some (f, found)
           | Some (temp_buf, temp_len) \<Rightarrow> do {
               let copy_len = (if temp_len < length buf then temp_len else length buf);
               bs \<leftarrow> rd_block temp_buf 0 copy_len;
               buf \<leftarrow> wr buf 0 bs;
               Some (f\<lparr>cf_buf := Some buf, cf_len := copy_len\<rparr>, True)
             }
         }
         else Some (f, found))"

type_synonym crypto_fields = "crypto_field \<times> crypto_field \<times> crypto_field"

text \<open>The stream loop, from stream \<open>i\<close> on with \<open>n\<close> streams left.\<close>

fun bp_crypto_loop ::
  "bytes \<Rightarrow> int \<Rightarrow> nat \<Rightarrow> nat \<Rightarrow> crypto_fields \<Rightarrow> (bool \<times> crypto_fields) mem" where
  "bp_crypto_loop p stream_type i 0 fs = Some (False, fs)"
| "bp_crypto_loop p stream_type i (Suc n) fs = do {
     info \<leftarrow> bplist_get_stream_info p i;
     case info of
       None \<Rightarrow> bp_crypto_loop p stream_type (i + 1) n fs
     | Some s \<Rightarrow>
         if si_type s \<noteq> stream_type then bp_crypto_loop p stream_type (i + 1) n fs
         else let (ekey, eiv, shk) = fs in do {
           (ekey, found) \<leftarrow> bp_copy_field p (ascii ''ekey'') (si_ekey_len s) ekey False;
           (eiv, found) \<leftarrow> bp_copy_field p (ascii ''eiv'') (si_eiv_len s) eiv found;
           (shk, found) \<leftarrow> bp_copy_field p (ascii ''shk'') (si_shk_len s) shk found;
           Some (found, (ekey, eiv, shk))
         }
   }"

definition bplist_find_stream_crypto ::
  "bytes \<Rightarrow> int \<Rightarrow> bytes option \<Rightarrow> bytes option \<Rightarrow> bytes option \<Rightarrow> (bool \<times> crypto_fields) mem" where
  "bplist_find_stream_crypto p stream_type ekey eiv shk =
    (let fs = (\<lparr>cf_buf = ekey, cf_len = 0\<rparr>, \<lparr>cf_buf = eiv, cf_len = 0\<rparr>,
               \<lparr>cf_buf = shk, cf_len = 0\<rparr>) in do {
       c \<leftarrow> bplist_get_streams_count p;
       case c of
         None \<Rightarrow> Some (False, fs)
       | Some stream_count \<Rightarrow> bp_crypto_loop p stream_type 0 stream_count fs
     })"


subsection \<open>The walks stay inside the buffer\<close>

lemma bp_walk_refs:
  assumes "bp_ok p t" "pos + dict_size * (2 * ref_size t) \<le> length p" "i < dict_size"
  obtains k v ko vo where "bp_ref p t pos i = Some k" "bp_offset p t k = Some ko"
    "bp_ref p t (bp_val_refs t pos dict_size) i = Some v" "bp_offset p t v = Some vo"
    "vo < length p \<or> vo = UINT64_MAX"
proof -
  note room = bp_refs_room [OF assms(1,2)]
  obtain k where k: "bp_ref p t pos i = Some k" using bp_ref_val [OF assms(1) room(1) assms(3)] by blast
  obtain ko where ko: "bp_offset p t k = Some ko" using bp_offset_cases [OF assms(1)] .
  obtain v where v: "bp_ref p t (bp_val_refs t pos dict_size) i = Some v"
    using bp_ref_val [OF assms(1) room(2) assms(3)] by blast
  obtain vo where "bp_offset p t v = Some vo" "vo < length p \<or> vo = UINT64_MAX"
    using bp_offset_cases [OF assms(1)] .
  then show thesis using that k ko v by blast
qed

lemma bp_string_at:
  assumes "bp_ok p t" "n < 2 ^ 31"
  obtains ok out where "bplist_read_string p offset (replicate n 0) = Some (ok, out)" "length out = n"
  using bplist_read_string_safe [OF bp_okD(2) [OF assms(1)], of "replicate n 0" offset] assms(2) by auto

lemma bp_find_streams_key_total:
  assumes "bp_ok p t"
  shows "\<exists>r. bp_find_streams_key p t is = Some r"
proof (induction "is")
  case (Cons i "is")
  obtain off where "bp_offset p t i = Some off" using bp_offset_cases [OF assms] .
  moreover obtain ok out where "bplist_read_string p off (replicate 16 0) = Some (ok, out)"
    by (rule bp_string_at [OF assms, of 16]) simp
  moreover obtain l where "bplist_read_string_len p off = Some l"
    using bplist_read_string_len_safe [OF bp_okD(2) [OF assms], of off] by blast
  ultimately show ?case using Cons by auto
qed simp

lemma bp_find_stream_array_total:
  assumes "bp_ok p t" "pos + n * (2 * ref_size t) \<le> length p" "set is \<subseteq> {..<n}"
  shows "\<exists>r. bp_find_stream_array p t pos n key_at is = Some r \<and>
    (\<forall>vo c h. r = Some (vo, c, h) \<longrightarrow> vo + h \<le> length p)"
  using assms(3)
proof (induction "is")
  case (Cons i "is")
  then have i: "i < n" by simp
  obtain k ko v vo where w: "bp_ref p t pos i = Some k" "bp_offset p t k = Some ko"
    "bp_ref p t (bp_val_refs t pos n) i = Some v" "bp_offset p t v = Some vo"
    by (rule bp_walk_refs [OF assms(1,2) i])
  have c: "(\<exists>c h. bplist_parse_count p vo = Some (Some (c, h)) \<and> vo + h \<le> length p) \<or>
      bplist_parse_count p vo = Some None" if "vo < length p"
    using that bp_okD(2) [OF assms(1)] by (rule bplist_parse_count_cases) auto
  show ?case using w c Cons by (cases "vo < length p") (auto simp: not_le)
qed simp

lemma bp_stream_array_cases:
  assumes "length p < 2 ^ 31"
  obtains "bp_stream_array p = Some None"
  | t vo c h where "bp_stream_array p = Some (Some (t, vo, c, h))" "bp_ok p t" "vo + h \<le> length p"
  using assms
proof (cases rule: bp_open_cases)
  case 1
  then show thesis using that(1) by (simp add: bp_stream_array_def)
next
  case (2 t top)
  obtain k where k: "bp_find_streams_key p t [0..<num_objects t] = Some k"
    using bp_find_streams_key_total [OF 2(3)] by blast
  from 2(3,4) show thesis
  proof (cases rule: bp_dict_inline_cases)
    case 1
    then show thesis using that(1) 2 k by (cases k) (simp_all add: bp_stream_array_def)
  next
    case d: (2 n pos)
    show thesis
    proof (cases k)
      case None
      then show thesis using that(1) 2 k by (simp add: bp_stream_array_def)
    next
      case (Some key_at)
      obtain r where r: "bp_find_stream_array p t pos n key_at [0..<n] = Some r"
        "\<forall>vo c h. r = Some (vo, c, h) \<longrightarrow> vo + h \<le> length p"
        using bp_find_stream_array_total [OF 2(3) d(2), of "[0..<n]" key_at] by auto
      have "bp_stream_array p = Some (map_option (Pair t) r)"
        using 2(1) k Some d(1) r(1) by (simp add: bp_stream_array_def)
      then show thesis using that 2(3) r(2) by (cases r) auto
    qed
  qed
qed

lemma bp_stream_dict_cases:
  assumes "length p < 2 ^ 31"
  obtains "bp_stream_dict p index = Some None"
  | t n pos where "bp_stream_dict p index = Some (Some (t, n, pos))" "bp_ok p t"
      "pos + n * (2 * ref_size t) \<le> length p"
  using assms
proof (cases rule: bp_stream_array_cases)
  case 1
  then show thesis using that(1) by (simp add: bp_stream_dict_def)
next
  case (2 t vo c h)
  have pos: "sz (vo + h) = vo + h" "sz_sub (length p) (vo + h) = length p - (vo + h)"
    using 2(3) assms by simp_all
  show thesis
  proof (cases "index < c \<and> \<not> c > (length p - (vo + h)) div ref_size t")
    case False
    then show thesis using that(1) 2(1) pos by (auto simp: bp_stream_dict_def Let_def)
  next
    case True
    then have "c * ref_size t \<le> length p - (vo + h)" by (intro div_room) simp
    then have "vo + h + c * ref_size t \<le> length p" using 2(3) by linarith
    then obtain si where si: "bp_ref p t (vo + h) index = Some si"
      using bp_ref_val [OF 2(2)] True by blast
    obtain so where so: "bp_offset p t si = Some so" using bp_offset_cases [OF 2(2)] .
    have eq: "bp_stream_dict p index =
      (if so \<ge> length p \<or> obj_type (p ! so) \<noteq> BPLIST_DICT then Some None
       else map_option (map_option (Pair t)) (bp_dict_counted p t so))"
      using True 2(1) pos si so
      by (cases "bp_dict_counted p t so") (auto simp: bp_stream_dict_def Let_def)
    show thesis
    proof (cases "so < length p")
      case False
      then show thesis using that(1) eq by simp
    next
      case in_buf: True
      with 2(2) show thesis
        by (rule bp_dict_counted_cases) (use that eq in_buf 2(2) in \<open>auto split: if_splits\<close>)
    qed
  qed
qed


lemma bp_stream_info_loop_total:
  assumes "bp_ok p t" "pos + n * (2 * ref_size t) \<le> length p" "set js \<subseteq> {..<n}"
  shows "\<exists>r. bp_stream_info_loop p t pos n js s = Some r"
  using assms(3)
proof (induction js arbitrary: s)
  case (Cons j js)
  then have j: "j < n" by simp
  obtain k ko v vo where w: "bp_ref p t pos j = Some k" "bp_offset p t k = Some ko"
    "bp_ref p t (bp_val_refs t pos n) j = Some v" "bp_offset p t v = Some vo"
    by (rule bp_walk_refs [OF assms(1,2) j])
  obtain ok out where str: "bplist_read_string p ko (replicate 32 0) = Some (ok, out)"
    by (rule bp_string_at [OF assms(1), of 32]) simp
  obtain l where l: "bplist_read_data_len p vo = Some l"
    using bplist_read_data_len_safe [OF bp_okD(2) [OF assms(1)], of vo] by blast
  obtain m where m: "bplist_read_int p vo = Some m" using bplist_read_int_safe [of p vo] by blast
  show ?case using w str l m Cons by simp
qed simp

lemma bplist_get_stream_info_total:
  assumes "length p < 2 ^ 31"
  shows "\<exists>r. bplist_get_stream_info p index = Some r"
  using assms
proof (cases rule: bp_stream_dict_cases [of _ index])
  case (2 t n pos)
  obtain s where "bp_stream_info_loop p t pos n [0..<n] stream_info_init = Some s"
    using bp_stream_info_loop_total [OF 2(2,3), of "[0..<n]"] by auto
  then show ?thesis using 2 by (simp add: bplist_get_stream_info_def)
qed (simp add: bplist_get_stream_info_def)

lemma bp_kv_value_total:
  assumes "length p < 2 ^ 31" "vo < length p"
  shows "\<exists>info. bp_kv_value p key vo = Some info"
proof -
  obtain l where l: "bplist_read_data_len p vo = Some l"
    using bplist_read_data_len_safe [OF assms(1), of vo] by blast
  obtain l' where l': "bplist_read_string_len p vo = Some l'"
    using bplist_read_string_len_safe [OF assms(1), of vo] by blast
  obtain m where m: "bplist_read_int p vo = Some m" using bplist_read_int_safe [of p vo] by blast
  show ?thesis using l l' m assms(2) by (simp add: bp_kv_value_def Let_def)
qed

lemma bp_kv_loop_total:
  assumes "bp_ok p t" "pos + n * (2 * ref_size t) \<le> length p" "set js \<subseteq> {..<n}"
    "length out \<le> cap"
  shows "\<exists>r. bp_kv_loop p t pos n cap js out = Some r \<and> (\<forall>out'. r = Some out' \<longrightarrow> length out' \<le> cap)"
  using assms(3,4)
proof (induction js arbitrary: out)
  case (Cons j js)
  then have j: "j < n" by simp
  obtain k ko v vo where w: "bp_ref p t pos j = Some k" "bp_offset p t k = Some ko"
    "bp_ref p t (bp_val_refs t pos n) j = Some v" "bp_offset p t v = Some vo"
    by (rule bp_walk_refs [OF assms(1,2) j])
  obtain ok str where str: "bplist_read_string p ko (replicate 64 0) = Some (ok, str)"
    by (rule bp_string_at [OF assms(1), of 64]) simp
  have val: "\<exists>info. bp_kv_value p (cstr str) vo = Some info" if "\<not> length p \<le> vo"
    using bp_kv_value_total [OF bp_okD(2) [OF assms(1)]] that by simp
  have step: "\<exists>r. bp_kv_loop p t pos n cap js out' = Some r \<and>
      (\<forall>out''. r = Some out'' \<longrightarrow> length out'' \<le> cap)" if "length out' \<le> cap" for out'
    using Cons that by simp
  show ?case
  proof (cases "length out \<ge> cap")
    case True
    then show ?thesis using Cons by simp
  next
    case False
    then show ?thesis using w str val step [of out] step [of "out @ [_]"] by auto
  qed
qed simp

lemma bplist_get_stream_kv_info_total:
  assumes "length p < 2 ^ 31"
  shows "\<exists>r. bplist_get_stream_kv_info p index cap = Some r \<and>
    (\<forall>out. r = Some out \<longrightarrow> length out \<le> cap)"
  using assms
proof (cases rule: bp_stream_dict_cases [of _ index])
  case (2 t n pos)
  obtain r where "bp_kv_loop p t pos n cap [0..<n] [] = Some r"
    "\<forall>out. r = Some out \<longrightarrow> length out \<le> cap"
    using bp_kv_loop_total [OF 2(2,3), of "[0..<n]" "[]" cap] by auto
  then show ?thesis using 2 by (auto simp: bplist_get_stream_kv_info_def split: option.split)
qed (simp add: bplist_get_stream_kv_info_def)

end
