(* ===== verification/Bplist_Facts.thy ===== *)
theory Bplist_Facts
  imports Bplist_Streams
begin

section \<open>What the binary plist parser guarantees\<close>

text \<open>
  The properties of the parser as its callers see it: no query leaves its buffers whatever the
  bytes are, the lookups are lookups in the dictionary the plist encodes, and the deep search
  extends the shallow one; then the behaviour on two concrete requests where the code and its
  documentation differ.
\<close>

subsection \<open>Totality of the queries\<close>

text \<open>The result of a data query fits the caller's buffer.\<close>

definition data_fits :: "bytes \<Rightarrow> (bytes \<times> nat) option \<Rightarrow> bool" where
  "data_fits out r \<longleftrightarrow> (\<forall>out' n. r = Some (out', n) \<longrightarrow> length out' = length out \<and> n \<le> length out)"

lemma bplist_read_data_fits:
  assumes "length p < 2 ^ 31"
  obtains r where "bplist_read_data p offset out = Some r" "data_fits out r"
  using bplist_read_data_safe [OF assms, of offset out] by (auto simp: data_fits_def)

lemma data_fits_None [simp]: "data_fits out None"
  by (simp add: data_fits_def)

lemma bplist_find_data_in_dict_total:
  assumes "bp_ok p t"
  shows "\<exists>r. bplist_find_data_in_dict p t offset key out = Some r \<and> data_fits out r"
proof (cases "offset < length p")
  case True
  have rd: "\<exists>r. bplist_read_data p vo out = Some r \<and> data_fits out r" for vo
    by (rule bplist_read_data_fits [OF bp_okD(2) [OF assms], of vo out]) blast
  from assms True show ?thesis
  proof (cases rule: bp_dict_counted_cases)
    case (2 n pos)
    then show ?thesis
      using True bp_find_key_total [OF assms 2(2), of key] rd
      by (auto simp: bplist_find_data_in_dict_def)
  qed (use True in \<open>simp add: bplist_find_data_in_dict_def\<close>)
qed (simp add: bplist_find_data_in_dict_def)

lemma bplist_find_data_total:
  assumes "length p < 2 ^ 31"
  shows "\<exists>r. bplist_find_data p key out = Some r \<and> data_fits out r"
  using assms
  by (cases rule: bp_open_cases)
    (use bplist_find_data_in_dict_total in \<open>simp_all add: bplist_find_data_def\<close>)

lemma bplist_find_data_deep_total:
  assumes "length p < 2 ^ 31"
  shows "\<exists>r. bplist_find_data_deep p key out = Some r"
  using assms
  by (cases rule: bp_header_cases)
    (use bplist_find_data_recursive_total in \<open>simp_all add: bplist_find_data_deep_def\<close>)

lemma bplist_find_int_total:
  assumes "length p < 2 ^ 31"
  shows "\<exists>r. bplist_find_int p key = Some r"
proof -
  have "\<exists>r. bplist_read_int p vo = Some r" for vo using bplist_read_int_safe [of p vo] by blast
  then show ?thesis using bp_find_top_cases [OF assms, of key] by (auto simp: bplist_find_int_def)
qed

lemma bplist_find_real_total:
  assumes "length p < 2 ^ 31"
  shows "\<exists>r. bplist_find_real p key = Some r"
proof -
  have "\<exists>r. bplist_read_int p vo = Some r" for vo using bplist_read_int_safe [of p vo] by blast
  moreover have "\<exists>r. bplist_read_real p vo = Some r" for vo
    using bplist_read_real_safe [of p vo] by blast
  ultimately have "\<exists>r. (case bplist_read_real p vo of None \<Rightarrow> None | Some None \<Rightarrow>
      map_option (map_option Of_Int) (bplist_read_int p vo) | Some (Some x) \<Rightarrow> Some (Some x)) = Some r"
    for vo by (metis (no_types, lifting) option.case_eq_if option.map(2) option.sel option.distinct(1))
  moreover have "Option.bind (bplist_read_real p vo) (\<lambda>r. case r of None \<Rightarrow>
      Option.bind (bplist_read_int p vo) (\<lambda>n. Some (map_option Of_Int n)) | Some x \<Rightarrow> Some (Some x)) =
      (case bplist_read_real p vo of None \<Rightarrow> None | Some None \<Rightarrow>
      map_option (map_option Of_Int) (bplist_read_int p vo) | Some (Some x) \<Rightarrow> Some (Some x))" for vo
    by (cases "bplist_read_int p vo") (auto split: option.split)
  ultimately show ?thesis
    using bp_find_top_cases [OF assms, of key] by (auto simp: bplist_find_real_def)
qed

lemma bplist_find_string_total:
  assumes "length p < 2 ^ 31" "length out < 2 ^ 31"
  shows "\<exists>ok out'. bplist_find_string p key out = Some (ok, out') \<and> length out' = length out"
  using bp_find_top_cases [OF assms(1), of key] bplist_read_string_safe [OF assms]
  by (auto simp: bplist_find_string_def)

lemma bplist_get_streams_count_total:
  assumes "length p < 2 ^ 31"
  shows "\<exists>r. bplist_get_streams_count p = Some r"
  using assms by (cases rule: bp_stream_array_cases) (simp_all add: bplist_get_streams_count_def)

lemma bp_copy_field_total:
  assumes "length p < 2 ^ 31"
  shows "\<exists>f' found'. bp_copy_field p name l f found = Some (f', found')"
proof -
  obtain r where r: "bplist_find_data p name (replicate 512 0) = Some r"
    and fits: "data_fits (replicate 512 0) r"
    using bplist_find_data_total [OF assms, of name "replicate 512 0"] by blast
  show ?thesis
  proof (cases "cf_buf f")
    case None
    then show ?thesis by (simp add: bp_copy_field_def)
  next
    case (Some buf)
    with r fits show ?thesis
      by (cases r) (auto simp: bp_copy_field_def Let_def wr_put data_fits_def)
  qed
qed

lemma bp_crypto_loop_total:
  assumes "length p < 2 ^ 31"
  shows "\<exists>ok fs'. bp_crypto_loop p stream_type i n fs = Some (ok, fs')"
proof (induction n arbitrary: i)
  case 0
  then show ?case by (cases fs) (simp add: ex_bool_eq)
next
  case (Suc n)
  obtain ekey eiv shk where fs: "fs = (ekey, eiv, shk)" using prod_cases3 by blast
  obtain info where info: "bplist_get_stream_info p i = Some info"
    using bplist_get_stream_info_total [OF assms] by blast
  have copy: "\<exists>r. (do {
      (ekey, found) \<leftarrow> bp_copy_field p (ascii ''ekey'') a ekey False;
      (eiv, found) \<leftarrow> bp_copy_field p (ascii ''eiv'') b eiv found;
      (shk, found) \<leftarrow> bp_copy_field p (ascii ''shk'') c shk found;
      Some (found, (ekey, eiv, shk))}) = Some r" for a b c
  proof -
    obtain ekey' f1 where 1: "bp_copy_field p (ascii ''ekey'') a ekey False = Some (ekey', f1)"
      using bp_copy_field_total [OF assms] by blast
    obtain eiv' f2 where 2: "bp_copy_field p (ascii ''eiv'') b eiv f1 = Some (eiv', f2)"
      using bp_copy_field_total [OF assms] by blast
    obtain shk' f3 where 3: "bp_copy_field p (ascii ''shk'') c shk f2 = Some (shk', f3)"
      using bp_copy_field_total [OF assms] by blast
    show ?thesis by (simp add: 1 2 3)
  qed
  show ?case
  proof (cases info)
    case None
    then show ?thesis using info Suc [of "i + 1"] by simp
  next
    case (Some s)
    then show ?thesis
      using info Suc [of "i + 1"] fs copy [of "si_ekey_len s" "si_eiv_len s" "si_shk_len s"] by simp
  qed
qed

lemma bplist_find_stream_crypto_total:
  assumes "length p < 2 ^ 31"
  shows "\<exists>ok fs. bplist_find_stream_crypto p stream_type ekey eiv shk = Some (ok, fs)"
proof -
  obtain c where "bplist_get_streams_count p = Some c"
    using bplist_get_streams_count_total [OF assms] by blast
  then show ?thesis
    using bp_crypto_loop_total [OF assms, of stream_type 0]
    by (cases c) (simp_all add: bplist_find_stream_crypto_def Let_def ex_bool_eq)
qed


text \<open>A crafted plist: an array header that promises \<open>2 ^ 32 - 1\<close> streams, and no element.\<close>

definition crafted_plist :: bytes where
  "crafted_plist = bplist_magic @ [0xD1, 1, 2] @ 0x57 # ascii ''streams'' @
    [0xAF, 0x12, 0xFF, 0xFF, 0xFF, 0xFF, 8, 11, 19] @
    replicate 6 0 @ [1, 1] @ replicate 7 0 @ [3] @ replicate 8 0 @ replicate 7 0 @ [25]"


subsection \<open>Lookups\<close>

text \<open>
  The dictionary a plist encodes, read off the reference arrays at \<open>pos\<close>: the key of an entry
  as far as the code's 64-byte buffer can hold it, and the offset of its value.
\<close>

definition bp_ref_at :: "bytes \<Rightarrow> bp_trailer \<Rightarrow> nat \<Rightarrow> nat \<Rightarrow> nat" where
  "bp_ref_at p t refs i = be_val (take (ref_size t) (drop (refs + i * ref_size t) p))"

definition bp_offset_at :: "bytes \<Rightarrow> bp_trailer \<Rightarrow> nat \<Rightarrow> nat" where
  "bp_offset_at p t idx =
    (let table = offset_table_offset t; osize = offset_size t;
         off = be_val (take osize (drop (table + idx * osize) p)) in
     if idx < (length p - table) div osize \<and> off < length p then off else UINT64_MAX)"

definition bp_key_at :: "bytes \<Rightarrow> nat \<Rightarrow> bytes option" where
  "bp_key_at p offset =
    (case bplist_read_string p offset (replicate 64 0) of
       Some (True, s) \<Rightarrow> Some (cstr s) | _ \<Rightarrow> None)"

definition bp_entries :: "bytes \<Rightarrow> bp_trailer \<Rightarrow> nat \<Rightarrow> nat \<Rightarrow> nat list \<Rightarrow> (bytes option \<times> nat) list" where
  "bp_entries p t pos n is = map (\<lambda>i.
     (bp_key_at p (bp_offset_at p t (bp_ref_at p t pos i)),
      bp_offset_at p t (bp_ref_at p t (pos + n * ref_size t) i))) is"

lemma bp_offset_eq: "bp_ok p t \<Longrightarrow> bp_offset p t idx = Some (bp_offset_at p t idx)"
  by (auto simp: bp_ok_def wf_trailer_def bp_offset_def bp_offset_at_def Let_def bplist_get_offset_val)

lemma bp_find_key_lookup:
  assumes "bp_ok p t" "pos + n * (2 * ref_size t) \<le> length p" "set is \<subseteq> {..<n}"
  shows "bp_find_key p t pos n key is = Some (map_of (bp_entries p t pos n is) (Some key))"
  using assms(3)
proof (induction "is")
  case (Cons i "is")
  then have i: "i < n" by simp
  note room = bp_refs_room [OF assms(1,2)]
  obtain ok out where str:
    "bplist_read_string p (bp_offset_at p t (bp_ref_at p t pos i)) (replicate 64 0) = Some (ok, out)"
    by (rule bp_string_at [OF assms(1), of 64]) simp
  have refs: "bp_ref p t pos i = Some (bp_ref_at p t pos i)"
    "bp_ref p t (pos + n * ref_size t) i = Some (bp_ref_at p t (pos + n * ref_size t) i)"
    using bp_ref_val [OF assms(1) room(1) i] bp_ref_val [OF assms(1) _ i] room(2)
    by (simp_all add: bp_ref_at_def bp_val_refs_eq [OF assms(1,2)])
  have key: "bp_key_at p (bp_offset_at p t (bp_ref_at p t pos i)) = (if ok then Some (cstr out) else None)"
    by (simp add: bp_key_at_def str split: bool.split)
  show ?case
    using Cons str refs key
    by (simp add: bp_entries_def bp_offset_eq [OF assms(1)] bp_val_refs_eq [OF assms(1,2)])
qed (simp add: bp_entries_def)

lemma bp_find_top_lookup:
  assumes "length p < 2 ^ 31" "bp_open p = Some (Some (t, toff))"
    and "obj_type (p ! toff) = BPLIST_DICT" "bp_dict_counted p t toff = Some (Some (n, pos))"
  shows "bp_find_top p key = Some (map_of (bp_entries p t pos n [0..<n]) (Some key))"
    and "bplist_find_data_in_dict p t toff key out =
      (case map_of (bp_entries p t pos n [0..<n]) (Some key) of
         None \<Rightarrow> Some None | Some vo \<Rightarrow> bplist_read_data p vo out)"
proof -
  have ok: "bp_ok p t" "toff < length p"
    by (rule bp_open_cases [OF assms(1)]; use assms(2) in simp)+
  have d: "bp_dict_inline p t toff = Some (Some (n, pos))"
    using bp_dict_inline_eq [OF ok] assms(3,4) by simp
  have room: "pos + n * (2 * ref_size t) \<le> length p"
    using ok by (rule bp_dict_counted_cases) (use assms(4) in auto)
  note lookup = bp_find_key_lookup [OF ok(1) room, of "[0..<n]" key]
  show "bp_find_top p key = Some (map_of (bp_entries p t pos n [0..<n]) (Some key))"
    using assms(2) d lookup by (simp add: bp_find_top_def)
  show "bplist_find_data_in_dict p t toff key out =
      (case map_of (bp_entries p t pos n [0..<n]) (Some key) of
         None \<Rightarrow> Some None | Some vo \<Rightarrow> bplist_read_data p vo out)"
    using ok(2) assms(3,4) lookup by (simp add: bplist_find_data_in_dict_def)
qed

text \<open>
  C2. A lookup by key is a lookup in the dictionary the plist encodes: \<open>bplist_find_int\<close>,
  \<open>bplist_find_string\<close> and \<open>bplist_find_data\<close> read the value of the first entry of the top-level
  dictionary that has the key, and report "not found" when no entry has it.
\<close>

theorem bplist_lookups_refine_dictionary:
  assumes "length p < 2 ^ 31" "bp_open p = Some (Some (t, toff))"
    and "obj_type (p ! toff) = BPLIST_DICT" "bp_dict_counted p t toff = Some (Some (n, pos))"
  shows "bplist_find_int p key = (case map_of (bp_entries p t pos n [0..<n]) (Some key) of
      None \<Rightarrow> Some None | Some vo \<Rightarrow> bplist_read_int p vo) \<and>
    bplist_find_string p key out = (case map_of (bp_entries p t pos n [0..<n]) (Some key) of
      None \<Rightarrow> Some (False, out) | Some vo \<Rightarrow> bplist_read_string p vo out) \<and>
    bplist_find_data p key out = (case map_of (bp_entries p t pos n [0..<n]) (Some key) of
      None \<Rightarrow> Some None | Some vo \<Rightarrow> bplist_read_data p vo out)"
  using bp_find_top_lookup [OF assms, of key] assms(2)
  by (simp add: bplist_find_int_def bplist_find_string_def bplist_find_data_def)

subsection \<open>Evaluation on concrete plists\<close>

lemmas bp_eval_open = bp_open_def bp_header_def bplist_magic_def ascii_def bplist_parse_trailer_def
  read_be_int_val be_val_def bp_offset_def bplist_get_offset_def Let_def

lemmas bp_eval_walk = read_be_int_val be_val_def bp_offset_def bplist_get_offset_def Let_def
  bp_dict_inline_def bp_dict_counted_def bplist_read_string_def bplist_read_length_def
  bplist_read_string_len_def bplist_read_data_def bplist_read_data_len_def bplist_read_int_def
  bplist_parse_count_def obj_type_def obj_info_def bplist_types bp_ref_def bp_val_refs_def
  wr_put put_at_def cstr_def upt_rec ascii_def

lemma crafted_plist_bytes: "crafted_plist =
  [98, 112, 108, 105, 115, 116, 48, 48, 209, 1, 2, 87, 115, 116, 114, 101, 97, 109, 115, 175, 18,
   255, 255, 255, 255, 8, 11, 19, 0, 0, 0, 0, 0, 0, 1, 1, 0, 0, 0, 0, 0, 0, 0, 3,
   0, 0, 0, 0, 0, 0, 0, 0, 0, 0, 0, 0, 0, 0, 0, 25]"
  by (simp add: crafted_plist_def bplist_magic_def ascii_def numeral_eq_Suc)

abbreviation crafted_trailer :: bp_trailer where
  "crafted_trailer \<equiv> \<lparr>offset_size = 1, ref_size = 1, num_objects = 3, top_object = 0,
     offset_table_offset = 25\<rparr>"

lemma crafted_open: "bp_open crafted_plist = Some (Some (crafted_trailer, 8))"
  by (simp add: bp_eval_open crafted_plist_bytes)

lemma crafted_dict:
  "obj_type (crafted_plist ! 8) = BPLIST_DICT"
  "bp_dict_counted crafted_plist crafted_trailer 8 = Some (Some (1, 9))"
  by (simp_all add: bp_eval_walk crafted_plist_bytes)

lemma bplist_lookups_refine_dictionary_witness:
  "bplist_find_int crafted_plist (ascii ''type'') =
    (case map_of (bp_entries crafted_plist crafted_trailer 9 1 [0..<1]) (Some (ascii ''type'')) of
       None \<Rightarrow> Some None | Some vo \<Rightarrow> bplist_read_int crafted_plist vo)"
  using bplist_lookups_refine_dictionary [OF _ crafted_open crafted_dict, of "ascii ''type''"]
  by (simp add: crafted_plist_bytes)

text \<open>
  A SETUP request with one stream of type 96 that carries its own key:
  \<open>{streams: [{type: 96, shk: <01 02 03>}]}\<close>.
\<close>

definition one_stream_plist :: bytes where
  "one_stream_plist =
    [98, 112, 108, 105, 115, 116, 48, 48, 209, 1, 2, 87, 115, 116, 114, 101, 97, 109, 115, 161, 3,
     210, 4, 5, 6, 7, 84, 116, 121, 112, 101, 83, 115, 104, 107, 16, 96, 67, 1, 2, 3,
     8, 11, 19, 21, 26, 31, 35, 37, 0, 0, 0, 0, 0, 0, 1, 1, 0, 0, 0, 0, 0, 0, 0, 8,
     0, 0, 0, 0, 0, 0, 0, 0, 0, 0, 0, 0, 0, 0, 0, 41]"

abbreviation one_stream_trailer :: bp_trailer where
  "one_stream_trailer \<equiv> \<lparr>offset_size = 1, ref_size = 1, num_objects = 8, top_object = 0,
     offset_table_offset = 41\<rparr>"

lemma one_stream_open: "bp_open one_stream_plist = Some (Some (one_stream_trailer, 8))"
  by (simp add: bp_eval_open one_stream_plist_def)

lemma one_stream_array:
  "bp_stream_array one_stream_plist = Some (Some (one_stream_trailer, 19, 1, 1))"
  by (simp add: bp_stream_array_def one_stream_open) (simp add: bp_eval_walk one_stream_plist_def)

lemma one_stream_dict: "bp_stream_dict one_stream_plist 0 = Some (Some (one_stream_trailer, 2, 22))"
  by (simp add: bp_stream_dict_def one_stream_array) (simp add: bp_eval_walk one_stream_plist_def)

lemma one_stream_info: "bplist_get_stream_info one_stream_plist 0 =
    Some (Some \<lparr>si_type = 96, si_ekey_len = 0, si_eiv_len = 0, si_shk_len = 3\<rparr>)"
  by (simp add: bplist_get_stream_info_def one_stream_dict stream_info_init_def)
    (simp add: bp_eval_walk one_stream_plist_def)

lemma one_stream_shallow: "bplist_find_data one_stream_plist (ascii ''shk'') out = Some None"
  by (simp add: bplist_find_data_def one_stream_open bplist_find_data_in_dict_def)
    (simp add: bp_eval_walk one_stream_plist_def)

subsection \<open>Shallow and deep search\<close>

text \<open>
  The deep search extends the shallow one: a data value that \<open>bplist_find_data\<close> finds in the
  top-level dictionary is what \<open>bplist_find_data_deep\<close> returns for the same key, with the same
  buffer contents and length.
\<close>

theorem bplist_find_data_deep_extends:
  assumes "length p < 2 ^ 31" and "bplist_find_data p key out = Some (Some r)"
  shows "bplist_find_data_deep p key out = Some (Some r)"
  using assms(1)
proof (cases rule: bp_open_cases)
  case 1
  then show ?thesis using assms(2) by (simp add: bplist_find_data_def)
next
  case (2 t toff)
  have found: "bplist_find_data_in_dict p t toff key out = Some (Some r)"
    using assms(2) 2(1) by (simp add: bplist_find_data_def)
  then have dict: "obj_type (p ! toff) = BPLIST_DICT"
    using 2(4) by (simp add: bplist_find_data_in_dict_def split: if_splits)
  from 2(3,4) show ?thesis
  proof (cases rule: bp_dict_counted_cases)
    case 1
    then show ?thesis using found dict 2(4) by (simp add: bplist_find_data_in_dict_def)
  next
    case d: (2 n pos)
    show ?thesis
      using bp_find_key_total [OF 2(3) d(2), of key] found dict d(1) 2
      by (auto simp: bplist_find_data_in_dict_def bplist_find_data_deep_def numeral_eq_Suc)
  qed
qed

text \<open>\<open>{pk: <05 06>}\<close>\<close>

definition data_plist :: bytes where
  "data_plist =
    [98, 112, 108, 105, 115, 116, 48, 48, 209, 1, 2, 82, 112, 107, 66, 5, 6, 8, 11, 14,
     0, 0, 0, 0, 0, 0, 1, 1, 0, 0, 0, 0, 0, 0, 0, 3,
     0, 0, 0, 0, 0, 0, 0, 0, 0, 0, 0, 0, 0, 0, 0, 17]"

lemma data_plist_open: "bp_open data_plist = Some (Some (\<lparr>offset_size = 1, ref_size = 1,
    num_objects = 3, top_object = 0, offset_table_offset = 17\<rparr>, 8))"
  by (simp add: bp_eval_open data_plist_def)

lemma data_plist_find:
  "bplist_find_data data_plist (ascii ''pk'') [0, 0, 0] = Some (Some ([5, 6, 0], 2))"
  by (simp add: bplist_find_data_def data_plist_open bplist_find_data_in_dict_def)
    (simp add: bp_eval_walk data_plist_def)

lemma bplist_find_data_deep_extends_witness:
  "bplist_find_data_deep data_plist (ascii ''pk'') [0, 0, 0] = Some (Some ([5, 6, 0], 2))"
  by (rule bplist_find_data_deep_extends [OF _ data_plist_find]) (simp add: data_plist_def)

subsection \<open>Where the code and its documentation differ\<close>

text \<open>
  The stream count is not bounded by the plist: for a well-formed 60-byte plist whose
  \<open>streams\<close> array header promises \<open>2 ^ 32 - 1\<close> elements, \<open>bplist_get_streams_count\<close> succeeds
  and returns \<open>2 ^ 32 - 1\<close>, which its callers use as the bound of their loop over the streams.
\<close>

theorem bplist_streams_count_unbounded:
  "length crafted_plist = 60 \<and>
    bplist_get_streams_count crafted_plist = Some (Some (2 ^ 32 - 1))"
proof -
  have "bp_stream_array crafted_plist = Some (Some (crafted_trailer, 19, 2 ^ 32 - 1, 6))"
    by (simp add: bp_stream_array_def crafted_open) (simp add: bp_eval_walk crafted_plist_bytes)
  then show ?thesis by (simp add: bplist_get_streams_count_def crafted_plist_bytes)
qed

text \<open>
  \<open>bplist_find_stream_crypto\<close> copies keys from the top-level dictionary, not from the stream:
  in a request whose stream of type 96 carries its own 3-byte \<open>shk\<close> the function sees the
  field in the stream (the length 3 of its stream info), yet reports that no key was found and
  leaves the buffer as it was, because the top level has no \<open>shk\<close>.
\<close>

theorem bplist_find_stream_crypto_misses_stream_key:
  "bplist_get_stream_info one_stream_plist 0 =
      Some (Some \<lparr>si_type = 96, si_ekey_len = 0, si_eiv_len = 0, si_shk_len = 3\<rparr>) \<and>
    bplist_find_stream_crypto one_stream_plist 96 None None (Some shk) =
      Some (False, \<lparr>cf_buf = None, cf_len = 0\<rparr>, \<lparr>cf_buf = None, cf_len = 0\<rparr>,
        \<lparr>cf_buf = Some shk, cf_len = 0\<rparr>)"
  by (simp add: one_stream_info bplist_find_stream_crypto_def bplist_get_streams_count_def
      one_stream_array one_stream_shallow bp_copy_field_def Let_def)

end
