(* ===== verification/Bplist_Builder.thy ===== *)
theory Bplist_Builder
  imports Writer Bplist_Facts
begin

section \<open>Building binary plists (main/plist/bplist_builder.c)\<close>

text \<open>
  The writers of \<open>bplist_builder.c\<close> take the caller's buffer and a position; here they map the
  pair of both to the C return value and the new pair. The capacity is the length of the
  buffer. A store that the code does not guard goes through \<open>wr\<close>, so that leaving the buffer
  shows as \<open>None\<close>. A C string argument is the list of its bytes before the terminating NUL.

  The contract of every guarded writer is the locale \<open>bounded_writer\<close>: it appends its encoding
  when that fits and else reports failure, and it never leaves the buffer. Each writer is an
  interpretation, and the contract is closed under the code's \<open>&&\<close>. The response builders are
  lists of objects; the documents they write are \<open>bp_doc\<close>, which the parser reads back.
\<close>

subsection \<open>Writers\<close>

definition bplist_has_room :: "nat \<Rightarrow> nat \<Rightarrow> nat \<Rightarrow> bool" where
  "bplist_has_room pos need capacity \<longleftrightarrow> pos \<le> capacity \<and> need \<le> capacity - pos"

definition bplist_write_u64 :: "u64 \<Rightarrow> writer" where
  "bplist_write_u64 value s =
    (if \<not> bplist_has_room (snd s) 8 (length (fst s)) then Some (False, s)
     else do { s \<leftarrow> emit (be_bytes 8 value) s; Some (True, s) })"

definition bplist_write_length :: "u8 \<Rightarrow> nat \<Rightarrow> writer" where
  "bplist_write_length marker_base len s =
    (if len < 15 then
       if \<not> bplist_has_room (snd s) 1 (length (fst s)) then Some (False, s)
       else do { s \<leftarrow> emit [marker_base OR of_nat len] s; Some (True, s) }
     else if len > 255 \<or> \<not> bplist_has_room (snd s) 3 (length (fst s)) then Some (False, s)
     else do {
       s \<leftarrow> emit [marker_base OR 0x0F] s;
       s \<leftarrow> emit [0x10] s;
       s \<leftarrow> emit [of_nat len] s;
       Some (True, s)
     })"

definition bplist_write_ascii_string :: "bytes \<Rightarrow> writer" where
  "bplist_write_ascii_string value s = do {
     let len = length value;
     (ok, s) \<leftarrow> bplist_write_length 0x50 len s;
     if \<not> ok \<or> \<not> bplist_has_room (snd s) len (length (fst s)) then Some (False, s)
     else do { s \<leftarrow> emit value s; Some (True, s) }
   }"

definition bplist_write_data :: "bytes \<Rightarrow> writer" where
  "bplist_write_data data s = do {
     let len = length data;
     (ok, s) \<leftarrow> bplist_write_length 0x40 len s;
     if \<not> ok \<or> \<not> bplist_has_room (snd s) len (length (fst s)) then Some (False, s)
     else do { s \<leftarrow> emit data s; Some (True, s) }
   }"

definition bp_int_width :: "u64 \<Rightarrow> u8 \<times> nat" where
  "bp_int_width value =
    (if value \<le> 0xFF then (0x10, 1) else if value \<le> 0xFFFF then (0x11, 2)
     else if value \<le> 0xFFFFFFFF then (0x12, 4) else (0x13, 8))"

definition bplist_write_int :: "u64 \<Rightarrow> writer" where
  "bplist_write_int value s =
    (let (marker, bytes) = bp_int_width value in
     if \<not> bplist_has_room (snd s) (1 + bytes) (length (fst s)) then Some (False, s)
     else do {
       s \<leftarrow> emit [marker] s;
       s \<leftarrow> emit (be_bytes bytes value) s;
       Some (True, s)
     })"

definition bplist_write_refs :: "bytes \<Rightarrow> writer" where
  "bplist_write_refs refs s =
    (if \<not> bplist_has_room (snd s) (length refs) (length (fst s)) then Some (False, s)
     else do { s \<leftarrow> emit refs s; Some (True, s) })"

definition bplist_write_array :: "bytes \<Rightarrow> writer" where
  "bplist_write_array refs =
    w_and (bplist_write_length 0xA0 (length refs)) (bplist_write_refs refs)"

definition bplist_write_dict :: "bytes \<Rightarrow> bytes \<Rightarrow> writer" where
  "bplist_write_dict keys vals =
    w_and (w_and (bplist_write_length 0xD0 (length keys)) (bplist_write_refs keys))
      (bplist_write_refs vals)"

subsection \<open>The writers meet the contract\<close>

lemma has_room_iff: "bplist_has_room pos need capacity \<longleftrightarrow> pos + need \<le> capacity"
  by (auto simp: bplist_has_room_def)

definition enc_length :: "u8 \<Rightarrow> nat \<Rightarrow> bytes" where
  "enc_length marker_base len =
    (if len < 15 then [marker_base OR of_nat len] else [marker_base OR 0x0F, 0x10, of_nat len])"

interpretation w_u64: bounded_writer "bplist_write_u64 v" "be_bytes 8 v" True for v
  by unfold_locales (auto simp: bplist_write_u64_def has_room_iff emit_room)

interpretation w_length: bounded_writer "bplist_write_length b n" "enc_length b n" "n \<le> 255" for b n
  by unfold_locales
    (auto simp: bplist_write_length_def enc_length_def has_room_iff emit_room put_at_put_at
      split: if_splits)

interpretation w_refs: bounded_writer "bplist_write_refs rs" rs True for rs
  by unfold_locales (auto simp: bplist_write_refs_def has_room_iff emit_room)

definition enc_int :: "u64 \<Rightarrow> bytes" where
  "enc_int v = fst (bp_int_width v) # be_bytes (snd (bp_int_width v)) v"

interpretation w_int: bounded_writer "bplist_write_int v" "enc_int v" True for v
  by unfold_locales
    (auto simp: bplist_write_int_def enc_int_def has_room_iff emit_room put_at_put_at
      split: prod.split)

text \<open>A string and a data value are a length and, if there is room, the bytes.\<close>

lemma bplist_write_ascii_string_eq:
  "bplist_write_ascii_string v = w_and (bplist_write_length 0x50 (length v)) (bplist_write_refs v)"
  by (intro ext) (auto simp: bplist_write_ascii_string_def w_and_def bplist_write_refs_def Let_def
      intro!: bind_option_cong)

lemma bplist_write_data_eq:
  "bplist_write_data v = w_and (bplist_write_length 0x40 (length v)) (bplist_write_refs v)"
  by (intro ext) (auto simp: bplist_write_data_def w_and_def bplist_write_refs_def Let_def
      intro!: bind_option_cong)

interpretation w_ascii: bounded_writer "bplist_write_ascii_string v"
    "enc_length 0x50 (length v) @ v" "length v \<le> 255" for v
  using bounded_writer_and [OF w_length.bounded_writer_axioms w_refs.bounded_writer_axioms]
  by (simp add: bplist_write_ascii_string_eq)

interpretation w_data: bounded_writer "bplist_write_data v"
    "enc_length 0x40 (length v) @ v" "length v \<le> 255" for v
  using bounded_writer_and [OF w_length.bounded_writer_axioms w_refs.bounded_writer_axioms]
  by (simp add: bplist_write_data_eq)

interpretation w_array: bounded_writer "bplist_write_array rs"
    "enc_length 0xA0 (length rs) @ rs" "length rs \<le> 255" for rs
  using bounded_writer_and [OF w_length.bounded_writer_axioms w_refs.bounded_writer_axioms]
  by (simp add: bplist_write_array_def)

interpretation w_dict: bounded_writer "bplist_write_dict ks vs"
    "(enc_length 0xD0 (length ks) @ ks) @ vs" "(length ks \<le> 255 \<and> True) \<and> True" for ks vs
  unfolding bplist_write_dict_def
  by (intro bounded_writer_and w_length.bounded_writer_axioms w_refs.bounded_writer_axioms)

end
