(* ===== verification/Bplist_Doc.thy ===== *)
theory Bplist_Doc
  imports Bplist_Builder
begin

section \<open>Reading back a written plist\<close>

text \<open>
  The layout of the documents the builders write (\<open>bp_doc\<close>: magic, objects, offset table,
  trailer) and what the parser reads at each place of such a document: its trailer, its offset
  table, and the strings, integers, data values, arrays and dictionaries the writers encode.
\<close>

subsection \<open>Encodings of integers\<close>

lemma be_val_of_nat:
  assumes "n < 256 ^ k" "k \<le> 8"
  shows "be_val (be_bytes k (of_nat n)) = n"
proof -
  have "(256 :: nat) ^ k \<le> 256 ^ 8" using assms(2) by (intro power_increasing) auto
  then have "unat (of_nat n :: u64) = n" using assms(1) by (intro unat_of_nat_id) simp
  then show ?thesis using assms(1) by (simp add: be_val_be_bytes)
qed

subsection \<open>The layout of a document\<close>

fun offs_from :: "nat \<Rightarrow> bytes list \<Rightarrow> nat list" where
  "offs_from n [] = []"
| "offs_from n (b # bs) = n # offs_from (n + length b) bs"

definition bp_table :: "nat \<Rightarrow> bytes list \<Rightarrow> bytes" where
  "bp_table osize objs = concat (map (\<lambda>n. be_bytes osize (of_nat n)) (offs_from 8 objs))"

definition bp_trailer_bytes :: "nat \<Rightarrow> nat \<Rightarrow> nat \<Rightarrow> nat \<Rightarrow> bytes" where
  "bp_trailer_bytes osize n top_idx table = replicate 6 0 @ [of_nat osize, 1] @
     be_bytes 8 (of_nat n) @ be_bytes 8 (of_nat top_idx) @ be_bytes 8 (of_nat table)"

definition bp_doc :: "nat \<Rightarrow> bytes list \<Rightarrow> nat \<Rightarrow> bytes" where
  "bp_doc osize objs top_idx = bplist_magic @ concat objs @ bp_table osize objs @
     bp_trailer_bytes osize (length objs) top_idx (8 + length (concat objs))"

definition doc_trailer :: "nat \<Rightarrow> bytes list \<Rightarrow> nat \<Rightarrow> bp_trailer" where
  "doc_trailer osize objs top_idx = \<lparr>offset_size = osize, ref_size = 1, num_objects = length objs,
     top_object = top_idx, offset_table_offset = 8 + length (concat objs)\<rparr>"

definition doc_off :: "bytes list \<Rightarrow> nat \<Rightarrow> nat" where
  "doc_off objs k = 8 + length (concat (take k objs))"

text \<open>What a document must satisfy for its offsets to fit their \<open>osize\<close> bytes.\<close>

definition doc_ok :: "nat \<Rightarrow> bytes list \<Rightarrow> nat \<Rightarrow> bool" where
  "doc_ok osize objs top_idx \<longleftrightarrow> 0 < osize \<and> osize \<le> 2 \<and> top_idx < length objs \<and>
     8 + length (concat objs) < 256 ^ osize \<and> length objs \<le> 1000"

lemma doc_okD:
  assumes "doc_ok osize objs top_idx"
  shows "0 < osize" "osize \<le> 2" "top_idx < length objs" "8 + length (concat objs) < 256 ^ osize"
    "length objs \<le> 1000" "8 + length (concat objs) < 65536"
proof -
  show 1: "0 < osize" "osize \<le> 2" "top_idx < length objs" "8 + length (concat objs) < 256 ^ osize"
    "length objs \<le> 1000" using assms by (simp_all add: doc_ok_def)
  have "(256 :: nat) ^ osize \<le> 256 ^ 2" using 1(2) by (intro power_increasing) auto
  then show "8 + length (concat objs) < 65536" using 1(4) by simp
qed

lemma length_offs_from [simp]: "length (offs_from n bs) = length bs"
  by (induction bs arbitrary: n) auto

lemma offs_from_nth: "k < length bs \<Longrightarrow> offs_from n bs ! k = n + length (concat (take k bs))"
proof (induction bs arbitrary: n k)
  case (Cons b bs)
  then show ?case by (cases k) auto
qed simp

lemma length_concat_same:
  "(\<And>x. x \<in> set xs \<Longrightarrow> length (f x) = m) \<Longrightarrow> length (concat (map f xs)) = length xs * m"
  by (induction xs) auto

lemma length_bp_table [simp]: "length (bp_table osize objs) = length objs * osize"
  unfolding bp_table_def by (subst length_concat_same [where m = osize]) simp_all

lemma length_bp_trailer_bytes [simp]: "length (bp_trailer_bytes osize n top_idx table) = 32"
  by (simp add: bp_trailer_bytes_def)

lemma length_magic [simp]: "length bplist_magic = 8"
  by (simp add: bplist_magic_def)

lemma length_bp_doc:
  "length (bp_doc osize objs top_idx) = 8 + length (concat objs) + length objs * osize + 32"
  by (simp add: bp_doc_def)

lemma bp_doc_small:
  assumes "doc_ok osize objs top_idx"
  shows "length (bp_doc osize objs top_idx) < 2 ^ 31"
proof -
  have "length objs * osize \<le> 1000 * 2" using doc_okD(2,5) [OF assms] by (intro mult_le_mono) auto
  then show ?thesis using doc_okD(6) [OF assms] by (simp add: length_bp_doc)
qed

lemma concat_take_Suc_le:
  "k < length bs \<Longrightarrow> length (concat (take k bs)) + length (bs ! k) \<le> length (concat bs)"
proof (induction bs arbitrary: k)
  case (Cons b bs)
  then show ?case by (cases k) auto
qed simp

lemma drop_concat:
  "k < length bs \<Longrightarrow> drop (length (concat (take k bs))) (concat bs) = bs ! k @ concat (drop (Suc k) bs)"
proof (induction bs arbitrary: k)
  case (Cons b bs)
  then show ?case by (cases k) auto
qed simp

lemma drop_concat_same:
  "(\<And>x. x \<in> set xs \<Longrightarrow> length (f x) = m) \<Longrightarrow> k < length xs \<Longrightarrow>
    drop (k * m) (concat (map f xs)) = f (xs ! k) @ concat (map f (drop (Suc k) xs))"
proof (induction xs arbitrary: k)
  case (Cons x xs)
  then show ?case by (cases k) auto
qed simp

text \<open>The place of an object and of an offset table entry.\<close>

lemma doc_object:
  assumes "k < length objs"
  shows "\<exists>rest. drop (doc_off objs k) (bp_doc osize objs top_idx) = objs ! k @ rest"
proof -
  have "drop (doc_off objs k) (bp_doc osize objs top_idx) =
      drop (length (concat (take k objs))) (concat objs @ bp_table osize objs @
        bp_trailer_bytes osize (length objs) top_idx (8 + length (concat objs)))"
    by (simp add: bp_doc_def doc_off_def)
  also have "length (concat (take k objs)) \<le> length (concat objs)"
    using concat_take_Suc_le [OF assms] by linarith
  ultimately show ?thesis using drop_concat [OF assms] by simp
qed

lemma doc_table_entry:
  assumes "k < length objs"
  shows "\<exists>rest. drop (8 + length (concat objs) + k * osize) (bp_doc osize objs top_idx) =
    be_bytes osize (of_nat (doc_off objs k)) @ rest"
proof -
  have "drop (8 + length (concat objs) + k * osize) (bp_doc osize objs top_idx) =
      drop (k * osize) (bp_table osize objs @ bp_trailer_bytes osize (length objs) top_idx
        (8 + length (concat objs)))"
    by (simp add: bp_doc_def)
  moreover have "k * osize \<le> length (bp_table osize objs)" using assms by simp
  moreover have "drop (k * osize) (bp_table osize objs) = be_bytes osize (of_nat (doc_off objs k)) @
      concat (map (\<lambda>n. be_bytes osize (of_nat n)) (drop (Suc k) (offs_from 8 objs)))"
    using assms unfolding bp_table_def
    by (subst drop_concat_same [where m = osize]) (simp_all add: offs_from_nth doc_off_def)
  ultimately show ?thesis by simp
qed

subsection \<open>The parser on a document\<close>

lemma read_be_int_prefix:
  assumes "drop at p = bs @ rest" "length bs = n" "n \<le> 8"
  shows "read_be_int p at n = Some (be_val bs)"
proof -
  have "length (drop at p) \<ge> n" using assms by simp
  then have "n = 0 \<or> at + n \<le> length p" by (simp only: length_drop) linarith
  moreover have "read_be_int p at 0 = Some 0" by (simp add: read_be_int_def)
  ultimately show ?thesis using assms by (auto simp: read_be_int_short)
qed

lemma rd_prefix: "drop at p = b # rest \<Longrightarrow> rd p at = Some b"
  by (metis drop_eq_Nil2 list.distinct(1) nth_via_drop not_le rd_Some)

lemma drop_drop_prefix: "drop a p = x @ rest \<Longrightarrow> b = a + length x \<Longrightarrow> drop b p = rest"
  by (metis add.commute append_eq_conv_conj drop_drop)

lemma bp_header_doc:
  assumes "doc_ok osize objs top_idx"
  shows "bp_header (bp_doc osize objs top_idx) = Some (Some (doc_trailer osize objs top_idx))"
proof -
  note ok = doc_okD [OF assms]
  let ?p = "bp_doc osize objs top_idx" and ?table = "8 + length (concat objs)"
  define b where "b = ?table + length objs * osize"
  have b: "length ?p = b + 32" by (simp add: length_bp_doc b_def)
  have tr: "drop b ?p = replicate 6 0 @ [of_nat osize, 1] @ be_bytes 8 (of_nat (length objs)) @
      be_bytes 8 (of_nat top_idx) @ be_bytes 8 (of_nat ?table)"
    by (simp add: bp_doc_def b_def bp_trailer_bytes_def)
  have d: "drop (b + 6) ?p = [of_nat osize, 1] @ be_bytes 8 (of_nat (length objs)) @
      be_bytes 8 (of_nat top_idx) @ be_bytes 8 (of_nat ?table)"
    by (rule drop_drop_prefix [OF tr]) simp
  have d7: "drop (b + 7) ?p = 1 # be_bytes 8 (of_nat (length objs)) @
      be_bytes 8 (of_nat top_idx) @ be_bytes 8 (of_nat ?table)"
    by (rule drop_drop_prefix [of "b + 6" _ "[of_nat osize]"]) (simp_all add: d)
  have d8: "drop (b + 8) ?p = be_bytes 8 (of_nat (length objs)) @
      be_bytes 8 (of_nat top_idx) @ be_bytes 8 (of_nat ?table)"
    by (rule drop_drop_prefix [of "b + 7" _ "[1]"]) (simp_all add: d7)
  have d16: "drop (b + 16) ?p = be_bytes 8 (of_nat top_idx) @ be_bytes 8 (of_nat ?table)"
    by (rule drop_drop_prefix [OF d8]) simp
  have d24: "drop (b + 24) ?p = be_bytes 8 (of_nat ?table)"
    by (rule drop_drop_prefix [OF d16]) simp
  have small: "be_val (be_bytes 8 (of_nat m)) = m" if "m < 65536" for m
    using that by (simp add: be_val_of_nat)
  have m: "rd ?p (b + 6) = Some (of_nat osize)" "rd ?p (b + 7) = Some 1"
    using rd_prefix [OF d [simplified]] rd_prefix [OF d7] by simp_all
  have r: "read_be_int ?p (b + 8) 8 = Some (length objs)" "read_be_int ?p (b + 16) 8 = Some top_idx"
    "read_be_int ?p (b + 24) 8 = Some ?table"
    using read_be_int_prefix [OF d8] read_be_int_prefix [OF d16] read_be_int_prefix [where rest = "[]", simplified, OF d24]
      small [of "length objs"] small [of top_idx] small [of ?table] ok by simp_all
  have os: "unat (of_nat osize :: u8) = osize" using ok by (intro unat_of_nat_id) simp
  have cap: "length objs \<le> (length ?p - ?table) div osize"
  proof -
    have "length objs * osize div osize \<le> (length ?p - ?table) div osize"
      by (rule div_le_mono) (simp add: b b_def)
    then show ?thesis using ok(1) by simp
  qed
  have "take 8 ?p = bplist_magic" by (simp add: bp_doc_def)
  moreover have "40 \<le> length ?p" by (simp add: length_bp_doc)
  moreover have "length ?p - 32 = b" by (simp add: b)
  moreover have "?table < b + 32" by (simp add: b_def)
  ultimately show ?thesis
    using ok(1,2,3) cap by (auto simp: bp_header_def bplist_parse_trailer_def Let_def m r os doc_trailer_def b)
qed

lemma doc_trailer_ok:
  assumes "doc_ok osize objs top_idx"
  shows "bp_ok (bp_doc osize objs top_idx) (doc_trailer osize objs top_idx)"
  by (rule bp_header_cases [OF bp_doc_small [OF assms]]) (simp_all add: bp_header_doc [OF assms])

lemma doc_off_less:
  assumes "doc_ok osize objs top_idx" "k < length objs"
  shows "doc_off objs k < 256 ^ osize" and "doc_off objs k < length (bp_doc osize objs top_idx)"
  using concat_take_Suc_le [OF assms(2)] doc_okD(4) [OF assms(1)]
  by (simp_all add: doc_off_def length_bp_doc)

lemma bp_offset_doc:
  assumes "doc_ok osize objs top_idx" "k < length objs"
  shows "bp_offset_at (bp_doc osize objs top_idx) (doc_trailer osize objs top_idx) k = doc_off objs k"
proof -
  note ok = doc_okD [OF assms(1)]
  let ?p = "bp_doc osize objs top_idx" and ?table = "8 + length (concat objs)"
  obtain rest where e: "drop (?table + k * osize) ?p = be_bytes osize (of_nat (doc_off objs k)) @ rest"
    using doc_table_entry [OF assms(2)] by blast
  have v: "be_val (be_bytes osize (of_nat (doc_off objs k))) = doc_off objs k"
    using doc_off_less(1) [OF assms] ok(2) by (intro be_val_of_nat) auto
  have "k * osize + osize \<le> length ?p - ?table"
  proof -
    have "Suc k * osize \<le> length objs * osize" using assms(2) by (intro mult_le_mono) auto
    then show ?thesis by (simp add: length_bp_doc)
  qed
  then have "Suc k \<le> (length ?p - ?table) div osize"
    using ok(1) by (simp add: less_eq_div_iff_mult_less_eq)
  then show ?thesis
    using doc_off_less(2) [OF assms]
    by (simp add: bp_offset_at_def doc_trailer_def e v Let_def)
qed

lemma bp_open_doc:
  assumes "doc_ok osize objs top_idx"
  shows "bp_open (bp_doc osize objs top_idx) =
    Some (Some (doc_trailer osize objs top_idx, doc_off objs top_idx))"
proof -
  note top = doc_okD(3) [OF assms]
  show ?thesis
    using doc_off_less(2) [OF assms top] bp_offset_doc [OF assms top]
    by (simp add: bp_open_def bp_header_doc [OF assms] bp_offset_eq [OF doc_trailer_ok [OF assms]])
      (simp add: doc_trailer_def)
qed

subsection \<open>Objects\<close>

definition type_nibble :: "u8 \<Rightarrow> bool" where
  "type_nibble b \<longleftrightarrow> b AND 0x0F = 0 \<and> b AND 0xF0 = b"

lemma less_16_cases:
  "n < (16 :: nat) \<Longrightarrow> n = 0 \<or> n = 1 \<or> n = 2 \<or> n = 3 \<or> n = 4 \<or> n = 5 \<or> n = 6 \<or> n = 7 \<or>
    n = 8 \<or> n = 9 \<or> n = 10 \<or> n = 11 \<or> n = 12 \<or> n = 13 \<or> n = 14 \<or> n = 15"
  by presburger

lemma nibble_masks:
  assumes "n < 16"
  shows "(of_nat n :: u8) AND 15 = of_nat n" and "(of_nat n :: u8) AND 240 = 0"
  using less_16_cases [OF assms] by (elim disjE; simp)+

lemma marker_parts:
  assumes "type_nibble b" "n < 16"
  shows "obj_type (b OR of_nat n) = b" and "obj_info (b OR of_nat n) = n"
proof -
  have n: "unat (of_nat n :: u8) = n" using assms(2) by (intro unat_of_nat_id) simp
  have b: "b AND 15 = 0" "b AND 240 = b" using assms(1) by (simp_all add: type_nibble_def)
  show "obj_type (b OR of_nat n) = b" "obj_info (b OR of_nat n) = n"
    by (simp_all only: obj_type_def obj_info_def bit.conj_disj_distrib2 b nibble_masks [OF assms(2)]
        or.right_neutral or.left_neutral n)
qed

lemma marker_15:
  assumes "type_nibble b"
  shows "obj_type (b OR 15) = b" and "obj_info (b OR 15) = 15"
  using marker_parts [OF assms, of 15] by simp_all

lemma int_marker: "obj_type 16 = BPLIST_INT" "obj_info 16 = 0"
  by (simp_all add: obj_type_def obj_info_def bplist_types)

lemma enc_length_cases:
  obtains "n < 15" "enc_length b n = [b OR of_nat n]"
  | "n \<ge> 15" "enc_length b n = [b OR 15, 16, of_nat n]"
  by (cases "n < 15") (simp_all add: enc_length_def)

lemma enc_length_neq [simp]: "enc_length b n \<noteq> []"
  by (simp add: enc_length_def)

lemma drop_room: "drop at p = bs @ rest \<Longrightarrow> bs \<noteq> [] \<Longrightarrow> at + length bs \<le> length p"
  by (metis add.commute append_is_Nil_conv drop_all length_append length_drop le_add1
      le_diff_conv2 nle_le)

lemma length_header_read:
  assumes "drop off p = enc_length b n @ rest" "type_nibble b" "n \<le> 255" "length p < 2 ^ 31"
  shows "off < length p" and "obj_type (p ! off) = b"
    and "bplist_read_length p off = Some (Some (n, off + length (enc_length b n)))"
    and "bplist_parse_count p off = Some (Some (n, length (enc_length b n)))"
proof -
  have room: "off + length (enc_length b n) \<le> length p"
    using assms(1) by (rule drop_room) (simp add: enc_length_def)
  show "off < length p" using room by (simp add: enc_length_def split: if_splits)
  have *: "obj_type (p ! off) = b \<and>
    bplist_read_length p off = Some (Some (n, off + length (enc_length b n))) \<and>
    bplist_parse_count p off = Some (Some (n, length (enc_length b n)))"
  proof (cases rule: enc_length_cases [of n b])
    case 1
    then have "p ! off = b OR of_nat n" using assms(1) nth_via_drop by fastforce
    moreover have "n < 16" using 1 by simp
    ultimately show ?thesis
      using 1 room assms(4) marker_parts [OF assms(2), of n]
      by (simp add: bplist_read_length_def bplist_parse_count_def Let_def)
  next
    case 2
    then have d: "drop off p = [b OR 15] @ [16] @ [of_nat n] @ rest" using assms(1) by simp
    have m: "p ! off = b OR 15" using d nth_via_drop by fastforce
    have d1: "drop (Suc off) p = [16] @ [of_nat n] @ rest" by (rule drop_drop_prefix [OF d]) simp
    then have m1: "p ! Suc off = 16" using nth_via_drop by fastforce
    have d2: "drop (Suc (Suc off)) p = [of_nat n] @ rest" by (rule drop_drop_prefix [OF d1]) simp
    have v: "be_val [of_nat n] = n"
      using assms(3) by (simp add: be_val_def unat_of_nat_id [where ?'a = 8])
    show ?thesis
      using 2 room assms(3,4) marker_15 [OF assms(2)] read_be_int_prefix [OF d2]
      by (simp add: bplist_read_length_def bplist_parse_count_def Let_def m m1 int_marker v)
  qed
  then show "obj_type (p ! off) = b"
    and "bplist_read_length p off = Some (Some (n, off + length (enc_length b n)))"
    and "bplist_parse_count p off = Some (Some (n, length (enc_length b n)))" by blast+
qed

lemma type_nibbles [simp]:
  "type_nibble 0x40" "type_nibble 0x50" "type_nibble 0xA0" "type_nibble 0xD0"
  by (simp_all add: type_nibble_def)

lemma read_string_enc:
  assumes "drop off p = enc_length 0x50 (length s) @ s @ rest" "length s \<le> 255" "length p < 2 ^ 31"
    and "length s < length out"
  shows "bplist_read_string p off out = Some (True, put_at out 0 (s @ [0]))"
proof -
  note h = length_header_read [OF assms(1) type_nibbles(2) assms(2,3)]
  let ?pos = "off + length (enc_length 0x50 (length s))"
  have d: "drop ?pos p = s @ rest" by (rule drop_drop_prefix [OF assms(1)]) simp
  have room: "?pos + length s \<le> length p"
    using drop_room [OF assms(1)[folded append_assoc]] enc_length_neq
    by (simp only: length_append append_is_Nil_conv) simp
  have blk: "rd_block p ?pos (length s) = Some s" using room by (simp add: d)
  show ?thesis
    using h room assms(3,4) blk
    by (simp add: bplist_read_string_def bplist_types wr_put put_at_put_at)
qed

lemma read_data_enc:
  assumes "drop off p = enc_length 0x40 (length s) @ s @ rest" "length s \<le> 255" "length p < 2 ^ 31"
    and "length s \<le> length out"
  shows "bplist_read_data p off out = Some (Some (put_at out 0 s, length s))"
proof -
  note h = length_header_read [OF assms(1) type_nibbles(1) assms(2,3)]
  let ?pos = "off + length (enc_length 0x40 (length s))"
  have d: "drop ?pos p = s @ rest" by (rule drop_drop_prefix [OF assms(1)]) simp
  have room: "?pos + length s \<le> length p"
    using drop_room [OF assms(1)[folded append_assoc]] enc_length_neq
    by (simp only: length_append append_is_Nil_conv) simp
  have blk: "rd_block p ?pos (length s) = Some s" using room by (simp add: d)
  show ?thesis
    using h room assms(3,4) blk by (simp add: bplist_read_data_def bplist_types wr_put)
qed

text \<open>The key reader on a string object: the 64-byte key buffer holds at most 63 bytes.\<close>

lemma key_at_enc:
  assumes "drop off p = enc_length 0x50 (length s) @ s @ rest" "length s < 64" "length p < 2 ^ 31"
    and "0 \<notin> set s"
  shows "bp_key_at p off = Some s"
proof -
  have "cstr (put_at (replicate 64 0) 0 (s @ [0])) = s"
    using cstr_no_nul_append [OF assms(4), of "replicate (63 - length s) 0"] by (simp add: put_at_def)
  then show ?thesis
    using read_string_enc [OF assms(1) _ assms(3), of "replicate 64 0"] assms(2)
    by (simp add: bp_key_at_def)
qed

subsection \<open>Dictionaries and arrays\<close>

lemma bp_ref_at_byte:
  assumes "ref_size t = 1" "drop refs p = rs @ rest" "i < length rs"
  shows "bp_ref_at p t refs i = unat (rs ! i)"
proof -
  have "drop (refs + i) p = drop i (rs @ rest)" by (metis assms(2) add.commute drop_drop)
  also have "\<dots> = rs ! i # drop (Suc i) rs @ rest"
    using assms(3) by (simp add: Cons_nth_drop_Suc)
  finally show ?thesis using assms(1) by (simp add: bp_ref_at_def be_val_def)
qed

definition dict_obj :: "bytes \<Rightarrow> bytes \<Rightarrow> bytes" where
  "dict_obj ks vs = enc_length 0xD0 (length ks) @ ks @ vs"

definition key_obj :: "bytes list \<Rightarrow> nat \<Rightarrow> bytes \<Rightarrow> bool" where
  "key_obj objs k s \<longleftrightarrow> k < length objs \<and> objs ! k = enc_length 0x50 (length s) @ s \<and>
     length s < 64 \<and> 0 \<notin> set s"

lemma doc_dict:
  assumes "doc_ok osize objs top_idx" "k < length objs" "objs ! k = dict_obj ks vs"
    and "length vs = length ks" "length ks \<le> 255"
  defines "p \<equiv> bp_doc osize objs top_idx" and "t \<equiv> doc_trailer osize objs top_idx"
    and "pos \<equiv> doc_off objs k + length (enc_length 0xD0 (length ks))"
  shows "obj_type (p ! doc_off objs k) = BPLIST_DICT"
    and "bp_dict_counted p t (doc_off objs k) = Some (Some (length ks, pos))"
    and "\<exists>rest. drop pos p = ks @ vs @ rest"
    and "pos + length ks * 2 \<le> length p"
proof -
  have len: "length p < 2 ^ 31" unfolding p_def by (rule bp_doc_small [OF assms(1)])
  obtain rest where d: "drop (doc_off objs k) p = enc_length 0xD0 (length ks) @ ks @ vs @ rest"
    using doc_object [OF assms(2), of osize top_idx] by (auto simp: p_def assms(3) dict_obj_def)
  note h = length_header_read [OF d type_nibbles(4) assms(5) len]
  show "obj_type (p ! doc_off objs k) = BPLIST_DICT" by (simp add: h(2) bplist_types)
  have pos: "drop pos p = ks @ vs @ rest" by (rule drop_drop_prefix [OF d]) (simp add: pos_def)
  then show "\<exists>rest. drop pos p = ks @ vs @ rest" by blast
  have "doc_off objs k + length (enc_length 0xD0 (length ks) @ ks @ vs) \<le> length p"
    using d by (intro drop_room [where rest = rest]) simp_all
  then show room: "pos + length ks * 2 \<le> length p" using assms(4) by (simp add: pos_def)
  have "\<not> (length p - pos) div 2 < length ks" using room by linarith
  then show "bp_dict_counted p t (doc_off objs k) = Some (Some (length ks, pos))"
    using h(4) room len
    by (simp add: bp_dict_counted_def t_def doc_trailer_def Let_def pos_def)
qed

text \<open>The dictionary the parser sees in a written one.\<close>

lemma doc_entries:
  assumes "doc_ok osize objs top_idx" "k < length objs" "objs ! k = dict_obj ks vs"
    and "length vs = length ks" "length ks \<le> 255"
    and "list_all2 (\<lambda>k s. key_obj objs (unat k) s) ks names" "\<forall>v\<in>set vs. unat v < length objs"
  defines "p \<equiv> bp_doc osize objs top_idx" and "t \<equiv> doc_trailer osize objs top_idx"
    and "pos \<equiv> doc_off objs k + length (enc_length 0xD0 (length ks))"
  shows "bp_entries p t pos (length ks) [0..<length ks] =
    zip (map Some names) (map (\<lambda>v. doc_off objs (unat v)) vs)"
proof (rule nth_equalityI)
  note d = doc_dict [OF assms(1-5), folded p_def t_def pos_def]
  obtain rest where pos: "drop pos p = ks @ vs @ rest" using d(3) by blast
  have vals: "drop (pos + length ks) p = vs @ rest" by (rule drop_drop_prefix [OF pos]) simp
  have names: "length names = length ks" using assms(6) by (simp add: list_all2_lengthD)
  show "length (bp_entries p t pos (length ks) [0..<length ks]) =
      length (zip (map Some names) (map (\<lambda>v. doc_off objs (unat v)) vs))"
    by (simp add: bp_entries_def names assms(4))
  fix i assume "i < length (bp_entries p t pos (length ks) [0..<length ks])"
  then have i: "i < length ks" by (simp add: bp_entries_def)
  have rs: "ref_size t = 1" by (simp add: t_def doc_trailer_def)
  have k: "bp_ref_at p t pos i = unat (ks ! i)" by (rule bp_ref_at_byte [OF rs pos i])
  have v: "bp_ref_at p t (pos + length ks) i = unat (vs ! i)"
    using i assms(4) by (intro bp_ref_at_byte [OF rs vals]) simp
  have key: "key_obj objs (unat (ks ! i)) (names ! i)"
    using assms(6) i by (simp add: list_all2_conv_all_nth)
  then have ki: "unat (ks ! i) < length objs" by (simp add: key_obj_def)
  have vi: "unat (vs ! i) < length objs" using assms(4,7) i by simp
  obtain rest' where "drop (doc_off objs (unat (ks ! i))) p =
      enc_length 0x50 (length (names ! i)) @ names ! i @ rest'"
    using doc_object [OF ki, of osize top_idx] key by (auto simp: p_def key_obj_def)
  then have ka: "bp_key_at p (doc_off objs (unat (ks ! i))) = Some (names ! i)"
    using key bp_doc_small [OF assms(1)] by (intro key_at_enc) (auto simp: key_obj_def p_def)
  have "bp_offset_at p t (unat (ks ! i)) = doc_off objs (unat (ks ! i))"
    "bp_offset_at p t (unat (vs ! i)) = doc_off objs (unat (vs ! i))"
    unfolding p_def t_def using bp_offset_doc [OF assms(1)] ki vi by blast+
  then show "bp_entries p t pos (length ks) [0..<length ks] ! i =
      zip (map Some names) (map (\<lambda>v. doc_off objs (unat v)) vs) ! i"
    using i names assms(4) k v ka rs by (simp add: bp_entries_def)
qed

text \<open>Lookups in the top-level dictionary of a written document.\<close>

lemma doc_lookup:
  assumes "doc_ok osize objs top_idx" "objs ! top_idx = dict_obj ks vs"
    and "length vs = length ks" "length ks \<le> 255"
    and "list_all2 (\<lambda>k s. key_obj objs (unat k) s) ks names" "\<forall>v\<in>set vs. unat v < length objs"
  defines "p \<equiv> bp_doc osize objs top_idx"
    and "entries \<equiv> zip (map Some names) (map (\<lambda>v. doc_off objs (unat v)) vs)"
  shows "bp_find_top p key = Some (map_of entries (Some key))"
    and "bplist_find_data p key out = (case map_of entries (Some key) of
      None \<Rightarrow> Some None | Some vo \<Rightarrow> bplist_read_data p vo out)"
proof -
  note top = doc_okD(3) [OF assms(1)]
  note d = doc_dict [OF assms(1) top assms(2-4)]
  note o = bp_open_doc [OF assms(1)]
  note l = bp_find_top_lookup [OF bp_doc_small [OF assms(1)] o d(1,2)]
  note e = doc_entries [OF assms(1) top assms(2-6)]
  show "bp_find_top p key = Some (map_of entries (Some key))"
    using l(1) e by (simp add: p_def entries_def)
  show "bplist_find_data p key out = (case map_of entries (Some key) of
      None \<Rightarrow> Some None | Some vo \<Rightarrow> bplist_read_data p vo out)"
    unfolding p_def entries_def bplist_find_data_def using l(2) e o by simp
qed

end
