(* ===== verification/Audio_Format.thy ===== *)
theory Audio_Format
  imports Prelude
begin

section \<open>Formats, encryption and streams (main/audio/audio_receiver.h, audio_stream.c)\<close>

text \<open>The data the RTSP layer hands to the audio receiver.\<close>

record audio_format =
  fm_codec :: bytes
  fm_sample_rate :: int
  fm_channels :: int
  fm_bits_per_sample :: int
  fm_frame_size :: int
  fm_max_samples_per_frame :: u32
  fm_sample_size :: u8
  fm_rice_history_mult :: u8
  fm_rice_initial_history :: u8
  fm_rice_limit :: u8
  fm_num_channels :: u8
  fm_max_run :: u16
  fm_max_coded_frame_size :: u32
  fm_avg_bit_rate :: u32
  fm_sample_rate_config :: u32

datatype audio_encrypt_type = AUDIO_ENCRYPT_NONE | AUDIO_ENCRYPT_AES_CBC | AUDIO_ENCRYPT_CHACHA20_POLY1305

record audio_encrypt =
  en_type :: audio_encrypt_type
  en_key :: bytes
  en_iv :: bytes
  en_key_len :: nat

text \<open>The type of a stream is a C enum, which takes any value of its 32 bits.\<close>

definition AUDIO_STREAM_NONE :: u32 where "AUDIO_STREAM_NONE = 0"
definition AUDIO_STREAM_REALTIME :: u32 where "AUDIO_STREAM_REALTIME = 96"
definition AUDIO_STREAM_BUFFERED :: u32 where "AUDIO_STREAM_BUFFERED = 103"

definition audio_stream_uses_buffer :: "u32 \<Rightarrow> bool" where
  "audio_stream_uses_buffer type \<longleftrightarrow> type = AUDIO_STREAM_BUFFERED"

text \<open>\<open>as_buffered_ops\<close> tells which of the two tables of operations the stream has.\<close>

record audio_stream =
  as_buffered_ops :: bool
  as_type :: u32
  as_running :: bool
  as_format :: audio_format
  as_encrypt :: audio_encrypt

definition format_zero :: audio_format where
  "format_zero = \<lparr>fm_codec = replicate 32 0, fm_sample_rate = 0, fm_channels = 0, fm_bits_per_sample = 0,
     fm_frame_size = 0, fm_max_samples_per_frame = 0, fm_sample_size = 0, fm_rice_history_mult = 0,
     fm_rice_initial_history = 0, fm_rice_limit = 0, fm_num_channels = 0, fm_max_run = 0,
     fm_max_coded_frame_size = 0, fm_avg_bit_rate = 0, fm_sample_rate_config = 0\<rparr>"

definition encrypt_zero :: audio_encrypt where
  "encrypt_zero = \<lparr>en_type = AUDIO_ENCRYPT_NONE, en_key = replicate 32 0, en_iv = replicate 16 0, en_key_len = 0\<rparr>"

definition audio_stream_create_realtime :: "bool \<Rightarrow> audio_stream option" where
  "audio_stream_create_realtime allocated =
    (if \<not> allocated then None
     else Some \<lparr>as_buffered_ops = False, as_type = AUDIO_STREAM_REALTIME, as_running = False,
       as_format = format_zero, as_encrypt = encrypt_zero\<rparr>)"

definition audio_stream_create_buffered :: "bool \<Rightarrow> audio_stream option" where
  "audio_stream_create_buffered allocated =
    (if \<not> allocated then None
     else Some \<lparr>as_buffered_ops = True, as_type = AUDIO_STREAM_BUFFERED, as_running = False,
       as_format = format_zero, as_encrypt = encrypt_zero\<rparr>)"

end
