(* ===== verification/Bplist_Responses.thy ===== *)
theory Bplist_Responses
  imports Bplist_Doc Audio_Format
begin

section \<open>The plists the receiver sends (main/plist/bplist_builder.c)\<close>

text \<open>
  The four response builders. Each returns the caller's buffer after the call and the C return
  value, the length of the plist or 0. The three small ones store their objects without room
  checks after one check of the capacity; the info response goes through the guarded writers.
\<close>

subsection \<open>The small builders\<close>

text \<open>
  One object: \<open>offsets[obj++] = pos\<close> and the stores of its bytes. \<open>cap\<close> is the size of the local
  array \<open>offsets\<close>; a store behind its end is undefined.
\<close>

fun bp_objects :: "nat \<Rightarrow> bytes list \<Rightarrow> bw \<times> nat list \<Rightarrow> (bw \<times> nat list) mem" where
  "bp_objects cap [] (s, offsets) = Some (s, offsets)"
| "bp_objects cap (bs # bss) (s, offsets) =
    (if length offsets \<ge> cap then None
     else do { s' \<leftarrow> emit bs s; bp_objects cap bss (s', offsets @ [snd s]) })"

fun bp_small_offsets :: "nat list \<Rightarrow> writer" where
  "bp_small_offsets [] s = Some (True, s)"
| "bp_small_offsets (n # ns) s =
    (if n > 0xFF then Some (False, s)
     else do { s \<leftarrow> emit [of_nat n] s; bp_small_offsets ns s })"

definition bp_small_tail :: "nat \<Rightarrow> bw \<times> nat list \<Rightarrow> bw mem" where
  "bp_small_tail top_idx st = (case st of (s, offsets) \<Rightarrow> do {
     let table_offset = snd s;
     (ok, s) \<leftarrow> bp_small_offsets offsets s;
     if \<not> ok then Some (fst s, 0)
     else do {
       s \<leftarrow> emit (replicate 6 0) s;
       s \<leftarrow> emit [1] s;
       s \<leftarrow> emit [1] s;
       s \<leftarrow> emit (replicate 7 0) s;
       s \<leftarrow> emit [of_nat (length offsets)] s;
       s \<leftarrow> emit (replicate 7 0) s;
       s \<leftarrow> emit [of_nat top_idx] s;
       s \<leftarrow> emit (replicate 7 0) s;
       emit [of_nat table_offset] s
     }
   })"

definition u16_hi :: "u16 \<Rightarrow> u8" where "u16_hi w = ucast (drop_bit 8 w AND 0xFF)"
definition u32_byte :: "u32 \<Rightarrow> nat \<Rightarrow> u8" where "u32_byte w i = ucast (drop_bit (i * 8) w AND 0xFF)"
definition u16_lo :: "u16 \<Rightarrow> u8" where "u16_lo w = ucast (w AND 0xFF)"

definition bplist_build_initial_setup :: "bytes \<Rightarrow> u16 \<Rightarrow> bw mem" where
  "bplist_build_initial_setup out event_port =
    (if length out < 100 then Some (out, 0)
     else do {
       s \<leftarrow> emit bplist_magic (out, 0);
       st \<leftarrow> bp_objects 10
         [0x59 # ascii ''eventPort'',
          0x5A # ascii ''timingPort'',
          [0x11, u16_hi event_port, u16_lo event_port],
          [0x10, 0],
          [0xD2, 0, 1, 2, 3]] (s, []);
       bp_small_tail 4 st
     })"

definition bplist_build_stream_setup ::
  "bytes \<Rightarrow> int \<Rightarrow> u16 \<Rightarrow> u16 \<Rightarrow> u32 \<Rightarrow> bw mem" where
  "bplist_build_stream_setup out stream_type data_port control_port audio_buffer_size =
    (if length out < 200 then Some (out, 0)
     else do {
       s \<leftarrow> emit bplist_magic (out, 0);
       st \<leftarrow> bp_objects 16
         [0x57 # ascii ''streams'',
          0x54 # ascii ''type'',
          0x58 # ascii ''dataPort'',
          0x5B # ascii ''controlPort'',
          [0x5F, 0x10, 15] @ ascii ''audioBufferSize'',
          [0x10, of_int stream_type],
          [0x11, u16_hi data_port, u16_lo data_port],
          [0x11, u16_hi control_port, u16_lo control_port],
          [0x12, u32_byte audio_buffer_size 3, u32_byte audio_buffer_size 2, u32_byte audio_buffer_size 1,
           u32_byte audio_buffer_size 0],
          (if audio_stream_uses_buffer (of_int stream_type) then [0xD4, 1, 2, 4, 3, 5, 6, 8, 7]
           else [0xD3, 1, 2, 3, 5, 6, 7]),
          [0xA1, 9],
          [0xD1, 0, 10]] (s, []);
       bp_small_tail 11 st
     })"

text \<open>The double is given by its IEEE 754 bits, which the code stores most significant byte first.\<close>

definition bplist_build_feedback_response :: "bytes \<Rightarrow> int \<Rightarrow> u64 \<Rightarrow> bw mem" where
  "bplist_build_feedback_response out stream_type sample_rate =
    (if length out < 100 then Some (out, 0)
     else do {
       s \<leftarrow> emit bplist_magic (out, 0);
       st \<leftarrow> bp_objects 10
         [0x57 # ascii ''streams'',
          0x54 # ascii ''type'',
          0x52 # ascii ''sr'',
          [0x10, of_int stream_type],
          0x23 # be_bytes 8 sample_rate,
          [0xD2, 1, 2, 3, 4],
          [0xA1, 5],
          [0xD1, 0, 6]] (s, []);
       bp_small_tail 7 st
     })"

subsection \<open>Encodings of ports\<close>

lemma u16_bytes: "256 * unat (u16_hi w) + unat (u16_lo w) = unat w"
proof -
  have lo: "u16_lo w = ucast w"
    by (rule bit_word_eqI) (auto simp: u16_lo_def bit_simps bit_mask_numeral dest: bit_u8_less)
  have hi: "u16_hi w = ucast (drop_bit 8 w)"
    by (rule bit_word_eqI) (auto simp: u16_hi_def bit_simps bit_mask_numeral dest: bit_u8_less)
  have "unat w div 256 < 256" using unat_u16_less [of w] by linarith
  then have "unat (u16_hi w) = unat w div 256"
    by (simp only: hi unat_ucast_byte unat_drop_bit) simp
  moreover have "unat (u16_lo w) = unat w mod 256" by (simp only: lo unat_ucast_byte)
  ultimately show ?thesis by simp
qed

lemma take_put_at_0 [simp]: "take (length bs) (put_at out 0 bs) = bs"
  by (simp add: put_at_def)

lemma bp_objects_put:
  assumes "length offsets + length bss \<le> cap" "pos + length (concat bss) \<le> length out"
  shows "bp_objects cap bss ((out, pos), offsets) = Some
    ((put_at out pos (concat bss), pos + length (concat bss)), offsets @ offs_from pos bss)"
  using assms
proof (induction bss arbitrary: out pos offsets)
  case (Cons bs bss)
  then show ?case
    using Cons.IH [of "offsets @ [pos]" "pos + length bs" "put_at out pos bs"]
    by (simp add: emit_room put_at_put_at)
qed simp

lemma bp_small_offsets_put:
  assumes "\<forall>n\<in>set ns. n \<le> 255" "pos + length ns \<le> length out"
  shows "bp_small_offsets ns (out, pos) = Some (True, put_at out pos (map of_nat ns), pos + length ns)"
  using assms
proof (induction ns arbitrary: out pos)
  case (Cons n ns)
  then show ?case
    using Cons.IH [of "Suc pos" "put_at out pos [of_nat n]"]
    by (simp add: emit_room put_at_put_at)
qed simp

lemma bp_small_tail_put:
  assumes "\<forall>n\<in>set offsets. n \<le> 255" "pos + length offsets + 32 \<le> length out"
  shows "bp_small_tail top_idx ((out, pos), offsets) = Some
    (put_at out pos (map of_nat offsets @ replicate 6 0 @ [1, 1] @ replicate 7 0 @
       [of_nat (length offsets)] @ replicate 7 0 @ [of_nat top_idx] @ replicate 7 0 @ [of_nat pos]),
     pos + length offsets + 32)"
  using assms bp_small_offsets_put [OF assms(1), of pos out]
  by (simp add: bp_small_tail_def emit_room put_at_put_at)

lemma be_bytes_byte:
  assumes "n < 256"
  shows "be_bytes 8 (of_nat n) = replicate 7 0 @ [of_nat n]" and "be_bytes (Suc 0) (of_nat n) = [of_nat n]"
proof -
  have b: "(ucast (drop_bit (i * 8) (of_nat n :: u64)) :: u8) = of_nat (n div 256 ^ i)" for i
  proof (rule word_unat_eq_iff [THEN iffD2])
    have "unat (of_nat n :: u64) = n" using assms by (intro unat_of_nat_id) simp
    moreover have "n div 256 ^ i < 256" using assms by (meson div_le_dividend le_less_trans)
    ultimately show "unat (ucast (drop_bit (i * 8) (of_nat n :: u64)) :: u8) = unat (of_nat (n div 256 ^ i) :: u8)"
      using unat_of_nat_id [where ?'a = 8, of "n div 256 ^ i"]
      by (simp only: unat_ucast_byte unat_drop_bit mult.commute [of i] power_mult) simp
  qed
  have z: "n div 256 ^ i = 0" if "0 < i" for i
  proof -
    have "(256 :: nat) ^ 1 \<le> 256 ^ i" using that by (intro power_increasing) auto
    then have "n < 256 ^ i" using assms by simp
    then show ?thesis by (rule div_less)
  qed
  have "rev [0..<8] = [7, 6, 5, 4, 3, 2, 1, 0]" by (simp add: upt_rec)
  moreover have "replicate 7 0 = [0, 0, 0, 0, 0, 0, 0 :: u8]" by (simp add: numeral_eq_Suc)
  ultimately show "be_bytes 8 (of_nat n) = replicate 7 0 @ [of_nat n]"
    unfolding be_bytes_def b by (simp add: z assms del: power_numeral)
  show "be_bytes (Suc 0) (of_nat n) = [of_nat n]" unfolding be_bytes_def b by simp
qed

lemma concat_be_bytes_1:
  "\<forall>n\<in>set ns. n \<le> 255 \<Longrightarrow> concat (map (\<lambda>n. be_bytes (Suc 0) (of_nat n)) ns) = map of_nat ns"
  by (induction ns) (simp_all add: be_bytes_byte)

lemma offs_from_le: "n \<in> set (offs_from k bs) \<Longrightarrow> n \<le> k + length (concat bs)"
  by (induction bs arbitrary: k) (auto, fastforce)

text \<open>A small builder writes the document of its objects.\<close>

lemma small_builder_doc:
  assumes "length objs \<le> cap" "cap < 256" "top_idx < length objs" "8 + length (concat objs) < 256"
    and "length (bp_doc 1 objs top_idx) \<le> length out"
  shows "(do { s \<leftarrow> emit bplist_magic (out, 0); st \<leftarrow> bp_objects cap objs (s, []); bp_small_tail top_idx st })
    = Some (put_at out 0 (bp_doc 1 objs top_idx), length (bp_doc 1 objs top_idx))"
proof -
  let ?n = "length objs" and ?m = "length (concat objs)"
  have room: "8 + ?m + ?n + 32 \<le> length out" using assms(5) by (simp add: length_bp_doc)
  have offs: "\<forall>n\<in>set (offs_from 8 objs). n \<le> 255" using assms(4) by (auto dest: offs_from_le)
  have e: "emit bplist_magic (out, 0) = Some (put_at out 0 bplist_magic, 8)"
    using room by (subst emit_room) simp_all
  have o: "bp_objects cap objs ((put_at out 0 bplist_magic, 8), []) =
      Some ((put_at out 0 (bplist_magic @ concat objs), 8 + ?m), offs_from 8 objs)"
    using room assms(1) by (subst bp_objects_put) (simp_all add: put_at_put_at)
  have table: "bp_table 1 objs = map of_nat (offs_from 8 objs)"
    using concat_be_bytes_1 [OF offs] by (simp add: bp_table_def)
  have tr: "bp_trailer_bytes 1 ?n top_idx (8 + ?m) = replicate 6 0 @ [1, 1] @ replicate 7 0 @
      [of_nat ?n] @ replicate 7 0 @ [of_nat top_idx] @ replicate 7 0 @ [of_nat (8 + ?m)]"
    using assms(1-4) by (simp add: bp_trailer_bytes_def be_bytes_byte del: of_nat_add)
  have "bp_small_tail top_idx ((put_at out 0 (bplist_magic @ concat objs), 8 + ?m), offs_from 8 objs) =
      Some (put_at (put_at out 0 (bplist_magic @ concat objs)) (8 + ?m)
        (bp_table 1 objs @ bp_trailer_bytes 1 ?n top_idx (8 + ?m)), 8 + ?m + ?n + 32)"
    unfolding table tr using room offs by (subst bp_small_tail_put) simp_all
  then show ?thesis
    using room by (simp add: e o put_at_put_at bp_doc_def)
qed

subsection \<open>The initial SETUP response\<close>


subsection \<open>The initial SETUP response\<close>

definition initial_setup_objs :: "u16 \<Rightarrow> bytes list" where
  "initial_setup_objs port = [0x59 # ascii ''eventPort'', 0x5A # ascii ''timingPort'',
     [0x11, u16_hi port, u16_lo port], [0x10, 0], [0xD2, 0, 1, 2, 3]]"

definition initial_setup_plist :: "u16 \<Rightarrow> bytes" where
  "initial_setup_plist port = bp_doc 1 (initial_setup_objs port) 4"

lemma bplist_build_initial_setup_eq:
  assumes "100 \<le> length out"
  shows "bplist_build_initial_setup out port = Some (put_at out 0 (initial_setup_plist port), 76)"
  using assms small_builder_doc [of "initial_setup_objs port" 10 4 out]
  by (simp add: bplist_build_initial_setup_def initial_setup_plist_def length_bp_doc)
    (simp add: initial_setup_objs_def)

lemma length_initial_setup_plist: "length (initial_setup_plist port) = 76"
  by (simp add: initial_setup_plist_def length_bp_doc initial_setup_objs_def)

lemma replicate_lits:
  "replicate 6 x = [x, x, x, x, x, x]" "replicate 7 x = [x, x, x, x, x, x, x]"
  by (simp_all add: numeral_eq_Suc)

lemmas doc_eval = bp_doc_def bp_table_def bp_trailer_bytes_def be_bytes_def upt_rec bplist_magic_def
  ascii_def replicate_lits

lemma initial_setup_lookup:
  "bplist_find_int (initial_setup_plist port) (ascii ''eventPort'') = Some (Some (int (unat port)))"
  "bplist_find_int (initial_setup_plist port) (ascii ''timingPort'') = Some (Some 0)"
proof -
  let ?p = "[98, 112, 108, 105, 115, 116, 48, 48, 89, 101, 118, 101, 110, 116, 80, 111, 114, 116,
    90, 116, 105, 109, 105, 110, 103, 80, 111, 114, 116, 17, u16_hi port, u16_lo port, 16, 0,
    210, 0, 1, 2, 3, 8, 18, 29, 32, 34, 0, 0, 0, 0, 0, 0, 1, 1, 0, 0, 0, 0, 0, 0, 0, 5,
    0, 0, 0, 0, 0, 0, 0, 4, 0, 0, 0, 0, 0, 0, 0, 39]"
  have p: "initial_setup_plist port = ?p"
    by (simp add: initial_setup_plist_def initial_setup_objs_def doc_eval)
  have o: "bp_open ?p = Some (Some (\<lparr>offset_size = 1, ref_size = 1, num_objects = 5, top_object = 4,
      offset_table_offset = 39\<rparr>, 34))"
    by (simp add: bp_eval_open)
  have "bplist_read_int ?p 29 = Some (Some (int (unat port)))"
    by (simp add: bp_eval_walk) (simp add: u16_bytes less_trans [OF unat_u16_less])
  then show "bplist_find_int (initial_setup_plist port) (ascii ''eventPort'') = Some (Some (int (unat port)))"
    by (simp add: p bplist_find_int_def bp_find_top_def o) (simp add: bp_eval_walk)
  show "bplist_find_int (initial_setup_plist port) (ascii ''timingPort'') = Some (Some 0)"
    by (simp add: p bplist_find_int_def bp_find_top_def o) (simp add: bp_eval_walk)
qed

text \<open>
  Round trip of the first SETUP response: given at least 100 bytes of room the builder
  succeeds without leaving the buffer, and the parser reads back the event port it was given
  and the timing port 0; with less room it returns 0 and leaves the buffer alone.
\<close>

theorem initial_setup_roundtrip:
  "if 100 \<le> length out then
     \<exists>out' n. bplist_build_initial_setup out port = Some (out', n) \<and> 0 < n \<and> n \<le> length out \<and>
       length out' = length out \<and>
       bplist_find_int (take n out') (ascii ''eventPort'') = Some (Some (int (unat port))) \<and>
       bplist_find_int (take n out') (ascii ''timingPort'') = Some (Some 0)
   else bplist_build_initial_setup out port = Some (out, 0)"
proof (cases "100 \<le> length out")
  case True
  have "take 76 (put_at out 0 (initial_setup_plist port)) = initial_setup_plist port"
    using take_put_at_0 [of "initial_setup_plist port" out] by (simp add: length_initial_setup_plist)
  then show ?thesis
    using True by (simp add: bplist_build_initial_setup_eq initial_setup_lookup length_initial_setup_plist)
qed (simp add: bplist_build_initial_setup_def)

subsection \<open>The SETUP response of a stream\<close>

definition stream_setup_objs :: "int \<Rightarrow> u16 \<Rightarrow> u16 \<Rightarrow> u32 \<Rightarrow> bytes list" where
  "stream_setup_objs stream_type data_port control_port bsize =
     [0x57 # ascii ''streams'', 0x54 # ascii ''type'', 0x58 # ascii ''dataPort'',
      0x5B # ascii ''controlPort'', [0x5F, 0x10, 15] @ ascii ''audioBufferSize'',
      [0x10, of_int stream_type], [0x11, u16_hi data_port, u16_lo data_port],
      [0x11, u16_hi control_port, u16_lo control_port],
      [0x12, u32_byte bsize 3, u32_byte bsize 2, u32_byte bsize 1, u32_byte bsize 0],
      (if audio_stream_uses_buffer (of_int stream_type) then [0xD4, 1, 2, 4, 3, 5, 6, 8, 7]
       else [0xD3, 1, 2, 3, 5, 6, 7]), [0xA1, 9], [0xD1, 0, 10]]"

lemma bplist_build_stream_setup_eq:
  assumes "200 \<le> length out"
  shows "bplist_build_stream_setup out stream_type dp cp bsize = Some
    (put_at out 0 (bp_doc 1 (stream_setup_objs stream_type dp cp bsize) 11),
     length (bp_doc 1 (stream_setup_objs stream_type dp cp bsize) 11))"
  using assms small_builder_doc [of "stream_setup_objs stream_type dp cp bsize" 16 11 out]
  unfolding bplist_build_stream_setup_def stream_setup_objs_def [symmetric]
  by (simp add: length_bp_doc) (simp add: stream_setup_objs_def)

lemma u32_bytes:
  "be_val [u32_byte w 3, u32_byte w 2, u32_byte w 1, u32_byte w 0] = unat w"
proof -
  have b: "u32_byte w n = ucast (drop_bit (n * 8) (ucast w :: u64))" for n
    unfolding u32_byte_def
    by (rule bit_word_eqI) (auto simp: bit_simps bit_mask_numeral dest: bit_u8_less bit_imp_le_length)
  have "rev [0..<4] = [3, 2, 1, 0]" by (simp add: upt_rec)
  then have "[u32_byte w 3, u32_byte w 2, u32_byte w 1, u32_byte w 0] = be_bytes 4 (ucast w)"
    by (simp only: be_bytes_def b list.map)
  moreover have "unat w < 2 ^ 32" using unat_less_exp [of w] by simp
  moreover from this have "unat (ucast w :: u64) = unat w"
    by (simp add: unsigned_ucast_eq take_bit_nat_eq_self)
  ultimately show ?thesis by (simp only: be_val_be_bytes) simp
qed

text \<open>The bytes of the two forms of the response, and what the parser reads from them.\<close>

definition buffered_bytes ::
  "u8 \<Rightarrow> u8 \<Rightarrow> u8 \<Rightarrow> u8 \<Rightarrow> u8 \<Rightarrow> u8 \<Rightarrow> u8 \<Rightarrow> u8 \<Rightarrow> u8 \<Rightarrow> bytes" where
  "buffered_bytes a b c d e f g h i =
   [98, 112, 108, 105, 115, 116, 48, 48, 87, 115, 116, 114, 101, 97, 109, 115,
    84, 116, 121, 112, 101, 88, 100, 97, 116, 97, 80, 111, 114, 116,
    91, 99, 111, 110, 116, 114, 111, 108, 80, 111, 114, 116,
    95, 16, 15, 97, 117, 100, 105, 111, 66, 117, 102, 102, 101, 114, 83, 105, 122, 101,
    16, a, 17, b, c, 17, d, e, 18, f, g, h, i, 212, 1, 2, 4, 3, 5, 6, 8, 7, 161, 9, 209, 0, 10,
    8, 16, 21, 30, 42, 60, 62, 65, 68, 73, 82, 84, 0, 0, 0, 0, 0, 0, 1, 1,
    0, 0, 0, 0, 0, 0, 0, 12, 0, 0, 0, 0, 0, 0, 0, 11, 0, 0, 0, 0, 0, 0, 0, 87]"

definition realtime_bytes ::
  "u8 \<Rightarrow> u8 \<Rightarrow> u8 \<Rightarrow> u8 \<Rightarrow> u8 \<Rightarrow> u8 \<Rightarrow> u8 \<Rightarrow> u8 \<Rightarrow> u8 \<Rightarrow> bytes" where
  "realtime_bytes a b c d e f g h i =
   [98, 112, 108, 105, 115, 116, 48, 48, 87, 115, 116, 114, 101, 97, 109, 115,
    84, 116, 121, 112, 101, 88, 100, 97, 116, 97, 80, 111, 114, 116,
    91, 99, 111, 110, 116, 114, 111, 108, 80, 111, 114, 116,
    95, 16, 15, 97, 117, 100, 105, 111, 66, 117, 102, 102, 101, 114, 83, 105, 122, 101,
    16, a, 17, b, c, 17, d, e, 18, f, g, h, i, 211, 1, 2, 3, 5, 6, 7, 161, 9, 209, 0, 10,
    8, 16, 21, 30, 42, 60, 62, 65, 68, 73, 80, 82, 0, 0, 0, 0, 0, 0, 1, 1,
    0, 0, 0, 0, 0, 0, 0, 12, 0, 0, 0, 0, 0, 0, 0, 11, 0, 0, 0, 0, 0, 0, 0, 85]"

abbreviation int_kv :: "string \<Rightarrow> int \<Rightarrow> kv_info" where
  "int_kv key v \<equiv> \<lparr>kv_key = ascii key, kv_type = VALUE_INT, kv_len = 0, kv_int = v\<rparr>"

lemma byte_int:
  fixes a :: u8
  shows "unat a < 9223372036854775808" and "uint a \<noteq> - 1" and "c_int64 (unat a) = uint a"
proof -
  show *: "unat a < 9223372036854775808" by (rule less_trans [OF unat_u8_less]) simp
  show "c_int64 (unat a) = uint a" using * by (subst c_int64_id) simp_all
  have "0 \<le> uint a" by simp
  then show "uint a \<noteq> - 1" by linarith
qed

lemma buffered_walk:
  "bplist_get_streams_count (buffered_bytes a b c d e f g h i) = Some (Some 1)"
  "bplist_get_stream_info (buffered_bytes a b c d e f g h i) 0 = Some (Some
    \<lparr>si_type = int (unat a), si_ekey_len = 0, si_eiv_len = 0, si_shk_len = 0\<rparr>)"
  "bplist_get_stream_kv_info (buffered_bytes a b c d e f g h i) 0 16 = Some (Some
    [int_kv ''type'' (int (unat a)), int_kv ''dataPort'' (c_int64 (be_val [b, c])),
     int_kv ''audioBufferSize'' (c_int64 (be_val [f, g, h, i])),
     int_kv ''controlPort'' (c_int64 (be_val [d, e]))])"
proof -
  let ?p = "buffered_bytes a b c d e f g h i"
  let ?t = "\<lparr>offset_size = 1, ref_size = 1, num_objects = 12, top_object = 11,
      offset_table_offset = 87\<rparr>"
  note lit = buffered_bytes_def
  have o: "bp_open ?p = Some (Some (?t, 84))" by (simp add: lit bp_eval_open)
  have arr: "bp_stream_array ?p = Some (Some (?t, 82, 1, 1))"
    by (simp add: bp_stream_array_def o) (simp add: bp_eval_walk lit)
  have dict: "bp_stream_dict ?p 0 = Some (Some (?t, 4, 74))"
    by (simp add: bp_stream_dict_def arr) (simp add: bp_eval_walk lit)
  show "bplist_get_streams_count ?p = Some (Some 1)"
    by (simp add: bplist_get_streams_count_def arr)
  note a = byte_int [of a]
  show "bplist_get_stream_info ?p 0 = Some (Some
      \<lparr>si_type = int (unat a), si_ekey_len = 0, si_eiv_len = 0, si_shk_len = 0\<rparr>)"
    by (simp add: bplist_get_stream_info_def dict stream_info_init_def) (simp add: bp_eval_walk lit a)
  show "bplist_get_stream_kv_info ?p 0 16 = Some (Some
    [int_kv ''type'' (int (unat a)), int_kv ''dataPort'' (c_int64 (be_val [b, c])),
     int_kv ''audioBufferSize'' (c_int64 (be_val [f, g, h, i])),
     int_kv ''controlPort'' (c_int64 (be_val [d, e]))])"
    by (simp add: bplist_get_stream_kv_info_def dict)
      (simp add: bp_eval_walk lit a bp_kv_value_def del: c_int64_id)
qed

lemma realtime_walk:
  "bplist_get_streams_count (realtime_bytes a b c d e f g h i) = Some (Some 1)"
  "bplist_get_stream_info (realtime_bytes a b c d e f g h i) 0 = Some (Some
    \<lparr>si_type = int (unat a), si_ekey_len = 0, si_eiv_len = 0, si_shk_len = 0\<rparr>)"
  "bplist_get_stream_kv_info (realtime_bytes a b c d e f g h i) 0 16 = Some (Some
    [int_kv ''type'' (int (unat a)), int_kv ''dataPort'' (c_int64 (be_val [b, c])),
     int_kv ''controlPort'' (c_int64 (be_val [d, e]))])"
proof -
  let ?p = "realtime_bytes a b c d e f g h i"
  let ?t = "\<lparr>offset_size = 1, ref_size = 1, num_objects = 12, top_object = 11,
      offset_table_offset = 85\<rparr>"
  note lit = realtime_bytes_def
  have o: "bp_open ?p = Some (Some (?t, 82))" by (simp add: lit bp_eval_open)
  have arr: "bp_stream_array ?p = Some (Some (?t, 80, 1, 1))"
    by (simp add: bp_stream_array_def o) (simp add: bp_eval_walk lit)
  have dict: "bp_stream_dict ?p 0 = Some (Some (?t, 3, 74))"
    by (simp add: bp_stream_dict_def arr) (simp add: bp_eval_walk lit)
  show "bplist_get_streams_count ?p = Some (Some 1)"
    by (simp add: bplist_get_streams_count_def arr)
  note a = byte_int [of a]
  show "bplist_get_stream_info ?p 0 = Some (Some
      \<lparr>si_type = int (unat a), si_ekey_len = 0, si_eiv_len = 0, si_shk_len = 0\<rparr>)"
    by (simp add: bplist_get_stream_info_def dict stream_info_init_def) (simp add: bp_eval_walk lit a)
  show "bplist_get_stream_kv_info ?p 0 16 = Some (Some
    [int_kv ''type'' (int (unat a)), int_kv ''dataPort'' (c_int64 (be_val [b, c])),
     int_kv ''controlPort'' (c_int64 (be_val [d, e]))])"
    by (simp add: bplist_get_stream_kv_info_def dict)
      (simp add: bp_eval_walk lit a bp_kv_value_def del: c_int64_id)
qed


text \<open>
  Round trip of a stream's SETUP response: given at least 200 bytes of room the builder
  succeeds without leaving the buffer, and the parser finds one stream in its response with the
  low byte of the stream type, the data port and the control port, and for a buffered stream
  also the size of the audio buffer; with less room the builder returns 0.
\<close>

theorem stream_setup_roundtrip:
  "if 200 \<le> length out then
     \<exists>out' n. bplist_build_stream_setup out stream_type data_port control_port bsize = Some (out', n) \<and>
       0 < n \<and> n \<le> length out \<and> length out' = length out \<and>
       bplist_get_streams_count (take n out') = Some (Some 1) \<and>
       bplist_get_stream_kv_info (take n out') 0 16 = Some (Some
         ([int_kv ''type'' (int (unat (of_int stream_type :: u8))),
           int_kv ''dataPort'' (int (unat data_port))] @
          (if audio_stream_uses_buffer (of_int stream_type)
           then [int_kv ''audioBufferSize'' (int (unat bsize))] else []) @
          [int_kv ''controlPort'' (int (unat control_port))]))
   else bplist_build_stream_setup out stream_type data_port control_port bsize = Some (out, 0)"
proof (cases "200 \<le> length out")
  case True
  let ?doc = "bp_doc 1 (stream_setup_objs stream_type data_port control_port bsize) 11"
  let ?bytes = "(if audio_stream_uses_buffer (of_int stream_type) then buffered_bytes else realtime_bytes)
    (of_int stream_type) (u16_hi data_port) (u16_lo data_port) (u16_hi control_port) (u16_lo control_port)
    (u32_byte bsize 3) (u32_byte bsize 2) (u32_byte bsize 1) (u32_byte bsize 0)"
  have doc: "?doc = ?bytes"
    by (simp add: stream_setup_objs_def doc_eval buffered_bytes_def realtime_bytes_def)
  have len: "length ?doc \<le> 131" "0 < length ?doc" by (simp_all add: length_bp_doc stream_setup_objs_def)
  have port: "c_int64 (be_val [u16_hi w, u16_lo w]) = int (unat w)" for w
  proof -
    have "be_val [u16_hi w, u16_lo w] = unat w" using u16_bytes [of w] by (simp add: be_val_def)
    moreover have "unat w < 2 ^ 63" by (rule less_trans [OF unat_u16_less]) simp
    ultimately show ?thesis by (simp only: c_int64_id)
  qed
  have "unat bsize < 2 ^ 63" by (rule less_trans [OF unat_less_exp]) simp
  then have size: "c_int64 (be_val [u32_byte bsize 3, u32_byte bsize 2, u32_byte bsize 1, u32_byte bsize 0]) =
      int (unat bsize)"
    by (simp only: u32_bytes c_int64_id)
  have "bplist_get_streams_count ?doc = Some (Some 1) \<and>
    bplist_get_stream_kv_info ?doc 0 16 = Some (Some
      ([int_kv ''type'' (int (unat (of_int stream_type :: u8))), int_kv ''dataPort'' (int (unat data_port))] @
       (if audio_stream_uses_buffer (of_int stream_type)
        then [int_kv ''audioBufferSize'' (int (unat bsize))] else []) @
       [int_kv ''controlPort'' (int (unat control_port))]))"
    unfolding doc by (simp only: buffered_walk realtime_walk port size split: if_split) simp
  then show ?thesis
    using True len by (simp add: bplist_build_stream_setup_eq)
qed (simp add: bplist_build_stream_setup_def)

subsection \<open>The feedback response\<close>

definition feedback_objs :: "int \<Rightarrow> u64 \<Rightarrow> bytes list" where
  "feedback_objs stream_type sample_rate =
     [0x57 # ascii ''streams'', 0x54 # ascii ''type'', 0x52 # ascii ''sr'',
      [0x10, of_int stream_type], 0x23 # be_bytes 8 sample_rate,
      [0xD2, 1, 2, 3, 4], [0xA1, 5], [0xD1, 0, 6]]"

lemma bplist_build_feedback_response_eq:
  assumes "100 \<le> length out"
  shows "bplist_build_feedback_response out stream_type sr = Some
    (put_at out 0 (bp_doc 1 (feedback_objs stream_type sr) 7), 85)"
  using assms small_builder_doc [of "feedback_objs stream_type sr" 10 7 out]
  unfolding bplist_build_feedback_response_def feedback_objs_def [symmetric]
  by (simp add: length_bp_doc) (simp add: feedback_objs_def)

definition feedback_bytes ::
  "u8 \<Rightarrow> u8 \<Rightarrow> u8 \<Rightarrow> u8 \<Rightarrow> u8 \<Rightarrow> u8 \<Rightarrow> u8 \<Rightarrow> u8 \<Rightarrow> u8 \<Rightarrow> bytes" where
  "feedback_bytes a b c d e f g h i =
   [98, 112, 108, 105, 115, 116, 48, 48, 87, 115, 116, 114, 101, 97, 109, 115, 84, 116, 121,
    112, 101, 82, 115, 114, 16, a, 35, b, c, d, e, f, g, h, i, 210, 1, 2, 3, 4, 161, 5, 209,
    0, 6, 8, 16, 21, 24, 26, 35, 40, 42, 0, 0, 0, 0, 0, 0, 1, 1, 0, 0, 0, 0, 0, 0, 0, 8, 0, 0,
    0, 0, 0, 0, 0, 7, 0, 0, 0, 0, 0, 0, 0, 45]"

lemma feedback_walk:
  defines "t \<equiv> \<lparr>offset_size = 1, ref_size = 1, num_objects = 8, top_object = 7, offset_table_offset = 45\<rparr>"
  shows "bp_stream_dict (feedback_bytes a b c d e f g h i) 0 = Some (Some (t, 2, 36))"
    and "bplist_get_stream_info (feedback_bytes a b c d e f g h i) 0 = Some (Some
      \<lparr>si_type = int (unat a), si_ekey_len = 0, si_eiv_len = 0, si_shk_len = 0\<rparr>)"
    and "bp_find_key (feedback_bytes a b c d e f g h i) t 36 2 (ascii ''sr'') [0..<2] = Some (Some 26)"
    and "bplist_read_real (feedback_bytes a b c d e f g h i) 26 =
      Some (Some (Double (of_nat (be_val [b, c, d, e, f, g, h, i]))))"
proof -
  let ?p = "feedback_bytes a b c d e f g h i"
  note lit = feedback_bytes_def t_def
  have o: "bp_open ?p = Some (Some (t, 42))" by (simp add: lit bp_eval_open)
  have arr: "bp_stream_array ?p = Some (Some (t, 40, 1, 1))"
    by (simp add: bp_stream_array_def o) (simp add: bp_eval_walk lit)
  show dict: "bp_stream_dict ?p 0 = Some (Some (t, 2, 36))"
    by (simp add: bp_stream_dict_def arr) (simp add: bp_eval_walk lit)
  show "bplist_get_stream_info ?p 0 = Some (Some
      \<lparr>si_type = int (unat a), si_ekey_len = 0, si_eiv_len = 0, si_shk_len = 0\<rparr>)"
    by (simp add: bplist_get_stream_info_def dict stream_info_init_def)
      (simp add: bp_eval_walk lit byte_int [of a])
  show "bp_find_key ?p t 36 2 (ascii ''sr'') [0..<2] = Some (Some 26)"
    by (simp add: bp_eval_walk lit)
  have d: "drop 27 ?p = [b, c, d, e, f, g, h, i] @ drop 35 ?p" by (simp add: lit)
  have m: "rd ?p 26 = Some 35" "26 < length ?p" "35 \<le> length ?p" by (simp_all add: lit)
  show "bplist_read_real ?p 26 = Some (Some (Double (of_nat (be_val [b, c, d, e, f, g, h, i]))))"
    using m read_be_int_prefix [OF d, of 8]
    by (simp add: bplist_read_real_def obj_type_def obj_info_def bplist_types Let_def)
qed

text \<open>
  Round trip of the feedback response: given at least 100 bytes of room the builder succeeds
  without leaving the buffer, and its response has one stream with the low byte of the stream
  type and, under \<open>sr\<close>, a real object with the bits of the sample rate.
\<close>

theorem feedback_roundtrip:
  "if 100 \<le> length out then
     \<exists>out' n info t vo. bplist_build_feedback_response out stream_type sr = Some (out', n) \<and>
       0 < n \<and> n \<le> length out \<and> length out' = length out \<and>
       bplist_get_stream_info (take n out') 0 = Some (Some info) \<and>
       si_type info = int (unat (of_int stream_type :: u8)) \<and>
       bp_stream_dict (take n out') 0 = Some (Some (t, 2, 36)) \<and>
       bp_find_key (take n out') t 36 2 (ascii ''sr'') [0..<2] = Some (Some vo) \<and>
       bplist_read_real (take n out') vo = Some (Some (Double sr))
   else bplist_build_feedback_response out stream_type sr = Some (out, 0)"
proof (cases "100 \<le> length out")
  case True
  let ?doc = "bp_doc 1 (feedback_objs stream_type sr) 7"
  define bs where "bs = be_bytes 8 sr"
  have "length bs = 8" by (simp add: bs_def)
  then obtain b c d e f g h i where bs: "bs = [b, c, d, e, f, g, h, i]"
    by (auto simp: numeral_eq_Suc length_Suc_conv)
  have "?doc = feedback_bytes (of_int stream_type) b c d e f g h i"
    unfolding feedback_objs_def bs_def [symmetric] bs by (simp add: doc_eval feedback_bytes_def)
  moreover have "of_nat (be_val [b, c, d, e, f, g, h, i]) = sr"
    using be_val_be_bytes [of 8 sr] unat_less_exp [of sr] by (simp add: bs_def [symmetric] bs)
  moreover have "length ?doc = 85" by (simp add: length_bp_doc feedback_objs_def)
  moreover from this have "take 85 (put_at out 0 ?doc) = ?doc" by (metis take_put_at_0)
  ultimately show ?thesis
    using True feedback_walk [of "of_int stream_type" b c d e f g h i]
    by (simp add: bplist_build_feedback_response_eq)
qed (simp add: bplist_build_feedback_response_def)

end
