(* ===== verification/Bplist_Info.thy ===== *)
theory Bplist_Info
  imports Bplist_Responses
begin

section \<open>The info response (main/plist/bplist_builder.c)\<close>

text \<open>
  \<open>bplist_build_info_response\<close> writes 39 objects through the guarded writers, returning 0 as soon
  as one fails, and closes the document with \<open>bplist_finish\<close>. Its straight line of
  \<open>ADD_OFFSET()\<close> and write steps is a list of writers here.
\<close>

subsection \<open>Definitions\<close>

fun bp_write_offsets :: "nat list \<Rightarrow> writer" where
  "bp_write_offsets [] s = Some (True, s)"
| "bp_write_offsets (n # ns) s =
    (if n > 0xFFFF \<or> \<not> bplist_has_room (snd s) 2 (length (fst s)) then Some (False, s)
     else do {
       s \<leftarrow> emit [of_nat (n div 256)] s;
       s \<leftarrow> emit [of_nat n] s;
       bp_write_offsets ns s
     })"

definition bplist_finish :: "nat list \<Rightarrow> nat \<Rightarrow> writer" where
  "bplist_finish offsets top_idx s = do {
     let table_offset = snd s;
     (ok, s) \<leftarrow> bp_write_offsets offsets s;
     if \<not> ok \<or> \<not> bplist_has_room (snd s) 32 (length (fst s)) then Some (False, s)
     else do {
       s \<leftarrow> emit (replicate 6 0) s;
       s \<leftarrow> emit [2] s;
       s \<leftarrow> emit [1] s;
       w_and (w_and (bplist_write_u64 (of_nat (length offsets))) (bplist_write_u64 (of_nat top_idx)))
         (bplist_write_u64 (of_nat table_offset)) s
     }
   }"

text \<open>\<open>ADD_OFFSET()\<close> and the write of one object, for the objects in order.\<close>

fun bp_write_objects :: "nat \<Rightarrow> writer list \<Rightarrow> bw \<times> nat list \<Rightarrow> (bool \<times> bw \<times> nat list) mem" where
  "bp_write_objects cap [] (s, offsets) = Some (True, s, offsets)"
| "bp_write_objects cap (w # ws) (s, offsets) =
    (if length offsets \<ge> cap then Some (False, s, offsets)
     else do {
       let offsets = offsets @ [snd s];
       (ok, s) \<leftarrow> w s;
       if \<not> ok then Some (False, s, offsets) else bp_write_objects cap ws (s, offsets)
     })"

text \<open>Objects 0 to 19.\<close>

definition bp_info_identity :: "bytes \<Rightarrow> bytes \<Rightarrow> bytes \<Rightarrow> u64 \<Rightarrow> int \<Rightarrow> writer list" where
  "bp_info_identity device_id device_name public_key features protocol_version =
    [bplist_write_ascii_string (ascii ''deviceid''),
     bplist_write_ascii_string device_id,
     bplist_write_ascii_string (ascii ''features''),
     bplist_write_int features,
     bplist_write_ascii_string (ascii ''model''),
     bplist_write_ascii_string (ascii ''AudioAccessory5,1''),
     bplist_write_ascii_string (ascii ''protovers''),
     bplist_write_ascii_string (ascii ''1.1''),
     bplist_write_ascii_string (ascii ''srcvers''),
     bplist_write_ascii_string (ascii ''377.40.00''),
     bplist_write_ascii_string (ascii ''vv''),
     bplist_write_int (of_int protocol_version),
     bplist_write_ascii_string (ascii ''statusFlags''),
     bplist_write_int 4,
     bplist_write_ascii_string (ascii ''pk''),
     bplist_write_data public_key,
     bplist_write_ascii_string (ascii ''pi''),
     bplist_write_ascii_string (ascii ''00000000-0000-0000-0000-000000000000''),
     bplist_write_ascii_string (ascii ''name''),
     bplist_write_ascii_string device_name]"

text \<open>Objects 20 to 38.\<close>

definition bp_info_formats :: "writer list" where
  "bp_info_formats =
    [bplist_write_ascii_string (ascii ''audioFormats''),
     bplist_write_ascii_string (ascii ''type''),
     bplist_write_ascii_string (ascii ''audioInputFormats''),
     bplist_write_ascii_string (ascii ''audioOutputFormats''),
     bplist_write_int 96,
     bplist_write_int 0x01000000,
     bplist_write_dict [21, 22, 23] [24, 25, 25],
     bplist_write_array [26],
     bplist_write_ascii_string (ascii ''audioLatencies''),
     bplist_write_ascii_string (ascii ''audioType''),
     bplist_write_ascii_string (ascii ''inputLatencyMicros''),
     bplist_write_ascii_string (ascii ''outputLatencyMicros''),
     bplist_write_int 103,
     bplist_write_int 0x64,
     bplist_write_int 0,
     bplist_write_dict [21, 29, 30, 31] [24, 33, 34, 34],
     bplist_write_dict [21, 29, 30, 31] [32, 33, 34, 34],
     bplist_write_array [35, 36],
     bplist_write_dict [0, 2, 4, 6, 8, 10, 12, 14, 16, 18, 20, 28]
       [1, 3, 5, 7, 9, 11, 13, 15, 17, 19, 27, 37]]"

text \<open>The pointer arguments are not null.\<close>

definition bplist_build_info_response ::
  "bytes \<Rightarrow> bytes \<Rightarrow> bytes \<Rightarrow> bytes \<Rightarrow> u64 \<Rightarrow> int \<Rightarrow> bw mem" where
  "bplist_build_info_response out device_id device_name public_key features protocol_version =
    (if length public_key = 0 \<or> length out < 512 then Some (out, 0)
     else if \<not> bplist_has_room 0 8 (length out) then Some (out, 0)
     else do {
       s \<leftarrow> emit bplist_magic (out, 0);
       (ok, s, offsets) \<leftarrow> bp_write_objects 39
         (bp_info_identity device_id device_name public_key features protocol_version @
          bp_info_formats) (s, []);
       if \<not> ok then Some (fst s, 0)
       else if length offsets \<noteq> 39 then Some (fst s, 0)
       else do {
         (ok, s) \<leftarrow> bplist_finish offsets 38 s;
         Some (fst s, if ok then snd s else 0)
       }
     })"

subsection \<open>Writing a list of objects\<close>

lemma bp_write_objects_ok:
  assumes "list_all2 (\<lambda>w (e, v). bounded_writer w e v) ws evs"
    and "length offsets + length ws \<le> cap" "\<forall>ev\<in>set evs. snd ev"
    and "pos + length (concat (map fst evs)) \<le> length out"
  shows "bp_write_objects cap ws ((out, pos), offsets) = Some (True,
    (put_at out pos (concat (map fst evs)), pos + length (concat (map fst evs))),
    offsets @ offs_from pos (map fst evs))"
  using assms
proof (induction arbitrary: out pos offsets rule: list_all2_induct)
  case Nil
  then show ?case by simp
next
  case (Cons w ws ev evs)
  obtain e v where ev: "ev = (e, v)" by (cases ev)
  then have w: "bounded_writer w e v" using Cons.hyps(1) by simp
  show ?case
    using Cons.prems ev bounded_writer.write_fits [OF w, of pos out]
      Cons.IH [of "offsets @ [pos]" "pos + length e" "put_at out pos e"]
    by (simp add: put_at_put_at)
qed

lemma bp_write_objects_fail:
  assumes "list_all2 (\<lambda>w (e, v). bounded_writer w e v) ws evs"
    and "length offsets + length ws \<le> cap" "pos \<le> length out"
    and "\<not> ((\<forall>ev\<in>set evs. snd ev) \<and> pos + length (concat (map fst evs)) \<le> length out)"
  shows "\<exists>out' pos' offsets'. length out' = length out \<and>
    bp_write_objects cap ws ((out, pos), offsets) = Some (False, (out', pos'), offsets')"
  using assms
proof (induction arbitrary: out pos offsets rule: list_all2_induct)
  case Nil
  then show ?case by simp
next
  case (Cons w ws ev evs)
  obtain e v where ev: "ev = (e, v)" by (cases ev)
  then have w: "bounded_writer w e v" using Cons.hyps(1) by simp
  show ?case
  proof (cases "v \<and> pos + length e \<le> length out")
    case True
    then show ?thesis
      using Cons.prems ev bounded_writer.write_fits [OF w, of pos out]
        Cons.IH [of "offsets @ [pos]" "pos + length e" "put_at out pos e"]
      by auto
  next
    case False
    then show ?thesis
      using Cons.prems bounded_writer.write_full [OF w Cons.prems(2)] by auto
  qed
qed

lemma be_bytes_2:
  assumes "n < 65536"
  shows "be_bytes 2 (of_nat n) = [of_nat (n div 256), of_nat n]"
proof -
  have u: "unat (of_nat n :: u64) = n" using assms by (intro unat_of_nat_id) simp
  have d: "n div 256 < 256" using assms by linarith
  have "rev [0..<2] = [1, 0]" by (simp add: upt_rec)
  moreover have "(ucast (drop_bit 8 (of_nat n :: u64)) :: u8) = of_nat (n div 256)"
    by (rule word_unat_eq_iff [THEN iffD2])
      (simp only: unat_ucast_byte unat_drop_bit u, simp add: unsigned_of_nat take_bit_eq_mod)
  moreover have "(ucast (of_nat n :: u64) :: u8) = of_nat n"
    by (rule word_unat_eq_iff [THEN iffD2])
      (simp only: unat_ucast_byte u, simp add: unsigned_of_nat take_bit_eq_mod)
  ultimately show ?thesis by (simp add: be_bytes_def del: drop_bit_eq_div)
qed

lemma bp_write_offsets_bounded:
  assumes "\<forall>n\<in>set ns. n \<le> 65535"
  shows "bounded_writer (bp_write_offsets ns) (concat (map (\<lambda>n. be_bytes 2 (of_nat n)) ns)) True"
  using assms
proof (induction ns)
  case Nil
  show ?case by unfold_locales simp_all
next
  case (Cons n ns)
  then have n: "be_bytes 2 (of_nat n) = [of_nat (n div 256), of_nat n]" "n \<le> 65535"
    by (simp_all add: be_bytes_2)
  have rest: "bounded_writer (bp_write_offsets ns) (concat (map (\<lambda>n. be_bytes 2 (of_nat n)) ns)) True"
    using Cons by simp
  have "bounded_writer (\<lambda>s. if \<not> bplist_has_room (snd s) 2 (length (fst s)) then Some (False, s)
      else do { s \<leftarrow> emit [of_nat (n div 256)] s; s \<leftarrow> emit [of_nat n] s; Some (True, s) })
      (be_bytes 2 (of_nat n)) True"
    by unfold_locales (auto simp: n has_room_iff emit_room put_at_put_at)
  from bounded_writer_and [OF this rest]
  have "bounded_writer (w_and (\<lambda>s. if \<not> bplist_has_room (snd s) 2 (length (fst s)) then Some (False, s)
      else do { s \<leftarrow> emit [of_nat (n div 256)] s; s \<leftarrow> emit [of_nat n] s; Some (True, s) })
      (bp_write_offsets ns)) (concat (map (\<lambda>n. be_bytes 2 (of_nat n)) (n # ns))) True"
    by simp
  moreover have "bp_write_offsets (n # ns) =
    w_and (\<lambda>s. if \<not> bplist_has_room (snd s) 2 (length (fst s)) then Some (False, s)
      else do { s \<leftarrow> emit [of_nat (n div 256)] s; s \<leftarrow> emit [of_nat n] s; Some (True, s) })
      (bp_write_offsets ns)"
    using n(2) by (intro ext) (auto simp: w_and_def)
  ultimately show ?case by simp
qed

lemma bplist_finish_ok:
  assumes "\<forall>n\<in>set offsets. n \<le> 65535" "pos + 2 * length offsets + 32 \<le> length out"
  shows "bplist_finish offsets top_idx (out, pos) = Some (True,
    put_at out pos (concat (map (\<lambda>n. be_bytes 2 (of_nat n)) offsets) @
      bp_trailer_bytes 2 (length offsets) top_idx pos), pos + 2 * length offsets + 32)"
proof -
  let ?tab = "concat (map (\<lambda>n. be_bytes 2 (of_nat n)) offsets)"
  have len: "length ?tab = 2 * length offsets" by (subst length_concat_same [where m = 2]) simp_all
  have tab: "bp_write_offsets offsets (out, pos) = Some (True, put_at out pos ?tab, pos + 2 * length offsets)"
    using bounded_writer.write_fits [OF bp_write_offsets_bounded [OF assms(1)], of pos out] assms(2) len
    by simp
  show ?thesis
    using assms(2) len
    by (simp add: bplist_finish_def tab has_room_iff emit_room put_at_put_at w_and_def
        w_u64.write_fits bp_trailer_bytes_def)
qed

lemma bplist_finish_fail:
  assumes "\<forall>n\<in>set offsets. n \<le> 65535" "pos \<le> length out" "\<not> pos + 2 * length offsets + 32 \<le> length out"
  shows "\<exists>out' pos'. bplist_finish offsets top_idx (out, pos) = Some (False, out', pos') \<and>
    length out' = length out"
proof -
  let ?tab = "concat (map (\<lambda>n. be_bytes 2 (of_nat n)) offsets)"
  have len: "length ?tab = 2 * length offsets" by (subst length_concat_same [where m = 2]) simp_all
  note w = bp_write_offsets_bounded [OF assms(1)]
  show ?thesis
  proof (cases "pos + 2 * length offsets \<le> length out")
    case True
    then show ?thesis
      using bounded_writer.write_fits [OF w, of pos out] assms(3) len
      by (simp add: bplist_finish_def has_room_iff)
  next
    case False
    then show ?thesis
      using bounded_writer.write_full [OF w assms(2)] len by (auto simp: bplist_finish_def)
  qed
qed

subsection \<open>The document of the response\<close>

abbreviation enc_str :: "bytes \<Rightarrow> bytes \<times> bool" where
  "enc_str v \<equiv> (enc_length 0x50 (length v) @ v, length v \<le> 255)"

abbreviation enc_num :: "u64 \<Rightarrow> bytes \<times> bool" where
  "enc_num v \<equiv> (enc_int v, True)"

abbreviation enc_arr :: "bytes \<Rightarrow> bytes \<times> bool" where
  "enc_arr rs \<equiv> (enc_length 0xA0 (length rs) @ rs, length rs \<le> 255)"

abbreviation enc_dict :: "bytes \<Rightarrow> bytes \<Rightarrow> bytes \<times> bool" where
  "enc_dict ks vs \<equiv> ((enc_length 0xD0 (length ks) @ ks) @ vs, (length ks \<le> 255 \<and> True) \<and> True)"

definition info_encs :: "bytes \<Rightarrow> bytes \<Rightarrow> bytes \<Rightarrow> u64 \<Rightarrow> int \<Rightarrow> (bytes \<times> bool) list" where
  "info_encs device_id device_name public_key features protocol_version =
    [enc_str (ascii ''deviceid''), enc_str device_id, enc_str (ascii ''features''), enc_num features,
     enc_str (ascii ''model''), enc_str (ascii ''AudioAccessory5,1''),
     enc_str (ascii ''protovers''), enc_str (ascii ''1.1''),
     enc_str (ascii ''srcvers''), enc_str (ascii ''377.40.00''),
     enc_str (ascii ''vv''), enc_num (of_int protocol_version),
     enc_str (ascii ''statusFlags''), enc_num 4,
     enc_str (ascii ''pk''), (enc_length 0x40 (length public_key) @ public_key, length public_key \<le> 255),
     enc_str (ascii ''pi''), enc_str (ascii ''00000000-0000-0000-0000-000000000000''),
     enc_str (ascii ''name''), enc_str device_name,
     enc_str (ascii ''audioFormats''), enc_str (ascii ''type''),
     enc_str (ascii ''audioInputFormats''), enc_str (ascii ''audioOutputFormats''),
     enc_num 96, enc_num 0x01000000,
     enc_dict [21, 22, 23] [24, 25, 25], enc_arr [26],
     enc_str (ascii ''audioLatencies''), enc_str (ascii ''audioType''),
     enc_str (ascii ''inputLatencyMicros''), enc_str (ascii ''outputLatencyMicros''),
     enc_num 103, enc_num 0x64, enc_num 0,
     enc_dict [21, 29, 30, 31] [24, 33, 34, 34], enc_dict [21, 29, 30, 31] [32, 33, 34, 34],
     enc_arr [35, 36],
     enc_dict [0, 2, 4, 6, 8, 10, 12, 14, 16, 18, 20, 28] [1, 3, 5, 7, 9, 11, 13, 15, 17, 19, 27, 37]]"

definition info_objs :: "bytes \<Rightarrow> bytes \<Rightarrow> bytes \<Rightarrow> u64 \<Rightarrow> int \<Rightarrow> bytes list" where
  "info_objs device_id device_name public_key features protocol_version =
    map fst (info_encs device_id device_name public_key features protocol_version)"

definition info_plist :: "bytes \<Rightarrow> bytes \<Rightarrow> bytes \<Rightarrow> u64 \<Rightarrow> int \<Rightarrow> bytes" where
  "info_plist device_id device_name public_key features protocol_version =
    bp_doc 2 (info_objs device_id device_name public_key features protocol_version) 38"

definition info_args_ok :: "bytes \<Rightarrow> bytes \<Rightarrow> bytes \<Rightarrow> bool" where
  "info_args_ok device_id device_name public_key \<longleftrightarrow>
    length device_id \<le> 255 \<and> length device_name \<le> 255 \<and> 0 < length public_key \<and> length public_key \<le> 255"

lemmas writer_contracts = w_ascii.bounded_writer_axioms w_int.bounded_writer_axioms
  w_data.bounded_writer_axioms w_array.bounded_writer_axioms w_dict.bounded_writer_axioms

lemma info_writers:
  "list_all2 (\<lambda>w (e, v). bounded_writer w e v)
    (bp_info_identity device_id device_name public_key features protocol_version @ bp_info_formats)
    (info_encs device_id device_name public_key features protocol_version)"
  unfolding bp_info_identity_def bp_info_formats_def info_encs_def append_Cons append_Nil
  by (intro list_all2_Cons [THEN iffD2] conjI list_all2_Nil [THEN iffD2] TrueI;
      simp only: prod.case; rule writer_contracts)

lemma length_enc_length: "length (enc_length b n) \<le> 3" "0 < length (enc_length b n)"
  by (simp_all add: enc_length_def)

lemma length_enc_int: "length (enc_int v) \<le> 9"
  by (simp add: enc_int_def bp_int_width_def)

lemma length_info_objs: "length (info_objs a b c d e) = 39"
  by (simp add: info_objs_def info_encs_def)

lemma info_valid:
  "(\<forall>ev\<in>set (info_encs device_id device_name public_key features protocol_version). snd ev) \<longleftrightarrow>
    length device_id \<le> 255 \<and> length device_name \<le> 255 \<and> length public_key \<le> 255"
  by (auto simp: info_encs_def)

lemma length_concat_le:
  "(\<And>x. x \<in> set xs \<Longrightarrow> length x \<le> m) \<Longrightarrow> length (concat xs) \<le> length xs * m"
  by (induction xs) (auto simp: add_mono)

lemma info_size:
  assumes "length device_id \<le> 255" "length device_name \<le> 255" "length public_key \<le> 255"
  shows "length (concat (info_objs device_id device_name public_key features protocol_version)) \<le> 39 * 258"
proof -
  have l: "length (enc_length b n) + m \<le> 258" if "m \<le> 255" for b n m
    using length_enc_length(1) [of b n] that by linarith
  have k: "length (enc_length b n) \<le> k" if "3 \<le> k" for b n k
    using length_enc_length(1) [of b n] that by linarith
  have i: "length (enc_int v) \<le> 258" for v using length_enc_int [of v] by linarith
  have "\<forall>x\<in>set (info_objs device_id device_name public_key features protocol_version). length x \<le> 258"
    using assms by (simp add: info_objs_def info_encs_def l i k)
  then show ?thesis
    using length_concat_le [of "info_objs device_id device_name public_key features protocol_version" 258]
    by (simp add: length_info_objs)
qed

lemma info_doc_ok:
  assumes "info_args_ok device_id device_name public_key"
  shows "doc_ok 2 (info_objs device_id device_name public_key features protocol_version) 38"
  using assms info_size [of device_id device_name public_key features protocol_version]
  by (simp add: doc_ok_def info_args_ok_def length_info_objs)

text \<open>Exactly when the builder succeeds, and what it writes.\<close>

lemma bplist_build_info_response_eq:
  fixes device_id device_name public_key :: bytes and features :: u64 and protocol_version :: int
  defines "p \<equiv> info_plist device_id device_name public_key features protocol_version"
  shows "if info_args_ok device_id device_name public_key \<and> 512 \<le> length out \<and> length p \<le> length out
    then bplist_build_info_response out device_id device_name public_key features protocol_version =
      Some (put_at out 0 p, length p)
    else \<exists>out'. length out' = length out \<and>
      bplist_build_info_response out device_id device_name public_key features protocol_version =
      Some (out', 0)"
proof -
  let ?ws = "bp_info_identity device_id device_name public_key features protocol_version @ bp_info_formats"
  let ?evs = "info_encs device_id device_name public_key features protocol_version"
  let ?objs = "info_objs device_id device_name public_key features protocol_version"
  let ?m = "length (concat ?objs)"
  note ws = info_writers [of device_id device_name public_key features protocol_version]
  have objs: "map fst ?evs = ?objs" by (simp add: info_objs_def)
  have n: "length [] + length ?ws \<le> 39" by (simp add: bp_info_identity_def bp_info_formats_def)
  have p: "length p = 8 + ?m + 39 * 2 + 32"
    by (simp add: p_def info_plist_def length_bp_doc length_info_objs)
  consider (early) "length public_key = 0 \<or> length out < 512"
    | (objects) "0 < length public_key" "512 \<le> length out"
        "\<not> ((\<forall>ev\<in>set ?evs. snd ev) \<and> 8 + length (concat (map fst ?evs)) \<le> length out)"
    | (rest) "0 < length public_key" "512 \<le> length out"
        "\<forall>ev\<in>set ?evs. snd ev" "8 + length (concat (map fst ?evs)) \<le> length out"
    by linarith
  then show ?thesis
  proof cases
    case early
    then show ?thesis by (auto simp: bplist_build_info_response_def info_args_ok_def)
  next
    case objects
    have e: "emit bplist_magic (out, 0) = Some (put_at out 0 bplist_magic, 8)"
      using objects(2) by (subst emit_room) simp_all
    obtain out' pos' offs' where "length out' = length out"
      "bp_write_objects 39 ?ws ((put_at out 0 bplist_magic, 8), []) = Some (False, (out', pos'), offs')"
      using bp_write_objects_fail [OF ws n, of 8 "put_at out 0 bplist_magic"] objects by auto
    moreover have "\<not> (info_args_ok device_id device_name public_key \<and> length p \<le> length out)"
      using objects(3) p by (auto simp: info_valid objs info_args_ok_def)
    ultimately show ?thesis
      using objects(1,2) e by (auto simp: bplist_build_info_response_def has_room_iff)
  next
    case rest
    have e: "emit bplist_magic (out, 0) = Some (put_at out 0 bplist_magic, 8)"
      using rest(2) by (subst emit_room) simp_all
    have args: "info_args_ok device_id device_name public_key"
      using rest(1,3) by (simp add: info_valid info_args_ok_def)
    have w: "bp_write_objects 39 ?ws ((put_at out 0 bplist_magic, 8), []) =
        Some (True, (put_at out 0 (bplist_magic @ concat ?objs), 8 + ?m), offs_from 8 ?objs)"
      using bp_write_objects_ok [OF ws n rest(3), of 8 "put_at out 0 bplist_magic"] rest(2,4)
      by (simp add: objs put_at_put_at)
    have small: "\<forall>n\<in>set (offs_from 8 ?objs). n \<le> 65535"
      using info_doc_ok [OF args, of features protocol_version]
      by (auto simp: doc_ok_def dest: offs_from_le)
    have len: "length (offs_from 8 ?objs) = 39" by (simp add: length_info_objs)
    have eq: "bplist_build_info_response out device_id device_name public_key features protocol_version =
      Option.bind (bplist_finish (offs_from 8 ?objs) 38 (put_at out 0 (bplist_magic @ concat ?objs), 8 + ?m))
        (\<lambda>(ok, s). Some (fst s, if ok then snd s else 0))"
      using rest(1,2) e w len by (simp add: bplist_build_info_response_def has_room_iff)
    show ?thesis
    proof (cases "length p \<le> length out")
      case True
      then have "8 + ?m + 2 * length (offs_from 8 ?objs) + 32 \<le> length out" using p len by simp
      then show ?thesis
        using True args rest(2) bplist_finish_ok [OF small, of "8 + ?m" "put_at out 0 (bplist_magic @ concat ?objs)" 38]
          p len
        by (simp add: eq put_at_put_at p_def info_plist_def bp_doc_def bp_table_def length_info_objs)
    next
      case False
      then have "\<not> 8 + ?m + 2 * length (offs_from 8 ?objs) + 32 \<le> length out" using p len by simp
      then show ?thesis
        using False rest(4) objs
          bplist_finish_fail [OF small, of "8 + ?m" "put_at out 0 (bplist_magic @ concat ?objs)" 38]
        by (auto simp: eq)
    qed
  qed
qed

text \<open>
  The info builder never leaves its buffer, whatever the capacity and the strings are, and it
  returns a length exactly when the device id, the name and the public key are at most 255 bytes
  long (the key not empty) and the capacity is at least 512 and the size of the plist.
\<close>

theorem info_response_capacity:
  "\<exists>out' n. bplist_build_info_response out device_id device_name public_key features protocol_version =
      Some (out', n) \<and> length out' = length out \<and> n \<le> length out \<and>
    (0 < n \<longleftrightarrow> info_args_ok device_id device_name public_key \<and> 512 \<le> length out \<and>
      length (info_plist device_id device_name public_key features protocol_version) \<le> length out)"
  using bplist_build_info_response_eq [of device_id device_name public_key out features protocol_version]
  by (auto split: if_splits simp: info_plist_def length_bp_doc)

subsection \<open>What a controller reads from it\<close>

lemma bp_int_width_cases:
  obtains "bp_int_width v = (0x10, 1)" "unat v < 256 ^ 1" | "bp_int_width v = (0x11, 2)" "unat v < 256 ^ 2"
  | "bp_int_width v = (0x12, 4)" "unat v < 256 ^ 4" | "bp_int_width v = (0x13, 8)" "unat v < 256 ^ 8"
proof -
  have w: "v \<le> 0xFF \<longleftrightarrow> unat v < 256 ^ 1" "v \<le> 0xFFFF \<longleftrightarrow> unat v < 256 ^ 2"
    "v \<le> 0xFFFFFFFF \<longleftrightarrow> unat v < 256 ^ 4" "unat v < 256 ^ 8"
    using unat_less_exp [of v] by (auto simp add: word_le_nat_alt)
  show thesis
    using that w by (cases "v \<le> 0xFF"; cases "v \<le> 0xFFFF"; cases "v \<le> 0xFFFFFFFF")
      (simp_all only: bp_int_width_def if_True if_False simp_thms)
qed

lemma read_int_enc:
  assumes "drop off p = enc_int v @ rest"
  shows "bplist_read_int p off = Some (Some (c_int64 (unat v)))"
proof -
  obtain m w where mw: "bp_int_width v = (m, w)" "obj_type m = BPLIST_INT" "2 ^ obj_info m = w"
    "unat v < 256 ^ w" "w \<le> 8"
    by (rule bp_int_width_cases [of v]) (auto simp: obj_type_def obj_info_def bplist_types)
  have d: "drop off p = [m] @ be_bytes w v @ rest" using assms mw(1) by (simp add: enc_int_def)
  have d1: "drop (Suc off) p = be_bytes w v @ rest" by (rule drop_drop_prefix [OF d]) simp
  have room: "off + 1 + w \<le> length p"
    using drop_room [of off p "m # be_bytes w v" rest] d by simp
  have "be_val (be_bytes w v) = unat v" using mw(4) by (simp add: be_val_be_bytes)
  then show ?thesis
    using d rd_prefix [of off p m] room mw read_be_int_prefix [OF d1]
    by (simp add: bplist_read_int_def Let_def)
qed

definition info_keys :: "bytes list" where
  "info_keys = map ascii [''deviceid'', ''features'', ''model'', ''protovers'', ''srcvers'', ''vv'',
     ''statusFlags'', ''pk'', ''pi'', ''name'', ''audioFormats'', ''audioLatencies'']"

lemma info_lookup:
  fixes device_id device_name public_key :: bytes and features :: u64 and protocol_version :: int
  assumes "info_args_ok device_id device_name public_key"
  defines "p \<equiv> info_plist device_id device_name public_key features protocol_version"
    and "objs \<equiv> info_objs device_id device_name public_key features protocol_version"
    and "entries \<equiv> zip (map Some info_keys) (map (\<lambda>v. doc_off
      (info_objs device_id device_name public_key features protocol_version) (unat v))
      [1, 3, 5, 7, 9, 11, 13, 15, 17, 19, 27, 37 :: u8])"
  shows "bp_find_top p key = Some (map_of entries (Some key))"
    and "bplist_find_data p key out = (case map_of entries (Some key) of
      None \<Rightarrow> Some None | Some vo \<Rightarrow> bplist_read_data p vo out)"
proof -
  let ?ks = "[0, 2, 4, 6, 8, 10, 12, 14, 16, 18, 20, 28] :: bytes"
  let ?vs = "[1, 3, 5, 7, 9, 11, 13, 15, 17, 19, 27, 37] :: bytes"
  have len: "length objs = 39" by (simp add: objs_def length_info_objs)
  have dict: "objs ! 38 = dict_obj ?ks ?vs" "length ?vs = length ?ks" "length ?ks \<le> 255"
    by (simp_all add: objs_def info_objs_def info_encs_def dict_obj_def)
  have keys: "list_all2 (\<lambda>k s. key_obj objs (unat k) s) ?ks info_keys"
    by (simp add: info_keys_def key_obj_def len) (simp add: objs_def info_objs_def info_encs_def ascii_def)
  have vals: "\<forall>v\<in>set ?vs. unat v < length objs" by (simp add: len)
  note l = doc_lookup [OF info_doc_ok [OF assms(1), of features protocol_version, folded objs_def] dict keys vals]
  show "bp_find_top p key = Some (map_of entries (Some key))"
    using l(1) unfolding p_def info_plist_def entries_def objs_def .
  show "bplist_find_data p key out = (case map_of entries (Some key) of
      None \<Rightarrow> Some None | Some vo \<Rightarrow> bplist_read_data p vo out)"
    using l(2) unfolding p_def info_plist_def entries_def objs_def .
qed

lemma info_object:
  assumes "k < 39"
  shows "\<exists>rest. drop (doc_off (info_objs a b c d e) k) (info_plist a b c d e) = info_objs a b c d e ! k @ rest"
  unfolding info_plist_def by (rule doc_object) (simp add: length_info_objs assms)

text \<open>
  C3. Round trip of the info response: when the builder succeeds, the parser finds in it the
  device id, the device name, the features word and the public key the builder was given.
\<close>

theorem info_response_roundtrip:
  assumes "bplist_build_info_response out device_id device_name public_key features protocol_version =
      Some (out', n)"
    and "0 < n" "256 \<le> length buf" "length buf < 2 ^ 31"
  shows "bplist_find_string (take n out') (ascii ''deviceid'') buf =
      Some (True, put_at buf 0 (device_id @ [0])) \<and>
    bplist_find_string (take n out') (ascii ''name'') buf = Some (True, put_at buf 0 (device_name @ [0])) \<and>
    bplist_find_int (take n out') (ascii ''features'') = Some (Some (c_int64 (unat features))) \<and>
    bplist_find_data (take n out') (ascii ''pk'') buf =
      Some (Some (put_at buf 0 public_key, length public_key))"
proof -
  let ?p = "info_plist device_id device_name public_key features protocol_version"
  let ?objs = "info_objs device_id device_name public_key features protocol_version"
  have ok: "info_args_ok device_id device_name public_key" and out': "out' = put_at out 0 ?p" "n = length ?p"
    using assms(1,2) bplist_build_info_response_eq
      [of device_id device_name public_key out features protocol_version]
    by (auto split: if_splits)
  have p: "take n out' = ?p" using out' by simp
  have small: "length ?p < 2 ^ 31"
    unfolding info_plist_def by (rule bp_doc_small [OF info_doc_ok [OF ok]])
  note l = info_lookup [OF ok, of features protocol_version]
  have o: "?objs ! 1 = enc_length 0x50 (length device_id) @ device_id" "?objs ! 3 = enc_int features"
    "?objs ! 15 = enc_length 0x40 (length public_key) @ public_key"
    "?objs ! 19 = enc_length 0x50 (length device_name) @ device_name"
    by (simp_all add: info_objs_def info_encs_def)
  have lens: "length device_id \<le> 255" "length device_name \<le> 255" "length public_key \<le> 255"
    using ok by (simp_all add: info_args_ok_def)
  have 1: "bplist_read_string ?p (doc_off ?objs 1) buf = Some (True, put_at buf 0 (device_id @ [0]))"
    using info_object [of 1 device_id device_name public_key features protocol_version] lens small assms(3) o(1)
    by (auto intro!: read_string_enc)
  have 2: "bplist_read_string ?p (doc_off ?objs 19) buf = Some (True, put_at buf 0 (device_name @ [0]))"
    using info_object [of 19 device_id device_name public_key features protocol_version] lens small assms(3) o(4)
    by (auto intro!: read_string_enc)
  have 3: "bplist_read_int ?p (doc_off ?objs 3) = Some (Some (c_int64 (unat features)))"
    using info_object [of 3 device_id device_name public_key features protocol_version] o(2)
    by (simp, elim exE) (rule read_int_enc)
  have 4: "bplist_read_data ?p (doc_off ?objs 15) buf = Some (Some (put_at buf 0 public_key, length public_key))"
    using info_object [of 15 device_id device_name public_key features protocol_version] lens small assms(3) o(3)
    by (auto intro!: read_data_enc)
  show ?thesis unfolding p
    by (simp add: bplist_find_string_def bplist_find_int_def l info_keys_def ascii_def 1 [simplified] 2 3 4)
qed

lemma info_example_built:
  "\<exists>out' n. bplist_build_info_response (replicate 20000 0) (ascii ''A'') (ascii ''B'') [7] 5 1 =
    Some (out', n) \<and> 0 < n"
proof -
  have "length (info_plist (ascii ''A'') (ascii ''B'') [7] 5 1) \<le> 20000"
    using info_size [of "ascii ''A''" "ascii ''B''" "[7]" 5 1]
    by (simp add: info_plist_def length_bp_doc length_info_objs)
  moreover have "0 < length (info_plist (ascii ''A'') (ascii ''B'') [7] 5 1)"
    by (simp add: info_plist_def length_bp_doc)
  ultimately show ?thesis
    using bplist_build_info_response_eq [of "ascii ''A''" "ascii ''B''" "[7]" "replicate 20000 0" 5 1]
    by (simp add: info_args_ok_def)
qed

lemma info_response_roundtrip_witness:
  "\<exists>out' n. bplist_build_info_response (replicate 20000 0) (ascii ''A'') (ascii ''B'') [7] 5 1 =
      Some (out', n) \<and>
    bplist_find_int (take n out') (ascii ''features'') = Some (Some 5) \<and>
    bplist_find_data (take n out') (ascii ''pk'') (replicate 256 0) =
      Some (Some (put_at (replicate 256 0) 0 [7], 1))"
proof -
  obtain out' n where b: "bplist_build_info_response (replicate 20000 0) (ascii ''A'') (ascii ''B'') [7] 5 1 =
    Some (out', n)" "0 < n"
    using info_example_built by blast
  from info_response_roundtrip [OF b, of "replicate 256 0"] b show ?thesis by auto
qed

end
