(* ===== verification/Tlv8.thy ===== *)
theory Tlv8
  imports Writer
begin

section \<open>TLV8 (main/hap/tlv8.c)\<close>

text \<open>
  The type-length-value format of the pairing messages. An encoder (\<open>tlv8_encoder_t\<close>) is the
  pair of its buffer and its size; its capacity is the length of the buffer. A value of more
  than 255 bytes is split over several items of the same type, which \<open>tlv8_decode_concat\<close> joins
  again. \<open>tlv8_encode\<close> meets the contract \<open>bounded_writer\<close>; the decoders are shown to work on
  the list of items a byte string encodes.
\<close>

subsection \<open>Encoding\<close>

function tlv8_encode_loop :: "u8 \<Rightarrow> bytes \<Rightarrow> nat \<Rightarrow> writer" where
  "tlv8_encode_loop type value offset s =
    (let len = length value in
     if offset < len \<or> (offset = 0 \<and> len = 0) then
       let chunk_len = len - offset; chunk_len = (if chunk_len > 255 then 255 else chunk_len) in
       if snd s + 2 + chunk_len > length (fst s) then Some (False, s)
       else do {
         s \<leftarrow> emit [type] s;
         s \<leftarrow> emit [of_nat chunk_len] s;
         s \<leftarrow> (if chunk_len > 0 then do { bs \<leftarrow> rd_block value offset chunk_len; emit bs s } else Some s);
         if len = 0 then Some (True, s) else tlv8_encode_loop type value (offset + chunk_len) s
       }
     else Some (True, s))"
  by auto

termination
  by (relation "measure (\<lambda>(type, value, offset, s). length value - offset)") auto

declare tlv8_encode_loop.simps [simp del]

definition tlv8_encoder_init :: "bytes \<Rightarrow> bw" where
  "tlv8_encoder_init buffer = (buffer, 0)"

definition tlv8_encode :: "u8 \<Rightarrow> bytes \<Rightarrow> writer" where
  "tlv8_encode type value = tlv8_encode_loop type value 0"

definition tlv8_encode_byte :: "u8 \<Rightarrow> u8 \<Rightarrow> writer" where
  "tlv8_encode_byte type value = tlv8_encode type [value]"

definition tlv8_encoder_size :: "bw \<Rightarrow> nat" where
  "tlv8_encoder_size s = snd s"

subsection \<open>Decoding\<close>

text \<open>The result is the position of the value and its length; no result is the null pointer.\<close>

function tlv8_find_loop :: "bytes \<Rightarrow> u8 \<Rightarrow> nat \<Rightarrow> (nat \<times> nat) option mem" where
  "tlv8_find_loop data type offset =
    (if offset + 2 \<le> length data then do {
       t \<leftarrow> rd data offset;
       l \<leftarrow> rd data (offset + 1);
       if offset + 2 + unat l > length data then Some None
       else if t = type then Some (Some (offset + 2, unat l))
       else tlv8_find_loop data type (offset + (2 + unat l))
     }
     else Some None)"
  by auto

termination
  by (relation "measure (\<lambda>(data, type, offset). length data - offset)") auto

declare tlv8_find_loop.simps [simp del]

definition tlv8_find :: "bytes \<Rightarrow> u8 \<Rightarrow> (nat \<times> nat) option mem" where
  "tlv8_find data type = tlv8_find_loop data type 0"

text \<open>
  The return value, the caller's buffer after the call, and the value stored in \<open>out_len\<close>, none
  when the function returns before storing it.
\<close>

function tlv8_decode_loop ::
  "bytes \<Rightarrow> u8 \<Rightarrow> nat \<Rightarrow> bytes \<Rightarrow> nat \<Rightarrow> bool \<Rightarrow> bool \<Rightarrow> (bool \<times> bytes \<times> nat option) mem" where
  "tlv8_decode_loop data type offset out out_offset found in_sequence =
    (if offset + 2 \<le> length data then do {
       t \<leftarrow> rd data offset;
       l \<leftarrow> rd data (offset + 1);
       if offset + 2 + unat l > length data then Some (found, out, Some out_offset)
       else if t = type then
         if out_offset + unat l > length out then Some (False, out, None)
         else do {
           bs \<leftarrow> rd_block data (offset + 2) (unat l);
           out \<leftarrow> wr out out_offset bs;
           tlv8_decode_loop data type (offset + (2 + unat l)) out (out_offset + unat l) True True
         }
       else if in_sequence then Some (found, out, Some out_offset)
       else tlv8_decode_loop data type (offset + (2 + unat l)) out out_offset found in_sequence
     }
     else Some (found, out, Some out_offset))"
  by auto

termination
  by (relation "measure (\<lambda>(data, type, offset, out, out_offset, found, in_sequence).
    length data - offset)") auto

declare tlv8_decode_loop.simps [simp del]

definition tlv8_decode_concat :: "bytes \<Rightarrow> u8 \<Rightarrow> bytes \<Rightarrow> (bool \<times> bytes \<times> nat option) mem" where
  "tlv8_decode_concat data type out = tlv8_decode_loop data type 0 out 0 False False"

subsection \<open>The items of a byte string\<close>

fun tlv_items :: "bytes \<Rightarrow> (u8 \<times> bytes) list" where
  "tlv_items (t # l # rest) =
    (if unat l \<le> length rest then (t, take (unat l) rest) # tlv_items (drop (unat l) rest) else [])"
| "tlv_items _ = []"

fun tlv_chunks :: "bytes \<Rightarrow> bytes list" where
  "tlv_chunks v = (if length v \<le> 255 then [v] else take 255 v # tlv_chunks (drop 255 v))"

declare tlv_chunks.simps [simp del]

definition tlv_item :: "u8 \<Rightarrow> bytes \<Rightarrow> bytes" where
  "tlv_item t c = [t, of_nat (length c)] @ c"

definition tlv_enc :: "u8 \<Rightarrow> bytes \<Rightarrow> bytes" where
  "tlv_enc t v = concat (map (tlv_item t) (tlv_chunks v))"

lemma concat_tlv_chunks [simp]: "concat (tlv_chunks v) = v"
  by (induction v rule: tlv_chunks.induct) (subst tlv_chunks.simps, simp)

lemma tlv_chunks_le: "c \<in> set (tlv_chunks v) \<Longrightarrow> length c \<le> 255"
  by (induction v rule: tlv_chunks.induct) (subst (asm) (2) tlv_chunks.simps, auto split: if_splits)

lemma tlv_chunks_neq [simp]: "tlv_chunks v \<noteq> []"
  by (subst tlv_chunks.simps) simp

lemma tlv_items_item:
  "length c \<le> 255 \<Longrightarrow> tlv_items (tlv_item t c @ rest) = (t, c) # tlv_items rest"
  by (simp add: tlv_item_def unsigned_of_nat take_bit_nat_eq_self)

lemma tlv_items_chunks:
  "(\<And>c. c \<in> set cs \<Longrightarrow> length c \<le> 255) \<Longrightarrow>
    tlv_items (concat (map (tlv_item t) cs) @ rest) = map (Pair t) cs @ tlv_items rest"
  by (induction cs) (simp_all add: tlv_items_item)

lemma tlv_items_enc: "tlv_items (tlv_enc t v @ rest) = map (Pair t) (tlv_chunks v) @ tlv_items rest"
  unfolding tlv_enc_def by (rule tlv_items_chunks) (rule tlv_chunks_le)

subsection \<open>The encoder is a bounded writer\<close>

lemma tlv_chunk_writer:
  assumes "length c \<le> 255"
  shows "bounded_writer (\<lambda>s. if snd s + 2 + length c > length (fst s) then Some (False, s)
     else do {
       s \<leftarrow> emit [t] s;
       s \<leftarrow> emit [of_nat (length c)] s;
       s \<leftarrow> (if length c > 0 then emit c s else Some s);
       Some (True, s)
     }) (tlv_item t c) True"
  by unfold_locales (auto simp: tlv_item_def emit_room put_at_put_at)

lemma tlv8_encode_loop_bounded:
  assumes "offset < length v \<or> offset = 0 \<and> length v = 0"
  shows "bounded_writer (tlv8_encode_loop t v offset) (tlv_enc t (drop offset v)) True"
  using assms
proof (induction "length v - offset" arbitrary: offset rule: less_induct)
  case less
  let ?rest = "drop offset v"
  define c where "c = take 255 ?rest"
  let ?chunk = "\<lambda>s. if snd s + 2 + length c > length (fst s) then Some (False, s)
     else do {
       s \<leftarrow> emit [t] s;
       s \<leftarrow> emit [of_nat (length c)] s;
       s \<leftarrow> (if length c > 0 then emit c s else Some s);
       Some (True, s)
     }"
  have chunk: "bounded_writer ?chunk (tlv_item t c) True"
    by (rule tlv_chunk_writer) (simp add: c_def)
  have clen: "length c = (if length v - offset > 255 then 255 else length v - offset)"
    by (simp add: c_def)
  have blk: "rd_block v offset (length c) = Some c"
    using less.prems by (auto simp: c_def min_def)
  have step: "tlv8_encode_loop t v offset =
    w_and ?chunk (\<lambda>s. if length v = 0 then Some (True, s) else tlv8_encode_loop t v (offset + length c) s)"
  proof (rule ext)
    fix s
    have guard: "(offset < length v \<or> offset = 0 \<and> length v = 0) = True" using less.prems by simp
    show "tlv8_encode_loop t v offset s = w_and ?chunk (\<lambda>s. if length v = 0 then Some (True, s)
        else tlv8_encode_loop t v (offset + length c) s) s"
      by (subst tlv8_encode_loop.simps)
        (simp only: Let_def guard if_True clen [symmetric] blk bind.bind_lunit,
          auto simp: w_and_def intro!: bind_option_cong)
  qed
  show ?case
  proof (cases "length v - offset \<le> 255")
    case True
    then have all: "c = ?rest" "tlv_enc t ?rest = tlv_item t c"
      by (simp_all add: c_def tlv_enc_def tlv_chunks.simps [of ?rest])
    have "tlv8_encode_loop t v (offset + length c) s = Some (True, s)" if "length v \<noteq> 0" for s
      using that True less.prems all(1) by (subst tlv8_encode_loop.simps) (simp add: Let_def)
    then have "tlv8_encode_loop t v offset = w_and ?chunk (\<lambda>s. Some (True, s))"
      unfolding step by (intro arg_cong2 [where f = w_and] ext) simp_all
    moreover have "w_and ?chunk (\<lambda>s. Some (True, s)) = ?chunk"
      by (intro ext) (auto simp: w_and_def intro!: bind_option_cong)
    ultimately show ?thesis using chunk all(2) by simp
  next
    case False
    then have more: "offset + 255 < length v" "length c = 255" by (simp_all add: c_def)
    have rest: "bounded_writer (tlv8_encode_loop t v (offset + 255)) (tlv_enc t (drop (offset + 255) v)) True"
      using more(1) by (intro less.hyps) auto
    have "tlv_enc t ?rest = tlv_item t c @ tlv_enc t (drop (offset + 255) v)"
      using False by (simp add: tlv_enc_def tlv_chunks.simps [of ?rest] c_def add.commute)
    moreover have "tlv8_encode_loop t v offset = w_and ?chunk (tlv8_encode_loop t v (offset + 255))"
      unfolding step using more by (intro arg_cong2 [where f = w_and] ext) auto
    ultimately show ?thesis
      using bounded_writer_and [OF chunk rest] by simp
  qed
qed

interpretation tlv: bounded_writer "tlv8_encode t v" "tlv_enc t v" True for t v
  unfolding tlv8_encode_def using tlv8_encode_loop_bounded [of 0 v t] by simp

subsection \<open>The decoders work on the items\<close>

lemma drop_two: "offset + 2 \<le> length data \<Longrightarrow>
    drop offset data = data ! offset # data ! (offset + 1) # drop (offset + 2) data"
  by (simp add: Cons_nth_drop_Suc)

lemma tlv_items_at:
  "offset + 2 \<le> length data \<Longrightarrow> tlv_items (drop offset data) =
    (if offset + 2 + unat (data ! (offset + 1)) \<le> length data
     then (data ! offset, take (unat (data ! (offset + 1))) (drop (offset + 2) data)) #
       tlv_items (drop (offset + (2 + unat (data ! (offset + 1)))) data)
     else [])"
  by (subst drop_two) (auto simp: ac_simps)

lemma tlv_items_short: "\<not> offset + 2 \<le> length data \<Longrightarrow> tlv_items (drop offset data) = []"
  by (cases "drop offset data" rule: tlv_items.cases) (auto dest: arg_cong [where f = length])

lemma tlv8_find_loop_items:
  "\<exists>r. tlv8_find_loop data ty offset = Some r \<and>
    map_option (\<lambda>(at, n). take n (drop at data)) r = map_of (tlv_items (drop offset data)) ty \<and>
    (\<forall>at n. r = Some (at, n) \<longrightarrow> at + n \<le> length data)"
proof (induction data ty offset rule: tlv8_find_loop.induct)
  case (1 data ty offset)
  show ?case
  proof (cases "offset + 2 \<le> length data")
    case False
    then show ?thesis by (simp add: tlv8_find_loop.simps tlv_items_short)
  next
    case True
    then show ?thesis
      using 1 [OF True, of "data ! offset" "data ! (offset + 1)"]
      by (subst tlv8_find_loop.simps) (auto simp: tlv_items_at)
  qed
qed

text \<open>The first run of items of a type; once inside it, what is left of it.\<close>

definition tlv_run :: "u8 \<Rightarrow> bool \<Rightarrow> (u8 \<times> bytes) list \<Rightarrow> (u8 \<times> bytes) list" where
  "tlv_run ty in_seq items = takeWhile (\<lambda>i. fst i = ty)
     (if in_seq then items else dropWhile (\<lambda>i. fst i \<noteq> ty) items)"

definition tlv_join :: "(u8 \<times> bytes) list \<Rightarrow> bytes" where
  "tlv_join run = concat (map snd run)"

lemma tlv_run_Nil [simp]: "tlv_run ty in_seq [] = []"
  by (simp add: tlv_run_def)

lemma tlv_run_Cons [simp]:
  "tlv_run ty in_seq ((t, c) # items) =
    (if t = ty then (t, c) # tlv_run ty True items else if in_seq then [] else tlv_run ty False items)"
  by (simp add: tlv_run_def)

lemma tlv_join_simps [simp]: "tlv_join [] = []" "tlv_join ((t, c) # run) = c @ tlv_join run"
  by (simp_all add: tlv_join_def)

lemma tlv8_decode_loop_items:
  assumes "oo \<le> length out" "in_seq \<longrightarrow> found"
  shows "if oo + length (tlv_join (tlv_run ty in_seq (tlv_items (drop offset data)))) \<le> length out
    then tlv8_decode_loop data ty offset out oo found in_seq =
      Some (found \<or> tlv_run ty in_seq (tlv_items (drop offset data)) \<noteq> [],
        put_at out oo (tlv_join (tlv_run ty in_seq (tlv_items (drop offset data)))),
        Some (oo + length (tlv_join (tlv_run ty in_seq (tlv_items (drop offset data))))))
    else \<exists>out'. length out' = length out \<and>
      tlv8_decode_loop data ty offset out oo found in_seq = Some (False, out', None)"
  using assms
proof (induction data ty offset out oo found in_seq rule: tlv8_decode_loop.induct)
  case (1 data ty offset out oo found in_seq)
  show ?case
  proof (cases "offset + 2 \<le> length data")
    case False
    then show ?thesis using 1(3) by (simp add: tlv8_decode_loop.simps tlv_items_short)
  next
    case True
    let ?t = "data ! offset" and ?l = "data ! (offset + 1)"
    have r: "rd data offset = Some ?t" "rd data (offset + 1) = Some ?l" using True by simp_all
    note unfold = tlv8_decode_loop.simps [of data ty offset] r tlv_items_at [OF True]
    show ?thesis
    proof (cases "offset + 2 + unat ?l \<le> length data")
      case short: False
      then show ?thesis using True 1(3) by (simp add: unfold)
    next
      case fits: True
      let ?c = "take (unat ?l) (drop (offset + 2) data)"
      have c: "length ?c = unat ?l" "rd_block data (offset + 2) (unat ?l) = Some ?c"
        using fits by simp_all
      show ?thesis
      proof (cases "?t = ty")
        case same: True
        show ?thesis
        proof (cases "oo + unat ?l \<le> length out")
          case False
          then show ?thesis using True fits same c(1) by (auto simp: unfold)
        next
          case room: True
          have wr: "wr out oo ?c = Some (put_at out oo ?c)" using room c(1) by (simp add: wr_put)
          show ?thesis
            using 1(1) [OF True r _ same _ c(2) wr] True fits same room c wr
            by (auto simp: unfold put_at_put_at ac_simps split: if_splits)
        qed
      next
        case diff: False
        then show ?thesis
          using 1(2) [OF True r _ diff] True fits 1(3,4)
          by (cases in_seq) (auto simp: unfold split: if_splits)
      qed
    qed
  qed
qed

lemma find_items:
  "\<exists>r. tlv8_find data ty = Some r \<and>
    map_option (\<lambda>(at, n). take n (drop at data)) r = map_of (tlv_items data) ty \<and>
    (\<forall>at n. r = Some (at, n) \<longrightarrow> at + n \<le> length data)"
  using tlv8_find_loop_items [of data ty 0] by (simp add: tlv8_find_def)

lemma decode_concat_items:
  "if length (tlv_join (tlv_run ty False (tlv_items data))) \<le> length out
    then tlv8_decode_concat data ty out =
      Some (tlv_run ty False (tlv_items data) \<noteq> [],
        put_at out 0 (tlv_join (tlv_run ty False (tlv_items data))),
        Some (length (tlv_join (tlv_run ty False (tlv_items data)))))
    else \<exists>out'. length out' = length out \<and> tlv8_decode_concat data ty out = Some (False, out', None)"
  using tlv8_decode_loop_items [of 0 out False False ty 0 data]
  by (simp add: tlv8_decode_concat_def)

subsection \<open>Properties\<close>

lemma length_tlv_enc: "length (tlv_enc t v) = length v + 2 * length (tlv_chunks v)"
proof -
  have "length (concat (map (tlv_item t) cs)) = length (concat cs) + 2 * length cs" for cs
    by (induction cs) (simp_all add: tlv_item_def)
  then show ?thesis by (simp add: tlv_enc_def)
qed

lemma length_tlv_chunks: "length (tlv_chunks v) = (if v = [] then 1 else (length v + 254) div 255)"
proof (induction v rule: tlv_chunks.induct)
  case (1 v)
  show ?case
  proof (cases "length v \<le> 255")
    case True
    then have "(length v + 254) div 255 = 1" if "v \<noteq> []"
      using that by (intro div_nat_eqI) (simp_all add: Suc_le_eq)
    with True show ?thesis by (subst tlv_chunks.simps) simp
  next
    case False
    then have "(length v + 254) div 255 = Suc ((length v - 255 + 254) div 255)"
      by (subst le_div_geq) simp_all
    with False 1 show ?thesis by (subst tlv_chunks.simps) (auto split: if_splits)
  qed
qed

text \<open>
  \<open>tlv8_encode\<close> never leaves its buffer and succeeds exactly when the value and two header
  bytes for each started block of 255 bytes (one block for an empty value) fit behind what is
  already in the buffer, which it keeps.
\<close>

theorem tlv8_encode_bounds:
  assumes "pos \<le> length out"
  shows "\<exists>ok out' pos'. tlv8_encode t v (out, pos) = Some (ok, (out', pos')) \<and> length out' = length out \<and>
    pos' \<le> length out \<and>
    (ok \<longleftrightarrow> pos + length v + 2 * (if v = [] then 1 else (length v + 254) div 255) \<le> length out) \<and>
    (ok \<longrightarrow> take pos out' = take pos out \<and> tlv_items (take (pos' - pos) (drop pos out')) =
      map (Pair t) (tlv_chunks v))"
proof -
  have len: "length (tlv_enc t v) = length v + 2 * (if v = [] then 1 else (length v + 254) div 255)"
    by (simp add: length_tlv_enc length_tlv_chunks)
  have it: "tlv_items (tlv_enc t v) = map (Pair t) (tlv_chunks v)" using tlv_items_enc [of t v "[]"] by simp
  show ?thesis
  proof (cases "pos + length (tlv_enc t v) \<le> length out")
    case True
    then show ?thesis
      using tlv.write_fits [of pos t v out] assms len it by (simp add: put_at_def ex_bool_eq)
  next
    case False
    then show ?thesis using tlv.write_full [OF assms, where t = t and v = v] len by auto
  qed
qed

lemma tlv8_encode_bounds_witness:
  "\<exists>ok s. tlv8_encode 5 (replicate 300 1) (replicate 400 0, 10) = Some (ok, s) \<and> ok"
  using tlv8_encode_bounds [of 10 "replicate 400 0" 5 "replicate 300 1"] by auto

text \<open>
  \<open>tlv8_find\<close> is a lookup in the list of items the bytes encode: it returns the place of the
  first item of the type, whose value lies inside the data, and the null pointer when no item
  before the first malformed one has the type. It never reads outside the data.
\<close>

theorem tlv8_find_is_lookup:
  "\<exists>r. tlv8_find data ty = Some r \<and>
    map_option (\<lambda>(at, n). take n (drop at data)) r = map_of (tlv_items data) ty \<and>
    (\<forall>at n. r = Some (at, n) \<longrightarrow> at + n \<le> length data)"
  by (rule find_items)

lemma tlv8_find_is_lookup_witness:
  "\<exists>r. tlv8_find [6, 1, 3, 3, 2, 9, 8] 3 = Some r \<and>
    map_option (\<lambda>(at, n). take n (drop at [6, 1, 3, 3, 2, 9, 8 :: u8])) r = Some [9, 8]"
  using tlv8_find_is_lookup [of "[6, 1, 3, 3, 2, 9, 8]" 3] by auto

text \<open>
  \<open>tlv8_decode_concat\<close> returns the concatenated values of the first run of items of the type:
  with room for it in the buffer it succeeds exactly when there is such an item, and stores the
  value and its length; without room it returns false and stores no length. It never reads or
  writes outside its buffers.
\<close>

theorem tlv8_decode_concat_run:
  "if length (tlv_join (tlv_run ty False (tlv_items data))) \<le> length out
    then tlv8_decode_concat data ty out =
      Some (tlv_run ty False (tlv_items data) \<noteq> [],
        put_at out 0 (tlv_join (tlv_run ty False (tlv_items data))),
        Some (length (tlv_join (tlv_run ty False (tlv_items data)))))
    else \<exists>out'. length out' = length out \<and> tlv8_decode_concat data ty out = Some (False, out', None)"
  by (rule decode_concat_items)

subsection \<open>Messages\<close>

text \<open>A pairing message: its items encoded one after the other, as the pairing code does.\<close>

fun tlv_message :: "(u8 \<times> bytes) list \<Rightarrow> writer" where
  "tlv_message [] = (\<lambda>s. Some (True, s))"
| "tlv_message ((t, v) # items) = w_and (tlv8_encode t v) (tlv_message items)"

definition message_bytes :: "(u8 \<times> bytes) list \<Rightarrow> bytes" where
  "message_bytes items = concat (map (\<lambda>(t, v). tlv_enc t v) items)"

lemma tlv_message_bounded: "bounded_writer (tlv_message items) (message_bytes items) True"
proof (induction items)
  case Nil
  show ?case by unfold_locales (simp_all add: message_bytes_def)
next
  case (Cons i items)
  then show ?case
    using bounded_writer_and [OF tlv.bounded_writer_axioms Cons] by (cases i) (simp add: message_bytes_def)
qed

lemma tlv_items_message:
  "tlv_items (message_bytes items) = concat (map (\<lambda>(t, v). map (Pair t) (tlv_chunks v)) items)"
  by (induction items) (auto simp: message_bytes_def tlv_items_enc)

lemma tlv_run_other: "\<forall>i\<in>set xs. fst i \<noteq> ty \<Longrightarrow> tlv_run ty False (xs @ ys) = tlv_run ty False ys"
  by (induction xs) auto

lemma tlv_run_same: "\<forall>i\<in>set ys. fst i \<noteq> ty \<Longrightarrow> tlv_run ty True (map (Pair ty) cs @ ys) = map (Pair ty) cs"
  by (induction cs) (auto simp: tlv_run_def takeWhile_eq_Nil_iff)

lemma tlv_run_start: "cs \<noteq> [] \<Longrightarrow> \<forall>i\<in>set ys. fst i \<noteq> ty \<Longrightarrow>
    tlv_run ty False (map (Pair ty) cs @ ys) = map (Pair ty) cs"
  by (cases cs) (simp_all add: tlv_run_same)

lemma tlv_message_run:
  assumes "distinct (map fst items)"
  shows "tlv_run ty False (tlv_items (message_bytes items)) =
    (case map_of items ty of None \<Rightarrow> [] | Some v \<Rightarrow> map (Pair ty) (tlv_chunks v))"
  using assms unfolding tlv_items_message
proof (induction items)
  case (Cons i items)
  obtain t v where i: "i = (t, v)" by (cases i)
  show ?case
  proof (cases "t = ty")
    case True
    moreover have "\<forall>i\<in>set (concat (map (\<lambda>(t, v). map (Pair t) (tlv_chunks v)) items)). fst i \<noteq> ty"
      using Cons.prems i True by force
    ultimately show ?thesis using i by (simp add: tlv_run_start)
  next
    case False
    then have "\<forall>i\<in>set (map (Pair t) (tlv_chunks v)). fst i \<noteq> ty" by auto
    then show ?thesis using Cons i False by (simp add: tlv_run_other)
  qed
qed simp

lemma tlv_join_same [simp]: "tlv_join (map (Pair t) cs) = concat cs"
  by (simp add: tlv_join_def comp_def)

lemma decode_message:
  assumes "distinct (map fst items)" "map_of items ty = Some v" "length v \<le> length buf"
  shows "tlv8_decode_concat (message_bytes items) ty buf = Some (True, put_at buf 0 v, Some (length v))"
  using tlv_message_run [OF assms(1), of ty] decode_concat_items [of ty "message_bytes items" buf] assms(2,3)
  by simp

lemma map_of_message:
  "map_of (tlv_items (message_bytes items)) ty = map_option (\<lambda>v. hd (tlv_chunks v)) (map_of items ty)"
  unfolding tlv_items_message
proof (induction items)
  case (Cons i items)
  have "map_of (map (Pair (fst i)) cs @ xs) ty = (if ty = fst i then Some (hd cs) else map_of xs ty)"
    if "cs \<noteq> []" for cs :: "bytes list" and xs
  proof -
    have "map_of (map (Pair (fst i)) cs @ xs) ty = map_of xs ty" if "ty \<noteq> fst i" for cs
      using that by (induction cs) auto
    then show ?thesis using that by (cases cs) auto
  qed
  then show ?case using Cons by (cases i) simp
qed simp

text \<open>
  C4. Round trip of a pairing message: when the items of a message with distinct types have been
  encoded into an empty encoder, decoding the encoder's contents returns for each type exactly
  the value that was encoded, however long it is, and reports every other type as absent.
\<close>

theorem tlv8_message_roundtrip:
  assumes "distinct (map fst items)"
    and "tlv_message items (tlv8_encoder_init out) = Some (True, s)"
    and "\<forall>(t, v)\<in>set items. length v \<le> length buf"
  shows "tlv8_decode_concat (take (tlv8_encoder_size s) (fst s)) ty buf =
    (case map_of items ty of
       None \<Rightarrow> Some (False, buf, Some 0)
     | Some v \<Rightarrow> Some (True, put_at buf 0 v, Some (length v)))"
proof -
  have fit: "length (message_bytes items) \<le> length out"
    using bounded_writer.write_True_iff [OF tlv_message_bounded, of 0 out items] assms(2)
    by (auto simp: tlv8_encoder_init_def)
  then have s: "s = (put_at out 0 (message_bytes items), length (message_bytes items))"
    using bounded_writer.write_fits [OF tlv_message_bounded, of 0 items out] assms(2)
    by (simp add: tlv8_encoder_init_def)
  have data: "take (tlv8_encoder_size s) (fst s) = message_bytes items"
    by (simp add: s tlv8_encoder_size_def put_at_def)
  note run = tlv_message_run [OF assms(1), of ty] and dec = decode_concat_items [of ty "message_bytes items" buf]
  show ?thesis
  proof (cases "map_of items ty")
    case None
    then show ?thesis using run dec by (simp add: data)
  next
    case (Some v)
    then have "length v \<le> length buf" using assms(3) by (auto dest: map_of_SomeD)
    then show ?thesis using run dec Some by (simp add: data)
  qed
qed

lemma tlv8_message_roundtrip_witness:
  "\<exists>s. tlv_message [(6, [1]), (3, replicate 300 7)] (tlv8_encoder_init (replicate 400 0)) = Some (True, s) \<and>
    tlv8_decode_concat (take (tlv8_encoder_size s) (fst s)) 3 (replicate 300 0) =
      Some (True, replicate 300 7, Some 300)"
proof -
  let ?items = "[(6, [1]), (3, replicate 300 7)] :: (u8 \<times> bytes) list"
  have "length (message_bytes ?items) \<le> 400"
    by (simp add: message_bytes_def length_tlv_enc length_tlv_chunks)
  then obtain s where s: "tlv_message ?items (tlv8_encoder_init (replicate 400 0)) = Some (True, s)"
    using bounded_writer.write_fits [OF tlv_message_bounded, of 0 ?items "replicate 400 0"]
    by (simp add: tlv8_encoder_init_def del: tlv_message.simps)
  from tlv8_message_roundtrip [OF _ this, of "replicate 300 0" 3] s show ?thesis
    by (auto simp: put_at_def simp del: tlv_message.simps)
qed

end
