(* ===== verification/Plist_Xml.thy ===== *)
theory Plist_Xml
  imports Writer Base64
begin

section \<open>XML plists (main/plist/plist_xml.c)\<close>

text \<open>
  The builder of XML plists. A \<open>plist_t\<close> is the pair of its buffer and its size; its capacity is
  the length of the buffer. No function reports an error: a call whose text does not fit leaves
  the text as it was. That contract is the locale \<open>plist_op\<close>, which every function of the
  builder interprets, and from which a whole sequence of calls is shown to refine appending to a
  bounded text.
\<close>

subsection \<open>Formatting (standard library)\<close>

fun dec_nat :: "nat \<Rightarrow> bytes" where
  "dec_nat n = (if n < 10 then [of_nat (48 + n)] else dec_nat (n div 10) @ [of_nat (48 + n mod 10)])"

declare dec_nat.simps [simp del]

definition dec_int :: "int \<Rightarrow> bytes" where
  "dec_int i = (if i < 0 then 45 # dec_nat (nat (- i)) else dec_nat (nat i))"

text \<open>
  \<open>snprintf(buf + at, n, ...)\<close> with the formatted text \<open>s\<close>: it stores at most \<open>n - 1\<close> bytes of it
  and a NUL, and returns the length of the whole text.
\<close>

definition snprintf_at :: "bytes \<Rightarrow> bytes \<Rightarrow> nat \<Rightarrow> nat \<Rightarrow> (int \<times> bytes) mem" where
  "snprintf_at s buf at n = do {
     buf \<leftarrow> (if n = 0 then Some buf else wr buf at (take (n - 1) s @ [0]));
     Some (c_int (length s), buf)
   }"

subsection \<open>The builder\<close>

definition plist_append :: "bytes \<Rightarrow> bw \<Rightarrow> bw mem" where
  "plist_append str p = (case p of (buf, psize) \<Rightarrow>
     let len = length str in
     if sz_add psize len < length buf then do {
       buf \<leftarrow> wr buf psize str;
       let psize = psize + len;
       buf \<leftarrow> wr buf psize [0];
       Some (buf, psize)
     }
     else Some (buf, psize))"

definition plist_init :: "bytes \<Rightarrow> bw mem" where
  "plist_init buffer = do { buffer \<leftarrow> wr buffer 0 [0]; Some (buffer, 0) }"

text \<open>The statements the formatting functions share.\<close>

definition plist_printf :: "bytes \<Rightarrow> bw \<Rightarrow> bw mem" where
  "plist_printf s p = (case p of (buf, psize) \<Rightarrow>
     let remaining = sz_sub (length buf) psize in do {
       (len, buf) \<leftarrow> snprintf_at s buf psize remaining;
       Some (buf, if len > 0 \<and> nat len < remaining then sz_add psize (nat len) else psize)
     })"

definition plist_begin :: "bw \<Rightarrow> bw mem" where
  "plist_begin p = do {
     p \<leftarrow> plist_append (ascii ''<?xml version=\"1.0\" encoding=\"UTF-8\"?>\<newline>'') p;
     p \<leftarrow> plist_append (ascii ''<!DOCTYPE plist PUBLIC \"-//Apple//DTD PLIST 1.0//EN\" \"http://www.apple.com/DTDs/PropertyList-1.0.dtd\">\<newline>'') p;
     plist_append (ascii ''<plist version=\"1.0\">\<newline>'') p
   }"

definition key_text :: "bytes \<Rightarrow> bytes" where
  "key_text key = ascii ''<key>'' @ key @ ascii ''</key>\<newline>''"

definition plist_dict_begin :: "bw \<Rightarrow> bw mem" where
  "plist_dict_begin = plist_append (ascii ''<dict>\<newline>'')"

definition plist_dict_string :: "bytes \<Rightarrow> bytes \<Rightarrow> bw \<Rightarrow> bw mem" where
  "plist_dict_string key val =
     plist_printf (key_text key @ ascii ''<string>'' @ val @ ascii ''</string>\<newline>'')"

definition plist_dict_int :: "bytes \<Rightarrow> u64 \<Rightarrow> bw \<Rightarrow> bw mem" where
  "plist_dict_int key val =
     plist_printf (key_text key @ ascii ''<integer>'' @ dec_int (sint val) @ ascii ''</integer>\<newline>'')"

definition plist_dict_uint :: "bytes \<Rightarrow> u64 \<Rightarrow> bw \<Rightarrow> bw mem" where
  "plist_dict_uint key val =
     plist_printf (key_text key @ ascii ''<integer>'' @ dec_nat (unat val) @ ascii ''</integer>\<newline>'')"

definition plist_dict_bool :: "bytes \<Rightarrow> bool \<Rightarrow> bw \<Rightarrow> bw mem" where
  "plist_dict_bool key val =
     plist_printf (key_text key @ ascii ''<'' @ ascii (if val then ''true'' else ''false'') @ ascii ''/>\<newline>'')"

definition plist_dict_data :: "bytes \<Rightarrow> bytes \<Rightarrow> bw \<Rightarrow> bw mem" where
  "plist_dict_data key data p = (case p of (buf, psize) \<Rightarrow>
     let b64_len = base64_encoded_length (length data); remaining = sz_sub (length buf) psize in
     if remaining < sz_add (sz_add (length key) b64_len) 50 then Some (buf, psize)
     else do {
       (written, buf) \<leftarrow> snprintf_at (key_text key @ ascii ''<data>'') buf psize remaining;
       let psize = (if written > 0 then sz_add psize (nat written) else psize);
       (encoded, out) \<leftarrow> base64_encode (Some data) (Some (drop psize buf));
       let buf = take psize buf @ the out;
       if encoded < 0 then Some (buf, psize)
       else do {
         let psize = sz_add psize (nat encoded);
         buf \<leftarrow> wr buf psize [0];
         plist_append (ascii ''</data>\<newline>'') (buf, psize)
       }
     })"

definition plist_dict_data_hex :: "bytes \<Rightarrow> bytes \<Rightarrow> bw \<Rightarrow> bw mem" where
  "plist_dict_data_hex key data p = plist_dict_data key data p"

definition plist_dict_end :: "bw \<Rightarrow> bw mem" where
  "plist_dict_end = plist_append (ascii ''</dict>\<newline>'')"

definition plist_dict_array_begin :: "bytes \<Rightarrow> bw \<Rightarrow> bw mem" where
  "plist_dict_array_begin key = plist_printf (key_text key @ ascii ''<array>\<newline>'')"

definition plist_array_begin :: "bw \<Rightarrow> bw mem" where
  "plist_array_begin = plist_append (ascii ''<array>\<newline>'')"

definition plist_array_end :: "bw \<Rightarrow> bw mem" where
  "plist_array_end = plist_append (ascii ''</array>\<newline>'')"

definition plist_array_int :: "u64 \<Rightarrow> bw \<Rightarrow> bw mem" where
  "plist_array_int val =
     plist_printf (ascii ''<integer>'' @ dec_int (sint val) @ ascii ''</integer>\<newline>'')"

text \<open>The builder after the call, and the size it returns.\<close>

definition plist_end :: "bw \<Rightarrow> (nat \<times> bw) mem" where
  "plist_end p = do { p \<leftarrow> plist_append (ascii ''</plist>\<newline>'') p; Some (snd p, p) }"

subsection \<open>The contract of a builder function\<close>

text \<open>
  The state of a builder: the size is below the capacity, which an \<open>int\<close> can hold. The text is
  what the caller will send.
\<close>

definition plist_ok :: "bw \<Rightarrow> bool" where
  "plist_ok p \<longleftrightarrow> snd p < length (fst p) \<and> length (fst p) < 2 ^ 31"

definition plist_text :: "bw \<Rightarrow> bytes" where
  "plist_text p = take (snd p) (fst p)"

text \<open>Appending to a text that may take \<open>cap\<close> bytes, when \<open>need\<close> bytes are left.\<close>

definition bounded_append :: "nat \<Rightarrow> bytes \<times> nat \<Rightarrow> bytes \<Rightarrow> bytes" where
  "bounded_append cap tn text =
    (if length text + snd tn \<le> cap then text @ fst tn else text)"

definition plist_refines :: "bw \<Rightarrow> bytes \<Rightarrow> bw option \<Rightarrow> bool" where
  "plist_refines p text r \<longleftrightarrow> (\<exists>p'. r = Some p' \<and> plist_ok p' \<and>
     length (fst p') = length (fst p) \<and> plist_text p' = text)"

locale plist_op =
  fixes operation :: "bw \<Rightarrow> bw mem" and content :: bytes and need :: nat
  assumes refines: "plist_ok p \<Longrightarrow>
      plist_refines p (bounded_append (length (fst p)) (content, need) (plist_text p)) (operation p)"
begin

lemma op_total: "plist_ok p \<Longrightarrow> operation p \<noteq> None"
  using refines [of p] by (auto simp: plist_refines_def)

lemma op_appends:
  assumes "plist_ok p" "snd p + need \<le> length (fst p)"
  shows "\<exists>p'. operation p = Some p' \<and> plist_text p' = plist_text p @ content"
  using refines [OF assms(1)] assms
  by (auto simp: plist_refines_def bounded_append_def plist_text_def plist_ok_def)

end

lemma plist_text_length: "plist_ok p \<Longrightarrow> length (plist_text p) = snd p"
  by (simp add: plist_text_def plist_ok_def)

lemma take_put_at: "i + length bs \<le> length buf \<Longrightarrow> take (i + length bs) (put_at buf i bs) = take i buf @ bs"
  by (simp add: put_at_def)

lemma take_put_at_le: "i + length bs \<le> length buf \<Longrightarrow> n \<le> i \<Longrightarrow> take n (put_at buf i bs) = take n buf"
  by (simp add: put_at_def min_def)

lemma plist_append_op:
  assumes "length str < 2 ^ 31"
  shows "plist_op (plist_append str) str (length str + 1)"
proof
  fix p assume ok: "plist_ok p"
  obtain buf n where p: "p = (buf, n)" by (cases p)
  have n: "n < length buf" "length buf < 2 ^ 31" using ok by (simp_all add: p plist_ok_def)
  have add: "sz_add n (length str) = n + length str" using n assms by simp
  show "plist_refines p (bounded_append (length (fst p)) (str, length str + 1) (plist_text p)) (plist_append str p)"
  proof (cases "n + length str < length buf")
    case True
    have "take (n + length str) (put_at (put_at buf n str) (n + length str) [0]) = take n buf @ str"
      using True by (simp add: take_put_at_le take_put_at)
    then show ?thesis
      using True n add by (simp add: p plist_append_def Let_def wr_put plist_refines_def plist_ok_def
          plist_text_def bounded_append_def)
  next
    case False
    then show ?thesis
      using n add ok by (simp add: p plist_append_def Let_def plist_refines_def plist_text_def
          bounded_append_def)
  qed
qed

lemma snprintf_room:
  assumes "n < length buf" "length s < 2 ^ 31"
  shows "\<exists>buf'. snprintf_at s buf n (length buf - n) = Some (int (length s), buf') \<and>
    length buf' = length buf \<and> take n buf' = take n buf \<and>
    (n + length s < length buf \<longrightarrow> take (n + length s) buf' = take n buf @ s)"
proof -
  let ?w = "take (length buf - n - 1) s @ [0]"
  have w: "n + length ?w \<le> length buf" using assms(1) by simp
  have "take (n + length s) (put_at buf n ?w) = take n buf @ s" if "n + length s < length buf"
  proof -
    have "?w = s @ [0]" using that by simp
    moreover have "n + length (s @ [0]) \<le> length buf" using that by simp
    ultimately show ?thesis by (simp add: put_at_def)
  qed
  then show ?thesis
    using assms w by (simp add: snprintf_at_def wr_put take_put_at_le)
qed

lemma plist_printf_op:
  assumes "s \<noteq> []" "length s < 2 ^ 31"
  shows "plist_op (plist_printf s) s (length s + 1)"
proof
  fix p assume ok: "plist_ok p"
  obtain buf n where p: "p = (buf, n)" by (cases p)
  have n: "n < length buf" "length buf < 2 ^ 31" using ok by (simp_all add: p plist_ok_def)
  have rem: "sz_sub (length buf) n = length buf - n" using n by simp
  obtain buf' where r: "snprintf_at s buf n (length buf - n) = Some (int (length s), buf')"
    "length buf' = length buf" "take n buf' = take n buf"
    "n + length s < length buf \<longrightarrow> take (n + length s) buf' = take n buf @ s"
    using snprintf_room [OF n(1) assms(2)] by blast
  show "plist_refines p (bounded_append (length (fst p)) (s, length s + 1) (plist_text p)) (plist_printf s p)"
    using n rem r assms
    by (cases "n + length s < length buf")
      (auto simp: p plist_printf_def Let_def plist_refines_def plist_ok_def plist_text_def bounded_append_def)
qed

lemma length_dec_nat: "0 < k \<Longrightarrow> n < 10 ^ k \<Longrightarrow> length (dec_nat n) \<le> k"
proof (induction n arbitrary: k rule: dec_nat.induct)
  case (1 n)
  show ?case
  proof (cases "n < 10")
    case True
    then show ?thesis using 1 by (subst dec_nat.simps) simp
  next
    case False
    then obtain k' where k: "k = Suc k'" "0 < k'"
      using 1 by (cases k; cases "k - 1") auto
    then have "n div 10 < 10 ^ k'" using 1 by (simp add: less_mult_imp_div_less mult.commute)
    then show ?thesis using 1(1) [OF False k(2)] False k by (subst dec_nat.simps) simp
  qed
qed

lemma length_dec_u64: "length (dec_nat (unat (w :: u64))) \<le> 20" "length (dec_int (sint (w :: u64))) \<le> 21"
proof -
  have "unat w < 2 ^ 64" using unat_less_exp [of w] by simp
  then have "unat w < 10 ^ 20" by simp
  then show "length (dec_nat (unat w)) \<le> 20" by (intro length_dec_nat) simp_all
  have "- (2 ^ 63) \<le> sint w" "sint w < 2 ^ 63" using sint_range_size [of w] by (simp_all add: word_size)
  then have "nat (sint w) < 10 ^ 20" "nat (- sint w) < 10 ^ 20" by (simp_all add: nat_less_iff)
  then have "length (dec_nat (nat (sint w))) \<le> 20" "length (dec_nat (nat (- sint w))) \<le> 20"
    by (simp_all only: length_dec_nat [of 20])
  then show "length (dec_int (sint w)) \<le> 21" by (simp add: dec_int_def)
qed

lemma plist_dict_data_op:
  assumes "length key < 2 ^ 30" "length data < 2 ^ 29"
  shows "plist_op (plist_dict_data key data)
    (key_text key @ ascii ''<data>'' @ b64_ref data @ ascii ''</data>\<newline>'')
    (length key + 4 * ((length data + 2) div 3) + 50)"
proof
  let ?b = "4 * ((length data + 2) div 3)"
  let ?head = "key_text key @ ascii ''<data>''"
  let ?content = "key_text key @ ascii ''<data>'' @ b64_ref data @ ascii ''</data>\<newline>''"
  fix p assume ok: "plist_ok p"
  obtain buf n where p: "p = (buf, n)" by (cases p)
  have n: "n < length buf" "length buf < 2 ^ 31" using ok by (simp_all add: p plist_ok_def)
  have "3 * ((length data + 2) div 3) \<le> length data + 2" by simp
  moreover have "length data < 536870912" using assms(2) by simp
  ultimately have "?b < 1073741824" by linarith
  then have b: "?b < 2 ^ 30" by simp
  have b64: "base64_encoded_length (length data) = ?b" "length (b64_ref data) = ?b"
    using assms(2) b by (simp_all add: base64_encoded_length_def length_b64_ref mult.commute)
  have rem: "sz_sub (length buf) n = length buf - n" using n by simp
  have need: "sz_add (sz_add (length key) ?b) 50 = length key + ?b + 50" using assms(1) b by simp
  have head: "length ?head = length key + 18" "length ?head < 2 ^ 31"
    using assms(1) by (simp_all add: key_text_def)
  show "plist_refines p (bounded_append (length (fst p)) (?content, length key + ?b + 50) (plist_text p))
    (plist_dict_data key data p)"
  proof (cases "n + (length key + ?b + 50) \<le> length buf")
    case False
    then have "length buf - n < length key + ?b + 50" using n by linarith
    then have "plist_dict_data key data p = Some p"
      unfolding p plist_dict_data_def prod.case Let_def rem need b64(1) by (rule if_P)
    then show ?thesis
      using False n ok by (simp add: p plist_refines_def bounded_append_def plist_text_def)
  next
    case True
    obtain buf1 where s1: "snprintf_at ?head buf n (length buf - n) = Some (int (length ?head), buf1)"
      "length buf1 = length buf" "take (n + length ?head) buf1 = take n buf @ ?head"
      using snprintf_room [OF n(1) head(2)] True head(1) by auto
    define m where "m = n + length ?head"
    have m: "m + ?b + 32 \<le> length buf" "m = n + (length key + 18)" using True head(1) by (simp_all add: m_def)
    define out where "out = b64_ref data @ drop ?b (drop m buf1)"
    have enc: "base64_encode (Some data) (Some (drop m buf1)) = Some (int ?b, Some out)"
      using base64_encode_ref [of data "drop m buf1"] m n s1(2) b64(2) by (simp add: out_def)
    define buf2 where "buf2 = take m buf1 @ out"
    have buf2: "length buf2 = length buf" "take (m + ?b) buf2 = take n buf @ ?head @ b64_ref data"
      using m s1 b64(2) by (simp_all add: buf2_def out_def m_def)
    define buf3 where "buf3 = put_at buf2 (m + ?b) [0]"
    have buf3: "wr buf2 (m + ?b) [0] = Some buf3" "length buf3 = length buf"
      "take (m + ?b) buf3 = take n buf @ ?head @ b64_ref data"
      using m buf2 by (simp_all add: buf3_def wr_put take_put_at_le)
    have p3: "plist_ok (buf3, m + ?b)" using m n buf3(2) by (simp add: plist_ok_def)
    have eq: "plist_dict_data key data p = plist_append (ascii ''</data>\<newline>'') (buf3, m + ?b)"
    proof -
      have guard: "(length buf - n < length key + ?b + 50) = False" using True by simp
      have size1: "(if int (length ?head) > 0 then sz_add n (nat (int (length ?head))) else n) = m"
        using m n head(1) by simp
      have size2: "(int ?b < 0) = False" "sz_add m (nat (int ?b)) = m + ?b"
        using m n by (simp_all only: nat_int) simp_all
      show ?thesis
        by (simp only: p plist_dict_data_def prod.case Let_def rem need b64(1) guard if_False s1(1)
            bind.bind_lunit size1 enc size2 option.sel buf2_def [symmetric] buf3(1))
    qed
    have nine: "length (ascii ''</data>\<newline>'') + 1 = 9" by simp
    have "plist_refines (buf3, m + ?b) (bounded_append (length buf3)
        (ascii ''</data>\<newline>'', 9) (plist_text (buf3, m + ?b)))
        (plist_append (ascii ''</data>\<newline>'') (buf3, m + ?b))"
      using plist_op.refines [OF plist_append_op p3, of "ascii ''</data>\<newline>''"]
      unfolding nine fst_conv by (simp del: One_nat_def)
    then show ?thesis
      using m n buf3 True unfolding eq
      by (simp add: plist_refines_def bounded_append_def plist_text_def p)
  qed
qed

subsection \<open>Every builder function meets the contract\<close>

text \<open>One call of the builder, and the texts it appends with the room each of them needs.\<close>

datatype plist_call = Begin | Dict_Begin | Dict_String bytes bytes | Dict_Int bytes u64
  | Dict_Uint bytes u64 | Dict_Bool bytes bool | Dict_Data bytes bytes | Dict_Data_Hex bytes bytes
  | Dict_End | Dict_Array_Begin bytes | Array_Begin | Array_End | Array_Int u64 | End

fun plist_do :: "plist_call \<Rightarrow> bw \<Rightarrow> bw mem" where
  "plist_do Begin = plist_begin"
| "plist_do Dict_Begin = plist_dict_begin"
| "plist_do (Dict_String key val) = plist_dict_string key val"
| "plist_do (Dict_Int key val) = plist_dict_int key val"
| "plist_do (Dict_Uint key val) = plist_dict_uint key val"
| "plist_do (Dict_Bool key val) = plist_dict_bool key val"
| "plist_do (Dict_Data key data) = plist_dict_data key data"
| "plist_do (Dict_Data_Hex key data) = plist_dict_data_hex key data"
| "plist_do Dict_End = plist_dict_end"
| "plist_do (Dict_Array_Begin key) = plist_dict_array_begin key"
| "plist_do Array_Begin = plist_array_begin"
| "plist_do Array_End = plist_array_end"
| "plist_do (Array_Int val) = plist_array_int val"
| "plist_do End = (\<lambda>p. map_option snd (plist_end p))"

fun plist_calls :: "plist_call list \<Rightarrow> bw \<Rightarrow> bw mem" where
  "plist_calls [] p = Some p"
| "plist_calls (c # cs) p = do { p \<leftarrow> plist_do c p; plist_calls cs p }"

abbreviation plain :: "bytes \<Rightarrow> bytes \<times> nat" where
  "plain s \<equiv> (s, length s + 1)"

fun call_parts :: "plist_call \<Rightarrow> (bytes \<times> nat) list" where
  "call_parts Begin =
    [plain (ascii ''<?xml version=\"1.0\" encoding=\"UTF-8\"?>\<newline>''),
     plain (ascii ''<!DOCTYPE plist PUBLIC \"-//Apple//DTD PLIST 1.0//EN\" \"http://www.apple.com/DTDs/PropertyList-1.0.dtd\">\<newline>''),
     plain (ascii ''<plist version=\"1.0\">\<newline>'')]"
| "call_parts Dict_Begin = [plain (ascii ''<dict>\<newline>'')]"
| "call_parts (Dict_String key val) =
    [plain (key_text key @ ascii ''<string>'' @ val @ ascii ''</string>\<newline>'')]"
| "call_parts (Dict_Int key val) =
    [plain (key_text key @ ascii ''<integer>'' @ dec_int (sint val) @ ascii ''</integer>\<newline>'')]"
| "call_parts (Dict_Uint key val) =
    [plain (key_text key @ ascii ''<integer>'' @ dec_nat (unat val) @ ascii ''</integer>\<newline>'')]"
| "call_parts (Dict_Bool key val) =
    [plain (key_text key @ ascii ''<'' @ ascii (if val then ''true'' else ''false'') @ ascii ''/>\<newline>'')]"
| "call_parts (Dict_Data key data) =
    [(key_text key @ ascii ''<data>'' @ b64_ref data @ ascii ''</data>\<newline>'',
      length key + 4 * ((length data + 2) div 3) + 50)]"
| "call_parts (Dict_Data_Hex key data) =
    [(key_text key @ ascii ''<data>'' @ b64_ref data @ ascii ''</data>\<newline>'',
      length key + 4 * ((length data + 2) div 3) + 50)]"
| "call_parts Dict_End = [plain (ascii ''</dict>\<newline>'')]"
| "call_parts (Dict_Array_Begin key) = [plain (key_text key @ ascii ''<array>\<newline>'')]"
| "call_parts Array_Begin = [plain (ascii ''<array>\<newline>'')]"
| "call_parts Array_End = [plain (ascii ''</array>\<newline>'')]"
| "call_parts (Array_Int val) =
    [plain (ascii ''<integer>'' @ dec_int (sint val) @ ascii ''</integer>\<newline>'')]"
| "call_parts End = [plain (ascii ''</plist>\<newline>'')]"

text \<open>The argument strings are shorter than a formatted length can be.\<close>

fun call_small :: "plist_call \<Rightarrow> bool" where
  "call_small (Dict_String key val) \<longleftrightarrow> length key < 2 ^ 29 \<and> length val < 2 ^ 29"
| "call_small (Dict_Int key val) \<longleftrightarrow> length key < 2 ^ 29"
| "call_small (Dict_Uint key val) \<longleftrightarrow> length key < 2 ^ 29"
| "call_small (Dict_Bool key val) \<longleftrightarrow> length key < 2 ^ 29"
| "call_small (Dict_Data key data) \<longleftrightarrow> length key < 2 ^ 29 \<and> length data < 2 ^ 29"
| "call_small (Dict_Data_Hex key data) \<longleftrightarrow> length key < 2 ^ 29 \<and> length data < 2 ^ 29"
| "call_small (Dict_Array_Begin key) \<longleftrightarrow> length key < 2 ^ 29"
| "call_small _ \<longleftrightarrow> True"

definition bounded_appends :: "nat \<Rightarrow> (bytes \<times> nat) list \<Rightarrow> bytes \<Rightarrow> bytes" where
  "bounded_appends cap parts text = fold (bounded_append cap) parts text"

lemma bounded_appends_simps [simp]:
  "bounded_appends cap [] text = text"
  "bounded_appends cap (tn # parts) text = bounded_appends cap parts (bounded_append cap tn text)"
  by (simp_all add: bounded_appends_def)

lemma plist_refines_single:
  assumes "plist_op f s n" "plist_ok p"
  shows "plist_refines p (bounded_appends (length (fst p)) [(s, n)] (plist_text p)) (f p)"
  using plist_op.refines [OF assms] by simp

lemma plist_refines_bind:
  assumes "plist_refines p (bounded_appends (length (fst p)) xs (plist_text p)) r"
    and "\<And>q. plist_ok q \<Longrightarrow> plist_refines q (bounded_appends (length (fst q)) ys (plist_text q)) (f q)"
  shows "plist_refines p (bounded_appends (length (fst p)) (xs @ ys) (plist_text p)) (Option.bind r f)"
  using assms(1) assms(2) by (fastforce simp: plist_refines_def bounded_appends_def)

lemma plist_begin_refines:
  assumes "plist_ok p"
  shows "plist_refines p (bounded_appends (length (fst p)) (call_parts Begin) (plist_text p)) (plist_begin p)"
proof -
  have *: "plist_refines q (bounded_appends (length (fst q)) [plain s] (plist_text q)) (plist_append s q)"
    if "plist_ok q" "length s < 2 ^ 31" for q s
    using plist_refines_single [OF plist_append_op] that by blast
  have "plist_refines p (bounded_appends (length (fst p)) ([plain s] @ [plain t] @ [plain u]) (plist_text p))
    (do { p \<leftarrow> plist_append s p; p \<leftarrow> plist_append t p; plist_append u p })"
    if "length s < 2 ^ 31" "length t < 2 ^ 31" "length u < 2 ^ 31" for s t u
    using that assms by (intro plist_refines_bind *) simp_all
  note app = this
  show ?thesis
    unfolding plist_begin_def call_parts.simps by (rule app [unfolded append_Cons append_Nil]) simp_all
qed

interpretation dict_begin: plist_op plist_dict_begin "ascii ''<dict>\<newline>''" "length (ascii ''<dict>\<newline>'') + 1"
  unfolding plist_dict_begin_def by (rule plist_append_op) simp

interpretation dict_end: plist_op plist_dict_end "ascii ''</dict>\<newline>''" "length (ascii ''</dict>\<newline>'') + 1"
  unfolding plist_dict_end_def by (rule plist_append_op) simp

interpretation array_begin: plist_op plist_array_begin "ascii ''<array>\<newline>''" "length (ascii ''<array>\<newline>'') + 1"
  unfolding plist_array_begin_def by (rule plist_append_op) simp

interpretation array_end: plist_op plist_array_end "ascii ''</array>\<newline>''" "length (ascii ''</array>\<newline>'') + 1"
  unfolding plist_array_end_def by (rule plist_append_op) simp

abbreviation array_int_text :: "u64 \<Rightarrow> bytes" where
  "array_int_text val \<equiv> ascii ''<integer>'' @ dec_int (sint val) @ ascii ''</integer>\<newline>''"

interpretation array_int: plist_op "plist_array_int val" "array_int_text val" "length (array_int_text val) + 1" for val
  unfolding plist_array_int_def using length_dec_u64(2) [of val] by (intro plist_printf_op) simp_all

lemma plist_end_eq: "map_option snd (plist_end p) = plist_append (ascii ''</plist>\<newline>'') p"
  by (cases "plist_append (ascii ''</plist>\<newline>'') p") (simp_all add: plist_end_def)

text \<open>The formatting functions, for arguments of bounded length.\<close>

lemma plist_printf_refines:
  assumes "plist_ok p" "s \<noteq> []" "length s < 2 ^ 31"
  shows "plist_refines p (bounded_appends (length (fst p)) [plain s] (plist_text p)) (plist_printf s p)"
  by (rule plist_refines_single [OF plist_printf_op [OF assms(2,3)] assms(1)])

lemma plist_append_refines:
  assumes "plist_ok p" "length s < 2 ^ 31"
  shows "plist_refines p (bounded_appends (length (fst p)) [plain s] (plist_text p)) (plist_append s p)"
  by (rule plist_refines_single [OF plist_append_op [OF assms(2)] assms(1)])

lemma plist_data_refines:
  assumes "plist_ok p" "length key < 2 ^ 29" "length data < 2 ^ 29"
  shows "plist_refines p (bounded_appends (length (fst p)) (call_parts (Dict_Data key data)) (plist_text p))
    (plist_dict_data key data p)"
  unfolding call_parts.simps
  by (rule plist_refines_single [OF plist_dict_data_op assms(1)]) (use assms in simp_all)

lemma plist_do_refines:
  assumes "plist_ok p" "call_small c"
  shows "plist_refines p (bounded_appends (length (fst p)) (call_parts c) (plist_text p)) (plist_do c p)"
proof (cases c)
  case Begin
  then show ?thesis using plist_begin_refines [OF assms(1)] by simp
next
  case (Dict_Data key data)
  then show ?thesis using plist_data_refines [OF assms(1)] assms(2) by simp
next
  case (Dict_Data_Hex key data)
  then show ?thesis
    using plist_data_refines [OF assms(1), of key data] assms(2) by (simp add: plist_dict_data_hex_def)
next
  case (Dict_String key val)
  then show ?thesis unfolding Dict_String plist_do.simps call_parts.simps plist_dict_string_def
    using assms(2)[unfolded Dict_String] by (intro plist_printf_refines assms(1)) (simp_all add: key_text_def)
next
  case (Dict_Int key val)
  then show ?thesis unfolding Dict_Int plist_do.simps call_parts.simps plist_dict_int_def
    using assms(2)[unfolded Dict_Int] length_dec_u64(2) [of val]
    by (intro plist_printf_refines assms(1)) (simp_all add: key_text_def)
next
  case (Dict_Uint key val)
  then show ?thesis unfolding Dict_Uint plist_do.simps call_parts.simps plist_dict_uint_def
    using assms(2)[unfolded Dict_Uint] length_dec_u64(1) [of val]
    by (intro plist_printf_refines assms(1)) (simp_all add: key_text_def)
next
  case (Dict_Bool key val)
  then show ?thesis unfolding Dict_Bool plist_do.simps call_parts.simps plist_dict_bool_def
    using assms(2)[unfolded Dict_Bool] by (intro plist_printf_refines assms(1)) (simp_all add: key_text_def)
next
  case (Dict_Array_Begin key)
  then show ?thesis unfolding Dict_Array_Begin plist_do.simps call_parts.simps plist_dict_array_begin_def
    using assms(2)[unfolded Dict_Array_Begin] by (intro plist_printf_refines assms(1)) (simp_all add: key_text_def)
next
  case (Array_Int val)
  then show ?thesis unfolding Array_Int plist_do.simps call_parts.simps
    by (intro plist_refines_single [OF array_int.plist_op_axioms assms(1)])
next
  case End
  then show ?thesis unfolding End plist_do.simps call_parts.simps plist_end_eq
    by (intro plist_append_refines assms(1)) simp
next
  case Dict_Begin
  then show ?thesis unfolding Dict_Begin plist_do.simps call_parts.simps plist_dict_begin_def
    by (intro plist_append_refines assms(1)) simp
next
  case Dict_End
  then show ?thesis unfolding Dict_End plist_do.simps call_parts.simps plist_dict_end_def
    by (intro plist_append_refines assms(1)) simp
next
  case Array_Begin
  then show ?thesis unfolding Array_Begin plist_do.simps call_parts.simps plist_array_begin_def
    by (intro plist_append_refines assms(1)) simp
next
  case Array_End
  then show ?thesis unfolding Array_End plist_do.simps call_parts.simps plist_array_end_def
    by (intro plist_append_refines assms(1)) simp
qed

lemma plist_calls_refine:
  assumes "plist_ok p" "\<forall>c\<in>set cs. call_small c"
  shows "plist_refines p (bounded_appends (length (fst p)) (concat (map call_parts cs)) (plist_text p))
    (plist_calls cs p)"
  using assms
proof (induction cs arbitrary: p)
  case Nil
  then show ?case by (simp add: plist_refines_def)
next
  case (Cons c cs)
  then have "plist_refines p (bounded_appends (length (fst p)) (call_parts c @ concat (map call_parts cs)) (plist_text p))
      (Option.bind (plist_do c p) (plist_calls cs))"
    by (intro plist_refines_bind plist_do_refines) simp_all
  then show ?case by simp
qed

lemma bounded_appends_room:
  "length str + sum_list (map snd parts) \<le> cap \<Longrightarrow> \<forall>tn\<in>set parts. length (fst tn) \<le> snd tn \<Longrightarrow>
    bounded_appends cap parts str = str @ concat (map fst parts)"
proof (induction parts arbitrary: str)
  case (Cons tn parts)
  then show ?case using Cons.IH [of "str @ fst tn"] by (simp add: bounded_append_def)
qed simp

subsection \<open>Properties\<close>



text \<open>
  With enough room nothing is lost: when the capacity covers what the calls ask for, the text
  of the plist is exactly the concatenation of the texts of the calls.
\<close>

theorem plist_calls_complete:
  assumes "0 < length buffer" "length buffer < 2 ^ 31" "\<forall>c\<in>set cs. call_small c"
    and "sum_list (map snd (concat (map call_parts cs))) \<le> length buffer"
  shows "\<exists>p p'. plist_init buffer = Some p \<and> plist_calls cs p = Some p' \<and>
    take (snd p') (fst p') = concat (map fst (concat (map call_parts cs)))"
proof -
  obtain p where p: "plist_init buffer = Some p" "plist_ok p" "length (fst p) = length buffer" "plist_text p = []"
    using assms(1,2) by (auto simp: plist_init_def wr_put plist_ok_def plist_text_def Suc_le_eq)
  have "length (fst tn) \<le> snd tn" if "tn \<in> set (call_parts c)" for tn c
    using that length_b64_ref by (cases c) (auto simp: key_text_def)
  then have "bounded_appends (length buffer) (concat (map call_parts cs)) [] =
      concat (map fst (concat (map call_parts cs)))"
    using assms(4) by (subst bounded_appends_room) auto
  with plist_calls_refine [OF p(2) assms(3)] p show ?thesis
    by (auto simp: plist_refines_def plist_text_def)
qed

lemma plist_calls_complete_witness:
  "\<exists>p p'. plist_init (replicate 40 0) = Some p \<and> plist_calls [Dict_Begin, Array_Begin, Array_End, Dict_End] p = Some p' \<and>
    take (snd p') (fst p') = ascii ''<dict>\<newline><array>\<newline></array>\<newline></dict>\<newline>''"
  using plist_calls_complete [of "replicate 40 0" "[Dict_Begin, Array_Begin, Array_End, Dict_End]"]
  by (simp add: ascii_def del: plist_calls.simps)

end
