(* ===== verification/Audio_Buffer.thy ===== *)
theory Audio_Buffer
  imports Prelude "HOL-Library.Multiset"
begin

section \<open>The jitter buffer (main/audio/audio_buffer.c)\<close>

text \<open>
  Decoded audio waits in a pool of fixed slots. \<open>ab_sorted\<close> holds the slots in use in the order
  of their RTP timestamps (the first \<open>count\<close> entries of the C array \<open>sorted\<close>), \<open>ab_free\<close> the
  free ones (the first \<open>free_top\<close> entries of \<open>free_stack\<close>, top first), and a taken slot is in
  neither until it is returned. \<open>ab_ready\<close> is the counting semaphore. A pointer to a slot is its
  number. A slot that is read or written outside the pool, a push on a full index array and a
  store behind the end of a slot are \<open>None\<close>.
\<close>

subsection \<open>State\<close>

definition AAC_FRAMES_PER_PACKET :: nat where "AAC_FRAMES_PER_PACKET = 352"
definition AUDIO_MAX_CHANNELS :: nat where "AUDIO_MAX_CHANNELS = 2"
definition MAX_SAMPLES_PER_FRAME :: nat where "MAX_SAMPLES_PER_FRAME = 4096"
definition MAX_RING_BUFFER_FRAMES :: nat where "MAX_RING_BUFFER_FRAMES = 1000"

text \<open>A slot: the packed header and the PCM area of \<open>352 * 2\<close> 16-bit samples.\<close>

record audio_frame =
  af_timestamp :: u32
  af_samples :: u16
  af_channels :: u8
  af_pcm :: "u16 list"

definition slot_pcm :: nat where "slot_pcm = AAC_FRAMES_PER_PACKET * AUDIO_MAX_CHANNELS"

record audio_buffer =
  ab_pool :: "audio_frame list option"
  ab_sorted :: "nat list"
  ab_free :: "nat list"
  ab_capacity :: nat
  ab_ready :: nat
  ab_decode_capacity :: "nat option"

record audio_stats =
  st_packets_received :: u32
  st_packets_decoded :: u32
  st_packets_dropped :: u32
  st_decrypt_errors :: u32
  st_buffer_underruns :: u32
  st_buffer_overruns :: u32
  st_late_frames :: u32
  st_last_seq :: u16
  st_last_timestamp :: u32

subsection \<open>Slots, timestamps and the insert position\<close>

definition slot_ptr :: "audio_buffer \<Rightarrow> nat \<Rightarrow> audio_frame mem" where
  "slot_ptr b slot = do { pool \<leftarrow> ab_pool b; rd pool slot }"

definition slot_timestamp :: "audio_buffer \<Rightarrow> nat \<Rightarrow> u32 mem" where
  "slot_timestamp b slot = map_option af_timestamp (slot_ptr b slot)"

definition ts_cmp :: "u32 \<Rightarrow> u32 \<Rightarrow> int" where
  "ts_cmp a b = sint (a - b)"

function sorted_insert_loop :: "audio_buffer \<Rightarrow> u32 \<Rightarrow> nat \<Rightarrow> nat \<Rightarrow> nat mem" where
  "sorted_insert_loop b timestamp lo hi =
    (if lo < hi then do {
       let mid = lo + (hi - lo) div 2;
       slot \<leftarrow> rd (ab_sorted b) mid;
       ts \<leftarrow> slot_timestamp b slot;
       if ts_cmp ts timestamp < 0 then sorted_insert_loop b timestamp (mid + 1) hi
       else sorted_insert_loop b timestamp lo mid
     }
     else Some lo)"
  by auto

termination
  by (relation "measure (\<lambda>(b, timestamp, lo, hi). hi - lo)") auto

declare sorted_insert_loop.simps [simp del]

definition sorted_insert_pos :: "audio_buffer \<Rightarrow> u32 \<Rightarrow> nat mem" where
  "sorted_insert_pos b timestamp = sorted_insert_loop b timestamp 0 (length (ab_sorted b))"

subsection \<open>Index arrays and the semaphore\<close>

definition push_free :: "nat \<Rightarrow> audio_buffer \<Rightarrow> audio_buffer mem" where
  "push_free slot b =
    (if length (ab_free b) \<ge> ab_capacity b then None
     else Some (b\<lparr>ab_free := slot # ab_free b\<rparr>))"

definition insert_sorted :: "nat \<Rightarrow> nat \<Rightarrow> audio_buffer \<Rightarrow> audio_buffer mem" where
  "insert_sorted pos slot b =
    (if length (ab_sorted b) \<ge> ab_capacity b then None
     else Some (b\<lparr>ab_sorted := take pos (ab_sorted b) @ slot # drop pos (ab_sorted b)\<rparr>))"

definition sem_take :: "audio_buffer \<Rightarrow> bool \<times> audio_buffer" where
  "sem_take b = (if ab_ready b > 0 then (True, b\<lparr>ab_ready := ab_ready b - 1\<rparr>) else (False, b))"

definition sem_give :: "audio_buffer \<Rightarrow> audio_buffer" where
  "sem_give b = (if ab_ready b < ab_capacity b then b\<lparr>ab_ready := ab_ready b + 1\<rparr> else b)"

subsection \<open>Inserting a chunk\<close>

text \<open>The overflow loop: drop the oldest frames while the buffer is full.\<close>

function drain_oldest :: "audio_buffer \<Rightarrow> audio_buffer mem" where
  "drain_oldest b =
    (case ab_sorted b of
       [] \<Rightarrow> Some b
     | victim # rest \<Rightarrow>
         if length (ab_sorted b) \<ge> ab_capacity b then do {
           b' \<leftarrow> push_free victim (b\<lparr>ab_sorted := rest\<rparr>);
           drain_oldest (snd (sem_take b'))
         }
         else Some b)"
  by auto

termination
  by (relation "measure (\<lambda>b. length (ab_sorted b))")
    (auto simp: push_free_def sem_take_def split: if_splits)

declare drain_oldest.simps [simp del]

text \<open>The critical section: no result when no slot is free.\<close>

definition queue_critical ::
  "audio_buffer \<Rightarrow> u32 \<Rightarrow> u16 list \<Rightarrow> nat \<Rightarrow> nat \<Rightarrow> (bool \<times> audio_buffer) mem" where
  "queue_critical b timestamp pcm samples channels = do {
     b \<leftarrow> drain_oldest b;
     case ab_free b of
       [] \<Rightarrow> Some (False, b)
     | slot # free \<Rightarrow> do {
         let b = b\<lparr>ab_free := free\<rparr>;
         pool \<leftarrow> ab_pool b;
         dest \<leftarrow> rd pool slot;
         bs \<leftarrow> rd_block pcm 0 (samples * channels);
         area \<leftarrow> wr (af_pcm dest) 0 bs;
         let b = b\<lparr>ab_pool := Some (pool[slot := \<lparr>af_timestamp = timestamp,
           af_samples = of_nat samples, af_channels = of_nat channels, af_pcm = area\<rparr>])\<rparr>;
         pos \<leftarrow> sorted_insert_pos b timestamp;
         b \<leftarrow> insert_sorted pos slot b;
         Some (True, b)
       }
   }"

definition bump_underruns :: "audio_stats option \<Rightarrow> audio_stats option" where
  "bump_underruns = map_option (\<lambda>s. s\<lparr>st_buffer_underruns := st_buffer_underruns s + 1\<rparr>)"

definition bump_decoded :: "audio_stats option \<Rightarrow> audio_stats option" where
  "bump_decoded = map_option (\<lambda>s. s\<lparr>st_packets_decoded := st_packets_decoded s + 1\<rparr>)"

definition audio_buffer_queue_chunk ::
  "audio_buffer \<Rightarrow> audio_stats option \<Rightarrow> u32 \<Rightarrow> u16 list \<Rightarrow> nat \<Rightarrow> nat \<Rightarrow>
    (bool \<times> audio_buffer \<times> audio_stats option) mem" where
  "audio_buffer_queue_chunk b stats timestamp pcm samples channels =
    (if samples = 0 then Some (False, b, stats)
     else do {
       (ok, b) \<leftarrow> queue_critical b timestamp pcm samples channels;
       if \<not> ok then Some (False, b, bump_underruns stats)
       else Some (True, sem_give b, bump_decoded stats)
     })"

text \<open>The splitting loop; \<open>pcm\<close> is the data from \<open>pcm_data + offset * channels\<close> on.\<close>

function queue_decoded_loop ::
  "audio_buffer \<Rightarrow> audio_stats option \<Rightarrow> u32 \<Rightarrow> u16 list \<Rightarrow> nat \<Rightarrow> nat \<Rightarrow>
    (bool \<times> audio_buffer \<times> audio_stats option) mem" where
  "queue_decoded_loop b stats chunk_timestamp pcm samples channels =
    (if samples > 0 then do {
       let chunk_samples = (if samples > AAC_FRAMES_PER_PACKET then AAC_FRAMES_PER_PACKET else samples);
       (ok, b, stats) \<leftarrow> audio_buffer_queue_chunk b stats chunk_timestamp pcm chunk_samples channels;
       if \<not> ok then Some (False, b, stats)
       else queue_decoded_loop b stats (chunk_timestamp + of_nat chunk_samples)
         (drop (chunk_samples * channels) pcm) (samples - chunk_samples) channels
     }
     else Some (True, b, stats))"
  by auto

termination
  by (relation "measure (\<lambda>(b, stats, ts, pcm, samples, channels). samples)")
    (auto simp: AAC_FRAMES_PER_PACKET_def)

declare queue_decoded_loop.simps [simp del]

definition audio_buffer_queue_decoded ::
  "audio_buffer \<Rightarrow> audio_stats option \<Rightarrow> u32 \<Rightarrow> u16 list \<Rightarrow> nat \<Rightarrow> int \<Rightarrow>
    (bool \<times> audio_buffer \<times> audio_stats option) mem" where
  "audio_buffer_queue_decoded b stats timestamp pcm samples channels =
    (if samples = 0 then Some (False, b, stats)
     else let channels = (if channels \<le> 0 then 2 else channels) in
       queue_decoded_loop b stats timestamp pcm samples (nat channels))"

subsection \<open>Creation and release\<close>

definition audio_buffer_deinit :: "audio_buffer \<Rightarrow> audio_buffer" where
  "audio_buffer_deinit b = b\<lparr>ab_pool := None, ab_sorted := [], ab_free := [],
     ab_ready := 0, ab_decode_capacity := None\<rparr>"

text \<open>
  The allocations are the arguments: the memory of the pool, and whether the index arrays, the
  semaphore and the frame buffer could be allocated.
\<close>

definition audio_buffer_init ::
  "audio_frame list option \<Rightarrow> bool \<Rightarrow> bool \<Rightarrow> bool \<Rightarrow> esp_err \<times> audio_buffer" where
  "audio_buffer_init pool arrays semaphore frame_buffer =
    (let b = \<lparr>ab_pool = pool, ab_sorted = [], ab_free = [], ab_capacity = MAX_RING_BUFFER_FRAMES,
              ab_ready = 0, ab_decode_capacity = None\<rparr> in
     if pool = None then (ESP_ERR_NO_MEM, b)
     else if \<not> arrays then (ESP_ERR_NO_MEM, audio_buffer_deinit b)
     else let b = b\<lparr>ab_free := rev [0..<ab_capacity b]\<rparr> in
       if \<not> semaphore then (ESP_ERR_NO_MEM, audio_buffer_deinit b)
       else if \<not> frame_buffer then (ESP_ERR_NO_MEM, audio_buffer_deinit b)
       else (ESP_OK, b\<lparr>ab_decode_capacity := Some MAX_SAMPLES_PER_FRAME\<rparr>))"

subsection \<open>Flush and queries\<close>

fun free_all :: "nat list \<Rightarrow> audio_buffer \<Rightarrow> audio_buffer mem" where
  "free_all [] b = Some b"
| "free_all (slot # slots) b = do { b \<leftarrow> push_free slot b; free_all slots b }"

definition flush_critical :: "audio_buffer \<Rightarrow> audio_buffer mem" where
  "flush_critical b = do {
     b \<leftarrow> free_all (ab_sorted b) b;
     Some (b\<lparr>ab_sorted := []\<rparr>)
   }"

text \<open>The drain loop takes tokens until none is left.\<close>

definition drain_semaphore :: "audio_buffer \<Rightarrow> audio_buffer" where
  "drain_semaphore b = b\<lparr>ab_ready := 0\<rparr>"

definition audio_buffer_flush :: "audio_buffer \<Rightarrow> audio_buffer mem" where
  "audio_buffer_flush b =
    (if ab_pool b = None then Some b
     else do { b \<leftarrow> flush_critical b; Some (drain_semaphore b) })"

definition audio_buffer_get_frame_count :: "audio_buffer \<Rightarrow> nat" where
  "audio_buffer_get_frame_count b = length (ab_sorted b)"

definition audio_buffer_peek_newest_rtp :: "audio_buffer \<Rightarrow> u32 option mem" where
  "audio_buffer_peek_newest_rtp b =
    (if ab_pool b = None then Some None
     else if length (ab_sorted b) > 0 then do {
       slot \<leftarrow> rd (ab_sorted b) (length (ab_sorted b) - 1);
       map_option Some (slot_timestamp b slot)
     }
     else Some None)"

fun bulk_loop :: "audio_buffer \<Rightarrow> nat \<Rightarrow> u32 \<Rightarrow> u32 mem" where
  "bulk_loop b 0 bulk = Some bulk"
| "bulk_loop b (Suc i) bulk = do {
     pslot \<leftarrow> rd (ab_sorted b) i;
     prev \<leftarrow> slot_ptr b pslot;
     if af_timestamp prev + ucast (af_samples prev) \<noteq> bulk then Some bulk
     else bulk_loop b i (af_timestamp prev)
   }"

definition audio_buffer_bulk_start_rtp :: "audio_buffer \<Rightarrow> u32 option mem" where
  "audio_buffer_bulk_start_rtp b =
    (if ab_pool b = None then Some None
     else if length (ab_sorted b) > 0 then do {
       slot \<leftarrow> rd (ab_sorted b) (length (ab_sorted b) - 1);
       cur \<leftarrow> slot_ptr b slot;
       map_option Some (bulk_loop b (length (ab_sorted b) - 1) (af_timestamp cur))
     }
     else Some None)"

definition audio_buffer_is_nearly_full :: "audio_buffer \<Rightarrow> bool" where
  "audio_buffer_is_nearly_full b \<longleftrightarrow> length (ab_sorted b) > ab_capacity b * 9 div 10"

definition audio_buffer_get_decode_buffer :: "audio_buffer \<Rightarrow> nat" where
  "audio_buffer_get_decode_buffer b = (case ab_decode_capacity b of None \<Rightarrow> 0 | Some n \<Rightarrow> n)"

definition audio_buffer_oldest_timestamp :: "audio_buffer \<Rightarrow> u32 option mem" where
  "audio_buffer_oldest_timestamp b =
    (if ab_pool b = None then Some None
     else case ab_sorted b of
       [] \<Rightarrow> Some None
     | slot # _ \<Rightarrow> map_option Some (slot_timestamp b slot))"

subsection \<open>Taking and returning a slot\<close>

definition take_critical :: "audio_buffer \<Rightarrow> nat option \<times> audio_buffer" where
  "take_critical b =
    (case ab_sorted b of
       [] \<Rightarrow> (None, b)
     | slot # rest \<Rightarrow> (Some slot, b\<lparr>ab_sorted := rest\<rparr>))"

text \<open>
  The consumer's take with its wait run out: no token means no frame. The result is the slot
  and the size of the item, \<open>8\<close> header bytes and the PCM bytes.
\<close>

definition audio_buffer_take :: "audio_buffer \<Rightarrow> ((nat \<times> nat) option \<times> audio_buffer) mem" where
  "audio_buffer_take b =
    (if ab_pool b = None then Some (None, b)
     else let (ok, b) = sem_take b in
       if \<not> ok then Some (None, b)
       else let (slot, b) = take_critical b in
         case slot of
           None \<Rightarrow> Some (None, b)
         | Some slot \<Rightarrow> do {
             hdr \<leftarrow> slot_ptr b slot;
             Some (Some (slot, 8 + unat (af_samples hdr) * unat (af_channels hdr) * 2), b)
           })"

definition audio_buffer_return :: "audio_buffer \<Rightarrow> nat \<Rightarrow> audio_buffer mem" where
  "audio_buffer_return b slot = (if ab_pool b = None then Some b else push_free slot b)"

subsection \<open>The slot invariant\<close>

text \<open>
  Every slot is in exactly one place: queued, free, or in the hands of the consumer (\<open>held\<close>). The
  decode buffer, when there is one, has the size it was created with.
\<close>

definition decode_area_ok :: "nat option \<Rightarrow> bool" where
  "decode_area_ok c \<longleftrightarrow> c = None \<or> c = Some MAX_SAMPLES_PER_FRAME"

lemma decode_area_ok_simps [simp]: "decode_area_ok None" "decode_area_ok (Some MAX_SAMPLES_PER_FRAME)"
  by (simp_all add: decode_area_ok_def)

definition ab_ok :: "audio_buffer \<Rightarrow> nat list \<Rightarrow> bool" where
  "ab_ok b held \<longleftrightarrow> (\<exists>pool. ab_pool b = Some pool \<and> length pool = ab_capacity b \<and>
      (\<forall>f\<in>set pool. length (af_pcm f) = slot_pcm)) \<and>
    mset (ab_sorted b @ ab_free b @ held) = mset [0..<ab_capacity b] \<and>
    decode_area_ok (ab_decode_capacity b)"

lemma ab_okD:
  assumes "ab_ok b held"
  shows "length (ab_sorted b) + length (ab_free b) + length held = ab_capacity b"
    and "distinct (ab_sorted b @ ab_free b @ held)"
    and "set (ab_sorted b) \<union> set (ab_free b) \<union> set held = {..<ab_capacity b}"
proof -
  have m: "mset (ab_sorted b @ ab_free b @ held) = mset [0..<ab_capacity b]"
    using assms by (simp add: ab_ok_def)
  show "length (ab_sorted b) + length (ab_free b) + length held = ab_capacity b"
    using arg_cong [OF m, of size] by simp
  show "distinct (ab_sorted b @ ab_free b @ held)"
    using mset_eq_imp_distinct_iff [OF m] by simp
  show "set (ab_sorted b) \<union> set (ab_free b) \<union> set held = {..<ab_capacity b}"
    using mset_eq_setD [OF m] by (simp add: Un_assoc lessThan_atLeast0)
qed

lemma ab_ok_pool:
  assumes "ab_ok b held"
  obtains pool where "ab_pool b = Some pool" "length pool = ab_capacity b"
    "\<And>i. i < ab_capacity b \<Longrightarrow> length (af_pcm (pool ! i)) = slot_pcm"
  using assms by (auto simp: ab_ok_def all_set_conv_all_nth)

lemma slot_ptr_ok:
  assumes "ab_ok b held" "slot < ab_capacity b"
  shows "\<exists>f. slot_ptr b slot = Some f"
  using assms by (elim ab_ok_pool) (simp add: slot_ptr_def)

lemma ab_ok_perm:
  "ab_ok b held \<Longrightarrow> ab_pool b' = ab_pool b \<Longrightarrow> ab_capacity b' = ab_capacity b \<Longrightarrow>
    ab_decode_capacity b' = ab_decode_capacity b \<Longrightarrow>
    mset (ab_sorted b' @ ab_free b' @ held') = mset (ab_sorted b @ ab_free b @ held) \<Longrightarrow> ab_ok b' held'"
  unfolding ab_ok_def by (simp only:)

subsection \<open>Every operation keeps the slots apart\<close>

lemma ab_sorted_valid: "ab_ok b held \<Longrightarrow> slot \<in> set (ab_sorted b) \<Longrightarrow> slot < ab_capacity b"
  using ab_okD(3) [of b held] by blast

lemma ab_free_valid: "ab_ok b held \<Longrightarrow> slot \<in> set (ab_free b) \<Longrightarrow> slot < ab_capacity b"
  using ab_okD(3) [of b held] by blast

lemma slot_timestamp_ok:
  "ab_ok b held \<Longrightarrow> slot < ab_capacity b \<Longrightarrow> \<exists>ts. slot_timestamp b slot = Some ts"
  using slot_ptr_ok [of b held slot] by (auto simp: slot_timestamp_def)

lemma sem_take_frame [simp]:
  "ab_pool (snd (sem_take b)) = ab_pool b" "ab_sorted (snd (sem_take b)) = ab_sorted b"
  "ab_free (snd (sem_take b)) = ab_free b" "ab_capacity (snd (sem_take b)) = ab_capacity b"
  "ab_decode_capacity (snd (sem_take b)) = ab_decode_capacity b"
  by (simp_all add: sem_take_def)

lemma sem_give_frame [simp]:
  "ab_pool (sem_give b) = ab_pool b" "ab_sorted (sem_give b) = ab_sorted b"
  "ab_free (sem_give b) = ab_free b" "ab_capacity (sem_give b) = ab_capacity b"
  "ab_decode_capacity (sem_give b) = ab_decode_capacity b"
  by (simp_all add: sem_give_def)

lemma ab_ok_sem [simp]: "ab_ok (sem_give b) held = ab_ok b held" "ab_ok (snd (sem_take b)) held = ab_ok b held"
  by (simp_all add: ab_ok_def)

text \<open>The overflow loop runs at most once: the queue is full only when no slot is elsewhere.\<close>

lemma drain_oldest_eq:
  assumes "ab_ok b held"
  shows "drain_oldest b =
    (if ab_capacity b \<noteq> 0 \<and> length (ab_sorted b) = ab_capacity b
     then Some (snd (sem_take (b\<lparr>ab_sorted := tl (ab_sorted b), ab_free := [hd (ab_sorted b)]\<rparr>)))
     else Some b)"
proof (cases "ab_sorted b")
  case Nil
  then show ?thesis by (subst drain_oldest.simps) auto
next
  case (Cons v rest)
  note len = ab_okD(1) [OF assms]
  show ?thesis
  proof (cases "length (ab_sorted b) = ab_capacity b")
    case False
    then show ?thesis using Cons len by (subst drain_oldest.simps) auto
  next
    case True
    then have free: "ab_free b = []" "0 < ab_capacity b" using len Cons by auto
    let ?b' = "snd (sem_take (b\<lparr>ab_sorted := rest, ab_free := [v]\<rparr>))"
    have "length rest < ab_capacity b" using True Cons by simp
    then have stop: "drain_oldest ?b' = Some ?b'"
      by (subst drain_oldest.simps) (auto split: list.split)
    have "push_free v (b\<lparr>ab_sorted := rest\<rparr>) = Some (b\<lparr>ab_sorted := rest, ab_free := [v]\<rparr>)"
      using free by (simp add: push_free_def)
    then have "drain_oldest b = drain_oldest ?b'"
      using True Cons by (subst drain_oldest.simps) simp
    then show ?thesis using stop True Cons free by simp
  qed
qed

lemma drain_oldest_ok:
  assumes "ab_ok b held"
  obtains b' where "drain_oldest b = Some b'" "ab_ok b' held" "ab_pool b' = ab_pool b"
    "ab_capacity b' = ab_capacity b" "length (ab_sorted b') < ab_capacity b \<or> ab_capacity b = 0"
    "held = [] \<Longrightarrow> 0 < ab_capacity b \<Longrightarrow> ab_free b' \<noteq> []"
    "ab_sorted b' = ab_sorted b \<or> ab_sorted b' = tl (ab_sorted b)"
proof (cases "ab_capacity b \<noteq> 0 \<and> length (ab_sorted b) = ab_capacity b")
  case True
  let ?b = "b\<lparr>ab_sorted := tl (ab_sorted b), ab_free := [hd (ab_sorted b)]\<rparr>"
  obtain v rest where s: "ab_sorted b = v # rest" using True by (cases "ab_sorted b") auto
  have free: "ab_free b = []" "held = []" using ab_okD(1) [OF assms] True by auto
  have "ab_ok ?b held" by (rule ab_ok_perm [OF assms]) (simp_all add: s free)
  then show thesis
    using that [of "snd (sem_take ?b)"] True s by (simp add: drain_oldest_eq [OF assms])
next
  case False
  have len: "length (ab_sorted b) < ab_capacity b \<or> ab_capacity b = 0"
    and free: "held = [] \<Longrightarrow> 0 < ab_capacity b \<Longrightarrow> ab_free b \<noteq> []"
    using False ab_okD(1) [OF assms] by auto
  have "drain_oldest b = Some b" using False by (auto simp: drain_oldest_eq [OF assms])
  then show thesis using that [of b] assms len free by blast
qed

lemma sorted_insert_loop_bounds:
  assumes "ab_ok b held" "lo \<le> hi" "hi \<le> length (ab_sorted b)"
  shows "\<exists>pos. sorted_insert_loop b ts lo hi = Some pos \<and> lo \<le> pos \<and> pos \<le> hi"
  using assms(2,3)
proof (induction "hi - lo" arbitrary: lo hi rule: less_induct)
  case less
  show ?case
  proof (cases "lo < hi")
    case False
    then show ?thesis using less.prems by (subst sorted_insert_loop.simps) simp
  next
    case True
    let ?mid = "lo + (hi - lo) div 2"
    have mid: "?mid < hi" "lo \<le> ?mid" using True by auto
    then have "ab_sorted b ! ?mid < ab_capacity b"
      using less.prems by (intro ab_sorted_valid [OF assms(1)]) simp
    then obtain t where t: "slot_timestamp b (ab_sorted b ! ?mid) = Some t"
      using slot_timestamp_ok [OF assms(1)] by blast
    have "\<exists>pos. sorted_insert_loop b ts (?mid + 1) hi = Some pos \<and> ?mid + 1 \<le> pos \<and> pos \<le> hi"
      using mid less.prems by (intro less.hyps) auto
    moreover have "\<exists>pos. sorted_insert_loop b ts lo ?mid = Some pos \<and> lo \<le> pos \<and> pos \<le> ?mid"
      using mid less.prems by (intro less.hyps) auto
    ultimately show ?thesis
      using True t mid less.prems by (subst sorted_insert_loop.simps) (auto simp: Let_def)
  qed
qed

text \<open>What the critical section of an insertion does to a well-formed buffer.\<close>

definition frame_of :: "u32 \<Rightarrow> u16 list \<Rightarrow> nat \<Rightarrow> nat \<Rightarrow> u16 list \<Rightarrow> audio_frame" where
  "frame_of timestamp pcm samples channels area = \<lparr>af_timestamp = timestamp,
     af_samples = of_nat samples, af_channels = of_nat channels,
     af_pcm = put_at area 0 (take (samples * channels) pcm)\<rparr>"

lemma queue_critical_cases:
  assumes "ab_ok b held" "samples * channels \<le> slot_pcm" "samples * channels \<le> length pcm"
  obtains b1 where "drain_oldest b = Some b1" "ab_free b1 = []"
      "queue_critical b ts pcm samples channels = Some (False, b1)" "ab_ok b1 held" "held \<noteq> [] \<or> ab_capacity b = 0"
  | b1 b2 slot free pool pos where "drain_oldest b = Some b1" "ab_ok b1 held" "ab_free b1 = slot # free"
      "ab_pool b1 = Some pool" "slot < length pool" "length pool = ab_capacity b"
      "b2 = b1\<lparr>ab_free := free, ab_pool := Some (pool[slot := frame_of ts pcm samples channels (af_pcm (pool ! slot))])\<rparr>"
      "sorted_insert_pos b2 ts = Some pos" "pos \<le> length (ab_sorted b1)"
      "queue_critical b ts pcm samples channels = Some (True,
        b2\<lparr>ab_sorted := take pos (ab_sorted b1) @ slot # drop pos (ab_sorted b1)\<rparr>)"
      "ab_ok (b2\<lparr>ab_sorted := take pos (ab_sorted b1) @ slot # drop pos (ab_sorted b1)\<rparr>) held"
proof -
  obtain b1 where b1: "drain_oldest b = Some b1" "ab_ok b1 held" "ab_pool b1 = ab_pool b"
    "ab_capacity b1 = ab_capacity b" "length (ab_sorted b1) < ab_capacity b \<or> ab_capacity b = 0"
    "held = [] \<Longrightarrow> 0 < ab_capacity b \<Longrightarrow> ab_free b1 \<noteq> []"
    using drain_oldest_ok [OF assms(1)] by metis
  show thesis
  proof (cases "ab_free b1")
    case Nil
    then show thesis using that(1) [OF b1(1)] b1 by (auto simp: queue_critical_def)
  next
    case (Cons slot free)
    obtain pool where pool: "ab_pool b1 = Some pool" "length pool = ab_capacity b1"
      "\<And>i. i < ab_capacity b1 \<Longrightarrow> length (af_pcm (pool ! i)) = slot_pcm"
      using ab_ok_pool [OF b1(2)] by metis
    have slot: "slot < ab_capacity b1" using ab_free_valid [OF b1(2)] Cons by simp
    let ?f = "frame_of ts pcm samples channels (af_pcm (pool ! slot))"
    define b2 where "b2 = b1\<lparr>ab_free := free, ab_pool := Some (pool[slot := ?f])\<rparr>"
    have area: "length (af_pcm ?f) = slot_pcm"
      using pool(3) [OF slot] assms(2,3) by (simp add: frame_of_def)
    have "\<forall>f\<in>set (pool[slot := ?f]). length (af_pcm f) = slot_pcm"
      using pool(2,3) area slot by (auto simp: all_set_conv_all_nth nth_list_update)
    then have b2: "ab_ok b2 (slot # held)"
      using b1(2) Cons pool(2) by (auto simp: ab_ok_def b2_def)
    obtain pos where pos: "sorted_insert_pos b2 ts = Some pos" "pos \<le> length (ab_sorted b2)"
      using sorted_insert_loop_bounds [OF b2, of 0 "length (ab_sorted b2)" ts]
      by (auto simp: sorted_insert_pos_def)
    let ?b3 = "b2\<lparr>ab_sorted := take pos (ab_sorted b1) @ slot # drop pos (ab_sorted b1)\<rparr>"
    have room: "length (ab_sorted b2) < ab_capacity b2"
      using ab_okD(1) [OF b2] by simp
    have split: "mset (ab_sorted b1) = mset (take pos (ab_sorted b1)) + mset (drop pos (ab_sorted b1))"
      by (simp flip: mset_append)
    have b3: "ab_ok ?b3 held"
      by (rule ab_ok_perm [OF b2]) (simp_all add: b2_def split)
    have wr: "wr (af_pcm (pool ! slot)) 0 (take (samples * channels) pcm) =
        Some (put_at (af_pcm (pool ! slot)) 0 (take (samples * channels) pcm))"
      using pool(3) [OF slot] assms(2,3) by (simp add: wr_put)
    have "queue_critical b ts pcm samples channels = Some (True, ?b3)"
      using b1(1) Cons pool slot assms(3) wr pos(1) room
      by (simp add: queue_critical_def Let_def b2_def frame_of_def insert_sorted_def)
    then show thesis
      using that(2) [OF b1(1,2) Cons pool(1) _ _ b2_def pos(1)] pos(2) slot pool(2) b1(4) b3
      by (simp add: b2_def)
  qed
qed

lemma take_critical_ok:
  assumes "ab_ok b held" "take_critical b = (r, b')"
  shows "ab_ok b' (case r of None \<Rightarrow> held | Some slot \<Rightarrow> slot # held)"
    and "ab_pool b' = ab_pool b" and "ab_capacity b' = ab_capacity b"
  using assms by (auto simp: take_critical_def ab_ok_def split: list.splits)

lemma push_free_ok:
  assumes "ab_ok b held" "slot \<in> set held"
  shows "\<exists>b'. push_free slot b = Some b' \<and> ab_ok b' (remove1 slot held) \<and> ab_pool b' = ab_pool b \<and>
    ab_capacity b' = ab_capacity b"
proof -
  have "length (ab_free b) < ab_capacity b"
    using ab_okD(1) [OF assms(1)] assms(2) by (cases held) auto
  then have "push_free slot b = Some (b\<lparr>ab_free := slot # ab_free b\<rparr>)" by (simp add: push_free_def)
  moreover have "ab_ok (b\<lparr>ab_free := slot # ab_free b\<rparr>) (remove1 slot held)"
    using assms(2) by (intro ab_ok_perm [OF assms(1)]) (simp_all add: insert_DiffM)
  ultimately show ?thesis by simp
qed

lemma free_all_eq:
  "length (ab_free b) + length slots \<le> ab_capacity b \<Longrightarrow>
    free_all slots b = Some (b\<lparr>ab_free := rev slots @ ab_free b\<rparr>)"
proof (induction slots arbitrary: b)
  case (Cons slot slots)
  then show ?case using Cons.IH [of "b\<lparr>ab_free := slot # ab_free b\<rparr>"] by (simp add: push_free_def)
qed simp

lemma flush_critical_ok:
  assumes "ab_ok b held"
  shows "flush_critical b = Some (b\<lparr>ab_sorted := [], ab_free := rev (ab_sorted b) @ ab_free b\<rparr>)"
    and "ab_ok (b\<lparr>ab_sorted := [], ab_free := rev (ab_sorted b) @ ab_free b\<rparr>) held"
proof -
  show "flush_critical b = Some (b\<lparr>ab_sorted := [], ab_free := rev (ab_sorted b) @ ab_free b\<rparr>)"
    using ab_okD(1) [OF assms] by (simp add: flush_critical_def free_all_eq)
  show "ab_ok (b\<lparr>ab_sorted := [], ab_free := rev (ab_sorted b) @ ab_free b\<rparr>) held"
    by (rule ab_ok_perm [OF assms]) simp_all
qed

lemma audio_buffer_init_ok:
  assumes "length pool = MAX_RING_BUFFER_FRAMES" "\<forall>f\<in>set pool. length (af_pcm f) = slot_pcm"
  shows "audio_buffer_init (Some pool) True True True = (ESP_OK, b) \<Longrightarrow> ab_ok b []"
  using assms by (auto simp: audio_buffer_init_def ab_ok_def Let_def)

subsection \<open>Insertions and removals as a whole\<close>

text \<open>
  A chunk insertion is safe and keeps every slot in exactly one place: on a well-formed buffer,
  for a chunk that fits a slot, \<open>audio_buffer_queue_chunk\<close> stays inside the pool and the index
  arrays, and it fails only for an empty chunk or when the consumer holds every slot that is not
  queued.
\<close>

theorem queue_chunk_keeps_slots:
  assumes "ab_ok b held" "samples * channels \<le> slot_pcm" "samples * channels \<le> length pcm"
  shows "\<exists>ok b' stats'. audio_buffer_queue_chunk b stats timestamp pcm samples channels =
      Some (ok, b', stats') \<and> ab_ok b' held \<and>
    (\<not> ok \<longrightarrow> samples = 0 \<or> held \<noteq> [] \<or> ab_capacity b = 0)"
proof (cases "samples = 0")
  case True
  then show ?thesis using assms(1) by (simp add: audio_buffer_queue_chunk_def ex_bool_eq)
next
  case False
  from assms show ?thesis
    by (cases rule: queue_critical_cases [where ts = timestamp])
      (use False in \<open>auto simp: audio_buffer_queue_chunk_def\<close>)
qed

lemma queue_chunk_keeps_slots_witness:
  "\<exists>ok b' stats'. audio_buffer_queue_chunk \<lparr>ab_pool = Some [frame_of 0 [] 0 0 (replicate slot_pcm 0)],
      ab_sorted = [], ab_free = [0], ab_capacity = 1, ab_ready = 0, ab_decode_capacity = None\<rparr>
      None 7 [1, 2] 1 2 = Some (ok, b', stats') \<and> ok"
proof -
  let ?b = "\<lparr>ab_pool = Some [frame_of 0 [] 0 0 (replicate slot_pcm 0)],
      ab_sorted = [], ab_free = [0], ab_capacity = 1, ab_ready = 0, ab_decode_capacity = None\<rparr>"
  have "ab_ok ?b []" by (simp add: ab_ok_def frame_of_def)
  from queue_chunk_keeps_slots [OF this, of 1 2 "[1, 2]" None 7] show ?thesis
    by (auto simp: slot_pcm_def AAC_FRAMES_PER_PACKET_def AUDIO_MAX_CHANNELS_def)
qed

end
