(* ===== verification/Audio_Order.thy ===== *)
theory Audio_Order
  imports Audio_Buffer
begin

section \<open>The order of the jitter buffer (main/audio/audio_buffer.c)\<close>

text \<open>
  RTP timestamps wrap at \<open>2 ^ 32\<close> and are compared by the sign of their difference, which orders
  them correctly as long as all of them lie in a window of \<open>2 ^ 31\<close> from some base. Under that
  assumption the binary search keeps the queue sorted, and the buffer is a priority queue: the
  locale \<open>timed_queue\<close> is what the playback side relies on, interpreted on the buffer's own
  operations.
\<close>

subsection \<open>Timestamps in a window\<close>

definition ts_key :: "u32 \<Rightarrow> u32 \<Rightarrow> nat" where
  "ts_key base ts = unat (ts - base)"

definition in_window :: "u32 \<Rightarrow> u32 \<Rightarrow> bool" where
  "in_window base ts \<longleftrightarrow> ts_key base ts < 2 ^ 31"

lemma ts_cmp_eq:
  assumes "in_window base a" "in_window base b"
  shows "ts_cmp a b = int (ts_key base a) - int (ts_key base b)"
proof -
  let ?z = "int (ts_key base a) - int (ts_key base b)"
  have "a - b = (a - base) - (b - base)" by simp
  also have "\<dots> = word_of_int ?z"
    by (simp add: ts_key_def of_nat_diff)
  finally have "ts_cmp a b = sint (word_of_int ?z :: u32)" by (simp add: ts_cmp_def)
  also have "\<dots> = signed_take_bit 31 ?z" by (simp only: signed_of_int) simp
  also have "\<dots> = ?z" using assms by (intro signed_take_bit_int_eq_self) (simp_all add: in_window_def)
  finally show ?thesis .
qed

lemma ts_cmp_less:
  "in_window base a \<Longrightarrow> in_window base b \<Longrightarrow> ts_cmp a b < 0 \<longleftrightarrow> ts_key base a < ts_key base b"
  by (simp add: ts_cmp_eq)

subsection \<open>The queued frames\<close>

definition frames_of :: "audio_buffer \<Rightarrow> nat list \<Rightarrow> audio_frame list" where
  "frames_of b slots = map (\<lambda>slot. the (ab_pool b) ! slot) slots"

definition queued :: "audio_buffer \<Rightarrow> audio_frame list" where
  "queued b = frames_of b (ab_sorted b)"

definition frame_key :: "u32 \<Rightarrow> audio_frame \<Rightarrow> nat" where
  "frame_key base f = ts_key base (af_timestamp f)"

definition ordered :: "u32 \<Rightarrow> audio_buffer \<Rightarrow> bool" where
  "ordered base b \<longleftrightarrow> (\<forall>f\<in>set (queued b). in_window base (af_timestamp f)) \<and>
     sorted (map (frame_key base) (queued b))"

lemma queued_sem [simp]: "queued (sem_give b) = queued b" "queued (snd (sem_take b)) = queued b"
  by (simp_all add: queued_def frames_of_def)

lemma ordered_sem [simp]: "ordered base (sem_give b) = ordered base b"
  "ordered base (snd (sem_take b)) = ordered base b"
  by (simp_all add: ordered_def)

lemma slot_ptr_eq:
  assumes "ab_ok b held" "slot < ab_capacity b"
  shows "slot_ptr b slot = Some (the (ab_pool b) ! slot)"
  using assms by (elim ab_ok_pool) (simp add: slot_ptr_def)

lemma slot_timestamp_eq:
  assumes "ab_ok b held" "i < length (ab_sorted b)"
  shows "slot_timestamp b (ab_sorted b ! i) = Some (af_timestamp (queued b ! i))"
proof -
  have "ab_sorted b ! i < ab_capacity b" using assms by (intro ab_sorted_valid [OF assms(1)]) simp
  then show ?thesis
    using assms(2) by (simp add: slot_timestamp_def slot_ptr_eq [OF assms(1)] queued_def frames_of_def)
qed

text \<open>The binary search finds the first frame that is not older.\<close>

lemma sorted_insert_loop_pos:
  assumes "ab_ok b held" "ordered base b" "in_window base ts"
    and "lo \<le> hi" "hi \<le> length (ab_sorted b)"
    and "\<forall>i<lo. frame_key base (queued b ! i) < ts_key base ts"
    and "\<forall>i. hi \<le> i \<and> i < length (ab_sorted b) \<longrightarrow> ts_key base ts \<le> frame_key base (queued b ! i)"
  shows "\<exists>pos. sorted_insert_loop b ts lo hi = Some pos \<and> pos \<le> length (ab_sorted b) \<and>
    (\<forall>i<pos. frame_key base (queued b ! i) < ts_key base ts) \<and>
    (\<forall>i. pos \<le> i \<and> i < length (ab_sorted b) \<longrightarrow> ts_key base ts \<le> frame_key base (queued b ! i))"
  using assms(4-7)
proof (induction "hi - lo" arbitrary: lo hi rule: less_induct)
  case less
  have len: "length (queued b) = length (ab_sorted b)" by (simp add: queued_def frames_of_def)
  show ?case
  proof (cases "lo < hi")
    case False
    then show ?thesis using less.prems by (subst sorted_insert_loop.simps) simp
  next
    case True
    let ?mid = "lo + (hi - lo) div 2"
    have mid: "?mid < hi" "lo \<le> ?mid" "?mid < length (ab_sorted b)" using True less.prems by auto
    have ts: "slot_timestamp b (ab_sorted b ! ?mid) = Some (af_timestamp (queued b ! ?mid))"
      using slot_timestamp_eq [OF assms(1) mid(3)] .
    have srt: "frame_key base (queued b ! i) \<le> frame_key base (queued b ! j)"
      if "i \<le> j" "j < length (ab_sorted b)" for i j
      using assms(2) that len sorted_nth_mono [of "map (frame_key base) (queued b)" i j]
      by (simp add: ordered_def)
    have "in_window base (af_timestamp (queued b ! ?mid))"
      using assms(2) mid(3) len by (simp add: ordered_def)
    then have cmp: "ts_cmp (af_timestamp (queued b ! ?mid)) ts < 0 \<longleftrightarrow>
        frame_key base (queued b ! ?mid) < ts_key base ts"
      using assms(3) by (simp add: ts_cmp_less frame_key_def)
    show ?thesis
    proof (cases "frame_key base (queued b ! ?mid) < ts_key base ts")
      case older: True
      then have "\<forall>i<?mid + 1. frame_key base (queued b ! i) < ts_key base ts"
        using srt mid(3) by (metis le_less_trans less_Suc_eq_le Suc_eq_plus1)
      then have "\<exists>pos. sorted_insert_loop b ts (?mid + 1) hi = Some pos \<and> pos \<le> length (ab_sorted b) \<and>
          (\<forall>i<pos. frame_key base (queued b ! i) < ts_key base ts) \<and>
          (\<forall>i. pos \<le> i \<and> i < length (ab_sorted b) \<longrightarrow> ts_key base ts \<le> frame_key base (queued b ! i))"
        using mid less.prems by (intro less.hyps) auto
      then show ?thesis
        using True mid ts cmp older by (subst sorted_insert_loop.simps) (simp add: Let_def)
    next
      case newer: False
      then have "\<forall>i. ?mid \<le> i \<and> i < length (ab_sorted b) \<longrightarrow> ts_key base ts \<le> frame_key base (queued b ! i)"
        using srt by (metis le_trans not_le)
      then have "\<exists>pos. sorted_insert_loop b ts lo ?mid = Some pos \<and> pos \<le> length (ab_sorted b) \<and>
          (\<forall>i<pos. frame_key base (queued b ! i) < ts_key base ts) \<and>
          (\<forall>i. pos \<le> i \<and> i < length (ab_sorted b) \<longrightarrow> ts_key base ts \<le> frame_key base (queued b ! i))"
        using mid less.prems by (intro less.hyps) auto
      then show ?thesis
        using True mid ts cmp newer by (subst sorted_insert_loop.simps) (simp add: Let_def)
    qed
  qed
qed

subsection \<open>Insertion keeps the order\<close>

text \<open>What a queued frame stands for: its timestamp and its samples.\<close>

definition chunk_of :: "audio_frame \<Rightarrow> u32 \<times> u16 list" where
  "chunk_of f = (af_timestamp f, take (unat (af_samples f) * unat (af_channels f)) (af_pcm f))"

text \<open>A chunk the producer may queue: it fits a slot, and its data is there.\<close>

definition chunk_fits :: "u16 list \<Rightarrow> nat \<Rightarrow> nat \<Rightarrow> bool" where
  "chunk_fits pcm samples channels \<longleftrightarrow> 0 < samples \<and> samples \<le> AAC_FRAMES_PER_PACKET \<and>
     0 < channels \<and> channels \<le> AUDIO_MAX_CHANNELS \<and> samples * channels \<le> length pcm"

lemma chunk_fitsD:
  assumes "chunk_fits pcm samples channels"
  shows "samples * channels \<le> slot_pcm" "samples * channels \<le> length pcm" "0 < samples"
    "samples < 65536" "channels < 256"
proof -
  have c: "samples \<le> 352" "channels \<le> 2"
    using assms by (simp_all add: chunk_fits_def AAC_FRAMES_PER_PACKET_def AUDIO_MAX_CHANNELS_def)
  then have "samples * channels \<le> 352 * 2" by (intro mult_le_mono)
  then show "samples * channels \<le> slot_pcm"
    by (simp add: slot_pcm_def AAC_FRAMES_PER_PACKET_def AUDIO_MAX_CHANNELS_def)
  show "samples * channels \<le> length pcm" "0 < samples" "samples < 65536" "channels < 256"
    using assms c by (simp_all add: chunk_fits_def)
qed

lemma chunk_of_frame_of:
  assumes "chunk_fits pcm samples channels" "length area = slot_pcm"
  shows "chunk_of (frame_of ts pcm samples channels area) = (ts, take (samples * channels) pcm)"
proof -
  note c = chunk_fitsD [OF assms(1)]
  have "unat (of_nat samples :: u16) = samples" "unat (of_nat channels :: u8) = channels"
    using c by (simp_all add: unsigned_of_nat take_bit_nat_eq_self)
  then show ?thesis using c(1,2) assms(2) by (simp add: chunk_of_def frame_of_def put_at_def)
qed

lemma frames_of_update:
  "slot \<notin> set slots \<Longrightarrow> ab_pool b = Some pool \<Longrightarrow>
    frames_of (b\<lparr>ab_pool := Some (pool[slot := f])\<rparr>) slots = frames_of b slots"
  by (auto simp: frames_of_def intro!: nth_list_update_neq)

lemma queue_critical_inserts:
  assumes "ab_ok b held" "chunk_fits pcm samples channels" "ordered base b" "in_window base ts"
    and "queue_critical b ts pcm samples channels = Some (True, b')"
  obtains b1 pos f where "drain_oldest b = Some b1" "ab_ok b' held" "ordered base b'"
    "chunk_of f = (ts, take (samples * channels) pcm)"
    "queued b' = take pos (queued b1) @ f # drop pos (queued b1)"
    "ab_capacity b' = ab_capacity b" "ab_ready b' = ab_ready b1"
    "length (ab_sorted b') = Suc (length (ab_sorted b1))"
  using assms(1) chunk_fitsD(1,2) [OF assms(2)]
proof (cases rule: queue_critical_cases [where ts = ts])
  case 1
  then show thesis using assms(5) by simp
next
  case (2 b1 b2 slot free pool pos)
  let ?f = "frame_of ts pcm samples channels (af_pcm (pool ! slot))"
  have b': "b' = b2\<lparr>ab_sorted := take pos (ab_sorted b1) @ slot # drop pos (ab_sorted b1)\<rparr>"
    using assms(5) 2(10) by simp
  have b1: "ab_pool b1 = ab_pool b" "ab_capacity b1 = ab_capacity b"
    "ab_sorted b1 = ab_sorted b \<or> ab_sorted b1 = tl (ab_sorted b)"
    using drain_oldest_ok [OF assms(1)] 2(1) by (metis option.inject)+
  have q1: "queued b1 = queued b \<or> queued b1 = tl (queued b)"
    using b1 by (auto simp: queued_def frames_of_def map_tl)
  then have ord1: "ordered base b1"
    using assms(3) by (cases "queued b") (auto simp: ordered_def)
  have new: "slot \<notin> set (ab_sorted b1)"
    using ab_okD(2) [OF 2(2)] 2(3) by auto
  have b2: "ab_ok b2 (slot # held)"
  proof -
    have split: "mset (ab_sorted b1) = mset (take pos (ab_sorted b1)) + mset (drop pos (ab_sorted b1))"
      by (simp flip: mset_append)
    have "ab_ok b' held" using 2(11) b' by simp
    then show ?thesis by (rule ab_ok_perm) (simp_all add: b' 2(7) split)
  qed
  have q2: "queued b2 = queued b1"
    using new 2(4) frames_of_update [of slot "ab_sorted b1" b1 pool ?f]
    by (simp add: queued_def 2(7) frames_of_def)
  have ord2: "ordered base b2" using ord1 q2 by (simp add: ordered_def)
  have s2: "ab_sorted b2 = ab_sorted b1" by (simp add: 2(7))
  have len: "length (queued b1) = length (ab_sorted b1)" by (simp add: queued_def frames_of_def)
  obtain p where p: "sorted_insert_pos b2 ts = Some p" "p \<le> length (ab_sorted b1)"
    "\<forall>i<p. frame_key base (queued b1 ! i) < ts_key base ts"
    "\<forall>i. p \<le> i \<and> i < length (ab_sorted b1) \<longrightarrow> ts_key base ts \<le> frame_key base (queued b1 ! i)"
    using sorted_insert_loop_pos [OF b2 ord2 assms(4), of 0 "length (ab_sorted b2)"]
    by (auto simp: sorted_insert_pos_def q2 s2)
  have pos: "p = pos" using p(1) 2(8) by simp
  have area: "length (af_pcm (pool ! slot)) = slot_pcm"
    using 2(2,4,5) by (auto simp: ab_ok_def)
  have fk: "frame_key base ?f = ts_key base ts" "in_window base (af_timestamp ?f)"
    using assms(4) by (simp_all add: frame_key_def frame_of_def)
  have q': "queued b' = take pos (queued b1) @ ?f # drop pos (queued b1)"
    using q2 2(5)
    by (auto simp: b' queued_def frames_of_def 2(7) take_map drop_map dest: in_set_takeD in_set_dropD)
  have "ordered base b'"
  proof -
    have "sorted (map (frame_key base) (queued b1))" using ord1 by (simp add: ordered_def)
    then have "sorted (map (frame_key base) (take pos (queued b1)))"
      "sorted (map (frame_key base) (drop pos (queued b1)))"
      by (simp_all add: sorted_wrt_take sorted_wrt_drop flip: take_map drop_map)
    moreover have "\<forall>g\<in>set (take pos (queued b1)). frame_key base g < ts_key base ts"
      using p(3) len pos by (auto simp: in_set_conv_nth)
    moreover have "\<forall>g\<in>set (drop pos (queued b1)). ts_key base ts \<le> frame_key base g"
      using p(4) len pos by (auto simp: in_set_conv_nth)
    moreover have "\<forall>g\<in>set (queued b'). in_window base (af_timestamp g)"
      using ord1 fk(2) by (auto simp: q' ordered_def dest: in_set_takeD in_set_dropD)
    ultimately show ?thesis
      using fk(1) by (auto simp: ordered_def q' sorted_append dest: less_imp_le intro: le_trans)
  qed
  moreover have "chunk_of ?f = (ts, take (samples * channels) pcm)"
    by (rule chunk_of_frame_of [OF assms(2) area])
  moreover have "length (ab_sorted b') = Suc (length (ab_sorted b1))" using 2(9) by (simp add: b')
  ultimately show thesis
    using that [OF 2(1)] 2(11) b' q' b1(2) by (simp add: 2(7))
qed

end
