(* ===== verification/Audio_Queue.thy ===== *)
theory Audio_Queue
  imports Audio_Order
begin

section \<open>The jitter buffer as a priority queue (main/audio/audio_buffer.c)\<close>

text \<open>
  What the playback side relies on, as two interfaces: a queue whose items come out in key order
  (\<open>timed_queue\<close>), and one that also accepts items (\<open>timed_feed\<close>). Their consequences (draining
  a queue yields its items, feeding and draining sorts) are proved once inside the locales; the
  interpretation \<open>jb\<close> discharges the laws for the buffer's insertion, take and return.
\<close>

subsection \<open>Interfaces\<close>

fun queue_drain :: "('q \<Rightarrow> ('f \<times> 'q) option) \<Rightarrow> nat \<Rightarrow> 'q \<Rightarrow> 'f list" where
  "queue_drain tk 0 q = []"
| "queue_drain tk (Suc n) q = (case tk q of None \<Rightarrow> [] | Some (f, q') \<Rightarrow> f # queue_drain tk n q')"

fun queue_feed :: "('c \<Rightarrow> 'q \<Rightarrow> 'q option) \<Rightarrow> 'c list \<Rightarrow> 'q \<Rightarrow> 'q option" where
  "queue_feed put [] q = Some q"
| "queue_feed put (c # cs) q = do { q \<leftarrow> put c q; queue_feed put cs q }"

locale timed_queue =
  fixes inv :: "'q \<Rightarrow> bool" and items :: "'q \<Rightarrow> 'f list" and key :: "'f \<Rightarrow> nat"
    and tk :: "'q \<Rightarrow> ('f \<times> 'q) option"
  assumes items_sorted: "inv q \<Longrightarrow> sorted (map key (items q))"
    and take_Nil: "inv q \<Longrightarrow> items q = [] \<Longrightarrow> tk q = None"
    and take_Cons: "inv q \<Longrightarrow> items q = f # fs \<Longrightarrow> \<exists>q'. tk q = Some (f, q') \<and> inv q' \<and> items q' = fs"
begin

lemma drain_items: "inv q \<Longrightarrow> length (items q) \<le> n \<Longrightarrow> queue_drain tk n q = items q"
proof (induction n arbitrary: q)
  case 0
  then show ?case by simp
next
  case (Suc n)
  show ?case
  proof (cases "items q")
    case Nil
    then show ?thesis using take_Nil [OF Suc.prems(1)] by simp
  next
    case (Cons f fs)
    then show ?thesis using take_Cons [OF Suc.prems(1) Cons] Suc by auto
  qed
qed

lemma take_oldest:
  assumes "inv q" "tk q = Some (f, q')" "g \<in> set (items q')"
  shows "key f \<le> key g"
proof (cases "items q")
  case Nil
  then show ?thesis using take_Nil [OF assms(1)] assms(2) by simp
next
  case (Cons h hs)
  then have "f = h" "items q' = hs" using take_Cons [OF assms(1) Cons] assms(2) by auto
  then show ?thesis using items_sorted [OF assms(1)] Cons assms(3) by auto
qed

end

locale timed_feed = timed_queue inv items key tk
  for inv :: "'q \<Rightarrow> bool" and items :: "'q \<Rightarrow> 'f list" and key :: "'f \<Rightarrow> nat"
    and tk :: "'q \<Rightarrow> ('f \<times> 'q) option" +
  fixes put :: "'c \<Rightarrow> 'q \<Rightarrow> 'q option" and accepts :: "'c \<Rightarrow> bool" and content :: "'c \<Rightarrow> 'f"
    and room :: "'q \<Rightarrow> nat"
  assumes put_item: "inv q \<Longrightarrow> accepts c \<Longrightarrow> 0 < room q \<Longrightarrow> \<exists>q'. put c q = Some q' \<and> inv q' \<and>
    mset (items q') = add_mset (content c) (mset (items q)) \<and> Suc (room q') = room q"
begin

lemma feed_items:
  "inv q \<Longrightarrow> \<forall>c\<in>set cs. accepts c \<Longrightarrow> length cs \<le> room q \<Longrightarrow>
    \<exists>q'. queue_feed put cs q = Some q' \<and> inv q' \<and>
      mset (items q') = mset (items q) + mset (map content cs) \<and> room q' + length cs = room q"
proof (induction cs arbitrary: q)
  case Nil
  then show ?case by simp
next
  case (Cons c cs)
  then obtain q1 where q1: "put c q = Some q1" "inv q1" "Suc (room q1) = room q"
    "mset (items q1) = add_mset (content c) (mset (items q))"
    using put_item [of q c] by auto
  obtain q' where "queue_feed put cs q1 = Some q'" "inv q'"
    "mset (items q') = mset (items q1) + mset (map content cs)" "room q' + length cs = room q1"
    using Cons.IH [OF q1(2)] Cons.prems q1(3) by auto
  then show ?case using q1 by auto
qed

lemma feed_drain_sorts:
  assumes "inv q" "\<forall>c\<in>set cs. accepts c" "length cs \<le> room q" "items q = []"
  shows "\<exists>q'. queue_feed put cs q = Some q' \<and>
    sorted (map key (queue_drain tk (length cs) q')) \<and>
    mset (queue_drain tk (length cs) q') = mset (map content cs)"
proof -
  obtain q' where q': "queue_feed put cs q = Some q'" "inv q'" "mset (items q') = mset (map content cs)"
    using feed_items [OF assms(1-3)] assms(4) by auto
  then have "length (items q') = length cs" by (metis length_map size_mset)
  then show ?thesis using q' drain_items [OF q'(2)] items_sorted [OF q'(2)] by auto
qed

end

subsection \<open>The buffer's operations\<close>

text \<open>A chunk: timestamp, PCM data, samples per channel, channels.\<close>

type_synonym chunk = "u32 \<times> u16 list \<times> nat \<times> nat"

definition enqueue :: "chunk \<Rightarrow> audio_buffer \<Rightarrow> audio_buffer option" where
  "enqueue c b = (case c of (ts, pcm, samples, channels) \<Rightarrow>
     case audio_buffer_queue_chunk b None ts pcm samples channels of
       Some (True, b', _) \<Rightarrow> Some b' | _ \<Rightarrow> None)"

text \<open>One turn of the consumer: take a slot, read its frame, return it.\<close>

definition consume :: "audio_buffer \<Rightarrow> ((u32 \<times> u16 list) \<times> audio_buffer) option" where
  "consume b =
    (case audio_buffer_take b of
       Some (Some (slot, item_size), b') \<Rightarrow> do {
         f \<leftarrow> slot_ptr b' slot;
         b'' \<leftarrow> audio_buffer_return b' slot;
         Some (chunk_of f, b'')
       }
     | _ \<Rightarrow> None)"

definition chunk_ok :: "u32 \<Rightarrow> chunk \<Rightarrow> bool" where
  "chunk_ok base c = (case c of (ts, pcm, samples, channels) \<Rightarrow>
     in_window base ts \<and> chunk_fits pcm samples channels)"

definition chunk_content :: "chunk \<Rightarrow> u32 \<times> u16 list" where
  "chunk_content c = (case c of (ts, pcm, samples, channels) \<Rightarrow> (ts, take (samples * channels) pcm))"

definition queue_items :: "audio_buffer \<Rightarrow> (u32 \<times> u16 list) list" where
  "queue_items b = map chunk_of (queued b)"

definition item_key :: "u32 \<Rightarrow> u32 \<times> u16 list \<Rightarrow> nat" where
  "item_key base i = ts_key base (fst i)"

definition queue_room :: "audio_buffer \<Rightarrow> nat" where
  "queue_room b = ab_capacity b - length (ab_sorted b)"

text \<open>Between two operations of one task: no slot is out, and there is a token per frame.\<close>

definition synced :: "u32 \<Rightarrow> audio_buffer \<Rightarrow> bool" where
  "synced base b \<longleftrightarrow> ab_ok b [] \<and> ordered base b \<and> ab_ready b = length (ab_sorted b)"

lemma enqueue_synced:
  assumes "synced base b" "chunk_ok base c" "0 < queue_room b"
  shows "\<exists>b'. enqueue c b = Some b' \<and> synced base b' \<and>
    mset (queue_items b') = add_mset (chunk_content c) (mset (queue_items b)) \<and>
    Suc (queue_room b') = queue_room b"
proof -
  obtain ts pcm samples channels where c: "c = (ts, pcm, samples, channels)" by (cases c)
  have ok: "ab_ok b []" "ordered base b" "ab_ready b = length (ab_sorted b)"
    "in_window base ts" "chunk_fits pcm samples channels" "length (ab_sorted b) < ab_capacity b"
    using assms by (simp_all add: synced_def chunk_ok_def c queue_room_def)
  have drain: "drain_oldest b = Some b" using ok(6) by (auto simp: drain_oldest_eq [OF ok(1)])
  have "\<exists>b'. queue_critical b ts pcm samples channels = Some (True, b')"
    using ok(1) chunk_fitsD(1,2) [OF ok(5)]
    by (cases rule: queue_critical_cases [where ts = ts]) (use ok(6) in auto)
  then obtain b' where b': "queue_critical b ts pcm samples channels = Some (True, b')" by blast
  show ?thesis
  proof (rule queue_critical_inserts [OF ok(1,5,2,4) b'])
    fix b1 pos f
    assume a: "drain_oldest b = Some b1" "ab_ok b' []" "ordered base b'"
      "chunk_of f = (ts, take (samples * channels) pcm)"
      "queued b' = take pos (queued b1) @ f # drop pos (queued b1)"
      "ab_capacity b' = ab_capacity b" "ab_ready b' = ab_ready b1"
      "length (ab_sorted b') = Suc (length (ab_sorted b1))"
    have b1: "b1 = b" using a(1) drain by simp
    have "mset (queued b) = mset (take pos (queued b)) + mset (drop pos (queued b))"
      by (simp flip: mset_append)
    then have "mset (queued b') = add_mset f (mset (queued b))"
      unfolding a(5) b1 by simp
    then have items: "mset (queue_items b') = add_mset (chunk_content c) (mset (queue_items b))"
      using a(4) by (simp add: queue_items_def chunk_content_def c)
    have "enqueue c b = Some (sem_give b')"
      using b' chunk_fitsD(3) [OF ok(5)] by (simp add: enqueue_def c audio_buffer_queue_chunk_def)
    moreover have "synced base (sem_give b')"
      using a(2,3,6,7,8) b1 ok(3,6) by (simp add: synced_def) (simp add: sem_give_def)
    moreover have "queue_items (sem_give b') = queue_items b'"
      by (simp add: queue_items_def)
    ultimately show ?thesis
      using items a b1 ok(6) by (auto simp: queue_room_def)
  qed
qed

lemma consume_synced:
  assumes "synced base b" "queue_items b = i # is"
  shows "\<exists>b'. consume b = Some (i, b') \<and> synced base b' \<and> queue_items b' = is"
proof -
  have ok: "ab_ok b []" "ordered base b" "ab_ready b = length (ab_sorted b)"
    using assms(1) by (simp_all add: synced_def)
  obtain slot rest where s: "ab_sorted b = slot # rest"
    using assms(2) by (cases "ab_sorted b") (simp_all add: queue_items_def queued_def frames_of_def)
  have slot: "slot < ab_capacity b" by (rule ab_sorted_valid [OF ok(1)]) (simp add: s)
  obtain pool where pool: "ab_pool b = Some pool" "length pool = ab_capacity b"
    using ok(1) by (elim ab_ok_pool)
  let ?b1 = "b\<lparr>ab_ready := length rest, ab_sorted := rest\<rparr>"
  let ?b2 = "?b1\<lparr>ab_free := slot # ab_free b\<rparr>"
  have i: "i = chunk_of (pool ! slot)" "is = map chunk_of (frames_of b rest)"
    using assms(2) pool s by (simp_all add: queue_items_def queued_def frames_of_def)
  have "length (ab_free b) < ab_capacity b" using ab_okD(1) [OF ok(1)] s by simp
  then have "consume b = Some (i, ?b2)"
    using pool slot ok(3) i
    by (simp add: consume_def audio_buffer_take_def sem_take_def take_critical_def s slot_ptr_def
        audio_buffer_return_def push_free_def)
  moreover have "ab_ok ?b2 []" by (rule ab_ok_perm [OF ok(1)]) (simp_all add: s)
  moreover have "ordered base ?b2"
    using ok(2) by (auto simp: ordered_def queued_def frames_of_def s)
  ultimately show ?thesis
    using i by (simp add: synced_def queue_items_def queued_def frames_of_def)
qed

text \<open>A fresh buffer of \<open>n\<close> slots, as \<open>audio_buffer_init\<close> leaves it.\<close>

definition fresh_buffer :: "nat \<Rightarrow> audio_buffer" where
  "fresh_buffer n = \<lparr>ab_pool = Some (replicate n \<lparr>af_timestamp = 0, af_samples = 0, af_channels = 0,
     af_pcm = replicate slot_pcm 0\<rparr>), ab_sorted = [], ab_free = rev [0..<n], ab_capacity = n,
     ab_ready = 0, ab_decode_capacity = Some MAX_SAMPLES_PER_FRAME\<rparr>"

lemma fresh_buffer_sel [simp]: "ab_sorted (fresh_buffer n) = []" "ab_capacity (fresh_buffer n) = n"
  by (simp_all add: fresh_buffer_def)

lemma fresh_ok [simp]: "ab_ok (fresh_buffer n) []"
  by (simp add: fresh_buffer_def ab_ok_def)

lemma fresh_synced [simp]: "synced base (fresh_buffer n)"
  using fresh_ok [of n] by (simp add: synced_def ordered_def queued_def frames_of_def) (simp add: fresh_buffer_def)

interpretation jb: timed_feed "synced base" queue_items "item_key base" consume enqueue
    "chunk_ok base" chunk_content queue_room for base
proof unfold_locales
  show "sorted (map (item_key base) (queue_items q))" if "synced base q" for q
    using that by (simp add: synced_def ordered_def queue_items_def item_key_def comp_def chunk_of_def frame_key_def [abs_def])
  show "consume q = None" if "synced base q" "queue_items q = []" for q
    using that by (simp add: consume_def audio_buffer_take_def sem_take_def synced_def queue_items_def
        queued_def frames_of_def)
qed (use consume_synced enqueue_synced in blast)+

end
