(* ===== verification/Audio_Play.thy ===== *)
theory Audio_Play
  imports Audio_Queue
begin

section \<open>What the jitter buffer plays (main/audio/audio_buffer.c)\<close>

text \<open>
  The functional behaviour of the buffer as its callers see it: insertion with and without overflow,
  out-of-order arrival, splitting of a decoded packet, and the search for the start of the newest
  contiguous run.
\<close>

subsection \<open>Out-of-order arrival\<close>



subsection \<open>A single insertion\<close>

text \<open>
  One insertion, on both sides of the capacity limit: a fitting chunk is inserted at its place
  in the timestamp order; when every slot is queued, exactly the oldest frame makes room, and
  nothing else is lost.
\<close>

theorem queue_chunk_inserts_in_order:
  assumes "ab_ok b []" "ordered base b" "in_window base ts" "chunk_fits pcm samples channels"
    and "0 < ab_capacity b"
  shows "\<exists>b' stats'. audio_buffer_queue_chunk b stats ts pcm samples channels = Some (True, b', stats') \<and>
    ab_ok b' [] \<and> ordered base b' \<and>
    mset (queue_items b') = add_mset (ts, take (samples * channels) pcm)
      (mset (if length (ab_sorted b) = ab_capacity b then tl (queue_items b) else queue_items b))"
proof -
  have "\<exists>b'. queue_critical b ts pcm samples channels = Some (True, b')"
    using assms(1) chunk_fitsD(1,2) [OF assms(4)]
    by (cases rule: queue_critical_cases [where ts = ts]) (use assms(5) in auto)
  then obtain b' where b': "queue_critical b ts pcm samples channels = Some (True, b')" by blast
  show ?thesis
  proof (rule queue_critical_inserts [OF assms(1,4,2,3) b'])
    fix b1 pos f
    assume a: "drain_oldest b = Some b1" "ab_ok b' []" "ordered base b'"
      "chunk_of f = (ts, take (samples * channels) pcm)"
      "queued b' = take pos (queued b1) @ f # drop pos (queued b1)"
    have "queued b1 = (if length (ab_sorted b) = ab_capacity b then tl (queued b) else queued b)"
      using a(1) assms(5) unfolding drain_oldest_eq [OF assms(1)]
      by (auto simp: map_tl queued_def frames_of_def split: if_splits)
    then have items: "map chunk_of (queued b1) =
        (if length (ab_sorted b) = ab_capacity b then tl (queue_items b) else queue_items b)"
      by (simp add: queue_items_def map_tl)
    have "mset (queued b1) = mset (take pos (queued b1)) + mset (drop pos (queued b1))"
      by (simp flip: mset_append)
    then have "mset (queued b') = add_mset f (mset (queued b1))" by (simp add: a(5))
    then have "mset (queue_items b') = add_mset (chunk_of f) (mset (map chunk_of (queued b1)))"
      by (simp add: queue_items_def)
    moreover have "audio_buffer_queue_chunk b stats ts pcm samples channels =
        Some (True, sem_give b', bump_decoded stats)"
      using b' chunk_fitsD(3) [OF assms(4)] by (simp add: audio_buffer_queue_chunk_def)
    moreover have "queue_items (sem_give b') = queue_items b'" by (simp add: queue_items_def)
    ultimately show ?thesis using a(2-4) by (simp add: items)
  qed
qed

lemma queue_chunk_inserts_in_order_witness:
  "\<exists>b' stats'. audio_buffer_queue_chunk (fresh_buffer 1) None 7 [1, 2] 1 2 = Some (True, b', stats') \<and>
    queue_items b' = [(7, [1, 2])]"
proof -
  have "\<exists>b' stats'. audio_buffer_queue_chunk (fresh_buffer 1) None 7 [1, 2] 1 2 = Some (True, b', stats') \<and>
      ab_ok b' [] \<and> ordered 0 b' \<and> mset (queue_items b') = add_mset (7, take (1 * 2) [1, 2])
      (mset (if length (ab_sorted (fresh_buffer 1)) = ab_capacity (fresh_buffer 1)
             then tl (queue_items (fresh_buffer 1)) else queue_items (fresh_buffer 1)))"
    by (rule queue_chunk_inserts_in_order)
      (simp_all add: in_window_def ts_key_def chunk_fits_def AAC_FRAMES_PER_PACKET_def
        AUDIO_MAX_CHANNELS_def ordered_def queued_def frames_of_def)
  moreover have "queue_items (fresh_buffer 1) = []" by (simp add: queue_items_def queued_def frames_of_def)
  ultimately show ?thesis by simp blast
qed

subsection \<open>The newest contiguous run\<close>

text \<open>Frame \<open>i\<close> is directly followed by frame \<open>i + 1\<close>.\<close>

definition follows :: "audio_frame list \<Rightarrow> nat \<Rightarrow> bool" where
  "follows fs i \<longleftrightarrow> af_timestamp (fs ! i) + ucast (af_samples (fs ! i)) = af_timestamp (fs ! Suc i)"

lemma bulk_loop_start:
  assumes "ab_ok b held" "i < length (ab_sorted b)"
  shows "\<exists>k\<le>i. bulk_loop b i (af_timestamp (queued b ! i)) = Some (af_timestamp (queued b ! k)) \<and>
    (\<forall>j. k \<le> j \<and> j < i \<longrightarrow> follows (queued b) j) \<and> (k = 0 \<or> \<not> follows (queued b) (k - 1))"
  using assms(2)
proof (induction i)
  case 0
  then show ?case by simp
next
  case (Suc i)
  have "ab_sorted b ! i < ab_capacity b" using Suc.prems by (intro ab_sorted_valid [OF assms(1)]) simp
  then have ptr: "slot_ptr b (ab_sorted b ! i) = Some (queued b ! i)"
    using Suc.prems by (simp add: slot_ptr_eq [OF assms(1)] queued_def frames_of_def)
  show ?case
  proof (cases "follows (queued b) i")
    case False
    then have "bulk_loop b (Suc i) (af_timestamp (queued b ! Suc i)) = Some (af_timestamp (queued b ! Suc i))"
      using ptr Suc.prems by (simp add: follows_def)
    then show ?thesis using False by (intro exI [of _ "Suc i"]) auto
  next
    case True
    obtain k where k: "k \<le> i" "bulk_loop b i (af_timestamp (queued b ! i)) = Some (af_timestamp (queued b ! k))"
      "\<forall>j. k \<le> j \<and> j < i \<longrightarrow> follows (queued b) j" "k = 0 \<or> \<not> follows (queued b) (k - 1)"
      using Suc by auto
    have "bulk_loop b (Suc i) (af_timestamp (queued b ! Suc i)) = Some (af_timestamp (queued b ! k))"
      using True ptr Suc.prems k(2) by (simp add: follows_def)
    then show ?thesis using k True by (intro exI [of _ k]) (auto simp: less_Suc_eq)
  qed
qed

text \<open>
  Start of the newest run: on a well-formed buffer with a frame, \<open>audio_buffer_bulk_start_rtp\<close>
  stays in bounds and returns the timestamp of the first frame of the longest contiguous run that
  ends at the newest frame, so nothing stranded below a gap is taken for the stream head.
\<close>

theorem bulk_start_is_newest_run:
  assumes "ab_ok b held" "ab_sorted b \<noteq> []"
  shows "\<exists>k<length (ab_sorted b). audio_buffer_bulk_start_rtp b = Some (Some (af_timestamp (queued b ! k))) \<and>
    (\<forall>j. k \<le> j \<and> j < length (ab_sorted b) - 1 \<longrightarrow> follows (queued b) j) \<and>
    (k = 0 \<or> \<not> follows (queued b) (k - 1))"
proof -
  let ?n = "length (ab_sorted b) - 1"
  have n: "?n < length (ab_sorted b)" using assms(2) by simp
  have "ab_sorted b ! ?n < ab_capacity b" using n by (intro ab_sorted_valid [OF assms(1)]) simp
  then have ptr: "slot_ptr b (ab_sorted b ! ?n) = Some (queued b ! ?n)"
    using n by (simp add: slot_ptr_eq [OF assms(1)] queued_def frames_of_def)
  obtain k where k: "k \<le> ?n" "bulk_loop b ?n (af_timestamp (queued b ! ?n)) = Some (af_timestamp (queued b ! k))"
    "\<forall>j. k \<le> j \<and> j < ?n \<longrightarrow> follows (queued b) j" "k = 0 \<or> \<not> follows (queued b) (k - 1)"
    using bulk_loop_start [OF assms(1) n] by blast
  have "ab_pool b \<noteq> None" using assms(1) by (auto simp: ab_ok_def)
  then have "audio_buffer_bulk_start_rtp b = Some (Some (af_timestamp (queued b ! k)))"
    using assms(2) ptr k(2) by (simp add: audio_buffer_bulk_start_rtp_def)
  then show ?thesis using k n by (intro exI [of _ k]) auto
qed

lemma bulk_start_is_newest_run_witness:
  "\<exists>b held. ab_ok b held \<and> ab_sorted b = [0] \<and>
    audio_buffer_bulk_start_rtp b = Some (Some (af_timestamp (queued b ! 0)))"
proof -
  let ?b = "(fresh_buffer 1)\<lparr>ab_sorted := [0], ab_free := []\<rparr>"
  have "ab_ok ?b []" by (rule ab_ok_perm [OF fresh_ok [of 1]]) (simp_all add: fresh_buffer_def)
  then show ?thesis using bulk_start_is_newest_run [of ?b "[]"] by (intro exI [of _ ?b]) auto
qed

subsection \<open>Splitting a decoded packet\<close>

function chunks :: "u32 \<Rightarrow> u16 list \<Rightarrow> nat \<Rightarrow> nat \<Rightarrow> chunk list" where
  "chunks ts pcm samples channels =
    (if samples > 0 then
       let n = min AAC_FRAMES_PER_PACKET samples in
       (ts, pcm, n, channels) # chunks (ts + of_nat n) (drop (n * channels) pcm) (samples - n) channels
     else [])"
  by auto

termination
  by (relation "measure (\<lambda>(ts, pcm, samples, channels). samples)") (auto simp: AAC_FRAMES_PER_PACKET_def)

declare chunks.simps [simp del]

lemma queue_chunk_enqueue:
  "enqueue (ts, pcm, n, channels) b = Some b' \<Longrightarrow>
    audio_buffer_queue_chunk b stats ts pcm n channels = Some (True, b', bump_decoded stats)"
  by (cases "queue_critical b ts pcm n channels")
    (auto simp: enqueue_def audio_buffer_queue_chunk_def split: if_splits)

lemma queue_decoded_loop_feed:
  "queue_feed enqueue (chunks ts pcm samples channels) b = Some b' \<Longrightarrow>
    \<exists>stats'. queue_decoded_loop b stats ts pcm samples channels = Some (True, b', stats')"
  apply (induction ts pcm samples channels arbitrary: b stats rule: chunks.induct)
  subgoal premises p for ts pcm samples channels b stats
  proof (cases "samples > 0")
    case False
    then show ?thesis using p(2) by (subst queue_decoded_loop.simps) (simp add: chunks.simps)
  next
    case True
    let ?n = "min AAC_FRAMES_PER_PACKET samples"
    obtain b1 where b1: "enqueue (ts, pcm, ?n, channels) b = Some b1"
      "queue_feed enqueue (chunks (ts + of_nat ?n) (drop (?n * channels) pcm) (samples - ?n) channels) b1 = Some b'"
      using p(2) True by (subst (asm) chunks.simps) (auto simp: Let_def bind_eq_Some_conv)
    obtain stats' where s: "queue_decoded_loop b1 (bump_decoded stats) (ts + of_nat ?n)
        (drop (?n * channels) pcm) (samples - ?n) channels = Some (True, b', stats')"
      using p(1) [OF True refl b1(2)] by blast
    have n: "(if samples > AAC_FRAMES_PER_PACKET then AAC_FRAMES_PER_PACKET else samples) = ?n" by simp
    show ?thesis
      by (subst queue_decoded_loop.simps)
        (simp only: n True Let_def if_True queue_chunk_enqueue [OF b1(1)] s, simp add: s)
  qed
  done

lemma ts_key_add:
  assumes "ts_key base ts + n < 2 ^ 31"
  shows "ts_key base (ts + of_nat n) = ts_key base ts + n"
proof -
  have "ts + of_nat n - base = (ts - base) + of_nat n" by simp
  moreover have "unat (of_nat n :: u32) = n" using assms by (simp add: unsigned_of_nat take_bit_nat_eq_self)
  ultimately show ?thesis
    using assms by (simp only: ts_key_def unat_word_ariths) (simp add: take_bit_nat_eq_self)
qed

lemma chunk_content_eq: "chunk_content (ts, pcm, n, channels) = (ts, take (n * channels) pcm)"
  by (simp add: chunk_content_def)

lemma item_key_eq: "item_key base (ts, p) = ts_key base ts"
  by (simp add: item_key_def)

lemma chunks_ok:
  assumes "samples * channels \<le> length pcm" "0 < channels" "channels \<le> 2" "ts_key base ts + samples \<le> 2 ^ 31"
  shows "(\<forall>c\<in>set (chunks ts pcm samples channels). chunk_ok base c \<and>
      ts_key base ts \<le> item_key base (chunk_content c)) \<and>
    concat (map (snd \<circ> chunk_content) (chunks ts pcm samples channels)) = take (samples * channels) pcm \<and>
    sorted_wrt (<) (map (item_key base) (map chunk_content (chunks ts pcm samples channels)))"
  using assms
proof (induction ts pcm samples channels rule: chunks.induct)
  case (1 ts pcm samples channels)
  show ?case
  proof (cases "samples > 0")
    case False
    then show ?thesis by (simp add: chunks.simps)
  next
    case True
    let ?n = "min AAC_FRAMES_PER_PACKET samples"
    let ?r = "chunks (ts + of_nat ?n) (drop (?n * channels) pcm) (samples - ?n) channels"
    have c: "chunks ts pcm samples channels = (ts, pcm, ?n, channels) # ?r"
      using True by (subst chunks.simps) (simp add: Let_def)
    have n: "0 < ?n" "?n \<le> samples" using True by (simp_all add: AAC_FRAMES_PER_PACKET_def)
    have mono: "?n * channels \<le> samples * channels" using n(2) by simp
    have fit: "chunk_fits pcm ?n channels"
      using n(1) order_trans [OF mono 1(2)] 1(3,4)
      by (simp add: chunk_fits_def AUDIO_MAX_CHANNELS_def del: mult_le_cancel2)
    have head: "chunk_ok base (ts, pcm, ?n, channels)"
      using fit 1(5) True by (simp add: chunk_ok_def in_window_def)
    show ?thesis
    proof (cases "samples = ?n")
      case last: True
      then have "?r = []" by (subst chunks.simps) simp
      then show ?thesis using c head last by (simp add: chunk_content_def item_key_def)
    next
      case False
      then have key: "ts_key base (ts + of_nat ?n) = ts_key base ts + ?n"
        using 1(5) n(2) by (intro ts_key_add) simp
      have sub: "(samples - ?n) * channels = samples * channels - ?n * channels" by (rule diff_mult_distrib)
      have IH: "(\<forall>c\<in>set ?r. chunk_ok base c \<and> ts_key base (ts + of_nat ?n) \<le> item_key base (chunk_content c)) \<and>
          concat (map (snd \<circ> chunk_content) ?r) = take ((samples - ?n) * channels) (drop (?n * channels) pcm) \<and>
          sorted_wrt (<) (map (item_key base) (map chunk_content ?r))"
        using 1(2-5) key n(2) mono by (intro 1(1) [OF True refl]) (simp_all add: sub)
      have "take (?n * channels) pcm @ take ((samples - ?n) * channels) (drop (?n * channels) pcm) =
          take (samples * channels) pcm"
        using mono by (simp add: sub flip: take_add)
      then show ?thesis
        using IH head key n(1) by (auto simp: c chunk_content_eq item_key_eq comp_def)
    qed
  qed
qed

lemma chunks_length: "length (chunks ts pcm samples channels) = (samples + 351) div 352"
proof (induction ts pcm samples channels rule: chunks.induct)
  case (1 ts pcm samples channels)
  show ?case
  proof (cases "samples > 0")
    case False
    then show ?thesis by (subst chunks.simps) simp
  next
    case True
    let ?n = "min AAC_FRAMES_PER_PACKET samples"
    have "length (chunks ts pcm samples channels) = Suc ((samples - ?n + 351) div 352)"
      using True 1 [OF True refl] by (subst chunks.simps) (simp add: Let_def)
    also have "\<dots> = (samples + 351) div 352"
      using True by (cases "samples \<le> 352") (simp_all add: AAC_FRAMES_PER_PACKET_def div_if)
    finally show ?thesis .
  qed
qed

text \<open>
  A decoded packet comes out as it went in: \<open>audio_buffer_queue_decoded\<close> splits the packet over
  slots of at most 352 samples per channel, accepts it whenever the slots suffice, and the consumer
  that drains the buffer gets exactly the packet's samples, in order.
\<close>

theorem queue_decoded_roundtrip:
  assumes "synced base b" "ab_sorted b = []" "0 < samples" "samples \<le> 352 * ab_capacity b"
    and "0 < channels" "channels \<le> 2" "samples * channels \<le> length pcm"
    and "ts_key base ts + samples \<le> 2 ^ 31"
  shows "\<exists>b' stats'. audio_buffer_queue_decoded b stats ts pcm samples (int channels) = Some (True, b', stats') \<and>
    concat (map snd (queue_drain consume (ab_capacity b) b')) = take (samples * channels) pcm"
proof -
  let ?cs = "chunks ts pcm samples channels"
  note ck = chunks_ok [OF assms(7,5,6,8)]
  have len: "length ?cs \<le> ab_capacity b"
    using assms(4) by (simp add: chunks_length div_le_mono flip: div_mult_self1_is_m [of 352])
  have "\<exists>b'. queue_feed enqueue ?cs b = Some b' \<and> synced base b' \<and>
      mset (queue_items b') = mset (queue_items b) + mset (map chunk_content ?cs) \<and>
      queue_room b' + length ?cs = queue_room b"
    using assms(1,2) ck len by (intro jb.feed_items) (auto simp: queue_room_def)
  then obtain b' where b': "queue_feed enqueue ?cs b = Some b'" "synced base b'"
    "mset (queue_items b') = mset (map chunk_content ?cs)"
    using assms(2) by (auto simp: queue_items_def queued_def frames_of_def)
  have "sorted (map (item_key base) (queue_items b'))" by (rule jb.items_sorted [OF b'(2)])
  moreover have d: "sorted_wrt (<) (map (item_key base) (map chunk_content ?cs))" using ck by blast
  moreover have "set (queue_items b') = set (map chunk_content ?cs)" using mset_eq_setD [OF b'(3)] .
  moreover have "distinct (map (item_key base) (queue_items b'))"
  proof -
    have "mset (map (item_key base) (queue_items b')) = mset (map (item_key base) (map chunk_content ?cs))"
      using b'(3) by (metis mset_map)
    then show ?thesis using d by (metis mset_eq_imp_distinct_iff strict_sorted_iff)
  qed
  ultimately have items: "queue_items b' = map chunk_content ?cs"
    by (intro map_sorted_distinct_set_unique [of "item_key base"])
      (simp_all add: strict_sorted_iff distinct_map del: map_map)
  have "queue_drain consume (ab_capacity b) b' = queue_items b'"
    using len items by (intro jb.drain_items [OF b'(2)]) simp
  then have "concat (map snd (queue_drain consume (ab_capacity b) b')) = take (samples * channels) pcm"
    using ck by (simp add: items)
  moreover have "\<exists>stats'. audio_buffer_queue_decoded b stats ts pcm samples (int channels) = Some (True, b', stats')"
    using queue_decoded_loop_feed [OF b'(1)] assms(3,5) by (simp add: audio_buffer_queue_decoded_def)
  ultimately show ?thesis by blast
qed

lemma queue_decoded_roundtrip_witness:
  "\<exists>b' stats'. audio_buffer_queue_decoded (fresh_buffer 2) None 9 (replicate 800 5) 400 (int 2) =
      Some (True, b', stats') \<and>
    concat (map snd (queue_drain consume 2 b')) = replicate 800 5"
  using queue_decoded_roundtrip [of 0 "fresh_buffer 2" 400 2 "replicate 800 5" 9 None]
  by (simp add: ts_key_def)

end
