(* ===== verification/Audio_Steps.thy ===== *)
theory Audio_Steps
  imports Audio_Queue
begin

section \<open>The jitter buffer under concurrent tasks (main/audio/audio_buffer.c)\<close>

text \<open>
  A producer (the decoder), a consumer (playback) and a flusher run on one buffer. Each step is one
  critical section or one semaphore call of the C code; between two of them the other tasks may run.
  \<open>areach tasks n\<close> holds the states that the given tasks can reach from a fresh buffer of \<open>n\<close> slots.
\<close>

subsection \<open>Steps\<close>

datatype task = Producer | Consumer | Flusher

datatype consumer_pc = CIdle | CToken | CHeld nat

record audio_tasks =
  at_buf :: audio_buffer
  at_giving :: bool
  at_consumer :: consumer_pc
  at_draining :: bool

definition held :: "audio_tasks \<Rightarrow> nat list" where
  "held s = (case at_consumer s of CHeld slot \<Rightarrow> [slot] | _ \<Rightarrow> [])"

inductive astep :: "task \<Rightarrow> audio_tasks \<Rightarrow> audio_tasks \<Rightarrow> bool" where
  insert_ok: "\<not> at_giving s \<Longrightarrow> chunk_fits pcm samples channels \<Longrightarrow>
    queue_critical (at_buf s) ts pcm samples channels = Some (True, b) \<Longrightarrow>
    astep Producer s (s\<lparr>at_buf := b, at_giving := True\<rparr>)"
| insert_full: "\<not> at_giving s \<Longrightarrow> chunk_fits pcm samples channels \<Longrightarrow>
    queue_critical (at_buf s) ts pcm samples channels = Some (False, b) \<Longrightarrow>
    astep Producer s (s\<lparr>at_buf := b\<rparr>)"
| give: "at_giving s \<Longrightarrow>
    astep Producer s (s\<lparr>at_buf := sem_give (at_buf s), at_giving := False\<rparr>)"
| token: "at_consumer s = CIdle \<Longrightarrow> sem_take (at_buf s) = (True, b) \<Longrightarrow>
    astep Consumer s (s\<lparr>at_buf := b, at_consumer := CToken\<rparr>)"
| pop: "at_consumer s = CToken \<Longrightarrow> take_critical (at_buf s) = (Some slot, b) \<Longrightarrow>
    astep Consumer s (s\<lparr>at_buf := b, at_consumer := CHeld slot\<rparr>)"
| pop_empty: "at_consumer s = CToken \<Longrightarrow> take_critical (at_buf s) = (None, b) \<Longrightarrow>
    astep Consumer s (s\<lparr>at_buf := b, at_consumer := CIdle\<rparr>)"
| give_back: "at_consumer s = CHeld slot \<Longrightarrow> push_free slot (at_buf s) = Some b \<Longrightarrow>
    astep Consumer s (s\<lparr>at_buf := b, at_consumer := CIdle\<rparr>)"
| clear: "\<not> at_draining s \<Longrightarrow> flush_critical (at_buf s) = Some b \<Longrightarrow>
    astep Flusher s (s\<lparr>at_buf := b, at_draining := True\<rparr>)"
| drain: "at_draining s \<Longrightarrow> sem_take (at_buf s) = (True, b) \<Longrightarrow>
    astep Flusher s (s\<lparr>at_buf := b\<rparr>)"
| drained: "at_draining s \<Longrightarrow> sem_take (at_buf s) = (False, b) \<Longrightarrow>
    astep Flusher s (s\<lparr>at_buf := b, at_draining := False\<rparr>)"

inductive_cases producer_step: "astep Producer s s'"
inductive_cases consumer_step: "astep Consumer s s'"
inductive_cases flusher_step: "astep Flusher s s'"

lemmas task_steps = producer_step consumer_step flusher_step

definition idle_tasks :: "audio_buffer \<Rightarrow> audio_tasks" where
  "idle_tasks b = \<lparr>at_buf = b, at_giving = False, at_consumer = CIdle, at_draining = False\<rparr>"

inductive areach :: "task set \<Rightarrow> nat \<Rightarrow> audio_tasks \<Rightarrow> bool" for tasks n where
  start: "areach tasks n (idle_tasks (fresh_buffer n))"
| step: "areach tasks n s \<Longrightarrow> t \<in> tasks \<Longrightarrow> astep t s s' \<Longrightarrow> areach tasks n s'"

subsection \<open>Slots\<close>

lemma drain_oldest_counts:
  assumes "ab_ok b h" "drain_oldest b = Some b1"
  shows "ab_pool b1 = ab_pool b" "ab_capacity b1 = ab_capacity b"
    "length (ab_sorted b1) + ab_ready b \<le> length (ab_sorted b) + ab_ready b1"
    "ab_ready b1 \<le> ab_ready b"
  using assms(2) by (auto simp: drain_oldest_eq [OF assms(1)] sem_take_def split: if_splits)

lemma queue_critical_conserves:
  assumes "ab_ok b h" "chunk_fits pcm samples channels"
    "queue_critical b ts pcm samples channels = Some (r, b')"
  shows "ab_ok b' h \<and> ab_capacity b' = ab_capacity b \<and>
    (\<forall>slot\<in>set h. slot_ptr b' slot = slot_ptr b slot) \<and>
    length (ab_sorted b') + ab_ready b \<le> length (ab_sorted b) + ab_ready b' + of_bool r \<and>
    ab_ready b' \<le> ab_ready b"
  using assms(1) chunk_fitsD(1,2) [OF assms(2)]
proof (cases rule: queue_critical_cases [where ts = ts])
  case (1 b1)
  then have b': "b' = b1" using assms(3) by simp
  show ?thesis
    using 1(4) drain_oldest_counts [OF assms(1) 1(1)] by (simp add: b' slot_ptr_def)
next
  case (2 b1 b2 new free pool pos)
  have b': "b' = b2\<lparr>ab_sorted := take pos (ab_sorted b1) @ new # drop pos (ab_sorted b1)\<rparr>" "r"
    using assms(3) 2(10) by simp_all
  note d = drain_oldest_counts [OF assms(1) 2(1)]
  have "new \<notin> set h" using ab_okD(2) [OF 2(2)] 2(3) by auto
  then have "slot_ptr b' slot = slot_ptr b slot" if "slot \<in> set h" for slot
    using that d(1) [symmetric] 2(4) by (cases "slot = new") (auto simp: b' 2(7) slot_ptr_def rd_def)
  moreover have "ab_ok b' h" using 2(11) by (simp only: b')
  moreover have "ab_capacity b' = ab_capacity b" using d by (simp add: b' 2(7))
  moreover have "length (ab_sorted b') + ab_ready b \<le> length (ab_sorted b) + ab_ready b' + of_bool r \<and>
      ab_ready b' \<le> ab_ready b"
    using d 2(9) by (simp add: b' 2(7))
  ultimately show ?thesis by blast
qed

lemmas queue_critical_ok = queue_critical_conserves [THEN conjunct1]
  queue_critical_conserves [THEN conjunct2, THEN conjunct1]

lemma sem_take_ok:
  "sem_take b = (r, b') \<Longrightarrow> ab_ok b' h = ab_ok b h \<and> ab_pool b' = ab_pool b \<and> ab_sorted b' = ab_sorted b \<and>
    ab_capacity b' = ab_capacity b \<and> ab_ready b = ab_ready b' + of_bool r \<and> (\<not> r \<longrightarrow> ab_ready b = 0)"
  by (auto simp: sem_take_def ab_ok_def split: if_splits)

lemma held_simps [simp]:
  "held (s\<lparr>at_buf := b\<rparr>) = held s" "held (s\<lparr>at_giving := g\<rparr>) = held s"
  "held (s\<lparr>at_draining := g\<rparr>) = held s"
  "held (s\<lparr>at_consumer := c\<rparr>) = (case c of CHeld slot \<Rightarrow> [slot] | _ \<Rightarrow> [])"
  by (simp_all add: held_def)

lemma producer_ok:
  assumes "astep Producer s s'" "ab_ok (at_buf s) (held s)"
  shows "ab_ok (at_buf s') (held s') \<and> ab_capacity (at_buf s') = ab_capacity (at_buf s)"
  using assms(1)
proof cases
  case (insert_ok pcm samples channels ts b)
  then show ?thesis using queue_critical_ok [OF assms(2) insert_ok(3,4)] by simp
next
  case (insert_full pcm samples channels ts b)
  then show ?thesis using queue_critical_ok [OF assms(2) insert_full(3,4)] by simp
next
  case give
  then show ?thesis using assms(2) by simp
qed

lemma consumer_ok:
  assumes "astep Consumer s s'" "ab_ok (at_buf s) (held s)"
  shows "ab_ok (at_buf s') (held s') \<and> ab_capacity (at_buf s') = ab_capacity (at_buf s)"
  using assms(1)
proof cases
  case (token b)
  then show ?thesis using assms(2) sem_take_ok [OF token(3)] by (simp add: held_def)
next
  case (pop slot b)
  then show ?thesis using take_critical_ok [OF assms(2) pop(3)] by (simp add: held_def)
next
  case (pop_empty b)
  then show ?thesis using take_critical_ok [OF assms(2) pop_empty(3)] by (simp add: held_def)
next
  case (give_back slot b)
  then show ?thesis using push_free_ok [OF assms(2), of slot] by (simp add: held_def)
qed

lemma flusher_ok:
  assumes "astep Flusher s s'" "ab_ok (at_buf s) (held s)"
  shows "ab_ok (at_buf s') (held s') \<and> ab_capacity (at_buf s') = ab_capacity (at_buf s)"
  using assms(1)
proof cases
  case (clear b)
  then show ?thesis using flush_critical_ok [OF assms(2)] by auto
next
  case (drain b)
  then show ?thesis using assms(2) sem_take_ok [OF drain(3)] by simp
next
  case (drained b)
  then show ?thesis using assms(2) sem_take_ok [OF drained(3)] by simp
qed

lemma astep_ok:
  "astep t s s' \<Longrightarrow> ab_ok (at_buf s) (held s) \<Longrightarrow>
    ab_ok (at_buf s') (held s') \<and> ab_capacity (at_buf s') = ab_capacity (at_buf s)"
  by (cases t) (blast dest: producer_ok consumer_ok flusher_ok)+

lemma areach_mono: "areach A n s \<Longrightarrow> A \<subseteq> B \<Longrightarrow> areach B n s"
  by (induction rule: areach.induct) (auto intro: areach.intros)

lemma areach_ok: "areach tasks n s \<Longrightarrow> ab_ok (at_buf s) (held s) \<and> ab_capacity (at_buf s) = n"
proof (induction rule: areach.induct)
  case start
  then show ?case by (simp add: idle_tasks_def held_def)
next
  case (step s t s')
  then show ?case using astep_ok by simp
qed

text \<open>
  C7. Slots are never shared between tasks: in every state that the producer, the consumer and the
  flusher can reach, in any interleaving, each slot is queued, free or held by the consumer, exactly
  one of these, and no next operation of any task leaves the pool or the index arrays.
\<close>

theorem tasks_keep_slots_apart:
  assumes "areach tasks n s"
  shows "ab_ok (at_buf s) (held s) \<and> ab_capacity (at_buf s) = n \<and>
    (\<forall>ts pcm samples channels. chunk_fits pcm samples channels \<longrightarrow>
      queue_critical (at_buf s) ts pcm samples channels \<noteq> None) \<and>
    (\<forall>slot\<in>set (held s). slot_ptr (at_buf s) slot \<noteq> None \<and> push_free slot (at_buf s) \<noteq> None) \<and>
    flush_critical (at_buf s) \<noteq> None"
proof -
  have ok: "ab_ok (at_buf s) (held s)" using areach_ok [OF assms] by blast
  have "queue_critical (at_buf s) ts pcm samples channels \<noteq> None" if "chunk_fits pcm samples channels"
    for ts pcm samples channels
    using ok chunk_fitsD(1,2) [OF that] by (cases rule: queue_critical_cases [where ts = ts]) simp_all
  moreover have "slot_ptr (at_buf s) slot \<noteq> None \<and> push_free slot (at_buf s) \<noteq> None"
    if "slot \<in> set (held s)" for slot
    using slot_ptr_ok [OF ok, of slot] push_free_ok [OF ok that] ab_okD(3) [OF ok] that by auto
  ultimately show ?thesis using areach_ok [OF assms] flush_critical_ok(1) [OF ok] by simp
qed

lemma tasks_keep_slots_apart_witness: "ab_ok (at_buf (idle_tasks (fresh_buffer 3))) []"
  using tasks_keep_slots_apart [OF areach.start [of UNIV 3]] by (simp add: held_def idle_tasks_def)

text \<open>
  A frame in the consumer's hands is stable: whatever the other tasks do between the take and the
  return, insertion, overflow and flush included, the contents of the held slot do not change.
\<close>

theorem held_frame_is_stable:
  assumes "areach tasks n s" "astep t s s'" "at_consumer s = CHeld slot" "at_consumer s' = CHeld slot"
  shows "slot_ptr (at_buf s') slot = slot_ptr (at_buf s) slot"
proof -
  have ok: "ab_ok (at_buf s) (held s)" using areach_ok [OF assms(1)] by blast
  have h: "slot \<in> set (held s)" using assms(3) by (simp add: held_def)
  from assms(2) show ?thesis
  proof cases
    case (insert_ok pcm samples channels ts b)
    then show ?thesis using queue_critical_conserves [OF ok insert_ok(4,5)] h by simp
  next
    case (insert_full pcm samples channels ts b)
    then show ?thesis using queue_critical_conserves [OF ok insert_full(4,5)] h by simp
  next
    case (clear b)
    then show ?thesis using flush_critical_ok(1) [OF ok] by (auto simp: slot_ptr_def)
  next
    case (drain b)
    then show ?thesis using sem_take_ok [OF drain(4)] by (simp add: slot_ptr_def)
  next
    case (drained b)
    then show ?thesis using sem_take_ok [OF drained(4)] by (simp add: slot_ptr_def)
  qed (use assms(3,4) in \<open>simp_all add: slot_ptr_def\<close>)
qed

subsection \<open>Tokens\<close>

text \<open>The tokens of the semaphore, the one the producer owes and the one the consumer has taken.\<close>

definition tokens :: "audio_tasks \<Rightarrow> nat" where
  "tokens s = ab_ready (at_buf s) + of_bool (at_giving s) + of_bool (at_consumer s = CToken)"

lemma tokens_cover:
  assumes "areach tasks n s" "Flusher \<notin> tasks"
  shows "length (ab_sorted (at_buf s)) \<le> tokens s"
  using assms(1)
proof (induction rule: areach.induct)
  case start
  then show ?case by (simp add: idle_tasks_def)
next
  case (step s t s')
  have ok: "ab_ok (at_buf s) (held s)" using areach_ok [OF step(1)] by blast
  from step(3) show ?case
  proof cases
    case (insert_ok pcm samples channels ts b)
    then show ?thesis
      using queue_critical_conserves [OF ok insert_ok(4,5)] step(4) by (simp add: tokens_def)
  next
    case (insert_full pcm samples channels ts b)
    then show ?thesis
      using queue_critical_conserves [OF ok insert_full(4,5)] step(4) by (simp add: tokens_def)
  next
    case give
    then show ?thesis using step(4) ab_okD(1) [OF ok]
      by (cases "ab_ready (at_buf s) < ab_capacity (at_buf s)") (auto simp: tokens_def sem_give_def)
  next
    case (token b)
    then show ?thesis using step(4) sem_take_ok [OF token(4)] by (simp add: tokens_def)
  next
    case (pop slot b)
    then show ?thesis using step(4) by (auto simp: tokens_def take_critical_def split: list.splits)
  next
    case (pop_empty b)
    then show ?thesis using step(4) by (auto simp: tokens_def take_critical_def split: list.splits)
  next
    case (give_back slot b)
    then show ?thesis using step(4) by (auto simp: tokens_def push_free_def split: if_splits)
  qed (use step(2) assms(2) in simp_all)
qed

lemma take_steps:
  assumes "0 < ab_ready (at_buf s)" "at_consumer s = CIdle" "ab_sorted (at_buf s) = slot # rest"
  shows "\<exists>s1 s2. astep Consumer s s1 \<and> astep Consumer s1 s2 \<and> at_consumer s2 = CHeld slot \<and>
    at_draining s2 = at_draining s"
proof -
  let ?b = "(at_buf s)\<lparr>ab_ready := ab_ready (at_buf s) - 1\<rparr>"
  let ?s1 = "s\<lparr>at_buf := ?b, at_consumer := CToken\<rparr>"
  let ?s2 = "?s1\<lparr>at_buf := ?b\<lparr>ab_sorted := rest\<rparr>, at_consumer := CHeld slot\<rparr>"
  have "astep Consumer s ?s1" using assms by (intro token) (simp_all add: sem_take_def)
  moreover have "astep Consumer ?s1 ?s2"
    using assms(3) by (intro pop) (simp_all add: take_critical_def)
  ultimately show ?thesis by (intro exI [of _ ?s1] exI [of _ ?s2]) simp
qed

text \<open>
  C8. No lost wake-up while nobody flushes: whenever the producer and the consumer are between two
  operations and a frame is queued, the consumer's take gets through and holds the oldest frame.
\<close>

theorem queued_frame_can_be_taken:
  assumes "areach {Producer, Consumer} n s" "\<not> at_giving s" "at_consumer s = CIdle"
    and "ab_sorted (at_buf s) = slot # rest"
  shows "\<exists>s1 s2. astep Consumer s s1 \<and> astep Consumer s1 s2 \<and> at_consumer s2 = CHeld slot"
  using take_steps [OF _ assms(3,4)] tokens_cover [OF assms(1)] assms(2-4) by (auto simp: tokens_def)

lemma insert_step:
  assumes "areach tasks n s" "Producer \<in> tasks" "\<not> at_giving s" "held s = []" "0 < n"
  shows "\<exists>s' s''. areach tasks n s' \<and> areach tasks n s'' \<and> astep Producer s s' \<and> astep Producer s' s'' \<and>
    \<not> at_giving s'' \<and> at_consumer s'' = at_consumer s \<and> at_draining s'' = at_draining s \<and>
    ab_sorted (at_buf s'') \<noteq> []"
proof -
  have ok: "ab_ok (at_buf s) []" "ab_capacity (at_buf s) = n" using areach_ok [OF assms(1)] assms(4) by simp_all
  have fits: "chunk_fits [1, 2] 1 2"
    by (simp add: chunk_fits_def AAC_FRAMES_PER_PACKET_def AUDIO_MAX_CHANNELS_def)
  have "\<exists>b. queue_critical (at_buf s) 0 [1, 2] 1 2 = Some (True, b) \<and> ab_sorted b \<noteq> []"
    using ok(1) chunk_fitsD(1,2) [OF fits]
    by (cases rule: queue_critical_cases [where ts = 0]) (use assms(5) ok(2) in auto)
  then obtain b where b: "queue_critical (at_buf s) 0 [1, 2] 1 2 = Some (True, b)" "ab_sorted b \<noteq> []" by blast
  let ?s' = "s\<lparr>at_buf := b, at_giving := True\<rparr>"
  let ?s'' = "?s'\<lparr>at_buf := sem_give (at_buf ?s'), at_giving := False\<rparr>"
  have "astep Producer s ?s'" "astep Producer ?s' ?s''"
    using insert_ok [OF assms(3) fits b(1)] give [of ?s'] by simp_all
  moreover from this have "areach tasks n ?s'" "areach tasks n ?s''"
    using areach.step [OF assms(1,2)] areach.step [OF areach.step [OF assms(1,2)] assms(2)] by blast+
  ultimately show ?thesis using b(2) by (intro exI [of _ ?s'] exI [of _ ?s'']) simp
qed

lemma queued_frame_can_be_taken_witness:
  "\<exists>s slot rest s2. areach {Producer, Consumer} 1 s \<and> ab_sorted (at_buf s) = slot # rest \<and>
    areach {Producer, Consumer} 1 s2 \<and> at_consumer s2 = CHeld slot"
proof -
  obtain s where s: "areach {Producer, Consumer} 1 s" "\<not> at_giving s" "at_consumer s = CIdle"
    "ab_sorted (at_buf s) \<noteq> []"
    using insert_step [OF areach.start, of "{Producer, Consumer}" 1] by (auto simp: idle_tasks_def held_def)
  then obtain slot rest where "ab_sorted (at_buf s) = slot # rest" by (cases "ab_sorted (at_buf s)") auto
  then show ?thesis
    using queued_frame_can_be_taken [OF s(1-3)] s(1) by (meson areach.step insertCI)
qed

lemma held_frame_is_stable_witness:
  "\<exists>s s' slot. areach UNIV 1 s \<and> astep Flusher s s' \<and> at_consumer s = CHeld slot \<and>
    slot_ptr (at_buf s') slot = slot_ptr (at_buf s) slot"
proof -
  obtain s where s: "areach {Producer, Consumer} 1 s" "\<not> at_giving s" "at_consumer s = CIdle"
    "\<not> at_draining s" "ab_sorted (at_buf s) \<noteq> []"
    using insert_step [OF areach.start, of "{Producer, Consumer}" 1] by (auto simp: idle_tasks_def held_def)
  then obtain slot rest where q: "ab_sorted (at_buf s) = slot # rest" by (cases "ab_sorted (at_buf s)") auto
  have "0 < ab_ready (at_buf s)" using tokens_cover [OF s(1)] s(2,3) q by (simp add: tokens_def)
  then obtain s1 s2 where s2: "astep Consumer s s1" "astep Consumer s1 s2" "at_consumer s2 = CHeld slot"
    "\<not> at_draining s2"
    using take_steps [OF _ s(3) q] s(4) by blast
  have "areach UNIV 1 s" using areach_mono [OF s(1)] by simp
  then have r: "areach UNIV 1 s2" using s2 areach.step UNIV_I by blast
  have "ab_ok (at_buf s2) (held s2)" using areach_ok [OF r] by blast
  from flush_critical_ok(1) [OF this] obtain b where "flush_critical (at_buf s2) = Some b" by blast
  then have f: "astep Flusher s2 (s2\<lparr>at_buf := b, at_draining := True\<rparr>)" by (rule clear [OF s2(4)])
  show ?thesis
    using held_frame_is_stable [OF r f s2(3)] r f s2(3)
    by (intro exI [of _ s2] exI [of _ "s2\<lparr>at_buf := b, at_draining := True\<rparr>"] exI [of _ slot]) simp
qed

text \<open>
  The flush can leave frames that nobody is told about: the flusher empties the queue inside the
  critical section but takes the tokens outside of it, so a chunk inserted in between loses its
  token. There is a run after which all tasks are idle, a frame is queued, and the consumer's take
  does not get through.
\<close>

theorem flush_can_lose_a_wakeup:
  "\<exists>s. areach UNIV 1 s \<and> \<not> at_giving s \<and> at_consumer s = CIdle \<and> \<not> at_draining s \<and>
    ab_sorted (at_buf s) \<noteq> [] \<and> (\<forall>s'. \<not> astep Consumer s s')"
proof -
  let ?s0 = "idle_tasks (fresh_buffer 1)"
  let ?s1 = "?s0\<lparr>at_draining := True\<rparr>"
  have "astep Flusher ?s0 (?s0\<lparr>at_buf := fresh_buffer 1, at_draining := True\<rparr>)"
    by (rule clear) (simp_all add: idle_tasks_def flush_critical_def fresh_buffer_def)
  then have "areach UNIV 1 ?s1" using areach.step [OF areach.start] by (fastforce simp: idle_tasks_def)
  then obtain s where s: "areach UNIV 1 s" "\<not> at_giving s" "at_consumer s = CIdle" "at_draining s"
    "ab_sorted (at_buf s) \<noteq> []"
    using insert_step [of UNIV 1 ?s1] by (auto simp: idle_tasks_def held_def)
  have "\<exists>s'. areach UNIV 1 s' \<and> \<not> at_giving s' \<and> at_consumer s' = CIdle \<and> at_draining s' \<and>
      ab_sorted (at_buf s') \<noteq> [] \<and> ab_ready (at_buf s') = 0"
    using s
  proof (induction "ab_ready (at_buf s)" arbitrary: s)
    case 0
    then show ?case by metis
  next
    case (Suc k)
    let ?b = "(at_buf s)\<lparr>ab_ready := ab_ready (at_buf s) - 1\<rparr>"
    have "astep Flusher s (s\<lparr>at_buf := ?b\<rparr>)"
      using Suc by (intro drain) (simp_all add: sem_take_def)
    then have "areach UNIV 1 (s\<lparr>at_buf := ?b\<rparr>)" using areach.step [OF Suc.prems(1)] by blast
    then show ?case using Suc(1) [of "s\<lparr>at_buf := ?b\<rparr>"] Suc(2-) by simp
  qed
  then obtain s' where s': "areach UNIV 1 s'" "\<not> at_giving s'" "at_consumer s' = CIdle" "at_draining s'"
    "ab_sorted (at_buf s') \<noteq> []" "ab_ready (at_buf s') = 0" by blast
  let ?e = "s'\<lparr>at_draining := False\<rparr>"
  have "astep Flusher s' (s'\<lparr>at_buf := at_buf s', at_draining := False\<rparr>)"
    using s' by (intro drained) (simp_all add: sem_take_def)
  then have "areach UNIV 1 ?e" using areach.step [OF s'(1)] by auto
  moreover have "\<not> astep Consumer ?e s''" for s''
    using s' by (auto elim!: consumer_step simp: sem_take_def)
  ultimately show ?thesis using s' by (intro exI [of _ ?e]) simp
qed

end
