(* ===== verification/Crypto.thy ===== *)
theory Crypto
  imports Prelude
begin

section \<open>The cryptographic library as a parameter\<close>

text \<open>
  The code calls libsodium and mbedTLS for its primitives. Their code is not part of the
  repository, so the model takes them as a value of the record \<open>crypto\<close>; \<open>crypto_ok\<close> states what
  the callers rely on: the documented sizes of the results, and that the AEAD decryption accepts
  exactly what the encryption under the same key, nonce and associated data produces.
\<close>

record crypto =
  sha512 :: "bytes \<Rightarrow> bytes"
  hmac512 :: "bytes \<Rightarrow> bytes \<Rightarrow> bytes"
  aead_enc :: "bytes \<Rightarrow> bytes \<Rightarrow> bytes \<Rightarrow> bytes \<Rightarrow> bytes"
  aead_dec :: "bytes \<Rightarrow> bytes \<Rightarrow> bytes \<Rightarrow> bytes \<Rightarrow> bytes option"
  x25519 :: "bytes \<Rightarrow> bytes \<Rightarrow> bool \<times> bytes"
  ed25519_sign :: "bytes \<Rightarrow> bytes \<Rightarrow> bytes"
  aes_ctr :: "bytes \<Rightarrow> bytes \<Rightarrow> bytes \<Rightarrow> bytes"

definition crypto_ok :: "crypto \<Rightarrow> bool" where
  "crypto_ok C \<longleftrightarrow>
    (\<forall>m. length (sha512 C m) = 64) \<and>
    (\<forall>k m. length (hmac512 C k m) = 64) \<and>
    (\<forall>k n a p. length (aead_enc C k n a p) = length p + 16) \<and>
    (\<forall>k n a c p. aead_dec C k n a c = Some p \<longleftrightarrow> c = aead_enc C k n a p) \<and>
    (\<forall>s p. length (snd (x25519 C s p)) = 32) \<and>
    (\<forall>s m. length (ed25519_sign C s m) = 64) \<and>
    (\<forall>k i m. length (aes_ctr C k i m) = length m)"

lemma crypto_okD [simp]:
  assumes "crypto_ok C"
  shows "length (sha512 C m) = 64" "length (hmac512 C k m) = 64"
    "length (aead_enc C k n a p) = length p + 16"
    "aead_dec C k n a (aead_enc C k n a p) = Some p"
    "length (snd (x25519 C s p)) = 32" "length (ed25519_sign C s m) = 64" "length (aes_ctr C k i m) = length m"
  using assms by (simp_all add: crypto_ok_def)

lemma aead_dec_iff:
  "crypto_ok C \<Longrightarrow> aead_dec C k n a c = Some p \<longleftrightarrow> c = aead_enc C k n a p"
  unfolding crypto_ok_def by blast

lemma aead_dec_length: "crypto_ok C \<Longrightarrow> aead_dec C k n a c = Some p \<Longrightarrow> length c = length p + 16"
  using aead_dec_iff [of C k n a c p] crypto_okD(3) [of C k n a p] by blast

text \<open>An instance with these sizes and laws, for the concrete runs of the model.\<close>

definition plain_crypto :: crypto where
  "plain_crypto = \<lparr>sha512 = (\<lambda>m. take 64 (m @ replicate 64 0)),
     hmac512 = (\<lambda>k m. take 64 (m @ replicate 64 0)),
     aead_enc = (\<lambda>k n a p. p @ replicate 16 0),
     aead_dec = (\<lambda>k n a c. if 16 \<le> length c \<and> drop (length c - 16) c = replicate 16 0
       then Some (take (length c - 16) c) else None),
     x25519 = (\<lambda>s p. (True, replicate 32 1)),
     ed25519_sign = (\<lambda>s m. replicate 64 2),
     aes_ctr = (\<lambda>k i m. m)\<rparr>"

lemma plain_crypto_ok [simp]: "crypto_ok plain_crypto"
proof -
  have "(if 16 \<le> length c \<and> drop (length c - 16) c = replicate 16 0 then Some (take (length c - 16) c) else None) =
      Some p \<longleftrightarrow> c = p @ replicate 16 0" for c p :: bytes
  proof
    assume "(if 16 \<le> length c \<and> drop (length c - 16) c = replicate 16 0 then Some (take (length c - 16) c) else None) =
      Some p"
    then show "c = p @ replicate 16 0"
      by (metis append_take_drop_id option.distinct(1) option.inject)
  qed simp
  moreover have "min (length m) 64 + (64 - length m) = 64" for m :: bytes by arith
  ultimately show ?thesis by (simp add: crypto_ok_def plain_crypto_def)
qed

text \<open>The little-endian bytes of a 64-bit counter, and the 12-byte nonce the channels use.\<close>

definition le_bytes64 :: "u64 \<Rightarrow> bytes" where
  "le_bytes64 w = map (\<lambda>i. ucast (drop_bit (8 * i) w)) [0..<8]"

definition counter_nonce :: "u64 \<Rightarrow> bytes" where
  "counter_nonce n = replicate 4 0 @ le_bytes64 n"

lemma length_counter_nonce [simp]: "length (counter_nonce n) = 12"
  by (simp add: counter_nonce_def le_bytes64_def)

end
