(* ===== verification/Hap_Session.thy ===== *)
theory Hap_Session
  imports Crypto
begin

section \<open>HAP sessions and key derivation (main/hap/hap.c, hap_crypto.c)\<close>

text \<open>
  The session state of a paired client, its creation and release, the HKDF key derivation and the
  message encryption of the control channel. Fixed-size byte arrays are lists of that length.
\<close>

subsection \<open>State\<close>

text \<open>The state of the SRP exchange (\<open>srp_session_t\<close>).\<close>

record srp_session =
  srp_salt :: bytes
  srp_server_public_key :: bytes
  srp_server_secret :: bytes
  srp_client_public_key :: bytes
  srp_session_key :: bytes
  srp_session_key_len :: nat
  srp_proof_m1 :: bytes
  srp_proof_m2 :: bytes
  srp_state :: nat
  srp_verified :: bool

record hap_session =
  hs_device_public_key :: bytes
  hs_device_secret_key :: bytes
  hs_session_public_key :: bytes
  hs_session_secret_key :: bytes
  hs_client_public_key :: bytes
  hs_shared_secret :: bytes
  hs_encrypt_key :: bytes
  hs_decrypt_key :: bytes
  hs_encrypt_nonce :: u64
  hs_decrypt_nonce :: u64
  hs_pair_verify_state :: nat
  hs_pair_setup_state :: nat
  hs_pair_setup_transient :: bool
  hs_session_established :: bool
  hs_srp :: "srp_session option"

text \<open>
  Creation: \<open>calloc\<close> zeroes the session; the device keys are the module's, the ephemeral key pair
  is what \<open>crypto_box_keypair\<close> drew.
\<close>

definition hap_session_create :: "bytes \<times> bytes \<Rightarrow> bytes \<times> bytes \<Rightarrow> hap_session" where
  "hap_session_create device ephemeral = \<lparr>
     hs_device_public_key = fst device, hs_device_secret_key = snd device,
     hs_session_public_key = fst ephemeral, hs_session_secret_key = snd ephemeral,
     hs_client_public_key = replicate 32 0, hs_shared_secret = replicate 32 0,
     hs_encrypt_key = replicate 32 0, hs_decrypt_key = replicate 32 0,
     hs_encrypt_nonce = 0, hs_decrypt_nonce = 0,
     hs_pair_verify_state = 0, hs_pair_setup_state = 0, hs_pair_setup_transient = False,
     hs_session_established = False, hs_srp = None\<rparr>"

text \<open>What the memory of the session holds when it goes back to the heap.\<close>

definition hap_session_free :: "hap_session \<Rightarrow> hap_session" where
  "hap_session_free s = s\<lparr>hs_srp := None,
     hs_device_secret_key := replicate (length (hs_device_secret_key s)) 0,
     hs_session_secret_key := replicate (length (hs_session_secret_key s)) 0,
     hs_shared_secret := replicate (length (hs_shared_secret s)) 0,
     hs_encrypt_key := replicate (length (hs_encrypt_key s)) 0,
     hs_decrypt_key := replicate (length (hs_decrypt_key s)) 0\<rparr>"

subsection \<open>HKDF-SHA512\<close>

function hkdf_loop :: "crypto \<Rightarrow> bytes \<Rightarrow> bytes \<Rightarrow> nat \<Rightarrow> bytes \<Rightarrow> u8 \<Rightarrow> nat \<Rightarrow> bytes \<Rightarrow> bytes" where
  "hkdf_loop C prk info okm_len t counter pos okm =
    (if pos < okm_len then
       let t = hmac512 C prk (t @ info @ [counter]);
           copy_len = (if okm_len - pos > 64 then 64 else okm_len - pos) in
       hkdf_loop C prk info okm_len t (counter + 1) (pos + copy_len) (okm @ take copy_len t)
     else okm)"
  by auto

termination
  by (relation "measure (\<lambda>(C, prk, info, okm_len, t, counter, pos, okm). okm_len - pos)") auto

declare hkdf_loop.simps [simp del]

definition hap_hkdf_sha512 :: "crypto \<Rightarrow> bytes \<Rightarrow> bytes \<Rightarrow> bytes \<Rightarrow> nat \<Rightarrow> bytes" where
  "hap_hkdf_sha512 C salt ikm info okm_len =
    (let prk = hmac512 C (if length salt > 0 then salt else replicate 64 0) ikm in
     hkdf_loop C prk info okm_len [] 1 0 [])"

text \<open>The reference: the expand step of RFC 5869.\<close>

fun rfc5869_T :: "crypto \<Rightarrow> bytes \<Rightarrow> bytes \<Rightarrow> nat \<Rightarrow> bytes" where
  "rfc5869_T C prk info 0 = []"
| "rfc5869_T C prk info (Suc n) = hmac512 C prk (rfc5869_T C prk info n @ info @ [of_nat (Suc n)])"

definition rfc5869_okm :: "crypto \<Rightarrow> bytes \<Rightarrow> bytes \<Rightarrow> nat \<Rightarrow> bytes" where
  "rfc5869_okm C prk info L =
    take L (concat (map (\<lambda>i. rfc5869_T C prk info (Suc i)) [0..<(L + 63) div 64]))"

lemma rfc5869_T_length: "crypto_ok C \<Longrightarrow> length (rfc5869_T C prk info (Suc n)) = 64"
  by simp

declare rfc5869_T.simps(2) [simp del]

definition T_blocks :: "crypto \<Rightarrow> bytes \<Rightarrow> bytes \<Rightarrow> nat \<Rightarrow> bytes" where
  "T_blocks C prk info n = concat (map (\<lambda>i. rfc5869_T C prk info (Suc i)) [0..<n])"

lemma T_blocks_Suc: "T_blocks C prk info (Suc n) = T_blocks C prk info n @ rfc5869_T C prk info (Suc n)"
  by (simp add: T_blocks_def)

lemma T_blocks_length: "crypto_ok C \<Longrightarrow> length (T_blocks C prk info n) = 64 * n"
  by (induction n) (simp_all add: T_blocks_Suc rfc5869_T_length, simp add: T_blocks_def)

lemma hkdf_loop_rfc:
  assumes "crypto_ok C" "64 * n \<le> L"
  shows "hkdf_loop C prk info L (rfc5869_T C prk info n) (of_nat (Suc n)) (64 * n) (T_blocks C prk info n) =
    rfc5869_okm C prk info L"
  using assms(2)
proof (induction "L - 64 * n" arbitrary: n rule: less_induct)
  case less
  let ?T = "rfc5869_T C prk info"
  let ?c = "T_blocks C prk info"
  note len = T_blocks_length [OF assms(1), of prk info]
  note tl = rfc5869_T_length [OF assms(1), of prk info]
  show ?case
  proof (cases "64 * n < L")
    case False
    then have L: "L = 64 * n" "(L + 63) div 64 = n" using less.prems by simp_all
    then show ?thesis
      using len [of n] by (subst hkdf_loop.simps) (simp add: rfc5869_okm_def flip: T_blocks_def)
  next
    case True
    let ?k = "if L - 64 * n > 64 then 64 else L - 64 * n"
    have c: "of_nat (Suc n) + 1 = (of_nat (Suc (Suc n)) :: u8)" by simp
    have step: "hkdf_loop C prk info L (?T n) (of_nat (Suc n)) (64 * n) (?c n) =
        hkdf_loop C prk info L (?T (Suc n)) (of_nat (Suc (Suc n))) (64 * n + ?k) (?c n @ take ?k (?T (Suc n)))"
      by (subst hkdf_loop.simps) (simp only: True if_True Let_def rfc5869_T.simps(2) c)
    show ?thesis
    proof (cases "64 * Suc n \<le> L")
      case more: True
      then have "?k = 64" by auto
      then have "64 * n + ?k = 64 * Suc n" "?c n @ take ?k (?T (Suc n)) = ?c (Suc n)"
        using tl [of n] by (simp_all add: T_blocks_Suc)
      then show ?thesis
        using less.hyps [of "Suc n"] more True unfolding step by (simp only:) simp
    next
      case False
      then have "(L + 63) div 64 = Suc n" "?k = L - 64 * n" using True by simp_all
      then have "rfc5869_okm C prk info L = ?c n @ take ?k (?T (Suc n))"
        using len [of n] True by (simp add: rfc5869_okm_def T_blocks_Suc flip: T_blocks_def)
      moreover have "\<not> 64 * n + ?k < L" using \<open>?k = L - 64 * n\<close> True by simp
      ultimately show ?thesis unfolding step by (subst hkdf_loop.simps) simp
    qed
  qed
qed

lemma hkdf_eq_rfc5869:
  "crypto_ok C \<Longrightarrow> hap_hkdf_sha512 C salt ikm info okm_len =
    rfc5869_okm C (hmac512 C (if salt = [] then replicate 64 0 else salt) ikm) info okm_len"
  using hkdf_loop_rfc [of C 0 okm_len _ info] by (simp add: hap_hkdf_sha512_def T_blocks_def)

text \<open>
  C15. The key derivation is HKDF: the loop that fills the output block by block computes the first
  \<open>okm_len\<close> bytes of the expansion of RFC 5869 under the extracted key, for every output length.
\<close>

theorem hap_hkdf_is_rfc5869:
  assumes "crypto_ok C"
  shows "hap_hkdf_sha512 C salt ikm info okm_len =
    rfc5869_okm C (hmac512 C (if salt = [] then replicate 64 0 else salt) ikm) info okm_len"
  by (rule hkdf_eq_rfc5869 [OF assms])

lemma hap_hkdf_is_rfc5869_witness:
  "hap_hkdf_sha512 plain_crypto [] [1] [2] 80 =
    rfc5869_okm plain_crypto (hmac512 plain_crypto (replicate 64 0) [1]) [2] 80"
  using hap_hkdf_is_rfc5869 [OF plain_crypto_ok, of "[]" "[1]" "[2]" 80] by simp

lemma hap_hkdf_length [simp]: "crypto_ok C \<Longrightarrow> length (hap_hkdf_sha512 C salt ikm info n) = n"
proof -
  have "n \<le> 64 * ((n + 63) div 64)" by linarith
  then show "crypto_ok C \<Longrightarrow> length (hap_hkdf_sha512 C salt ikm info n) = n"
    by (simp add: hkdf_eq_rfc5869 rfc5869_okm_def T_blocks_length min_absorb2 flip: T_blocks_def)
qed

subsection \<open>The keys and the channel of an established session\<close>

definition control_salt :: bytes where "control_salt = ascii ''Control-Salt''"
definition control_read_info :: bytes where "control_read_info = ascii ''Control-Read-Encryption-Key''"
definition control_write_info :: bytes where "control_write_info = ascii ''Control-Write-Encryption-Key''"

definition hap_derive_audio_key :: "crypto \<Rightarrow> hap_session \<Rightarrow> nat \<Rightarrow> esp_err + bytes" where
  "hap_derive_audio_key C s key_len =
    (if key_len < 16 then Inl ESP_ERR_INVALID_ARG
     else if \<not> hs_session_established s then Inl ESP_ERR_INVALID_STATE
     else Inr (hap_hkdf_sha512 C control_salt (take 32 (hs_shared_secret s)) control_read_info key_len))"

definition hap_encrypt :: "crypto \<Rightarrow> hap_session \<Rightarrow> bytes \<Rightarrow> (esp_err + bytes) \<times> hap_session" where
  "hap_encrypt C s plaintext =
    (if \<not> hs_session_established s then (Inl ESP_ERR_INVALID_STATE, s)
     else (Inr (aead_enc C (hs_encrypt_key s) (counter_nonce (hs_encrypt_nonce s)) [] plaintext),
       s\<lparr>hs_encrypt_nonce := hs_encrypt_nonce s + 1\<rparr>))"

definition hap_decrypt :: "crypto \<Rightarrow> hap_session \<Rightarrow> bytes \<Rightarrow> (esp_err + bytes) \<times> hap_session" where
  "hap_decrypt C s ciphertext =
    (if \<not> hs_session_established s then (Inl ESP_ERR_INVALID_STATE, s)
     else case aead_dec C (hs_decrypt_key s) (counter_nonce (hs_decrypt_nonce s)) [] ciphertext of
       None \<Rightarrow> (Inl ESP_ERR_INVALID_STATE, s)
     | Some plaintext \<Rightarrow> (Inr plaintext, s\<lparr>hs_decrypt_nonce := hs_decrypt_nonce s + 1\<rparr>))"

end
