(* ===== verification/Srp.thy ===== *)
theory Srp
  imports Hap_Session
begin

section \<open>SRP-6a (main/hap/srp.c)\<close>

text \<open>
  The password-authenticated key exchange of pair-setup. Multiprecision integers are naturals,
  written and read big-endian; \<open>mpi_ok k\<close> says whether the \<open>k\<close>-th checked library call succeeds
  (it can run out of memory), the unchecked ones are taken to succeed. A SHA-512 computed in
  several updates is the hash of the concatenated pieces. Random salt and secret are arguments.
\<close>

subsection \<open>Numbers as bytes\<close>

definition SRP_PRIME_BYTES :: nat where "SRP_PRIME_BYTES = 384"
definition SRP_SALT_BYTES :: nat where "SRP_SALT_BYTES = 16"
definition SRP_PROOF_BYTES :: nat where "SRP_PROOF_BYTES = 64"
definition SRP_GENERATOR :: nat where "SRP_GENERATOR = 5"

definition srp_N :: bytes where
  "srp_N = [
    0xFF, 0xFF, 0xFF, 0xFF, 0xFF, 0xFF, 0xFF, 0xFF, 0xC9, 0x0F, 0xDA, 0xA2,
    0x21, 0x68, 0xC2, 0x34, 0xC4, 0xC6, 0x62, 0x8B, 0x80, 0xDC, 0x1C, 0xD1,
    0x29, 0x02, 0x4E, 0x08, 0x8A, 0x67, 0xCC, 0x74, 0x02, 0x0B, 0xBE, 0xA6,
    0x3B, 0x13, 0x9B, 0x22, 0x51, 0x4A, 0x08, 0x79, 0x8E, 0x34, 0x04, 0xDD,
    0xEF, 0x95, 0x19, 0xB3, 0xCD, 0x3A, 0x43, 0x1B, 0x30, 0x2B, 0x0A, 0x6D,
    0xF2, 0x5F, 0x14, 0x37, 0x4F, 0xE1, 0x35, 0x6D, 0x6D, 0x51, 0xC2, 0x45,
    0xE4, 0x85, 0xB5, 0x76, 0x62, 0x5E, 0x7E, 0xC6, 0xF4, 0x4C, 0x42, 0xE9,
    0xA6, 0x37, 0xED, 0x6B, 0x0B, 0xFF, 0x5C, 0xB6, 0xF4, 0x06, 0xB7, 0xED,
    0xEE, 0x38, 0x6B, 0xFB, 0x5A, 0x89, 0x9F, 0xA5, 0xAE, 0x9F, 0x24, 0x11,
    0x7C, 0x4B, 0x1F, 0xE6, 0x49, 0x28, 0x66, 0x51, 0xEC, 0xE4, 0x5B, 0x3D,
    0xC2, 0x00, 0x7C, 0xB8, 0xA1, 0x63, 0xBF, 0x05, 0x98, 0xDA, 0x48, 0x36,
    0x1C, 0x55, 0xD3, 0x9A, 0x69, 0x16, 0x3F, 0xA8, 0xFD, 0x24, 0xCF, 0x5F,
    0x83, 0x65, 0x5D, 0x23, 0xDC, 0xA3, 0xAD, 0x96, 0x1C, 0x62, 0xF3, 0x56,
    0x20, 0x85, 0x52, 0xBB, 0x9E, 0xD5, 0x29, 0x07, 0x70, 0x96, 0x96, 0x6D,
    0x67, 0x0C, 0x35, 0x4E, 0x4A, 0xBC, 0x98, 0x04, 0xF1, 0x74, 0x6C, 0x08,
    0xCA, 0x18, 0x21, 0x7C, 0x32, 0x90, 0x5E, 0x46, 0x2E, 0x36, 0xCE, 0x3B,
    0xE3, 0x9E, 0x77, 0x2C, 0x18, 0x0E, 0x86, 0x03, 0x9B, 0x27, 0x83, 0xA2,
    0xEC, 0x07, 0xA2, 0x8F, 0xB5, 0xC5, 0x5D, 0xF0, 0x6F, 0x4C, 0x52, 0xC9,
    0xDE, 0x2B, 0xCB, 0xF6, 0x95, 0x58, 0x17, 0x18, 0x39, 0x95, 0x49, 0x7C,
    0xEA, 0x95, 0x6A, 0xE5, 0x15, 0xD2, 0x26, 0x18, 0x98, 0xFA, 0x05, 0x10,
    0x15, 0x72, 0x8E, 0x5A, 0x8A, 0xAA, 0xC4, 0x2D, 0xAD, 0x33, 0x17, 0x0D,
    0x04, 0x50, 0x7A, 0x33, 0xA8, 0x55, 0x21, 0xAB, 0xDF, 0x1C, 0xBA, 0x64,
    0xEC, 0xFB, 0x85, 0x04, 0x58, 0xDB, 0xEF, 0x0A, 0x8A, 0xEA, 0x71, 0x57,
    0x5D, 0x06, 0x0C, 0x7D, 0xB3, 0x97, 0x0F, 0x85, 0xA6, 0xE1, 0xE4, 0xC7,
    0xAB, 0xF5, 0xAE, 0x8C, 0xDB, 0x09, 0x33, 0xD7, 0x1E, 0x8C, 0x94, 0xE0,
    0x4A, 0x25, 0x61, 0x9D, 0xCE, 0xE3, 0xD2, 0x26, 0x1A, 0xD2, 0xEE, 0x6B,
    0xF1, 0x2F, 0xFA, 0x06, 0xD9, 0x8A, 0x08, 0x64, 0xD8, 0x76, 0x02, 0x73,
    0x3E, 0xC8, 0x6A, 0x64, 0x52, 0x1F, 0x2B, 0x18, 0x17, 0x7B, 0x20, 0x0C,
    0xBB, 0xE1, 0x17, 0x57, 0x7A, 0x61, 0x5D, 0x6C, 0x77, 0x09, 0x88, 0xC0,
    0xBA, 0xD9, 0x46, 0xE2, 0x08, 0xE2, 0x4F, 0xA0, 0x74, 0xE5, 0xAB, 0x31,
    0x43, 0xDB, 0x5B, 0xFC, 0xE0, 0xFD, 0x10, 0x8E, 0x4B, 0x82, 0xD1, 0x20,
    0xA9, 0x3A, 0xD2, 0xCA, 0xFF, 0xFF, 0xFF, 0xFF, 0xFF, 0xFF, 0xFF, 0xFF]"

text \<open>The bytes of a number without leading zeros (\<open>mbedtls_mpi_size\<close> of them).\<close>

fun mpi_bytes :: "nat \<Rightarrow> bytes" where
  "mpi_bytes n = (if n = 0 then [] else mpi_bytes (n div 256) @ [of_nat (n mod 256)])"

declare mpi_bytes.simps [simp del]

definition mpi_to_bytes_min :: "nat \<Rightarrow> nat \<Rightarrow> bytes" where
  "mpi_to_bytes_min mpi len =
    (if mpi = 0 then (if len < 1 then [] else [0])
     else if length (mpi_bytes mpi) > len then [] else mpi_bytes mpi)"

definition mpi_to_bytes_padded :: "nat \<Rightarrow> bytes \<Rightarrow> bytes" where
  "mpi_to_bytes_padded mpi buf =
    (if length (mpi_bytes mpi) > length buf then buf
     else replicate (length buf - length (mpi_bytes mpi)) 0 @ mpi_bytes mpi)"

fun trim_leading_zeros :: "bytes \<Rightarrow> bytes" where
  "trim_leading_zeros (b # c # bs) = (if b = 0 then trim_leading_zeros (c # bs) else b # c # bs)"
| "trim_leading_zeros bs = bs"

subsection \<open>The values of the protocol\<close>

definition srp_prime :: nat where
  "srp_prime = be_val srp_N"

definition srp_k :: "crypto \<Rightarrow> nat" where
  "srp_k C = be_val (sha512 C (srp_N @ replicate (SRP_PRIME_BYTES - 1) 0 @ [of_nat SRP_GENERATOR])) mod srp_prime"

definition srp_x :: "crypto \<Rightarrow> bytes \<Rightarrow> bytes \<Rightarrow> bytes \<Rightarrow> nat" where
  "srp_x C salt username password =
    be_val (sha512 C (salt @ sha512 C (username @ ascii '':'' @ password)))"

definition srp_u :: "crypto \<Rightarrow> bytes \<Rightarrow> bytes \<Rightarrow> nat" where
  "srp_u C client_pk server_pk = be_val (sha512 C (client_pk @ server_pk))"

definition exp_mod :: "nat \<Rightarrow> nat \<Rightarrow> nat" where
  "exp_mod a e = a ^ e mod srp_prime"

definition compute_m1 :: "crypto \<Rightarrow> bytes \<Rightarrow> bytes \<Rightarrow> bytes \<Rightarrow> bytes \<Rightarrow> bytes \<Rightarrow> bytes \<Rightarrow> bytes" where
  "compute_m1 C h_Ng_xor h_I salt A B K = sha512 C (h_Ng_xor @ h_I @ salt @ A @ B @ K)"

definition srp_m1 :: "crypto \<Rightarrow> bytes \<Rightarrow> nat \<Rightarrow> nat \<Rightarrow> bytes \<Rightarrow> bytes" where
  "srp_m1 C salt A B K =
    compute_m1 C (map2 (XOR) (sha512 C srp_N) (sha512 C [of_nat SRP_GENERATOR])) (sha512 C (ascii ''Pair-Setup''))
      (trim_leading_zeros salt) (mpi_to_bytes_min A SRP_PRIME_BYTES) (mpi_to_bytes_min B SRP_PRIME_BYTES) K"

subsection \<open>The server's side\<close>

definition srp_session_create :: srp_session where
  "srp_session_create = \<lparr>srp_salt = replicate SRP_SALT_BYTES 0,
     srp_server_public_key = replicate SRP_PRIME_BYTES 0, srp_server_secret = replicate SRP_PRIME_BYTES 0,
     srp_client_public_key = replicate SRP_PRIME_BYTES 0, srp_session_key = replicate 64 0,
     srp_session_key_len = 0, srp_proof_m1 = replicate 64 0, srp_proof_m2 = replicate 64 0,
     srp_state = 0, srp_verified = False\<rparr>"

definition srp_start :: "crypto \<Rightarrow> (nat \<Rightarrow> bool) \<Rightarrow> bytes \<Rightarrow> bytes \<Rightarrow> srp_session \<Rightarrow> bytes \<Rightarrow> bytes \<Rightarrow>
    esp_err \<times> srp_session" where
  "srp_start C mpi_ok random_salt random_b s username password =
    (let s = s\<lparr>srp_salt := random_salt\<rparr>;
         k = srp_k C;
         x = srp_x C (srp_salt s) username password in
     if \<not> mpi_ok 0 then (ESP_FAIL, s)
     else let v = exp_mod SRP_GENERATOR x;
              b = be_val random_b mod srp_prime;
              s = s\<lparr>srp_server_secret := mpi_to_bytes_padded b (srp_server_secret s)\<rparr> in
       if \<not> mpi_ok 1 \<or> \<not> mpi_ok 2 \<or> \<not> mpi_ok 3 then (ESP_FAIL, s)
       else let B = (k * v + exp_mod SRP_GENERATOR b) mod srp_prime in
         (ESP_OK, s\<lparr>srp_server_public_key := mpi_to_bytes_padded B (srp_server_public_key s), srp_state := 1\<rparr>))"

definition srp_verify_client :: "crypto \<Rightarrow> (nat \<Rightarrow> bool) \<Rightarrow> srp_session \<Rightarrow> bytes \<Rightarrow> bytes \<Rightarrow>
    esp_err \<times> srp_session" where
  "srp_verify_client C mpi_ok s client_pk client_proof =
    (if length client_proof < SRP_PROOF_BYTES then (ESP_ERR_INVALID_ARG, s)
     else let pk = take SRP_PRIME_BYTES client_pk;
              s = s\<lparr>srp_client_public_key := replicate (SRP_PRIME_BYTES - length pk) 0 @ pk\<rparr>;
              A = be_val (srp_client_public_key s);
              B = be_val (srp_server_public_key s);
              b = be_val (srp_server_secret s) in
       if A = 0 then (ESP_FAIL, s)
       else if A mod srp_prime = 0 then (ESP_FAIL, s)
       else let u = srp_u C (srp_client_public_key s) (srp_server_public_key s);
                x = srp_x C (srp_salt s) (ascii ''Pair-Setup'') (ascii ''3939'') in
         if \<not> mpi_ok 0 \<or> \<not> mpi_ok 1 \<or> \<not> mpi_ok 2 \<or> \<not> mpi_ok 3 then (ESP_FAIL, s)
         else let v = exp_mod SRP_GENERATOR x;
                  S = exp_mod ((A * exp_mod v u) mod srp_prime) b;
                  K = sha512 C (mpi_to_bytes_min S SRP_PRIME_BYTES);
                  s = s\<lparr>srp_session_key := K, srp_session_key_len := 64\<rparr> in
           if take SRP_PROOF_BYTES client_proof \<noteq> srp_m1 C (srp_salt s) A B K then (ESP_FAIL, s)
           else let m1 = take SRP_PROOF_BYTES client_proof in
             (ESP_OK, s\<lparr>srp_proof_m1 := m1,
                srp_proof_m2 := sha512 C (mpi_to_bytes_min A SRP_PRIME_BYTES @ m1 @ K),
                srp_verified := True, srp_state := 2\<rparr>))"

definition srp_get_proof :: "srp_session \<Rightarrow> bytes option" where
  "srp_get_proof s = (if \<not> srp_verified s then None else Some (srp_proof_m2 s))"

definition srp_get_session_key :: "srp_session \<Rightarrow> bytes option" where
  "srp_get_session_key s = (if \<not> srp_verified s then None else Some (take (srp_session_key_len s) (srp_session_key s)))"

subsection \<open>Reading and writing numbers\<close>

lemma be_val_mpi_bytes [simp]: "be_val (mpi_bytes n) = n"
proof (induction n rule: mpi_bytes.induct)
  case (1 n)
  show ?case
  proof (cases "n = 0")
    case True
    then show ?thesis by (subst mpi_bytes.simps) simp
  next
    case False
    have "unat (of_nat (n mod 256) :: u8) = n mod 256"
      by (simp add: unsigned_of_nat take_bit_nat_eq_self)
    then have "be_val (mpi_bytes n) = 256 * (n div 256) + n mod 256"
      using False 1 by (subst mpi_bytes.simps) (simp add: be_val_snoc)
    then show ?thesis by simp
  qed
qed

lemma mpi_bytes_length: "n < 256 ^ k \<Longrightarrow> length (mpi_bytes n) \<le> k"
proof (induction k arbitrary: n)
  case 0
  then show ?case by (subst mpi_bytes.simps) simp
next
  case (Suc k)
  then have "n div 256 < 256 ^ k" by (simp add: less_mult_imp_div_less mult.commute)
  then show ?case using Suc.IH by (subst mpi_bytes.simps) simp
qed

lemma be_val_zeros [simp]: "be_val (replicate k 0 @ bs) = be_val bs"
  by (induction k) (simp_all add: be_val_Cons)

lemma mpi_to_bytes_padded_eq:
  assumes "n < 256 ^ length buf"
  shows "be_val (mpi_to_bytes_padded n buf) = n" "length (mpi_to_bytes_padded n buf) = length buf"
  using mpi_bytes_length [OF assms] by (simp_all add: mpi_to_bytes_padded_def)

lemma mpi_to_bytes_min_eq: "n < 256 ^ len \<Longrightarrow> 0 < len \<Longrightarrow> be_val (mpi_to_bytes_min n len) = n"
  using mpi_bytes_length [of n len] by (simp add: mpi_to_bytes_min_def be_val_Cons)

lemma length_srp_N [simp]: "length srp_N = SRP_PRIME_BYTES"
  by (simp add: srp_N_def SRP_PRIME_BYTES_def)

lemma srp_prime_less: "srp_prime < 256 ^ SRP_PRIME_BYTES"
  unfolding srp_prime_def by (rule be_val_less [of srp_N, simplified])

end
