(* ===== verification/Srp_Agreement.thy ===== *)
theory Srp_Agreement
  imports Srp
begin

section \<open>SRP-6a: client and server agree (main/hap/srp.c)\<close>

text \<open>
  The client of the SRP-6a specification, and the proof that the server's code accepts it: a client
  that knows the password computes the same session key and the same proofs as the server.
\<close>

subsection \<open>The client of the specification\<close>

definition client_A :: "nat \<Rightarrow> nat" where
  "client_A a = exp_mod SRP_GENERATOR a"

text \<open>The premaster secret \<open>(B - k g\<^sup>x)\<^sup>a\<^sup>+\<^sup>u\<^sup>x mod N\<close>, over the integers.\<close>

definition client_S :: "nat \<Rightarrow> nat \<Rightarrow> nat \<Rightarrow> nat \<Rightarrow> nat \<Rightarrow> nat" where
  "client_S k x u a B =
    nat ((int B - int k * int (exp_mod SRP_GENERATOR x)) ^ (a + u * x) mod int srp_prime)"

definition client_key :: "crypto \<Rightarrow> bytes \<Rightarrow> bytes \<Rightarrow> bytes \<Rightarrow> nat \<Rightarrow> bytes" where
  "client_key C password salt server_pk a =
    (let pad_A = replicate (SRP_PRIME_BYTES - length (mpi_bytes (client_A a))) 0 @ mpi_bytes (client_A a);
         x = srp_x C salt (ascii ''Pair-Setup'') password;
         u = srp_u C pad_A server_pk in
     sha512 C (mpi_to_bytes_min (client_S (srp_k C) x u a (be_val server_pk)) SRP_PRIME_BYTES))"

definition client_proof :: "crypto \<Rightarrow> bytes \<Rightarrow> bytes \<Rightarrow> bytes \<Rightarrow> nat \<Rightarrow> bytes" where
  "client_proof C password salt server_pk a =
    srp_m1 C salt (client_A a) (be_val server_pk) (client_key C password salt server_pk a)"

text \<open>The server proof the client expects.\<close>

definition client_expects :: "crypto \<Rightarrow> bytes \<Rightarrow> bytes \<Rightarrow> bytes \<Rightarrow> nat \<Rightarrow> bytes" where
  "client_expects C password salt server_pk a =
    sha512 C (mpi_to_bytes_min (client_A a) SRP_PRIME_BYTES @ client_proof C password salt server_pk a @
      client_key C password salt server_pk a)"

subsection \<open>The group\<close>

lemma be_val_mod_5: "be_val bs mod 5 = sum_list (map unat bs) mod 5"
proof (induction bs rule: rev_induct)
  case (snoc b bs)
  have "be_val (bs @ [b]) = (be_val bs + unat b) + 5 * (51 * be_val bs)" by (simp add: be_val_snoc)
  then have "be_val (bs @ [b]) mod 5 = (be_val bs + unat b) mod 5" by (simp only: mod_mult_self2)
  also have "\<dots> = (sum_list (map unat bs) + unat b) mod 5"
    using snoc by (metis mod_add_left_eq)
  finally show ?case by simp
qed simp

lemma srp_prime_facts: "1 < srp_prime" "\<not> 5 dvd srp_prime"
proof -
  have "srp_N = 0xFF # tl srp_N" by (simp add: srp_N_def)
  then have "srp_prime = unat (0xFF :: u8) * 256 ^ length (tl srp_N) + be_val (tl srp_N)"
    unfolding srp_prime_def by (metis be_val_Cons)
  then have "255 * 256 ^ length (tl srp_N) \<le> srp_prime" by simp
  moreover have "255 * 1 \<le> 255 * (256 :: nat) ^ length (tl srp_N)" by (intro mult_left_mono) simp_all
  ultimately show "1 < srp_prime" by linarith
  have "sum_list (map unat srp_N) mod 5 \<noteq> 0" by (simp add: srp_N_def)
  then show "\<not> 5 dvd srp_prime" unfolding srp_prime_def by (simp add: dvd_eq_mod_eq_0 be_val_mod_5)
qed

lemma srp_prime_pos [simp]: "0 < srp_prime"
  using srp_prime_facts(1) by simp

lemma exp_mod_less [simp]: "exp_mod a e < srp_prime"
  by (simp add: exp_mod_def)

lemma exp_mod_bound: "exp_mod a e < 256 ^ SRP_PRIME_BYTES"
  using exp_mod_less srp_prime_less by (rule less_trans)

text \<open>No power of the generator is a multiple of the prime, so an honest client key is accepted.\<close>

lemma client_A_nonzero: "client_A a mod srp_prime \<noteq> 0" "client_A a \<noteq> 0"
proof -
  have "coprime 5 srp_prime"
  proof (rule coprimeI)
    fix c :: nat
    assume c: "c dvd 5" "c dvd srp_prime"
    then have "c \<le> 5" by (simp add: dvd_imp_le)
    then have "c \<in> {0, 1, 2, 3, 4, 5}" by auto
    then show "is_unit c" using c srp_prime_facts(2) by auto
  qed
  then have "coprime (5 ^ a) srp_prime" by simp
  then have "\<not> srp_prime dvd 5 ^ a"
    using srp_prime_facts(1) by (metis coprime_absorb_right coprime_commute less_numeral_extra(4) nat_dvd_1_iff_1)
  then show "client_A a \<noteq> 0" "client_A a mod srp_prime \<noteq> 0"
    by (simp_all add: client_A_def exp_mod_def SRP_GENERATOR_def dvd_eq_mod_eq_0)
qed

text \<open>Both sides compute the same power of the generator.\<close>

lemma client_base:
  assumes "B = (k * exp_mod g x + exp_mod g b) mod srp_prime"
  shows "(int B - int k * int (exp_mod g x)) mod int srp_prime = int g ^ b mod int srp_prime"
proof -
  have "(int B - int k * int (exp_mod g x)) mod int srp_prime =
      (int (k * exp_mod g x + exp_mod g b) - int k * int (exp_mod g x)) mod int srp_prime"
    unfolding assms zmod_int by (rule mod_diff_left_eq)
  also have "int (k * exp_mod g x + exp_mod g b) - int k * int (exp_mod g x) = int (exp_mod g b)"
    by simp
  also have "\<dots> mod int srp_prime = int g ^ b mod int srp_prime"
    by (simp add: exp_mod_def zmod_int)
  finally show ?thesis .
qed

lemma shared_secret_agrees:
  assumes "B = (k * exp_mod g x + exp_mod g b) mod srp_prime" "g = SRP_GENERATOR"
  shows "client_S k x u a B = exp_mod ((exp_mod g a * exp_mod (exp_mod g x) u) mod srp_prime) b"
proof -
  let ?N = "int srp_prime"
  have "(int B - int k * int (exp_mod g x)) ^ (a + u * x) mod ?N =
      ((int B - int k * int (exp_mod g x)) mod ?N) ^ (a + u * x) mod ?N"
    by (simp add: power_mod)
  also have "\<dots> = (int g ^ b) ^ (a + u * x) mod ?N"
    unfolding client_base [OF assms(1)] by (simp add: power_mod)
  also have "(int g ^ b) ^ (a + u * x) = int ((g ^ a * (g ^ x) ^ u) ^ b)"
    by (simp add: power_add power_mult [symmetric] power_mult_distrib ac_simps)
  finally have c: "client_S k x u a B = (g ^ a * (g ^ x) ^ u) ^ b mod srp_prime"
    by (simp only: client_S_def assms(2) zmod_int [symmetric] nat_int)
  have "(exp_mod g a * exp_mod (exp_mod g x) u) mod srp_prime = (g ^ a * (g ^ x) ^ u) mod srp_prime"
    by (simp add: exp_mod_def mod_mult_eq power_mod mod_mult_right_eq mod_mult_left_eq)
  then have "exp_mod ((exp_mod g a * exp_mod (exp_mod g x) u) mod srp_prime) b =
      (g ^ a * (g ^ x) ^ u) ^ b mod srp_prime"
    by (simp only: exp_mod_def [of _ b] power_mod)
  then show ?thesis using c by simp
qed

lemma srp_accepts:
  assumes "crypto_ok C" "\<forall>k. mpi_ok k" "length salt = SRP_SALT_BYTES"
    and "length (srp_server_secret s) = SRP_PRIME_BYTES" "length (srp_server_public_key s) = SRP_PRIME_BYTES"
    and "srp_start C mpi_ok salt random_b s (ascii ''Pair-Setup'') (ascii ''3939'') = (ESP_OK, s1)"
  shows "\<exists>s2. srp_verify_client C mpi_ok s1 (mpi_bytes (client_A a))
      (client_proof C (ascii ''3939'') salt (srp_server_public_key s1) a) = (ESP_OK, s2) \<and>
    srp_get_session_key s2 = Some (client_key C (ascii ''3939'') salt (srp_server_public_key s1) a) \<and>
    srp_get_proof s2 = Some (client_expects C (ascii ''3939'') salt (srp_server_public_key s1) a)"
proof -
  let ?x = "srp_x C salt (ascii ''Pair-Setup'') (ascii ''3939'')"
  let ?b = "be_val random_b mod srp_prime"
  let ?B = "(srp_k C * exp_mod SRP_GENERATOR ?x + exp_mod SRP_GENERATOR ?b) mod srp_prime"
  let ?A = "client_A a"
  let ?pad = "replicate (SRP_PRIME_BYTES - length (mpi_bytes ?A)) 0 @ mpi_bytes ?A"
  have less: "n < 256 ^ SRP_PRIME_BYTES" if "n < srp_prime" for n using that srp_prime_less by (rule less_trans)
  have s1: "s1 = s\<lparr>srp_salt := salt, srp_server_secret := mpi_to_bytes_padded ?b (srp_server_secret s),
      srp_server_public_key := mpi_to_bytes_padded ?B (srp_server_public_key s), srp_state := 1\<rparr>"
    using assms(2,6) by (simp add: srp_start_def Let_def)
  have b: "be_val (srp_server_secret s1) = ?b"
    using mpi_to_bytes_padded_eq(1) [of ?b "srp_server_secret s"] less [of ?b] assms(4) by (simp add: s1)
  have B: "be_val (srp_server_public_key s1) = ?B"
    using mpi_to_bytes_padded_eq(1) [of ?B "srp_server_public_key s"] less [of ?B] assms(5) by (simp add: s1)
  have A: "length (mpi_bytes ?A) \<le> SRP_PRIME_BYTES"
    using mpi_bytes_length [OF exp_mod_bound] by (simp add: client_A_def)
  have salt: "srp_salt s1 = salt" by (simp add: s1)
  let ?u = "srp_u C ?pad (srp_server_public_key s1)"
  let ?K = "client_key C (ascii ''3939'') salt (srp_server_public_key s1) a"
  have S: "client_S (srp_k C) ?x ?u a ?B = exp_mod ((?A * exp_mod (exp_mod SRP_GENERATOR ?x) ?u) mod srp_prime) ?b"
    unfolding client_A_def by (rule shared_secret_agrees [OF refl refl])
  have K: "sha512 C (mpi_to_bytes_min
      (exp_mod ((?A * exp_mod (exp_mod SRP_GENERATOR ?x) ?u) mod srp_prime) ?b) SRP_PRIME_BYTES) = ?K"
    by (simp only: client_key_def Let_def B S)
  have proof_len: "length (client_proof C (ascii ''3939'') salt (srp_server_public_key s1) a) = SRP_PROOF_BYTES"
    using assms(1) by (simp add: client_proof_def srp_m1_def compute_m1_def SRP_PROOF_BYTES_def)
  have Klen: "length ?K = 64" using assms(1) by (simp add: client_key_def Let_def)
  show ?thesis
    using assms(2) client_A_nonzero [of a] A proof_len Klen
    by (simp add: srp_verify_client_def Let_def salt b B K srp_get_session_key_def srp_get_proof_def
        client_expects_def client_proof_def)
qed





end
