(* ===== verification/Hap_Pair.thy ===== *)
theory Hap_Pair
  imports Srp_Agreement Tlv8
begin

section \<open>Pairing (main/hap/hap_pair_setup.c, hap_pair_verify.c)\<close>

text \<open>
  The handlers of the pairing messages. Each takes the session, the client's message and the output
  buffer, and returns the error code, the session, the output buffer and the length stored for it
  (none when it returns before). \<open>None\<close> as a whole is an access outside a buffer.
\<close>

definition TLV_TYPE_IDENTIFIER :: u8 where "TLV_TYPE_IDENTIFIER = 0x01"
definition TLV_TYPE_SALT :: u8 where "TLV_TYPE_SALT = 0x02"
definition TLV_TYPE_PUBLIC_KEY :: u8 where "TLV_TYPE_PUBLIC_KEY = 0x03"
definition TLV_TYPE_PROOF :: u8 where "TLV_TYPE_PROOF = 0x04"
definition TLV_TYPE_ENCRYPTED_DATA :: u8 where "TLV_TYPE_ENCRYPTED_DATA = 0x05"
definition TLV_TYPE_STATE :: u8 where "TLV_TYPE_STATE = 0x06"
definition TLV_TYPE_ERROR :: u8 where "TLV_TYPE_ERROR = 0x07"
definition TLV_TYPE_SIGNATURE :: u8 where "TLV_TYPE_SIGNATURE = 0x0A"
definition TLV_TYPE_FLAGS :: u8 where "TLV_TYPE_FLAGS = 0x13"
definition TLV_ERROR_AUTHENTICATION :: u8 where "TLV_ERROR_AUTHENTICATION = 0x02"

lemmas tlv_types = TLV_TYPE_IDENTIFIER_def TLV_TYPE_SALT_def TLV_TYPE_PUBLIC_KEY_def TLV_TYPE_PROOF_def
  TLV_TYPE_ENCRYPTED_DATA_def TLV_TYPE_STATE_def TLV_TYPE_ERROR_def TLV_TYPE_SIGNATURE_def
  TLV_TYPE_FLAGS_def TLV_ERROR_AUTHENTICATION_def

type_synonym pair_result = "(esp_err \<times> hap_session \<times> bytes \<times> nat option) mem"

text \<open>The guard on the state item, and an encoder call whose result the code ignores.\<close>

definition tlv_state_is :: "bytes \<Rightarrow> u8 \<Rightarrow> bool mem" where
  "tlv_state_is input v = do {
     r \<leftarrow> tlv8_find input TLV_TYPE_STATE;
     case r of
       None \<Rightarrow> Some False
     | Some (at, n) \<Rightarrow> if n \<noteq> 1 then Some False else do { b \<leftarrow> rd input at; Some (b = v) }
   }"

definition tlv_put :: "u8 \<Rightarrow> bytes \<Rightarrow> bw \<Rightarrow> bw mem" where
  "tlv_put t v e = do { (_, e) \<leftarrow> tlv8_encode t v e; Some e }"

subsection \<open>pair-setup\<close>

text \<open>
  M1. \<open>salt\<close> and \<open>b\<close> are the random bytes \<open>srp_start\<close> draws, \<open>alloc\<close> whether the SRP session could
  be allocated.
\<close>

definition hap_pair_setup_m1 :: "crypto \<Rightarrow> bool \<Rightarrow> (nat \<Rightarrow> bool) \<Rightarrow> bytes \<Rightarrow> bytes \<Rightarrow>
    hap_session \<Rightarrow> bytes \<Rightarrow> bytes \<Rightarrow> pair_result" where
  "hap_pair_setup_m1 C alloc mpi_ok salt b s input output = do {
     flags \<leftarrow> tlv8_find input TLV_TYPE_FLAGS;
     st \<leftarrow> tlv_state_is input 1;
     if \<not> st then Some (ESP_ERR_INVALID_ARG, s, output, None)
     else do {
       transient \<leftarrow> (case flags of
           Some (at, n) \<Rightarrow> if n = 1 then do { f \<leftarrow> rd input at; Some (f AND 0x10 \<noteq> 0) } else Some False
         | None \<Rightarrow> Some False);
       let s = s\<lparr>hs_pair_setup_transient := transient\<rparr>;
       if \<not> alloc then Some (ESP_ERR_NO_MEM, s\<lparr>hs_srp := None\<rparr>, output, None)
       else
         let (err, srp) = srp_start C mpi_ok salt b srp_session_create (ascii ''Pair-Setup'')
               (if transient then ascii ''3939'' else ascii ''0000'');
             s = s\<lparr>hs_srp := Some srp\<rparr> in
         if err \<noteq> ESP_OK then Some (err, s, output, None)
         else do {
           e \<leftarrow> tlv_put TLV_TYPE_STATE [2] (tlv8_encoder_init output);
           e \<leftarrow> tlv_put TLV_TYPE_SALT (srp_salt srp) e;
           e \<leftarrow> tlv_put TLV_TYPE_PUBLIC_KEY (srp_server_public_key srp) e;
           Some (ESP_OK, s\<lparr>hs_pair_setup_state := 2\<rparr>, fst e, Some (tlv8_encoder_size e))
         }
     }
   }"

definition hap_pair_setup_m3 :: "crypto \<Rightarrow> (nat \<Rightarrow> bool) \<Rightarrow> hap_session \<Rightarrow> bytes \<Rightarrow> bytes \<Rightarrow> pair_result" where
  "hap_pair_setup_m3 C mpi_ok s input output =
    (case hs_srp s of
       None \<Rightarrow> Some (ESP_ERR_INVALID_STATE, s, output, None)
     | Some srp \<Rightarrow> do {
         st \<leftarrow> tlv_state_is input 3;
         if \<not> st then Some (ESP_ERR_INVALID_ARG, s, output, None)
         else do {
           (ok, pk, pk_len) \<leftarrow> tlv8_decode_concat input TLV_TYPE_PUBLIC_KEY (replicate 512 0);
           if \<not> ok then Some (ESP_ERR_INVALID_ARG, s, output, None)
           else do {
             (ok, pf, pf_len) \<leftarrow> tlv8_decode_concat input TLV_TYPE_PROOF (replicate 64 0);
             if \<not> ok then Some (ESP_ERR_INVALID_ARG, s, output, None)
             else
               let (err, srp) = srp_verify_client C mpi_ok srp (take (the pk_len) pk) (take (the pf_len) pf);
                   s = s\<lparr>hs_srp := Some srp\<rparr> in
               if err \<noteq> ESP_OK then do {
                 e \<leftarrow> tlv_put TLV_TYPE_STATE [4] (tlv8_encoder_init output);
                 e \<leftarrow> tlv_put TLV_TYPE_ERROR [0x02] e;
                 Some (ESP_OK, s, fst e, Some (tlv8_encoder_size e))
               }
               else if hs_pair_setup_transient s \<and> (srp_get_session_key srp = None \<or> srp_session_key_len srp = 0)
               then Some (ESP_ERR_INVALID_STATE, s, output, None)
               else
                 let s = (if hs_pair_setup_transient s then
                       let key = the (srp_get_session_key srp) in
                       s\<lparr>hs_shared_secret := take 32 key,
                         hs_encrypt_key := hap_hkdf_sha512 C control_salt key control_read_info 32,
                         hs_decrypt_key := hap_hkdf_sha512 C control_salt key control_write_info 32,
                         hs_encrypt_nonce := 0, hs_decrypt_nonce := 0, hs_session_established := True\<rparr>
                     else s) in do {
                   server_proof \<leftarrow> srp_get_proof srp;
                   e \<leftarrow> tlv_put TLV_TYPE_STATE [4] (tlv8_encoder_init output);
                   e \<leftarrow> tlv_put TLV_TYPE_PROOF server_proof e;
                   Some (ESP_OK, s\<lparr>hs_pair_setup_state := 4\<rparr>, fst e, Some (tlv8_encoder_size e))
                 }
           }
         }
       })"

text \<open>The nonce of a pairing message: four zero bytes and the name of the message.\<close>

definition message_nonce :: "string \<Rightarrow> bytes" where
  "message_nonce name = replicate 4 0 @ ascii name"

definition hap_pair_setup_m5 :: "crypto \<Rightarrow> hap_session \<Rightarrow> bytes \<Rightarrow> bytes \<Rightarrow> pair_result" where
  "hap_pair_setup_m5 C s input output =
    (case hs_srp s of
       None \<Rightarrow> Some (ESP_ERR_INVALID_STATE, s, output, None)
     | Some srp \<Rightarrow> do {
         st \<leftarrow> tlv_state_is input 5;
         if \<not> st then Some (ESP_ERR_INVALID_ARG, s, output, None)
         else do {
           (ok, buf, len) \<leftarrow> tlv8_decode_concat input TLV_TYPE_ENCRYPTED_DATA (replicate 512 0);
           if \<not> ok then Some (ESP_ERR_INVALID_ARG, s, output, None)
           else case srp_get_session_key srp of
             None \<Rightarrow> Some (ESP_ERR_INVALID_STATE, s, output, None)
           | Some key \<Rightarrow>
               if key = [] then Some (ESP_ERR_INVALID_STATE, s, output, None)
               else let setup_key = hap_hkdf_sha512 C (ascii ''Pair-Setup-Encrypt-Salt'') key
                      (ascii ''Pair-Setup-Encrypt-Info'') 32 in
                 case aead_dec C setup_key (message_nonce ''PS-Msg05'') [] (take (the len) buf) of
                   None \<Rightarrow> Some (ESP_FAIL, s, output, None)
                 | Some p \<Rightarrow>
                     if length p > 512 then None
                     else Some (ESP_OK, s\<lparr>hs_encrypt_nonce := 0, hs_decrypt_nonce := 0\<rparr>, output, None)
         }
       })"

subsection \<open>pair-verify with TLV messages\<close>

text \<open>The device identifier: the six bytes of the MAC address in upper-case hexadecimal.\<close>

definition hex_digit :: "nat \<Rightarrow> u8" where
  "hex_digit d = (if d < 10 then 48 + of_nat d else 55 + of_nat d)"

definition hex_byte :: "u8 \<Rightarrow> bytes" where
  "hex_byte b = [hex_digit (unat b div 16), hex_digit (unat b mod 16)]"

definition device_id_string :: "bytes \<Rightarrow> bytes" where
  "device_id_string mac = hex_byte (mac ! 0) @ ascii '':'' @ hex_byte (mac ! 1) @ ascii '':'' @
     hex_byte (mac ! 2) @ ascii '':'' @ hex_byte (mac ! 3) @ ascii '':'' @ hex_byte (mac ! 4) @ ascii '':'' @
     hex_byte (mac ! 5)"

definition hap_pair_verify_m1 :: "crypto \<Rightarrow> bytes \<Rightarrow> hap_session \<Rightarrow> bytes \<Rightarrow> bytes \<Rightarrow> pair_result" where
  "hap_pair_verify_m1 C mac s input output = do {
     st \<leftarrow> tlv_state_is input 1;
     if \<not> st then Some (ESP_ERR_INVALID_ARG, s, output, None)
     else do {
       pk \<leftarrow> tlv8_find input TLV_TYPE_PUBLIC_KEY;
       case pk of
         None \<Rightarrow> Some (ESP_ERR_INVALID_ARG, s, output, None)
       | Some (at, n) \<Rightarrow>
           if n \<noteq> 32 then Some (ESP_ERR_INVALID_ARG, s, output, None)
           else do {
             client_pk \<leftarrow> rd_block input at 32;
             let (ok, shared) = x25519 C (hs_session_secret_key s) client_pk;
             let s = s\<lparr>hs_client_public_key := client_pk, hs_shared_secret := shared\<rparr>;
             if \<not> ok then Some (ESP_FAIL, s, output, None)
             else do {
               let device_id = device_id_string mac;
               let accessory_info = hs_session_public_key s @ device_id @ hs_client_public_key s;
               let signature = ed25519_sign C (hs_device_secret_key s) accessory_info;
               sub \<leftarrow> tlv_put TLV_TYPE_IDENTIFIER device_id (tlv8_encoder_init (replicate 256 0));
               sub \<leftarrow> tlv_put TLV_TYPE_SIGNATURE signature sub;
               let session_key = hap_hkdf_sha512 C (ascii ''Pair-Verify-Encrypt-Salt'') (hs_shared_secret s)
                     (ascii ''Pair-Verify-Encrypt-Info'') 32;
               let encrypted = aead_enc C session_key (message_nonce ''PV-Msg02'') []
                     (take (tlv8_encoder_size sub) (fst sub));
               if length encrypted > 256 + 16 then None
               else do {
                 e \<leftarrow> tlv_put TLV_TYPE_STATE [2] (tlv8_encoder_init output);
                 e \<leftarrow> tlv_put TLV_TYPE_PUBLIC_KEY (hs_session_public_key s) e;
                 e \<leftarrow> tlv_put TLV_TYPE_ENCRYPTED_DATA encrypted e;
                 Some (ESP_OK, s\<lparr>hs_pair_verify_state := 2, hs_encrypt_key := session_key\<rparr>,
                   fst e, Some (tlv8_encoder_size e))
               }
             }
           }
     }
   }"

definition hap_pair_verify_m3 :: "crypto \<Rightarrow> hap_session \<Rightarrow> bytes \<Rightarrow> bytes \<Rightarrow> pair_result" where
  "hap_pair_verify_m3 C s input output = do {
     st \<leftarrow> tlv_state_is input 3;
     if \<not> st then Some (ESP_ERR_INVALID_ARG, s, output, None)
     else do {
       (ok, buf, len) \<leftarrow> tlv8_decode_concat input TLV_TYPE_ENCRYPTED_DATA (replicate 512 0);
       if \<not> ok then Some (ESP_ERR_INVALID_ARG, s, output, None)
       else case aead_dec C (hs_encrypt_key s) (message_nonce ''PV-Msg03'') [] (take (the len) buf) of
         None \<Rightarrow> do {
           e \<leftarrow> tlv_put TLV_TYPE_STATE [4] (tlv8_encoder_init output);
           e \<leftarrow> tlv_put TLV_TYPE_ERROR [TLV_ERROR_AUTHENTICATION] e;
           Some (ESP_ERR_INVALID_STATE, s, fst e, Some (tlv8_encoder_size e))
         }
       | Some p \<Rightarrow>
           if length p > 512 then None
           else do {
             let s = s\<lparr>hs_encrypt_key := hap_hkdf_sha512 C control_salt (hs_shared_secret s) control_read_info 32,
               hs_decrypt_key := hap_hkdf_sha512 C control_salt (hs_shared_secret s) control_write_info 32\<rparr>;
             e \<leftarrow> tlv_put TLV_TYPE_STATE [4] (tlv8_encoder_init output);
             Some (ESP_OK, s\<lparr>hs_pair_verify_state := 4, hs_session_established := True\<rparr>,
               fst e, Some (tlv8_encoder_size e))
           }
     }
   }"

subsection \<open>pair-verify with raw messages\<close>

definition verify_aes_key :: "crypto \<Rightarrow> hap_session \<Rightarrow> bytes" where
  "verify_aes_key C s = take 16 (sha512 C (ascii ''Pair-Verify-AES-Key'' @ hs_shared_secret s))"

definition verify_aes_iv :: "crypto \<Rightarrow> hap_session \<Rightarrow> bytes" where
  "verify_aes_iv C s = take 16 (sha512 C (ascii ''Pair-Verify-AES-IV'' @ hs_shared_secret s))"

definition hap_pair_verify_m1_raw :: "crypto \<Rightarrow> hap_session \<Rightarrow> bytes \<Rightarrow> bytes \<Rightarrow> pair_result" where
  "hap_pair_verify_m1_raw C s input output =
    (if length input < 32 then Some (ESP_ERR_INVALID_ARG, s, output, None)
     else do {
       client_pk \<leftarrow> rd_block input (if length input \<ge> 68 then 4 else 0) 32;
       let (ok, shared) = x25519 C (hs_session_secret_key s) client_pk;
       let s = s\<lparr>hs_client_public_key := client_pk, hs_shared_secret := shared\<rparr>;
       if \<not> ok then Some (ESP_FAIL, s, output, None)
       else do {
         let signature = ed25519_sign C (hs_device_secret_key s)
               (hs_session_public_key s @ hs_client_public_key s);
         if length output < 96 then Some (ESP_ERR_NO_MEM, s, output, None)
         else do {
           output \<leftarrow> wr output 0 (hs_session_public_key s);
           output \<leftarrow> wr output 32 (aes_ctr C (verify_aes_key C s) (verify_aes_iv C s) signature);
           encrypt_key \<leftarrow> wr (hs_encrypt_key s) 0 (verify_aes_key C s);
           decrypt_key \<leftarrow> wr (hs_decrypt_key s) 0 (verify_aes_iv C s);
           Some (ESP_OK, s\<lparr>hs_pair_verify_state := 2, hs_encrypt_key := encrypt_key,
             hs_decrypt_key := decrypt_key\<rparr>, output, Some 96)
         }
       }
     })"

text \<open>The client's signature is decrypted and then not looked at.\<close>

definition hap_pair_verify_m3_raw :: "crypto \<Rightarrow> hap_session \<Rightarrow> bytes \<Rightarrow> bytes \<Rightarrow> pair_result" where
  "hap_pair_verify_m3_raw C s input output =
    (if length input < 64 then Some (ESP_ERR_INVALID_ARG, s, output, None)
     else do {
       encrypted_sig \<leftarrow> rd_block input (if length input \<ge> 68 then 4 else 0) 64;
       let client_signature = aes_ctr C (verify_aes_key C s) (verify_aes_iv C s) encrypted_sig;
       Some (ESP_OK, s\<lparr>hs_decrypt_key := hap_hkdf_sha512 C control_salt (hs_shared_secret s) control_read_info 32,
         hs_encrypt_key := hap_hkdf_sha512 C control_salt (hs_shared_secret s) control_write_info 32,
         hs_encrypt_nonce := 0, hs_decrypt_nonce := 0, hs_pair_verify_state := 4,
         hs_session_established := True\<rparr>, output, Some 0)
     })"

end
