(* ===== verification/Hap_Pair_Facts.thy ===== *)
theory Hap_Pair_Facts
  imports Hap_Pair
begin

section \<open>Properties of the pairing handlers\<close>

subsection \<open>Encoder and decoder steps\<close>

lemma tlv_put_safe:
  assumes "pos \<le> length out"
  shows "\<exists>out' pos'. tlv_put t v (out, pos) = Some (out', pos') \<and> length out' = length out \<and> pos' \<le> length out"
proof (cases "pos + length (tlv_enc t v) \<le> length out")
  case True
  then show ?thesis using tlv.write_fits [of pos t v out] by (simp add: tlv_put_def)
next
  case False
  then show ?thesis using tlv.write_full [OF assms, of t v] by (auto simp: tlv_put_def)
qed

lemma tlv_put_fits:
  "pos + length (tlv_enc t v) \<le> length out \<Longrightarrow>
    tlv_put t v (out, pos) = Some (put_at out pos (tlv_enc t v), pos + length (tlv_enc t v))"
  using tlv.write_fits [of pos t v out] by (simp add: tlv_put_def)

lemma tlv_state_is_safe: "\<exists>b. tlv_state_is input v = Some b"
proof -
  obtain r where "tlv8_find input TLV_TYPE_STATE = Some r" "\<forall>at n. r = Some (at, n) \<longrightarrow> at + n \<le> length input"
    using find_items [of input TLV_TYPE_STATE] by blast
  then show ?thesis by (cases r) (auto simp: tlv_state_is_def)
qed

lemma find_byte_message:
  assumes "map_of items t = Some [b]"
  shows "\<exists>at. tlv8_find (message_bytes items) t = Some (Some (at, 1)) \<and> rd (message_bytes items) at = Some b"
proof -
  have "map_of (tlv_items (message_bytes items)) t = Some [b]"
    using assms by (simp add: map_of_message tlv_chunks.simps)
  then obtain at n where r: "tlv8_find (message_bytes items) t = Some (Some (at, n))"
    "take n (drop at (message_bytes items)) = [b]" "at + n \<le> length (message_bytes items)"
    using find_items [of "message_bytes items" t] by fastforce
  have "n = length (take n (drop at (message_bytes items)))" using r(3) by simp
  then have n: "n = 1" unfolding r(2) by simp
  then have "message_bytes items ! at = b"
    using r(2,3) by (metis drop_eq_Nil2 hd_drop_conv_nth le_add1 less_add_one linorder_not_less list.sel(1)
        order_less_le_trans take_eq_Nil2 hd_take zero_less_one)
  then show ?thesis using r n by auto
qed

lemma tlv_state_message:
  "map_of items TLV_TYPE_STATE = Some [b] \<Longrightarrow> tlv_state_is (message_bytes items) v = Some (b = v)"
  using find_byte_message [of items TLV_TYPE_STATE b] by (auto simp: tlv_state_is_def)

lemma decode_concat_safe:
  "\<exists>ok buf' len. tlv8_decode_concat input t buf = Some (ok, buf', len) \<and>
    (ok \<longrightarrow> (\<exists>n. len = Some n \<and> n \<le> length buf)) \<and> length buf' = length buf"
proof (cases "length (tlv_join (tlv_run t False (tlv_items input))) \<le> length buf")
  case True
  then show ?thesis using decode_concat_items [of t input buf] by simp
next
  case False
  then show ?thesis using decode_concat_items [of t input buf] by auto
qed

subsection \<open>The session invariant\<close>

definition srp_wf :: "srp_session \<Rightarrow> bool" where
  "srp_wf s \<longleftrightarrow> length (srp_salt s) = SRP_SALT_BYTES \<and>
     length (srp_server_public_key s) = SRP_PRIME_BYTES \<and> length (srp_server_secret s) = SRP_PRIME_BYTES \<and>
     length (srp_client_public_key s) = SRP_PRIME_BYTES \<and> length (srp_session_key s) = 64 \<and>
     srp_session_key_len s \<le> 64 \<and> length (srp_proof_m1 s) = 64 \<and> length (srp_proof_m2 s) = 64 \<and>
     (srp_verified s \<longrightarrow> srp_session_key_len s = 64)"

definition session_wf :: "hap_session \<Rightarrow> bool" where
  "session_wf s \<longleftrightarrow> length (hs_device_public_key s) = 32 \<and> length (hs_device_secret_key s) = 64 \<and>
     length (hs_session_public_key s) = 32 \<and> length (hs_session_secret_key s) = 32 \<and>
     length (hs_client_public_key s) = 32 \<and> length (hs_shared_secret s) = 32 \<and>
     length (hs_encrypt_key s) = 32 \<and> length (hs_decrypt_key s) = 32 \<and>
     (\<forall>srp. hs_srp s = Some srp \<longrightarrow> srp_wf srp)"

text \<open>A handler call that stays in its buffers and keeps the session well-formed.\<close>

definition pair_safe :: "bytes \<Rightarrow> pair_result \<Rightarrow> bool" where
  "pair_safe output r \<longleftrightarrow> (\<exists>err s' out' n. r = Some (err, s', out', n) \<and> session_wf s' \<and>
     length out' = length output \<and> (\<forall>k. n = Some k \<longrightarrow> k \<le> length output))"

lemma pair_safeI [intro]:
  "session_wf s' \<Longrightarrow> length out' = length output \<Longrightarrow> (\<And>k. n = Some k \<Longrightarrow> k \<le> length output) \<Longrightarrow>
    pair_safe output (Some (err, s', out', n))"
  by (auto simp: pair_safe_def)

text \<open>A handler that ends by encoding items into the output buffer.\<close>

lemma pair_safe_put:
  assumes "length (fst e) = length output" "snd e \<le> length output"
    and "\<And>e'. length (fst e') = length output \<Longrightarrow> snd e' \<le> length output \<Longrightarrow> pair_safe output (f e')"
  shows "pair_safe output (tlv_put t v e \<bind> f)"
proof -
  obtain out pos where e: "e = (out, pos)" by force
  obtain out' pos' where "tlv_put t v (out, pos) = Some (out', pos')" "length out' = length output"
    "pos' \<le> length output"
    using tlv_put_safe [of pos out t v] assms(1,2) e by auto
  then show ?thesis using assms(3) [of "(out', pos')"] by (simp add: e)
qed

lemma pair_safe_done:
  "session_wf s \<Longrightarrow> length (fst e) = length output \<Longrightarrow> snd e \<le> length output \<Longrightarrow>
    pair_safe output (Some (err, s, fst e, Some (tlv8_encoder_size e)))"
  by (auto simp: tlv8_encoder_size_def)

lemma tlv_init_fit: "length (fst (tlv8_encoder_init output)) = length output" "snd (tlv8_encoder_init output) \<le> length output"
  by (simp_all add: tlv8_encoder_init_def)

lemma srp_start_wf:
  assumes "crypto_ok C" "length salt = SRP_SALT_BYTES" "srp_wf s" "srp_start C mpi_ok salt b s user pw = (err, s')"
  shows "srp_wf s'"
proof -
  have "n < 256 ^ SRP_PRIME_BYTES" if "n < srp_prime" for n using that srp_prime_less by (rule less_trans)
  then have pad: "length (mpi_to_bytes_padded (n mod srp_prime) buf) = SRP_PRIME_BYTES"
    if "length buf = SRP_PRIME_BYTES" for n buf
    using mpi_to_bytes_padded_eq(2) [of "n mod srp_prime" buf] that by simp
  show ?thesis
    using assms(2-) pad by (auto simp: srp_start_def srp_wf_def Let_def split: if_splits)
qed

lemma min_pad [simp]: "n - min a n + min a n = (n :: nat)"
  by simp

lemma length_srp_m1: "crypto_ok C \<Longrightarrow> length (srp_m1 C salt A B K) = 64"
  by (simp add: srp_m1_def compute_m1_def)

definition with_client_key :: "srp_session \<Rightarrow> bytes \<Rightarrow> srp_session" where
  "with_client_key s pk = s\<lparr>srp_client_public_key :=
     replicate (SRP_PRIME_BYTES - length (take SRP_PRIME_BYTES pk)) 0 @ take SRP_PRIME_BYTES pk\<rparr>"

lemma srp_verify_updates:
  "snd (srp_verify_client C mpi_ok s pk pf) \<in> {s, with_client_key s pk} \<or>
    (\<exists>x. snd (srp_verify_client C mpi_ok s pk pf) =
      (with_client_key s pk)\<lparr>srp_session_key := sha512 C x, srp_session_key_len := 64\<rparr>) \<or>
    (\<exists>x y. SRP_PROOF_BYTES \<le> length pf \<and> snd (srp_verify_client C mpi_ok s pk pf) =
      (with_client_key s pk)\<lparr>srp_session_key := sha512 C x, srp_session_key_len := 64,
        srp_proof_m1 := take SRP_PROOF_BYTES pf, srp_proof_m2 := sha512 C y, srp_verified := True,
        srp_state := 2\<rparr>)"
  unfolding srp_verify_client_def Let_def with_client_key_def [symmetric]
  by (simp only: not_le [symmetric] split: if_split) (intro conjI impI; simp only: snd_conv; blast)

lemma srp_verify_wf:
  assumes "crypto_ok C" "srp_wf s" "srp_verify_client C mpi_ok s pk pf = (err, s')"
  shows "srp_wf s'"
  using srp_verify_updates [of C mpi_ok s pk pf] assms(2) crypto_okD(1) [OF assms(1)]
  by (auto simp: assms(3) srp_wf_def SRP_PROOF_BYTES_def with_client_key_def)

lemma srp_verify_verified: "srp_verify_client C mpi_ok s pk pf = (ESP_OK, s') \<Longrightarrow> srp_verified s'"
  by (auto simp: srp_verify_client_def Let_def split: if_splits)

lemma srp_create_wf: "srp_wf srp_session_create"
  by (simp add: srp_wf_def srp_session_create_def)

subsection \<open>Every handler is safe\<close>

lemma setup_m1_safe:
  assumes "crypto_ok C" "session_wf s" "length salt = SRP_SALT_BYTES"
  shows "pair_safe output (hap_pair_setup_m1 C alloc mpi_ok salt b s input output)"
proof -
  obtain flags where flags: "tlv8_find input TLV_TYPE_FLAGS = Some flags"
    "\<forall>at n. flags = Some (at, n) \<longrightarrow> at + n \<le> length input"
    using find_items [of input TLV_TYPE_FLAGS] by blast
  obtain st where st: "tlv_state_is input 1 = Some st" using tlv_state_is_safe by blast
  have "\<exists>tr. (case flags of Some (at, n) \<Rightarrow>
      if n = 1 then do { f \<leftarrow> rd input at; Some (f AND 0x10 \<noteq> 0) } else Some False
      | None \<Rightarrow> Some False) = Some tr"
    using flags(2) by (cases flags) auto
  then obtain tr where tr: "(case flags of Some (at, n) \<Rightarrow>
      if n = 1 then do { f \<leftarrow> rd input at; Some (f AND 0x10 \<noteq> 0) } else Some False
      | None \<Rightarrow> Some False) = Some tr" by blast
  obtain err srp where srp: "srp_start C mpi_ok salt b srp_session_create (ascii ''Pair-Setup'')
      (if tr then ascii ''3939'' else ascii ''0000'') = (err, srp)" by force
  have wf: "srp_wf srp" by (rule srp_start_wf [OF assms(1,3) srp_create_wf srp])
  have ses: "session_wf (s\<lparr>hs_pair_setup_transient := tr, hs_srp := None\<rparr>)"
    "session_wf (s\<lparr>hs_pair_setup_transient := tr, hs_srp := Some srp\<rparr>)"
    "session_wf (s\<lparr>hs_pair_setup_transient := tr, hs_srp := Some srp, hs_pair_setup_state := 2\<rparr>)"
    using assms(2) wf by (simp_all add: session_wf_def)
  show ?thesis
    unfolding hap_pair_setup_m1_def flags(1) st bind.bind_lunit tr Let_def srp prod.case
    using assms(2) ses
    by (auto simp: tlv8_encoder_size_def intro!: pair_safe_put tlv_init_fit)
qed

lemma setup_m3_safe:
  assumes "crypto_ok C" "session_wf s"
  shows "pair_safe output (hap_pair_setup_m3 C mpi_ok s input output)"
proof (cases "hs_srp s")
  case None
  then show ?thesis using assms(2) by (auto simp: hap_pair_setup_m3_def)
next
  case (Some srp)
  obtain st where st: "tlv_state_is input 3 = Some st" using tlv_state_is_safe by blast
  obtain ok1 pk pk_len where pk: "tlv8_decode_concat input TLV_TYPE_PUBLIC_KEY (replicate 512 0) = Some (ok1, pk, pk_len)"
    using decode_concat_safe by blast
  obtain ok2 pf pf_len where pf: "tlv8_decode_concat input TLV_TYPE_PROOF (replicate 64 0) = Some (ok2, pf, pf_len)"
    using decode_concat_safe by blast
  obtain err srp' where v: "srp_verify_client C mpi_ok srp (take (the pk_len) pk) (take (the pf_len) pf) = (err, srp')"
    by force
  have wf: "srp_wf srp'" using srp_verify_wf [OF assms(1) _ v] assms(2) Some by (simp add: session_wf_def)
  let ?s = "s\<lparr>hs_srp := Some srp'\<rparr>"
  have s1: "session_wf ?s" using assms(2) wf by (simp add: session_wf_def)
  have proof_some: "err = ESP_OK \<Longrightarrow> srp_get_proof srp' = Some (srp_proof_m2 srp')"
    using srp_verify_verified [of C mpi_ok srp _ _ srp'] v by (auto simp: srp_get_proof_def)
  have key: "length (take 32 (the (srp_get_session_key srp'))) = 32" if "srp_get_session_key srp' \<noteq> None"
    using wf that by (auto simp: srp_get_session_key_def srp_wf_def split: if_splits)
  have s2: "session_wf (s'\<lparr>hs_pair_setup_state := 4\<rparr>)" if "session_wf s'" for s'
    using that by (simp add: session_wf_def)
  have s3: "session_wf (?s\<lparr>hs_shared_secret := take 32 (the (srp_get_session_key srp')),
      hs_encrypt_key := hap_hkdf_sha512 C control_salt (the (srp_get_session_key srp')) control_read_info 32,
      hs_decrypt_key := hap_hkdf_sha512 C control_salt (the (srp_get_session_key srp')) control_write_info 32,
      hs_encrypt_nonce := 0, hs_decrypt_nonce := 0, hs_session_established := True\<rparr>)"
    if "srp_get_session_key srp' \<noteq> None"
    using s1 key [OF that] assms(1) by (simp add: session_wf_def)
  show ?thesis
    unfolding hap_pair_setup_m3_def Some option.case st pk pf bind.bind_lunit prod.case Let_def v
    using assms(2) s1 s2 s3 proof_some
    by (auto simp: tlv8_encoder_size_def intro!: pair_safe_put tlv_init_fit)
qed

lemma setup_m5_safe:
  assumes "crypto_ok C" "session_wf s"
  shows "pair_safe output (hap_pair_setup_m5 C s input output)"
proof (cases "hs_srp s")
  case None
  then show ?thesis using assms(2) by (auto simp: hap_pair_setup_m5_def)
next
  case (Some srp)
  obtain st where st: "tlv_state_is input 5 = Some st" using tlv_state_is_safe by blast
  obtain ok buf len where d: "tlv8_decode_concat input TLV_TYPE_ENCRYPTED_DATA (replicate 512 0) = Some (ok, buf, len)"
    "length buf = 512" using decode_concat_safe [of input TLV_TYPE_ENCRYPTED_DATA "replicate 512 0"] by auto
  have dec: "length p \<le> 512" if "aead_dec C k n [] (take (the len) buf) = Some p" for k n p
    using aead_dec_length [OF assms(1) that] d(2) by (simp add: min_def split: if_splits)
  moreover have "session_wf (s\<lparr>hs_encrypt_nonce := 0, hs_decrypt_nonce := 0\<rparr>)"
    using assms(2) by (simp add: session_wf_def)
  ultimately show ?thesis
    unfolding hap_pair_setup_m5_def Some option.case st d(1) bind.bind_lunit prod.case Let_def
    using assms(2) by (auto split: option.split dest: dec)
qed

lemma verify_m1_safe:
  assumes "crypto_ok C" "session_wf s"
  shows "pair_safe output (hap_pair_verify_m1 C mac s input output)"
proof -
  obtain st where st: "tlv_state_is input 1 = Some st" using tlv_state_is_safe by blast
  obtain pk where pk: "tlv8_find input TLV_TYPE_PUBLIC_KEY = Some pk"
    "\<forall>at n. pk = Some (at, n) \<longrightarrow> at + n \<le> length input"
    using find_items [of input TLV_TYPE_PUBLIC_KEY] by blast
  show ?thesis
  proof (cases "st \<and> (\<exists>at. pk = Some (at, 32))")
    case False
    then show ?thesis
      using assms(2) by (cases pk) (auto simp: hap_pair_verify_m1_def st pk(1))
  next
    case True
    then obtain at where at: "pk = Some (at, 32)" by blast
    then have "at + 32 \<le> length input" using pk(2) by blast
    then obtain cpk where cpk: "rd_block input at 32 = Some cpk" "length cpk = 32" by simp
    obtain ok shared where x: "x25519 C (hs_session_secret_key s) cpk = (ok, shared)" by force
    then have shared: "length shared = 32" using crypto_okD(5) [OF assms(1)] by (metis snd_conv)
    let ?s = "s\<lparr>hs_client_public_key := cpk, hs_shared_secret := shared\<rparr>"
    have s1: "session_wf ?s" using assms(2) cpk shared by (simp add: session_wf_def)
    let ?sig = "ed25519_sign C (hs_device_secret_key ?s)
        (hs_session_public_key ?s @ device_id_string mac @ hs_client_public_key ?s)"
    let ?key = "hap_hkdf_sha512 C (ascii ''Pair-Verify-Encrypt-Salt'') (hs_shared_secret ?s)
        (ascii ''Pair-Verify-Encrypt-Info'') 32"
    obtain b1 p1 where e1: "tlv_put TLV_TYPE_IDENTIFIER (device_id_string mac) (replicate 256 0, 0) = Some (b1, p1)"
      "length b1 = 256" "p1 \<le> 256"
      using tlv_put_safe [of 0 "replicate 256 0"] by fastforce
    obtain b2 p2 where e2: "tlv_put TLV_TYPE_SIGNATURE ?sig (b1, p1) = Some (b2, p2)" "length b2 = 256" "p2 \<le> 256"
      using tlv_put_safe [of p1 b1] e1 by fastforce
    have enc: "\<not> length (aead_enc C ?key (message_nonce ''PV-Msg02'') [] (take p2 b2)) > 256 + 16"
      using assms(1) e2 by simp
    have s2: "session_wf (?s\<lparr>hs_pair_verify_state := 2, hs_encrypt_key := ?key\<rparr>)"
      using s1 assms(1) by (simp add: session_wf_def)
    show ?thesis
      unfolding hap_pair_verify_m1_def st pk(1) at bind.bind_lunit option.case prod.case Let_def cpk(1) x
        tlv8_encoder_init_def [of "replicate 256 0"] e1(1) e2(1) tlv8_encoder_size_def [of "(b2, p2)"] fst_conv snd_conv
      using True assms(2) s1 s2 enc
      by (auto simp: tlv8_encoder_size_def intro!: pair_safe_put tlv_init_fit)
  qed
qed

lemma verify_m3_safe:
  assumes "crypto_ok C" "session_wf s"
  shows "pair_safe output (hap_pair_verify_m3 C s input output)"
proof -
  obtain st where st: "tlv_state_is input 3 = Some st" using tlv_state_is_safe by blast
  obtain ok buf len where d: "tlv8_decode_concat input TLV_TYPE_ENCRYPTED_DATA (replicate 512 0) = Some (ok, buf, len)"
    "length buf = 512" using decode_concat_safe [of input TLV_TYPE_ENCRYPTED_DATA "replicate 512 0"] by auto
  have dec: "length p \<le> 512" if "aead_dec C k n [] (take (the len) buf) = Some p" for k n p
    using aead_dec_length [OF assms(1) that] d(2) by (simp add: min_def split: if_splits)
  moreover have "session_wf (s\<lparr>hs_encrypt_key := hap_hkdf_sha512 C control_salt (hs_shared_secret s) control_read_info 32,
      hs_decrypt_key := hap_hkdf_sha512 C control_salt (hs_shared_secret s) control_write_info 32,
      hs_pair_verify_state := 4, hs_session_established := True\<rparr>)"
    using assms by (simp add: session_wf_def)
  ultimately show ?thesis
    unfolding hap_pair_verify_m3_def st d(1) bind.bind_lunit prod.case Let_def
    using assms(2)
    by (auto simp: tlv8_encoder_size_def intro!: pair_safe_put tlv_init_fit split: option.split dest: dec)
qed

lemma verify_m1_raw_safe:
  assumes "crypto_ok C" "session_wf s"
  shows "pair_safe output (hap_pair_verify_m1_raw C s input output)"
proof (cases "length input < 32")
  case True
  then show ?thesis using assms(2) by (auto simp: hap_pair_verify_m1_raw_def)
next
  case False
  then obtain cpk where cpk: "rd_block input (if length input \<ge> 68 then 4 else 0) 32 = Some cpk" "length cpk = 32"
    by (cases "length input \<ge> 68") simp_all
  obtain ok shared where x: "x25519 C (hs_session_secret_key s) cpk = (ok, shared)" by force
  then have shared: "length shared = 32" using crypto_okD(5) [OF assms(1)] by (metis snd_conv)
  let ?s = "s\<lparr>hs_client_public_key := cpk, hs_shared_secret := shared\<rparr>"
  have s1: "session_wf ?s" using assms(2) cpk shared by (simp add: session_wf_def)
  have k: "length (verify_aes_key C ?s) = 16" "length (verify_aes_iv C ?s) = 16"
    using assms(1) by (simp_all add: verify_aes_key_def verify_aes_iv_def)
  show ?thesis
    using False cpk s1 assms k
    by (auto simp: hap_pair_verify_m1_raw_def x Let_def wr_def session_wf_def)
qed

lemma verify_m3_raw_eq:
  assumes "64 \<le> length input"
  shows "hap_pair_verify_m3_raw C s input output = Some (ESP_OK,
    s\<lparr>hs_decrypt_key := hap_hkdf_sha512 C control_salt (hs_shared_secret s) control_read_info 32,
      hs_encrypt_key := hap_hkdf_sha512 C control_salt (hs_shared_secret s) control_write_info 32,
      hs_encrypt_nonce := 0, hs_decrypt_nonce := 0, hs_pair_verify_state := 4,
      hs_session_established := True\<rparr>, output, Some 0)"
  using assms by (cases "length input \<ge> 68") (simp_all add: hap_pair_verify_m3_raw_def Let_def)

lemma verify_m3_raw_safe:
  assumes "crypto_ok C" "session_wf s"
  shows "pair_safe output (hap_pair_verify_m3_raw C s input output)"
proof (cases "length input < 64")
  case True
  then show ?thesis using assms(2) by (auto simp: hap_pair_verify_m3_raw_def)
next
  case False
  then show ?thesis using assms by (auto simp: verify_m3_raw_eq session_wf_def)
qed

lemma session_create_wf:
  "length (fst dev) = 32 \<Longrightarrow> length (snd dev) = 64 \<Longrightarrow> length (fst eph) = 32 \<Longrightarrow> length (snd eph) = 32 \<Longrightarrow>
    session_wf (hap_session_create dev eph)"
  by (simp add: session_wf_def hap_session_create_def)

text \<open>
  C14. No pairing message can break the memory of a session: for any bytes from the client and any
  output buffer, each of the seven handlers stays inside its buffers, reports at most as many bytes
  as the output buffer holds, and keeps the sizes of all keys of the session and of its SRP state.
\<close>

theorem pairing_handlers_safe:
  assumes "crypto_ok C" "session_wf s" "length salt = SRP_SALT_BYTES"
  shows "pair_safe output (hap_pair_setup_m1 C alloc mpi_ok salt b s input output) \<and>
    pair_safe output (hap_pair_setup_m3 C mpi_ok s input output) \<and>
    pair_safe output (hap_pair_setup_m5 C s input output) \<and>
    pair_safe output (hap_pair_verify_m1 C mac s input output) \<and>
    pair_safe output (hap_pair_verify_m3 C s input output) \<and>
    pair_safe output (hap_pair_verify_m1_raw C s input output) \<and>
    pair_safe output (hap_pair_verify_m3_raw C s input output)"
  using setup_m1_safe [OF assms] setup_m3_safe [OF assms(1,2)] setup_m5_safe [OF assms(1,2)]
    verify_m1_safe [OF assms(1,2)] verify_m3_safe [OF assms(1,2)] verify_m1_raw_safe [OF assms(1,2)]
    verify_m3_raw_safe [OF assms(1,2)]
  by blast

lemma pairing_handlers_safe_witness:
  "pair_safe [] (hap_pair_verify_m3 plain_crypto
    (hap_session_create (replicate 32 1, replicate 64 1) (replicate 32 1, replicate 32 1)) [6, 1, 3, 5, 0] [])"
  using pairing_handlers_safe [OF plain_crypto_ok session_create_wf, of "(replicate 32 1, replicate 64 1)"
      "(replicate 32 1, replicate 32 1)" "replicate 16 0" "[]" True "\<lambda>_. True" "[]" "[6, 1, 3, 5, 0]" "[]"]
  by (simp add: SRP_SALT_BYTES_def)

end
