(* ===== verification/Hap_Pair_Session.thy ===== *)
theory Hap_Pair_Session
  imports Hap_Pair_Facts
begin

section \<open>What pairing establishes\<close>

text \<open>
  The pairing exchange as a whole: a client that follows the protocol ends up with the keys of the
  server, and what a client can reach without following it.
\<close>

subsection \<open>Transient pairing\<close>

definition transient_password :: bytes where
  "transient_password = ascii ''3939''"

text \<open>The client's messages, and the server's.\<close>

definition setup_message_1 :: bytes where
  "setup_message_1 = message_bytes [(0x00, [0]), (TLV_TYPE_STATE, [1]), (TLV_TYPE_FLAGS, [0x10])]"

definition setup_message_2 :: "bytes \<Rightarrow> bytes \<Rightarrow> bytes" where
  "setup_message_2 salt B =
    message_bytes [(TLV_TYPE_STATE, [2]), (TLV_TYPE_SALT, salt), (TLV_TYPE_PUBLIC_KEY, B)]"

definition setup_message_3 :: "bytes \<Rightarrow> bytes \<Rightarrow> bytes" where
  "setup_message_3 A M =
    message_bytes [(TLV_TYPE_STATE, [3]), (TLV_TYPE_PUBLIC_KEY, A), (TLV_TYPE_PROOF, M)]"

definition setup_message_4 :: "bytes \<Rightarrow> bytes" where
  "setup_message_4 M = message_bytes [(TLV_TYPE_STATE, [4]), (TLV_TYPE_PROOF, M)]"

lemma message_bytes_Cons: "message_bytes ((t, v) # items) = tlv_enc t v @ message_bytes items"
  by (simp add: message_bytes_def)

lemma message_bytes_Nil [simp]: "message_bytes [] = []"
  by (simp add: message_bytes_def)

text \<open>Encoding items one after the other into an empty encoder.\<close>

lemma tlv_puts2:
  assumes "length (message_bytes [(t1, v1), (t2, v2)]) \<le> length out"
  shows "do { e \<leftarrow> tlv_put t1 v1 (tlv8_encoder_init out); tlv_put t2 v2 e } =
    Some (put_at out 0 (message_bytes [(t1, v1), (t2, v2)]), length (message_bytes [(t1, v1), (t2, v2)]))"
  using assms
  by (simp add: tlv8_encoder_init_def tlv_put_fits put_at_put_at message_bytes_Cons)

lemma tlv_puts3:
  assumes "length (message_bytes [(t1, v1), (t2, v2), (t3, v3)]) \<le> length out"
  shows "do { e \<leftarrow> tlv_put t1 v1 (tlv8_encoder_init out); e \<leftarrow> tlv_put t2 v2 e; tlv_put t3 v3 e } =
    Some (put_at out 0 (message_bytes [(t1, v1), (t2, v2), (t3, v3)]),
      length (message_bytes [(t1, v1), (t2, v2), (t3, v3)]))"
  using assms
  by (simp add: tlv8_encoder_init_def tlv_put_fits put_at_put_at message_bytes_Cons)

lemma take_put_at_self [simp]: "take (length bs) (put_at out 0 bs) = bs"
  by (simp add: put_at_def)

lemma setup_m1_run:
  assumes "crypto_ok C" "\<forall>k. mpi_ok k" "length salt = SRP_SALT_BYTES" "409 \<le> length output"
  shows "\<exists>srp. srp_start C mpi_ok salt b srp_session_create (ascii ''Pair-Setup'') transient_password = (ESP_OK, srp) \<and>
    hap_pair_setup_m1 C True mpi_ok salt b s setup_message_1 output = Some (ESP_OK,
      s\<lparr>hs_pair_setup_transient := True, hs_srp := Some srp, hs_pair_setup_state := 2\<rparr>,
      put_at output 0 (setup_message_2 salt (srp_server_public_key srp)),
      Some (length (setup_message_2 salt (srp_server_public_key srp))))"
proof -
  let ?start = "srp_start C mpi_ok salt b srp_session_create (ascii ''Pair-Setup'') transient_password"
  obtain srp where srp: "?start = (ESP_OK, srp)" and salt: "srp_salt srp = salt"
    using assms(2) by (simp add: srp_start_def Let_def)
  have wf: "srp_wf srp" by (rule srp_start_wf [OF assms(1,3) srp_create_wf srp])
  have len: "length (setup_message_2 salt (srp_server_public_key srp)) = 409"
    using wf assms(3)
    by (simp add: setup_message_2_def message_bytes_Cons length_tlv_enc length_tlv_chunks srp_wf_def
        SRP_SALT_BYTES_def SRP_PRIME_BYTES_def flip: length_0_conv)
  obtain at where flags: "tlv8_find setup_message_1 TLV_TYPE_FLAGS = Some (Some (at, 1))"
    "rd setup_message_1 at = Some 0x10"
    using find_byte_message [of "[(0x00, [0]), (TLV_TYPE_STATE, [1]), (TLV_TYPE_FLAGS, [0x10])]" TLV_TYPE_FLAGS "0x10"]
    by (auto simp: setup_message_1_def tlv_types)
  have st: "tlv_state_is setup_message_1 1 = Some True"
    unfolding setup_message_1_def by (subst tlv_state_message [where b = 1]) (simp_all add: tlv_types)
  have enc: "do { e \<leftarrow> tlv_put TLV_TYPE_STATE [2] (tlv8_encoder_init output); e \<leftarrow> tlv_put TLV_TYPE_SALT salt e;
      tlv_put TLV_TYPE_PUBLIC_KEY (srp_server_public_key srp) e } =
      Some (put_at output 0 (setup_message_2 salt (srp_server_public_key srp)),
        length (setup_message_2 salt (srp_server_public_key srp)))"
    using assms(4) len unfolding setup_message_2_def by (intro tlv_puts3) simp
  have "hap_pair_setup_m1 C True mpi_ok salt b s setup_message_1 output =
      do { e \<leftarrow> (do { e \<leftarrow> tlv_put TLV_TYPE_STATE [2] (tlv8_encoder_init output); e \<leftarrow> tlv_put TLV_TYPE_SALT salt e;
             tlv_put TLV_TYPE_PUBLIC_KEY (srp_server_public_key srp) e });
           Some (ESP_OK, s\<lparr>hs_pair_setup_transient := True, hs_srp := Some srp, hs_pair_setup_state := 2\<rparr>,
             fst e, Some (tlv8_encoder_size e)) }"
    using srp salt by (simp add: hap_pair_setup_m1_def flags st transient_password_def)
  then show ?thesis unfolding enc using srp by (simp add: tlv8_encoder_size_def)
qed

text \<open>What the handlers read from the client's M3.\<close>

lemma setup_message_3_parts:
  assumes "length A \<le> 512" "length M = 64"
  shows "tlv_state_is (setup_message_3 A M) 3 = Some True"
    "tlv8_decode_concat (setup_message_3 A M) TLV_TYPE_PUBLIC_KEY (replicate 512 0) =
      Some (True, put_at (replicate 512 0) 0 A, Some (length A))"
    "tlv8_decode_concat (setup_message_3 A M) TLV_TYPE_PROOF (replicate 64 0) =
      Some (True, put_at (replicate 64 0) 0 M, Some (length M))"
proof -
  have dist: "distinct (map fst [(TLV_TYPE_STATE, [3]), (TLV_TYPE_PUBLIC_KEY, A), (TLV_TYPE_PROOF, M)])"
    by (simp add: tlv_types)
  show "tlv_state_is (setup_message_3 A M) 3 = Some True"
    unfolding setup_message_3_def by (subst tlv_state_message [where b = 3]) (simp_all add: tlv_types)
  show "tlv8_decode_concat (setup_message_3 A M) TLV_TYPE_PUBLIC_KEY (replicate 512 0) =
      Some (True, put_at (replicate 512 0) 0 A, Some (length A))"
    unfolding setup_message_3_def using assms by (intro decode_message [OF dist]) (simp_all add: tlv_types)
  show "tlv8_decode_concat (setup_message_3 A M) TLV_TYPE_PROOF (replicate 64 0) =
      Some (True, put_at (replicate 64 0) 0 M, Some (length M))"
    unfolding setup_message_3_def using assms by (intro decode_message [OF dist]) (simp_all add: tlv_types)
qed

lemma setup_message_4_put:
  assumes "length pf = 64" "409 \<le> length output"
  shows "do { e \<leftarrow> tlv_put TLV_TYPE_STATE [4] (tlv8_encoder_init output); tlv_put TLV_TYPE_PROOF pf e } =
    Some (put_at output 0 (setup_message_4 pf), length (setup_message_4 pf))"
proof -
  have "length (setup_message_4 pf) = 69"
    using assms(1) by (simp add: setup_message_4_def message_bytes_Cons length_tlv_enc length_tlv_chunks flip: length_0_conv)
  then show ?thesis using assms(2) unfolding setup_message_4_def by (intro tlv_puts2) simp
qed

text \<open>A client that knows the password of the running SRP session, and its M3.\<close>

lemma setup_m3_run:
  fixes a :: nat
  assumes "crypto_ok C" "\<forall>k. mpi_ok k" "length salt = SRP_SALT_BYTES" "409 \<le> length output"
    and srp: "srp_start C mpi_ok salt b srp_session_create (ascii ''Pair-Setup'') transient_password = (ESP_OK, srp)"
    and s: "hs_srp s = Some srp" "hs_pair_setup_transient s"
  defines "B \<equiv> srp_server_public_key srp"
  defines "K \<equiv> client_key C transient_password salt B a"
  shows "\<exists>s2 out2 n2. hap_pair_setup_m3 C mpi_ok s
      (setup_message_3 (mpi_bytes (client_A a)) (client_proof C transient_password salt B a)) output =
      Some (ESP_OK, s2, out2, Some n2) \<and>
    take n2 out2 = setup_message_4 (client_expects C transient_password salt B a) \<and>
    hs_session_established s2 \<and> hs_encrypt_nonce s2 = 0 \<and> hs_decrypt_nonce s2 = 0 \<and>
    hs_encrypt_key s2 = hap_hkdf_sha512 C control_salt K control_read_info 32 \<and>
    hs_decrypt_key s2 = hap_hkdf_sha512 C control_salt K control_write_info 32"
proof -
  let ?A = "mpi_bytes (client_A a)" and ?M = "client_proof C transient_password salt B a"
  let ?P = "client_expects C transient_password salt B a"
  have "length ?A \<le> SRP_PRIME_BYTES"
    using mpi_bytes_length [OF exp_mod_bound] by (simp add: client_A_def)
  then have A: "length ?A \<le> 512" by (simp add: SRP_PRIME_BYTES_def)
  have M: "length ?M = 64" using assms(1) by (simp add: client_proof_def length_srp_m1)
  obtain srp2 where v: "srp_verify_client C mpi_ok srp ?A ?M = (ESP_OK, srp2)"
    "srp_get_session_key srp2 = Some K" "srp_get_proof srp2 = Some ?P"
    using srp_accepts [OF assms(1-3) _ _ srp [unfolded transient_password_def], of a] srp_create_wf
    by (auto simp: srp_wf_def transient_password_def B_def K_def)
  have wf2: "srp_wf srp2"
    by (rule srp_verify_wf [OF assms(1) srp_start_wf [OF assms(1,3) srp_create_wf srp] v(1)])
  have klen: "srp_session_key_len srp2 \<noteq> 0"
    using wf2 v(2) by (auto simp: srp_wf_def srp_get_session_key_def split: if_splits)
  have P: "length ?P = 64" using assms(1) by (simp add: client_expects_def)
  let ?s2 = "s\<lparr>hs_srp := Some srp2, hs_shared_secret := take 32 K,
      hs_encrypt_key := hap_hkdf_sha512 C control_salt K control_read_info 32,
      hs_decrypt_key := hap_hkdf_sha512 C control_salt K control_write_info 32,
      hs_encrypt_nonce := 0, hs_decrypt_nonce := 0, hs_session_established := True\<rparr>"
  have "hap_pair_setup_m3 C mpi_ok s (setup_message_3 ?A ?M) output =
      do { e \<leftarrow> (do { e \<leftarrow> tlv_put TLV_TYPE_STATE [4] (tlv8_encoder_init output); tlv_put TLV_TYPE_PROOF ?P e });
           Some (ESP_OK, ?s2\<lparr>hs_pair_setup_state := 4\<rparr>, fst e, Some (tlv8_encoder_size e)) }"
    using klen s by (simp add: hap_pair_setup_m3_def setup_message_3_parts [OF A M] v Let_def)
  then show ?thesis unfolding setup_message_4_put [OF P assms(4)] by (simp add: tlv8_encoder_size_def)
qed

text \<open>
  C11. Transient pairing as a whole: a client that sends M1, reads salt and public key from M2 and
  answers with an M3 for the transient password gets an M4 with the proof it expects, and from then
  on the session is established with the control keys the client derives from its own SRP key, and
  both counters at zero.
\<close>

theorem transient_pairing_agrees:
  assumes "crypto_ok C" "\<forall>k. mpi_ok k" "length salt = SRP_SALT_BYTES" "409 \<le> length output"
  shows "\<exists>s1 out1 n1 B. hap_pair_setup_m1 C True mpi_ok salt b s setup_message_1 output =
      Some (ESP_OK, s1, out1, Some n1) \<and> take n1 out1 = setup_message_2 salt B \<and>
    (\<forall>a. \<exists>s2 out2 n2. hap_pair_setup_m3 C mpi_ok s1
        (setup_message_3 (mpi_bytes (client_A a)) (client_proof C transient_password salt B a)) output =
        Some (ESP_OK, s2, out2, Some n2) \<and>
      take n2 out2 = setup_message_4 (client_expects C transient_password salt B a) \<and>
      hs_session_established s2 \<and> hs_encrypt_nonce s2 = 0 \<and> hs_decrypt_nonce s2 = 0 \<and>
      hs_encrypt_key s2 = hap_hkdf_sha512 C control_salt (client_key C transient_password salt B a) control_read_info 32 \<and>
      hs_decrypt_key s2 = hap_hkdf_sha512 C control_salt (client_key C transient_password salt B a) control_write_info 32)"
proof -
  obtain srp where srp: "srp_start C mpi_ok salt b srp_session_create (ascii ''Pair-Setup'') transient_password =
      (ESP_OK, srp)"
    and m1: "hap_pair_setup_m1 C True mpi_ok salt b s setup_message_1 output = Some (ESP_OK,
      s\<lparr>hs_pair_setup_transient := True, hs_srp := Some srp, hs_pair_setup_state := 2\<rparr>,
      put_at output 0 (setup_message_2 salt (srp_server_public_key srp)),
      Some (length (setup_message_2 salt (srp_server_public_key srp))))"
    using setup_m1_run [OF assms] by blast
  show ?thesis
    using m1 take_put_at_self setup_m3_run [OF assms srp,
        where s = "s\<lparr>hs_pair_setup_transient := True, hs_srp := Some srp, hs_pair_setup_state := 2\<rparr>"]
    by (intro exI conjI) (assumption | rule take_put_at_self | simp)+
qed

lemma transient_pairing_agrees_witness:
  "\<exists>s1 out1 n1 s2 out2 n2 B. hap_pair_setup_m1 plain_crypto True (\<lambda>_. True) (replicate 16 7) [3]
      (hap_session_create ([], []) ([], [])) setup_message_1 (replicate 1024 0) = Some (ESP_OK, s1, out1, Some n1) \<and>
    hap_pair_setup_m3 plain_crypto (\<lambda>_. True) s1 (setup_message_3 (mpi_bytes (client_A 9))
      (client_proof plain_crypto transient_password (replicate 16 7) B 9)) (replicate 1024 0) =
      Some (ESP_OK, s2, out2, Some n2) \<and> hs_session_established s2"
  using transient_pairing_agrees [OF plain_crypto_ok, of "\<lambda>_. True" "replicate 16 7" "replicate 1024 0" "[3]"
      "hap_session_create ([], []) ([], [])"]
  by (simp add: SRP_SALT_BYTES_def) metis

subsection \<open>Sessions without a key exchange\<close>



text \<open>The TLV and the raw verification derive the two control keys the other way round.\<close>

lemma verify_variants_swap_keys:
  assumes "hap_pair_verify_m3 C s input1 output1 = Some (ESP_OK, s1, out1, n1)"
    and "hap_pair_verify_m3_raw C s input2 output2 = Some (ESP_OK, s2, out2, n2)"
  shows "hs_encrypt_key s1 = hs_decrypt_key s2 \<and> hs_decrypt_key s1 = hs_encrypt_key s2"
proof -
  have "64 \<le> length input2" using assms(2) by (auto simp: hap_pair_verify_m3_raw_def split: if_splits)
  from verify_m3_raw_eq [OF this] assms(2)
  have "hs_decrypt_key s2 = hap_hkdf_sha512 C control_salt (hs_shared_secret s) control_read_info 32"
    "hs_encrypt_key s2 = hap_hkdf_sha512 C control_salt (hs_shared_secret s) control_write_info 32"
    by auto
  moreover have "hs_encrypt_key s1 = hap_hkdf_sha512 C control_salt (hs_shared_secret s) control_read_info 32 \<and>
      hs_decrypt_key s1 = hap_hkdf_sha512 C control_salt (hs_shared_secret s) control_write_info 32"
    using assms(1) unfolding hap_pair_verify_m3_def
    by (auto simp: Let_def bind_eq_Some_conv split: if_splits option.splits prod.splits)
  ultimately show ?thesis by simp
qed

end
