(* ===== verification/Rtsp_Conn.thy ===== *)
theory Rtsp_Conn
  imports Hap_Session
begin

section \<open>The state of an RTSP connection (main/rtsp/rtsp_conn.c)\<close>

text \<open>
  The record of \<open>rtsp_conn_t\<close> and its life cycle. Calls that leave the connection (closing sockets,
  persisting the volume, clearing the PTP clock) are collected as effects in the order of the calls.
\<close>

record rtsp_conn =
  rc_hap_session :: "hap_session option"
  rc_encrypted_mode :: bool
  rc_stream_active :: bool
  rc_stream_paused :: bool
  rc_stream_type :: int
  rc_data_port :: u16
  rc_control_port :: u16
  rc_timing_port :: u16
  rc_event_port :: u16
  rc_buffered_port :: u16
  rc_data_socket :: int
  rc_control_socket :: int
  rc_event_socket :: int
  rc_client_ip :: u32
  rc_client_timing_port :: u16
  rc_client_control_port :: u16
  rc_codec :: bytes
  rc_sample_rate :: int
  rc_channels :: int
  rc_bits_per_sample :: int
  rc_dacp_id :: bytes
  rc_active_remote :: bytes
  rc_protocol_version :: nat

datatype conn_effect = Persist_volume | Close_socket int | Clear_ptp_clock | Free_session hap_session | Free_conn

definition rtsp_conn_create :: rtsp_conn where
  "rtsp_conn_create = \<lparr>
     rc_hap_session = None, rc_encrypted_mode = False, rc_stream_active = False, rc_stream_paused = False,
     rc_stream_type = 0, rc_data_port = 0, rc_control_port = 0, rc_timing_port = 0, rc_event_port = 0,
     rc_buffered_port = 0, rc_data_socket = -1, rc_control_socket = -1, rc_event_socket = -1,
     rc_client_ip = 0, rc_client_timing_port = 0, rc_client_control_port = 0, rc_codec = replicate 32 0,
     rc_sample_rate = 0, rc_channels = 0, rc_bits_per_sample = 0, rc_dacp_id = replicate 32 0,
     rc_active_remote = replicate 32 0, rc_protocol_version = 0\<rparr>"

definition rtsp_conn_reset_stream :: "rtsp_conn \<Rightarrow> rtsp_conn" where
  "rtsp_conn_reset_stream c = c\<lparr>rc_stream_active := False, rc_stream_paused := True\<rparr>"

definition close_socket :: "int \<Rightarrow> conn_effect list" where
  "close_socket fd = (if fd \<ge> 0 then [Close_socket fd] else [])"

definition rtsp_conn_cleanup :: "rtsp_conn \<Rightarrow> rtsp_conn \<times> conn_effect list" where
  "rtsp_conn_cleanup c =
    (let closes = close_socket (rc_data_socket c) @ close_socket (rc_control_socket c) @
           close_socket (rc_event_socket c);
         c = c\<lparr>rc_data_socket := if rc_data_socket c \<ge> 0 then -1 else rc_data_socket c,
           rc_control_socket := if rc_control_socket c \<ge> 0 then -1 else rc_control_socket c,
           rc_event_socket := if rc_event_socket c \<ge> 0 then -1 else rc_event_socket c\<rparr>;
         c = c\<lparr>rc_stream_active := False, rc_stream_paused := False, rc_data_port := 0,
           rc_control_port := 0, rc_timing_port := 0, rc_event_port := 0, rc_buffered_port := 0\<rparr> in
     (c\<lparr>rc_encrypted_mode := False\<rparr>, closes @ [Clear_ptp_clock]))"

definition rtsp_conn_free :: "rtsp_conn \<Rightarrow> conn_effect list" where
  "rtsp_conn_free c =
    (let (c, effects) = rtsp_conn_cleanup c in
     Persist_volume # effects @
     (case rc_hap_session c of None \<Rightarrow> [] | Some s \<Rightarrow> [Free_session (hap_session_free s)]) @ [Free_conn])"

text \<open>The sockets a connection owns.\<close>

definition open_sockets :: "rtsp_conn \<Rightarrow> int list" where
  "open_sockets c = filter (\<lambda>fd. fd \<ge> 0) [rc_data_socket c, rc_control_socket c, rc_event_socket c]"

definition closed_by :: "conn_effect list \<Rightarrow> int list" where
  "closed_by es = concat (map (\<lambda>e. case e of Close_socket fd \<Rightarrow> [fd] | _ \<Rightarrow> []) es)"

text \<open>
  Releasing a connection closes every socket it owns exactly once, and a clean-up before the
  release (as the client task does) takes that over: then the release closes none of them again.
\<close>

theorem conn_sockets_closed_once:
  "closed_by (rtsp_conn_free c) = open_sockets c \<and>
   (let (c', effects) = rtsp_conn_cleanup c in
     closed_by effects = open_sockets c \<and> open_sockets c' = [] \<and> closed_by (rtsp_conn_free c') = [] \<and>
     rc_hap_session c' = rc_hap_session c \<and> \<not> rc_encrypted_mode c')"
  by (cases "rc_hap_session c")
    (simp_all add: rtsp_conn_free_def rtsp_conn_cleanup_def open_sockets_def closed_by_def close_socket_def)

end
