(* ===== verification/Sockets.thy ===== *)
theory Sockets
  imports Prelude
begin

section \<open>Stream sockets\<close>

text \<open>
  What the code sees of a TCP socket. Each call of \<open>recv\<close> meets the next event of \<open>sk_rx\<close>: bytes
  that arrived together (as much of them as the caller asked for, the rest stays), a receive
  time-out, or an error. A connection without further events is closed. Each call of \<open>send\<close>
  takes the next number of \<open>sk_send\<close>: an error when it is not positive, otherwise the most bytes
  the network accepts in this call. \<open>sk_tx\<close> collects what was sent.
\<close>

datatype rx_event = Rx_data bytes | Rx_timeout | Rx_error

datatype recv_result = R_bytes bytes | R_again | R_error

record sock =
  sk_rx :: "rx_event list"
  sk_tx :: bytes
  sk_send :: "nat \<Rightarrow> int"

fun recv_from :: "nat \<Rightarrow> rx_event list \<Rightarrow> recv_result \<times> rx_event list" where
  "recv_from n [] = (R_bytes [], [])"
| "recv_from n (Rx_data bs # es) =
     (R_bytes (take n bs), if n < length bs then Rx_data (drop n bs) # es else es)"
| "recv_from n (Rx_timeout # es) = (R_again, es)"
| "recv_from n (Rx_error # es) = (R_error, es)"

definition sock_send :: "bytes \<Rightarrow> sock \<Rightarrow> int \<times> sock" where
  "sock_send data sk =
    (let r = sk_send sk 0; sk = sk\<lparr>sk_send := (\<lambda>k. sk_send sk (Suc k))\<rparr> in
     if r \<le> 0 then (r, sk)
     else let n = min (nat r) (length data) in (int n, sk\<lparr>sk_tx := sk_tx sk @ take n data\<rparr>))"

lemma recv_from_bytes_less: "recv_from n es = (R_bytes bs, es') \<Longrightarrow> length es' \<le> length es"
  by (cases "(n, es)" rule: recv_from.cases) (auto split: if_splits)

lemma recv_from_again_less: "recv_from n es = (R_again, es') \<Longrightarrow> length es' < length es"
  by (cases "(n, es)" rule: recv_from.cases) (auto split: if_splits)

lemma recv_from_bytes_length: "recv_from n es = (R_bytes bs, es') \<Longrightarrow> length bs \<le> n"
  by (cases "(n, es)" rule: recv_from.cases) auto

subsection \<open>Receiving exactly n bytes\<close>

text \<open>The receive loop of the code: a time-out is not an end, a closed connection is.\<close>

function recv_exact :: "nat \<Rightarrow> rx_event list \<Rightarrow> bytes option \<times> rx_event list" where
  "recv_exact n es =
    (if n = 0 then (Some [], es)
     else case recv_from n es of
       (R_bytes bs, es') \<Rightarrow>
         if bs = [] then (None, es')
         else let (rest, es'') = recv_exact (n - length bs) es' in (map_option ((@) bs) rest, es'')
     | (R_again, es') \<Rightarrow> recv_exact n es'
     | (R_error, es') \<Rightarrow> (None, es'))"
  by auto

termination
proof (relation "measure (\<lambda>(n, es). n + length es)", goal_cases)
  case (2 n es r es' bs)
  then have "n - length bs + length es' < n + length es"
    using recv_from_bytes_less [of n es bs es'] by (intro add_less_le_mono) auto
  then show ?case by simp
next
  case (3 n es r es')
  then show ?case using recv_from_again_less [of n es es'] by simp
qed simp

declare recv_exact.simps [simp del]

text \<open>A stream that flows: data and time-outs only; \<open>rx_bytes\<close> is what it carries.\<close>

fun rx_bytes :: "rx_event list \<Rightarrow> bytes" where
  "rx_bytes [] = []"
| "rx_bytes (Rx_data bs # es) = bs @ rx_bytes es"
| "rx_bytes (_ # es) = rx_bytes es"

fun rx_flows :: "rx_event list \<Rightarrow> bool" where
  "rx_flows [] = True"
| "rx_flows (Rx_data bs # es) = (bs \<noteq> [] \<and> rx_flows es)"
| "rx_flows (Rx_timeout # es) = rx_flows es"
| "rx_flows (Rx_error # es) = False"

lemma recv_exact_flows:
  "rx_flows es \<Longrightarrow> n \<le> length (rx_bytes es) \<Longrightarrow>
    \<exists>es'. recv_exact n es = (Some (take n (rx_bytes es)), es') \<and> rx_flows es' \<and>
      rx_bytes es' = drop n (rx_bytes es)"
proof (induction es arbitrary: n rule: rx_bytes.induct)
  case (2 bs es)
  show ?case
  proof (cases "n = 0 \<or> n < length bs")
    case True
    then show ?thesis using 2(2) by (auto simp: recv_exact.simps [of n] recv_exact.simps [of 0])
  next
    case False
    then obtain es' where "recv_exact (n - length bs) es = (Some (take (n - length bs) (rx_bytes es)), es')"
      "rx_flows es'" "rx_bytes es' = drop (n - length bs) (rx_bytes es)"
      using 2(1) [of "n - length bs"] 2(2,3) by force
    then show ?thesis using False 2(2) by (subst recv_exact.simps) simp
  qed
qed (auto simp: recv_exact.simps [of _ "Rx_timeout # _"] recv_exact.simps [of 0])

lemma recv_exact_length: "recv_exact n es = (Some bs, es') \<Longrightarrow> length bs = n"
proof (induction n es arbitrary: bs es' rule: recv_exact.induct)
  case (1 n es)
  show ?case
  proof (cases "n = 0")
    case True
    then show ?thesis using 1(3) by (simp add: recv_exact.simps)
  next
    case False
    obtain r es1 where r: "recv_from n es = (r, es1)" by (cases "recv_from n es") auto
    have len: "length bs1 \<le> n" if "r = R_bytes bs1" for bs1
      using r that by (intro recv_from_bytes_length [of n es _ es1]) simp
    show ?thesis
    proof (cases r)
      case (R_bytes bs1)
      then obtain rest es2 where n0: "bs1 \<noteq> []" "recv_exact (n - length bs1) es1 = (Some rest, es2)" "bs = bs1 @ rest"
        using 1(3) False r by (subst (asm) recv_exact.simps) (auto split: if_splits prod.splits)
      have "length rest = n - length bs1"
        by (rule 1(1) [OF False r [unfolded R_bytes, symmetric] refl n0(1) n0(2)])
      then show ?thesis using n0(3) len [OF R_bytes] by simp
    next
      case R_again
      then show ?thesis
        using 1(3) False r by (subst (asm) recv_exact.simps) (auto intro: 1(2) [OF False r [unfolded R_again, symmetric] refl])
    next
      case R_error
      then show ?thesis using 1(3) False r by (subst (asm) recv_exact.simps) simp
    qed
  qed
qed

lemma recv_from_consumes: "recv_from n es = (R_bytes bs, es') \<Longrightarrow> rx_bytes es = bs @ rx_bytes es'"
  by (cases "(n, es)" rule: recv_from.cases) (auto split: if_splits)

lemma recv_from_again_consumes: "recv_from n es = (R_again, es') \<Longrightarrow> rx_bytes es = rx_bytes es'"
  by (cases "(n, es)" rule: recv_from.cases) (auto split: if_splits)

lemma recv_exact_consumes:
  "recv_exact n es = (Some bs, es') \<Longrightarrow> rx_bytes es = bs @ rx_bytes es'"
proof (induction n es arbitrary: bs es' rule: recv_exact.induct)
  case (1 n es)
  obtain r es1 where r: "recv_from n es = (r, es1)" by (cases "recv_from n es") auto
  show ?case
  proof (cases "n = 0")
    case True
    then show ?thesis using 1(3) by (simp add: recv_exact.simps)
  next
    case False
    show ?thesis
    proof (cases r)
      case (R_bytes bs1)
      then obtain rest where n0: "bs1 \<noteq> []" "recv_exact (n - length bs1) es1 = (Some rest, es')" "bs = bs1 @ rest"
        using 1(3) False r by (subst (asm) recv_exact.simps) (auto split: if_splits prod.splits)
      have "rx_bytes es1 = rest @ rx_bytes es'"
        by (rule 1(1) [OF False r [unfolded R_bytes, symmetric] refl n0(1) n0(2)])
      then show ?thesis using n0(3) recv_from_consumes r R_bytes by simp
    next
      case R_again
      then have "recv_exact n es1 = (Some bs, es')"
        using 1(3) False r by (subst (asm) recv_exact.simps) simp
      then have "rx_bytes es1 = bs @ rx_bytes es'"
        by (rule 1(2) [OF False r [unfolded R_again, symmetric] refl])
      then show ?thesis using recv_from_again_consumes r R_again by simp
    next
      case R_error
      then show ?thesis using 1(3) False r by (subst (asm) recv_exact.simps) simp
    qed
  qed
qed

text \<open>What is left to arrive, as a measure.\<close>

fun rx_size :: "rx_event list \<Rightarrow> nat" where
  "rx_size [] = 0"
| "rx_size (Rx_data bs # es) = 1 + length bs + rx_size es"
| "rx_size (_ # es) = 1 + rx_size es"

lemma rx_size_from: "recv_from n es = (r, es') \<Longrightarrow> rx_size es' \<le> rx_size es"
  by (cases "(n, es)" rule: recv_from.cases) (auto split: if_splits)

lemma rx_size_bytes: "recv_from n es = (R_bytes bs, es') \<Longrightarrow> bs \<noteq> [] \<Longrightarrow> rx_size es' < rx_size es"
  by (cases "(n, es)" rule: recv_from.cases) (auto split: if_splits)

lemma rx_size_again: "recv_from n es = (R_again, es') \<Longrightarrow> rx_size es' < rx_size es"
  by (cases "(n, es)" rule: recv_from.cases) (auto split: if_splits)

lemma rx_size_exact: "recv_exact n es = (r, es') \<Longrightarrow> rx_size es' \<le> rx_size es \<and> (0 < n \<and> r \<noteq> None \<longrightarrow> rx_size es' < rx_size es)"
proof (induction n es arbitrary: r es' rule: recv_exact.induct)
  case (1 n es)
  show ?case
  proof (cases "n = 0")
    case True
    then show ?thesis using 1(3) by (simp add: recv_exact.simps [of 0])
  next
    case False
    obtain x es1 where x: "recv_from n es = (x, es1)" by force
    show ?thesis
    proof (cases x)
      case (R_bytes bs)
      show ?thesis
      proof (cases "bs = []")
        case True
        then show ?thesis using 1(3) False x R_bytes rx_size_from [OF x]
          by (subst (asm) recv_exact.simps) simp
      next
        case ne: False
        obtain r2 es2 where r2: "recv_exact (n - length bs) es1 = (r2, es2)" by force
        have "rx_size es2 \<le> rx_size es1" using 1(1) [OF False x [unfolded R_bytes, symmetric] refl ne r2] by blast
        moreover have "rx_size es1 < rx_size es" using rx_size_bytes x R_bytes ne by blast
        moreover have "es' = es2" using 1(3) False x R_bytes ne r2 by (subst (asm) recv_exact.simps) simp
        ultimately show ?thesis by simp
      qed
    next
      case R_again
      then have "recv_exact n es1 = (r, es')" using 1(3) False x by (subst (asm) recv_exact.simps) simp
      then have "rx_size es' \<le> rx_size es1" using 1(2) [OF False x [unfolded R_again, symmetric] refl] by blast
      then show ?thesis using rx_size_again [of n es es1] x R_again by simp
    next
      case R_error
      then show ?thesis using 1(3) False x rx_size_from [OF x] by (subst (asm) recv_exact.simps) simp
    qed
  qed
qed

subsection \<open>Sending all of it\<close>

function send_all :: "bytes \<Rightarrow> nat \<Rightarrow> sock \<Rightarrow> bool \<times> sock" where
  "send_all data sent sk =
    (if sent < length data then
       let (r, sk) = sock_send (drop sent data) sk in
       if r \<le> 0 then (False, sk) else send_all data (sent + nat r) sk
     else (True, sk))"
  by auto

termination
  by (relation "measure (\<lambda>(data, sent, sk). length data - sent)") auto

declare send_all.simps [simp del]

lemma send_all_prefix:
  "\<exists>n. n \<le> length data - sent \<and> (send_all data sent sk = (True, sk') \<longrightarrow> n = length data - sent) \<and>
    (snd (send_all data sent sk) = sk' \<longrightarrow> sk_tx sk' = sk_tx sk @ take n (drop sent data) \<and> sk_rx sk' = sk_rx sk)"
proof (induction data sent sk rule: send_all.induct)
  case (1 data sent sk)
  show ?case
  proof (cases "sent < length data")
    case False
    then show ?thesis by (intro exI [of _ 0]) (auto simp: send_all.simps)
  next
    case True
    obtain r sk1 where r: "sock_send (drop sent data) sk = (r, sk1)" by force
    show ?thesis
    proof (cases "r \<le> 0")
      case fail: True
      then have "sk_tx sk1 = sk_tx sk" "sk_rx sk1 = sk_rx sk"
        using r by (auto simp: sock_send_def Let_def split: if_splits)
      then show ?thesis using True fail r by (intro exI [of _ 0]) (auto simp: send_all.simps)
    next
      case False
      then have s: "sk_tx sk1 = sk_tx sk @ take (nat r) (drop sent data)" "sk_rx sk1 = sk_rx sk"
        "nat r \<le> length data - sent"
        using r by (auto simp: sock_send_def Let_def split: if_splits)
      obtain n where n: "n \<le> length data - (sent + nat r)"
        "send_all data (sent + nat r) sk1 = (True, sk') \<longrightarrow> n = length data - (sent + nat r)"
        "snd (send_all data (sent + nat r) sk1) = sk' \<longrightarrow>
          sk_tx sk' = sk_tx sk1 @ take n (drop (sent + nat r) data) \<and> sk_rx sk' = sk_rx sk1"
        using 1 [OF True r [symmetric] refl False] by blast
      have "take (nat r) (drop sent data) @ take n (drop (sent + nat r) data) = take (nat r + n) (drop sent data)"
        by (simp add: take_add) (simp add: add.commute)
      moreover have "send_all data sent sk = send_all data (sent + nat r) sk1"
        using True False r by (subst send_all.simps) simp
      ultimately show ?thesis using n s by (intro exI [of _ "nat r + n"]) auto
    qed
  qed
qed

lemma send_all_ok:
  assumes "send_all data 0 sk = (True, sk')"
  shows "sk_tx sk' = sk_tx sk @ data" "sk_rx sk' = sk_rx sk"
  using send_all_prefix [of data 0 sk sk'] assms by auto

lemma send_all_succeeds:
  "\<forall>k. 0 < sk_send sk k \<Longrightarrow> \<exists>sk'. send_all data sent sk = (True, sk') \<and> (\<forall>k. 0 < sk_send sk' k)"
proof (induction data sent sk rule: send_all.induct)
  case (1 data sent sk)
  show ?case
  proof (cases "sent < length data")
    case False
    then show ?thesis using 1(2) by (simp add: send_all.simps)
  next
    case True
    obtain r sk1 where r: "sock_send (drop sent data) sk = (r, sk1)" by force
    moreover have "\<not> sk_send sk 0 \<le> 0" using 1(2) by (simp add: not_le)
    ultimately have "\<not> r \<le> 0" "\<forall>k. 0 < sk_send sk1 k"
      using 1(2) True by (auto simp: sock_send_def Let_def not_le split: if_splits)
    then show ?thesis using 1(1) [OF True r [symmetric] refl] True r by (subst send_all.simps) simp
  qed
qed

end
