(* ===== verification/Rtsp_Crypto.thy ===== *)
theory Rtsp_Crypto
  imports Rtsp_Conn Sockets
begin

section \<open>The encrypted control channel (main/rtsp/rtsp_crypto.c)\<close>

text \<open>
  A message travels as blocks of at most 1024 bytes, each a two-byte little-endian length and the
  ciphertext with its tag, encrypted under a counter nonce with the length as associated data.
  \<open>alloc\<close> says whether the allocation for the block at an offset succeeds.
\<close>

definition RTSP_ENCRYPTED_BLOCK_MAX :: nat where "RTSP_ENCRYPTED_BLOCK_MAX = 0x400"

definition block_header :: "nat \<Rightarrow> bytes" where
  "block_header block_len = (let n = of_nat block_len :: u16 in
     [ucast (n AND 0xFF), ucast (drop_bit 8 n AND 0xFF)])"

definition header_length :: "bytes \<Rightarrow> nat" where
  "header_length hdr = unat ((ucast (hdr ! 0) :: u16) OR push_bit 8 (ucast (hdr ! 1)))"

function write_blocks :: "crypto \<Rightarrow> (nat \<Rightarrow> bool) \<Rightarrow> bytes \<Rightarrow> nat \<Rightarrow> hap_session \<Rightarrow> sock \<Rightarrow>
    bool \<times> hap_session \<times> sock" where
  "write_blocks C alloc data offset s sk =
    (if offset < length data then
       let block_len = (if length data - offset > RTSP_ENCRYPTED_BLOCK_MAX then RTSP_ENCRYPTED_BLOCK_MAX
                        else length data - offset);
           hdr = block_header block_len in
       if \<not> alloc offset then (False, s, sk)
       else let ct = aead_enc C (hs_encrypt_key s) (counter_nonce (hs_encrypt_nonce s)) hdr
                  (take block_len (drop offset data)) in
         if length ct \<noteq> block_len + 16 then (False, s, sk)
         else let (ok, sk) = send_all hdr 0 sk in
           if \<not> ok then (False, s, sk)
           else let (ok, sk) = send_all ct 0 sk in
             if \<not> ok then (False, s, sk)
             else write_blocks C alloc data (offset + block_len)
               (s\<lparr>hs_encrypt_nonce := hs_encrypt_nonce s + 1\<rparr>) sk
     else (True, s, sk))"
  by auto

termination
  by (relation "measure (\<lambda>(C, alloc, data, offset, s, sk). length data - offset)")
    (auto simp: RTSP_ENCRYPTED_BLOCK_MAX_def)

declare write_blocks.simps [simp del]

definition rtsp_crypto_write_frame :: "crypto \<Rightarrow> (nat \<Rightarrow> bool) \<Rightarrow> rtsp_conn \<Rightarrow> bytes \<Rightarrow> sock \<Rightarrow>
    bool \<times> rtsp_conn \<times> sock" where
  "rtsp_crypto_write_frame C alloc conn data sk =
    (case rc_hap_session conn of
       None \<Rightarrow> (False, conn, sk)
     | Some s \<Rightarrow>
         if \<not> rc_encrypted_mode conn then (False, conn, sk)
         else let (ok, s, sk) = write_blocks C alloc data 0 s sk in
           (ok, conn\<lparr>rc_hap_session := Some s\<rparr>, sk))"

text \<open>
  Reading a block into \<open>buffer_size\<close> bytes: the plaintext, or nothing on an error. \<open>None\<close> would be
  a plaintext that does not fit the buffer.
\<close>

definition rtsp_crypto_read_block :: "crypto \<Rightarrow> bool \<Rightarrow> rtsp_conn \<Rightarrow> nat \<Rightarrow> sock \<Rightarrow>
    (bytes option \<times> rtsp_conn \<times> sock) mem" where
  "rtsp_crypto_read_block C alloc conn buffer_size sk =
    (case rc_hap_session conn of
       None \<Rightarrow> Some (None, conn, sk)
     | Some s \<Rightarrow>
         if \<not> rc_encrypted_mode conn then Some (None, conn, sk)
         else let (r, rx) = recv_exact 2 (sk_rx sk); sk = sk\<lparr>sk_rx := rx\<rparr> in
           case r of
             None \<Rightarrow> Some (None, conn, sk)
           | Some hdr \<Rightarrow>
               let block_len = header_length hdr in
               if block_len = 0 \<or> block_len > RTSP_ENCRYPTED_BLOCK_MAX \<or> block_len > buffer_size
               then Some (None, conn, sk)
               else if \<not> alloc then Some (None, conn, sk)
               else let (r, rx) = recv_exact (block_len + 16) (sk_rx sk); sk = sk\<lparr>sk_rx := rx\<rparr> in
                 case r of
                   None \<Rightarrow> Some (None, conn, sk)
                 | Some encrypted \<Rightarrow>
                     (case aead_dec C (hs_decrypt_key s) (counter_nonce (hs_decrypt_nonce s)) hdr encrypted of
                        None \<Rightarrow> Some (None, conn, sk)
                      | Some plain \<Rightarrow>
                          if length plain > buffer_size then None
                          else Some (Some plain,
                            conn\<lparr>rc_hap_session := Some (s\<lparr>hs_decrypt_nonce := hs_decrypt_nonce s + 1\<rparr>)\<rparr>, sk)))"

subsection \<open>Headers\<close>

lemma length_block_header [simp]: "length (block_header n) = 2"
  by (simp add: block_header_def Let_def)

lemma u16_of_bytes: "((ucast (ucast (n AND 0xFF :: u16) :: u8) :: u16) OR
    push_bit 8 (ucast (ucast (drop_bit 8 n AND 0xFF) :: u8))) = n"
  by (rule bit_eqI)
    (auto simp: bit_or_iff bit_push_bit_iff bit_and_iff bit_drop_bit_eq bit_ucast_iff bit_mask_numeral
      not_bit_u16 nat_less_le dest: bit_imp_le_length)

lemma header_length_block_header: "n < 65536 \<Longrightarrow> header_length (block_header n) = n"
  by (simp add: header_length_def block_header_def Let_def u16_of_bytes unsigned_of_nat take_bit_nat_eq_self)

text \<open>The bytes of a message on the wire.\<close>

definition wire_block :: "crypto \<Rightarrow> bytes \<Rightarrow> u64 \<Rightarrow> bytes \<Rightarrow> bytes" where
  "wire_block C key nonce p =
    block_header (length p) @ aead_enc C key (counter_nonce nonce) (block_header (length p)) p"

fun wire :: "crypto \<Rightarrow> bytes \<Rightarrow> u64 \<Rightarrow> bytes list \<Rightarrow> bytes" where
  "wire C key nonce [] = []"
| "wire C key nonce (p # ps) = wire_block C key nonce p @ wire C key (nonce + 1) ps"

function blocks_of :: "bytes \<Rightarrow> bytes list" where
  "blocks_of data = (if data = [] then [] else
     take RTSP_ENCRYPTED_BLOCK_MAX data # blocks_of (drop RTSP_ENCRYPTED_BLOCK_MAX data))"
  by auto

termination
  by (relation "measure length") (auto simp: RTSP_ENCRYPTED_BLOCK_MAX_def)

declare blocks_of.simps [simp del]

lemma concat_blocks_of: "concat (blocks_of data) = data"
  by (induction data rule: blocks_of.induct) (subst blocks_of.simps, simp)

lemma blocks_of_size: "p \<in> set (blocks_of data) \<Longrightarrow> 0 < length p \<and> length p \<le> RTSP_ENCRYPTED_BLOCK_MAX"
proof (induction data rule: blocks_of.induct)
  case (1 data)
  then show ?case
    by (cases "data = []")
      (auto simp: blocks_of.simps [of data] blocks_of.simps [of "[]"] RTSP_ENCRYPTED_BLOCK_MAX_def)
qed

subsection \<open>Writing\<close>

lemma write_blocks_wire:
  assumes "crypto_ok C"
  shows "write_blocks C alloc data offset s sk = (True, s', sk') \<Longrightarrow> offset \<le> length data \<Longrightarrow>
    sk_tx sk' = sk_tx sk @ wire C (hs_encrypt_key s) (hs_encrypt_nonce s) (blocks_of (drop offset data)) \<and>
    s' = s\<lparr>hs_encrypt_nonce := hs_encrypt_nonce s + of_nat (length (blocks_of (drop offset data)))\<rparr>"
proof (induction "length data - offset" arbitrary: offset s sk rule: less_induct)
  case less
  show ?case
  proof (cases "offset < length data")
    case False
    then have "s' = s" "sk' = sk" "drop offset data = []"
      using less.prems by (simp_all add: write_blocks.simps)
    then show ?thesis by (simp add: blocks_of.simps)
  next
    case True
    let ?n = "if length data - offset > RTSP_ENCRYPTED_BLOCK_MAX then RTSP_ENCRYPTED_BLOCK_MAX
              else length data - offset"
    let ?p = "take ?n (drop offset data)"
    let ?ct = "aead_enc C (hs_encrypt_key s) (counter_nonce (hs_encrypt_nonce s)) (block_header ?n) ?p"
    let ?s = "s\<lparr>hs_encrypt_nonce := hs_encrypt_nonce s + 1\<rparr>"
    have n: "0 < ?n" "offset + ?n \<le> length data" "length ?p = ?n"
      using True by (auto simp: RTSP_ENCRYPTED_BLOCK_MAX_def)
    have p: "?p = take RTSP_ENCRYPTED_BLOCK_MAX (drop offset data)"
      "drop (offset + ?n) data = drop RTSP_ENCRYPTED_BLOCK_MAX (drop offset data)"
      by (auto simp: add.commute)
    have ct: "length ?ct = ?n + 16" using n(3) assms by simp
    obtain b1 sk1 where s1: "send_all (block_header ?n) 0 sk = (b1, sk1)" by fastforce
    obtain b2 sk2 where s2: "send_all ?ct 0 sk1 = (b2, sk2)" by fastforce
    have "b1 \<and> b2 \<and> alloc offset \<and> write_blocks C alloc data (offset + ?n) ?s sk2 = (True, s', sk')"
      using less.prems(1) True ct
      by (subst (asm) write_blocks.simps) (simp only: if_True Let_def s1 s2 prod.case, auto split: if_splits)
    then have w: "b1" "b2" "write_blocks C alloc data (offset + ?n) ?s sk2 = (True, s', sk')" by blast+
    have "length data - (offset + ?n) < length data - offset" using n True by linarith
    from less.hyps [OF this w(3) n(2)]
    have IH: "sk_tx sk' = sk_tx sk2 @ wire C (hs_encrypt_key s) (hs_encrypt_nonce s + 1)
          (blocks_of (drop (offset + ?n) data))"
      "s' = s\<lparr>hs_encrypt_nonce := hs_encrypt_nonce s + 1 + of_nat (length (blocks_of (drop (offset + ?n) data)))\<rparr>"
      by simp_all
    have b: "blocks_of (drop offset data) = ?p # blocks_of (drop (offset + ?n) data)"
      using True unfolding p by (subst blocks_of.simps) simp
    have "sk_tx sk2 = sk_tx sk @ block_header ?n @ ?ct"
      using send_all_ok(1) s1 s2 w(1,2) by simp
    then have "sk_tx sk2 = sk_tx sk @ wire_block C (hs_encrypt_key s) (hs_encrypt_nonce s) ?p"
      by (simp only: wire_block_def n(3))
    then show ?thesis using IH unfolding b by simp
  qed
qed

lemma write_blocks_ok:
  assumes "crypto_ok C" "\<forall>k. alloc k"
  shows "\<forall>k. 0 < sk_send sk k \<Longrightarrow> \<exists>s' sk'. write_blocks C alloc data offset s sk = (True, s', sk')"
proof (induction "length data - offset" arbitrary: offset s sk rule: less_induct)
  case less
  show ?case
  proof (cases "offset < length data")
    case False
    then show ?thesis by (simp add: write_blocks.simps)
  next
    case True
    let ?n = "if length data - offset > RTSP_ENCRYPTED_BLOCK_MAX then RTSP_ENCRYPTED_BLOCK_MAX
              else length data - offset"
    let ?p = "take ?n (drop offset data)"
    let ?ct = "aead_enc C (hs_encrypt_key s) (counter_nonce (hs_encrypt_nonce s)) (block_header ?n) ?p"
    have n: "0 < ?n" "length ?p = ?n" using True by (auto simp: RTSP_ENCRYPTED_BLOCK_MAX_def)
    have ct: "length ?ct = ?n + 16" using n(2) assms(1) by simp
    obtain sk1 where s1: "send_all (block_header ?n) 0 sk = (True, sk1)" "\<forall>k. 0 < sk_send sk1 k"
      using send_all_succeeds [OF less.prems] by blast
    obtain sk2 where s2: "send_all ?ct 0 sk1 = (True, sk2)" "\<forall>k. 0 < sk_send sk2 k"
      using send_all_succeeds [OF s1(2)] by blast
    have "length data - (offset + ?n) < length data - offset" using n True by linarith
    from less.hyps [OF this s2(2)] show ?thesis
      using True ct assms(2)
      by (subst write_blocks.simps) (simp only: if_True Let_def s1(1) s2(1) prod.case, simp)
  qed
qed

subsection \<open>Reading\<close>

lemma read_block_wire:
  assumes "crypto_ok C" "rc_hap_session conn = Some s" "rc_encrypted_mode conn"
    and "0 < length p" "length p \<le> RTSP_ENCRYPTED_BLOCK_MAX" "length p \<le> bsize"
    and "rx_flows (sk_rx sk)" "rx_bytes (sk_rx sk) = wire_block C (hs_decrypt_key s) (hs_decrypt_nonce s) p @ rest"
  shows "\<exists>rx. rtsp_crypto_read_block C True conn bsize sk = Some (Some p,
      conn\<lparr>rc_hap_session := Some (s\<lparr>hs_decrypt_nonce := hs_decrypt_nonce s + 1\<rparr>)\<rparr>, sk\<lparr>sk_rx := rx\<rparr>) \<and>
    rx_flows rx \<and> rx_bytes rx = rest"
proof -
  let ?h = "block_header (length p)"
  let ?ct = "aead_enc C (hs_decrypt_key s) (counter_nonce (hs_decrypt_nonce s)) ?h p"
  have h: "header_length ?h = length p"
    using assms(5) by (intro header_length_block_header) (simp add: RTSP_ENCRYPTED_BLOCK_MAX_def)
  have rx: "rx_bytes (sk_rx sk) = ?h @ ?ct @ rest" using assms(8) by (simp add: wire_block_def)
  have ct: "length ?ct = length p + 16" using assms(1) by simp
  obtain rx1 where r1: "recv_exact 2 (sk_rx sk) = (Some ?h, rx1)" "rx_flows rx1" "rx_bytes rx1 = ?ct @ rest"
    using recv_exact_flows [OF assms(7), of 2] unfolding rx by auto
  obtain rx2 where r2: "recv_exact (length p + 16) rx1 = (Some ?ct, rx2)" "rx_flows rx2" "rx_bytes rx2 = rest"
    using recv_exact_flows [OF r1(2), of "length p + 16"] ct unfolding r1(3) by auto
  show ?thesis
    using assms(2-6) r1(1) r2 h crypto_okD(4) [OF assms(1)]
    by (intro exI [of _ rx2]) (simp add: rtsp_crypto_read_block_def Let_def)
qed

fun read_blocks :: "crypto \<Rightarrow> nat \<Rightarrow> nat \<Rightarrow> rtsp_conn \<Rightarrow> sock \<Rightarrow> (bytes \<times> rtsp_conn \<times> sock) option" where
  "read_blocks C bsize 0 conn sk = Some ([], conn, sk)"
| "read_blocks C bsize (Suc n) conn sk =
    (case rtsp_crypto_read_block C True conn bsize sk of
       Some (Some p, conn, sk) \<Rightarrow>
         (case read_blocks C bsize n conn sk of
            Some (ps, conn, sk) \<Rightarrow> Some (p @ ps, conn, sk)
          | None \<Rightarrow> None)
     | _ \<Rightarrow> None)"

lemma read_blocks_wire:
  assumes "crypto_ok C"
  shows "rc_hap_session conn = Some s \<Longrightarrow> rc_encrypted_mode conn \<Longrightarrow>
    \<forall>p\<in>set ps. 0 < length p \<and> length p \<le> RTSP_ENCRYPTED_BLOCK_MAX \<Longrightarrow> RTSP_ENCRYPTED_BLOCK_MAX \<le> bsize \<Longrightarrow>
    rx_flows (sk_rx sk) \<Longrightarrow> rx_bytes (sk_rx sk) = wire C (hs_decrypt_key s) (hs_decrypt_nonce s) ps @ rest \<Longrightarrow>
    \<exists>conn' sk'. read_blocks C bsize (length ps) conn sk = Some (concat ps, conn', sk') \<and>
      rc_hap_session conn' = Some (s\<lparr>hs_decrypt_nonce := hs_decrypt_nonce s + of_nat (length ps)\<rparr>) \<and>
      rx_flows (sk_rx sk') \<and> rx_bytes (sk_rx sk') = rest"
proof (induction ps arbitrary: conn s sk)
  case Nil
  then show ?case by simp
next
  case (Cons p ps)
  let ?s = "s\<lparr>hs_decrypt_nonce := hs_decrypt_nonce s + 1\<rparr>"
  let ?conn = "conn\<lparr>rc_hap_session := Some ?s\<rparr>"
  obtain rx where rx: "rtsp_crypto_read_block C True conn bsize sk = Some (Some p, ?conn, sk\<lparr>sk_rx := rx\<rparr>)"
    "rx_flows rx" "rx_bytes rx = wire C (hs_decrypt_key s) (hs_decrypt_nonce s + 1) ps @ rest"
    using read_block_wire [OF assms Cons.prems(1,2) _ _ _ Cons.prems(5), of p bsize
        "wire C (hs_decrypt_key s) (hs_decrypt_nonce s + 1) ps @ rest"] Cons.prems(3,4,6)
    by auto
  obtain conn' sk' where "read_blocks C bsize (length ps) ?conn (sk\<lparr>sk_rx := rx\<rparr>) = Some (concat ps, conn', sk')"
    "rc_hap_session conn' = Some (?s\<lparr>hs_decrypt_nonce := hs_decrypt_nonce ?s + of_nat (length ps)\<rparr>)"
    "rx_flows (sk_rx sk')" "rx_bytes (sk_rx sk') = rest"
    using Cons.IH [of ?conn ?s "sk\<lparr>sk_rx := rx\<rparr>"] Cons.prems rx(2,3) by auto
  then show ?case using rx(1) by simp
qed

text \<open>
  C12. The encrypted channel is a round trip under any fragmentation: what one side writes as a
  message, the other side reads back exactly, however the network splits the bytes and whatever
  time-outs occur, when keys and counters agree; both counters then agree again, and nothing behind
  the message is consumed.
\<close>

theorem encrypted_channel_roundtrip:
  assumes "crypto_ok C"
    and "rc_hap_session txc = Some s" "rtsp_crypto_write_frame C alloc txc data sk = (True, txc', sk')"
    and "rc_hap_session rcv = Some r" "rc_encrypted_mode rcv"
    and "hs_decrypt_key r = hs_encrypt_key s" "hs_decrypt_nonce r = hs_encrypt_nonce s"
    and "RTSP_ENCRYPTED_BLOCK_MAX \<le> bsize"
    and "rx_flows (sk_rx rk)" "rx_bytes (sk_rx rk) = drop (length (sk_tx sk)) (sk_tx sk') @ rest"
  shows "\<exists>n rcv' rk' s' r'. read_blocks C bsize n rcv rk = Some (data, rcv', rk') \<and>
    rx_bytes (sk_rx rk') = rest \<and> rc_hap_session txc' = Some s' \<and> rc_hap_session rcv' = Some r' \<and>
    hs_decrypt_key r' = hs_encrypt_key s' \<and> hs_decrypt_nonce r' = hs_encrypt_nonce s'"
proof -
  obtain s' where w: "write_blocks C alloc data 0 s sk = (True, s', sk')" "rc_hap_session txc' = Some s'"
    using assms(2,3) by (auto simp: rtsp_crypto_write_frame_def split: if_splits prod.splits)
  note wr = write_blocks_wire [OF assms(1) w(1)]
  have "rx_bytes (sk_rx rk) = wire C (hs_decrypt_key r) (hs_decrypt_nonce r) (blocks_of data) @ rest"
    using wr assms(6,7,10) by simp
  from read_blocks_wire [OF assms(1,4,5) _ assms(8,9) this] obtain rcv' rk' where
    "read_blocks C bsize (length (blocks_of data)) rcv rk = Some (data, rcv', rk')"
    "rc_hap_session rcv' = Some (r\<lparr>hs_decrypt_nonce := hs_decrypt_nonce r + of_nat (length (blocks_of data))\<rparr>)"
    "rx_bytes (sk_rx rk') = rest"
    using blocks_of_size concat_blocks_of by auto
  then show ?thesis using w(2) wr assms(6,7) by fastforce
qed

lemma rx_bytewise [simp]: "rx_flows (map (\<lambda>b. Rx_data [b]) bs)" "rx_bytes (map (\<lambda>b. Rx_data [b]) bs) = bs"
  by (induction bs) simp_all

lemma encrypted_channel_roundtrip_witness:
  "\<exists>conn sk txc' sk' n rcv' rk'. rtsp_crypto_write_frame plain_crypto (\<lambda>_. True) conn [1, 2, 3] sk = (True, txc', sk') \<and>
    read_blocks plain_crypto 4096 n conn (sk\<lparr>sk_rx := map (\<lambda>b. Rx_data [b]) (sk_tx sk')\<rparr>) = Some ([1, 2, 3], rcv', rk')"
proof -
  let ?s = "hap_session_create ([], []) ([], [])"
  let ?c = "rtsp_conn_create\<lparr>rc_hap_session := Some ?s, rc_encrypted_mode := True\<rparr>"
  let ?sk = "\<lparr>sk_rx = [], sk_tx = [], sk_send = (\<lambda>_. 1)\<rparr>"
  obtain s' sk' where "write_blocks plain_crypto (\<lambda>_. True) [1, 2, 3] 0 ?s ?sk = (True, s', sk')"
    using write_blocks_ok [OF plain_crypto_ok, of "\<lambda>_. True" ?sk] by (simp) meson
  then obtain txc' where w: "rtsp_crypto_write_frame plain_crypto (\<lambda>_. True) ?c [1, 2, 3] ?sk = (True, txc', sk')"
    by (simp add: rtsp_crypto_write_frame_def)
  have "\<exists>n rcv' rk' s' r'. read_blocks plain_crypto 4096 n ?c (?sk\<lparr>sk_rx := map (\<lambda>b. Rx_data [b]) (sk_tx sk')\<rparr>) =
      Some ([1, 2, 3], rcv', rk') \<and> rx_bytes (sk_rx rk') = [] \<and> rc_hap_session txc' = Some s' \<and>
      rc_hap_session rcv' = Some r' \<and> hs_decrypt_key r' = hs_encrypt_key s' \<and>
      hs_decrypt_nonce r' = hs_encrypt_nonce s'"
    by (rule encrypted_channel_roundtrip [OF plain_crypto_ok _ w, where s = ?s and r = ?s])
      (simp_all add: hap_session_create_def RTSP_ENCRYPTED_BLOCK_MAX_def)
  then show ?thesis using w by blast
qed

text \<open>
  C13. What a block read may do: it never overruns the buffer; when it delivers a block, the bytes
  taken from the stream are exactly the encryption of that block under the current counter with its
  length authenticated, and the counter advances by one; when it fails, the session is untouched.
\<close>

theorem read_block_authentic:
  assumes "crypto_ok C"
  shows "\<exists>r conn' sk'. rtsp_crypto_read_block C alloc conn bsize sk = Some (r, conn', sk') \<and>
    (case r of
       None \<Rightarrow> conn' = conn
     | Some p \<Rightarrow> (\<exists>s hdr. rc_hap_session conn = Some s \<and> rc_encrypted_mode conn \<and>
         0 < length p \<and> length p \<le> RTSP_ENCRYPTED_BLOCK_MAX \<and> length p \<le> bsize \<and>
         length hdr = 2 \<and> header_length hdr = length p \<and>
         rx_bytes (sk_rx sk) = hdr @ aead_enc C (hs_decrypt_key s) (counter_nonce (hs_decrypt_nonce s)) hdr p @
           rx_bytes (sk_rx sk') \<and>
         conn' = conn\<lparr>rc_hap_session := Some (s\<lparr>hs_decrypt_nonce := hs_decrypt_nonce s + 1\<rparr>)\<rparr>))"
proof (cases "rc_hap_session conn")
  case None
  then show ?thesis by (simp add: rtsp_crypto_read_block_def)
next
  case (Some s)
  obtain r1 rx1 where r1: "recv_exact 2 (sk_rx sk) = (r1, rx1)" by force
  show ?thesis
  proof (cases "rc_encrypted_mode conn \<and> r1 \<noteq> None \<and> header_length (the r1) \<noteq> 0 \<and>
      header_length (the r1) \<le> RTSP_ENCRYPTED_BLOCK_MAX \<and> header_length (the r1) \<le> bsize \<and> alloc")
    case False
    then show ?thesis
      using Some r1 by (cases r1) (auto simp: rtsp_crypto_read_block_def Let_def)
  next
    case True
    then obtain hdr where hdr: "r1 = Some hdr" by blast
    let ?n = "header_length hdr"
    obtain r2 rx2 where r2: "recv_exact (?n + 16) rx1 = (r2, rx2)" by force
    let ?dec = "\<lambda>c. aead_dec C (hs_decrypt_key s) (counter_nonce (hs_decrypt_nonce s)) hdr c"
    show ?thesis
    proof (cases "r2 = None \<or> ?dec (the r2) = None")
      case fail: True
      then show ?thesis
        using Some True r1 r2 hdr by (cases r2) (auto simp: rtsp_crypto_read_block_def Let_def)
    next
      case False
      then obtain c p where c: "r2 = Some c" "?dec c = Some p" by auto
      have eq: "c = aead_enc C (hs_decrypt_key s) (counter_nonce (hs_decrypt_nonce s)) hdr p"
        using aead_dec_iff [OF assms] c(2) by blast
      have "length c = ?n + 16" using recv_exact_length r2 c(1) by blast
      then have len: "length p = ?n" using aead_dec_length [OF assms c(2)] by simp
      have rx: "rx_bytes (sk_rx sk) = hdr @ c @ rx_bytes rx2"
        using recv_exact_consumes r1 r2 hdr c(1) by auto
      have "length hdr = 2" using recv_exact_length r1 hdr by blast
      moreover have "rtsp_crypto_read_block C alloc conn bsize sk = Some (Some p,
          conn\<lparr>rc_hap_session := Some (s\<lparr>hs_decrypt_nonce := hs_decrypt_nonce s + 1\<rparr>)\<rparr>, sk\<lparr>sk_rx := rx2\<rparr>)"
        using Some True r1 r2 hdr c len by (simp add: rtsp_crypto_read_block_def Let_def)
      ultimately show ?thesis using Some True hdr len rx eq by simp (intro exI [of _ hdr], simp)
    qed
  qed
qed

lemma read_block_authentic_witness:
  "\<exists>r conn' sk'. rtsp_crypto_read_block plain_crypto True rtsp_conn_create 4096
    \<lparr>sk_rx = [Rx_data [1]], sk_tx = [], sk_send = (\<lambda>_. 1)\<rparr> = Some (r, conn', sk')"
  using read_block_authentic [OF plain_crypto_ok, of True rtsp_conn_create 4096
      "\<lparr>sk_rx = [Rx_data [1]], sk_tx = [], sk_send = (\<lambda>_. 1)\<rparr>"] by blast

end
