(* ===== verification/C_String.thy ===== *)
theory C_String
  imports Prelude
begin

section \<open>Functions of the C library on strings\<close>

text \<open>
  The string functions the code uses, by their documented behaviour. They read up to the terminator:
  on an object without one the access leaves the object.
\<close>

definition c_string :: "bytes \<Rightarrow> bytes mem" where
  "c_string m = (if 0 \<in> set m then Some (cstr m) else None)"

text \<open>\<open>strstr\<close> and \<open>strcasestr\<close>: the index of the first occurrence.\<close>

fun find_sub :: "bytes \<Rightarrow> bytes \<Rightarrow> nat option" where
  "find_sub pat [] = (if pat = [] then Some 0 else None)"
| "find_sub pat (c # s) = (if take (length pat) (c # s) = pat then Some 0 else map_option Suc (find_sub pat s))"

definition to_lower :: "u8 \<Rightarrow> u8" where
  "to_lower c = (if 65 \<le> c \<and> c \<le> 90 then c + 32 else c)"

definition find_sub_nocase :: "bytes \<Rightarrow> bytes \<Rightarrow> nat option" where
  "find_sub_nocase pat s = find_sub (map to_lower pat) (map to_lower s)"

definition c_space :: "u8 \<Rightarrow> bool" where
  "c_space c \<longleftrightarrow> c = 32 \<or> (9 \<le> c \<and> c \<le> 13)"

definition c_digit :: "u8 \<Rightarrow> bool" where
  "c_digit c \<longleftrightarrow> 48 \<le> c \<and> c \<le> 57"

definition digits_val :: "bytes \<Rightarrow> nat" where
  "digits_val bs = foldl (\<lambda>v c. 10 * v + (unat c - 48)) 0 bs"

definition signed_digits :: "bytes \<Rightarrow> bool \<times> nat" where
  "signed_digits s =
    (case dropWhile c_space s of
       [] \<Rightarrow> (False, 0)
     | c # t \<Rightarrow>
         if c = 45 then (True, digits_val (takeWhile c_digit t))
         else if c = 43 then (False, digits_val (takeWhile c_digit t))
         else (False, digits_val (takeWhile c_digit (c # t))))"

text \<open>\<open>strtol\<close> and \<open>strtoul\<close> in base 10, on a platform with a 32-bit \<open>long\<close>.\<close>

definition strtol :: "bytes \<Rightarrow> int" where
  "strtol s = (let (neg, n) = signed_digits s; v = (if neg then - int n else int n) in
     max (- (2 ^ 31)) (min (2 ^ 31 - 1) v))"

definition strtoul :: "bytes \<Rightarrow> nat" where
  "strtoul s = (let (neg, n) = signed_digits s in
     if n \<ge> 2 ^ 32 then 2 ^ 32 - 1 else if neg then (2 ^ 32 - n) mod 2 ^ 32 else n)"

text \<open>A conversion \<open>%ns\<close> of \<open>sscanf\<close>: the word read, and the rest of the input.\<close>

definition scan_word :: "nat \<Rightarrow> bytes \<Rightarrow> (bytes \<times> bytes) option" where
  "scan_word n s =
    (let s = dropWhile c_space s; w = take n (takeWhile (\<lambda>c. \<not> c_space c) s) in
     if w = [] then None else Some (w, drop (length w) s))"

subsection \<open>Searching\<close>

text \<open>A text in which the first byte of the pattern does not occur is skipped.\<close>

lemma find_sub_skip:
  assumes "pat \<noteq> []" "hd pat \<notin> set s"
  shows "find_sub pat (s @ t) = map_option ((+) (length s)) (find_sub pat t)"
  using assms(2)
proof (induction s)
  case Nil
  then show ?case by (cases "find_sub pat t") auto
next
  case (Cons c s)
  then have "take (length pat) (c # s @ t) \<noteq> pat"
    using assms(1) by (cases pat) auto
  then show ?case using Cons by (cases "find_sub pat t") auto
qed

lemma find_sub_here: "pat \<noteq> [] \<Longrightarrow> find_sub pat (pat @ t) = Some 0"
  by (cases pat) auto

lemma head_mismatch [simp]: "pat \<noteq> [] \<Longrightarrow> hd pat \<noteq> c \<Longrightarrow> take (length pat) (c # s) \<noteq> pat"
  by (cases pat) auto

lemma find_sub_Cons_other: "pat \<noteq> [] \<Longrightarrow> hd pat \<noteq> c \<Longrightarrow> find_sub pat (c # s) = map_option Suc (find_sub pat s)"
  by (cases pat) auto

end
