(* ===== verification/Rtsp_Message.thy ===== *)
theory Rtsp_Message
  imports Rtsp_Crypto Plist_Xml C_String
begin

section \<open>RTSP messages (main/rtsp/rtsp_message.c)\<close>

text \<open>
  Parsing requests and sending responses. A request is a memory object that must hold a C string:
  the string functions of the code read up to the terminator, so without one the access leaves the
  object and the result is \<open>None\<close>. Positions in the request are indices.
\<close>

subsection \<open>Parsing\<close>

text \<open>The four bytes that end a header, searched for in the first \<open>len\<close> bytes of \<open>data\<close>.\<close>

function header_end_loop :: "bytes \<Rightarrow> nat \<Rightarrow> nat \<Rightarrow> nat option mem" where
  "header_end_loop data len i =
    (if i + 3 < len then do {
       bs \<leftarrow> rd_block data i 4;
       if bs = [13, 10, 13, 10] then Some (Some i) else header_end_loop data len (i + 1)
     }
     else Some None)"
  by auto

termination
  by (relation "measure (\<lambda>(data, len, i). len - i)") auto

declare header_end_loop.simps [simp del]

definition rtsp_find_header_end :: "bytes \<Rightarrow> nat \<Rightarrow> nat option mem" where
  "rtsp_find_header_end data len = header_end_loop data len 0"

definition rtsp_parse_cseq :: "bytes \<Rightarrow> int mem" where
  "rtsp_parse_cseq request = do {
     s \<leftarrow> c_string request;
     Some (case find_sub (ascii ''CSeq:'') s of None \<Rightarrow> 1 | Some i \<Rightarrow> strtol (drop (i + 5) s))
   }"

definition rtsp_parse_content_length :: "bytes \<Rightarrow> int mem" where
  "rtsp_parse_content_length request = do {
     s \<leftarrow> c_string request;
     let cl = (case find_sub (ascii ''Content-Length:'') s of
         Some i \<Rightarrow> Some i
       | None \<Rightarrow> find_sub (ascii ''content-length:'') s);
     Some (case cl of None \<Rightarrow> 0 | Some i \<Rightarrow> strtol (drop (i + 15) s))
   }"

text \<open>The body: its index in the request, if there is one, and its length.\<close>

definition rtsp_get_body :: "bytes \<Rightarrow> nat \<Rightarrow> (nat option \<times> nat) mem" where
  "rtsp_get_body request request_len = do {
     s \<leftarrow> c_string request;
     Some (case find_sub [13, 10, 13, 10] s of
         None \<Rightarrow> (None, 0)
       | Some i \<Rightarrow> (Some (i + 4), sz_sub request_len (i + 4)))
   }"

text \<open>The control and the timing port of a Transport header.\<close>

definition transport_port :: "bytes \<Rightarrow> nat \<Rightarrow> bytes \<Rightarrow> u16" where
  "transport_port transport line_end name =
    (case find_sub_nocase name transport of
       None \<Rightarrow> 0
     | Some i \<Rightarrow> if i < line_end then of_nat (strtoul (drop (i + length name) transport)) else 0)"

definition rtsp_parse_transport :: "bytes \<Rightarrow> (u16 \<times> u16) mem" where
  "rtsp_parse_transport request = do {
     s \<leftarrow> c_string request;
     case find_sub_nocase (ascii ''Transport:'') s of
       None \<Rightarrow> Some (0, 0)
     | Some t \<Rightarrow>
         let transport = drop t s;
             line_end = (case find_sub [13, 10] transport of Some i \<Rightarrow> i | None \<Rightarrow> length transport) in
         Some (transport_port transport line_end (ascii ''control_port=''),
           transport_port transport line_end (ascii ''timing_port=''))
   }"

record rtsp_request =
  rq_method :: bytes
  rq_path :: bytes
  rq_protocol :: bytes
  rq_cseq :: int
  rq_content_type :: bytes
  rq_content_length :: nat
  rq_body :: "nat option"
  rq_body_len :: nat

definition empty_request :: rtsp_request where
  "empty_request = \<lparr>rq_method = [], rq_path = [], rq_protocol = [], rq_cseq = 0, rq_content_type = [],
     rq_content_length = 0, rq_body = None, rq_body_len = 0\<rparr>"

text \<open>The words of the request line: method, path and, when there, protocol.\<close>

definition scan_request_line :: "bytes \<Rightarrow> rtsp_request option" where
  "scan_request_line line =
    (case scan_word 31 line of
       None \<Rightarrow> None
     | Some (method, line) \<Rightarrow>
         (case scan_word 255 line of
            None \<Rightarrow> None
          | Some (path, line) \<Rightarrow>
              Some (empty_request\<lparr>rq_method := method, rq_path := path,
                rq_protocol := (case scan_word 15 line of None \<Rightarrow> [] | Some (w, _) \<Rightarrow> w)\<rparr>)))"

text \<open>
  The request parser: the request, or none when it is malformed. \<open>data\<close> is the memory from the start
  of the request on, \<open>len\<close> the length of the request.
\<close>

definition rtsp_request_parse :: "bytes \<Rightarrow> nat \<Rightarrow> rtsp_request option mem" where
  "rtsp_request_parse data len =
    (if len = 0 then Some None
     else do {
       header_end \<leftarrow> rtsp_find_header_end data len;
       case header_end of
         None \<Rightarrow> Some None
       | Some e \<Rightarrow> do {
           head \<leftarrow> rd_block data 0 e;
           if 10 \<notin> set head then Some None
           else do {
             let line = takeWhile (\<lambda>c. c \<noteq> 10) head;
             let line = (if line \<noteq> [] \<and> last line = 13 then butlast line else line);
             if length line \<ge> 320 then Some None
             else case scan_request_line (cstr line) of
               None \<Rightarrow> Some None
             | Some req \<Rightarrow> do {
                 cseq \<leftarrow> rtsp_parse_cseq data;
                 content_len \<leftarrow> rtsp_parse_content_length data;
                 s \<leftarrow> c_string data;
                 let content_type = (case find_sub (ascii ''Content-Type:'') s of
                     None \<Rightarrow> []
                   | Some i \<Rightarrow> (case scan_word 63 (drop (i + 13) s) of None \<Rightarrow> [] | Some (w, _) \<Rightarrow> w));
                 (body, body_len) \<leftarrow> rtsp_get_body data len;
                 Some (Some (req\<lparr>rq_cseq := cseq, rq_content_length := nat (content_len mod 2 ^ 32),
                   rq_content_type := content_type, rq_body := body, rq_body_len := body_len\<rparr>))
               }
           }
         }
     })"

subsection \<open>Responses\<close>

text \<open>
  The format of a response header: \<open>extra\<close> are further header lines, \<open>len\<close> the length of the body
  when there is one.
\<close>

definition crlf :: bytes where
  "crlf = [13, 10]"

definition response_text :: "int \<Rightarrow> bytes \<Rightarrow> int \<Rightarrow> bytes option \<Rightarrow> nat option \<Rightarrow> bytes" where
  "response_text status_code status_text cseq extra len =
     ascii ''RTSP/1.0 '' @ dec_int status_code @ [32] @ status_text @ crlf @
     ascii ''CSeq: '' @ dec_int cseq @ crlf @
     ascii ''Server: AirTunes/377.40.00'' @ crlf @
     (case extra of None \<Rightarrow> [] | Some hs \<Rightarrow> hs) @
     (case len of None \<Rightarrow> [] | Some n \<Rightarrow> ascii ''Content-Length: '' @ dec_nat n @ crlf) @ crlf"

definition http_response_text :: "int \<Rightarrow> bytes \<Rightarrow> bytes \<Rightarrow> nat \<Rightarrow> bytes" where
  "http_response_text status_code status_text content_type len =
     ascii ''HTTP/1.1 '' @ dec_int status_code @ [32] @ status_text @ crlf @
     ascii ''Content-Type: '' @ content_type @ crlf @
     ascii ''Content-Length: '' @ dec_nat len @ crlf @
     ascii ''Server: AirTunes/377.40.00'' @ crlf @
     ascii ''CSeq: 1'' @ crlf @ crlf"

text \<open>
  Building and sending: the header is formatted into a local buffer of \<open>room\<close> bytes, then header and
  body are copied to the heap and sent, encrypted or plain. \<open>malloc\<close> gives the block for a size, with
  any contents, or none; \<open>None\<close> as a whole is an access outside an object. The result is whether the
  message was sent, the connection and the socket.
\<close>

definition send_message :: "crypto \<Rightarrow> (nat \<Rightarrow> bool) \<Rightarrow> (nat \<Rightarrow> bytes option) \<Rightarrow> rtsp_conn \<Rightarrow> nat \<Rightarrow> bytes \<Rightarrow>
    bytes option \<Rightarrow> nat \<Rightarrow> sock \<Rightarrow> (bool \<times> rtsp_conn \<times> sock) mem" where
  "send_message C alloc malloc conn room head body body_len sk = do {
     (header_len, header) \<leftarrow> snprintf_at head (replicate room 0) 0 room;
     let header_len = nat (header_len mod 2 ^ 32);
     let total_len = sz_add header_len body_len;
     case malloc total_len of
       None \<Rightarrow> Some (False, conn, sk)
     | Some response \<Rightarrow> do {
         bs \<leftarrow> rd_block header 0 header_len;
         response \<leftarrow> wr response 0 bs;
         response \<leftarrow> (case body of
             Some b \<Rightarrow> if body_len > 0 then do { bs \<leftarrow> rd_block b 0 body_len; wr response header_len bs }
               else Some response
           | None \<Rightarrow> Some response);
         if rc_encrypted_mode conn then Some (rtsp_crypto_write_frame C alloc conn response sk)
         else let (ok, sk) = send_all response 0 sk in Some (ok, conn, sk)
       }
   }"

definition rtsp_send_response :: "crypto \<Rightarrow> (nat \<Rightarrow> bool) \<Rightarrow> (nat \<Rightarrow> bytes option) \<Rightarrow> rtsp_conn \<Rightarrow> int \<Rightarrow>
    bytes \<Rightarrow> int \<Rightarrow> bytes option \<Rightarrow> bytes option \<Rightarrow> nat \<Rightarrow> sock \<Rightarrow> (bool \<times> rtsp_conn \<times> sock) mem" where
  "rtsp_send_response C alloc malloc conn status_code status_text cseq extra body body_len sk =
     send_message C alloc malloc conn 1024
       (response_text status_code status_text cseq extra
         (if body \<noteq> None \<and> body_len > 0 then Some body_len else None)) body body_len sk"

definition rtsp_send_ok :: "crypto \<Rightarrow> (nat \<Rightarrow> bool) \<Rightarrow> (nat \<Rightarrow> bytes option) \<Rightarrow> rtsp_conn \<Rightarrow> int \<Rightarrow> sock \<Rightarrow>
    (bool \<times> rtsp_conn \<times> sock) mem" where
  "rtsp_send_ok C alloc malloc conn cseq sk =
     rtsp_send_response C alloc malloc conn 200 (ascii ''OK'') cseq None None 0 sk"

definition rtsp_send_http_response :: "crypto \<Rightarrow> (nat \<Rightarrow> bool) \<Rightarrow> (nat \<Rightarrow> bytes option) \<Rightarrow> rtsp_conn \<Rightarrow> int \<Rightarrow>
    bytes \<Rightarrow> bytes \<Rightarrow> bytes option \<Rightarrow> nat \<Rightarrow> sock \<Rightarrow> (bool \<times> rtsp_conn \<times> sock) mem" where
  "rtsp_send_http_response C alloc malloc conn status_code status_text content_type body body_len sk =
     send_message C alloc malloc conn 512
       (http_response_text status_code status_text content_type body_len) body body_len sk"

subsection \<open>Searching texts made of lines\<close>

text \<open>Header lines, each ended by CR LF.\<close>

definition lines_text :: "bytes list \<Rightarrow> bytes" where
  "lines_text ls = concat (map (\<lambda>l. l @ crlf) ls)"

definition line_ok :: "bytes \<Rightarrow> bool" where
  "line_ok l \<longleftrightarrow> l \<noteq> [] \<and> 13 \<notin> set l \<and> 10 \<notin> set l \<and> 0 \<notin> set l"

lemma lines_text_simps [simp]:
  "lines_text [] = []" "lines_text (l # ls) = l @ 13 # 10 # lines_text ls"
  by (simp_all add: lines_text_def crlf_def)

lemma lines_text_append: "lines_text (ls @ ls') = lines_text ls @ lines_text ls'"
  by (simp add: lines_text_def)

lemma lines_no_nul: "\<forall>l \<in> set ls. line_ok l \<Longrightarrow> 0 \<notin> set (lines_text ls)"
  by (induction ls) (auto simp: line_ok_def)

text \<open>A pattern without CR that does not occur in a line does not occur across its end either.\<close>

lemma find_sub_line:
  assumes "pat \<noteq> []" "13 \<notin> set pat" "find_sub pat l = None"
  shows "find_sub pat (l @ 13 # t) = map_option ((+) (Suc (length l))) (find_sub pat t)"
  using assms(3)
proof (induction l)
  case Nil
  have "hd pat \<noteq> 13" using assms(1,2) by (cases pat) auto
  then show ?case using assms(1) by (cases "find_sub pat t") (simp_all add: find_sub_Cons_other)
next
  case (Cons c l)
  have "take (length pat) (c # l) \<noteq> pat" "find_sub pat l = None"
    using Cons.prems by (auto split: if_splits)
  moreover have "take (length pat) (c # l @ 13 # t) \<noteq> pat"
  proof (cases "length pat \<le> length (c # l)")
    case True
    then have "take (length pat) ((c # l) @ 13 # t) = take (length pat) (c # l)" by (simp only: take_append) simp
    then show ?thesis using \<open>take (length pat) (c # l) \<noteq> pat\<close> by simp
  next
    case False
    then have "13 \<in> set (take (length pat) ((c # l) @ 13 # t))"
      by (cases "length pat - length (c # l)") (auto simp del: append.simps(2) simp: not_le)
    then show ?thesis using assms(2) by auto
  qed
  ultimately show ?case using Cons.IH by (cases "find_sub pat t") auto
qed

lemma find_sub_lines:
  assumes "pat \<noteq> []" "13 \<notin> set pat" "10 \<notin> set pat" "\<forall>l \<in> set ls. find_sub pat l = None"
  shows "find_sub pat (lines_text ls @ t) = map_option ((+) (length (lines_text ls))) (find_sub pat t)"
  using assms(4)
proof (induction ls)
  case Nil
  then show ?case by (cases "find_sub pat t") auto
next
  case (Cons l ls)
  have "hd pat \<noteq> 10" using assms(1,3) by (cases pat) auto
  then show ?case using Cons assms(1,2)
    by (cases "find_sub pat t") (simp_all add: find_sub_line find_sub_Cons_other)
qed

text \<open>The end of a header: the first empty line.\<close>

lemma header_end_lines:
  assumes "ls \<noteq> []" "\<forall>l \<in> set ls. line_ok l"
  shows "find_sub [13, 10, 13, 10] (lines_text ls @ crlf @ t) = Some (length (lines_text ls) - 2)"
  using assms
proof (induction ls)
  case (Cons l ls)
  have l: "13 \<notin> set l" "l \<noteq> []" using Cons.prems by (auto simp: line_ok_def)
  show ?case
  proof (cases ls)
    case Nil
    then show ?thesis using l find_sub_skip [of "[13, 10, 13, 10]" l "[13, 10, 13, 10] @ t"]
      by (simp add: crlf_def)
  next
    case (Cons l' ls')
    have "line_ok l'" using Cons.prems Cons by simp
    then obtain c l1 where l': "l' = c # l1" "c \<noteq> 13" by (cases l') (auto simp: line_ok_def)
    have "find_sub [13, 10, 13, 10] (lines_text ls @ crlf @ t) = Some (length (lines_text ls) - 2)"
      using Cons.IH Cons.prems Cons by simp
    then show ?thesis
      using l l' find_sub_skip [of "[13, 10, 13, 10]" l "13 # 10 # lines_text ls @ crlf @ t"] Cons
      by (simp add: crlf_def)
  qed
qed simp

subsection \<open>Reading back decimal numbers\<close>

lemma digit_byte: "k < 10 \<Longrightarrow> c_digit (of_nat (48 + k)) \<and> unat (of_nat (48 + k) :: u8) = 48 + k"
proof -
  assume "k < 10"
  then have "k \<in> {0, 1, 2, 3, 4, 5, 6, 7, 8, 9}" by auto
  then show ?thesis by (auto simp: c_digit_def)
qed

lemma digits_val_snoc: "digits_val (bs @ [c]) = 10 * digits_val bs + (unat c - 48)"
  by (simp add: digits_val_def)

lemma dec_nat_digits: "(\<forall>c \<in> set (dec_nat n). c_digit c) \<and> dec_nat n \<noteq> [] \<and> digits_val (dec_nat n) = n"
proof (induction n rule: dec_nat.induct)
  case (1 n)
  show ?case
  proof (cases "n < 10")
    case True
    then show ?thesis using digit_byte [of n] by (subst (1 2 3) dec_nat.simps) (simp add: digits_val_def)
  next
    case False
    then show ?thesis using 1 digit_byte [of "n mod 10"]
      by (subst (1 2 3) dec_nat.simps) (auto simp: digits_val_snoc)
  qed
qed

lemma c_digit_bounds: "c_digit c \<Longrightarrow> c \<noteq> 32 \<and> c \<noteq> 45 \<and> c \<noteq> 43 \<and> \<not> c_space c \<and> c \<noteq> 13 \<and> c \<noteq> 10 \<and> c \<noteq> 0"
  by (auto simp: c_digit_def c_space_def word_le_nat_alt)

lemma space_digit [simp]: "c_space 32" "\<not> c_space 45" "\<not> c_digit 13"
  by (simp_all add: c_space_def c_digit_def word_le_nat_alt)

lemma takeWhile_dec_nat: "takeWhile c_digit (dec_nat n @ 13 # r) = dec_nat n"
  using dec_nat_digits [of n] by (simp only: takeWhile_append2 takeWhile.simps if_False append_Nil2 space_digit)

lemma strtol_dec_int:
  assumes "- (2 ^ 31) \<le> i" "i < 2 ^ 31"
  shows "strtol (32 # dec_int i @ 13 # r) = i"
proof -
  have "signed_digits (32 # dec_int i @ 13 # r) = (i < 0, nat \<bar>i\<bar>)"
  proof (cases "i < 0")
    case True
    then show ?thesis using dec_nat_digits [of "nat (- i)"]
      by (simp add: signed_digits_def dec_int_def takeWhile_dec_nat)
  next
    case False
    obtain c s where c: "dec_nat (nat i) = c # s" "c_digit c"
      using dec_nat_digits [of "nat i"] by (cases "dec_nat (nat i)") auto
    have "takeWhile c_digit (c # s @ 13 # r) = dec_nat (nat i)"
      using takeWhile_dec_nat [of "nat i" r] c(1) by simp
    then show ?thesis using False c dec_nat_digits [of "nat i"] c_digit_bounds [OF c(2)]
      by (simp add: signed_digits_def dec_int_def)
  qed
  then show ?thesis using assms by (auto simp: strtol_def)
qed

lemma strtol_dec_nat: "n < 2 ^ 31 \<Longrightarrow> strtol (32 # dec_nat n @ 13 # r) = int n"
  using strtol_dec_int [of "int n" r] by (simp add: dec_int_def)

end
