(* ===== verification/Rtsp_Response.thy ===== *)
theory Rtsp_Response
  imports Rtsp_Message
begin

section \<open>Responses are messages the framing reads back\<close>

text \<open>
  What the receiver of a response sees: the header ends where the sender put the empty line, the
  sequence number and the length of the body are the ones given to \<open>rtsp_send_response\<close>, and the
  body follows. The facts on headers made of lines serve the framing of requests as well.
\<close>

subsection \<open>The end of a header in memory\<close>

lemma find_sub_short: "length s < length pat \<Longrightarrow> find_sub pat s = None"
proof (induction s)
  case (Cons c s)
  then have "length (take (length pat) (c # s)) < length pat" by simp
  then have "take (length pat) (c # s) \<noteq> pat" by (metis less_irrefl)
  then show ?case using Cons by simp
qed auto

lemma header_end_loop_find:
  "len \<le> length data \<Longrightarrow> i \<le> len \<Longrightarrow>
    header_end_loop data len i = Some (map_option ((+) i) (find_sub [13, 10, 13, 10] (drop i (take len data))))"
proof (induction data len i rule: header_end_loop.induct)
  case (1 data len i)
  show ?case
  proof (cases "i + 3 < len")
    case False
    then show ?thesis
      by (subst header_end_loop.simps) (simp add: find_sub_short)
  next
    case True
    let ?s = "drop i (take len data)"
    have s: "?s = data ! i # drop (i + 1) (take len data)"
      using True 1(2) by (subst Cons_nth_drop_Suc [symmetric]) auto
    have t: "take 4 (drop i data) = take (length [13 :: u8, 10, 13, 10]) ?s"
      using True 1(2) by (simp add: drop_take min_def eval_nat_numeral)
    have IH: "header_end_loop data len (i + 1) =
        Some (map_option ((+) (i + 1)) (find_sub [13, 10, 13, 10] (drop (i + 1) (take len data))))"
      if "take 4 (drop i data) \<noteq> [13, 10, 13, 10]"
      by (rule 1(1)) (use True 1(2) that in simp_all)
    show ?thesis
    proof (cases "take 4 (drop i data) = [13, 10, 13, 10]")
      case hit: True
      then have "find_sub [13, 10, 13, 10] ?s = Some 0"
        unfolding t by (subst s, subst (asm) s) (simp only: find_sub.simps refl if_True)
      then show ?thesis using True 1(2) hit by (subst header_end_loop.simps) simp
    next
      case False
      then have "find_sub [13, 10, 13, 10] ?s =
          map_option Suc (find_sub [13, 10, 13, 10] (drop (i + 1) (take len data)))"
        unfolding t by (subst s, subst (asm) s) (simp only: find_sub.simps if_False)
      then show ?thesis using True 1(2) False IH
        by (subst header_end_loop.simps)
          (cases "find_sub [13, 10, 13, 10] (drop (Suc i) (take len data))"; simp)
    qed
  qed
qed

lemma rtsp_find_header_end_find:
  "len \<le> length data \<Longrightarrow> rtsp_find_header_end data len = Some (find_sub [13, 10, 13, 10] (take len data))"
  using header_end_loop_find [of len data 0] unfolding rtsp_find_header_end_def
  by (cases "find_sub [13, 10, 13, 10] (take len data)") simp_all

subsection \<open>The lines of a response\<close>

text \<open>Texts that can stand in a header without being taken for one of the fields the parser looks for.\<close>

definition quiet :: "bytes \<Rightarrow> bool" where
  "quiet t \<longleftrightarrow> 13 \<notin> set t \<and> 10 \<notin> set t \<and> 0 \<notin> set t \<and> find_sub (ascii ''CSeq:'') t = None \<and>
     find_sub (ascii ''Content-Length:'') t = None \<and> find_sub (ascii ''content-length:'') t = None"

definition status_line :: "int \<Rightarrow> bytes \<Rightarrow> bytes" where
  "status_line status_code status_text = ascii ''RTSP/1.0 '' @ dec_int status_code @ [32] @ status_text"

definition field :: "string \<Rightarrow> bytes \<Rightarrow> bytes" where
  "field name v = ascii name @ 32 # v"

lemma dec_int_chars: "c \<in> set (dec_int i) \<Longrightarrow> c = 45 \<or> (c_digit c \<and> c \<noteq> 45)"
  using dec_nat_digits c_digit_bounds by (fastforce simp: dec_int_def split: if_splits)

lemma dec_int_free: "\<not> c_digit c \<Longrightarrow> c \<noteq> 45 \<Longrightarrow> c \<notin> set (dec_int i)"
  using dec_int_chars by blast

lemma dec_nat_free: "\<not> c_digit c \<Longrightarrow> c \<notin> set (dec_nat n)"
  using dec_nat_digits [of n] by auto

lemma letters [simp]: "\<not> c_digit 67" "\<not> c_digit 99" "\<not> c_digit 10" "\<not> c_digit 0"
  by (simp_all add: c_digit_def word_le_nat_alt)

lemma dec_line_free [simp]:
  "67 \<notin> set (dec_int i)" "99 \<notin> set (dec_int i)" "13 \<notin> set (dec_int i)" "10 \<notin> set (dec_int i)" "0 \<notin> set (dec_int i)"
  "67 \<notin> set (dec_nat n)" "99 \<notin> set (dec_nat n)" "13 \<notin> set (dec_nat n)" "10 \<notin> set (dec_nat n)" "0 \<notin> set (dec_nat n)"
  by (intro dec_int_free dec_nat_free; simp)+

lemma ascii_lits:
  "ascii ''CSeq:'' = [67, 83, 101, 113, 58]"
  "ascii ''Content-Length:'' = [67, 111, 110, 116, 101, 110, 116, 45, 76, 101, 110, 103, 116, 104, 58]"
  "ascii ''content-length:'' = [99, 111, 110, 116, 101, 110, 116, 45, 108, 101, 110, 103, 116, 104, 58]"
  "ascii ''RTSP/1.0 '' = [82, 84, 83, 80, 47, 49, 46, 48, 32]"
  "ascii ''Server: AirTunes/377.40.00'' = [83, 101, 114, 118, 101, 114, 58, 32, 65, 105, 114, 84, 117, 110,
    101, 115, 47, 51, 55, 55, 46, 52, 48, 46, 48, 48]"
  by (simp_all add: ascii_def)

lemma quiet_status: "quiet t \<Longrightarrow> quiet (status_line code t)"
  using find_sub_skip [of "ascii ''CSeq:''" "ascii ''RTSP/1.0 '' @ dec_int code @ [32]" t]
    find_sub_skip [of "ascii ''Content-Length:''" "ascii ''RTSP/1.0 '' @ dec_int code @ [32]" t]
    find_sub_skip [of "ascii ''content-length:''" "ascii ''RTSP/1.0 '' @ dec_int code @ [32]" t]
  by (simp add: quiet_def status_line_def ascii_lits)

lemma quiet_server: "quiet (ascii ''Server: AirTunes/377.40.00'')"
  by (simp add: quiet_def ascii_lits)

lemma cseq_line:
  "find_sub (ascii ''Content-Length:'') (field ''CSeq:'' (dec_int i)) = None"
  "find_sub (ascii ''content-length:'') (field ''CSeq:'' (dec_int i)) = None"
  using find_sub_skip [of "ascii ''Content-Length:''" "dec_int i" "[]"]
    find_sub_skip [of "ascii ''content-length:''" "dec_int i" "[]"]
  by (simp_all add: field_def ascii_lits)

text \<open>A request line followed by the empty line at once, without header fields, is not accepted.\<close>

lemma headerless_request_rejected:
  assumes "line_ok l"
  shows "rtsp_request_parse (l @ crlf @ crlf @ rest) (length l + 4) = Some None"
proof -
  have "find_sub [13, 10, 13, 10] (take (length l + 4) (l @ crlf @ crlf @ rest)) = Some (length l)"
    using header_end_lines [of "[l]" "[]"] assms by (simp add: crlf_def)
  then have "rtsp_find_header_end (l @ crlf @ crlf @ rest) (length l + 4) = Some (Some (length l))"
    by (subst rtsp_find_header_end_find) (simp_all add: crlf_def)
  moreover have "10 \<notin> set l" using assms by (simp add: line_ok_def)
  ultimately show ?thesis by (simp add: rtsp_request_parse_def)
qed

definition extra_lines :: "bytes option \<Rightarrow> bytes list \<Rightarrow> bool" where
  "extra_lines extra hs \<longleftrightarrow> (extra = None \<and> hs = []) \<or> extra = Some (lines_text hs)"

definition response_lines :: "int \<Rightarrow> bytes \<Rightarrow> int \<Rightarrow> bytes list \<Rightarrow> nat option \<Rightarrow> bytes list" where
  "response_lines status_code status_text cseq hs len =
     [status_line status_code status_text, field ''CSeq:'' (dec_int cseq), ascii ''Server: AirTunes/377.40.00''] @
     hs @ (case len of None \<Rightarrow> [] | Some n \<Rightarrow> [field ''Content-Length:'' (dec_nat n)])"

lemma ascii_colon: "ascii ''CSeq: '' = ascii ''CSeq:'' @ [32]" "ascii ''Content-Length: '' = ascii ''Content-Length:'' @ [32]"
  by (simp_all add: ascii_def)

lemma response_text_lines:
  assumes "extra_lines extra hs"
  shows "response_text code text cseq extra len = lines_text (response_lines code text cseq hs len) @ crlf"
proof -
  have "(case extra of None \<Rightarrow> [] | Some t \<Rightarrow> t) = lines_text hs"
    using assms by (auto simp: extra_lines_def)
  then show ?thesis
    by (cases len) (simp_all add: response_text_def response_lines_def lines_text_append status_line_def
        field_def crlf_def ascii_colon)
qed

text \<open>What the parser reads from a header that consists of the lines of a response.\<close>

lemma quiet_line_ok: "quiet l \<Longrightarrow> l \<noteq> [] \<Longrightarrow> line_ok l"
  by (simp add: quiet_def line_ok_def)

lemma field_line_ok:
  "line_ok (field ''CSeq:'' (dec_int i))" "line_ok (field ''Content-Length:'' (dec_nat n))"
  by (simp_all add: line_ok_def field_def ascii_lits)

lemma response_lines_ok:
  assumes "quiet text" "\<forall>l \<in> set hs. l \<noteq> [] \<and> quiet l"
  shows "\<forall>l \<in> set (response_lines code text cseq hs len). line_ok l"
  using assms quiet_line_ok [OF quiet_status [OF assms(1), of code]] quiet_line_ok [OF quiet_server]
  by (cases len) (auto simp: response_lines_def field_line_ok quiet_line_ok status_line_def)

lemma response_cseq:
  assumes "quiet text" "\<forall>l \<in> set hs. l \<noteq> [] \<and> quiet l" "- (2 ^ 31) \<le> cseq" "cseq < 2 ^ 31"
  shows "rtsp_parse_cseq (lines_text (response_lines code text cseq hs len) @ crlf @ [0]) = Some cseq"
proof -
  let ?ls = "response_lines code text cseq hs len"
  obtain ls where ls: "?ls = status_line code text # field ''CSeq:'' (dec_int cseq) # ls"
    by (simp add: response_lines_def)
  have "0 \<notin> set (lines_text ?ls @ crlf)"
    using lines_no_nul [OF response_lines_ok [OF assms(1,2)]] by (simp add: crlf_def)
  then have str: "c_string (lines_text ?ls @ crlf @ [0]) = Some (lines_text ?ls @ crlf)"
    using cstr_no_nul_append [of "lines_text ?ls @ crlf" "[]"] by (simp add: c_string_def)
  have "find_sub (ascii ''CSeq:'') (status_line code text) = None"
    using quiet_status [OF assms(1)] by (simp add: quiet_def)
  then have "find_sub (ascii ''CSeq:'') (lines_text [status_line code text] @ field ''CSeq:'' (dec_int cseq) @ t) =
      Some (length (status_line code text) + 2)" for t
    using find_sub_lines [of "ascii ''CSeq:''" "[status_line code text]" "field ''CSeq:'' (dec_int cseq) @ t"]
      find_sub_here [of "ascii ''CSeq:''" "32 # dec_int cseq @ t"]
    by (simp add: field_def ascii_lits)
  from this [of "13 # 10 # lines_text ls @ crlf"]
  have f: "find_sub (ascii ''CSeq:'') (lines_text ?ls @ crlf) = Some (length (status_line code text) + 2)"
    unfolding ls by simp
  have d: "drop (length (status_line code text) + 2 + 5) (lines_text ?ls @ crlf) =
      32 # dec_int cseq @ 13 # 10 # lines_text ls @ crlf"
    unfolding ls by (simp add: field_def)
  show ?thesis
    by (simp only: rtsp_parse_cseq_def str Option.bind.simps f d option.case strtol_dec_int [OF assms(3,4)])
qed

lemma response_content_length:
  assumes "quiet text" "\<forall>l \<in> set hs. l \<noteq> [] \<and> quiet l" "\<forall>n. len = Some n \<longrightarrow> n < 2 ^ 31"
  shows "rtsp_parse_content_length (lines_text (response_lines code text cseq hs len) @ crlf @ [0]) =
    Some (case len of None \<Rightarrow> 0 | Some n \<Rightarrow> int n)"
proof -
  let ?ls = "response_lines code text cseq hs len"
  let ?pre = "response_lines code text cseq hs None"
  have "0 \<notin> set (lines_text ?ls @ crlf)"
    using lines_no_nul [OF response_lines_ok [OF assms(1,2)]] by (simp add: crlf_def)
  then have str: "c_string (lines_text ?ls @ crlf @ [0]) = Some (lines_text ?ls @ crlf)"
    using cstr_no_nul_append [of "lines_text ?ls @ crlf" "[]"] by (simp add: c_string_def)
  have pre: "\<forall>l \<in> set ?pre. find_sub (ascii ''Content-Length:'') l = None \<and> find_sub (ascii ''content-length:'') l = None"
    using quiet_status [OF assms(1), of code] quiet_server assms(2) cseq_line
    by (auto simp: response_lines_def quiet_def)
  have skip: "find_sub pat (lines_text ?pre @ t) = map_option ((+) (length (lines_text ?pre))) (find_sub pat t)"
    if "pat = ascii ''Content-Length:'' \<or> pat = ascii ''content-length:''" for pat t
    using that pre by (intro find_sub_lines) (auto simp: ascii_lits)
  show ?thesis
  proof (cases len)
    case None
    then have "find_sub pat (lines_text ?ls @ crlf) = None"
      if "pat = ascii ''Content-Length:'' \<or> pat = ascii ''content-length:''" for pat
      using skip [OF that, of crlf] that by (auto simp: ascii_lits crlf_def)
    then show ?thesis using None unfolding rtsp_parse_content_length_def str by simp
  next
    case (Some n)
    have t: "lines_text ?ls @ crlf = lines_text ?pre @ ascii ''Content-Length:'' @ 32 # dec_nat n @ 13 # 10 # crlf"
      unfolding Some by (simp add: response_lines_def lines_text_append field_def)
    have f: "find_sub (ascii ''Content-Length:'') (lines_text ?ls @ crlf) = Some (length (lines_text ?pre))"
      unfolding t using skip find_sub_here [of "ascii ''Content-Length:''"] by (simp add: ascii_lits)
    have d: "drop (length (lines_text ?pre) + 15) (lines_text ?ls @ crlf) = 32 # dec_nat n @ 13 # 10 # crlf"
      unfolding t by simp
    have "n < 2 ^ 31" using assms(3) Some by simp
    then have "strtol (32 # dec_nat n @ 13 # 10 # crlf) = int n" by (rule strtol_dec_nat)
    then have "rtsp_parse_content_length (lines_text ?ls @ crlf @ [0]) = Some (int n)"
      by (simp only: rtsp_parse_content_length_def str Option.bind.simps Let_def f d option.case)
    then show ?thesis using Some by simp
  qed
qed

subsection \<open>What is sent\<close>

text \<open>
  With a header that fits the local buffer and memory for the message, header and body are what is
  sent, in the clear or through the encrypted channel.
\<close>

definition body_given :: "bytes option \<Rightarrow> bytes \<Rightarrow> bool" where
  "body_given b body \<longleftrightarrow> b = Some body \<or> (b = None \<and> body = [])"

lemma send_message_eq:
  assumes "length head < room" "room + length body < 2 ^ 31" "body_given b body"
    and "malloc (length head + length body) = Some blk" "length blk = length head + length body"
  shows "send_message C alloc malloc conn room head b (length body) sk =
    Some (if rc_encrypted_mode conn then rtsp_crypto_write_frame C alloc conn (head @ body) sk
          else let (ok, sk) = send_all (head @ body) 0 sk in (ok, conn, sk))"
proof -
  obtain hdr where hdr: "snprintf_at head (replicate room 0) 0 room = Some (int (length head), hdr)"
    "length hdr = room" "take (length head) hdr = head"
    using snprintf_room [of 0 "replicate room 0" head] assms(1,2) by auto
  have n: "nat (int (length head) mod 2 ^ 32) = length head" using assms(1,2) by simp
  have blk1: "wr blk 0 head = Some (put_at blk 0 head)" using assms(5) by (simp add: wr_put)
  have blk2: "wr (put_at blk 0 head) (length head) body = Some (head @ body)"
    using assms(5) put_at_put_at [of 0 head body blk "length head"] by (simp add: wr_put) (simp add: put_at_def)
  have blk0: "put_at blk 0 head = head @ body" if "body = []"
    using assms(5) that by (simp add: put_at_def)
  show ?thesis
    using assms(1-4) hdr n blk1 blk2 blk0 by (auto simp: send_message_def body_given_def split: prod.splits)
qed

text \<open>
  C19. A response is sent as the receiver's own framing reads it: whatever the status, the extra
  header lines and the body are, the end of the header is found before the body, the sequence
  number is the one given and the announced length is the length of the body.
\<close>

theorem response_is_framed:
  assumes "quiet status_text" "\<forall>l \<in> set hs. l \<noteq> [] \<and> quiet l" "extra_lines extra hs"
    and "- (2 ^ 31) \<le> cseq" "cseq < 2 ^ 31" "1024 + length body < 2 ^ 31" "body_given b body"
    and "length (response_text status_code status_text cseq extra (if body = [] then None else Some (length body))) < 1024"
    and "\<forall>n. \<exists>blk. malloc n = Some blk \<and> length blk = n"
    and "\<not> rc_encrypted_mode conn" "\<forall>k. 0 < sk_send sk k"
  shows "\<exists>sk' msg e. rtsp_send_response C alloc malloc conn status_code status_text cseq extra b (length body) sk =
      Some (True, conn, sk') \<and> sk_tx sk' = sk_tx sk @ msg \<and>
    rtsp_find_header_end msg (length msg) = Some (Some e) \<and> drop (e + 4) msg = body \<and>
    rtsp_parse_cseq (take (e + 4) msg @ [0]) = Some cseq \<and>
    rtsp_parse_content_length (take (e + 4) msg @ [0]) = Some (int (length body))"
proof -
  let ?len = "if body = [] then None else Some (length body)"
  let ?ls = "response_lines status_code status_text cseq hs ?len"
  let ?head = "lines_text ?ls @ crlf"
  have head: "response_text status_code status_text cseq extra ?len = ?head"
    by (rule response_text_lines [OF assms(3)])
  have len: "(if b \<noteq> None \<and> length body > 0 then Some (length body) else None) = ?len"
    using assms(7) by (auto simp: body_given_def)
  obtain blk where blk: "malloc (length ?head + length body) = Some blk" "length blk = length ?head + length body"
    using assms(9) by blast
  obtain sk' where sk': "send_all (?head @ body) 0 sk = (True, sk')"
    using send_all_succeeds [OF assms(11), of "?head @ body" 0] by blast
  have "length ?head < 1024" using assms(8) unfolding head .
  then have sent: "rtsp_send_response C alloc malloc conn status_code status_text cseq extra b (length body) sk =
      Some (True, conn, sk')"
    unfolding rtsp_send_response_def len head
    by (subst send_message_eq [where blk = blk]) (use assms(6,7,10) blk sk' in \<open>simp_all flip: append_assoc\<close>)
  have ok: "\<forall>l \<in> set ?ls. line_ok l" by (rule response_lines_ok [OF assms(1,2)])
  have ne: "?ls \<noteq> []" by (simp add: response_lines_def)
  let ?e = "length (lines_text ?ls) - 2"
  have e: "rtsp_find_header_end (?head @ body) (length (?head @ body)) = Some (Some ?e)"
    using header_end_lines [OF ne ok, of body] by (subst rtsp_find_header_end_find) simp_all
  have "2 \<le> length (lines_text ?ls)" by (simp add: response_lines_def)
  then have "?e + 4 = length ?head" by (simp add: crlf_def)
  then have parts: "take (?e + 4) (?head @ body) = ?head" "drop (?e + 4) (?head @ body) = body"
    by (simp_all del: append_assoc)
  have cl: "rtsp_parse_content_length (?head @ [0]) = Some (int (length body))"
    using response_content_length [OF assms(1,2), of ?len status_code cseq] assms(6) by (auto split: if_splits)
  have cs: "rtsp_parse_cseq (?head @ [0]) = Some cseq"
    using response_cseq [OF assms(1,2,4,5), of status_code ?len] by simp
  show ?thesis
    using sent send_all_ok(1) [OF sk'] e parts cl cs by (intro exI [of _ sk'] exI [of _ "?head @ body"] exI [of _ ?e]) simp
qed

lemma response_is_framed_witness:
  "\<exists>sk' msg e. rtsp_send_response plain_crypto (\<lambda>_. True) (\<lambda>n. Some (replicate n 0)) rtsp_conn_create 200 (ascii ''OK'') 7
      (Some (lines_text [ascii ''Content-Type: text/parameters''])) (Some (replicate 3 118)) 3
      \<lparr>sk_rx = [], sk_tx = [], sk_send = (\<lambda>_. 5)\<rparr> = Some (True, rtsp_conn_create, sk') \<and>
    sk_tx sk' = msg \<and> rtsp_find_header_end msg (length msg) = Some (Some e) \<and> drop (e + 4) msg = (replicate 3 118) \<and>
    rtsp_parse_cseq (take (e + 4) msg @ [0]) = Some 7 \<and>
    rtsp_parse_content_length (take (e + 4) msg @ [0]) = Some 3"
proof -
  have q: "quiet (ascii ''OK'')" "quiet (ascii ''Content-Type: text/parameters'')"
    by (simp_all add: quiet_def ascii_def)
  have d: "dec_nat 200 = [50, 48, 48]" "dec_nat 7 = [55]" "dec_nat 3 = [51]"
    by (simp_all add: dec_nat.simps)
  show ?thesis
    using response_is_framed [of "ascii ''OK''" "[ascii ''Content-Type: text/parameters'']"
        "Some (lines_text [ascii ''Content-Type: text/parameters''])" 7 "replicate 3 118" "Some (replicate 3 118)" 200
        "\<lambda>n. Some (replicate n 0)" rtsp_conn_create "\<lparr>sk_rx = [], sk_tx = [], sk_send = (\<lambda>_. 5)\<rparr>" plain_crypto "\<lambda>_. True"] q
    by (simp add: extra_lines_def body_given_def rtsp_conn_create_def response_text_def dec_int_def d crlf_def flip: numeral_3_eq_3)
qed

end
