(* ===== verification/Rtsp_Framing.thy ===== *)
theory Rtsp_Framing
  imports Rtsp_Response
begin

section \<open>Framing of requests (main/rtsp/rtsp_server.c)\<close>

text \<open>
  The client task: bytes from the socket are collected in a buffer, complete requests are cut off its
  front and dispatched. The state of a client is its connection and the rest of the world \<open>'w\<close>, which
  only \<open>rtsp_dispatch\<close> and other tasks change: \<open>dispatch\<close> gets the memory of the buffer from the
  request on and the length of the request, \<open>stop\<close> and \<open>running\<close> read \<open>slot->should_stop\<close> and
  \<open>server_running\<close>. \<open>alloc\<close>, \<open>spiram\<close> and \<open>malloc\<close> are the allocators.
\<close>

definition RTSP_BUFFER_INITIAL :: nat where "RTSP_BUFFER_INITIAL = 4096"
definition RTSP_BUFFER_LARGE :: nat where "RTSP_BUFFER_LARGE = 256 * 1024"

record rtsp_buffer =
  rb_mem :: bytes
  rb_len :: nat
  rb_cap :: nat

definition grow_buffer :: "(nat \<Rightarrow> bytes option) \<Rightarrow> (nat \<Rightarrow> bytes option) \<Rightarrow> bytes \<Rightarrow> nat \<Rightarrow> nat \<Rightarrow> bytes option mem" where
  "grow_buffer spiram malloc old_buf new_size data_len =
    (case (case spiram (new_size + 1) of None \<Rightarrow> malloc (new_size + 1) | Some b \<Rightarrow> Some b) of
       None \<Rightarrow> Some None
     | Some new_buf \<Rightarrow>
         if data_len > 0 then do {
           bs \<leftarrow> rd_block old_buf 0 data_len;
           new_buf \<leftarrow> wr new_buf 0 bs;
           Some (Some new_buf)
         }
         else Some (Some new_buf))"

text \<open>The length of the request a header announces: the header and the body.\<close>

definition request_length :: "bytes \<Rightarrow> nat mem" where
  "request_length header = do {
     content_len \<leftarrow> rtsp_parse_content_length (header @ [0]);
     Some (length header + nat content_len)
   }"

text \<open>Cutting requests off the buffer until none is complete. \<open>total_len\<close> cannot wrap: the header is in
  the buffer and the announced length is an \<open>int\<close>.\<close>

function process_rtsp_buffer :: "(bytes \<Rightarrow> nat \<Rightarrow> 's \<Rightarrow> 's mem) \<Rightarrow> ('s \<Rightarrow> bool) \<Rightarrow> (nat \<Rightarrow> bool) \<Rightarrow>
    bytes \<Rightarrow> nat \<Rightarrow> 's \<Rightarrow> (bytes \<times> nat \<times> 's) mem" where
  "process_rtsp_buffer dispatch stop alloc buffer buf_len s =
    (if buf_len > 0 \<and> \<not> stop s then do {
       header_end \<leftarrow> rtsp_find_header_end buffer buf_len;
       case header_end of
         None \<Rightarrow> Some (buffer, buf_len, s)
       | Some e \<Rightarrow>
           let header_len = e + 4 in
           if \<not> alloc (header_len + 1) then Some (buffer, 0, s)
           else do {
             header \<leftarrow> rd_block buffer 0 header_len;
             total_len \<leftarrow> request_length header;
             if total_len > RTSP_BUFFER_LARGE \<or> buf_len < total_len then
               Some (buffer, if total_len > RTSP_BUFFER_LARGE then 0 else buf_len, s)
             else do {
               saved \<leftarrow> rd buffer total_len;
               buffer \<leftarrow> wr buffer total_len [0];
               s \<leftarrow> dispatch buffer total_len s;
               buffer \<leftarrow> wr buffer total_len [saved];
               buffer \<leftarrow> (if buf_len > total_len then do {
                   bs \<leftarrow> rd_block buffer total_len (buf_len - total_len);
                   wr buffer 0 bs
                 } else Some buffer);
               process_rtsp_buffer dispatch stop alloc buffer (buf_len - total_len) s
             }
           }
     }
     else Some (buffer, buf_len, s))"
  by auto

termination
  by (relation "measure (\<lambda>(dispatch, stop, alloc, buffer, buf_len, s). buf_len)")
    (auto simp: request_length_def bind_eq_Some_conv rd_block_def split: if_splits)

declare process_rtsp_buffer.simps [simp del]

subsection \<open>Room in the buffer\<close>

text \<open>Before each read: grow the buffer when less than 1 KiB is left; none when that is not possible.\<close>

definition ensure_room :: "(nat \<Rightarrow> bytes option) \<Rightarrow> (nat \<Rightarrow> bytes option) \<Rightarrow> rtsp_buffer \<Rightarrow> rtsp_buffer option mem" where
  "ensure_room spiram malloc b =
    (if rb_len b \<ge> rb_cap b - 1024 then
       let new_cap = (if rb_cap b < RTSP_BUFFER_LARGE then RTSP_BUFFER_LARGE else rb_cap b * 2) in
       if new_cap > RTSP_BUFFER_LARGE then Some None
       else do {
         r \<leftarrow> grow_buffer spiram malloc (rb_mem b) new_cap (rb_len b);
         Some (map_option (\<lambda>new_buf. b\<lparr>rb_mem := new_buf, rb_cap := new_cap\<rparr>) r)
       }
     else Some (Some b))"

subsection \<open>The loops of the client task\<close>

text \<open>The receiving side of the socket, as the encrypted reader sees it.\<close>

definition rx_sock :: "rx_event list \<Rightarrow> sock" where
  "rx_sock rx = \<lparr>sk_rx = rx, sk_tx = [], sk_send = (\<lambda>_. 0)\<rparr>"

lemma read_block_rx:
  "rtsp_crypto_read_block C a conn n (rx_sock rx) = Some (Some p, conn', sk') \<Longrightarrow> rx_size (sk_rx sk') < rx_size rx"
  by (fastforce simp: rtsp_crypto_read_block_def rx_sock_def Let_def split: option.splits prod.splits if_splits
      dest: rx_size_exact)

record 'w client_env =
  ce_crypto :: crypto
  ce_dispatch :: "bytes \<Rightarrow> nat \<Rightarrow> rtsp_conn \<times> 'w \<Rightarrow> (rtsp_conn \<times> 'w) mem"
  ce_stop :: "rtsp_conn \<times> 'w \<Rightarrow> bool"
  ce_running :: "rtsp_conn \<times> 'w \<Rightarrow> bool"
  ce_alloc :: "nat \<Rightarrow> bool"
  ce_block :: "rx_event list \<Rightarrow> bool"
  ce_spiram :: "nat \<Rightarrow> bytes option"
  ce_malloc :: "nat \<Rightarrow> bytes option"

text \<open>
  The encrypted mode. A failed read ends it, unless \<open>errno\<close> says to try again; \<open>errs\<close> holds what it
  says after each failed read, and not to try again once they are used up.
\<close>

function encrypted_loop :: "'w client_env \<Rightarrow> bool list \<Rightarrow> rx_event list \<Rightarrow> rtsp_buffer \<Rightarrow> rtsp_conn \<times> 'w \<Rightarrow>
    (rtsp_conn \<times> 'w) mem" where
  "encrypted_loop E errs rx b s =
    (if ce_running E s \<and> rc_encrypted_mode (fst s) \<and> \<not> ce_stop E s then do {
       r \<leftarrow> ensure_room (ce_spiram E) (ce_malloc E) b;
       case r of
         None \<Rightarrow> Some s
       | Some b \<Rightarrow> do {
           (r, conn, sk) \<leftarrow> rtsp_crypto_read_block (ce_crypto E) (ce_block E rx) (fst s)
             (rb_cap b - rb_len b) (rx_sock rx);
           case r of
             None \<Rightarrow>
               (case errs of
                  [] \<Rightarrow> Some (conn, snd s)
                | again # errs \<Rightarrow>
                    if ce_stop E s \<or> \<not> again then Some (conn, snd s)
                    else encrypted_loop E errs (sk_rx sk) b (conn, snd s))
           | Some block \<Rightarrow> do {
               buffer \<leftarrow> wr (rb_mem b) (rb_len b) block;
               (buffer, len, s) \<leftarrow> process_rtsp_buffer (ce_dispatch E) (ce_stop E) (ce_alloc E)
                 buffer (rb_len b + length block) (conn, snd s);
               encrypted_loop E errs (sk_rx sk) (b\<lparr>rb_mem := buffer, rb_len := len\<rparr>) s
             }
         }
     }
     else Some s)"
  by auto

termination
  by (relation "measures [\<lambda>(E, errs, rx, b, s). length errs, \<lambda>(E, errs, rx, b, s). rx_size rx]")
    (auto intro: read_block_rx)

declare encrypted_loop.simps [simp del]

text \<open>The plain mode, until the connection ends or a request switches to the encrypted mode.\<close>

function client_loop :: "'w client_env \<Rightarrow> bool list \<Rightarrow> rx_event list \<Rightarrow> rtsp_buffer \<Rightarrow> rtsp_conn \<times> 'w \<Rightarrow>
    (rtsp_conn \<times> 'w) mem" where
  "client_loop E errs rx b s =
    (if ce_running E s \<and> \<not> ce_stop E s then
       if rc_encrypted_mode (fst s) then encrypted_loop E errs rx b s
       else do {
         r \<leftarrow> ensure_room (ce_spiram E) (ce_malloc E) b;
         case r of
           None \<Rightarrow> Some s
         | Some b \<Rightarrow>
             (case recv_from (rb_cap b - rb_len b) rx of
                (R_bytes bs, rx') \<Rightarrow>
                  if bs = [] then Some s
                  else do {
                    buffer \<leftarrow> wr (rb_mem b) (rb_len b) bs;
                    (buffer, len, s) \<leftarrow> process_rtsp_buffer (ce_dispatch E) (ce_stop E) (ce_alloc E)
                      buffer (rb_len b + length bs) s;
                    client_loop E errs rx' (b\<lparr>rb_mem := buffer, rb_len := len\<rparr>) s
                  }
              | (R_again, rx') \<Rightarrow> client_loop E errs rx' b s
              | (R_error, rx') \<Rightarrow> Some s)
       }
     else Some s)"
  by auto

termination
  by (relation "measure (\<lambda>(E, errs, rx, b, s). rx_size rx)") (auto dest: rx_size_bytes [OF sym] rx_size_again [OF sym])

declare client_loop.simps [simp del]

text \<open>The task as it starts, with a fresh buffer.\<close>

definition client_run :: "'w client_env \<Rightarrow> bool list \<Rightarrow> rx_event list \<Rightarrow> rtsp_conn \<times> 'w \<Rightarrow> (rtsp_conn \<times> 'w) mem" where
  "client_run E errs rx s =
    (case ce_malloc E (RTSP_BUFFER_INITIAL + 1) of
       None \<Rightarrow> Some s
     | Some buffer \<Rightarrow> client_loop E errs rx \<lparr>rb_mem = buffer, rb_len = 0, rb_cap = RTSP_BUFFER_INITIAL\<rparr> s)"

end
