(* ===== verification/Rtsp_Stream.thy ===== *)
theory Rtsp_Stream
  imports Rtsp_Framing
begin

section \<open>The byte stream as a sequence of requests\<close>

text \<open>
  The contract of the framing, independent of buffers and reads: \<open>frame_len\<close> tells from a prefix of the
  stream how long the request at its front is. \<open>frames\<close> cuts a byte string into the complete requests
  at its front and the rest.
\<close>

function frames :: "(bytes \<Rightarrow> nat option) \<Rightarrow> nat \<Rightarrow> bytes \<Rightarrow> bytes list \<times> bytes" where
  "frames frame_len limit bs =
    (case frame_len bs of
       None \<Rightarrow> ([], bs)
     | Some n \<Rightarrow>
         if n > limit then ([], [])
         else if n = 0 \<or> length bs < n then ([], bs)
         else let (ms, r) = frames frame_len limit (drop n bs) in (take n bs # ms, r))"
  by auto

termination
  by (relation "measure (\<lambda>(frame_len, limit, bs). length bs)") auto

declare frames.simps [simp del]

locale stream_framing =
  fixes frame_len :: "bytes \<Rightarrow> nat option" and limit :: nat
  assumes frame_pos: "frame_len bs = Some n \<Longrightarrow> 0 < n"
    and frame_prefix: "frame_len bs = Some n \<Longrightarrow> frame_len (bs @ x) = Some n"
begin

definition good :: "bytes \<Rightarrow> bool" where
  "good m \<longleftrightarrow> frame_len m = Some (length m) \<and> length m \<le> limit"

lemma frames_good: "good m \<Longrightarrow> frames frame_len limit (m @ x) = (m # fst (frames frame_len limit x), snd (frames frame_len limit x))"
  using frame_prefix [of m "length m" x] frame_pos [of m "length m"]
  by (subst frames.simps) (simp add: good_def split: prod.splits)

lemma frames_partial:
  assumes "good m" "m = r @ y" "y \<noteq> []"
  shows "frames frame_len limit r = ([], r)"
proof (cases "frame_len r")
  case None
  then show ?thesis by (simp add: frames.simps)
next
  case (Some n)
  then have "n = length m" using frame_prefix [OF Some, of y] assms(1,2) by (simp add: good_def)
  then show ?thesis using Some assms by (simp add: frames.simps good_def)
qed

lemma frames_Nil: "frames frame_len limit [] = ([], [])"
proof (cases "frame_len []")
  case (Some n)
  then show ?thesis using frame_pos [OF Some] by (simp add: frames.simps)
qed (simp add: frames.simps)

text \<open>However much of the stream has arrived, the requests cut off are its first ones, and what is kept
  is a proper part of the next one.\<close>

lemma frames_cut:
  assumes "\<forall>m \<in> set ms. good m" "s @ q = concat ms"
  shows "\<exists>ms1 ms2 r. frames frame_len limit s = (ms1, r) \<and> ms = ms1 @ ms2 \<and> r @ q = concat ms2 \<and>
    (ms2 \<noteq> [] \<longrightarrow> length r < length (hd ms2))"
  using assms
proof (induction ms arbitrary: s)
  case Nil
  then show ?case by (simp add: frames_Nil)
next
  case (Cons m ms)
  show ?case
  proof (cases "length m \<le> length s")
    case True
    have "take (length m) s = m" "drop (length m) s @ q = concat ms"
      using arg_cong [OF Cons.prems(2), of "take (length m)"] arg_cong [OF Cons.prems(2), of "drop (length m)"] True
      by simp_all
    then obtain s' where s: "s = m @ s'" "s' @ q = concat ms" by (metis append_take_drop_id)
    obtain ms1 ms2 r where IH: "frames frame_len limit s' = (ms1, r)" "ms = ms1 @ ms2" "r @ q = concat ms2"
      "ms2 \<noteq> [] \<longrightarrow> length r < length (hd ms2)"
      using Cons.IH [OF _ s(2)] Cons.prems(1) by (metis list.set_intros(2))
    then show ?thesis using frames_good [of m s'] Cons.prems(1) s(1)
      by (intro exI [of _ "m # ms1"] exI [of _ ms2] exI [of _ r]) auto
  next
    case False
    have "s = take (length s) (s @ q)" by simp
    also have "\<dots> = take (length s) m" using False Cons.prems(2) by simp
    finally have m: "m = s @ drop (length s) m" by (metis append_take_drop_id)
    have "frames frame_len limit s = ([], s)"
      using Cons.prems(1) False by (intro frames_partial [OF _ m]) auto
    then show ?thesis using Cons.prems(2) False by (intro exI [of _ "[]"] exI [of _ "m # ms"] exI [of _ s]) auto
  qed
qed

end

subsection \<open>The framing of RTSP requests\<close>

definition frame_length :: "bytes \<Rightarrow> nat option" where
  "frame_length bs =
    (case find_sub [13, 10, 13, 10] bs of None \<Rightarrow> None | Some e \<Rightarrow> request_length (take (e + 4) bs))"

lemma find_sub_bound: "find_sub pat s = Some e \<Longrightarrow> e + length pat \<le> length s"
proof (induction s arbitrary: e)
  case (Cons c s)
  show ?case
  proof (cases "take (length pat) (c # s) = pat")
    case True
    then have "length (take (length pat) (c # s)) = length pat" by simp
    then have "length pat \<le> length (c # s)" by simp
    then show ?thesis using Cons.prems True by simp
  next
    case False
    then obtain e' where "find_sub pat s = Some e'" "e = Suc e'" using Cons.prems by auto
    then show ?thesis using Cons.IH by fastforce
  qed
qed (auto split: if_splits)

lemma find_sub_append: "find_sub pat s = Some e \<Longrightarrow> find_sub pat (s @ t) = Some e"
proof (induction s arbitrary: e)
  case Nil
  then have "pat = []" by (auto split: if_splits)
  then show ?case using Nil by (cases t) auto
next
  case (Cons c s)
  have l: "e + length pat \<le> length (c # s)" by (rule find_sub_bound [OF Cons.prems])
  then have t: "take (length pat) ((c # s) @ t) = take (length pat) (c # s)"
    by (simp only: take_append) simp
  show ?case using Cons t by (auto split: if_splits)
qed

lemma c_string_terminated: "\<exists>s. c_string (h @ [0]) = Some s"
  by (simp add: c_string_def)

lemma request_length_total: "\<exists>n. request_length header = Some n \<and> length header \<le> n"
  using c_string_terminated [of header] by (auto simp: request_length_def rtsp_parse_content_length_def)

interpretation rtsp: stream_framing frame_length RTSP_BUFFER_LARGE
proof
  fix bs n
  assume fl: "frame_length bs = Some n"
  then obtain e where e: "find_sub [13, 10, 13, 10] bs = Some e" "request_length (take (e + 4) bs) = Some n"
    by (auto simp: frame_length_def split: option.splits)
  have l: "e + 4 \<le> length bs" using find_sub_bound [OF e(1)] by simp
  show "0 < n" using request_length_total [of "take (e + 4) bs"] e(2) l by auto
  show "frame_length (bs @ x) = Some n" for x
    using find_sub_append [OF e(1), of x] e(2) l by (simp add: frame_length_def)
qed

text \<open>A request as a sender writes it: a header of lines whose announced length is that of the body.\<close>

lemma frame_length_request:
  assumes "ls \<noteq> []" "\<forall>l \<in> set ls. line_ok l"
    and "rtsp_parse_content_length (lines_text ls @ crlf @ [0]) = Some (int (length body))"
  shows "frame_length (lines_text ls @ crlf @ body) = Some (length (lines_text ls @ crlf @ body))"
proof -
  have "2 \<le> length (lines_text ls)" using assms(1) by (cases ls) auto
  then have e: "length (lines_text ls) - 2 + 4 = length (lines_text ls @ crlf)" by (simp add: crlf_def)
  have "take (length (lines_text ls @ crlf)) ((lines_text ls @ crlf) @ body) = lines_text ls @ crlf" by simp
  then have "request_length (take (length (lines_text ls) - 2 + 4) (lines_text ls @ crlf @ body)) =
      Some (length (lines_text ls @ crlf @ body))"
    unfolding e using assms(3) by (simp add: request_length_def)
  then show ?thesis using header_end_lines [OF assms(1,2), of body] by (simp add: frame_length_def)
qed

subsection \<open>The buffer loop refines the framing\<close>

text \<open>
  What the framing relies on: the handlers read the request and its terminator only, and the requests
  arrive at a connection that is not being stopped, with memory for the copies of the headers.
\<close>

definition dispatch_reads :: "(bytes \<Rightarrow> nat \<Rightarrow> 's \<Rightarrow> 's mem) \<Rightarrow> (bytes \<Rightarrow> 's \<Rightarrow> 's) \<Rightarrow> bool" where
  "dispatch_reads dispatch d \<longleftrightarrow>
     (\<forall>m n s. n < length m \<longrightarrow> m ! n = 0 \<longrightarrow> dispatch m n s = Some (d (take n m) s))"

lemma dispatch_readsD:
  "dispatch_reads dispatch d \<Longrightarrow> n < length m \<Longrightarrow> m ! n = 0 \<Longrightarrow> dispatch m n s = Some (d (take n m) s)"
  by (simp add: dispatch_reads_def)

text \<open>The terminator behind a request is put there and taken back, the rest moves to the front.\<close>

lemma cut_request:
  fixes buffer :: bytes
  assumes "tot \<le> len" "len < length buffer"
  obtains b1 b2 where "wr buffer tot [0] = Some b1" "take tot b1 = take tot buffer" "b1 ! tot = 0"
    "length b1 = length buffer" "wr b1 tot [buffer ! tot] = Some buffer"
    "tot < len \<Longrightarrow> wr buffer 0 (take (len - tot) (drop tot buffer)) = Some b2"
    "tot = len \<Longrightarrow> b2 = buffer" "length b2 = length buffer"
    "take (len - tot) b2 = drop tot (take len buffer)"
proof
  let ?b1 = "put_at buffer tot [0]"
  let ?b2 = "put_at buffer 0 (take (len - tot) (drop tot buffer))"
  have t: "tot + length [0 :: u8] \<le> length buffer" using assms by simp
  show "wr buffer tot [0] = Some ?b1" by (rule wr_put [OF t])
  show "take tot ?b1 = take tot buffer" "?b1 ! tot = 0" "length ?b1 = length buffer"
    using assms by (simp_all add: put_at_def nth_append)
  have "put_at ?b1 tot [buffer ! tot] = buffer"
    using assms by (simp add: put_at_def min_def id_take_nth_drop [symmetric])
  then show "wr ?b1 tot [buffer ! tot] = Some buffer"
    using assms by (subst wr_put) simp_all
  show "wr buffer 0 (take (len - tot) (drop tot buffer)) = Some ?b2"
    using assms by (intro wr_put) simp
  show "tot = len \<Longrightarrow> ?b2 = buffer" by simp
  show "length ?b2 = length buffer" using assms by simp
  show "take (len - tot) ?b2 = drop tot (take len buffer)"
    using assms by (simp add: put_at_def drop_take)
qed

lemma process_refines:
  assumes "dispatch_reads dispatch d" "\<forall>s. \<not> stop s" "\<forall>n. alloc n" "len < length buffer"
    and "frames frame_length RTSP_BUFFER_LARGE (take len buffer) = (ms, r)"
  shows "\<exists>buffer'. process_rtsp_buffer dispatch stop alloc buffer len s = Some (buffer', length r, fold d ms s) \<and>
    length buffer' = length buffer \<and> take (length r) buffer' = r"
  using assms(4,5)
proof (induction len arbitrary: buffer ms s rule: less_induct)
  case (less len)
  have fe: "rtsp_find_header_end buffer len = Some (find_sub [13, 10, 13, 10] (take len buffer))"
    using less.prems(1) by (simp add: rtsp_find_header_end_find)
  show ?case
  proof (cases "find_sub [13, 10, 13, 10] (take len buffer)")
    case None
    then have "ms = []" "r = take len buffer"
      using less.prems(2) by (simp_all add: frames.simps frame_length_def)
    then show ?thesis using None fe less.prems(1) assms(2)
      by (subst process_rtsp_buffer.simps) simp
  next
    case (Some e)
    have e: "e + 4 \<le> len" using find_sub_bound [OF Some] less.prems(1) by simp
    have hdr: "take (e + 4) (take len buffer) = take (e + 4) buffer" using e by simp
    obtain tot where tot: "request_length (take (e + 4) buffer) = Some tot" "e + 4 \<le> tot"
      using request_length_total [of "take (e + 4) buffer"] e less.prems(1) by auto
    have fl: "frame_length (take len buffer) = Some tot"
      using Some tot(1) hdr by (simp add: frame_length_def)
    have step: "process_rtsp_buffer dispatch stop alloc buffer len s =
      (if tot > RTSP_BUFFER_LARGE \<or> len < tot then
         Some (buffer, if tot > RTSP_BUFFER_LARGE then 0 else len, s)
       else do {
         saved \<leftarrow> rd buffer tot;
         buffer \<leftarrow> wr buffer tot [0];
         s \<leftarrow> dispatch buffer tot s;
         buffer \<leftarrow> wr buffer tot [saved];
         buffer \<leftarrow> (if len > tot then do {
             bs \<leftarrow> rd_block buffer tot (len - tot);
             wr buffer 0 bs
           } else Some buffer);
         process_rtsp_buffer dispatch stop alloc buffer (len - tot) s
       })"
      using Some fe e less.prems(1) assms(2,3) tot(1)
      by (subst process_rtsp_buffer.simps) simp
    show ?thesis
    proof (cases "tot > RTSP_BUFFER_LARGE \<or> len < tot")
      case True
      then have "ms = [] \<and> r = (if tot > RTSP_BUFFER_LARGE then [] else take len buffer)"
        using less.prems fl tot(2) by (auto simp: frames.simps [of _ _ "take len buffer"] split: if_splits)
      then show ?thesis using step True less.prems(1) by auto
    next
      case False
      obtain b1 b2 where b: "wr buffer tot [0] = Some b1" "take tot b1 = take tot buffer" "b1 ! tot = 0"
        "length b1 = length buffer" "wr b1 tot [buffer ! tot] = Some buffer"
        "tot < len \<Longrightarrow> wr buffer 0 (take (len - tot) (drop tot buffer)) = Some b2"
        "tot = len \<Longrightarrow> b2 = buffer" "length b2 = length buffer"
        "take (len - tot) b2 = drop tot (take len buffer)"
        using cut_request [of tot len buffer] False less.prems(1) by (metis not_less)
      obtain ms' where ms: "ms = take tot buffer # ms'"
        "frames frame_length RTSP_BUFFER_LARGE (take (len - tot) b2) = (ms', r)"
        using less.prems fl tot(2) False b(9)
        by (auto simp: frames.simps [of _ _ "take len buffer"] min_def split: if_splits prod.splits)
      have d: "dispatch b1 tot s = Some (d (take tot buffer) s)"
        using dispatch_readsD [OF assms(1), of tot b1 s] b(2-4) False less.prems(1) by simp
      have "process_rtsp_buffer dispatch stop alloc buffer len s =
          process_rtsp_buffer dispatch stop alloc b2 (len - tot) (d (take tot buffer) s)"
        using step False less.prems(1) b(1,5-7) d by (cases "tot < len") simp_all
      then show ?thesis
        using less.IH [of "len - tot" b2 ms' "d (take tot buffer) s"] ms b(8) less.prems(1) tot(2) False
        by simp
    qed
  qed
qed

end
