(* ===== verification/Rtsp_Client.thy ===== *)
theory Rtsp_Client
  imports Rtsp_Stream
begin

section \<open>The client task serves the requests of the stream in order\<close>

text \<open>
  The loops of the client task against the stream contract: whatever pieces the network delivers, the
  requests of the stream reach the handlers one by one, complete and in order.
\<close>

text \<open>The surroundings: no other task stops the client, memory is available, and \<open>log\<close> collects the
  requests the handlers got.\<close>

definition serving :: "'w client_env \<Rightarrow> (bytes \<Rightarrow> rtsp_conn \<times> 'w \<Rightarrow> rtsp_conn \<times> 'w) \<Rightarrow> ('w \<Rightarrow> bytes list) \<Rightarrow> bool" where
  "serving E d log \<longleftrightarrow> dispatch_reads (ce_dispatch E) d \<and> (\<forall>m s. log (snd (d m s)) = log (snd s) @ [m]) \<and>
     (\<forall>s. ce_running E s \<and> \<not> ce_stop E s) \<and> (\<forall>n. ce_alloc E n) \<and> (\<forall>rx. ce_block E rx) \<and>
     (\<forall>n. \<exists>b. ce_malloc E n = Some b \<and> length b = n) \<and> (\<forall>n b. ce_spiram E n = Some b \<longrightarrow> length b = n)"

lemma serving_simps:
  assumes "serving E d log"
  shows "dispatch_reads (ce_dispatch E) d" "log (snd (d m s)) = log (snd s) @ [m]" "ce_running E s" "\<not> ce_stop E s"
    "ce_alloc E n" "ce_block E rx"
  using assms unfolding serving_def by blast+

lemma serving_log: "serving E d log \<Longrightarrow> log (snd (fold d ms s)) = log (snd s) @ ms"
  by (induction ms arbitrary: s) (simp_all add: serving_simps)

definition rb_ok :: "rtsp_buffer \<Rightarrow> bool" where
  "rb_ok b \<longleftrightarrow> length (rb_mem b) = rb_cap b + 1 \<and> rb_len b \<le> rb_cap b \<and>
     (rb_cap b = RTSP_BUFFER_INITIAL \<or> rb_cap b = RTSP_BUFFER_LARGE)"

lemmas rtsp_sizes = RTSP_BUFFER_INITIAL_def RTSP_BUFFER_LARGE_def

lemma ensure_room_ok:
  assumes "serving E d log" "rb_ok b" "rb_len b < RTSP_BUFFER_LARGE - 1024"
  shows "\<exists>b'. ensure_room (ce_spiram E) (ce_malloc E) b = Some (Some b') \<and> rb_ok b' \<and> rb_len b' = rb_len b \<and>
    take (rb_len b) (rb_mem b') = take (rb_len b) (rb_mem b) \<and> rb_len b' + 1024 < rb_cap b'"
proof (cases "rb_len b \<ge> rb_cap b - 1024")
  case False
  then show ?thesis using assms by (auto simp: ensure_room_def)
next
  case True
  then have cap: "rb_cap b = RTSP_BUFFER_INITIAL" using assms(2,3) by (auto simp: rb_ok_def)
  obtain m where "ce_malloc E (RTSP_BUFFER_LARGE + 1) = Some m" "length m = RTSP_BUFFER_LARGE + 1"
    using assms(1) unfolding serving_def by blast
  then obtain nb where nb: "(case ce_spiram E (RTSP_BUFFER_LARGE + 1) of None \<Rightarrow> ce_malloc E (RTSP_BUFFER_LARGE + 1)
      | Some b \<Rightarrow> Some b) = Some nb" "length nb = RTSP_BUFFER_LARGE + 1"
    using assms(1) by (cases "ce_spiram E (RTSP_BUFFER_LARGE + 1)") (auto simp: serving_def)
  have len: "rb_len b \<le> length (rb_mem b)" "rb_len b \<le> length nb"
    using assms(2,3) nb(2) by (auto simp: rb_ok_def)
  let ?nb = "put_at nb 0 (take (rb_len b) (rb_mem b))"
  have "grow_buffer (ce_spiram E) (ce_malloc E) (rb_mem b) RTSP_BUFFER_LARGE (rb_len b) = Some (Some ?nb)"
    using len unfolding grow_buffer_def nb(1) by (simp add: wr_put)
  moreover have "length ?nb = RTSP_BUFFER_LARGE + 1" "take (rb_len b) ?nb = take (rb_len b) (rb_mem b)"
    using len nb(2) by (simp_all add: put_at_def)
  ultimately show ?thesis using True cap assms(3)
    by (auto simp: ensure_room_def rb_ok_def rtsp_sizes)
qed

text \<open>What is in the buffer and what is still to come are the requests \<open>ms\<close>, and the buffer holds a
  proper part of the first of them.\<close>

definition pending :: "rtsp_buffer \<Rightarrow> bytes \<Rightarrow> bytes list \<Rightarrow> bool" where
  "pending b q ms \<longleftrightarrow> rb_ok b \<and> take (rb_len b) (rb_mem b) @ q = concat ms \<and>
     (\<forall>m \<in> set ms. rtsp.good m \<and> length m \<le> RTSP_BUFFER_LARGE - 1024) \<and>
     (ms \<noteq> [] \<longrightarrow> rb_len b < length (hd ms))"

lemma pending_len: "pending b q ms \<Longrightarrow> rb_len b < RTSP_BUFFER_LARGE - 1024"
  by (cases ms) (auto simp: pending_def rtsp_sizes rb_ok_def)

lemma pending_end: "pending b [] ms \<Longrightarrow> ms = []"
  by (cases ms) (auto simp: pending_def rb_ok_def dest: arg_cong [of _ _ length])

text \<open>A piece arrives: it is stored, complete requests are served, and the rest is pending again.\<close>

lemma piece_served:
  assumes "serving E d log" "pending b (p @ q) ms" "rb_len b + length p \<le> rb_cap b"
  shows "\<exists>buffer ms1 ms2 b'. wr (rb_mem b) (rb_len b) p = Some buffer \<and> ms = ms1 @ ms2 \<and>
    process_rtsp_buffer (ce_dispatch E) (ce_stop E) (ce_alloc E) buffer (rb_len b + length p) s =
      Some (rb_mem b', rb_len b', fold d ms1 s) \<and>
    b' = b\<lparr>rb_mem := rb_mem b', rb_len := rb_len b'\<rparr> \<and> pending b' q ms2"
proof -
  let ?n = "rb_len b + length p"
  let ?buf = "put_at (rb_mem b) (rb_len b) p"
  have ok: "length (rb_mem b) = rb_cap b + 1" using assms(2) by (simp add: pending_def rb_ok_def)
  have buf: "wr (rb_mem b) (rb_len b) p = Some ?buf" "length ?buf = rb_cap b + 1"
    using ok assms(3) by (simp_all add: wr_put)
  have t: "take ?n ?buf = take (rb_len b) (rb_mem b) @ p"
    using ok assms(3) by (simp add: put_at_def)
  have good: "\<forall>m \<in> set ms. rtsp.good m" "take ?n ?buf @ q = concat ms"
    using assms(2) t by (auto simp: pending_def)
  obtain ms1 ms2 r where f: "frames frame_length RTSP_BUFFER_LARGE (take ?n ?buf) = (ms1, r)" "ms = ms1 @ ms2"
    "r @ q = concat ms2" "ms2 \<noteq> [] \<longrightarrow> length r < length (hd ms2)"
    using rtsp.frames_cut [OF good] by blast
  obtain buf' where pr: "process_rtsp_buffer (ce_dispatch E) (ce_stop E) (ce_alloc E) ?buf ?n s =
      Some (buf', length r, fold d ms1 s)" "length buf' = rb_cap b + 1" "take (length r) buf' = r"
    using process_refines [OF serving_simps(1) [OF assms(1)] _ _ _ f(1), of "ce_stop E" "ce_alloc E" s]
      serving_simps(4,5) [OF assms(1)] buf(2) assms(3) by auto
  have "length r \<le> rb_cap b"
  proof (cases ms2)
    case Nil
    then show ?thesis using f(3) by simp
  next
    case (Cons m ms3)
    have "length r \<le> length (concat ms2) - length q" using arg_cong [OF f(3), of length] by simp
    moreover have "length (concat ms2) \<le> length (concat ms)" unfolding f(2) by simp
    moreover have "length (concat ms) = ?n + length q"
      using arg_cong [OF good(2), of length] buf(2) assms(3) by simp
    ultimately show ?thesis using assms(3) by linarith
  qed
  then have "pending (b\<lparr>rb_mem := buf', rb_len := length r\<rparr>) q ms2"
    using assms(2) f pr(2,3) by (auto simp: pending_def rb_ok_def)
  then show ?thesis using buf(1) f(2) pr(1)
    by (intro exI [of _ ?buf] exI [of _ ms1] exI [of _ ms2] exI [of _ "b\<lparr>rb_mem := buf', rb_len := length r\<rparr>"]) simp
qed

lemma pending_room:
  assumes "serving E d log" "pending b q ms"
  obtains b' where "ensure_room (ce_spiram E) (ce_malloc E) b = Some (Some b')" "pending b' q ms"
    "rb_len b' + 1024 < rb_cap b'"
  using ensure_room_ok [OF assms(1), of b] pending_len [OF assms(2)] assms(2)
  by (auto simp: pending_def)

subsection \<open>The plain mode\<close>

lemma client_plain:
  assumes "serving E d log" "\<forall>m s. rc_encrypted_mode (fst (d m s)) = rc_encrypted_mode (fst s)"
  shows "rx_flows rx \<Longrightarrow> \<not> rc_encrypted_mode (fst s) \<Longrightarrow> pending b (rx_bytes rx) ms \<Longrightarrow>
    client_loop E errs rx b s = Some (fold d ms s)"
proof (induction "rx_size rx" arbitrary: rx b ms s rule: less_induct)
  case less
  obtain b1 where b1: "ensure_room (ce_spiram E) (ce_malloc E) b = Some (Some b1)" "pending b1 (rx_bytes rx) ms"
    "rb_len b1 + 1024 < rb_cap b1"
    using pending_room [OF assms(1) less.prems(3)] .
  let ?room = "rb_cap b1 - rb_len b1"
  obtain r rx' where r: "recv_from ?room rx = (r, rx')" by force
  have flow: "rx_flows rx'"
    using less.prems(1) r b1(3) by (cases "(?room, rx)" rule: recv_from.cases) (auto split: if_splits)
  have step: "client_loop E errs rx b s = (case recv_from ?room rx of
        (R_bytes bs, rx') \<Rightarrow> if bs = [] then Some s
          else do {
            buffer \<leftarrow> wr (rb_mem b1) (rb_len b1) bs;
            (buffer, len, s) \<leftarrow> process_rtsp_buffer (ce_dispatch E) (ce_stop E) (ce_alloc E) buffer (rb_len b1 + length bs) s;
            client_loop E errs rx' (b1\<lparr>rb_mem := buffer, rb_len := len\<rparr>) s
          }
      | (R_again, rx') \<Rightarrow> client_loop E errs rx' b1 s
      | (R_error, rx') \<Rightarrow> Some s)"
    using serving_simps(3,4) [OF assms(1)] less.prems(2) b1(1) by (subst client_loop.simps) simp
  show ?case
  proof (cases r)
    case (R_bytes bs)
    show ?thesis
    proof (cases "bs = []")
      case True
      then have "rx = []"
        using r R_bytes less.prems(1) b1(3) by (cases "(?room, rx)" rule: recv_from.cases) auto
      then show ?thesis using pending_end [of b ms] less.prems(3) step r R_bytes True by simp
    next
      case False
      have bytes: "rx_bytes rx = bs @ rx_bytes rx'" using recv_from_consumes r R_bytes by blast
      have len: "rb_len b1 + length bs \<le> rb_cap b1"
        using recv_from_bytes_length [of ?room rx bs rx'] r R_bytes b1(3) by simp
      obtain buffer ms1 ms2 b2 where b2: "wr (rb_mem b1) (rb_len b1) bs = Some buffer" "ms = ms1 @ ms2"
        "process_rtsp_buffer (ce_dispatch E) (ce_stop E) (ce_alloc E) buffer (rb_len b1 + length bs) s =
          Some (rb_mem b2, rb_len b2, fold d ms1 s)"
        "b2 = b1\<lparr>rb_mem := rb_mem b2, rb_len := rb_len b2\<rparr>" "pending b2 (rx_bytes rx') ms2"
        using piece_served [OF assms(1) _ len, of "rx_bytes rx'" ms s] b1(2) bytes by metis
      have "rc_encrypted_mode (fst (fold d ms1 s)) = rc_encrypted_mode (fst s)"
        by (induction ms1 arbitrary: s) (simp_all add: assms(2) [rule_format])
      then have "client_loop E errs rx' b2 (fold d ms1 s) = Some (fold d ms2 (fold d ms1 s))"
        using less.hyps [OF _ flow _ b2(5)] rx_size_bytes [of ?room rx bs rx'] r R_bytes False less.prems(2) by simp
      then show ?thesis using step r R_bytes False b2(1-3) b2(4) [symmetric] by simp
    qed
  next
    case R_again
    then have "rx_bytes rx = rx_bytes rx'" "rx_size rx' < rx_size rx"
      using recv_from_again_consumes rx_size_again r by blast+
    then show ?thesis using less.hyps [of rx' s b1 ms] flow less.prems(2) b1(2) step r R_again by simp
  next
    case R_error
    then show ?thesis using r less.prems(1) by (cases "(?room, rx)" rule: recv_from.cases) auto
  qed
qed

lemma fresh_pending:
  assumes "length buffer = RTSP_BUFFER_INITIAL + 1" "\<forall>m \<in> set ms. rtsp.good m \<and> length m \<le> RTSP_BUFFER_LARGE - 1024"
  shows "pending \<lparr>rb_mem = buffer, rb_len = 0, rb_cap = RTSP_BUFFER_INITIAL\<rparr> (concat ms) ms"
proof -
  have "0 < length (hd ms)" if "ms \<noteq> []"
    using rtsp.frame_pos [of "hd ms" "length (hd ms)"] assms(2) that by (cases ms) (auto simp: rtsp.good_def)
  then show ?thesis using assms by (auto simp: pending_def rb_ok_def)
qed

text \<open>
  C17. Requests sent in the clear are served whole, once each and in order, whatever pieces the network
  delivers them in and whatever time-outs occur: the client task ends in the state in which the
  handlers have run on exactly the requests of the stream, for any requests of at most 255 KiB that
  are framed by their headers.
\<close>

theorem plain_requests_served_in_order:
  assumes "serving E d log" "\<forall>m s. rc_encrypted_mode (fst (d m s)) = rc_encrypted_mode (fst s)"
    and "\<not> rc_encrypted_mode (fst s)" "rx_flows rx" "rx_bytes rx = concat ms"
    and "\<forall>m \<in> set ms. frame_length m = Some (length m) \<and> length m \<le> RTSP_BUFFER_LARGE - 1024"
  shows "client_run E errs rx s = Some (fold d ms s) \<and> log (snd (fold d ms s)) = log (snd s) @ ms"
proof
  obtain buffer where m: "ce_malloc E (RTSP_BUFFER_INITIAL + 1) = Some buffer" "length buffer = RTSP_BUFFER_INITIAL + 1"
    using assms(1) unfolding serving_def by blast
  have "\<forall>m \<in> set ms. rtsp.good m \<and> length m \<le> RTSP_BUFFER_LARGE - 1024"
    using assms(6) by (auto simp: rtsp.good_def)
  then have "pending \<lparr>rb_mem = buffer, rb_len = 0, rb_cap = RTSP_BUFFER_INITIAL\<rparr> (rx_bytes rx) ms"
    using fresh_pending [OF m(2)] assms(5) by simp
  then show "client_run E errs rx s = Some (fold d ms s)"
    using client_plain [OF assms(1,2,4,3)] m(1) by (simp add: client_run_def)
  show "log (snd (fold d ms s)) = log (snd s) @ ms" by (rule serving_log [OF assms(1)])
qed

subsection \<open>The encrypted mode\<close>

lemma recv_exact_dry: "rx_flows rx \<Longrightarrow> rx_bytes rx = [] \<Longrightarrow> 0 < n \<Longrightarrow> recv_exact n rx = (None, [])"
  by (induction rx rule: rx_flows.induct) (auto simp: recv_exact.simps [of n "Rx_timeout # _"] recv_exact.simps [of n "[]"])

lemma sk_rx_sock [simp]: "sk_rx (rx_sock rx) = rx"
  by (simp add: rx_sock_def)

lemma read_block_dry:
  assumes "rx_flows rx" "rx_bytes rx = []"
  shows "\<exists>rx'. rtsp_crypto_read_block C True conn n (rx_sock rx) = Some (None, conn, rx_sock rx') \<and>
    rx_flows rx' \<and> rx_bytes rx' = []"
proof (cases "rc_hap_session conn = None \<or> \<not> rc_encrypted_mode conn")
  case True
  then show ?thesis using assms
    by (intro exI [of _ rx]) (auto simp: rtsp_crypto_read_block_def split: option.splits)
next
  case False
  then show ?thesis using recv_exact_dry [OF assms, of 2]
    by (intro exI [of _ "[]"]) (auto simp: rtsp_crypto_read_block_def rx_sock_def)
qed

text \<open>At the end of the stream the task ends, whatever \<open>errno\<close> says.\<close>

lemma encrypted_dry:
  assumes "serving E d log"
  shows "rx_flows rx \<Longrightarrow> rx_bytes rx = [] \<Longrightarrow> pending b [] [] \<Longrightarrow>
    \<exists>conn. encrypted_loop E errs rx b s = Some (conn, snd s)"
proof (induction errs arbitrary: rx b s)
  case Nil
  obtain b1 where b1: "ensure_room (ce_spiram E) (ce_malloc E) b = Some (Some b1)"
    using pending_room [OF assms Nil(3)] .
  obtain rx' where r: "rtsp_crypto_read_block (ce_crypto E) True (fst s) (rb_cap b1 - rb_len b1) (rx_sock rx) =
      Some (None, fst s, rx_sock rx')" using read_block_dry [OF Nil(1,2)] by blast
  show ?case
    by (intro exI [of _ "fst s"], subst encrypted_loop.simps) (simp add: b1 r serving_simps [OF assms])
next
  case (Cons again errs)
  obtain b1 where b1: "ensure_room (ce_spiram E) (ce_malloc E) b = Some (Some b1)" "pending b1 [] []"
    using pending_room [OF assms Cons.prems(3)] by blast
  obtain rx' where r: "rtsp_crypto_read_block (ce_crypto E) True (fst s) (rb_cap b1 - rb_len b1) (rx_sock rx) =
      Some (None, fst s, rx_sock rx')" "rx_flows rx'" "rx_bytes rx' = []"
    using read_block_dry [OF Cons.prems(1,2)] by blast
  have "\<exists>conn. encrypted_loop E errs rx' b1 s = Some (conn, snd s)" by (rule Cons.IH [OF r(2,3) b1(2)])
  moreover have "\<exists>conn. s = (conn, snd s)" by (cases s) simp
  ultimately show ?case
    by (subst encrypted_loop.simps) (simp add: b1 r(1) serving_simps [OF assms])
qed

text \<open>What the handlers leave alone while requests are served in the encrypted mode.\<close>

definition keeps_channel :: "(bytes \<Rightarrow> rtsp_conn \<times> 'w \<Rightarrow> rtsp_conn \<times> 'w) \<Rightarrow> bool" where
  "keeps_channel d \<longleftrightarrow> (\<forall>m c w h. rc_encrypted_mode c \<and> rc_hap_session c = Some h \<longrightarrow>
     rc_encrypted_mode (fst (d m (c, w))) \<and>
     (\<exists>h'. rc_hap_session (fst (d m (c, w))) = Some h' \<and> hs_decrypt_key h' = hs_decrypt_key h \<and>
       hs_decrypt_nonce h' = hs_decrypt_nonce h))"

definition channel :: "rtsp_conn \<Rightarrow> bytes \<Rightarrow> u64 \<Rightarrow> bool" where
  "channel c key nonce \<longleftrightarrow> rc_encrypted_mode c \<and>
     (\<exists>h. rc_hap_session c = Some h \<and> hs_decrypt_key h = key \<and> hs_decrypt_nonce h = nonce)"

lemma channel_step: "keeps_channel d \<Longrightarrow> channel (fst s) key nonce \<Longrightarrow> channel (fst (d m s)) key nonce"
  unfolding keeps_channel_def channel_def by (cases s) fastforce

lemma channel_fold: "keeps_channel d \<Longrightarrow> channel (fst s) key nonce \<Longrightarrow> channel (fst (fold d ms s)) key nonce"
  by (induction ms arbitrary: s) (simp_all add: channel_step)

lemma read_block_channel:
  assumes "crypto_ok C" "channel c key nonce" "0 < length p" "length p \<le> RTSP_ENCRYPTED_BLOCK_MAX" "length p \<le> n"
    and "rx_flows rx" "rx_bytes rx = wire_block C key nonce p @ rest"
  obtains c' rx' where "rtsp_crypto_read_block C True c n (rx_sock rx) = Some (Some p, c', rx_sock rx')"
    "channel c' key (nonce + 1)" "rx_flows rx'" "rx_bytes rx' = rest"
proof -
  obtain h where h: "rc_hap_session c = Some h" "rc_encrypted_mode c" "hs_decrypt_key h = key" "hs_decrypt_nonce h = nonce"
    using assms(2) by (auto simp: channel_def)
  obtain rx' where "rtsp_crypto_read_block C True c n (rx_sock rx) = Some (Some p,
      c\<lparr>rc_hap_session := Some (h\<lparr>hs_decrypt_nonce := hs_decrypt_nonce h + 1\<rparr>)\<rparr>, (rx_sock rx)\<lparr>sk_rx := rx'\<rparr>)"
    "rx_flows rx'" "rx_bytes rx' = rest"
    using read_block_wire [OF assms(1) h(1,2) assms(3-5), of "rx_sock rx" rest] assms(6,7) h(3,4)
    by (auto simp: rx_sock_def)
  then show ?thesis using h by (intro that) (auto simp: rx_sock_def channel_def)
qed

lemma client_encrypted:
  assumes "serving E d log" "crypto_ok (ce_crypto E)" "keeps_channel d"
  shows "rx_flows rx \<Longrightarrow> channel (fst s) key nonce \<Longrightarrow> rx_bytes rx = wire (ce_crypto E) key nonce ps \<Longrightarrow>
    \<forall>p \<in> set ps. 0 < length p \<and> length p \<le> RTSP_ENCRYPTED_BLOCK_MAX \<Longrightarrow> pending b (concat ps) ms \<Longrightarrow>
    \<exists>s'. encrypted_loop E errs rx b s = Some s' \<and> log (snd s') = log (snd s) @ ms"
proof (induction ps arbitrary: rx b ms s nonce)
  case Nil
  then have "ms = []" using pending_end by simp
  then show ?case using encrypted_dry [OF assms(1) Nil.prems(1), of b errs s] Nil.prems by auto
next
  case (Cons p ps)
  obtain b1 where b1: "ensure_room (ce_spiram E) (ce_malloc E) b = Some (Some b1)" "pending b1 (concat (p # ps)) ms"
    "rb_len b1 + 1024 < rb_cap b1"
    using pending_room [OF assms(1) Cons.prems(5)] .
  have p: "0 < length p" "length p \<le> RTSP_ENCRYPTED_BLOCK_MAX" "length p \<le> rb_cap b1 - rb_len b1"
    "rb_len b1 + length p \<le> rb_cap b1"
    using Cons.prems(4) b1(3) by (auto simp: RTSP_ENCRYPTED_BLOCK_MAX_def)
  have bytes: "rx_bytes rx = wire_block (ce_crypto E) key nonce p @ wire (ce_crypto E) key (nonce + 1) ps"
    using Cons.prems(3) by simp
  obtain c rx' where rd: "rtsp_crypto_read_block (ce_crypto E) True (fst s) (rb_cap b1 - rb_len b1) (rx_sock rx) =
      Some (Some p, c, rx_sock rx')" "channel c key (nonce + 1)" "rx_flows rx'"
      "rx_bytes rx' = wire (ce_crypto E) key (nonce + 1) ps"
    using read_block_channel [OF assms(2) Cons.prems(2) p(1-3) Cons.prems(1) bytes] .
  obtain buffer ms1 ms2 b2 where b2: "wr (rb_mem b1) (rb_len b1) p = Some buffer" "ms = ms1 @ ms2"
    "process_rtsp_buffer (ce_dispatch E) (ce_stop E) (ce_alloc E) buffer (rb_len b1 + length p) (c, snd s) =
      Some (rb_mem b2, rb_len b2, fold d ms1 (c, snd s))"
    "b2 = b1\<lparr>rb_mem := rb_mem b2, rb_len := rb_len b2\<rparr>" "pending b2 (concat ps) ms2"
    using piece_served [OF assms(1) _ p(4), of "concat ps" ms "(c, snd s)"] b1(2) by (metis concat.simps(2))
  have ch: "channel (fst (fold d ms1 (c, snd s))) key (nonce + 1)"
    using channel_fold [OF assms(3)] rd(2) by simp
  obtain s' where s': "encrypted_loop E errs rx' b2 (fold d ms1 (c, snd s)) = Some s'"
    "log (snd s') = log (snd (fold d ms1 (c, snd s))) @ ms2"
    using Cons.IH [OF rd(3) ch rd(4) _ b2(5)] Cons.prems(4) by auto
  have "encrypted_loop E errs rx b s = encrypted_loop E errs rx' b2 (fold d ms1 (c, snd s))"
    using Cons.prems(2) b2(1,3) b2(4) [symmetric]
    by (subst encrypted_loop.simps) (simp add: b1(1) rd(1) serving_simps [OF assms(1)] channel_def)
  then show ?case using s' serving_log [OF assms(1), of ms1 "(c, snd s)"] b2(2) by simp
qed

text \<open>
  C18. After the switch to the encrypted mode requests are served in the same way: a client that writes
  its requests through the encrypted channel with the keys and counter of the session, in blocks cut
  anywhere, has each of them dispatched exactly once, decrypted, whole and in order, whatever pieces
  the network delivers the ciphertext in.
\<close>

theorem encrypted_requests_served_in_order:
  assumes "serving E d log" "crypto_ok (ce_crypto E)" "keeps_channel d" "channel (fst s) key nonce"
    and "rx_flows rx" "rx_bytes rx = wire (ce_crypto E) key nonce ps"
    and "\<forall>p \<in> set ps. 0 < length p \<and> length p \<le> RTSP_ENCRYPTED_BLOCK_MAX" "concat ps = concat ms"
    and "\<forall>m \<in> set ms. frame_length m = Some (length m) \<and> length m \<le> RTSP_BUFFER_LARGE - 1024"
  shows "\<exists>s'. client_run E errs rx s = Some s' \<and> log (snd s') = log (snd s) @ ms"
proof -
  obtain buffer where m: "ce_malloc E (RTSP_BUFFER_INITIAL + 1) = Some buffer" "length buffer = RTSP_BUFFER_INITIAL + 1"
    using assms(1) unfolding serving_def by blast
  have good: "\<forall>m \<in> set ms. rtsp.good m \<and> length m \<le> RTSP_BUFFER_LARGE - 1024"
    using assms(9) by (auto simp: rtsp.good_def)
  let ?b = "\<lparr>rb_mem = buffer, rb_len = 0, rb_cap = RTSP_BUFFER_INITIAL\<rparr>"
  have pend: "pending ?b (concat ps) ms" unfolding assms(8) by (rule fresh_pending [OF m(2) good])
  have "client_run E errs rx s = encrypted_loop E errs rx ?b s"
    using m(1) assms(4) serving_simps(3,4) [OF assms(1)]
    by (simp add: client_run_def client_loop.simps channel_def)
  then show ?thesis
    using client_encrypted [OF assms(1-3,5,4,6,7) pend] by simp
qed

subsection \<open>Requests near the limit\<close>

text \<open>
  With 255 KiB in the buffer the task ends, although a request of up to 256 KiB would be accepted when
  its last piece came with the one before.
\<close>

lemma full_buffer_ends:
  "rb_cap b = RTSP_BUFFER_LARGE \<Longrightarrow> RTSP_BUFFER_LARGE - 1024 \<le> rb_len b \<Longrightarrow> \<not> rc_encrypted_mode (fst s) \<Longrightarrow>
    client_loop E errs rx b s = Some s"
  by (subst client_loop.simps) (simp add: ensure_room_def RTSP_BUFFER_LARGE_def)

subsection \<open>Instances\<close>

text \<open>Surroundings in which the handlers only record the requests, and a request with a body.\<close>

definition recording_env :: "bytes list client_env" where
  "recording_env = \<lparr>ce_crypto = plain_crypto, ce_dispatch = (\<lambda>m n (c, w). Some (c, w @ [take n m])),
     ce_stop = (\<lambda>_. False), ce_running = (\<lambda>_. True), ce_alloc = (\<lambda>_. True), ce_block = (\<lambda>_. True),
     ce_spiram = (\<lambda>_. None), ce_malloc = (\<lambda>n. Some (replicate n 0))\<rparr>"

definition example_request :: bytes where
  "example_request = lines_text [ascii ''POST /a RTSP/1.0'', ascii ''Content-Length: 2''] @ crlf @ [104, 105]"

lemma recording_serving: "serving recording_env (\<lambda>m (c, w). (c, w @ [m])) id"
  by (auto simp: serving_def recording_env_def dispatch_reads_def)

lemma example_framed: "frame_length example_request = Some (length example_request) \<and>
    length example_request \<le> RTSP_BUFFER_LARGE - 1024"
proof -
  let ?ls = "[ascii ''POST /a RTSP/1.0'', ascii ''Content-Length: 2'']"
  have "rtsp_parse_content_length (lines_text ?ls @ crlf @ [0]) = Some (int (length [104 :: u8, 105]))"
    by (simp add: rtsp_parse_content_length_def c_string_def cstr_def ascii_def crlf_def strtol_def
        signed_digits_def c_space_def c_digit_def digits_val_def)
  then show ?thesis
    using frame_length_request [of ?ls "[104, 105]"]
    by (simp add: example_request_def line_ok_def ascii_def rtsp_sizes crlf_def)
qed

lemma plain_requests_served_in_order_witness:
  "client_run recording_env [] (map (\<lambda>b. Rx_data [b]) (example_request @ example_request)) (rtsp_conn_create, []) =
    Some (rtsp_conn_create, [example_request, example_request])"
  using plain_requests_served_in_order [OF recording_serving, of "(rtsp_conn_create, [])"
      "map (\<lambda>b. Rx_data [b]) (example_request @ example_request)" "[example_request, example_request]" "[]"]
    example_framed
  by (auto simp: rtsp_conn_create_def rx_bytewise simp del: map_append)

lemma encrypted_requests_served_in_order_witness:
  "\<exists>c. client_run recording_env [True] (map (\<lambda>b. Rx_data [b]) (wire plain_crypto (replicate 32 0) 0
        [example_request @ take 3 example_request, drop 3 example_request]))
      (rtsp_conn_create\<lparr>rc_encrypted_mode := True, rc_hap_session := Some (hap_session_create ([], []) ([], []))\<rparr>, []) =
    Some (c, [example_request, example_request])"
proof -
  let ?c = "rtsp_conn_create\<lparr>rc_encrypted_mode := True, rc_hap_session := Some (hap_session_create ([], []) ([], []))\<rparr>"
  have keeps: "keeps_channel (\<lambda>m (c, w). (c, w @ [m]))" by (simp add: keeps_channel_def)
  have "channel ?c (replicate 32 0) 0" by (simp add: channel_def hap_session_create_def)
  moreover have len: "length example_request = 41" by (simp add: example_request_def crlf_def)
  moreover have "example_request \<noteq> []" using len by auto
  moreover have "crypto_ok (ce_crypto recording_env)" "ce_crypto recording_env = plain_crypto"
    by (simp_all add: recording_env_def)
  ultimately show ?thesis
    using encrypted_requests_served_in_order [OF recording_serving _ keeps, of "(?c, [])" "replicate 32 0" 0
        "map (\<lambda>b. Rx_data [b]) (wire plain_crypto (replicate 32 0) 0
          [example_request @ take 3 example_request, drop 3 example_request])"
        "[example_request @ take 3 example_request, drop 3 example_request]" "[example_request, example_request]" "[True]"]
      example_framed
    by (auto simp: rx_bytewise RTSP_ENCRYPTED_BLOCK_MAX_def simp del: map_append wire.simps)
qed

end
