(* ===== verification/Ptp_Clock.thy ===== *)
theory Ptp_Clock
  imports Prelude "HOL-Library.Signed_Division"
begin

section \<open>The PTP clock (main/network/ptp_clock.c)\<close>

text \<open>
  The passive PTP listener: it estimates the offset of the master clock from SYNC and FOLLOW_UP
  messages. Times in milliseconds are the 32-bit tick count. Offsets are 64-bit signed: they are
  integers here, and an operation whose result does not fit has no defined result in C, which is
  \<open>None\<close>.
\<close>

definition i64 :: "int \<Rightarrow> int mem" where
  "i64 x = (if - (2 ^ 63) \<le> x \<and> x < 2 ^ 63 then Some x else None)"

definition PTP_HEADER_SIZE :: nat where "PTP_HEADER_SIZE = 34"
definition PTP_TIMESTAMP_OFFSET :: nat where "PTP_TIMESTAMP_OFFSET = 34"
definition PTP_TIMESTAMP_SIZE :: nat where "PTP_TIMESTAMP_SIZE = 10"
definition LOCK_THRESHOLD_NS :: int where "LOCK_THRESHOLD_NS = 50000000"
definition MIN_SAMPLES_FOR_LOCK :: u32 where "MIN_SAMPLES_FOR_LOCK = 4"
definition LOCK_STABLE_TIME_MS :: u32 where "LOCK_STABLE_TIME_MS = 250"
definition LOCK_TIMEOUT_MS :: u32 where "LOCK_TIMEOUT_MS = 5000"
definition OUTLIER_THRESHOLD_NS :: int where "OUTLIER_THRESHOLD_NS = 50000000"
definition SMOOTH_POS_STARTUP_DIV :: int where "SMOOTH_POS_STARTUP_DIV = 1"
definition SMOOTH_POS_STEADY_DIV :: int where "SMOOTH_POS_STEADY_DIV = 16"
definition SMOOTH_NEG_DIV :: int where "SMOOTH_NEG_DIV = 256"
definition SMOOTH_NEG_CLAMP_NS :: int where "SMOOTH_NEG_CLAMP_NS = -2500000"
definition STARTUP_DURATION_MS :: u32 where "STARTUP_DURATION_MS = 1000"
definition PTP_LONG_PAUSE_THRESHOLD_MS :: u32 where "PTP_LONG_PAUSE_THRESHOLD_MS = 30000"

lemmas ptp_sizes = PTP_HEADER_SIZE_def PTP_TIMESTAMP_OFFSET_def PTP_TIMESTAMP_SIZE_def
lemmas ptp_params = LOCK_THRESHOLD_NS_def OUTLIER_THRESHOLD_NS_def SMOOTH_POS_STARTUP_DIV_def
  SMOOTH_POS_STEADY_DIV_def SMOOTH_NEG_DIV_def SMOOTH_NEG_CLAMP_NS_def

record ptp_state =
  pt_running :: bool
  pt_task :: bool
  pt_event_socket :: int
  pt_general_socket :: int
  pt_locked :: bool
  pt_lock_start_ms :: u32
  pt_lock_candidate_start_ms :: u32
  pt_last_sync_ms :: u32
  pt_filtered_offset_ns :: int
  pt_sample_count :: u32
  pt_previous_offset :: int
  pt_raw_offset_ns :: int
  pt_previous_offset_time_ms :: u32
  pt_mastership_start_ms :: u32
  pt_last_sync_seq :: u16
  pt_last_sync_local_ns :: int
  pt_awaiting_followup :: bool
  pt_sync_count :: u32
  pt_followup_count :: u32
  pt_announce_count :: u32
  pt_rejected_master_count :: u32
  pt_outlier_count :: u32
  pt_expected_clock_id :: u64

definition ptp_zero :: ptp_state where
  "ptp_zero = \<lparr>pt_running = False, pt_task = False, pt_event_socket = 0, pt_general_socket = 0, pt_locked = False,
     pt_lock_start_ms = 0, pt_lock_candidate_start_ms = 0, pt_last_sync_ms = 0, pt_filtered_offset_ns = 0,
     pt_sample_count = 0, pt_previous_offset = 0, pt_raw_offset_ns = 0, pt_previous_offset_time_ms = 0,
     pt_mastership_start_ms = 0, pt_last_sync_seq = 0, pt_last_sync_local_ns = 0, pt_awaiting_followup = False,
     pt_sync_count = 0, pt_followup_count = 0, pt_announce_count = 0, pt_rejected_master_count = 0,
     pt_outlier_count = 0, pt_expected_clock_id = 0\<rparr>"

subsection \<open>Fields of a message\<close>

definition parse_ptp_clock_id :: "bytes \<Rightarrow> u64 mem" where
  "parse_ptp_clock_id data = do { bs \<leftarrow> rd_block data 20 8; Some (of_nat (be_val bs)) }"

definition parse_ptp_timestamp_ns :: "bytes \<Rightarrow> u64 mem" where
  "parse_ptp_timestamp_ns data = do {
     seconds \<leftarrow> rd_block data 0 6;
     nanos \<leftarrow> rd_block data 6 4;
     Some (of_nat (be_val seconds) * 1000000000 + of_nat (be_val nanos))
   }"

text \<open>The time of a message: the timestamp and the correction field, in units of 2 to the -16 ns.\<close>

definition message_time_ns :: "bytes \<Rightarrow> u64 mem" where
  "message_time_ns data = do {
     ptp_time_ns \<leftarrow> parse_ptp_timestamp_ns (drop PTP_TIMESTAMP_OFFSET data);
     if length data \<ge> 16 then do {
       field \<leftarrow> rd_block data 8 8;
       let correction = c_int64 (be_val field) sdiv 65536;
       t \<leftarrow> i64 (sint ptp_time_ns + correction);
       Some (of_int t)
     }
     else Some ptp_time_ns
   }"

subsection \<open>The offset filter\<close>

text \<open>The smoothed offset for a sample that is not the first: none when it is rejected as an outlier.\<close>

definition smooth_offset :: "u32 \<Rightarrow> int \<Rightarrow> ptp_state \<Rightarrow> int option mem" where
  "smooth_offset now_ms new_offset_ns p = do {
     diff \<leftarrow> i64 (new_offset_ns - pt_filtered_offset_ns p);
     diff \<leftarrow> (if diff < 0 then i64 (- diff) else Some diff);
     if diff > OUTLIER_THRESHOLD_NS then Some None
     else do {
       jitter \<leftarrow> i64 (new_offset_ns - pt_previous_offset p);
       let mastership_time_ms = now_ms - pt_mastership_start_ms p;
       let change = (if jitter \<ge> 0 then
           if mastership_time_ms < STARTUP_DURATION_MS then jitter sdiv SMOOTH_POS_STARTUP_DIV
           else jitter sdiv SMOOTH_POS_STEADY_DIV
         else (if jitter < SMOOTH_NEG_CLAMP_NS then SMOOTH_NEG_CLAMP_NS else jitter) sdiv SMOOTH_NEG_DIV);
       smoothed \<leftarrow> i64 (pt_previous_offset p + change);
       Some (Some smoothed)
     }
   }"

text \<open>The lock decision from the deviation of the sample.\<close>

definition update_lock :: "u32 \<Rightarrow> int \<Rightarrow> ptp_state \<Rightarrow> ptp_state" where
  "update_lock now_ms dev p =
    (if dev < LOCK_THRESHOLD_NS then
       if \<not> pt_locked p then
         let p = (if pt_lock_candidate_start_ms p = 0 then p\<lparr>pt_lock_candidate_start_ms := now_ms\<rparr> else p) in
         if now_ms - pt_lock_candidate_start_ms p \<ge> LOCK_STABLE_TIME_MS then
           p\<lparr>pt_locked := True, pt_lock_start_ms := now_ms, pt_lock_candidate_start_ms := 0\<rparr>
         else p
       else p
     else
       let p = p\<lparr>pt_lock_candidate_start_ms := 0\<rparr> in
       if pt_locked p \<and> dev > LOCK_THRESHOLD_NS * 4 then p\<lparr>pt_locked := False, pt_lock_start_ms := 0\<rparr> else p)"

definition update_offset :: "u32 \<Rightarrow> int \<Rightarrow> ptp_state \<Rightarrow> ptp_state mem" where
  "update_offset now_ms new_offset_ns p = do {
     let p = p\<lparr>pt_last_sync_ms := now_ms, pt_sample_count := pt_sample_count p + 1, pt_raw_offset_ns := new_offset_ns\<rparr>;
     (r, p) \<leftarrow> (if pt_previous_offset_time_ms p = 0
       then Some (Some new_offset_ns, p\<lparr>pt_mastership_start_ms := now_ms\<rparr>)
       else do { r \<leftarrow> smooth_offset now_ms new_offset_ns p; Some (r, p) });
     case r of
       None \<Rightarrow> Some (p\<lparr>pt_outlier_count := pt_outlier_count p + 1\<rparr>)
     | Some smoothed \<Rightarrow> do {
         let p = p\<lparr>pt_previous_offset := smoothed, pt_previous_offset_time_ms := now_ms,
           pt_filtered_offset_ns := smoothed\<rparr>;
         if pt_sample_count p \<ge> MIN_SAMPLES_FOR_LOCK then do {
           dev \<leftarrow> i64 (new_offset_ns - smoothed);
           dev \<leftarrow> (if dev < 0 then i64 (- dev) else Some dev);
           Some (update_lock now_ms dev p)
         }
         else Some p
       }
   }"

subsection \<open>Messages\<close>

text \<open>\<open>local_ns\<close> is the local clock when the message is processed.\<close>

definition process_sync :: "u32 \<Rightarrow> int \<Rightarrow> bytes \<Rightarrow> u16 \<Rightarrow> ptp_state \<Rightarrow> ptp_state mem" where
  "process_sync now_ms local_ns data seq p = do {
     let p = p\<lparr>pt_sync_count := pt_sync_count p + 1, pt_last_sync_seq := seq, pt_last_sync_local_ns := local_ns,
       pt_awaiting_followup := True\<rparr>;
     b6 \<leftarrow> rd data 6;
     b7 \<leftarrow> rd data 7;
     let flags = (push_bit 8 (ucast b6) OR ucast b7 :: u16);
     let two_step = flags AND 0x0200 \<noteq> 0;
     if \<not> two_step \<and> length data \<ge> PTP_HEADER_SIZE + PTP_TIMESTAMP_SIZE then do {
       ptp_time_ns \<leftarrow> message_time_ns data;
       offset \<leftarrow> i64 (sint ptp_time_ns - pt_last_sync_local_ns p);
       p \<leftarrow> update_offset now_ms offset p;
       Some (p\<lparr>pt_awaiting_followup := False\<rparr>)
     }
     else Some p
   }"

definition process_followup :: "u32 \<Rightarrow> bytes \<Rightarrow> u16 \<Rightarrow> ptp_state \<Rightarrow> ptp_state mem" where
  "process_followup now_ms data seq p =
    (if \<not> pt_awaiting_followup p then Some p
     else if seq \<noteq> pt_last_sync_seq p then Some p
     else
       let p = p\<lparr>pt_followup_count := pt_followup_count p + 1, pt_awaiting_followup := False\<rparr> in
       if length data \<ge> PTP_HEADER_SIZE + PTP_TIMESTAMP_SIZE then do {
         ptp_time_ns \<leftarrow> message_time_ns data;
         offset \<leftarrow> i64 (sint ptp_time_ns - pt_last_sync_local_ns p);
         update_offset now_ms offset p
       }
       else Some p)"

definition process_ptp_message :: "u32 \<Rightarrow> int \<Rightarrow> bytes \<Rightarrow> bool \<Rightarrow> ptp_state \<Rightarrow> ptp_state mem" where
  "process_ptp_message now_ms local_ns data is_event_port p =
    (if length data < PTP_HEADER_SIZE then Some p
     else do {
       b0 \<leftarrow> rd data 0;
       let msg_type = b0 AND 0x0F;
       b30 \<leftarrow> rd data 30;
       b31 \<leftarrow> rd data 31;
       let seq = (push_bit 8 (ucast b30) OR ucast b31 :: u16);
       src_clock_id \<leftarrow> parse_ptp_clock_id data;
       if pt_expected_clock_id p \<noteq> 0 \<and> (msg_type = 0x0 \<or> msg_type = 0x8) \<and> src_clock_id \<noteq> pt_expected_clock_id p
       then Some (p\<lparr>pt_rejected_master_count := pt_rejected_master_count p + 1\<rparr>)
       else if msg_type = 0x0 then
         if is_event_port then process_sync now_ms local_ns data seq p else Some p
       else if msg_type = 0x8 then
         if \<not> is_event_port then process_followup now_ms data seq p else Some p
       else if msg_type = 0xB then Some (p\<lparr>pt_announce_count := pt_announce_count p + 1\<rparr>)
       else Some p
     })"

text \<open>One datagram in the task: at most 256 bytes of it are received.\<close>

definition ptp_receive :: "u32 \<Rightarrow> int \<Rightarrow> bytes \<Rightarrow> bool \<Rightarrow> ptp_state \<Rightarrow> ptp_state mem" where
  "ptp_receive now_ms local_ns datagram is_event_port p =
    (if datagram = [] then Some p else process_ptp_message now_ms local_ns (take 256 datagram) is_event_port p)"

subsection \<open>Operations of the clock\<close>

text \<open>
  Start and stop. \<open>event\<close> and \<open>general\<close> are the sockets \<open>create_ptp_socket\<close> returns, \<open>created\<close> whether
  the task was created, \<open>exits\<close> whether it ends while it is waited for. The last component are the
  sockets that were closed.
\<close>

definition ptp_clock_init :: "int \<Rightarrow> int \<Rightarrow> bool \<Rightarrow> ptp_state \<Rightarrow> esp_err \<times> ptp_state \<times> int list" where
  "ptp_clock_init event general created p =
    (if pt_running p then (ESP_ERR_INVALID_STATE, p, [])
     else let p = ptp_zero\<lparr>pt_event_socket := event, pt_general_socket := -1\<rparr> in
       if event < 0 then (ESP_FAIL, p, [])
       else let p = p\<lparr>pt_general_socket := general\<rparr> in
         if general < 0 then (ESP_FAIL, p\<lparr>pt_event_socket := -1\<rparr>, [event])
         else if \<not> created then
           (ESP_FAIL, p\<lparr>pt_event_socket := -1, pt_general_socket := -1, pt_running := False\<rparr>, [event, general])
         else (ESP_OK, p\<lparr>pt_running := True, pt_task := True\<rparr>, []))"

definition ptp_clock_stop :: "bool \<Rightarrow> ptp_state \<Rightarrow> ptp_state \<times> int list" where
  "ptp_clock_stop exits p =
    (if \<not> pt_running p then (p, [])
     else let closes = (if pt_event_socket p \<ge> 0 then [pt_event_socket p] else []) @
                (if pt_general_socket p \<ge> 0 then [pt_general_socket p] else []) in
       (p\<lparr>pt_running := False,
          pt_event_socket := if pt_event_socket p \<ge> 0 then -1 else pt_event_socket p,
          pt_general_socket := if pt_general_socket p \<ge> 0 then -1 else pt_general_socket p,
          pt_task := pt_task p \<and> \<not> exits\<rparr>, closes))"

definition ptp_clock_clear :: "ptp_state \<Rightarrow> ptp_state" where
  "ptp_clock_clear p = p\<lparr>pt_locked := False, pt_lock_start_ms := 0, pt_lock_candidate_start_ms := 0,
     pt_last_sync_ms := 0, pt_filtered_offset_ns := 0, pt_sample_count := 0, pt_previous_offset := 0,
     pt_previous_offset_time_ms := 0, pt_mastership_start_ms := 0, pt_last_sync_seq := 0,
     pt_last_sync_local_ns := 0, pt_awaiting_followup := False, pt_sync_count := 0, pt_followup_count := 0,
     pt_expected_clock_id := 0\<rparr>"

definition ptp_clock_notify_resume :: "u32 \<Rightarrow> ptp_state \<Rightarrow> ptp_state" where
  "ptp_clock_notify_resume pause_duration_ms p =
    (if pause_duration_ms < PTP_LONG_PAUSE_THRESHOLD_MS then p
     else p\<lparr>pt_previous_offset_time_ms := 0, pt_mastership_start_ms := 0\<rparr>)"

definition ptp_clock_is_locked :: "u32 \<Rightarrow> ptp_state \<Rightarrow> bool \<times> ptp_state" where
  "ptp_clock_is_locked now_ms p =
    (let p = (if pt_locked p \<and> pt_last_sync_ms p > 0 \<and> now_ms - pt_last_sync_ms p > LOCK_TIMEOUT_MS
          then p\<lparr>pt_locked := False, pt_lock_start_ms := 0, pt_lock_candidate_start_ms := 0\<rparr> else p) in
     (pt_locked p, p))"

definition ptp_clock_get_time_ns :: "int \<Rightarrow> ptp_state \<Rightarrow> u64 mem" where
  "ptp_clock_get_time_ns local_ns p = do { t \<leftarrow> i64 (local_ns + pt_filtered_offset_ns p); Some (of_int t) }"

definition ptp_clock_get_offset_ns :: "ptp_state \<Rightarrow> int" where
  "ptp_clock_get_offset_ns p = pt_filtered_offset_ns p"

definition ptp_clock_set_master_clock_id :: "u64 \<Rightarrow> ptp_state \<Rightarrow> ptp_state" where
  "ptp_clock_set_master_clock_id clock_id p =
    (if clock_id = pt_expected_clock_id p then p
     else p\<lparr>pt_expected_clock_id := clock_id, pt_locked := False, pt_lock_start_ms := 0,
       pt_lock_candidate_start_ms := 0, pt_filtered_offset_ns := 0, pt_sample_count := 0, pt_previous_offset := 0,
       pt_previous_offset_time_ms := 0, pt_awaiting_followup := False\<rparr>)"

definition ptp_clock_get_master_clock_id :: "ptp_state \<Rightarrow> u64" where
  "ptp_clock_get_master_clock_id p = pt_expected_clock_id p"

record ptp_stats =
  ps_sync_count :: u32
  ps_followup_count :: u32
  ps_last_offset_ns :: int
  ps_filtered_offset_ns :: int
  ps_outlier_count :: u32
  ps_lock_time_ms :: u32

definition ptp_clock_get_stats :: "u32 \<Rightarrow> ptp_state \<Rightarrow> ptp_stats" where
  "ptp_clock_get_stats now_ms p = \<lparr>ps_sync_count = pt_sync_count p, ps_followup_count = pt_followup_count p,
     ps_last_offset_ns = pt_raw_offset_ns p, ps_filtered_offset_ns = pt_filtered_offset_ns p,
     ps_outlier_count = pt_outlier_count p,
     ps_lock_time_ms = if pt_locked p \<and> pt_lock_start_ms p > 0 then now_ms - pt_lock_start_ms p else 0\<rparr>"

end
