(* ===== verification/Ptp_Facts.thy ===== *)
theory Ptp_Facts
  imports Ptp_Clock
begin

section \<open>What the PTP filter guarantees\<close>

lemma i64_Some [simp]: "- (2 ^ 63) \<le> x \<Longrightarrow> x < 2 ^ 63 \<Longrightarrow> i64 x = Some x"
  by (simp add: i64_def)

subsection \<open>Well-formed states\<close>

text \<open>
  The estimate and the reference of the jitter are the same value, a lock has no candidate, and without
  a lock there is no lock time. Every operation keeps this.
\<close>

definition ptp_ok :: "ptp_state \<Rightarrow> bool" where
  "ptp_ok p \<longleftrightarrow> pt_filtered_offset_ns p = pt_previous_offset p \<and>
     - (2 ^ 63) \<le> pt_filtered_offset_ns p \<and> pt_filtered_offset_ns p < 2 ^ 63 \<and>
     (pt_locked p \<longrightarrow> pt_lock_candidate_start_ms p = 0) \<and> (\<not> pt_locked p \<longrightarrow> pt_lock_start_ms p = 0)"

lemma i64_eq_Some: "i64 x = Some y \<longleftrightarrow> y = x \<and> - (2 ^ 63) \<le> x \<and> x < 2 ^ 63"
  by (auto simp: i64_def)

lemma update_lock_frame [simp]:
  "pt_filtered_offset_ns (update_lock t d p) = pt_filtered_offset_ns p"
  "pt_previous_offset (update_lock t d p) = pt_previous_offset p"
  "pt_previous_offset_time_ms (update_lock t d p) = pt_previous_offset_time_ms p"
  "pt_last_sync_ms (update_lock t d p) = pt_last_sync_ms p"
  by (simp_all add: update_lock_def Let_def)

lemma update_lock_ok: "ptp_ok p \<Longrightarrow> ptp_ok (update_lock t d p)"
  by (auto simp: ptp_ok_def update_lock_def Let_def)

lemma update_offset_ok:
  assumes "ptp_ok p" "- (2 ^ 63) \<le> s" "s < 2 ^ 63" "update_offset t s p = Some p'"
  shows "ptp_ok p'"
proof -
  let ?p = "p\<lparr>pt_last_sync_ms := t, pt_sample_count := pt_sample_count p + 1, pt_raw_offset_ns := s\<rparr>"
  obtain r q where q: "(if pt_previous_offset_time_ms ?p = 0
       then Some (Some s, ?p\<lparr>pt_mastership_start_ms := t\<rparr>)
       else do { r \<leftarrow> smooth_offset t s ?p; Some (r, ?p) }) = Some (r, q)"
    and rest: "(case r of
       None \<Rightarrow> Some (q\<lparr>pt_outlier_count := pt_outlier_count q + 1\<rparr>)
     | Some smoothed \<Rightarrow> do {
         let p = q\<lparr>pt_previous_offset := smoothed, pt_previous_offset_time_ms := t, pt_filtered_offset_ns := smoothed\<rparr>;
         if pt_sample_count p \<ge> MIN_SAMPLES_FOR_LOCK then do {
           dev \<leftarrow> i64 (s - smoothed);
           dev \<leftarrow> (if dev < 0 then i64 (- dev) else Some dev);
           Some (update_lock t dev p)
         }
         else Some p
       }) = Some p'"
    using assms(4) unfolding update_offset_def Let_def by (auto simp: bind_eq_Some_conv simp del: not_None_eq)
  have q_ok: "ptp_ok q" using q assms(1) by (auto simp: ptp_ok_def bind_eq_Some_conv split: if_splits)
  have range: "- (2 ^ 63) \<le> x \<and> x < 2 ^ 63" if "r = Some x" for x
    using q that assms(2,3)
    by (auto simp: smooth_offset_def bind_eq_Some_conv Let_def i64_eq_Some split: if_splits)
  show ?thesis
  proof (cases r)
    case None
    then show ?thesis using rest q_ok by (auto simp: ptp_ok_def)
  next
    case (Some x)
    let ?q = "q\<lparr>pt_previous_offset := x, pt_previous_offset_time_ms := t, pt_filtered_offset_ns := x\<rparr>"
    have "ptp_ok ?q" using q_ok range [OF Some] by (simp add: ptp_ok_def)
    moreover have "p' = ?q \<or> (\<exists>d. p' = update_lock t d ?q)"
      using rest Some by (auto simp: Let_def bind_eq_Some_conv split: if_splits)
    ultimately show ?thesis using update_lock_ok by auto
  qed
qed

subsection \<open>One sample\<close>

definition smooth_step :: "bool \<Rightarrow> int \<Rightarrow> int" where
  "smooth_step startup j = (if j \<ge> 0 then (if startup then j else j div 16) else - (min (- j) 2500000 div 256))"

lemma smooth_step_bounds:
  "0 \<le> j \<Longrightarrow> 0 \<le> smooth_step st j \<and> smooth_step st j \<le> j"
  "j < 0 \<Longrightarrow> j \<le> smooth_step st j \<and> smooth_step st j \<le> 0 \<and> - 9765 \<le> smooth_step st j"
  by (auto simp: smooth_step_def min_def)

text \<open>Values far from the limits of 64 bits.\<close>

definition moderate :: "int \<Rightarrow> bool" where
  "moderate x \<longleftrightarrow> \<bar>x\<bar> \<le> 2 ^ 61"

lemma smooth_offset_eq:
  assumes "ptp_ok p" "\<bar>pt_filtered_offset_ns p\<bar> \<le> 2 ^ 62" "moderate s"
  shows "smooth_offset t s p = Some (if \<bar>s - pt_filtered_offset_ns p\<bar> > OUTLIER_THRESHOLD_NS then None
    else Some (pt_filtered_offset_ns p +
      smooth_step (t - pt_mastership_start_ms p < STARTUP_DURATION_MS) (s - pt_filtered_offset_ns p)))"
proof -
  let ?f = "pt_filtered_offset_ns p" and ?j = "s - pt_filtered_offset_ns p"
  have eq: "pt_previous_offset p = ?f" using assms(1) by (simp add: ptp_ok_def)
  have j: "i64 ?j = Some ?j" "i64 (?f - s) = Some (?f - s)"
    using assms(2,3) by (simp_all add: moderate_def i64_eq_Some abs_le_iff)
  have step: "(if ?j \<ge> 0 then
           if t - pt_mastership_start_ms p < STARTUP_DURATION_MS then ?j sdiv SMOOTH_POS_STARTUP_DIV
           else ?j sdiv SMOOTH_POS_STEADY_DIV
         else (if ?j < SMOOTH_NEG_CLAMP_NS then SMOOTH_NEG_CLAMP_NS else ?j) sdiv SMOOTH_NEG_DIV) =
      smooth_step (t - pt_mastership_start_ms p < STARTUP_DURATION_MS) ?j"
    by (auto simp: smooth_step_def ptp_params signed_divide_int_def sgn_if)
  have "i64 (?f + smooth_step st ?j) = Some (?f + smooth_step st ?j)" for st
  proof -
    have "min ?f s \<le> ?f + smooth_step st ?j \<and> ?f + smooth_step st ?j \<le> max ?f s"
      using smooth_step_bounds [of ?j st] by (cases "0 \<le> ?j") auto
    then show ?thesis using assms(2,3) by (simp add: moderate_def i64_eq_Some abs_le_iff min_def max_def split: if_splits)
  qed
  then show ?thesis
    unfolding smooth_offset_def eq Let_def j(1) Option.bind.simps step
    by (simp add: j(2))
qed

text \<open>What a sample does to the estimate and to the lock.\<close>

lemma update_offset_moderate:
  assumes "ptp_ok p" "\<bar>pt_filtered_offset_ns p\<bar> \<le> 2 ^ 62" "moderate s"
  shows "\<exists>p'. update_offset t s p = Some p' \<and> ptp_ok p' \<and> pt_last_sync_ms p' = t \<and>
    (if pt_previous_offset_time_ms p = 0 then pt_filtered_offset_ns p' = s \<and> pt_previous_offset_time_ms p' = t
     else if \<bar>s - pt_filtered_offset_ns p\<bar> > OUTLIER_THRESHOLD_NS then
       pt_filtered_offset_ns p' = pt_filtered_offset_ns p \<and> pt_locked p' = pt_locked p \<and>
       pt_previous_offset_time_ms p' = pt_previous_offset_time_ms p
     else pt_filtered_offset_ns p' = pt_filtered_offset_ns p +
         smooth_step (t - pt_mastership_start_ms p < STARTUP_DURATION_MS) (s - pt_filtered_offset_ns p) \<and>
       pt_previous_offset_time_ms p' = t)"
proof -
  let ?p = "p\<lparr>pt_last_sync_ms := t, pt_sample_count := pt_sample_count p + 1, pt_raw_offset_ns := s\<rparr>"
  let ?f = "pt_filtered_offset_ns p"
  let ?st = "t - pt_mastership_start_ms p < STARTUP_DURATION_MS"
  have ok: "ptp_ok ?p" using assms(1) by (simp add: ptp_ok_def)
  have sm: "smooth_offset t s ?p = Some (if \<bar>s - ?f\<bar> > OUTLIER_THRESHOLD_NS then None
      else Some (?f + smooth_step ?st (s - ?f)))"
    using smooth_offset_eq [OF ok _ assms(3), of t] assms(2) by simp
  have dev: "i64 (s - x) = Some (s - x)" "i64 (x - s) = Some (x - s)"
    if "x = s \<or> x = ?f + smooth_step st (s - ?f)" for x st
  proof -
    have "min ?f s \<le> x \<and> x \<le> max ?f s"
      using that smooth_step_bounds [of "s - ?f" st] by (cases "0 \<le> s - ?f") auto
    then show "i64 (s - x) = Some (s - x)" "i64 (x - s) = Some (x - s)"
      using assms(2,3) by (simp_all add: moderate_def i64_eq_Some abs_le_iff min_def max_def split: if_splits)
  qed
  have "\<exists>p'. update_offset t s p = Some p' \<and> pt_last_sync_ms p' = t \<and>
    (if pt_previous_offset_time_ms p = 0 then pt_filtered_offset_ns p' = s \<and> pt_previous_offset_time_ms p' = t
     else if \<bar>s - ?f\<bar> > OUTLIER_THRESHOLD_NS then
       pt_filtered_offset_ns p' = ?f \<and> pt_locked p' = pt_locked p \<and>
       pt_previous_offset_time_ms p' = pt_previous_offset_time_ms p
     else pt_filtered_offset_ns p' = ?f + smooth_step ?st (s - ?f) \<and> pt_previous_offset_time_ms p' = t)"
    using sm dev [of s] dev [of "?f + smooth_step ?st (s - ?f)" ?st]
    by (auto simp: update_offset_def Let_def)
  moreover have range: "- (2 ^ 63) \<le> s" "s < 2 ^ 63" using assms(3) by (auto simp: moderate_def abs_le_iff)
  ultimately show ?thesis using update_offset_ok [OF assms(1) range] by blast
qed

lemma update_offset_tracking:
  assumes "ptp_ok p" "\<bar>pt_filtered_offset_ns p\<bar> \<le> 2 ^ 62" "moderate s" "pt_previous_offset_time_ms p \<noteq> 0" "t \<noteq> 0"
  shows "\<exists>p'. update_offset t s p = Some p' \<and> ptp_ok p' \<and> pt_previous_offset_time_ms p' \<noteq> 0 \<and>
    (pt_filtered_offset_ns p' = pt_filtered_offset_ns p \<or>
      (\<exists>st. pt_filtered_offset_ns p' = pt_filtered_offset_ns p + smooth_step st (s - pt_filtered_offset_ns p)))"
proof -
  let ?f = "pt_filtered_offset_ns p"
  let ?st = "t - pt_mastership_start_ms p < STARTUP_DURATION_MS"
  obtain p' where p': "update_offset t s p = Some p'" "ptp_ok p'"
    and alt: "if \<bar>s - ?f\<bar> > OUTLIER_THRESHOLD_NS then
       pt_filtered_offset_ns p' = ?f \<and> pt_locked p' = pt_locked p \<and>
       pt_previous_offset_time_ms p' = pt_previous_offset_time_ms p
     else pt_filtered_offset_ns p' = ?f + smooth_step ?st (s - ?f) \<and> pt_previous_offset_time_ms p' = t"
    using update_offset_moderate [OF assms(1-3), of t] unfolding if_not_P [OF assms(4)] by blast
  have "pt_previous_offset_time_ms p' \<noteq> 0" using alt assms(4,5) by (simp split: if_splits)
  moreover have "pt_filtered_offset_ns p' = ?f \<or> pt_filtered_offset_ns p' = ?f + smooth_step ?st (s - ?f)"
    using alt by (simp split: if_splits)
  ultimately show ?thesis using p' by blast
qed

subsection \<open>Sequences of samples\<close>

fun ptp_samples :: "(u32 \<times> int) list \<Rightarrow> ptp_state \<Rightarrow> ptp_state mem" where
  "ptp_samples [] p = Some p"
| "ptp_samples ((t, s) # ss) p = do { p \<leftarrow> update_offset t s p; ptp_samples ss p }"


text \<open>
  A master clock that steps is never followed: once locked, samples more than 50 ms away from the
  estimate are all rejected, the estimate and the lock stay as they are for any number of them, and
  since each of them counts as a sign of life the clock goes on reporting the lock.
\<close>

theorem ptp_step_never_followed:
  assumes "ptp_ok p" "pt_previous_offset_time_ms p \<noteq> 0" "moderate (pt_filtered_offset_ns p)" "pt_locked p"
    and "\<forall>(t, s) \<in> set ss. moderate s \<and> \<bar>s - pt_filtered_offset_ns p\<bar> > OUTLIER_THRESHOLD_NS"
    and "ss \<noteq> []" "now - fst (last ss) \<le> LOCK_TIMEOUT_MS"
  shows "\<exists>p'. ptp_samples ss p = Some p' \<and> pt_filtered_offset_ns p' = pt_filtered_offset_ns p \<and>
    fst (ptp_clock_is_locked now p')"
proof -
  have "\<exists>p'. ptp_samples ss p = Some p' \<and> pt_filtered_offset_ns p' = pt_filtered_offset_ns p \<and> pt_locked p' \<and>
      (ss \<noteq> [] \<longrightarrow> pt_last_sync_ms p' = fst (last ss))"
    using assms(1-5)
  proof (induction ss arbitrary: p)
    case Nil
    then show ?case by simp
  next
    case (Cons ts ss)
    obtain t s where ts: "ts = (t, s)" by force
    let ?f = "pt_filtered_offset_ns p"
    have f: "\<bar>?f\<bar> \<le> 2 ^ 62" using Cons.prems(3) by (simp add: moderate_def)
    have s: "moderate s" "\<bar>s - ?f\<bar> > OUTLIER_THRESHOLD_NS" using Cons.prems(5) ts by auto
    obtain p1 where p1: "update_offset t s p = Some p1" "ptp_ok p1" "pt_last_sync_ms p1 = t"
      "pt_filtered_offset_ns p1 = ?f" "pt_locked p1" "pt_previous_offset_time_ms p1 \<noteq> 0"
      using update_offset_moderate [OF Cons.prems(1) f s(1), of t] Cons.prems(2,4) s(2) by auto
    obtain p' where "ptp_samples ss p1 = Some p'" "pt_filtered_offset_ns p' = ?f" "pt_locked p'"
      "ss \<noteq> [] \<longrightarrow> pt_last_sync_ms p' = fst (last ss)"
      using Cons.IH [OF p1(2,6)] Cons.prems(3,5) p1(4,5) by auto
    moreover have "ss = [] \<Longrightarrow> ptp_samples ss p1 = Some p' \<Longrightarrow> p' = p1" for p' by simp
    ultimately show ?case using p1(1,3) by (cases ss) (auto simp: ts)
  qed
  then obtain p' where "ptp_samples ss p = Some p'" "pt_filtered_offset_ns p' = pt_filtered_offset_ns p" "pt_locked p'"
    "pt_last_sync_ms p' = fst (last ss)" using assms(6) by blast
  then show ?thesis using assms(7)
    by (intro exI [of _ p']) (simp add: ptp_clock_is_locked_def Let_def not_less)
qed


lemma ptp_step_never_followed_witness:
  "\<exists>p'. ptp_samples [(1000, 60000000), (1125, 60000100)]
      (ptp_zero\<lparr>pt_locked := True, pt_previous_offset_time_ms := 875\<rparr>) = Some p' \<and>
    pt_filtered_offset_ns p' = 0 \<and> fst (ptp_clock_is_locked 1200 p')"
  using ptp_step_never_followed [of "ptp_zero\<lparr>pt_locked := True, pt_previous_offset_time_ms := 875\<rparr>"
      "[(1000, 60000000), (1125, 60000100)]" 1200]
  by (simp add: ptp_ok_def ptp_zero_def moderate_def OUTLIER_THRESHOLD_NS_def LOCK_TIMEOUT_MS_def)

subsection \<open>Messages\<close>

lemma sint_of_nat: "n < 2 ^ 63 \<Longrightarrow> sint (of_nat n :: u64) = int n"
  using c_int64_id [of n] by (simp add: c_int64_def)

text \<open>The time a message without correction carries.\<close>

lemma message_time:
  assumes "44 \<le> length data" "take 8 (drop 8 data) = replicate 8 0"
    and "be_val (take 6 (drop 34 data)) = secs" "be_val (take 4 (drop 40 data)) = nanos" "secs < 2 ^ 32" "nanos < 10 ^ 9"
  shows "message_time_ns data = Some (of_nat (secs * 10 ^ 9 + nanos))"
proof -
  let ?T = "secs * 10 ^ 9 + nanos"
  have T: "?T < 2 ^ 63" using assms(5,6) by simp
  have "parse_ptp_timestamp_ns (drop PTP_TIMESTAMP_OFFSET data) = Some (of_nat ?T)"
    using assms(1,3,4) by (simp add: parse_ptp_timestamp_ns_def ptp_sizes add.commute)
  moreover have "be_val (replicate 8 0) = 0" by (simp add: be_val_def numeral_eq_Suc)
  moreover have "i64 (sint (of_nat ?T :: u64)) = Some (int ?T)"
    using assms(5,6) unfolding sint_of_nat [OF T] by (simp add: i64_def)
  ultimately show ?thesis
    using assms(1,2) by (simp add: message_time_ns_def c_int64_def)
qed

text \<open>
  C20. A two-step synchronisation sets the clock: after the first SYNC and its FOLLOW_UP from the
  expected master, the clock shows the master's time. At the local time \<open>dt\<close> after the SYNC arrived it
  shows the time in the FOLLOW_UP plus \<open>dt\<close>, whenever the FOLLOW_UP itself came.
\<close>

theorem ptp_two_step_sets_clock:
  assumes "ptp_ok p" "pt_previous_offset_time_ms p = 0" "moderate (pt_filtered_offset_ns p)"
    and "44 \<le> length sync" "sync ! 0 AND 0x0F = 0x0"
    and "(push_bit 8 (ucast (sync ! 6)) OR ucast (sync ! 7) :: u16) AND 0x0200 \<noteq> 0"
    and "44 \<le> length fu" "fu ! 0 AND 0x0F = 0x8" "fu ! 30 = sync ! 30" "fu ! 31 = sync ! 31"
    and "\<forall>data \<in> {sync, fu}. pt_expected_clock_id p = 0 \<or> parse_ptp_clock_id data = Some (pt_expected_clock_id p)"
    and "take 8 (drop 8 fu) = replicate 8 0"
    and "be_val (take 6 (drop 34 fu)) = secs" "be_val (take 4 (drop 40 fu)) = nanos" "secs < 2 ^ 30" "nanos < 10 ^ 9"
    and "0 \<le> local" "local < 2 ^ 60" "0 \<le> dt" "dt < 2 ^ 60"
  shows "\<exists>p1 p2. process_ptp_message t1 local sync True p = Some p1 \<and>
    process_ptp_message t2 local2 fu False p1 = Some p2 \<and>
    ptp_clock_get_time_ns (local + dt) p2 = Some (of_int (int (secs * 10 ^ 9 + nanos) + dt))"
proof -
  let ?T = "secs * 10 ^ 9 + nanos"
  let ?seq = "push_bit 8 (ucast (sync ! 30)) OR ucast (sync ! 31) :: u16"
  let ?p1 = "p\<lparr>pt_sync_count := pt_sync_count p + 1, pt_last_sync_seq := ?seq, pt_last_sync_local_ns := local,
       pt_awaiting_followup := True\<rparr>"
  let ?p2 = "?p1\<lparr>pt_followup_count := pt_followup_count p + 1, pt_awaiting_followup := False\<rparr>"
  have ids: "\<exists>c. parse_ptp_clock_id data = Some c \<and> (pt_expected_clock_id p \<noteq> 0 \<longrightarrow> c = pt_expected_clock_id p)"
    if "data \<in> {sync, fu}" for data
    using that assms(4,7,11) by (auto simp: parse_ptp_clock_id_def)
  have ne: "sync \<noteq> []" "fu \<noteq> []" using assms(4,7) by auto
  have p1: "process_ptp_message t1 local sync True p = Some ?p1"
    using ids [of sync] ne assms(4-6) by (auto simp: process_ptp_message_def process_sync_def ptp_sizes)
  have T: "int ?T < 2 ^ 61" "0 \<le> int ?T" using assms(15,16) by simp_all
  have time: "message_time_ns fu = Some (of_nat ?T)"
    using assms(7,12-16) by (intro message_time) simp_all
  have sT: "sint (of_nat ?T :: u64) = int ?T" using T by (intro sint_of_nat) simp
  have off: "i64 (sint (of_nat ?T :: u64) - local) = Some (int ?T - local)"
    unfolding sT using T assms(17,18) by (simp add: i64_eq_Some)
  have "ptp_ok ?p2" "\<bar>pt_filtered_offset_ns ?p2\<bar> \<le> 2 ^ 62" "moderate (int ?T - local)"
    using assms(1,3,17,18) T by (simp_all add: ptp_ok_def moderate_def abs_le_iff)
  then obtain p2 where p2: "update_offset t2 (int ?T - local) ?p2 = Some p2" "pt_filtered_offset_ns p2 = int ?T - local"
    using update_offset_moderate [of ?p2 "int ?T - local" t2] assms(2) by auto
  have "process_ptp_message t2 local2 fu False ?p1 = Some p2"
    using ids [of fu] ne assms(7-10) time off p2(1)
    by (auto simp: process_ptp_message_def process_followup_def ptp_sizes)
  moreover have "ptp_clock_get_time_ns (local + dt) p2 = Some (of_int (int ?T + dt))"
    using T assms(19,20) by (simp add: ptp_clock_get_time_ns_def p2(2))
  ultimately show ?thesis using p1 by blast
qed

text \<open>A SYNC and its FOLLOW_UP: second 5 and 7 ns, from the clock 1.\<close>

definition example_ptp :: "u8 \<Rightarrow> u8 \<Rightarrow> bytes" where
  "example_ptp type flags = [type, 2, 0, 44, 0, 0, flags, 0, 0, 0, 0, 0, 0, 0, 0, 0, 0, 0, 0, 0, 0, 0, 0, 0, 0, 0, 0, 1,
     0, 1, 0, 9, 0, 0, 0, 0, 0, 0, 0, 5, 0, 0, 0, 7]"

lemma ptp_two_step_sets_clock_witness:
  "\<exists>p1 p2. process_ptp_message 1000 400 (example_ptp 0 2) True (ptp_clock_set_master_clock_id 1 ptp_zero) = Some p1 \<and>
    process_ptp_message 1010 9000 (example_ptp 8 0) False p1 = Some p2 \<and>
    ptp_clock_get_time_ns 500 p2 = Some 5000000107"
proof -
  let ?p = "ptp_clock_set_master_clock_id 1 ptp_zero"
  have len: "length (example_ptp t f) = 44" for t f by (simp add: example_ptp_def)
  have id: "parse_ptp_clock_id (example_ptp t f) = Some 1" for t f
    by (simp add: parse_ptp_clock_id_def example_ptp_def be_val_def)
  have r8: "replicate 8 (0 :: u8) = [0, 0, 0, 0, 0, 0, 0, 0]" by (simp add: numeral_eq_Suc)
  have "be_val (take 6 (drop 34 (example_ptp 8 0))) = 5" "be_val (take 4 (drop 40 (example_ptp 8 0))) = 7"
    "take 8 (drop 8 (example_ptp 8 0)) = replicate 8 0"
    by (simp_all add: example_ptp_def be_val_def r8)
  moreover have "example_ptp t f ! 0 = t" "example_ptp t f ! 6 = f" "example_ptp t f ! 7 = 0"
    "example_ptp t f ! 30 = 0" "example_ptp t f ! 31 = 9" for t f
    by (simp_all add: example_ptp_def)
  ultimately show ?thesis
    using ptp_two_step_sets_clock [of ?p "example_ptp 0 2" "example_ptp 8 0" 5 7 400 100 1000 1010 9000] len id
    by (simp add: ptp_clock_set_master_clock_id_def ptp_zero_def ptp_ok_def moderate_def push_bit_eq_mult)
qed

text \<open>
  Once a master is named, no other clock has a say: messages from any other clock, in any number
  and on either port, change neither the estimate, the lock nor the synchronisation under way; only
  the statistics count them.
\<close>

theorem ptp_other_clocks_ignored:
  assumes "pt_expected_clock_id p \<noteq> 0"
    and "\<forall>(t, l, data, ev) \<in> set msgs. 34 \<le> length data \<longrightarrow> parse_ptp_clock_id (take 256 data) \<noteq> Some (pt_expected_clock_id p)"
  shows "\<exists>rejected announces. foldl (\<lambda>q (t, l, data, ev). do { q \<leftarrow> q; ptp_receive t l data ev q }) (Some p) msgs =
    Some (p\<lparr>pt_rejected_master_count := rejected, pt_announce_count := announces\<rparr>)"
proof -
  define step where "step = (\<lambda>q (t, l, data, ev). do { q \<leftarrow> q; ptp_receive t l data ev q })"
  define clean where "clean = (\<lambda>q :: ptp_state. q\<lparr>pt_rejected_master_count := 0, pt_announce_count := 0\<rparr>)"
  have one: "\<exists>q''. step (Some q) (t, l, data, ev) = Some q'' \<and> clean q'' = clean p"
    if q: "clean q = clean p" and data: "34 \<le> length data \<longrightarrow>
      parse_ptp_clock_id (take 256 data) \<noteq> Some (pt_expected_clock_id p)" for q t l data ev
  proof (cases "length data < 34")
    case True
    then show ?thesis using q by (simp add: step_def ptp_receive_def process_ptp_message_def ptp_sizes)
  next
    case False
    then obtain c where c: "parse_ptp_clock_id (take 256 data) = Some c" "c \<noteq> pt_expected_clock_id p"
      using data by (auto simp: parse_ptp_clock_id_def)
    have id: "pt_expected_clock_id q = pt_expected_clock_id p"
      using arg_cong [OF q, of pt_expected_clock_id] by (simp add: clean_def)
    have ne: "data \<noteq> []" "34 \<le> length (take 256 data)" using False by auto
    then show ?thesis using assms(1) c False id q
      by (simp add: step_def ptp_receive_def process_ptp_message_def ptp_sizes Let_def clean_def)
  qed
  have "\<exists>q. foldl step (Some p) msgs = Some q \<and> clean q = clean p"
    using assms(2)
  proof (induction msgs rule: rev_induct)
    case (snoc m msgs)
    then obtain q where "foldl step (Some p) msgs = Some q" "clean q = clean p" by auto
    then show ?case using one [of q] snoc.prems by (cases m) auto
  qed simp
  then obtain q where q: "foldl step (Some p) msgs = Some q" "clean q = clean p" by blast
  have eq: "q = p\<lparr>pt_rejected_master_count := pt_rejected_master_count q, pt_announce_count := pt_announce_count q\<rparr>"
    using q(2) by (cases p, cases q) (simp add: clean_def)
  show ?thesis
    using q(1) unfolding step_def
    by (intro exI [of _ "pt_rejected_master_count q"] exI [of _ "pt_announce_count q"]) (simp only: eq [symmetric])
qed

lemma ptp_other_clocks_ignored_witness:
  "\<exists>rejected announces. foldl (\<lambda>q (t, l, data, ev). do { q \<leftarrow> q; ptp_receive t l data ev q })
      (Some (ptp_clock_set_master_clock_id 2 ptp_zero)) [(1, 2, replicate 44 0, True), (1, 2, [8], False)] =
    Some ((ptp_clock_set_master_clock_id 2 ptp_zero)\<lparr>pt_rejected_master_count := rejected, pt_announce_count := announces\<rparr>)"
  by (rule ptp_other_clocks_ignored)
    (simp_all add: ptp_clock_set_master_clock_id_def ptp_zero_def parse_ptp_clock_id_def be_val_def numeral_eq_Suc)

end
