(* ===== verification/Ntp_Clock.thy ===== *)
theory Ntp_Clock
  imports Ptp_Facts
begin

section \<open>The NTP-style timing client (main/network/ntp_clock.c)\<close>

text \<open>
  The timing client of AirPlay 1: it asks the sender for its time and keeps the offset of the exchange
  with the shortest network delay among the last eight. 64-bit signed arithmetic is exact or undefined,
  as for the PTP clock. Waiting for the task is the argument \<open>exits\<close>: whether it ends in time.
\<close>

definition TIMING_HISTORY_SIZE :: nat where "TIMING_HISTORY_SIZE = 8"
definition MIN_MEASUREMENTS :: nat where "MIN_MEASUREMENTS = 3"

record ntp_state =
  nt_running :: bool
  nt_task :: bool
  nt_socket :: int
  nt_remote_ip :: u32
  nt_remote_port :: u16
  nt_locked :: bool
  nt_offset_ns :: int
  nt_measurements :: "int list"
  nt_dispersions :: "int list"
  nt_count :: nat
  nt_index :: nat

definition local_us_to_ntp :: "int \<Rightarrow> u64" where
  "local_us_to_ntp local_us =
    (let secs = (of_int (local_us sdiv 1000000) :: u32);
         frac_us = (of_int (local_us smod 1000000) :: u64);
         frac = (ucast (push_bit 32 frac_us div 1000000) :: u32) in
     push_bit 32 (ucast secs) OR ucast frac)"

definition ntp_to_ns :: "u32 \<Rightarrow> u32 \<Rightarrow> int" where
  "ntp_to_ns secs frac = int (unat secs) * 1000000000 + (int (unat frac) * 1000000000) div 2 ^ 32"

definition packet_u32 :: "bytes \<Rightarrow> nat \<Rightarrow> u32 mem" where
  "packet_u32 packet at = do { bs \<leftarrow> rd_block packet at 4; Some (of_nat (be_val bs)) }"

text \<open>The measurement with the lowest dispersion, the current one first.\<close>

fun best_measurement :: "(int \<times> int) list \<Rightarrow> int \<times> int \<Rightarrow> int \<times> int" where
  "best_measurement [] best = best"
| "best_measurement ((dispersion, offset) # ms) best =
     best_measurement ms (if dispersion < fst best then (dispersion, offset) else best)"

definition store_measurement :: "int \<Rightarrow> int \<Rightarrow> ntp_state \<Rightarrow> ntp_state" where
  "store_measurement offset_ns dispersion_ns n =
    (let idx = nt_index n;
         n = n\<lparr>nt_measurements := (nt_measurements n)[idx := offset_ns],
           nt_dispersions := (nt_dispersions n)[idx := dispersion_ns],
           nt_index := (idx + 1) mod TIMING_HISTORY_SIZE,
           nt_count := if nt_count n < TIMING_HISTORY_SIZE then nt_count n + 1 else nt_count n\<rparr>;
         best = best_measurement (zip (take (nt_count n) (nt_dispersions n)) (nt_measurements n))
           (dispersion_ns, offset_ns);
         n = n\<lparr>nt_offset_ns := snd best\<rparr> in
     if \<not> nt_locked n \<and> nt_count n \<ge> MIN_MEASUREMENTS then n\<lparr>nt_locked := True\<rparr> else n)"

definition process_timing_response :: "bytes \<Rightarrow> int \<Rightarrow> ntp_state \<Rightarrow> ntp_state mem" where
  "process_timing_response packet arrival_ns n =
    (if length packet < 32 then Some n
     else do {
       origin_secs \<leftarrow> packet_u32 packet 8;
       origin_frac \<leftarrow> packet_u32 packet 12;
       receive_secs \<leftarrow> packet_u32 packet 16;
       receive_frac \<leftarrow> packet_u32 packet 20;
       transmit_secs \<leftarrow> packet_u32 packet 24;
       transmit_frac \<leftarrow> packet_u32 packet 28;
       let departure_ns = ntp_to_ns origin_secs origin_frac;
       let remote_receive_ns = ntp_to_ns receive_secs receive_frac;
       let remote_transmit_ns = ntp_to_ns transmit_secs transmit_frac;
       round_trip_ns \<leftarrow> i64 (arrival_ns - departure_ns);
       remote_processing_ns \<leftarrow> i64 (remote_transmit_ns - remote_receive_ns);
       network_delay_ns \<leftarrow> i64 (round_trip_ns - remote_processing_ns);
       offset_ns \<leftarrow> i64 (remote_transmit_ns + network_delay_ns sdiv 2);
       offset_ns \<leftarrow> i64 (offset_ns - arrival_ns);
       let dispersion_ns = network_delay_ns sdiv 2;
       if round_trip_ns < 0 \<or> round_trip_ns > 1000000000 then Some n
       else Some (store_measurement offset_ns dispersion_ns n)
     })"

text \<open>The request at the local time \<open>now_us\<close>: header, then origin, receive and transmit time.\<close>

definition timing_request :: "int \<Rightarrow> bytes" where
  "timing_request now_us = [0x80, 0xD2, 0, 7] @ replicate 4 0 @ replicate 8 0 @ replicate 8 0 @
     be_bytes 8 (local_us_to_ntp now_us)"

text \<open>One turn of the task: a request when one is due, and what a datagram does.\<close>

definition timing_poll :: "u32 \<Rightarrow> u32 \<Rightarrow> int \<Rightarrow> bytes option \<times> u32" where
  "timing_poll now last_request now_us =
    (if now - last_request \<ge> 3000 then (Some (timing_request now_us), now) else (None, last_request))"

definition timing_receive :: "bytes \<Rightarrow> int \<Rightarrow> ntp_state \<Rightarrow> ntp_state mem" where
  "timing_receive datagram arrival_ns n =
    (let packet = take 64 datagram in
     if length packet \<ge> 2 then do {
       type \<leftarrow> rd packet 1;
       if type = 0xD3 then process_timing_response packet arrival_ns n else Some n
     }
     else Some n)"

definition ntp_clock_stop :: "bool \<Rightarrow> ntp_state \<Rightarrow> ntp_state \<times> int list" where
  "ntp_clock_stop exits n =
    (if \<not> nt_running n then (n, [])
     else let closes = (if nt_socket n \<ge> 0 then [nt_socket n] else []) in
       (n\<lparr>nt_running := False, nt_socket := if nt_socket n \<ge> 0 then -1 else nt_socket n,
          nt_task := nt_task n \<and> \<not> exits, nt_locked := False, nt_count := 0\<rparr>, closes))"

text \<open>Start: \<open>sock\<close> is what \<open>socket\<close> returns, \<open>created\<close> whether the task was created.\<close>

definition ntp_clock_start_client :: "bool \<Rightarrow> int \<Rightarrow> bool \<Rightarrow> u32 \<Rightarrow> u16 \<Rightarrow> ntp_state \<Rightarrow> esp_err \<times> ntp_state \<times> int list" where
  "ntp_clock_start_client exits sock created remote_ip remote_port n =
    (if nt_running n \<and> nt_remote_ip n = remote_ip \<and> nt_remote_port n = remote_port then (ESP_OK, n, [])
     else let (n, closes) = (if nt_running n then ntp_clock_stop exits n else (n, [])) in
       if nt_task n \<and> \<not> exits then (ESP_ERR_INVALID_STATE, n, closes)
       else let n = n\<lparr>nt_task := False, nt_socket := sock\<rparr> in
         if sock < 0 then (ESP_FAIL, n, closes)
         else let n = n\<lparr>nt_remote_ip := remote_ip, nt_remote_port := remote_port, nt_locked := False, nt_offset_ns := 0,
                    nt_count := 0, nt_index := 0, nt_measurements := replicate TIMING_HISTORY_SIZE 0,
                    nt_dispersions := replicate TIMING_HISTORY_SIZE 0, nt_running := True\<rparr> in
           if \<not> created then (ESP_FAIL, n\<lparr>nt_socket := -1, nt_running := False\<rparr>, closes @ [sock])
           else (ESP_OK, n\<lparr>nt_task := True\<rparr>, closes))"

definition ntp_clock_is_locked :: "ntp_state \<Rightarrow> bool" where
  "ntp_clock_is_locked n = nt_locked n"

definition ntp_clock_get_offset_ns :: "ntp_state \<Rightarrow> int" where
  "ntp_clock_get_offset_ns n = nt_offset_ns n"

subsection \<open>Timestamps\<close>

lemma unat_of_int_u32: "0 \<le> i \<Longrightarrow> i < 2 ^ 32 \<Longrightarrow> unat (of_int i :: u32) = nat i"
  by (simp add: unsigned_of_int take_bit_int_eq_self)

lemma unat_of_int_u64: "0 \<le> i \<Longrightarrow> i < 2 ^ 64 \<Longrightarrow> unat (of_int i :: u64) = nat i"
  by (simp add: unsigned_of_int take_bit_int_eq_self)

lemma join_u32: "unat (push_bit 32 (ucast (a :: u32)) OR ucast (b :: u32) :: u64) = unat a * 2 ^ 32 + unat b"
proof -
  have bits: "bit (push_bit 32 (ucast a) :: u64) k \<longrightarrow> \<not> bit (ucast b :: u64) k" for k
    using bit_imp_le_length [of b k] by (auto simp: bit_simps)
  have "(push_bit 32 (ucast a) OR ucast b :: u64) = push_bit 32 (ucast a) + ucast b"
    using bits by (intro disjunctive_add [symmetric]) blast
  also have "\<dots> = of_nat (unat a * 2 ^ 32 + unat b)"
    by (simp add: push_bit_eq_mult)
  finally have eq: "(push_bit 32 (ucast a) OR ucast b :: u64) = of_nat (unat a * 2 ^ 32 + unat b)" .
  have "unat a < 2 ^ 32" "unat b < 2 ^ 32" using unat_less_exp [of a] unat_less_exp [of b] by simp_all
  then have "unat a * 2 ^ 32 + unat b < 2 ^ 64" by simp
  then show ?thesis unfolding eq by (intro unat_of_nat_id) simp
qed

lemma frac_bounds:
  assumes "0 \<le> (v :: int)" "v < 1000000"
  shows "0 \<le> v * 2 ^ 32 div 1000000" "v * 2 ^ 32 div 1000000 < 2 ^ 32"
    "v * 1000 - 1 \<le> (v * 2 ^ 32 div 1000000) * 1000000000 div 2 ^ 32"
    "(v * 2 ^ 32 div 1000000) * 1000000000 div 2 ^ 32 \<le> v * 1000"
  using assms by auto

lemma local_us_to_ntp_parts:
  assumes "0 \<le> us" "us < 2 ^ 32 * 1000000"
  shows "unat (local_us_to_ntp us) = nat (us div 1000000) * 2 ^ 32 + nat ((us mod 1000000) * 2 ^ 32 div 1000000)"
    "us div 1000000 < 2 ^ 32" "(us mod 1000000) * 2 ^ 32 div 1000000 < 2 ^ 32"
proof -
  let ?u = "us div 1000000" and ?v = "us mod 1000000"
  show u: "?u < 2 ^ 32" using assms(2) by simp
  have v: "0 \<le> ?v" "?v < 1000000" by simp_all
  show f: "?v * 2 ^ 32 div 1000000 < 2 ^ 32" by (rule frac_bounds(2) [OF v])
  have sd: "us sdiv 1000000 = ?u" "us smod 1000000 = ?v"
    using assms(1) by (simp_all add: signed_divide_int_def signed_modulo_int_def sgn_if minus_div_mult_eq_mod)
  have vv: "unat (push_bit 32 (of_int ?v :: u64) div 1000000) = nat (?v * 2 ^ 32 div 1000000)"
  proof -
    have p: "push_bit 32 (of_int ?v :: u64) = of_int (?v * 2 ^ 32)" by (simp add: push_bit_eq_mult)
    have "unat (push_bit 32 (of_int ?v :: u64)) = nat (?v * 2 ^ 32)"
      unfolding p using v by (intro unat_of_int_u64) simp_all
    then show ?thesis using v by (simp add: unat_div nat_div_distrib)
  qed
  have "unat (ucast (push_bit 32 (of_int ?v :: u64) div 1000000) :: u32) = nat (?v * 2 ^ 32 div 1000000)"
    using f by (simp add: unsigned_ucast_eq vv take_bit_nat_eq_self nat_less_iff)
  then show "unat (local_us_to_ntp us) = nat ?u * 2 ^ 32 + nat (?v * 2 ^ 32 div 1000000)"
    using u assms(1) unfolding local_us_to_ntp_def Let_def sd join_u32 by (simp add: unat_of_int_u32)
qed

end
