(* ===== verification/Ntp_Facts.thy ===== *)
theory Ntp_Facts
  imports Ntp_Clock
begin

section \<open>The error of the timing client\<close>

subsection \<open>One exchange\<close>

lemma be_val_append: "be_val (xs @ ys) = be_val xs * 256 ^ length ys + be_val ys"
  using be_foldl [of "be_val xs" ys] by (simp add: be_val_def)

definition packet_ns :: "bytes \<Rightarrow> nat \<Rightarrow> int" where
  "packet_ns packet at = ntp_to_ns (of_nat (be_val (take 4 (drop at packet)))) (of_nat (be_val (take 4 (drop (at + 4) packet))))"

lemma be_bytes_halves:
  "be_val (take 4 (be_bytes 8 w)) = unat w div 2 ^ 32" "be_val (drop 4 (be_bytes 8 w)) = unat w mod 2 ^ 32"
proof -
  let ?h = "take 4 (be_bytes 8 w)" and ?l = "drop 4 (be_bytes 8 w)"
  have "be_val (be_bytes 8 w) = unat w"
    using unat_less_exp [of w] by (simp add: be_val_be_bytes)
  then have s: "be_val ?h * 2 ^ 32 + be_val ?l = unat w" using be_val_append [of ?h ?l] by simp
  have "be_val ?l < 2 ^ 32" using be_val_less [of ?l] by simp
  then show "be_val ?h = unat w div 2 ^ 32" "be_val ?l = unat w mod 2 ^ 32"
    unfolding s [symmetric] by simp_all
qed

lemma halves_of_sum: "(f :: nat) < 2 ^ 32 \<Longrightarrow> (u * 2 ^ 32 + f) div 2 ^ 32 = u" "f < 2 ^ 32 \<Longrightarrow> (u * 2 ^ 32 + f) mod 2 ^ 32 = f"
  by simp_all

text \<open>
  An honest exchange with a clock that is \<open>\<theta>\<close> ahead: the request left at \<open>us\<close>, took \<open>d1\<close> to arrive, and
  the answer, which echoes the transmit time of the request, took \<open>d2\<close>.
\<close>

definition exchange :: "int \<Rightarrow> int \<times> int \<times> int \<times> bytes \<times> int \<Rightarrow> bool" where
  "exchange \<theta> = (\<lambda>(us, d1, d2, packet, arrival).
     32 \<le> length packet \<and> take 8 (drop 8 packet) = drop 24 (timing_request us) \<and>
     0 \<le> us \<and> us < 2 ^ 32 * 1000000 \<and> 0 \<le> d1 \<and> 0 \<le> d2 \<and>
     packet_ns packet 16 = us * 1000 + d1 + \<theta> \<and> packet_ns packet 24 = arrival - d2 + \<theta> \<and>
     us * 1000 + d1 \<le> arrival - d2 \<and> arrival < us * 1000 + 1000000000)"

lemma ntp_to_ns_bounds: "0 \<le> ntp_to_ns s f" "ntp_to_ns s f < 2 ^ 62 + 2 ^ 30"
proof -
  have b: "0 \<le> x * 1000000000 + y * 1000000000 div 2 ^ 32 \<and> x * 1000000000 + y * 1000000000 div 2 ^ 32 < 2 ^ 62 + 2 ^ 30"
    if "0 \<le> x" "x < 4294967296" "0 \<le> y" "y < 4294967296" for x y :: int
    using that by auto
  have "int (unat s) < 4294967296" "int (unat f) < 4294967296"
    using uint_lt2p [of s] uint_lt2p [of f] by simp_all
  then show "0 \<le> ntp_to_ns s f" "ntp_to_ns s f < 2 ^ 62 + 2 ^ 30"
    unfolding ntp_to_ns_def using b [of "int (unat s)" "int (unat f)"] by (simp_all only: of_nat_0_le_iff)
qed

lemma ntp_to_ns_of_nat:
  assumes "0 \<le> u" "u < 2 ^ 32" "0 \<le> f" "f < 2 ^ 32"
  shows "ntp_to_ns (of_nat (nat u)) (of_nat (nat f)) = u * 1000000000 + f * 1000000000 div 2 ^ 32"
proof -
  have "unat (of_nat (nat u) :: u32) = nat u" "unat (of_nat (nat f) :: u32) = nat f"
    using assms by (intro unat_of_nat_id; simp add: nat_less_iff)+
  then show ?thesis using assms by (simp add: ntp_to_ns_def)
qed

lemma echoed_time:
  assumes "32 \<le> length packet" "take 8 (drop 8 packet) = drop 24 (timing_request us)" "0 \<le> us" "us < 2 ^ 32 * 1000000"
  shows "us * 1000 - 1 \<le> packet_ns packet 8 \<and> packet_ns packet 8 \<le> us * 1000"
proof -
  have o8: "take 8 (drop 8 packet) = be_bytes 8 (local_us_to_ntp us)"
    using assms(2) by (simp add: timing_request_def)
  have "take 4 (drop 8 packet) = take 4 (take 8 (drop 8 packet))" "take 4 (drop 12 packet) = drop 4 (take 8 (drop 8 packet))"
    by (simp_all add: drop_take)
  then have v: "be_val (take 4 (drop 8 packet)) = unat (local_us_to_ntp us) div 2 ^ 32"
    "be_val (take 4 (drop 12 packet)) = unat (local_us_to_ntp us) mod 2 ^ 32"
    unfolding o8 by (simp_all only: be_bytes_halves)
  let ?u = "us div 1000000" and ?v = "us mod 1000000"
  let ?f = "?v * 2 ^ 32 div 1000000"
  note p = local_us_to_ntp_parts [OF assms(3,4)]
  have u0: "0 \<le> ?u" "0 \<le> ?f" using assms(3) by simp_all
  have f: "nat ?f < 2 ^ 32" using p(3) by (simp add: nat_less_iff)
  have "unat (local_us_to_ntp us) div 2 ^ 32 = nat ?u" "unat (local_us_to_ntp us) mod 2 ^ 32 = nat ?f"
    unfolding p(1) by (rule halves_of_sum [OF f])+
  then have "packet_ns packet 8 = ntp_to_ns (of_nat (nat ?u)) (of_nat (nat ?f))"
    using v by (simp add: packet_ns_def)
  also have "\<dots> = ?u * 1000000000 + ?f * 1000000000 div 2 ^ 32"
    by (rule ntp_to_ns_of_nat [OF u0(1) p(2) u0(2) p(3)])
  finally have e: "packet_ns packet 8 = ?u * 1000000000 + ?f * 1000000000 div 2 ^ 32" .
  have v: "0 \<le> ?v" "?v < 1000000" by simp_all
  have "us = ?u * 1000000 + ?v" by simp
  then have "us * 1000 = ?u * 1000000000 + ?v * 1000" by linarith
  then show ?thesis unfolding e using frac_bounds(3,4) [OF v] by linarith
qed

lemma exchange_stored:
  assumes "exchange \<theta> (us, d1, d2, packet, arrival)"
  shows "\<exists>offset dispersion. process_timing_response packet arrival n = Some (store_measurement offset dispersion n) \<and>
    \<bar>offset - \<theta>\<bar> \<le> dispersion + 1 \<and> 2 * dispersion \<le> d1 + d2 + 1"
proof -
  let ?dp = "packet_ns packet 8" and ?rx = "packet_ns packet 16" and ?tx = "packet_ns packet 24"
  have ex: "32 \<le> length packet" "0 \<le> us" "us < 2 ^ 32 * 1000000" "0 \<le> d1" "0 \<le> d2" "?rx = us * 1000 + d1 + \<theta>"
    "?tx = arrival - d2 + \<theta>" "us * 1000 + d1 \<le> arrival - d2" "arrival < us * 1000 + 1000000000"
    using assms by (simp_all add: exchange_def)
  have dp: "us * 1000 - 1 \<le> ?dp" "?dp \<le> us * 1000"
    using echoed_time [of packet us] assms by (auto simp: exchange_def)
  have tx: "0 \<le> ?tx" "?tx < 2 ^ 62 + 2 ^ 30" "0 \<le> ?rx" "?rx < 2 ^ 62 + 2 ^ 30"
    unfolding packet_ns_def by (rule ntp_to_ns_bounds)+
  define nd where "nd = arrival - ?dp - (?tx - ?rx)"
  have nd: "0 \<le> nd" "d1 + d2 \<le> nd" "nd \<le> d1 + d2 + 1" "nd \<le> 1000000000"
    using ex dp by (auto simp: nd_def)
  have half: "nd sdiv 2 = nd div 2" using nd(1) by (simp add: signed_divide_int_def sgn_if)
  have pn: "ntp_to_ns (of_nat (be_val (take 4 (drop 8 packet)))) (of_nat (be_val (take 4 (drop 12 packet)))) = ?dp"
    "ntp_to_ns (of_nat (be_val (take 4 (drop 16 packet)))) (of_nat (be_val (take 4 (drop 20 packet)))) = ?rx"
    "ntp_to_ns (of_nat (be_val (take 4 (drop 24 packet)))) (of_nat (be_val (take 4 (drop 28 packet)))) = ?tx"
    by (simp_all add: packet_ns_def)
  have i: "i64 (arrival - ?dp) = Some (arrival - ?dp)" "i64 (?tx - ?rx) = Some (?tx - ?rx)" "i64 nd = Some nd"
    "i64 (?tx + nd div 2) = Some (?tx + nd div 2)" "i64 (?tx + nd div 2 - arrival) = Some (?tx + nd div 2 - arrival)"
    using ex dp tx nd by (simp_all add: i64_eq_Some)
  have rt: "\<not> (arrival - ?dp < 0 \<or> arrival - ?dp > 1000000000)" using ex dp by linarith
  have "process_timing_response packet arrival n = Some (store_measurement (?tx + nd div 2 - arrival) (nd div 2) n)"
    using ex(1) i rt half
    by (simp add: process_timing_response_def packet_u32_def Let_def pn nd_def [symmetric])
  moreover have "\<bar>?tx + nd div 2 - arrival - \<theta>\<bar> \<le> nd div 2 + 1" using ex nd by auto
  moreover have "2 * (nd div 2) \<le> d1 + d2 + 1" using nd by auto
  ultimately show ?thesis by blast
qed


subsection \<open>The history of measurements\<close>

lemma best_measurement_least:
  "best_measurement ms b \<in> insert b (set ms) \<and> (\<forall>m \<in> insert b (set ms). fst (best_measurement ms b) \<le> fst m)"
proof (induction ms b rule: best_measurement.induct)
  case (2 d off ms b)
  then show ?case by (cases "d < fst b") auto
qed simp

text \<open>
  After the dispersions \<open>ds\<close>: the ring holds the last eight of them, and every measurement in it is
  as good as its dispersion says.
\<close>

definition ring_ok :: "int \<Rightarrow> int list \<Rightarrow> ntp_state \<Rightarrow> bool" where
  "ring_ok \<theta> ds n \<longleftrightarrow> length (nt_measurements n) = 8 \<and> length (nt_dispersions n) = 8 \<and>
     nt_count n = min (length ds) 8 \<and> nt_index n = length ds mod 8 \<and> (nt_locked n \<longleftrightarrow> 3 \<le> length ds) \<and>
     (\<forall>k < nt_count n. \<bar>nt_measurements n ! k - \<theta>\<bar> \<le> nt_dispersions n ! k + 1) \<and>
     (\<forall>i < length ds. length ds - 8 \<le> i \<longrightarrow> nt_dispersions n ! (i mod 8) = ds ! i) \<and>
     (ds \<noteq> [] \<longrightarrow> (\<forall>d \<in> set (drop (length ds - 8) ds). \<bar>nt_offset_ns n - \<theta>\<bar> \<le> d + 1))"

lemma ring_slot_free: "i < L \<Longrightarrow> Suc L - 8 \<le> i \<Longrightarrow> L mod 8 \<noteq> i mod (8 :: nat)"
proof
  assume "i < L" "Suc L - 8 \<le> i" and eq: "L mod 8 = i mod 8"
  then have "0 < L - i" "L - i < 8" by simp_all
  moreover have "8 dvd L - i" using eq \<open>i < L\<close> by (metis mod_eq_dvd_iff_nat less_imp_le)
  ultimately show False by (auto dest: dvd_imp_le)
qed

lemma set_drop_nth: "set (drop k xs) = {xs ! i |i. k \<le> i \<and> i < length xs}"
proof -
  have "x \<in> set (drop k xs) \<longleftrightarrow> (\<exists>i. k \<le> i \<and> i < length xs \<and> xs ! i = x)" for x
  proof
    assume "x \<in> set (drop k xs)"
    then obtain j where "j < length xs - k" "xs ! (k + j) = x" by (auto simp: in_set_conv_nth)
    then show "\<exists>i. k \<le> i \<and> i < length xs \<and> xs ! i = x" by (intro exI [of _ "k + j"]) simp
  next
    assume "\<exists>i. k \<le> i \<and> i < length xs \<and> xs ! i = x"
    then obtain i where "k \<le> i" "i < length xs" "xs ! i = x" by blast
    then show "x \<in> set (drop k xs)" by (auto simp: in_set_conv_nth intro!: exI [of _ "i - k"])
  qed
  then show ?thesis by auto
qed

lemma ring_ok_store:
  assumes inv: "ring_ok \<theta> ds n" and good: "\<bar>off - \<theta>\<bar> \<le> d + 1"
  shows "ring_ok \<theta> (ds @ [d]) (store_measurement off d n)"
proof -
  let ?L = "length ds" and ?M = "(nt_measurements n)[length ds mod 8 := off]" and ?D = "(nt_dispersions n)[length ds mod 8 := d]"
  let ?c = "min (Suc ?L) 8"
  let ?best = "best_measurement (zip (take ?c ?D) ?M) (d, off)"
  have len: "length (nt_measurements n) = 8" "length (nt_dispersions n) = 8" and c: "nt_count n = min ?L 8"
    and idx: "nt_index n = ?L mod 8" and lk: "nt_locked n \<longleftrightarrow> 3 \<le> ?L"
    using inv by (simp_all add: ring_ok_def)
  have all: "\<bar>?M ! k - \<theta>\<bar> \<le> ?D ! k + 1" if k: "k < ?c" for k
  proof (cases "k = ?L mod 8")
    case True then show ?thesis using good len by simp
  next
    case False
    then have "k < min ?L 8" using k by (cases "k < ?L") (auto simp: less_Suc_eq)
    then show ?thesis using inv False c by (simp add: ring_ok_def)
  qed
  have ring: "?D ! (i mod 8) = (ds @ [d]) ! i" if i: "i < Suc ?L" "Suc ?L - 8 \<le> i" for i
  proof (cases "i = ?L")
    case True then show ?thesis using len by simp
  next
    case False
    then have "?L mod 8 \<noteq> i mod 8" using i by (intro ring_slot_free) simp_all
    then show ?thesis using inv i False by (simp add: ring_ok_def nth_append)
  qed
  have mem: "(?D ! k, ?M ! k) \<in> set (zip (take ?c ?D) ?M)" if "k < ?c" for k
    using that len by (auto simp: set_zip intro!: exI [of _ k])
  have "\<bar>snd ?best - \<theta>\<bar> \<le> fst ?best + 1"
  proof -
    have "?best \<in> insert (d, off) (set (zip (take ?c ?D) ?M))" using best_measurement_least by blast
    then show ?thesis using good all len by (auto simp: set_zip)
  qed
  moreover have "fst ?best \<le> e" if e: "e \<in> set (drop (Suc ?L - 8) (ds @ [d]))" for e
  proof -
    obtain i where i: "Suc ?L - 8 \<le> i" "i < Suc ?L" "e = (ds @ [d]) ! i" 
      using e unfolding set_drop_nth by auto
    then have "i mod 8 < ?c" by (cases "i < 8") auto
    then show ?thesis using mem [of "i mod 8"] ring [of i] i best_measurement_least [of "zip (take ?c ?D) ?M" "(d, off)"] by force
  qed
  ultimately have near: "\<bar>snd ?best - \<theta>\<bar> \<le> e + 1" if "e \<in> set (drop (Suc ?L - 8) (ds @ [d]))" for e
    using that by force
  have cnt: "(if min ?L 8 < 8 then min ?L 8 + 1 else min ?L 8) = ?c" by simp
  have st: "nt_measurements (store_measurement off d n) = ?M" "nt_dispersions (store_measurement off d n) = ?D"
    "nt_count (store_measurement off d n) = ?c" "nt_index (store_measurement off d n) = Suc ?L mod 8"
    "nt_offset_ns (store_measurement off d n) = snd ?best" "nt_locked (store_measurement off d n) \<longleftrightarrow> 3 \<le> Suc ?L"
    using lk by (auto simp: store_measurement_def Let_def idx c TIMING_HISTORY_SIZE_def MIN_MEASUREMENTS_def cnt mod_Suc_eq)
  show ?thesis
    unfolding ring_ok_def st using all ring near len by (simp add: Suc_le_eq)
qed


subsection \<open>A run of exchanges\<close>

fun timing_run :: "(bytes \<times> int) list \<Rightarrow> ntp_state \<Rightarrow> ntp_state mem" where
  "timing_run [] n = Some n"
| "timing_run ((packet, arrival) # rs) n = do { n \<leftarrow> process_timing_response packet arrival n; timing_run rs n }"

fun datagram :: "int \<times> int \<times> int \<times> bytes \<times> int \<Rightarrow> bytes \<times> int" where
  "datagram (us, d1, d2, packet, arrival) = (packet, arrival)"

fun disperses :: "int \<Rightarrow> int \<times> int \<times> int \<times> bytes \<times> int \<Rightarrow> bool" where
  "disperses d (us, d1, d2, packet, arrival) \<longleftrightarrow> 2 * d \<le> d1 + d2 + 1"

lemma timing_run_ring:
  assumes "\<forall>e \<in> set es. exchange \<theta> e" "ring_ok \<theta> ds n"
  shows "\<exists>n' ds'. timing_run (map datagram es) n = Some n' \<and>
    ring_ok \<theta> (ds @ ds') n' \<and> list_all2 disperses ds' es"
  using assms
proof (induction es arbitrary: ds n)
  case Nil
  then show ?case by (auto intro!: exI [of _ "[]"])
next
  case (Cons e es)
  obtain us d1 d2 packet arrival where e: "e = (us, d1, d2, packet, arrival)" by (cases e)
  then have "exchange \<theta> (us, d1, d2, packet, arrival)" using Cons.prems(1) by simp
  then obtain off d where s: "process_timing_response packet arrival n = Some (store_measurement off d n)"
    "\<bar>off - \<theta>\<bar> \<le> d + 1" "2 * d \<le> d1 + d2 + 1"
    using exchange_stored by blast
  have "ring_ok \<theta> (ds @ [d]) (store_measurement off d n)" using Cons.prems(2) s(2) by (rule ring_ok_store)
  then obtain n' ds' where "timing_run (map datagram es) (store_measurement off d n) = Some n'"
    "ring_ok \<theta> ((ds @ [d]) @ ds') n'" "list_all2 disperses ds' es"
    using Cons.IH [of "ds @ [d]" "store_measurement off d n"] Cons.prems(1) by auto
  then show ?case using s unfolding e by (intro exI [of _ n'] exI [of _ "d # ds'"]) simp
qed

text \<open>
  C22. The timing client's estimate is as good as the best of the last eight exchanges: after starting
  the client and any number of honest exchanges with a clock that is \<open>\<theta>\<close> ahead (each echoes the
  request's transmit time and is answered within a second), the offset is within half the round trip,
  plus two nanoseconds of rounding, of \<open>\<theta>\<close> for every one of the last eight exchanges, however slow
  the others were, no 64-bit computation overflows, and the clock is locked exactly from the third
  exchange on.
\<close>

theorem ntp_estimate_error:
  assumes start: "ntp_clock_start_client exits sock True ip port n = (ESP_OK, n0, closes)" "\<not> nt_running n"
    and honest: "\<forall>e \<in> set es. exchange \<theta> e"
  shows "\<exists>n'. timing_run (map datagram es) n0 = Some n' \<and>
    (ntp_clock_is_locked n' \<longleftrightarrow> 3 \<le> length es) \<and>
    (\<forall>(us, d1, d2, packet, arrival) \<in> set (drop (length es - 8) es).
       \<bar>ntp_clock_get_offset_ns n' - \<theta>\<bar> \<le> (d1 + d2) div 2 + 2)"
proof -
  have "ring_ok \<theta> [] n0" using start
    by (auto simp: ntp_clock_start_client_def Let_def ring_ok_def TIMING_HISTORY_SIZE_def split: if_splits)
  then obtain n' ds' where r: "timing_run (map datagram es) n0 = Some n'"
    and ok: "ring_ok \<theta> ds' n'" and ds: "list_all2 disperses ds' es"
    using timing_run_ring [OF honest, of "[]" n0] by auto
  have len: "length ds' = length es" using ds by (rule list_all2_lengthD)
  have "\<bar>nt_offset_ns n' - \<theta>\<bar> \<le> (d1 + d2) div 2 + 2"
    if "(us, d1, d2, packet, arrival) \<in> set (drop (length es - 8) es)" for us d1 d2 packet arrival
  proof -
    obtain i where i: "length es - 8 \<le> i" "i < length es" "es ! i = (us, d1, d2, packet, arrival)"
      using \<open>_ \<in> set (drop (length es - 8) es)\<close> unfolding set_drop_nth by auto
    have "2 * ds' ! i \<le> d1 + d2 + 1" using list_all2_nthD2 [OF ds i(2)] i(3) by simp
    moreover have "ds' ! i \<in> set (drop (length ds' - 8) ds')" unfolding set_drop_nth using i len by auto
    then have "\<bar>nt_offset_ns n' - \<theta>\<bar> \<le> ds' ! i + 1" using ok by (auto simp: ring_ok_def)
    ultimately show ?thesis by linarith
  qed
  moreover have "nt_locked n' \<longleftrightarrow> 3 \<le> length es" using ok len by (simp add: ring_ok_def)
  ultimately show ?thesis using r by (auto simp: ntp_clock_is_locked_def ntp_clock_get_offset_ns_def)
qed


definition sample_exchange :: "int \<times> int \<times> int \<times> bytes \<times> int" where
  "sample_exchange = (1000000000, 500000000, 10,
     replicate 8 0 @ [0, 0, 3, 0xE8, 0, 0, 0, 0] @ [0, 0, 3, 0xED, 0x80, 0, 0, 0] @ [0, 0, 3, 0xED, 0x80, 0, 0, 0], 1000500000010)"

lemma sample_exchange_honest: "exchange 5000000000 sample_exchange"
proof -
  have "local_us_to_ntp 1000000000 = 0x3E800000000"
    by (simp add: local_us_to_ntp_def Let_def signed_divide_int_def signed_modulo_int_def push_bit_eq_mult)
  then have "drop 24 (timing_request 1000000000) = [0, 0, 3, 0xE8, 0, 0, 0, 0]"
    by (simp add: timing_request_def be_bytes_def upt_rec)
  moreover have "be_val [0, 0, 3, 0xED] = nat 1005" "be_val [0x80, 0, 0, 0] = nat 2147483648"
    by (simp_all add: be_val_def)
  then have "packet_ns (fst (snd (snd (snd sample_exchange)))) 16 = 1005500000000"
    "packet_ns (fst (snd (snd (snd sample_exchange)))) 24 = 1005500000000"
    using ntp_to_ns_of_nat [of 1005 2147483648] by (simp_all add: packet_ns_def sample_exchange_def)
  ultimately show ?thesis
    by (simp add: sample_exchange_def exchange_def)
qed

definition idle_timing :: ntp_state where
  "idle_timing = \<lparr>nt_running = False, nt_task = False, nt_socket = -1, nt_remote_ip = 0, nt_remote_port = 0, nt_locked = False,
     nt_offset_ns = 0, nt_measurements = replicate 8 0, nt_dispersions = replicate 8 0, nt_count = 0, nt_index = 0\<rparr>"

lemma ntp_estimate_error_witness:
  "\<exists>n'. timing_run (map datagram (replicate 3 sample_exchange)) (fst (snd (ntp_clock_start_client True 54 True 1 6002 idle_timing))) = Some n' \<and>
     ntp_clock_is_locked n' \<and> \<bar>ntp_clock_get_offset_ns n' - 5000000000\<bar> \<le> 250000007"
proof -
  have start: "ntp_clock_start_client True 54 True 1 6002 idle_timing =
      (ESP_OK, fst (snd (ntp_clock_start_client True 54 True 1 6002 idle_timing)), [])"
    by (simp add: ntp_clock_start_client_def idle_timing_def Let_def)
  have "\<not> nt_running idle_timing" by (simp add: idle_timing_def)
  from ntp_estimate_error [OF start this, of "replicate 3 sample_exchange" 5000000000]
  show ?thesis by (auto simp: sample_exchange_honest numeral_3_eq_3) (auto simp: sample_exchange_def)
qed

end
