(* ===== verification/Audio_Timing.thy ===== *)
theory Audio_Timing
  imports Audio_Buffer Audio_Format Ntp_Clock
begin

section \<open>The playout engine (main/audio/audio_timing.c)\<close>

text \<open>
  The playback task calls \<open>audio_timing_read\<close> for one frame of samples at a time. The engine takes the
  oldest frame of the jitter buffer, compares its scheduled play time with the clocks, and plays it,
  holds it back (\<open>tm_pending_frame\<close>) or drops it. Everything the outside world answers during a call is
  an argument: the clock values, the state of the PTP and the NTP clock at the moment they are asked,
  and the depth of the output queue. Times are 64-bit signed, exact or undefined as in \<open>Ptp_Clock\<close>. The
  texts of log messages are left out; the one of them whose value divides by the sample rate is kept for
  that division.
\<close>

subsection \<open>State\<close>

definition DEFAULT_BUFFER_LATENCY_US :: u32 where "DEFAULT_BUFFER_LATENCY_US = 2000"
definition PIPELINE_LATENCY_US :: u32 where "PIPELINE_LATENCY_US = 5000"
definition MIN_STARTUP_FRAMES :: u32 where "MIN_STARTUP_FRAMES = 4"
definition POS_SERVO_FILTER_DIV :: int where "POS_SERVO_FILTER_DIV = 16"
definition POS_SERVO_ENGAGE_US :: int where "POS_SERVO_ENGAGE_US = 5000"
definition POS_SERVO_DISENGAGE_US :: int where "POS_SERVO_DISENGAGE_US = 1500"
definition POS_SERVO_TRIM_INTERVAL :: u8 where "POS_SERVO_TRIM_INTERVAL = 4"
definition POS_SERVO_INNOV_CLAMP_US :: int where "POS_SERVO_INNOV_CLAMP_US = 1500"
definition AUDIO_OUT_CHANNELS :: nat where "AUDIO_OUT_CHANNELS = 2"
definition TIMING_THRESHOLD_US :: int where "TIMING_THRESHOLD_US = 25000"
definition RT_TIMING_THRESHOLD_US :: int where "RT_TIMING_THRESHOLD_US = 50000"
definition MAX_CONSECUTIVE_EARLY :: int where "MAX_CONSECUTIVE_EARLY = 50"
definition MAX_DRAIN_ATTEMPTS :: nat where "MAX_DRAIN_ATTEMPTS = 64"

record audio_timing =
  tm_output_latency_us :: u32
  tm_target_buffer_frames :: u32
  tm_nominal_frame_samples :: u32
  tm_playout_started :: bool
  tm_playing :: bool
  tm_anchor_valid :: bool
  tm_anchor_network_time_ns :: u64
  tm_anchor_rtp_time :: u32
  tm_anchor_local_time_ns :: int
  tm_ready_time_us :: int
  tm_ptp_locked :: bool
  tm_pending_frame :: "audio_frame option"
  tm_pending_frame_len :: nat
  tm_pending_frame_capacity :: nat
  tm_pending_valid :: bool
  tm_consecutive_early_frames :: int
  tm_playout_latency_samples :: u32
  tm_playout_reports :: u32
  tm_expected_rtp :: u32
  tm_expected_rtp_valid :: bool
  tm_gaps :: u32
  tm_last_gap_log_us :: int
  tm_gaps_suppressed :: u32
  tm_pos_err_filtered_us :: int
  tm_servo_engaged :: bool
  tm_servo_phase :: u8
  tm_servo_trims :: u32
  tm_quick_start :: bool
  tm_deferred_flush_pending :: bool
  tm_flush_until_ts :: u32
  tm_late_drop_count :: u32
  tm_late_drop_active :: bool

subsection \<open>Targets and configuration\<close>

definition frame_samples_from_format :: "audio_format \<Rightarrow> u32" where
  "frame_samples_from_format format =
    (if fm_frame_size format > 0 then of_int (fm_frame_size format)
     else if fm_max_samples_per_frame format > 0 then fm_max_samples_per_frame format
     else of_nat AAC_FRAMES_PER_PACKET)"

definition update_timing_targets :: "audio_format \<Rightarrow> audio_timing \<Rightarrow> audio_timing" where
  "update_timing_targets format timing =
    (let nominal = frame_samples_from_format format;
         timing = timing\<lparr>tm_nominal_frame_samples := nominal\<rparr> in
     if fm_sample_rate format \<le> 0 \<or> nominal = 0 then timing\<lparr>tm_target_buffer_frames := MIN_STARTUP_FRAMES\<rparr>
     else let latency_samples = (ucast (tm_output_latency_us timing) * of_int (fm_sample_rate format) :: u64) div 1000000;
              target_frames = (ucast ((latency_samples + ucast nominal - 1) div ucast nominal) :: u32) in
       timing\<lparr>tm_target_buffer_frames :=
         if target_frames < MIN_STARTUP_FRAMES then MIN_STARTUP_FRAMES else target_frames\<rparr>)"

definition timing_zero :: audio_timing where
  "timing_zero = \<lparr>tm_output_latency_us = 0, tm_target_buffer_frames = 0, tm_nominal_frame_samples = 0,
     tm_playout_started = False, tm_playing = False, tm_anchor_valid = False, tm_anchor_network_time_ns = 0,
     tm_anchor_rtp_time = 0, tm_anchor_local_time_ns = 0, tm_ready_time_us = 0, tm_ptp_locked = False,
     tm_pending_frame = None, tm_pending_frame_len = 0, tm_pending_frame_capacity = 0, tm_pending_valid = False,
     tm_consecutive_early_frames = 0, tm_playout_latency_samples = 0, tm_playout_reports = 0, tm_expected_rtp = 0,
     tm_expected_rtp_valid = False, tm_gaps = 0, tm_last_gap_log_us = 0, tm_gaps_suppressed = 0,
     tm_pos_err_filtered_us = 0, tm_servo_engaged = False, tm_servo_phase = 0, tm_servo_trims = 0,
     tm_quick_start = False, tm_deferred_flush_pending = False, tm_flush_until_ts = 0, tm_late_drop_count = 0,
     tm_late_drop_active = False\<rparr>"

text \<open>\<open>memory\<close> is what \<open>malloc\<close> returns for the pending frame: its header and PCM area, or \<open>NULL\<close>.\<close>

definition audio_timing_init :: "audio_frame option \<Rightarrow> nat \<Rightarrow> audio_timing" where
  "audio_timing_init memory pending_capacity =
    (let timing = timing_zero\<lparr>tm_output_latency_us := DEFAULT_BUFFER_LATENCY_US, tm_playing := True\<rparr> in
     if pending_capacity > 0 then
       let timing = timing\<lparr>tm_pending_frame := memory\<rparr> in
       if memory \<noteq> None then timing\<lparr>tm_pending_frame_capacity := pending_capacity\<rparr> else timing
     else timing)"

definition audio_timing_reset_continuity :: "audio_timing \<Rightarrow> audio_timing" where
  "audio_timing_reset_continuity timing = timing\<lparr>tm_expected_rtp_valid := False, tm_pos_err_filtered_us := 0,
     tm_servo_engaged := False, tm_servo_phase := 0\<rparr>"

definition audio_timing_reset :: "audio_timing \<Rightarrow> audio_timing" where
  "audio_timing_reset timing = audio_timing_reset_continuity (timing\<lparr>tm_playout_started := False,
     tm_anchor_valid := False, tm_pending_valid := False, tm_pending_frame_len := 0, tm_ready_time_us := 0,
     tm_consecutive_early_frames := 0, tm_quick_start := False, tm_deferred_flush_pending := False,
     tm_flush_until_ts := 0, tm_late_drop_count := 0, tm_late_drop_active := False, tm_servo_trims := 0\<rparr>)"

definition audio_timing_set_format :: "audio_format \<Rightarrow> audio_timing \<Rightarrow> audio_timing" where
  "audio_timing_set_format format timing = update_timing_targets format timing"

definition audio_timing_set_output_latency :: "audio_format \<Rightarrow> u32 \<Rightarrow> audio_timing \<Rightarrow> audio_timing" where
  "audio_timing_set_output_latency format latency_us timing =
     update_timing_targets format (timing\<lparr>tm_output_latency_us := latency_us\<rparr>)"

definition audio_timing_get_output_latency :: "audio_timing \<Rightarrow> u32" where
  "audio_timing_get_output_latency timing = tm_output_latency_us timing"

definition audio_timing_get_advertised_latency :: "u32 \<Rightarrow> audio_timing \<Rightarrow> u32" where
  "audio_timing_get_advertised_latency hardware timing =
     tm_output_latency_us timing + hardware + PIPELINE_LATENCY_US"

definition audio_timing_set_playout_latency :: "u32 \<Rightarrow> audio_timing \<Rightarrow> audio_timing" where
  "audio_timing_set_playout_latency latency_samples timing = timing\<lparr>tm_playout_latency_samples := latency_samples\<rparr>"

text \<open>\<open>now_us\<close> is the local clock, \<open>locked\<close> the answer of the PTP clock.\<close>

definition audio_timing_set_anchor :: "int \<Rightarrow> bool \<Rightarrow> u64 \<Rightarrow> u32 \<Rightarrow> audio_timing \<Rightarrow> audio_timing mem" where
  "audio_timing_set_anchor now_us locked network_time_ns rtp_time timing = do {
     now_ns \<leftarrow> i64 (now_us * 1000);
     Some (timing\<lparr>tm_anchor_rtp_time := rtp_time, tm_anchor_network_time_ns := network_time_ns,
       tm_anchor_local_time_ns := now_ns, tm_ptp_locked := locked, tm_anchor_valid := True,
       tm_consecutive_early_frames := 0\<rparr>)
   }"

definition audio_timing_set_playing :: "bool \<Rightarrow> audio_timing \<Rightarrow> audio_timing" where
  "audio_timing_set_playing playing timing =
    (let timing = timing\<lparr>tm_playing := playing\<rparr> in
     if \<not> playing then timing\<lparr>tm_pending_valid := False, tm_pending_frame_len := 0\<rparr> else timing)"

subsection \<open>The schedule of a frame\<close>

datatype sync_mode = SYNC_MODE_NONE | SYNC_MODE_PTP | SYNC_MODE_NTP

text \<open>
  What one computation of the schedule sees: the clocks, the measured output queue (time and depth) or
  none, and the local time and the constant latency used without a measurement.
\<close>

record clock_reading =
  cr_ptp :: ptp_state
  cr_ntp :: ntp_state
  cr_output :: "(int \<times> u32) option"
  cr_now_us :: int
  cr_latency_us :: u32

text \<open>The products \<open>delta * 10^9\<close> of 32-bit factors always fit 64 bits.\<close>

definition compute_early_us ::
  "audio_timing \<Rightarrow> audio_format \<Rightarrow> u32 \<Rightarrow> sync_mode \<Rightarrow> clock_reading \<Rightarrow> int option mem" where
  "compute_early_us timing format rtp_timestamp sync_mode r =
    (if \<not> tm_anchor_valid timing \<or> fm_sample_rate format \<le> 0 then Some None
     else do {
       let rtp_delta = sint (rtp_timestamp - tm_anchor_rtp_time timing);
       let frame_offset_ns = (rtp_delta * 1000000000) sdiv fm_sample_rate format;
       let latency_ns = (int (unat (tm_playout_latency_samples timing)) * 1000000000) sdiv fm_sample_rate format;
       base \<leftarrow> (case sync_mode of
           SYNC_MODE_PTP \<Rightarrow> i64 (sint (tm_anchor_network_time_ns timing) - ptp_clock_get_offset_ns (cr_ptp r))
         | SYNC_MODE_NTP \<Rightarrow> i64 (sint (tm_anchor_network_time_ns timing) - ntp_clock_get_offset_ns (cr_ntp r))
         | SYNC_MODE_NONE \<Rightarrow> Some (tm_anchor_local_time_ns timing));
       target_ns \<leftarrow> i64 (base + frame_offset_ns);
       target_ns \<leftarrow> i64 (target_ns + latency_ns);
       let (now_us, pipeline_us) = (case cr_output r of Some p \<Rightarrow> p | None \<Rightarrow> (cr_now_us r, cr_latency_us r));
       target_ns \<leftarrow> i64 (target_ns - int (unat (pipeline_us + PIPELINE_LATENCY_US)) * 1000);
       early_us \<leftarrow> i64 (target_ns sdiv 1000 - now_us);
       Some (Some early_us)
     })"


subsection \<open>The quietest sample\<close>

definition sample_magnitude :: "u16 list \<Rightarrow> nat \<Rightarrow> nat \<Rightarrow> nat \<Rightarrow> int mem" where
  "sample_magnitude pcm i channels out_ch =
     foldl (\<lambda>m ch. do { mag \<leftarrow> m; s \<leftarrow> rd pcm (sz_add (sz_mul i channels) ch); Some (mag + \<bar>sint s\<bar>) }) (Some 0) [0..<out_ch]"

fun quietest_loop :: "u16 list \<Rightarrow> nat list \<Rightarrow> nat \<Rightarrow> nat \<Rightarrow> nat \<Rightarrow> int \<Rightarrow> nat mem" where
  "quietest_loop pcm [] channels out_ch best best_mag = Some best"
| "quietest_loop pcm (i # is) channels out_ch best best_mag = do {
     mag \<leftarrow> sample_magnitude pcm i channels out_ch;
     if mag < best_mag then quietest_loop pcm is channels out_ch i mag
     else quietest_loop pcm is channels out_ch best best_mag
   }"

definition quietest_sample_index :: "u16 list \<Rightarrow> nat \<Rightarrow> nat \<Rightarrow> nat \<Rightarrow> nat mem" where
  "quietest_sample_index pcm frame_samples channels out_ch =
     quietest_loop pcm [0..<frame_samples] channels out_ch (frame_samples - 1) (2 ^ 31 - 1)"

subsection \<open>Copying a frame to the output\<close>

text \<open>One sample of \<open>out_ch\<close> channels, from index \<open>src\<close> of the frame to index \<open>dst\<close> of the output.\<close>

fun copy_channels :: "u16 list \<Rightarrow> nat \<Rightarrow> nat \<Rightarrow> nat \<Rightarrow> u16 list \<Rightarrow> u16 list mem" where
  "copy_channels pcm src dst 0 out = Some out"
| "copy_channels pcm src dst (Suc ch) out = do {
     out \<leftarrow> copy_channels pcm src dst ch out;
     v \<leftarrow> rd pcm (sz_add src ch);
     wr out (dst + ch) [v]
   }"

fun copy_leading :: "u16 list \<Rightarrow> nat list \<Rightarrow> nat \<Rightarrow> nat \<Rightarrow> u16 list \<Rightarrow> u16 list mem" where
  "copy_leading pcm [] channels out_ch out = Some out"
| "copy_leading pcm (i # is) channels out_ch out = do {
     out \<leftarrow> copy_channels pcm (sz_mul i channels) (i * out_ch) out_ch out;
     copy_leading pcm is channels out_ch out
   }"

text \<open>The trim: sample \<open>m\<close> is left out (\<open>shrink\<close>) or repeated (\<open>stretch\<close>).\<close>

fun copy_trimmed :: "u16 list \<Rightarrow> nat list \<Rightarrow> nat \<Rightarrow> nat \<Rightarrow> nat \<Rightarrow> bool \<Rightarrow> bool \<Rightarrow> nat \<Rightarrow> u16 list \<Rightarrow> u16 list mem" where
  "copy_trimmed pcm [] channels out_ch m shrink stretch o' out = Some out"
| "copy_trimmed pcm (i # is) channels out_ch m shrink stretch o' out =
    (if shrink \<and> i = m then copy_trimmed pcm is channels out_ch m shrink stretch o' out
     else do {
       out \<leftarrow> copy_channels pcm (sz_mul i channels) (o' * out_ch) out_ch out;
       if stretch \<and> i = m then do {
         out \<leftarrow> copy_channels pcm (sz_mul i channels) ((o' + 1) * out_ch) out_ch out;
         copy_trimmed pcm is channels out_ch m shrink stretch (o' + 2) out
       }
       else copy_trimmed pcm is channels out_ch m shrink stretch (o' + 1) out
     })"

definition copy_frame :: "u16 list \<Rightarrow> nat \<Rightarrow> nat \<Rightarrow> nat \<Rightarrow> u16 list \<Rightarrow> u16 list mem" where
  "copy_frame pcm frame_samples channels out_samples out =
    (let out_ch = (if channels < AUDIO_OUT_CHANNELS then channels else AUDIO_OUT_CHANNELS) in
     if out_samples = frame_samples then
       if out_ch = channels then do { bs \<leftarrow> rd_block pcm 0 (frame_samples * out_ch); wr out 0 bs }
       else copy_leading pcm [0..<frame_samples] channels out_ch out
     else do {
       m \<leftarrow> quietest_sample_index pcm frame_samples channels out_ch;
       copy_trimmed pcm [0..<frame_samples] channels out_ch m (out_samples < frame_samples) (out_samples > frame_samples) 0 out
     })"


subsection \<open>The position servo\<close>

text \<open>One measurement of the playout error: the new state and the number of samples to add.\<close>

definition servo_filter :: "int \<Rightarrow> audio_timing \<Rightarrow> audio_timing mem" where
  "servo_filter on_time_err_us timing = do {
     innovation \<leftarrow> i64 (on_time_err_us - tm_pos_err_filtered_us timing);
     let innovation = (if innovation > POS_SERVO_INNOV_CLAMP_US then POS_SERVO_INNOV_CLAMP_US
       else if innovation < - POS_SERVO_INNOV_CLAMP_US then - POS_SERVO_INNOV_CLAMP_US else innovation);
     filtered \<leftarrow> i64 (tm_pos_err_filtered_us timing + innovation sdiv POS_SERVO_FILTER_DIV);
     Some (timing\<lparr>tm_pos_err_filtered_us := filtered\<rparr>)
   }"

definition servo_step :: "int \<Rightarrow> audio_timing \<Rightarrow> (audio_timing \<times> int) mem" where
  "servo_step on_time_err_us timing = do {
     timing \<leftarrow> servo_filter on_time_err_us timing;
     abs_err \<leftarrow> i64 \<bar>tm_pos_err_filtered_us timing\<bar>;
     let timing = (if \<not> tm_servo_engaged timing \<and> abs_err > POS_SERVO_ENGAGE_US
         then timing\<lparr>tm_servo_engaged := True, tm_servo_phase := 0\<rparr>
       else if tm_servo_engaged timing \<and> abs_err < POS_SERVO_DISENGAGE_US then timing\<lparr>tm_servo_engaged := False\<rparr>
       else timing);
     Some (if \<not> tm_servo_engaged timing then (timing, 0)
       else let timing = timing\<lparr>tm_servo_phase := tm_servo_phase timing + 1\<rparr> in
         if tm_servo_phase timing \<ge> POS_SERVO_TRIM_INTERVAL
         then (timing\<lparr>tm_servo_phase := 0, tm_servo_trims := tm_servo_trims timing + 1\<rparr>,
           if tm_pos_err_filtered_us timing > 0 then 1 else -1)
         else (timing, 0))
   }"

subsection \<open>One attempt to play a frame\<close>

text \<open>
  The state of the drain loop: the engine, the buffer, the statistics, the output and \<open>dropped_late\<close>.
  An item is the pending frame or a slot of the pool. What the clocks say during an attempt is an
  \<open>attempt_clock\<close>: the times of the deadline check and of the gap log and the readings for the gate and
  for the servo.
\<close>

record play_state =
  pl_timing :: audio_timing
  pl_buffer :: audio_buffer
  pl_stats :: "audio_stats option"
  pl_out :: "u16 list"
  pl_dropped_late :: bool

datatype item = Pending | Slot nat

record attempt_clock =
  ac_now_us :: int
  ac_gap_us :: int
  ac_gate :: clock_reading
  ac_servo :: clock_reading

text \<open>What stays the same during a call: sample count, format, threshold and clock source.\<close>

record play_call =
  pc_samples :: nat
  pc_format :: audio_format
  pc_threshold_us :: int
  pc_sync_mode :: sync_mode

datatype outcome = Continue play_state | Return nat play_state

definition item_frame :: "item \<Rightarrow> play_state \<Rightarrow> audio_frame mem" where
  "item_frame item s = (case item of Pending \<Rightarrow> tm_pending_frame (pl_timing s) | Slot slot \<Rightarrow> slot_ptr (pl_buffer s) slot)"

definition clear_pending :: "play_state \<Rightarrow> play_state" where
  "clear_pending s = s\<lparr>pl_timing := (pl_timing s)\<lparr>tm_pending_valid := False, tm_pending_frame_len := 0\<rparr>\<rparr>"

definition return_slot :: "nat \<Rightarrow> play_state \<Rightarrow> play_state mem" where
  "return_slot slot s = do { b \<leftarrow> audio_buffer_return (pl_buffer s) slot; Some (s\<lparr>pl_buffer := b\<rparr>) }"

definition discard_item :: "item \<Rightarrow> play_state \<Rightarrow> play_state mem" where
  "discard_item item s = (case item of Pending \<Rightarrow> Some (clear_pending s) | Slot slot \<Rightarrow> return_slot slot s)"

definition continue_without :: "item \<Rightarrow> play_state \<Rightarrow> outcome mem" where
  "continue_without item s = do { s \<leftarrow> discard_item item s; Some (Continue s) }"

text \<open>The deferred flush.\<close>

definition deferred_flush :: "item \<Rightarrow> play_state \<Rightarrow> outcome mem" where
  "deferred_flush item s = do {
     s \<leftarrow> discard_item item s;
     b \<leftarrow> audio_buffer_flush (pl_buffer s);
     let timing = audio_timing_reset_continuity ((pl_timing s)\<lparr>tm_deferred_flush_pending := False\<rparr>);
     Some (Return 0 (s\<lparr>pl_buffer := b, pl_timing := timing\<lparr>tm_playout_started := False, tm_ready_time_us := 0,
       tm_consecutive_early_frames := 0, tm_quick_start := True\<rparr>\<rparr>))
   }"

text \<open>A frame far below the contiguous run that ends at the newest one, before playout has started.\<close>

definition stale_start :: "play_call \<Rightarrow> audio_frame \<Rightarrow> play_state \<Rightarrow> bool mem" where
  "stale_start c hdr s =
    (if \<not> tm_playout_started (pl_timing s) \<and> fm_sample_rate (pc_format c) > 0 then do {
       bulk \<leftarrow> audio_buffer_bulk_start_rtp (pl_buffer s);
       case bulk of
         None \<Rightarrow> Some False
       | Some bulk_rtp \<Rightarrow> Some (sint (bulk_rtp - af_timestamp hdr) > fm_sample_rate (pc_format c) sdiv 10)
     }
     else Some False)"

text \<open>A hole before a fresh frame. The logged length of the gap divides by the sample rate.\<close>

definition note_gap :: "play_call \<Rightarrow> int \<Rightarrow> item \<Rightarrow> audio_frame \<Rightarrow> audio_timing \<Rightarrow> (bool \<times> audio_timing) mem" where
  "note_gap c now_us item hdr timing =
    (if item \<noteq> Pending \<and> tm_playout_started timing \<and> tm_expected_rtp_valid timing \<and>
        sint (af_timestamp hdr - tm_expected_rtp timing) > 0
     then do {
       since \<leftarrow> i64 (now_us - tm_last_gap_log_us timing);
       let timing = timing\<lparr>tm_gaps := tm_gaps timing + 1\<rparr>;
       if since > 250000
       then if fm_sample_rate (pc_format c) = 0 then None
         else Some (True, timing\<lparr>tm_last_gap_log_us := now_us, tm_gaps_suppressed := 0\<rparr>)
       else Some (True, timing\<lparr>tm_gaps_suppressed := tm_gaps_suppressed timing + 1\<rparr>)
     }
     else Some (False, timing))"

text \<open>The marker of the next contiguous timestamp only moves forward.\<close>

definition advance_expected :: "audio_frame \<Rightarrow> audio_timing \<Rightarrow> audio_timing" where
  "advance_expected hdr timing =
    (let next_rtp = af_timestamp hdr + ucast (af_samples hdr) in
     if \<not> tm_expected_rtp_valid timing \<or> sint (next_rtp - tm_expected_rtp timing) > 0
     then timing\<lparr>tm_expected_rtp := next_rtp, tm_expected_rtp_valid := True\<rparr> else timing)"

end
