(* ===== verification/Audio_Playout.thy ===== *)
theory Audio_Playout
  imports Audio_Timing
begin

section \<open>Reading audio from the playout engine (audio_timing_read)\<close>

text \<open>
  One attempt of the drain loop, the loop and \<open>audio_timing_read\<close> itself. The caller owns an output
  buffer of \<open>samples\<close> stereo samples; the result is the number of samples and the state afterwards.
\<close>

subsection \<open>Holding, dropping and playing\<close>

text \<open>A held frame is copied to the pending frame when there is room; the slot goes back in any case.\<close>

definition store_pending :: "nat \<Rightarrow> audio_frame \<Rightarrow> audio_frame \<Rightarrow> audio_frame mem" where
  "store_pending item_size hdr frame = do {
     bs \<leftarrow> rd_block (af_pcm hdr) 0 ((item_size - 8) div 2);
     area \<leftarrow> wr (af_pcm frame) 0 bs;
     Some (hdr\<lparr>af_pcm := area\<rparr>)
   }"

definition keep_pending :: "item \<Rightarrow> nat \<Rightarrow> audio_frame \<Rightarrow> play_state \<Rightarrow> play_state mem" where
  "keep_pending item item_size hdr s =
    (case item of
       Pending \<Rightarrow> Some s
     | Slot slot \<Rightarrow>
         (case tm_pending_frame (pl_timing s) of
            Some frame \<Rightarrow>
              if item_size \<le> tm_pending_frame_capacity (pl_timing s) then do {
                frame \<leftarrow> store_pending item_size hdr frame;
                return_slot slot (s\<lparr>pl_timing := (pl_timing s)\<lparr>tm_pending_frame := Some frame,
                  tm_pending_frame_len := item_size, tm_pending_valid := True\<rparr>\<rparr>)
              }
              else return_slot slot s
          | None \<Rightarrow> return_slot slot s))"

definition hold_item :: "item \<Rightarrow> nat \<Rightarrow> audio_frame \<Rightarrow> nat \<Rightarrow> play_state \<Rightarrow> outcome mem" where
  "hold_item item item_size hdr frame_samples s = do {
     s \<leftarrow> keep_pending item item_size hdr s;
     out \<leftarrow> wr (pl_out s) 0 (replicate (frame_samples * AUDIO_OUT_CHANNELS) 0);
     Some (Return frame_samples (s\<lparr>pl_out := out\<rparr>))
   }"

definition bump_late :: "audio_stats option \<Rightarrow> audio_stats option" where
  "bump_late = map_option (\<lambda>s. s\<lparr>st_late_frames := st_late_frames s + 1\<rparr>)"

definition drop_item :: "item \<Rightarrow> audio_frame \<Rightarrow> play_state \<Rightarrow> outcome mem" where
  "drop_item item hdr s =
    (let timing = advance_expected hdr ((pl_timing s)\<lparr>tm_consecutive_early_frames := 0,
           tm_late_drop_count := tm_late_drop_count (pl_timing s) + 1, tm_late_drop_active := True\<rparr>) in
     continue_without item (s\<lparr>pl_timing := timing, pl_dropped_late := True, pl_stats := bump_late (pl_stats s)\<rparr>))"

text \<open>The servo sees only frames of a synchronised stream that has started.\<close>

definition servo_adjust :: "play_call \<Rightarrow> clock_reading \<Rightarrow> audio_frame \<Rightarrow> audio_timing \<Rightarrow> (audio_timing \<times> int) mem" where
  "servo_adjust c r hdr timing =
    (if tm_anchor_valid timing \<and> pc_sync_mode c \<noteq> SYNC_MODE_NONE \<and> tm_playout_started timing then do {
       err \<leftarrow> compute_early_us timing (pc_format c) (af_timestamp hdr) (pc_sync_mode c) r;
       case err of
         None \<Rightarrow> Some (timing, 0)
       | Some on_time_err_us \<Rightarrow>
           servo_step on_time_err_us (timing\<lparr>tm_playout_reports := tm_playout_reports timing + 1\<rparr>)
     }
     else Some (timing, 0))"

definition adjusted_samples :: "nat \<Rightarrow> nat \<Rightarrow> int \<Rightarrow> nat" where
  "adjusted_samples samples frame_samples sample_adjust =
    (if sample_adjust < 0 \<and> frame_samples > 1 then frame_samples - 1
     else if sample_adjust > 0 \<and> frame_samples + 1 \<le> samples then frame_samples + 1
     else frame_samples)"

definition play_item ::
  "play_call \<Rightarrow> clock_reading \<Rightarrow> item \<Rightarrow> audio_frame \<Rightarrow> nat \<Rightarrow> nat \<Rightarrow> play_state \<Rightarrow> outcome mem" where
  "play_item c r item hdr frame_samples channels s = do {
     (timing, sample_adjust) \<leftarrow> servo_adjust c r hdr ((pl_timing s)\<lparr>tm_consecutive_early_frames := 0\<rparr>);
     let out_samples = adjusted_samples (pc_samples c) frame_samples sample_adjust;
     out \<leftarrow> copy_frame (af_pcm hdr) frame_samples channels out_samples (pl_out s);
     let timing = advance_expected hdr timing;
     s \<leftarrow> discard_item item (s\<lparr>pl_timing := timing, pl_out := out\<rparr>);
     let timing = pl_timing s;
     let timing = (if \<not> tm_playout_started timing
       then timing\<lparr>tm_playout_started := True, tm_quick_start := False\<rparr> else timing);
     let timing = (if tm_late_drop_active timing
       then timing\<lparr>tm_late_drop_count := 0, tm_late_drop_active := False\<rparr> else timing);
     Some (Return out_samples (s\<lparr>pl_timing := timing\<rparr>))
   }"

subsection \<open>One attempt\<close>

text \<open>The gate: hold, drop or play by the schedule. A run of early frames gives up the anchor.\<close>

definition gate_item ::
  "play_call \<Rightarrow> attempt_clock \<Rightarrow> item \<Rightarrow> nat \<Rightarrow> audio_frame \<Rightarrow> nat \<Rightarrow> nat \<Rightarrow> bool \<Rightarrow> play_state \<Rightarrow> outcome mem" where
  "gate_item c a item item_size hdr frame_samples channels gap s =
    (let timing = pl_timing s; play = play_item c (ac_servo a) item hdr frame_samples channels in
     if tm_anchor_valid timing \<and> fm_sample_rate (pc_format c) > 0 then do {
       early \<leftarrow> compute_early_us timing (pc_format c) (af_timestamp hdr) (pc_sync_mode c) (ac_gate a);
       case early of
         None \<Rightarrow> play s
       | Some early_us \<Rightarrow>
           let frame_period_us = (int frame_samples * 1000000) sdiv fm_sample_rate (pc_format c);
               strict_us = frame_period_us sdiv 2;
               release_us = (if item = Pending \<or> pl_dropped_late s \<or> gap then strict_us else pc_threshold_us c);
               late_limit_us = (if pl_dropped_late s then - strict_us else - pc_threshold_us c) in
           if early_us > release_us then
             let timing = (if item \<noteq> Pending
                   then timing\<lparr>tm_consecutive_early_frames := tm_consecutive_early_frames timing + 1\<rparr> else timing) in
             if tm_consecutive_early_frames timing > MAX_CONSECUTIVE_EARLY
             then play (s\<lparr>pl_timing := timing\<lparr>tm_anchor_valid := False, tm_consecutive_early_frames := 0\<rparr>\<rparr>)
             else hold_item item item_size hdr frame_samples (s\<lparr>pl_timing := timing\<rparr>)
           else if early_us < late_limit_us then drop_item item hdr s
           else play s
     }
     else play s)"

text \<open>What happens to an item: validation, deferred flush, stale start, continuity and the gate.\<close>

definition frame_channels :: "audio_format \<Rightarrow> audio_frame \<Rightarrow> nat" where
  "frame_channels format hdr =
    (if af_channels hdr \<noteq> 0 then unat (af_channels hdr) else unat (of_int (fm_channels format) :: u32))"

definition process_item :: "play_call \<Rightarrow> attempt_clock \<Rightarrow> item \<Rightarrow> nat \<Rightarrow> play_state \<Rightarrow> outcome mem" where
  "process_item c a item item_size s = do {
     hdr \<leftarrow> item_frame item s;
     let frame_samples = unat (af_samples hdr);
     let channels = frame_channels (pc_format c) hdr;
     if frame_samples = 0 \<or> channels = 0 then continue_without item s
     else if item_size < sz_add 8 (sz_mul (sz_mul frame_samples channels) 2) then continue_without item s
     else
       let frame_samples = (if frame_samples > pc_samples c then pc_samples c else frame_samples) in
       if tm_deferred_flush_pending (pl_timing s) \<and> sint (af_timestamp hdr - tm_flush_until_ts (pl_timing s)) \<ge> 0
       then deferred_flush item s
       else do {
         stale \<leftarrow> stale_start c hdr s;
         if stale then continue_without item s
         else do {
           (gap, timing) \<leftarrow> note_gap c (ac_gap_us a) item hdr (pl_timing s);
           gate_item c a item item_size hdr frame_samples channels gap (s\<lparr>pl_timing := timing\<rparr>)
         }
       }
   }"

definition attempt :: "play_call \<Rightarrow> attempt_clock \<Rightarrow> play_state \<Rightarrow> outcome mem" where
  "attempt c a s =
    (if tm_pending_valid (pl_timing s) then
       let item_size = tm_pending_frame_len (pl_timing s) in
       if item_size < 8 then Some (Continue (clear_pending s)) else process_item c a Pending item_size s
     else do {
       (taken, b) \<leftarrow> audio_buffer_take (pl_buffer s);
       let s = s\<lparr>pl_buffer := b\<rparr>;
       case taken of
         None \<Rightarrow> Some (Return 0 (s\<lparr>pl_stats := bump_underruns (pl_stats s)\<rparr>))
       | Some (slot, item_size) \<Rightarrow>
           if item_size < 8 then continue_without (Slot slot) s else process_item c a (Slot slot) item_size s
     })"

subsection \<open>The loop and the call\<close>

text \<open>\<open>n\<close> attempts are left of the 64; the deadline is checked before every eighth.\<close>

fun drain_loop :: "play_call \<Rightarrow> (nat \<Rightarrow> attempt_clock) \<Rightarrow> int \<Rightarrow> nat \<Rightarrow> play_state \<Rightarrow> (nat \<times> play_state) mem" where
  "drain_loop c clock deadline 0 s = Some (0, s)"
| "drain_loop c clock deadline (Suc n) s =
    (let k = MAX_DRAIN_ATTEMPTS - Suc n in
     if k mod 8 = 0 \<and> k \<noteq> 0 \<and> ac_now_us (clock k) \<ge> deadline then Some (0, s)
     else do {
       r \<leftarrow> attempt c (clock k) s;
       case r of
         Continue s \<Rightarrow> drain_loop c clock deadline n s
       | Return samples s \<Rightarrow> Some (samples, s)
     })"

text \<open>Whether playback waits: too few frames, or no anchor for less than a second.\<close>

definition waits_to_start :: "int \<Rightarrow> nat \<Rightarrow> audio_timing \<Rightarrow> (bool \<times> audio_timing) mem" where
  "waits_to_start now_us buffered_frames timing =
    (if \<not> tm_playout_started timing \<and> \<not> tm_pending_valid timing then
       let required = (if tm_quick_start timing then 1 else sint (tm_target_buffer_frames timing)) in
       if int buffered_frames < required then Some (True, timing)
       else if \<not> tm_anchor_valid timing then do {
         let timing = (if tm_ready_time_us timing = 0 then timing\<lparr>tm_ready_time_us := now_us\<rparr> else timing);
         waited \<leftarrow> i64 (now_us - tm_ready_time_us timing);
         Some (waited < 1000000, timing)
       }
       else Some (False, timing)
     else Some (False, timing))"

text \<open>The clocks at the start of a call: the local time, the tick count and both network clocks.\<close>

record call_clock =
  cc_now_us :: int
  cc_now_ms :: u32
  cc_drain_us :: int
  cc_ptp :: ptp_state
  cc_ntp :: ntp_state
  cc_attempt :: "nat \<Rightarrow> attempt_clock"

definition sync_mode_of :: "call_clock \<Rightarrow> sync_mode" where
  "sync_mode_of cc =
    (if fst (ptp_clock_is_locked (cc_now_ms cc) (cc_ptp cc)) then SYNC_MODE_PTP
     else if ntp_clock_is_locked (cc_ntp cc) then SYNC_MODE_NTP else SYNC_MODE_NONE)"

definition audio_timing_read ::
  "call_clock \<Rightarrow> audio_stream \<Rightarrow> nat \<Rightarrow> audio_timing \<Rightarrow> audio_buffer \<Rightarrow> audio_stats option \<Rightarrow> u16 list \<Rightarrow>
    (nat \<times> play_state) mem" where
  "audio_timing_read cc stream samples timing buffer stats out =
    (let s = \<lparr>pl_timing = timing, pl_buffer = buffer, pl_stats = stats, pl_out = out, pl_dropped_late = False\<rparr> in
     if samples = 0 \<or> \<not> tm_playing timing then Some (0, s)
     else do {
       (waits, timing) \<leftarrow> waits_to_start (cc_now_us cc) (audio_buffer_get_frame_count buffer) timing;
       if waits then Some (0, s\<lparr>pl_timing := timing\<rparr>)
       else do {
         deadline \<leftarrow> i64 (cc_drain_us cc + 1500);
         let c = \<lparr>pc_samples = samples, pc_format = as_format stream,
           pc_threshold_us = (if audio_stream_uses_buffer (as_type stream) then TIMING_THRESHOLD_US else RT_TIMING_THRESHOLD_US),
           pc_sync_mode = sync_mode_of cc\<rparr>;
         drain_loop c (cc_attempt cc) deadline MAX_DRAIN_ATTEMPTS
           (s\<lparr>pl_timing := timing, pl_dropped_late := tm_late_drop_active timing\<rparr>)
       }
     })"

end
