(* ===== verification/Playout_Facts.thy ===== *)
theory Playout_Facts
  imports Audio_Playout Ptp_Facts
begin

section \<open>The playout engine is safe\<close>

subsection \<open>The schedule\<close>

text \<open>
  Clock values the schedule can compute with: the anchor is within \<open>2 ^ 60\<close> nanoseconds (36 years) of the
  local clock in every time base, and the local clock is within \<open>2 ^ 60\<close> microseconds of zero.
\<close>

definition reading_ok :: "u64 \<Rightarrow> int \<Rightarrow> clock_reading \<Rightarrow> bool" where
  "reading_ok net local r \<longleftrightarrow> \<bar>sint net - ptp_clock_get_offset_ns (cr_ptp r)\<bar> \<le> 2 ^ 60 \<and>
     \<bar>sint net - ntp_clock_get_offset_ns (cr_ntp r)\<bar> \<le> 2 ^ 60 \<and> \<bar>local\<bar> \<le> 2 ^ 60 \<and>
     (case cr_output r of Some (t, _) \<Rightarrow> \<bar>t\<bar> \<le> 2 ^ 60 | None \<Rightarrow> \<bar>cr_now_us r\<bar> \<le> 2 ^ 60)"

lemma div_le_dividend_int: "0 \<le> (a :: int) \<Longrightarrow> 0 < d \<Longrightarrow> a div d \<le> a"
  using zdiv_mono2 [of a 1 d] by simp

lemma abs_sdiv_eq: "0 < d \<Longrightarrow> \<bar>(a :: int) sdiv d\<bar> = \<bar>a\<bar> div d"
  by (simp add: signed_divide_int_def sgn_if abs_mult pos_imp_zdiv_nonneg_iff)

lemma abs_sdiv_le: "0 < d \<Longrightarrow> \<bar>(a :: int) sdiv d\<bar> \<le> \<bar>a\<bar>"
  by (simp add: abs_sdiv_eq div_le_dividend_int)

lemma sint_u32_bounds: "- (2 ^ 31) \<le> sint (w :: u32)" "sint (w :: u32) < 2 ^ 31"
  using sint_greater_eq [of w] sint_less [of w] by simp_all

lemma schedule_bounds:
  fixes b f l p n :: int
  assumes "\<bar>b\<bar> \<le> 2 ^ 60" "\<bar>f\<bar> \<le> 2147483648000000000" "\<bar>l\<bar> \<le> 4294967296000000000" "0 \<le> p" "p \<le> 4294967296000"
    "\<bar>n\<bar> \<le> 2 ^ 60"
  shows "i64 b = Some b" "i64 (b + f) = Some (b + f)" "i64 (b + f + l) = Some (b + f + l)"
    "i64 (b + f + l - p) = Some (b + f + l - p)"
    "i64 ((b + f + l - p) sdiv 1000 - n) = Some ((b + f + l - p) sdiv 1000 - n)"
    "\<bar>(b + f + l - p) sdiv 1000 - n\<bar> \<le> 2 ^ 61"
proof -
  have s: "\<bar>b\<bar> \<le> 1152921504606846976" "\<bar>n\<bar> \<le> 1152921504606846976" using assms(1,6) by simp_all
  have "\<bar>b + f + l - p\<bar> < 8000000000000000000" using s assms by linarith
  then have "\<bar>(b + f + l - p) sdiv 1000\<bar> < 8000000000000000" unfolding abs_sdiv_eq [of 1000, simplified] by linarith
  then have e: "\<bar>(b + f + l - p) sdiv 1000 - n\<bar> \<le> 2000000000000000000" using s by linarith
  then show "\<bar>(b + f + l - p) sdiv 1000 - n\<bar> \<le> 2 ^ 61" by simp
  show "i64 b = Some b" "i64 (b + f) = Some (b + f)" "i64 (b + f + l) = Some (b + f + l)"
    "i64 (b + f + l - p) = Some (b + f + l - p)"
    "i64 ((b + f + l - p) sdiv 1000 - n) = Some ((b + f + l - p) sdiv 1000 - n)"
    using s assms e by (simp_all add: i64_eq_Some abs_le_iff)
qed

text \<open>The scheduled play time of a timestamp on the local clock, less the output delay, minus now.\<close>

definition base_ns :: "audio_timing \<Rightarrow> sync_mode \<Rightarrow> clock_reading \<Rightarrow> int" where
  "base_ns timing sync_mode r = (case sync_mode of
      SYNC_MODE_PTP \<Rightarrow> sint (tm_anchor_network_time_ns timing) - ptp_clock_get_offset_ns (cr_ptp r)
    | SYNC_MODE_NTP \<Rightarrow> sint (tm_anchor_network_time_ns timing) - ntp_clock_get_offset_ns (cr_ntp r)
    | SYNC_MODE_NONE \<Rightarrow> tm_anchor_local_time_ns timing)"

definition output_delay :: "clock_reading \<Rightarrow> int \<times> u32" where
  "output_delay r = (case cr_output r of Some p \<Rightarrow> p | None \<Rightarrow> (cr_now_us r, cr_latency_us r))"

definition early_of :: "audio_timing \<Rightarrow> audio_format \<Rightarrow> u32 \<Rightarrow> sync_mode \<Rightarrow> clock_reading \<Rightarrow> int" where
  "early_of timing format rtp sync_mode r =
    (base_ns timing sync_mode r + (sint (rtp - tm_anchor_rtp_time timing) * 1000000000) sdiv fm_sample_rate format +
      (int (unat (tm_playout_latency_samples timing)) * 1000000000) sdiv fm_sample_rate format -
      int (unat (snd (output_delay r) + PIPELINE_LATENCY_US)) * 1000) sdiv 1000 - fst (output_delay r)"

lemma compute_early_us_eq:
  assumes r: "reading_ok (tm_anchor_network_time_ns timing) (tm_anchor_local_time_ns timing) r"
    and on: "tm_anchor_valid timing" "fm_sample_rate format > 0"
  shows "compute_early_us timing format rtp sync_mode r = Some (Some (early_of timing format rtp sync_mode r))"
    and "\<bar>early_of timing format rtp sync_mode r\<bar> \<le> 2 ^ 61"
proof -
  let ?b = "base_ns timing sync_mode r"
  let ?f = "(sint (rtp - tm_anchor_rtp_time timing) * 1000000000) sdiv fm_sample_rate format"
  let ?l = "(int (unat (tm_playout_latency_samples timing)) * 1000000000) sdiv fm_sample_rate format"
  let ?p = "int (unat (snd (output_delay r) + PIPELINE_LATENCY_US)) * 1000"
  have b: "\<bar>?b\<bar> \<le> 2 ^ 60" using r by (cases sync_mode) (auto simp: reading_ok_def base_ns_def)
  have f: "\<bar>?f\<bar> \<le> 2147483648000000000"
    using abs_sdiv_le [OF on(2), of "sint (rtp - tm_anchor_rtp_time timing) * 1000000000"]
      sint_u32_bounds [of "rtp - tm_anchor_rtp_time timing"] by auto
  have u32: "int (unat (w :: u32)) < 4294967296" for w using uint_lt2p [of w] by simp
  have l: "\<bar>?l\<bar> \<le> 4294967296000000000"
    using abs_sdiv_le [OF on(2), of "int (unat (tm_playout_latency_samples timing)) * 1000000000"]
      u32 [of "tm_playout_latency_samples timing"] by auto
  have p: "0 \<le> ?p" "?p \<le> 4294967296000" using u32 [of "snd (output_delay r) + PIPELINE_LATENCY_US"] by auto
  have now: "\<bar>fst (output_delay r)\<bar> \<le> 2 ^ 60"
    using r by (auto simp: reading_ok_def output_delay_def split: option.splits prod.splits)
  note s = schedule_bounds [OF b f l p now]
  show "\<bar>early_of timing format rtp sync_mode r\<bar> \<le> 2 ^ 61"
    unfolding early_of_def by (rule s(6))
  show "compute_early_us timing format rtp sync_mode r = Some (Some (early_of timing format rtp sync_mode r))"
    using on s(1-5) unfolding compute_early_us_def early_of_def output_delay_def base_ns_def
    by (cases sync_mode) (auto simp: Let_def split: prod.split)
qed

lemma compute_early_us_None:
  "\<not> tm_anchor_valid timing \<or> fm_sample_rate format \<le> 0 \<Longrightarrow> compute_early_us timing format rtp m r = Some None"
  by (simp add: compute_early_us_def)


subsection \<open>The servo\<close>

text \<open>The filter moves towards the measurement, at most 93 microseconds at a time.\<close>

lemma servo_filter_step:
  assumes "\<bar>err\<bar> \<le> 2 ^ 61" "\<bar>tm_pos_err_filtered_us timing\<bar> \<le> 2 ^ 61"
  obtains f where "servo_filter err timing = Some (timing\<lparr>tm_pos_err_filtered_us := f\<rparr>)"
    "\<bar>f - tm_pos_err_filtered_us timing\<bar> \<le> 93"
    "min (tm_pos_err_filtered_us timing) err \<le> f" "f \<le> max (tm_pos_err_filtered_us timing) err"
proof -
  let ?o = "tm_pos_err_filtered_us timing"
  let ?i = "err - ?o"
  let ?c = "if ?i > 1500 then 1500 else if ?i < - 1500 then - 1500 else ?i"
  have d: "\<bar>?c sdiv 16\<bar> \<le> 93" "0 \<le> ?i \<Longrightarrow> 0 \<le> ?c sdiv 16 \<and> ?c sdiv 16 \<le> ?i" "?i < 0 \<Longrightarrow> ?i \<le> ?c sdiv 16 \<and> ?c sdiv 16 \<le> 0"
    by (auto simp: signed_divide_int_def sgn_if)
  have b: "min ?o err \<le> ?o + ?c sdiv 16" "?o + ?c sdiv 16 \<le> max ?o err"
    using d(2,3) by (cases "0 \<le> ?i"; simp)+
  have n: "\<bar>err\<bar> \<le> 2305843009213693952" "\<bar>?o\<bar> \<le> 2305843009213693952" using assms by simp_all
  have "i64 ?i = Some ?i" "i64 (?o + ?c sdiv 16) = Some (?o + ?c sdiv 16)"
    using n b unfolding i64_eq_Some by auto
  then have "servo_filter err timing = Some (timing\<lparr>tm_pos_err_filtered_us := ?o + ?c sdiv 16\<rparr>)"
    unfolding servo_filter_def POS_SERVO_INNOV_CLAMP_US_def POS_SERVO_FILTER_DIV_def Let_def by simp
  then show thesis using that b d(1) by simp
qed

text \<open>What the servo never touches.\<close>

definition servo_proj :: "audio_timing \<Rightarrow> audio_timing" where
  "servo_proj timing = timing\<lparr>tm_pos_err_filtered_us := 0, tm_servo_engaged := False,
     tm_servo_phase := 0, tm_servo_trims := 0, tm_playout_reports := 0\<rparr>"

lemma servo_proj_fields:
  assumes "servo_proj timing' = servo_proj timing"
  shows "tm_pending_frame timing' = tm_pending_frame timing"
    "tm_pending_frame_len timing' = tm_pending_frame_len timing"
    "tm_pending_frame_capacity timing' = tm_pending_frame_capacity timing"
    "tm_pending_valid timing' = tm_pending_valid timing"
    "tm_anchor_valid timing' = tm_anchor_valid timing"
    "tm_anchor_network_time_ns timing' = tm_anchor_network_time_ns timing"
    "tm_anchor_local_time_ns timing' = tm_anchor_local_time_ns timing"
    "tm_anchor_rtp_time timing' = tm_anchor_rtp_time timing"
    "tm_playout_latency_samples timing' = tm_playout_latency_samples timing"
    "tm_last_gap_log_us timing' = tm_last_gap_log_us timing"
    "tm_playout_started timing' = tm_playout_started timing"
    "tm_expected_rtp timing' = tm_expected_rtp timing"
    "tm_expected_rtp_valid timing' = tm_expected_rtp_valid timing"
    "tm_quick_start timing' = tm_quick_start timing"
    "tm_consecutive_early_frames timing' = tm_consecutive_early_frames timing"
    "tm_deferred_flush_pending timing' = tm_deferred_flush_pending timing"
    "tm_flush_until_ts timing' = tm_flush_until_ts timing"
    "tm_late_drop_active timing' = tm_late_drop_active timing"
    "tm_ready_time_us timing' = tm_ready_time_us timing"
  using arg_cong [OF assms, of tm_pending_frame]
    arg_cong [OF assms, of tm_pending_frame_len]
    arg_cong [OF assms, of tm_pending_frame_capacity]
    arg_cong [OF assms, of tm_pending_valid]
    arg_cong [OF assms, of tm_anchor_valid]
    arg_cong [OF assms, of tm_anchor_network_time_ns]
    arg_cong [OF assms, of tm_anchor_local_time_ns]
    arg_cong [OF assms, of tm_anchor_rtp_time]
    arg_cong [OF assms, of tm_playout_latency_samples]
    arg_cong [OF assms, of tm_last_gap_log_us]
    arg_cong [OF assms, of tm_playout_started]
    arg_cong [OF assms, of tm_expected_rtp]
    arg_cong [OF assms, of tm_expected_rtp_valid]
    arg_cong [OF assms, of tm_quick_start]
    arg_cong [OF assms, of tm_consecutive_early_frames]
    arg_cong [OF assms, of tm_deferred_flush_pending]
    arg_cong [OF assms, of tm_flush_until_ts]
    arg_cong [OF assms, of tm_late_drop_active]
    arg_cong [OF assms, of tm_ready_time_us]
  by (simp_all add: servo_proj_def)

lemma servo_proj_updates [simp]:
  "servo_proj (timing\<lparr>tm_pos_err_filtered_us := f\<rparr>) = servo_proj timing"
  "servo_proj (timing\<lparr>tm_servo_engaged := e\<rparr>) = servo_proj timing"
  "servo_proj (timing\<lparr>tm_servo_phase := p\<rparr>) = servo_proj timing"
  "servo_proj (timing\<lparr>tm_servo_trims := n\<rparr>) = servo_proj timing"
  "servo_proj (timing\<lparr>tm_playout_reports := n\<rparr>) = servo_proj timing"
  by (simp_all add: servo_proj_def)

text \<open>The decision of the servo, once the filter has its new value.\<close>

definition servo_decide :: "int \<Rightarrow> audio_timing \<Rightarrow> audio_timing \<times> int" where
  "servo_decide abs_err timing =
    (let timing = (if \<not> tm_servo_engaged timing \<and> abs_err > POS_SERVO_ENGAGE_US
         then timing\<lparr>tm_servo_engaged := True, tm_servo_phase := 0\<rparr>
       else if tm_servo_engaged timing \<and> abs_err < POS_SERVO_DISENGAGE_US then timing\<lparr>tm_servo_engaged := False\<rparr>
       else timing) in
     if \<not> tm_servo_engaged timing then (timing, 0)
       else let timing = timing\<lparr>tm_servo_phase := tm_servo_phase timing + 1\<rparr> in
         if tm_servo_phase timing \<ge> POS_SERVO_TRIM_INTERVAL
         then (timing\<lparr>tm_servo_phase := 0, tm_servo_trims := tm_servo_trims timing + 1\<rparr>,
           if tm_pos_err_filtered_us timing > 0 then 1 else -1)
         else (timing, 0))"

lemma servo_step_decide: "servo_step err timing = do {
     timing \<leftarrow> servo_filter err timing;
     abs_err \<leftarrow> i64 \<bar>tm_pos_err_filtered_us timing\<bar>;
     Some (servo_decide abs_err timing) }"
  by (simp add: servo_step_def servo_decide_def Let_def)

lemma servo_decide_frame:
  "servo_proj (fst (servo_decide a timing)) = servo_proj timing"
  "tm_pos_err_filtered_us (fst (servo_decide a timing)) = tm_pos_err_filtered_us timing"
  "snd (servo_decide a timing) \<in> {-1, 0, 1}"
  by (simp_all add: servo_decide_def Let_def)

lemma servo_step_ok:
  assumes "\<bar>err\<bar> \<le> 2 ^ 61" "\<bar>tm_pos_err_filtered_us timing\<bar> \<le> 2 ^ 61"
  shows "\<exists>timing' adj. servo_step err timing = Some (timing', adj) \<and> servo_proj timing' = servo_proj timing \<and>
    \<bar>tm_pos_err_filtered_us timing'\<bar> \<le> 2 ^ 61 \<and>
    \<bar>tm_pos_err_filtered_us timing' - tm_pos_err_filtered_us timing\<bar> \<le> 93 \<and> adj \<in> {-1, 0, 1}"
proof -
  obtain f where f: "servo_filter err timing = Some (timing\<lparr>tm_pos_err_filtered_us := f\<rparr>)"
    "\<bar>f - tm_pos_err_filtered_us timing\<bar> \<le> 93"
    "min (tm_pos_err_filtered_us timing) err \<le> f" "f \<le> max (tm_pos_err_filtered_us timing) err"
    using servo_filter_step [OF assms] by blast
  have b: "\<bar>f\<bar> \<le> 2 ^ 61" using f(3,4) assms by (auto simp: min_def max_def split: if_splits)
  then have i: "i64 \<bar>f\<bar> = Some \<bar>f\<bar>" by (simp add: i64_eq_Some)
  let ?r = "servo_decide \<bar>f\<bar> (timing\<lparr>tm_pos_err_filtered_us := f\<rparr>)"
  have "servo_step err timing = Some (fst ?r, snd ?r)"
    using i by (simp add: servo_step_decide f(1))
  moreover note servo_decide_frame [of "\<bar>f\<bar>" "timing\<lparr>tm_pos_err_filtered_us := f\<rparr>"]
  ultimately show ?thesis using f(2) b
    by (intro exI [of _ "fst ?r"] exI [of _ "snd ?r"]) simp
qed


subsection \<open>Copying\<close>

text \<open>Sample \<open>i\<close> of a frame, the samples of a list of indices, and the indices a trim plays.\<close>

definition sample_at :: "u16 list \<Rightarrow> nat \<Rightarrow> nat \<Rightarrow> nat \<Rightarrow> u16 list" where
  "sample_at pcm channels out_ch i = take out_ch (drop (i * channels) pcm)"

definition samples_at :: "u16 list \<Rightarrow> nat \<Rightarrow> nat \<Rightarrow> nat list \<Rightarrow> u16 list" where
  "samples_at pcm channels out_ch is = concat (map (sample_at pcm channels out_ch) is)"

definition trim_indices :: "nat \<Rightarrow> bool \<Rightarrow> bool \<Rightarrow> nat list \<Rightarrow> nat list" where
  "trim_indices m shrink stretch is = concat (map (\<lambda>i. if shrink \<and> i = m then [] else if stretch \<and> i = m then [i, i] else [i]) is)"

definition in_frame :: "u16 list \<Rightarrow> nat \<Rightarrow> nat \<Rightarrow> nat list \<Rightarrow> bool" where
  "in_frame pcm channels out_ch is \<longleftrightarrow> (\<forall>i \<in> set is. i * channels + out_ch \<le> length pcm) \<and> length pcm < 2 ^ 32"

lemma length_samples_at: "in_frame pcm channels out_ch is \<Longrightarrow> length (samples_at pcm channels out_ch is) = length is * out_ch"
  by (induction "is") (auto simp: samples_at_def sample_at_def in_frame_def)

lemma samples_at_simps [simp]:
  "samples_at pcm channels out_ch [] = []"
  "samples_at pcm channels out_ch (i # is) = sample_at pcm channels out_ch i @ samples_at pcm channels out_ch is"
  by (simp_all add: samples_at_def)

lemma trim_indices_simps [simp]:
  "trim_indices m sh st [] = []"
  "trim_indices m sh st (i # is) = (if sh \<and> i = m then [] else if st \<and> i = m then [i, i] else [i]) @ trim_indices m sh st is"
  by (simp_all add: trim_indices_def)

lemma set_trim_indices: "set (trim_indices m sh st is) \<subseteq> set is"
  by (induction "is") auto

lemma copy_channels_eq:
  assumes "src + n \<le> length pcm" "length pcm < 2 ^ 32" "dst + n \<le> length out"
  shows "copy_channels pcm src dst n out = Some (put_at out dst (take n (drop src pcm)))"
  using assms
proof (induction n)
  case (Suc n)
  have "take (Suc n) (drop src pcm) = take n (drop src pcm) @ [pcm ! (src + n)]"
    using Suc.prems by (simp add: take_Suc_conv_app_nth)
  then show ?case using Suc by (simp add: wr_put put_at_put_at)
qed simp

lemma copy_sample_eq:
  assumes "in_frame pcm channels oc is" "i \<in> set is" "(k + 1) * oc \<le> length out"
  shows "copy_channels pcm (sz_mul i channels) (k * oc) oc out = Some (put_at out (k * oc) (sample_at pcm channels oc i))"
    "length (sample_at pcm channels oc i) = oc"
proof -
  have i: "i * channels + oc \<le> length pcm" "length pcm < 2 ^ 32" using assms(1,2) by (auto simp: in_frame_def)
  then show "copy_channels pcm (sz_mul i channels) (k * oc) oc out = Some (put_at out (k * oc) (sample_at pcm channels oc i))"
    using copy_channels_eq [OF i, of "k * oc" out] assms(3) by (simp add: sample_at_def)
  show "length (sample_at pcm channels oc i) = oc" using i by (simp add: sample_at_def)
qed

lemma in_frame_Cons: "in_frame pcm ch oc (i # is) \<Longrightarrow> in_frame pcm ch oc is"
  by (simp add: in_frame_def)

lemma in_frame_subset: "in_frame pcm ch oc is \<Longrightarrow> set js \<subseteq> set is \<Longrightarrow> in_frame pcm ch oc js"
  by (auto simp: in_frame_def)

lemma copy_trimmed_eq:
  assumes "in_frame pcm channels oc is" "(k + length (trim_indices m sh st is)) * oc \<le> length out"
  shows "copy_trimmed pcm is channels oc m sh st k out = Some (put_at out (k * oc) (samples_at pcm channels oc (trim_indices m sh st is)))"
  using assms
proof (induction "is" arbitrary: k out)
  case (Cons i "is")
  note fr = in_frame_Cons [OF Cons.prems(1)]
  have l: "length (samples_at pcm channels oc (trim_indices m sh st is)) = length (trim_indices m sh st is) * oc"
    using in_frame_subset [OF fr set_trim_indices] by (rule length_samples_at)
  let ?s = "sample_at pcm channels oc i"
  have room: "(k + 1) * oc + length (trim_indices m sh st is) * oc \<le> length out" if "\<not> (sh \<and> i = m)"
    using Cons.prems(2) that by (auto simp: algebra_simps split: if_splits)
  show ?case
  proof (cases "sh \<and> i = m")
    case True
    then show ?thesis using Cons.IH [OF fr, of k out] Cons.prems by simp
  next
    case False
    then have c1: "copy_channels pcm (sz_mul i channels) (k * oc) oc out = Some (put_at out (k * oc) ?s)" "length ?s = oc"
      using copy_sample_eq [OF Cons.prems(1), of i k out] room by simp_all
    have len1: "length (put_at out (k * oc) ?s) = length out" using c1(2) room False by simp
    show ?thesis
    proof (cases "st \<and> i = m")
      case True
      then have room2: "(k + 2) * oc + length (trim_indices m sh st is) * oc \<le> length out"
        using Cons.prems(2) False by (auto simp: algebra_simps)
      then have c2: "copy_channels pcm (sz_mul i channels) ((k + 1) * oc) oc (put_at out (k * oc) ?s) =
          Some (put_at (put_at out (k * oc) ?s) ((k + 1) * oc) ?s)"
        using copy_sample_eq(1) [OF Cons.prems(1), of i "k + 1" "put_at out (k * oc) ?s"] len1 by simp
      have p2: "put_at (put_at out (k * oc) ?s) ((k + 1) * oc) ?s = put_at out (k * oc) (?s @ ?s)"
        using c1(2) room2 by (intro put_at_put_at) (simp_all add: algebra_simps)
      have "length (put_at out (k * oc) (?s @ ?s)) = length out" using c1(2) room2 by simp
      then have "copy_trimmed pcm is channels oc m sh st (k + 2) (put_at out (k * oc) (?s @ ?s)) =
          Some (put_at (put_at out (k * oc) (?s @ ?s)) ((k + 2) * oc) (samples_at pcm channels oc (trim_indices m sh st is)))"
        using room2 by (intro Cons.IH [OF fr]) (simp add: algebra_simps)
      also have "put_at (put_at out (k * oc) (?s @ ?s)) ((k + 2) * oc) (samples_at pcm channels oc (trim_indices m sh st is)) =
          put_at out (k * oc) ((?s @ ?s) @ samples_at pcm channels oc (trim_indices m sh st is))"
        using c1(2) l room2 by (intro put_at_put_at) (simp_all add: algebra_simps)
      finally show ?thesis using False True c1 c2 p2 by simp
    next
      case no: False
      have "copy_trimmed pcm is channels oc m sh st (k + 1) (put_at out (k * oc) ?s) =
          Some (put_at (put_at out (k * oc) ?s) ((k + 1) * oc) (samples_at pcm channels oc (trim_indices m sh st is)))"
        using room [OF False] len1 by (intro Cons.IH [OF fr]) (simp add: algebra_simps)
      also have "put_at (put_at out (k * oc) ?s) ((k + 1) * oc) (samples_at pcm channels oc (trim_indices m sh st is)) =
          put_at out (k * oc) (?s @ samples_at pcm channels oc (trim_indices m sh st is))"
        using c1(2) l room [OF False] by (intro put_at_put_at) (simp_all add: algebra_simps)
      finally show ?thesis using False no c1 by (simp add: if_not_P)
    qed
  qed
qed simp


lemma copy_leading_eq: "k \<le> n \<Longrightarrow> copy_leading pcm [k..<n] channels oc out = copy_trimmed pcm [k..<n] channels oc m False False k out"
proof (induction "n - k" arbitrary: k out)
  case (Suc d)
  then have "[k..<n] = k # [Suc k..<n]" by (simp add: upt_conv_Cons)
  then show ?case using Suc.hyps(1) [of "Suc k"] Suc.hyps(2) Suc.prems by (auto split: bind_split)
qed simp

text \<open>The quietest sample.\<close>

definition magnitude :: "u16 list \<Rightarrow> nat \<Rightarrow> nat \<Rightarrow> nat \<Rightarrow> int" where
  "magnitude pcm channels out_ch i = sum_list (map (\<lambda>s. \<bar>sint s\<bar>) (sample_at pcm channels out_ch i))"

lemma sample_magnitude_eq:
  assumes "in_frame pcm channels oc is" "i \<in> set is"
  shows "sample_magnitude pcm i channels oc = Some (magnitude pcm channels oc i)"
proof -
  have i: "i * channels + oc \<le> length pcm" "length pcm < 2 ^ 32" using assms by (auto simp: in_frame_def)
  have "foldl (\<lambda>m ch. do { mag \<leftarrow> m; s \<leftarrow> rd pcm (sz_add (sz_mul i channels) ch); Some (mag + \<bar>sint s\<bar>) }) (Some 0) [0..<n] =
      Some (sum_list (map (\<lambda>s. \<bar>sint s\<bar>) (take n (drop (i * channels) pcm))))" if "n \<le> oc" for n
    using that
  proof (induction n)
    case (Suc n)
    then show ?case using i by (simp add: take_Suc_conv_app_nth)
  qed simp
  then show ?thesis by (simp add: sample_magnitude_def magnitude_def sample_at_def)
qed

lemma quietest_loop_min:
  assumes "in_frame pcm channels oc is"
  shows "\<exists>r. quietest_loop pcm is channels oc best bm = Some r \<and>
    (r = best \<and> (\<forall>i \<in> set is. bm \<le> magnitude pcm channels oc i) \<or>
     r \<in> set is \<and> magnitude pcm channels oc r < bm \<and> (\<forall>i \<in> set is. magnitude pcm channels oc r \<le> magnitude pcm channels oc i))"
  using assms
proof (induction "is" arbitrary: best bm)
  case (Cons i "is")
  note m = sample_magnitude_eq [OF Cons.prems, of i]
  show ?case
    using Cons.IH [OF in_frame_Cons [OF Cons.prems], of i "magnitude pcm channels oc i"]
      Cons.IH [OF in_frame_Cons [OF Cons.prems], of best bm] m
    by (cases "magnitude pcm channels oc i < bm") (auto intro: order_trans less_imp_le)
qed simp

lemma magnitude_less: "oc \<le> 2 \<Longrightarrow> magnitude pcm channels oc i < 2 ^ 31 - 1"
proof -
  assume "oc \<le> 2"
  have s: "\<bar>sint (w :: u16)\<bar> \<le> 32768" for w using sint_greater_eq [of w] sint_less [of w] by simp
  have "sum_list (map (\<lambda>s. \<bar>sint s\<bar>) xs) \<le> 32768 * int (length xs)" for xs :: "u16 list"
    by (induction xs) (use s in \<open>auto simp: algebra_simps intro: add_mono\<close>)
  from this [of "sample_at pcm channels oc i"] have "magnitude pcm channels oc i \<le> 32768 * int (length (sample_at pcm channels oc i))"
    by (simp add: magnitude_def)
  also have "\<dots> \<le> 32768 * int oc" by (simp add: sample_at_def)
  also have "\<dots> < 2 ^ 31 - 1" using \<open>oc \<le> 2\<close> by simp
  finally show ?thesis .
qed

lemma quietest_sample_index_min:
  assumes "in_frame pcm channels oc [0..<n]" "oc \<le> 2" "0 < n"
  obtains m where "quietest_sample_index pcm n channels oc = Some m" "m < n"
    "\<And>i. i < n \<Longrightarrow> magnitude pcm channels oc m \<le> magnitude pcm channels oc i"
proof -
  have "\<not> (\<forall>i \<in> set [0..<n]. 2 ^ 31 - 1 \<le> magnitude pcm channels oc i)"
    using magnitude_less [OF assms(2), of pcm channels 0] assms(3) by force
  then show thesis
    using quietest_loop_min [OF assms(1), of "n - 1" "2 ^ 31 - 1"] that
    by (auto simp: quietest_sample_index_def)
qed

text \<open>
  What \<open>copy_frame\<close> puts in the output: the first two channels of the samples, all of them, or without
  or with a second copy of a quietest one.
\<close>

definition played :: "u16 list \<Rightarrow> nat \<Rightarrow> nat \<Rightarrow> nat list \<Rightarrow> nat \<Rightarrow> bool" where
  "played pcm channels n is out_samples \<longleftrightarrow> (\<exists>m. is = trim_indices m (out_samples < n) (out_samples > n) [0..<n] \<and> m < n \<and>
     (\<forall>i < n. magnitude pcm channels (min channels 2) m \<le> magnitude pcm channels (min channels 2) i))"

lemma trim_indices_none [simp]: "trim_indices m False False is = is"
  by (induction "is") auto

lemma trim_indices_fresh: "m \<notin> set is \<Longrightarrow> trim_indices m sh st is = is"
  by (induction "is") auto

lemma trim_indices_append: "trim_indices m sh st (is @ js) = trim_indices m sh st is @ trim_indices m sh st js"
  by (simp add: trim_indices_def)

lemma length_trim_indices:
  assumes "m < n"
  shows "length (trim_indices m sh st [0..<n]) = (if sh then n - 1 else if st then n + 1 else n)"
proof -
  have "[0..<n] = [0..<m] @ m # [Suc m..<n]" using assms upt_add_eq_append [of 0 m "n - m"] by (simp add: upt_conv_Cons)
  then have "trim_indices m sh st [0..<n] = [0..<m] @ (if sh then [] else if st then [m, m] else [m]) @ [Suc m..<n]"
    by (simp add: trim_indices_append trim_indices_fresh)
  then show ?thesis using assms by simp
qed

lemma copy_frame_eq:
  assumes pcm: "n * channels \<le> length pcm" "length pcm < 2 ^ 32" and n: "0 < n" "0 < channels"
    and os: "out_samples = n \<or> out_samples = n + 1 \<or> out_samples = n - 1" "out_samples * 2 \<le> length out"
  obtains "is" where "played pcm channels n is out_samples" "length is = out_samples"
    "copy_frame pcm n channels out_samples out = Some (put_at out 0 (samples_at pcm channels (min channels 2) is))"
    "in_frame pcm channels (min channels 2) is"
proof -
  let ?oc = "min channels 2"
  have oc: "(if channels < AUDIO_OUT_CHANNELS then channels else AUDIO_OUT_CHANNELS) = ?oc"
    by (simp add: AUDIO_OUT_CHANNELS_def)
  have "i * channels + ?oc \<le> length pcm" if "i < n" for i
  proof -
    have "(i + 1) * channels \<le> n * channels" using that by (intro mult_right_mono) simp_all
    then show ?thesis using pcm(1) by simp
  qed
  then have fr: "in_frame pcm channels ?oc [0..<n]" using pcm(2) by (simp add: in_frame_def)
  have room: "os * ?oc \<le> length out" if "os \<le> out_samples" for os
  proof -
    have "os * ?oc \<le> out_samples * 2" using that by (intro mult_mono) simp_all
    then show ?thesis using os(2) by simp
  qed
  obtain m where m: "quietest_sample_index pcm n channels ?oc = Some m" "m < n"
    "\<And>i. i < n \<Longrightarrow> magnitude pcm channels ?oc m \<le> magnitude pcm channels ?oc i"
    using quietest_sample_index_min [OF fr _ n(1)] by auto
  let ?is = "trim_indices m (out_samples < n) (out_samples > n) [0..<n]"
  have len: "length ?is = out_samples" using os(1) n(1) m(2) by (auto simp: length_trim_indices)
  have trimmed: "copy_trimmed pcm [0..<n] channels ?oc m (out_samples < n) (out_samples > n) 0 out =
      Some (put_at out 0 (samples_at pcm channels ?oc ?is))"
    using copy_trimmed_eq [OF fr, of 0 m "out_samples < n" "out_samples > n" out] room len by simp
  have "copy_frame pcm n channels out_samples out = Some (put_at out 0 (samples_at pcm channels ?oc ?is))"
  proof (cases "out_samples = n")
    case False
    then show ?thesis using m(1) trimmed by (simp add: copy_frame_def oc)
  next
    case True
    then have lead: "copy_leading pcm [0..<n] channels ?oc out = Some (put_at out 0 (samples_at pcm channels ?oc ?is))"
      using trimmed by (simp add: copy_leading_eq [of 0 n _ _ _ _ m])
    have all: "samples_at pcm channels channels [0..<k] = take (k * channels) pcm" if "k \<le> n" for k
      using that
    proof (induction k)
      case (Suc k)
      then show ?case by (simp add: samples_at_def sample_at_def take_add add.commute [of channels])
    qed (simp add: samples_at_def)
    show ?thesis
    proof (cases "?oc = channels")
      case False
      then have "channels \<noteq> 2" by auto
      then show ?thesis using True lead False by (simp add: copy_frame_def oc)
    next
      case whole: True
      then have "n * channels \<le> length out" using room [of n] True by simp
      then show ?thesis using True whole all [of n] pcm(1) by (simp add: copy_frame_def oc wr_put)
    qed
  qed
  then show thesis
    using that [of ?is] len m in_frame_subset [OF fr set_trim_indices] by (auto simp: played_def)
qed

end
