(* ===== verification/Playout_Safe.thy ===== *)
theory Playout_Safe
  imports Playout_Facts Audio_Play
begin

section \<open>Reading never leaves its buffers and loses no slot\<close>

subsection \<open>The invariant\<close>

text \<open>
  A frame whose header describes at most the PCM area of a slot; the queued frames are such; the pending
  frame was copied from one. The anchor times \<open>net\<close> and \<open>local\<close> and the length of the output stay fixed.
\<close>

definition frame_fits :: "audio_frame \<Rightarrow> bool" where
  "frame_fits f \<longleftrightarrow> af_channels f \<noteq> 0 \<and> unat (af_samples f) * unat (af_channels f) \<le> slot_pcm"

definition frames_fit :: "audio_buffer \<Rightarrow> nat list \<Rightarrow> bool" where
  "frames_fit b slots \<longleftrightarrow> (\<forall>slot \<in> set slots. \<forall>f. slot_ptr b slot = Some f \<longrightarrow> frame_fits f)"

definition item_bytes :: "audio_frame \<Rightarrow> nat" where
  "item_bytes f = 8 + unat (af_samples f) * unat (af_channels f) * 2"

definition pending_ok :: "audio_frame option \<Rightarrow> nat \<Rightarrow> nat \<Rightarrow> bool \<Rightarrow> bool" where
  "pending_ok frame bytes_held capacity valid = (case frame of
      None \<Rightarrow> \<not> valid
    | Some f \<Rightarrow> length (af_pcm f) = (capacity - 8) div 2 \<and> capacity < 2 ^ 32 \<and>
        (valid \<longrightarrow> frame_fits f \<and> bytes_held = item_bytes f \<and> item_bytes f \<le> capacity))"

definition timing_ok :: "u64 \<Rightarrow> int \<Rightarrow> audio_timing \<Rightarrow> bool" where
  "timing_ok net local t \<longleftrightarrow>
     pending_ok (tm_pending_frame t) (tm_pending_frame_len t) (tm_pending_frame_capacity t) (tm_pending_valid t) \<and>
     \<bar>tm_pos_err_filtered_us t\<bar> \<le> 2 ^ 61 \<and> \<bar>tm_last_gap_log_us t\<bar> \<le> 2 ^ 60 \<and>
     \<bar>tm_ready_time_us t\<bar> \<le> 2 ^ 60 \<and> tm_anchor_network_time_ns t = net \<and> tm_anchor_local_time_ns t = local"

definition play_ok :: "nat \<Rightarrow> u64 \<Rightarrow> int \<Rightarrow> nat \<Rightarrow> play_state \<Rightarrow> nat list \<Rightarrow> bool" where
  "play_ok samples net local len s held \<longleftrightarrow> ab_ok (pl_buffer s) held \<and>
     frames_fit (pl_buffer s) (ab_sorted (pl_buffer s) @ held) \<and> timing_ok net local (pl_timing s) \<and>
     length (pl_out s) = len \<and> samples * 2 \<le> len"

definition outcome_ok :: "nat \<Rightarrow> u64 \<Rightarrow> int \<Rightarrow> nat \<Rightarrow> outcome \<Rightarrow> bool" where
  "outcome_ok samples net local len r = (case r of
      Continue s \<Rightarrow> play_ok samples net local len s []
    | Return n s \<Rightarrow> n \<le> samples \<and> play_ok samples net local len s [])"

definition attempt_clock_ok :: "u64 \<Rightarrow> int \<Rightarrow> attempt_clock \<Rightarrow> bool" where
  "attempt_clock_ok net local a \<longleftrightarrow> reading_ok net local (ac_gate a) \<and> reading_ok net local (ac_servo a) \<and> \<bar>ac_gap_us a\<bar> \<le> 2 ^ 60"

fun held_of :: "item \<Rightarrow> nat list" where
  "held_of Pending = []"
| "held_of (Slot slot) = [slot]"

definition item_ok :: "item \<Rightarrow> nat \<Rightarrow> play_state \<Rightarrow> bool" where
  "item_ok item item_size s = (case item of
      Pending \<Rightarrow> tm_pending_valid (pl_timing s) \<and> item_size = tm_pending_frame_len (pl_timing s)
    | Slot slot \<Rightarrow> \<exists>f. slot_ptr (pl_buffer s) slot = Some f \<and> item_size = item_bytes f)"

lemma play_ok_timing:
  "play_ok samples net local len s held \<Longrightarrow> timing_ok net local t \<Longrightarrow> play_ok samples net local len (s\<lparr>pl_timing := t\<rparr>) held"
  by (simp add: play_ok_def)

lemma play_ok_other [simp]:
  "play_ok samples net local len (s\<lparr>pl_stats := st\<rparr>) held = play_ok samples net local len s held"
  "play_ok samples net local len (s\<lparr>pl_dropped_late := d\<rparr>) held = play_ok samples net local len s held"
  by (simp_all add: play_ok_def)

lemma play_ok_out:
  "play_ok samples net local len s held \<Longrightarrow> length out = len \<Longrightarrow> play_ok samples net local len (s\<lparr>pl_out := out\<rparr>) held"
  by (simp add: play_ok_def)

lemma play_okD: "play_ok samples net local len s held \<Longrightarrow> timing_ok net local (pl_timing s)"
  by (simp add: play_ok_def)

text \<open>Changes of the engine that keep it well formed.\<close>

lemma timing_ok_clear [simp]: "timing_ok net local t \<Longrightarrow> timing_ok net local (t\<lparr>tm_pending_valid := False, tm_pending_frame_len := n\<rparr>)"
  by (auto simp: timing_ok_def pending_ok_def split: option.splits)

lemma timing_ok_updates [simp]:
  "timing_ok net local (t\<lparr>tm_consecutive_early_frames := i\<rparr>) = timing_ok net local t"
  "timing_ok net local (t\<lparr>tm_anchor_valid := v\<rparr>) = timing_ok net local t"
  "timing_ok net local (t\<lparr>tm_late_drop_count := c\<rparr>) = timing_ok net local t"
  "timing_ok net local (t\<lparr>tm_late_drop_active := v\<rparr>) = timing_ok net local t"
  "timing_ok net local (t\<lparr>tm_expected_rtp := r\<rparr>) = timing_ok net local t"
  "timing_ok net local (t\<lparr>tm_expected_rtp_valid := v\<rparr>) = timing_ok net local t"
  "timing_ok net local (t\<lparr>tm_playout_started := v\<rparr>) = timing_ok net local t"
  "timing_ok net local (t\<lparr>tm_quick_start := v\<rparr>) = timing_ok net local t"
  "timing_ok net local (t\<lparr>tm_deferred_flush_pending := v\<rparr>) = timing_ok net local t"
  "timing_ok net local (t\<lparr>tm_gaps := c\<rparr>) = timing_ok net local t"
  "timing_ok net local (t\<lparr>tm_gaps_suppressed := c\<rparr>) = timing_ok net local t"
  "timing_ok net local (t\<lparr>tm_servo_engaged := v\<rparr>) = timing_ok net local t"
  "timing_ok net local (t\<lparr>tm_servo_phase := p\<rparr>) = timing_ok net local t"
  "timing_ok net local (t\<lparr>tm_playout_reports := c\<rparr>) = timing_ok net local t"
  by (simp_all add: timing_ok_def)

lemma timing_ok_ready: "timing_ok net local t \<Longrightarrow> \<bar>i\<bar> \<le> 2 ^ 60 \<Longrightarrow> timing_ok net local (t\<lparr>tm_ready_time_us := i\<rparr>)"
  by (simp add: timing_ok_def)

lemma advance_expected_ok [simp]: "timing_ok net local (advance_expected hdr t) = timing_ok net local t"
  by (simp add: advance_expected_def Let_def)

lemma reset_continuity_ok [simp]: "timing_ok net local t \<Longrightarrow> timing_ok net local (audio_timing_reset_continuity t)"
  by (simp add: audio_timing_reset_continuity_def timing_ok_def)

subsection \<open>Slots and items\<close>

lemma frames_fit_pool: "ab_pool b' = ab_pool b \<Longrightarrow> frames_fit b' slots = frames_fit b slots"
  by (simp add: frames_fit_def slot_ptr_def)

lemma frames_fit_append [simp]: "frames_fit b (xs @ ys) \<longleftrightarrow> frames_fit b xs \<and> frames_fit b ys"
  by (auto simp: frames_fit_def)

lemma slot_pcm_eq: "slot_pcm = 704"
  by (simp add: slot_pcm_def AAC_FRAMES_PER_PACKET_def AUDIO_MAX_CHANNELS_def)

lemma discard_item_ok:
  assumes "play_ok samples net local len s (held_of item)"
  obtains s' where "discard_item item s = Some s'" "play_ok samples net local len s' []" "pl_out s' = pl_out s"
    "pl_timing s' = (if item = Pending then (pl_timing s)\<lparr>tm_pending_valid := False, tm_pending_frame_len := 0\<rparr> else pl_timing s)"
    "ab_sorted (pl_buffer s') = ab_sorted (pl_buffer s)" "ab_pool (pl_buffer s') = ab_pool (pl_buffer s)"
    "pl_stats s' = pl_stats s" "pl_dropped_late s' = pl_dropped_late s"
proof (cases item)
  case Pending
  then show thesis using that [of "clear_pending s"] assms
    by (auto simp: discard_item_def clear_pending_def play_ok_def)
next
  case (Slot slot)
  have ok: "ab_ok (pl_buffer s) [slot]" using assms Slot by (simp add: play_ok_def)
  obtain b where b: "push_free slot (pl_buffer s) = Some b" "ab_ok b []" "ab_pool b = ab_pool (pl_buffer s)"
    using push_free_ok [OF ok, of slot] by auto
  have sorted: "ab_sorted b = ab_sorted (pl_buffer s)" using b(1) by (auto simp: push_free_def split: if_splits)
  have "discard_item item s = Some (s\<lparr>pl_buffer := b\<rparr>)"
    using Slot b ok by (auto simp: discard_item_def return_slot_def audio_buffer_return_def ab_ok_def)
  then show thesis using that [of "s\<lparr>pl_buffer := b\<rparr>"] assms b sorted Slot
    by (auto simp: play_ok_def frames_fit_pool [OF b(3)])
qed

lemma continue_without_ok:
  assumes "play_ok samples net local len s (held_of item)"
  shows "\<exists>r. continue_without item s = Some r \<and> outcome_ok samples net local len r"
proof -
  obtain s' where "discard_item item s = Some s'" "play_ok samples net local len s' []"
    using discard_item_ok [OF assms] by blast
  then show ?thesis by (simp add: continue_without_def outcome_ok_def)
qed

lemma item_frame_ok:
  assumes "play_ok samples net local len s (held_of item)" "item_ok item item_size s"
  obtains hdr where "item_frame item s = Some hdr" "frame_fits hdr" "item_size = item_bytes hdr"
    "unat (af_samples hdr) * unat (af_channels hdr) \<le> length (af_pcm hdr)" "length (af_pcm hdr) < 2 ^ 32"
proof (cases item)
  case Pending
  then obtain f where f: "tm_pending_frame (pl_timing s) = Some f" "frame_fits f" "item_size = item_bytes f"
    "item_bytes f \<le> tm_pending_frame_capacity (pl_timing s)" "tm_pending_frame_capacity (pl_timing s) < 2 ^ 32"
    "length (af_pcm f) = (tm_pending_frame_capacity (pl_timing s) - 8) div 2"
    using assms by (auto simp: play_ok_def timing_ok_def pending_ok_def item_ok_def split: option.splits)
  then show thesis using that [of f] Pending by (simp add: item_frame_def item_bytes_def)
next
  case (Slot slot)
  then obtain f where f: "slot_ptr (pl_buffer s) slot = Some f" "item_size = item_bytes f"
    using assms(2) by (auto simp: item_ok_def)
  moreover have "frame_fits f" using assms(1) f(1) Slot by (auto simp: play_ok_def frames_fit_def)
  moreover have "length (af_pcm f) = slot_pcm"
    using assms(1) f(1) by (auto simp: play_ok_def ab_ok_def slot_ptr_def rd_def split: if_splits)
  ultimately show thesis using that [of f] Slot by (simp add: item_frame_def frame_fits_def slot_pcm_eq)
qed


lemma audio_buffer_take_ok:
  assumes "ab_ok b []" "frames_fit b (ab_sorted b)"
  obtains b' where "audio_buffer_take b = Some (None, b')" "ab_ok b' []" "frames_fit b' (ab_sorted b')"
  | b' slot f where "audio_buffer_take b = Some (Some (slot, item_bytes f), b')" "ab_ok b' [slot]"
      "frames_fit b' (ab_sorted b' @ [slot])" "slot_ptr b' slot = Some f"
proof (cases "fst (sem_take b)")
  case False
  then show thesis using that(1) [of b] assms by (auto simp: audio_buffer_take_def sem_take_def ab_ok_def split: if_splits)
next
  case True
  obtain b1 where st: "sem_take b = (True, b1)" using True by (cases "sem_take b") auto
  obtain pool where pool: "ab_pool b = Some pool" using assms(1) by (auto simp: ab_ok_def)
  have b1: "b1 = snd (sem_take b)" using st by simp
  have ok: "ab_ok b1 []" unfolding b1 using assms(1) by simp
  have fit: "frames_fit b1 (ab_sorted b1)" unfolding b1 using assms(2) frames_fit_pool [of "snd (sem_take b)" b] by simp
  show thesis
  proof (cases "ab_sorted b")
    case Nil
    then have "ab_sorted b1 = []" by (simp add: b1)
    then show thesis using that(1) [of b1] ok fit st pool by (simp add: audio_buffer_take_def take_critical_def)
  next
    case (Cons slot rest)
    then have s1: "ab_sorted b1 = slot # rest" "ab_capacity b1 = ab_capacity b" by (simp_all add: b1)
    let ?b' = "b1\<lparr>ab_sorted := rest\<rparr>"
    have b': "ab_ok ?b' [slot]" by (rule ab_ok_perm [OF ok]) (simp_all add: s1)
    have "slot < ab_capacity b" using ab_sorted_valid [OF assms(1)] Cons by simp
    then obtain f where f: "slot_ptr ?b' slot = Some f" using slot_ptr_ok [OF b', of slot] s1 by auto
    have "frames_fit b1 (ab_sorted ?b' @ [slot])" using fit s1 by (auto simp: frames_fit_def)
    then have "frames_fit ?b' (ab_sorted ?b' @ [slot])" using frames_fit_pool [of ?b' b1] by simp
    moreover have "audio_buffer_take b = Some (Some (slot, item_bytes f), ?b')"
      using st pool s1 f by (simp add: audio_buffer_take_def take_critical_def item_bytes_def)
    ultimately show thesis using that(2) b' f by blast
  qed
qed

lemma take_oldest_slot:
  assumes "ab_ok b []" "frames_fit b (ab_sorted b)" "ab_sorted b = slot # rest" "0 < ab_ready b" "slot_ptr b slot = Some f"
  shows "\<exists>b'. audio_buffer_take b = Some (Some (slot, item_bytes f), b') \<and> ab_ok b' [slot] \<and>
    frames_fit b' (ab_sorted b' @ [slot]) \<and> slot_ptr b' slot = Some f \<and> ab_sorted b' = rest"
proof -
  let ?b' = "(b\<lparr>ab_ready := ab_ready b - 1\<rparr>)\<lparr>ab_sorted := rest\<rparr>"
  obtain pool where pool: "ab_pool b = Some pool" using assms(1) by (auto simp: ab_ok_def)
  have ptr: "slot_ptr ?b' slot = Some f" using assms(5) by (simp add: slot_ptr_def)
  have "audio_buffer_take b = Some (Some (slot, item_bytes f), ?b')"
    using pool assms(3,4) ptr by (simp add: audio_buffer_take_def sem_take_def take_critical_def item_bytes_def)
  moreover have "ab_ok ?b' [slot]" by (rule ab_ok_perm [OF assms(1)]) (simp_all add: assms(3))
  moreover have "frames_fit ?b' (ab_sorted ?b' @ [slot])"
    using frames_fit_pool [of ?b' b] assms(2,3) by (auto simp: frames_fit_def slot_ptr_def)
  ultimately show ?thesis using ptr by simp
qed

lemma bulk_start_total: "ab_ok b held \<Longrightarrow> \<exists>r. audio_buffer_bulk_start_rtp b = Some r"
proof -
  assume ok: "ab_ok b held"
  then obtain pool where pool: "ab_pool b = Some pool" by (auto simp: ab_ok_def)
  show ?thesis
  proof (cases "ab_sorted b = []")
    case False
    let ?n = "length (ab_sorted b) - 1"
    have n: "?n < length (ab_sorted b)" using False by simp
    have "ab_sorted b ! ?n < ab_capacity b" using n by (intro ab_sorted_valid [OF ok]) simp
    then have "slot_ptr b (ab_sorted b ! ?n) = Some (queued b ! ?n)"
      using n by (simp add: slot_ptr_eq [OF ok] queued_def frames_of_def)
    then show ?thesis using False pool bulk_loop_start [OF ok n] by (auto simp: audio_buffer_bulk_start_rtp_def)
  qed (simp add: audio_buffer_bulk_start_rtp_def pool)
qed

lemma stale_start_ok: "ab_ok (pl_buffer s) held \<Longrightarrow> \<exists>b. stale_start c hdr s = Some b"
  using bulk_start_total [of "pl_buffer s" held] by (auto simp: stale_start_def split: option.split)

text \<open>The fields a gap note changes.\<close>

definition gap_proj :: "audio_timing \<Rightarrow> audio_timing" where
  "gap_proj t = t\<lparr>tm_gaps := 0, tm_last_gap_log_us := 0, tm_gaps_suppressed := 0\<rparr>"

definition is_gap :: "item \<Rightarrow> audio_frame \<Rightarrow> audio_timing \<Rightarrow> bool" where
  "is_gap item hdr t \<longleftrightarrow> item \<noteq> Pending \<and> tm_playout_started t \<and> tm_expected_rtp_valid t \<and>
     sint (af_timestamp hdr - tm_expected_rtp t) > 0"

lemma note_gap_ok:
  assumes t: "timing_ok net local t" "\<bar>now\<bar> \<le> 2 ^ 60" "fm_sample_rate (pc_format c) \<noteq> 0"
  shows "\<exists>t'. note_gap c now item hdr t = Some (is_gap item hdr t, t') \<and> timing_ok net local t' \<and> gap_proj t' = gap_proj t"
proof (cases "is_gap item hdr t")
  case False
  then have "note_gap c now item hdr t = Some (is_gap item hdr t, t)" by (auto simp: note_gap_def is_gap_def)
  then show ?thesis using t(1) by blast
next
  case True
  have i: "i64 (now - tm_last_gap_log_us t) = Some (now - tm_last_gap_log_us t)"
    using t(1,2) by (simp add: timing_ok_def i64_eq_Some abs_le_iff)
  show ?thesis
  proof (cases "now - tm_last_gap_log_us t > 250000")
    case log: True
    let ?t = "t\<lparr>tm_gaps := tm_gaps t + 1, tm_last_gap_log_us := now, tm_gaps_suppressed := 0\<rparr>"
    have "timing_ok net local ?t" using t(1,2) by (simp add: timing_ok_def)
    moreover have "note_gap c now item hdr t = Some (is_gap item hdr t, ?t)"
      using True log i t(3) by (simp add: note_gap_def is_gap_def Let_def)
    ultimately show ?thesis by (intro exI [of _ ?t]) (simp add: gap_proj_def)
  next
    case quiet: False
    let ?t = "t\<lparr>tm_gaps := tm_gaps t + 1, tm_gaps_suppressed := tm_gaps_suppressed t + 1\<rparr>"
    have "timing_ok net local ?t" using t(1) by simp
    moreover have "note_gap c now item hdr t = Some (is_gap item hdr t, ?t)"
      using True quiet i by (simp add: note_gap_def is_gap_def Let_def)
    ultimately show ?thesis by (intro exI [of _ ?t]) (simp add: gap_proj_def)
  qed
qed

subsection \<open>Playing, holding and dropping\<close>

lemma adjusted_samples_cases:
  assumes "0 < n" "n \<le> samples"
  shows "adjusted_samples samples n adj \<le> samples"
    "adjusted_samples samples n adj = n \<or> adjusted_samples samples n adj = n + 1 \<or> adjusted_samples samples n adj = n - 1"
  using assms by (auto simp: adjusted_samples_def)

lemma servo_adjust_ok:
  assumes t: "timing_ok net local t" and r: "reading_ok net local r"
  obtains t' adj where "servo_adjust c r hdr t = Some (t', adj)" "servo_proj t' = servo_proj t" "timing_ok net local t'"
    "\<bar>tm_pos_err_filtered_us t' - tm_pos_err_filtered_us t\<bar> \<le> 93" "adj \<in> {-1, 0, 1}"
proof (cases "tm_anchor_valid t \<and> pc_sync_mode c \<noteq> SYNC_MODE_NONE \<and> tm_playout_started t \<and> fm_sample_rate (pc_format c) > 0")
  case False
  then show thesis using that [of t 0] t compute_early_us_None [of t "pc_format c"]
    by (cases "fm_sample_rate (pc_format c) > 0") (auto simp: servo_adjust_def)
next
  case True
  let ?t = "t\<lparr>tm_playout_reports := tm_playout_reports t + 1\<rparr>"
  have r': "reading_ok (tm_anchor_network_time_ns t) (tm_anchor_local_time_ns t) r" using t r by (simp add: timing_ok_def)
  note e = compute_early_us_eq [OF r', of "pc_format c" "af_timestamp hdr" "pc_sync_mode c"]
  obtain t' adj where s: "servo_step (early_of t (pc_format c) (af_timestamp hdr) (pc_sync_mode c) r) ?t = Some (t', adj)"
    "servo_proj t' = servo_proj ?t" "\<bar>tm_pos_err_filtered_us t'\<bar> \<le> 2 ^ 61"
    "\<bar>tm_pos_err_filtered_us t' - tm_pos_err_filtered_us ?t\<bar> \<le> 93" "adj \<in> {-1, 0, 1}"
    using servo_step_ok [of "early_of t (pc_format c) (af_timestamp hdr) (pc_sync_mode c) r" ?t] e(2) True t
    by (auto simp: timing_ok_def)
  have "timing_ok net local t'" using t s(3) servo_proj_fields [OF s(2)] by (simp add: timing_ok_def)
  then show thesis using that [of t' adj] s e(1) True by (simp add: servo_adjust_def)
qed


lemma frame_fits_sizes:
  assumes "frame_fits hdr" "unat (af_samples hdr) * unat (af_channels hdr) \<le> length (af_pcm hdr)"
  shows "frame_channels format hdr = unat (af_channels hdr)" "0 < unat (af_channels hdr)"
    "sz_add 8 (sz_mul (sz_mul (unat (af_samples hdr)) (unat (af_channels hdr))) 2) = item_bytes hdr"
    "n \<le> unat (af_samples hdr) \<Longrightarrow> n * unat (af_channels hdr) \<le> length (af_pcm hdr)"
proof -
  show "frame_channels format hdr = unat (af_channels hdr)" "0 < unat (af_channels hdr)"
    using assms(1) by (simp_all add: frame_fits_def frame_channels_def unat_gt_0)
  show "sz_add 8 (sz_mul (sz_mul (unat (af_samples hdr)) (unat (af_channels hdr))) 2) = item_bytes hdr"
    using assms(1) by (simp add: frame_fits_def slot_pcm_eq item_bytes_def)
  show "n \<le> unat (af_samples hdr) \<Longrightarrow> n * unat (af_channels hdr) \<le> length (af_pcm hdr)"
    using assms(2) by (meson mult_le_mono1 order_trans)
qed

lemma play_item_result:
  assumes s: "play_ok (pc_samples c) net local len s (held_of item)" and r: "reading_ok net local r"
    and h: "frame_fits hdr" "unat (af_samples hdr) * unat (af_channels hdr) \<le> length (af_pcm hdr)" "length (af_pcm hdr) < 2 ^ 32"
    and n: "0 < n" "n \<le> unat (af_samples hdr)" "n \<le> pc_samples c"
  obtains k "is" s' where "play_item c r item hdr n (unat (af_channels hdr)) s = Some (Return k s')" "k \<le> pc_samples c"
    "k = n \<or> k = n + 1 \<or> k = n - 1" "length is = k" "played (af_pcm hdr) (unat (af_channels hdr)) n is k"
    "pl_out s' = put_at (pl_out s) 0 (samples_at (af_pcm hdr) (unat (af_channels hdr)) (min (unat (af_channels hdr)) 2) is)"
    "in_frame (af_pcm hdr) (unat (af_channels hdr)) (min (unat (af_channels hdr)) 2) is"
    "play_ok (pc_samples c) net local len s' []" "ab_sorted (pl_buffer s') = ab_sorted (pl_buffer s)"
    "\<not> tm_late_drop_active (pl_timing s')" "tm_playout_started (pl_timing s')"
proof -
  have tok: "timing_ok net local ((pl_timing s)\<lparr>tm_consecutive_early_frames := 0\<rparr>)" using play_okD [OF s] by simp
  obtain t1 adj where t1: "servo_adjust c r hdr ((pl_timing s)\<lparr>tm_consecutive_early_frames := 0\<rparr>) = Some (t1, adj)" "timing_ok net local t1"
    using servo_adjust_ok [OF tok r, of c hdr] by metis
  let ?n = "adjusted_samples (pc_samples c) n adj"
  note a = adjusted_samples_cases [OF n(1,3), of adj]
  have out: "length (pl_out s) = len" "pc_samples c * 2 \<le> len" using s by (simp_all add: play_ok_def)
  have room: "?n * 2 \<le> length (pl_out s)" using a(1) out by linarith
  obtain "is" where c1: "copy_frame (af_pcm hdr) n (unat (af_channels hdr)) ?n (pl_out s) =
      Some (put_at (pl_out s) 0 (samples_at (af_pcm hdr) (unat (af_channels hdr)) (min (unat (af_channels hdr)) 2) is))"
    "length is = ?n" "played (af_pcm hdr) (unat (af_channels hdr)) n is ?n" "in_frame (af_pcm hdr) (unat (af_channels hdr)) (min (unat (af_channels hdr)) 2) is"
    using copy_frame_eq [OF frame_fits_sizes(4) [OF h(1,2) n(2)] h(3) n(1) frame_fits_sizes(2) [OF h(1,2)] a(2) room] by metis
  have fits: "?n * min (unat (af_channels hdr)) 2 \<le> len"
  proof -
    have "?n * min (unat (af_channels hdr)) 2 \<le> ?n * 2" by (intro mult_left_mono) simp_all
    then show ?thesis using room out(1) by linarith
  qed
  let ?out = "put_at (pl_out s) 0 (samples_at (af_pcm hdr) (unat (af_channels hdr)) (min (unat (af_channels hdr)) 2) is)"
  have len: "length ?out = len" using length_samples_at [OF c1(4)] c1(2) fits out(1) by simp
  have s2: "play_ok (pc_samples c) net local len (s\<lparr>pl_timing := advance_expected hdr t1, pl_out := ?out\<rparr>) (held_of item)"
    using play_ok_out [OF play_ok_timing [OF s] len] t1(2) by simp
  obtain s3 where s3: "discard_item item (s\<lparr>pl_timing := advance_expected hdr t1, pl_out := ?out\<rparr>) = Some s3"
    "play_ok (pc_samples c) net local len s3 []" "pl_out s3 = ?out" "ab_sorted (pl_buffer s3) = ab_sorted (pl_buffer s)"
    using discard_item_ok [OF s2] by (metis (no_types, lifting) play_state.select_convs(2,4) play_state.surjective play_state.update_convs(1,4))
  define t3 where "t3 = (if \<not> tm_playout_started (pl_timing s3)
     then (pl_timing s3)\<lparr>tm_playout_started := True, tm_quick_start := False\<rparr> else pl_timing s3)"
  define t4 where "t4 = (if tm_late_drop_active t3 then t3\<lparr>tm_late_drop_count := 0, tm_late_drop_active := False\<rparr> else t3)"
  have "timing_ok net local t4" using play_okD [OF s3(2)] by (simp add: t3_def t4_def)
  then have "play_ok (pc_samples c) net local len (s3\<lparr>pl_timing := t4\<rparr>) []" by (rule play_ok_timing [OF s3(2)])
  moreover have "play_item c r item hdr n (unat (af_channels hdr)) s = Some (Return ?n (s3\<lparr>pl_timing := t4\<rparr>))"
    using t1(1) c1(1) s3(1) by (simp add: play_item_def Let_def t3_def t4_def)
  moreover have "tm_playout_started t4" "\<not> tm_late_drop_active t4" by (simp_all add: t3_def t4_def)
  ultimately show thesis using that [of ?n "s3\<lparr>pl_timing := t4\<rparr>" "is"] a c1 s3(3,4) by simp
qed

lemma play_item_ok:
  assumes s: "play_ok (pc_samples c) net local len s (held_of item)" and r: "reading_ok net local r"
    and h: "frame_fits hdr" "unat (af_samples hdr) * unat (af_channels hdr) \<le> length (af_pcm hdr)" "length (af_pcm hdr) < 2 ^ 32"
    and n: "0 < n" "n \<le> unat (af_samples hdr)" "n \<le> pc_samples c"
  shows "\<exists>res. play_item c r item hdr n (unat (af_channels hdr)) s = Some res \<and> outcome_ok (pc_samples c) net local len res"
proof -
  obtain k s' where "play_item c r item hdr n (unat (af_channels hdr)) s = Some (Return k s')" "k \<le> pc_samples c"
    "play_ok (pc_samples c) net local len s' []"
    using play_item_result [OF assms] by blast
  then show ?thesis by (simp add: outcome_ok_def)
qed

lemma store_pending_ok:
  assumes "frame_fits hdr" "unat (af_samples hdr) * unat (af_channels hdr) \<le> length (af_pcm hdr)"
    "pending_ok (Some frame) n cap v" "item_bytes hdr \<le> cap"
  shows "\<exists>f. store_pending (item_bytes hdr) hdr frame = Some f \<and> pending_ok (Some f) (item_bytes hdr) cap True"
proof -
  let ?k = "unat (af_samples hdr) * unat (af_channels hdr)"
  have k: "(item_bytes hdr - 8) div 2 = ?k" by (simp add: item_bytes_def)
  have room: "0 + length (take ?k (af_pcm hdr)) \<le> length (af_pcm frame)"
    using assms(2-4) by (auto simp: pending_ok_def item_bytes_def)
  have "store_pending (item_bytes hdr) hdr frame = Some (hdr\<lparr>af_pcm := put_at (af_pcm frame) 0 (take ?k (af_pcm hdr))\<rparr>)"
    using room assms(2) by (simp add: store_pending_def k wr_put)
  then show ?thesis using assms room by (auto simp: pending_ok_def frame_fits_def item_bytes_def)
qed

lemma return_slot_ok:
  assumes "play_ok samples net local len s [slot]"
  shows "\<exists>s'. return_slot slot s = Some s' \<and> play_ok samples net local len s' [] \<and> pl_timing s' = pl_timing s \<and> pl_out s' = pl_out s"
  using discard_item_ok [of samples net local len s "Slot slot"] assms by (auto simp: discard_item_def)

lemma keep_pending_ok:
  assumes s: "play_ok samples net local len s (held_of item)"
    and h: "frame_fits hdr" "unat (af_samples hdr) * unat (af_channels hdr) \<le> length (af_pcm hdr)"
  shows "\<exists>s'. keep_pending item (item_bytes hdr) hdr s = Some s' \<and> play_ok samples net local len s' [] \<and> pl_out s' = pl_out s"
proof (cases item)
  case Pending
  then show ?thesis using s by (simp add: keep_pending_def)
next
  case (Slot slot)
  let ?t = "pl_timing s"
  have ok: "timing_ok net local ?t" using play_okD [OF s] .
  show ?thesis
  proof (cases "\<exists>f. tm_pending_frame ?t = Some f \<and> item_bytes hdr \<le> tm_pending_frame_capacity ?t")
    case False
    then show ?thesis using return_slot_ok [of samples net local len s slot] s Slot
      by (auto simp: keep_pending_def split: option.split)
  next
    case True
    then obtain f0 where f0: "tm_pending_frame ?t = Some f0" "item_bytes hdr \<le> tm_pending_frame_capacity ?t" by blast
    have "pending_ok (Some f0) (tm_pending_frame_len ?t) (tm_pending_frame_capacity ?t) (tm_pending_valid ?t)"
      using ok f0(1) by (simp add: timing_ok_def)
    then obtain f where f: "store_pending (item_bytes hdr) hdr f0 = Some f"
      "pending_ok (Some f) (item_bytes hdr) (tm_pending_frame_capacity ?t) True"
      using store_pending_ok [OF h _ f0(2)] by blast
    let ?t' = "?t\<lparr>tm_pending_frame := Some f, tm_pending_frame_len := item_bytes hdr, tm_pending_valid := True\<rparr>"
    have "timing_ok net local ?t'" using ok f(2) by (simp add: timing_ok_def)
    then have "play_ok samples net local len (s\<lparr>pl_timing := ?t'\<rparr>) [slot]" using play_ok_timing [OF s] Slot by simp
    then show ?thesis using return_slot_ok [of samples net local len "s\<lparr>pl_timing := ?t'\<rparr>" slot] f0 f(1) Slot
      by (auto simp: keep_pending_def)
  qed
qed

lemma hold_item_ok:
  assumes s: "play_ok samples net local len s (held_of item)" "n \<le> samples"
    and h: "frame_fits hdr" "unat (af_samples hdr) * unat (af_channels hdr) \<le> length (af_pcm hdr)"
  shows "\<exists>r. hold_item item (item_bytes hdr) hdr n s = Some r \<and> outcome_ok samples net local len r"
proof -
  obtain s' where s': "keep_pending item (item_bytes hdr) hdr s = Some s'" "play_ok samples net local len s' []"
    using keep_pending_ok [OF s(1) h] by blast
  have "n * 2 \<le> length (pl_out s')" using s'(2) s(2) by (auto simp: play_ok_def)
  then show ?thesis using s' s(2) play_ok_out [OF s'(2)]
    by (auto simp: hold_item_def AUDIO_OUT_CHANNELS_def wr_put outcome_ok_def play_ok_def)
qed

lemma drop_item_ok:
  assumes "play_ok samples net local len s (held_of item)"
  shows "\<exists>r. drop_item item hdr s = Some r \<and> outcome_ok samples net local len r"
  unfolding drop_item_def Let_def using play_okD [OF assms] by (intro continue_without_ok) (simp add: play_ok_timing [OF assms])

lemma deferred_flush_ok:
  assumes "play_ok samples net local len s (held_of item)"
  shows "\<exists>r. deferred_flush item s = Some r \<and> outcome_ok samples net local len r"
proof -
  obtain s' where s': "discard_item item s = Some s'" "play_ok samples net local len s' []" using discard_item_ok [OF assms] by blast
  let ?b = "pl_buffer s'"
  have ok: "ab_ok ?b []" using s'(2) by (simp add: play_ok_def)
  note f = flush_critical_ok [OF ok]
  have "ab_pool ?b \<noteq> None" using ok by (auto simp: ab_ok_def)
  then have "\<exists>b. audio_buffer_flush ?b = Some b \<and> ab_ok b [] \<and> ab_sorted b = []"
    using f by (simp add: audio_buffer_flush_def drain_semaphore_def ab_ok_def)
  then obtain b where b: "audio_buffer_flush ?b = Some b" "ab_ok b []" "ab_sorted b = []" by blast
  let ?t = "audio_timing_reset_continuity ((pl_timing s')\<lparr>tm_deferred_flush_pending := False\<rparr>)"
  have "timing_ok net local (?t\<lparr>tm_playout_started := v, tm_ready_time_us := 0, tm_consecutive_early_frames := i, tm_quick_start := q\<rparr>)" for v i q
    using play_okD [OF s'(2)] by (simp add: timing_ok_ready)
  then show ?thesis using s' b
    by (auto simp: deferred_flush_def Let_def outcome_ok_def play_ok_def frames_fit_def)
qed


subsection \<open>The gate, an attempt and the loop\<close>

text \<open>The thresholds of the gate, and the gate with its computed lead.\<close>

definition strict_us :: "play_call \<Rightarrow> nat \<Rightarrow> int" where
  "strict_us c n = (int n * 1000000) sdiv fm_sample_rate (pc_format c) sdiv 2"

definition release_us :: "play_call \<Rightarrow> item \<Rightarrow> bool \<Rightarrow> bool \<Rightarrow> nat \<Rightarrow> int" where
  "release_us c item dropped gap n = (if item = Pending \<or> dropped \<or> gap then strict_us c n else pc_threshold_us c)"

definition late_limit_us :: "play_call \<Rightarrow> bool \<Rightarrow> nat \<Rightarrow> int" where
  "late_limit_us c dropped n = (if dropped then - strict_us c n else - pc_threshold_us c)"

definition count_early :: "item \<Rightarrow> audio_timing \<Rightarrow> audio_timing" where
  "count_early item t = (if item \<noteq> Pending then t\<lparr>tm_consecutive_early_frames := tm_consecutive_early_frames t + 1\<rparr> else t)"

definition lead_us :: "play_call \<Rightarrow> attempt_clock \<Rightarrow> audio_frame \<Rightarrow> audio_timing \<Rightarrow> int" where
  "lead_us c a hdr t = early_of t (pc_format c) (af_timestamp hdr) (pc_sync_mode c) (ac_gate a)"

lemma gate_item_scheduled:
  assumes "tm_anchor_valid (pl_timing s)" "fm_sample_rate (pc_format c) > 0"
    "reading_ok (tm_anchor_network_time_ns (pl_timing s)) (tm_anchor_local_time_ns (pl_timing s)) (ac_gate a)"
  shows "gate_item c a item size_of hdr n channels gap s =
    (if lead_us c a hdr (pl_timing s) > release_us c item (pl_dropped_late s) gap n then
       if tm_consecutive_early_frames (count_early item (pl_timing s)) > MAX_CONSECUTIVE_EARLY
       then play_item c (ac_servo a) item hdr n channels
         (s\<lparr>pl_timing := (count_early item (pl_timing s))\<lparr>tm_anchor_valid := False, tm_consecutive_early_frames := 0\<rparr>\<rparr>)
       else hold_item item size_of hdr n (s\<lparr>pl_timing := count_early item (pl_timing s)\<rparr>)
     else if lead_us c a hdr (pl_timing s) < late_limit_us c (pl_dropped_late s) n then drop_item item hdr s
     else play_item c (ac_servo a) item hdr n channels s)"
proof -
  have on: "(tm_anchor_valid (pl_timing s) \<and> fm_sample_rate (pc_format c) > 0) = True" using assms by simp
  show ?thesis
    unfolding gate_item_def Let_def on if_True compute_early_us_eq(1) [OF assms(3,1,2)]
      release_us_def late_limit_us_def strict_us_def count_early_def lead_us_def
    by (simp only: option.case Option.bind.simps)
qed

lemma timing_ok_count_early [simp]: "timing_ok net local (count_early item t) = timing_ok net local t"
  by (simp add: count_early_def)

lemma if_cases_ok: "(b \<Longrightarrow> \<exists>r. x = Some r \<and> P r) \<Longrightarrow> (\<not> b \<Longrightarrow> \<exists>r. y = Some r \<and> P r) \<Longrightarrow> \<exists>r. (if b then x else y) = Some r \<and> P r"
  by simp

lemma gate_item_ok:
  assumes s: "play_ok (pc_samples c) net local len s (held_of item)" and a: "attempt_clock_ok net local a"
    and h: "frame_fits hdr" "unat (af_samples hdr) * unat (af_channels hdr) \<le> length (af_pcm hdr)" "length (af_pcm hdr) < 2 ^ 32"
    and n: "0 < n" "n \<le> unat (af_samples hdr)" "n \<le> pc_samples c"
  shows "\<exists>r. gate_item c a item (item_bytes hdr) hdr n (unat (af_channels hdr)) gap s = Some r \<and> outcome_ok (pc_samples c) net local len r"
proof -
  have r: "reading_ok net local (ac_gate a)" "reading_ok net local (ac_servo a)" using a by (simp_all add: attempt_clock_ok_def)
  note tok = play_okD [OF s]
  have play: "\<exists>r. play_item c (ac_servo a) item hdr n (unat (af_channels hdr)) (s\<lparr>pl_timing := t\<rparr>) = Some r \<and>
      outcome_ok (pc_samples c) net local len r" if "timing_ok net local t" for t
    using play_item_ok [OF play_ok_timing [OF s that] r(2) h n] .
  have play0: "\<exists>r. play_item c (ac_servo a) item hdr n (unat (af_channels hdr)) s = Some r \<and> outcome_ok (pc_samples c) net local len r"
    using play [OF tok] by simp
  have hold: "\<exists>r. hold_item item (item_bytes hdr) hdr n (s\<lparr>pl_timing := t\<rparr>) = Some r \<and> outcome_ok (pc_samples c) net local len r"
    if "timing_ok net local t" for t
    using hold_item_ok [OF play_ok_timing [OF s that] n(3) h(1,2)] .
  show ?thesis
  proof (cases "tm_anchor_valid (pl_timing s) \<and> fm_sample_rate (pc_format c) > 0")
    case False
    show ?thesis unfolding gate_item_def Let_def if_not_P [OF False] by (rule play0)
  next
    case True
    have r': "reading_ok (tm_anchor_network_time_ns (pl_timing s)) (tm_anchor_local_time_ns (pl_timing s)) (ac_gate a)"
      using r(1) tok by (simp add: timing_ok_def)
    show ?thesis
      unfolding gate_item_scheduled [OF True [THEN conjunct1] True [THEN conjunct2] r']
      by (intro if_cases_ok play hold drop_item_ok [OF s] play0) (simp_all add: tok)
  qed
qed

lemma process_item_ok:
  assumes s: "play_ok (pc_samples c) net local len s (held_of item)" and it: "item_ok item item_size s"
    and a: "attempt_clock_ok net local a" and c: "0 < pc_samples c" "fm_sample_rate (pc_format c) \<noteq> 0"
  shows "\<exists>r. process_item c a item item_size s = Some r \<and> outcome_ok (pc_samples c) net local len r"
proof -
  obtain hdr where hdr: "item_frame item s = Some hdr" "frame_fits hdr" "item_size = item_bytes hdr"
    "unat (af_samples hdr) * unat (af_channels hdr) \<le> length (af_pcm hdr)" "length (af_pcm hdr) < 2 ^ 32"
    using item_frame_ok [OF s it] by blast
  note sizes = frame_fits_sizes [OF hdr(2,4)]
  let ?n = "if unat (af_samples hdr) > pc_samples c then pc_samples c else unat (af_samples hdr)"
  obtain stale where stale: "stale_start c hdr s = Some stale"
    using stale_start_ok [of s "held_of item"] s by (auto simp: play_ok_def)
  have now: "\<bar>ac_gap_us a\<bar> \<le> 2 ^ 60" using a by (simp add: attempt_clock_ok_def)
  obtain t' where gap: "note_gap c (ac_gap_us a) item hdr (pl_timing s) = Some (is_gap item hdr (pl_timing s), t')" "timing_ok net local t'"
    using note_gap_ok [OF play_okD [OF s] now c(2)] by blast
  have gate: "\<exists>r. gate_item c a item (item_bytes hdr) hdr ?n (unat (af_channels hdr)) g (s\<lparr>pl_timing := t'\<rparr>) = Some r \<and>
      outcome_ok (pc_samples c) net local len r" if "unat (af_samples hdr) \<noteq> 0" for g
    using that c(1) by (intro gate_item_ok [OF play_ok_timing [OF s gap(2)] a hdr(2,4,5)]) simp_all
  show ?thesis
    unfolding process_item_def hdr(1,3) Option.bind.simps Let_def sizes(1,3)
    using continue_without_ok [OF s] deferred_flush_ok [OF s] gate stale gap(1) sizes(2) by simp
qed

lemma attempt_ok:
  assumes s: "play_ok (pc_samples c) net local len s []" and a: "attempt_clock_ok net local a"
    and c: "0 < pc_samples c" "fm_sample_rate (pc_format c) \<noteq> 0"
  shows "\<exists>r. attempt c a s = Some r \<and> outcome_ok (pc_samples c) net local len r"
proof (cases "tm_pending_valid (pl_timing s)")
  case True
  have "play_ok (pc_samples c) net local len (clear_pending s) []"
    using play_ok_timing [OF s timing_ok_clear [OF play_okD [OF s]]] by (simp add: clear_pending_def)
  then show ?thesis
    using True process_item_ok [of c net local len s Pending, OF _ _ a c] s by (simp add: attempt_def Let_def item_ok_def outcome_ok_def)
next
  case False
  have b: "ab_ok (pl_buffer s) []" "frames_fit (pl_buffer s) (ab_sorted (pl_buffer s))" using s by (simp_all add: play_ok_def)
  show ?thesis
  proof (cases rule: audio_buffer_take_ok [OF b])
    case (1 b')
    then show ?thesis using False s by (auto simp: attempt_def outcome_ok_def play_ok_def)
  next
    case (2 b' slot f)
    let ?s = "s\<lparr>pl_buffer := b'\<rparr>"
    have ok: "play_ok (pc_samples c) net local len ?s (held_of (Slot slot))" using s 2 by (simp add: play_ok_def)
    have "item_ok (Slot slot) (item_bytes f) ?s" using 2 by (simp add: item_ok_def)
    from process_item_ok [OF ok this a c] show ?thesis using False 2 by (simp add: attempt_def item_bytes_def)
  qed
qed

lemma drain_loop_ok:
  assumes "play_ok (pc_samples c) net local len s []" "\<forall>k. attempt_clock_ok net local (clock k)"
    "0 < pc_samples c" "fm_sample_rate (pc_format c) \<noteq> 0"
  shows "\<exists>n s'. drain_loop c clock deadline k s = Some (n, s') \<and> n \<le> pc_samples c \<and> play_ok (pc_samples c) net local len s' []"
  using assms(1)
proof (induction k arbitrary: s)
  case (Suc k)
  obtain r where r: "attempt c (clock (MAX_DRAIN_ATTEMPTS - Suc k)) s = Some r" "outcome_ok (pc_samples c) net local len r"
    using attempt_ok [OF Suc.prems _ assms(3,4)] assms(2) by blast
  show ?case using r Suc.IH Suc.prems by (cases r) (auto simp: outcome_ok_def Let_def)
qed simp


subsection \<open>A call\<close>

definition call_clock_ok :: "u64 \<Rightarrow> int \<Rightarrow> call_clock \<Rightarrow> bool" where
  "call_clock_ok net local cc \<longleftrightarrow> \<bar>cc_now_us cc\<bar> \<le> 2 ^ 60 \<and> \<bar>cc_drain_us cc\<bar> \<le> 2 ^ 60 \<and>
     (\<forall>k. attempt_clock_ok net local (cc_attempt cc k))"

lemma waits_to_start_ok:
  assumes "timing_ok net local t" "\<bar>now\<bar> \<le> 2 ^ 60"
  shows "\<exists>w t'. waits_to_start now k t = Some (w, t') \<and> timing_ok net local t'"
  using assms timing_ok_ready [OF assms]
  by (auto simp: waits_to_start_def Let_def timing_ok_def i64_eq_Some abs_le_iff)

lemma audio_timing_read_ok:
  assumes b: "ab_ok buffer []" "frames_fit buffer (ab_sorted buffer)" and t: "timing_ok net local timing"
    and out: "samples * 2 \<le> length out" and rate: "fm_sample_rate (as_format stream) \<noteq> 0" and cc: "call_clock_ok net local cc"
  shows "\<exists>n s'. audio_timing_read cc stream samples timing buffer stats out = Some (n, s') \<and> n \<le> samples \<and>
    ab_ok (pl_buffer s') [] \<and> frames_fit (pl_buffer s') (ab_sorted (pl_buffer s')) \<and> timing_ok net local (pl_timing s') \<and>
    length (pl_out s') = length out"
proof -
  let ?s = "\<lambda>t d. \<lparr>pl_timing = t, pl_buffer = buffer, pl_stats = stats, pl_out = out, pl_dropped_late = d\<rparr>"
  have ok: "play_ok samples net local (length out) (?s t d) []" if "timing_ok net local t" for t d
    using b out that by (simp add: play_ok_def)
  obtain w t1 where w: "waits_to_start (cc_now_us cc) (audio_buffer_get_frame_count buffer) timing = Some (w, t1)" "timing_ok net local t1"
    using waits_to_start_ok [OF t, of "cc_now_us cc"] cc unfolding call_clock_ok_def by blast
  have d: "i64 (cc_drain_us cc + 1500) = Some (cc_drain_us cc + 1500)" using cc by (simp add: call_clock_ok_def i64_eq_Some abs_le_iff)
  let ?c = "\<lparr>pc_samples = samples, pc_format = as_format stream,
           pc_threshold_us = (if audio_stream_uses_buffer (as_type stream) then TIMING_THRESHOLD_US else RT_TIMING_THRESHOLD_US),
           pc_sync_mode = sync_mode_of cc\<rparr>"
  have loop: "\<exists>n s'. drain_loop ?c (cc_attempt cc) (cc_drain_us cc + 1500) MAX_DRAIN_ATTEMPTS (?s t1 (tm_late_drop_active t1)) = Some (n, s') \<and>
      n \<le> samples \<and> play_ok samples net local (length out) s' []" if "samples \<noteq> 0"
    using drain_loop_ok [of ?c net local "length out" "?s t1 (tm_late_drop_active t1)" "cc_attempt cc"] ok [OF w(2)] cc rate that
    by (simp add: call_clock_ok_def)
  show ?thesis
  proof (cases "samples = 0 \<or> \<not> tm_playing timing \<or> w")
    case True
    then show ?thesis using b t w by (auto simp: audio_timing_read_def Let_def)
  next
    case False
    then show ?thesis using loop w(1) d by (auto simp: audio_timing_read_def Let_def play_ok_def)
  qed
qed


end
