(* ===== verification/Playout_Play.thy ===== *)
theory Playout_Play
  imports Playout_Safe Ntp_Facts
begin

section \<open>What a call of the playback task plays\<close>

subsection \<open>The first attempt decides\<close>

definition call_of :: "call_clock \<Rightarrow> audio_stream \<Rightarrow> nat \<Rightarrow> play_call" where
  "call_of cc stream samples = \<lparr>pc_samples = samples, pc_format = as_format stream,
     pc_threshold_us = (if audio_stream_uses_buffer (as_type stream) then TIMING_THRESHOLD_US else RT_TIMING_THRESHOLD_US),
     pc_sync_mode = sync_mode_of cc\<rparr>"

lemma call_of_sel [simp]: "pc_samples (call_of cc stream samples) = samples" "pc_format (call_of cc stream samples) = as_format stream"
  "pc_sync_mode (call_of cc stream samples) = sync_mode_of cc"
  by (simp_all add: call_of_def)

lemma read_first_attempt:
  assumes "samples \<noteq> 0" "tm_playing timing" "tm_playout_started timing \<or> tm_pending_valid timing" "\<bar>cc_drain_us cc\<bar> \<le> 2 ^ 60"
    and "attempt (call_of cc stream samples) (cc_attempt cc 0) \<lparr>pl_timing = timing, pl_buffer = buffer, pl_stats = stats,
      pl_out = out, pl_dropped_late = tm_late_drop_active timing\<rparr> = Some (Return n s')"
  shows "audio_timing_read cc stream samples timing buffer stats out = Some (n, s')"
proof -
  have w: "waits_to_start now k timing = Some (False, timing)" for now k using assms(3) by (auto simp: waits_to_start_def)
  have d: "i64 (cc_drain_us cc + 1500) = Some (cc_drain_us cc + 1500)" using assms(4) by (simp add: i64_eq_Some abs_le_iff)
  have m: "MAX_DRAIN_ATTEMPTS = Suc 63" by (simp add: MAX_DRAIN_ATTEMPTS_def)
  have "drain_loop (call_of cc stream samples) (cc_attempt cc) dl (Suc 63) \<lparr>pl_timing = timing, pl_buffer = buffer, pl_stats = stats,
      pl_out = out, pl_dropped_late = tm_late_drop_active timing\<rparr> = Some (n, s')" for dl
    unfolding drain_loop.simps(2) m using assms(5) by simp
  then show ?thesis using assms(1,2) w d by (simp add: audio_timing_read_def Let_def call_of_def [symmetric] m)
qed



subsection \<open>A frame that is held\<close>

text \<open>A pending frame that is early leaves engine and buffer as they are, and the call returns silence.\<close>

lemma early_pending_is_kept:
  assumes b: "ab_ok buffer []" "frames_fit buffer (ab_sorted buffer)"
    and t: "timing_ok net local timing" "tm_playing timing" "tm_pending_valid timing" "tm_pending_frame timing = Some f"
      "tm_playout_started timing" "\<not> tm_deferred_flush_pending timing" "tm_anchor_valid timing"
      "tm_consecutive_early_frames timing \<le> MAX_CONSECUTIVE_EARLY"
    and n: "0 < unat (af_samples f)" "unat (af_samples f) \<le> samples"
    and out: "samples * 2 \<le> length out" and rate: "fm_sample_rate (as_format stream) > 0" and cc: "call_clock_ok net local cc"
    and early: "lead_us (call_of cc stream samples) (cc_attempt cc 0) f timing > strict_us (call_of cc stream samples) (unat (af_samples f))"
  shows "audio_timing_read cc stream samples timing buffer stats out = Some (unat (af_samples f),
    \<lparr>pl_timing = timing, pl_buffer = buffer, pl_stats = stats, pl_out = put_at out 0 (replicate (unat (af_samples f) * 2) 0),
     pl_dropped_late = tm_late_drop_active timing\<rparr>)"
proof -
  let ?c = "call_of cc stream samples" and ?a = "cc_attempt cc 0" and ?n = "unat (af_samples f)"
  let ?s = "\<lparr>pl_timing = timing, pl_buffer = buffer, pl_stats = stats, pl_out = out, pl_dropped_late = tm_late_drop_active timing\<rparr>"
  have a: "attempt_clock_ok net local ?a" using cc by (simp add: call_clock_ok_def)
  have ok: "play_ok samples net local (length out) ?s (held_of Pending)" using b t(1) out by (simp add: play_ok_def)
  have it: "item_ok Pending (tm_pending_frame_len timing) ?s" using t(3) by (simp add: item_ok_def)
  obtain hdr where h: "item_frame Pending ?s = Some hdr" "frame_fits hdr" "tm_pending_frame_len timing = item_bytes hdr"
    "unat (af_samples hdr) * unat (af_channels hdr) \<le> length (af_pcm hdr)"
    using item_frame_ok [OF ok it] by blast
  have hf: "hdr = f" using h(1) t(4) by (simp add: item_frame_def)
  note sizes = frame_fits_sizes [OF h(2,4), unfolded hf]
  have gap: "note_gap ?c (ac_gap_us ?a) Pending f timing = Some (False, timing)" by (simp add: note_gap_def)
  have r: "reading_ok (tm_anchor_network_time_ns timing) (tm_anchor_local_time_ns timing) (ac_gate ?a)"
    using a t(1) by (simp add: attempt_clock_ok_def timing_ok_def)
  have room: "?n * 2 \<le> length out" using n(2) out by linarith
  have hold: "hold_item Pending (item_bytes f) f ?n ?s = Some (Return ?n (?s\<lparr>pl_out := put_at out 0 (replicate (?n * 2) 0)\<rparr>))"
    using room by (simp add: hold_item_def keep_pending_def AUDIO_OUT_CHANNELS_def wr_put)
  have gate: "gate_item ?c ?a Pending (item_bytes f) f ?n (unat (af_channels f)) False ?s =
      Some (Return ?n (?s\<lparr>pl_out := put_at out 0 (replicate (?n * 2) 0)\<rparr>))"
    using gate_item_scheduled [of ?s ?c ?a Pending "item_bytes f" f ?n "unat (af_channels f)" False] t(7,8) r rate early hold
    by (simp add: release_us_def count_early_def)
  have len: "tm_pending_frame_len timing = item_bytes f" "\<not> item_bytes f < 8" using h(3) hf by (simp_all add: item_bytes_def)
  have "attempt ?c ?a ?s = process_item ?c ?a Pending (item_bytes f) ?s" using t(3) len by (simp add: attempt_def)
  also have "\<dots> = Some (Return ?n (?s\<lparr>pl_out := put_at out 0 (replicate (?n * 2) 0)\<rparr>))"
    unfolding process_item_def h(1) [unfolded hf] Option.bind.simps Let_def sizes(1,3)
    using n sizes(2) t(5,6) gap gate by (simp add: stale_start_def)
  finally show ?thesis using n t cc by (intro read_first_attempt [THEN trans]) (auto simp: call_clock_ok_def)
qed

text \<open>A run of calls, each with its own clocks and the output of the one before: the returned counts and the state.\<close>

fun read_run :: "call_clock list \<Rightarrow> audio_stream \<Rightarrow> nat \<Rightarrow> audio_timing \<Rightarrow> audio_buffer \<Rightarrow> audio_stats option \<Rightarrow> u16 list \<Rightarrow>
    (nat list \<times> play_state) mem" where
  "read_run [] stream samples timing buffer stats out = Some ([], \<lparr>pl_timing = timing, pl_buffer = buffer,
     pl_stats = stats, pl_out = out, pl_dropped_late = False\<rparr>)"
| "read_run (cc # ccs) stream samples timing buffer stats out = do {
     (n, s) \<leftarrow> audio_timing_read cc stream samples timing buffer stats out;
     (ns, s) \<leftarrow> read_run ccs stream samples (pl_timing s) (pl_buffer s) (pl_stats s) (pl_out s);
     Some (n # ns, s)
   }"

text \<open>
  The safety valve against a wrong anchor does not work: \<open>MAX_CONSECUTIVE_EARLY\<close> is meant to give up
  an anchor that keeps frames early for more than 50 calls, but only frames taken from the buffer are
  counted, and while a frame is held none is taken. However many calls are made while the held frame is
  early (more than half a frame before its time), each returns one frame of silence, the anchor stays
  valid, and no frame leaves the buffer.
\<close>

theorem stuck_anchor_never_given_up:
  assumes b: "ab_ok buffer []" "frames_fit buffer (ab_sorted buffer)"
    and t: "timing_ok net local timing" "tm_playing timing" "tm_pending_valid timing" "tm_pending_frame timing = Some f"
      "tm_playout_started timing" "\<not> tm_deferred_flush_pending timing" "tm_anchor_valid timing"
      "tm_consecutive_early_frames timing \<le> MAX_CONSECUTIVE_EARLY"
    and n: "0 < unat (af_samples f)" "unat (af_samples f) \<le> samples"
    and out: "samples * 2 \<le> length out" and rate: "fm_sample_rate (as_format stream) > 0"
    and ccs: "\<forall>cc \<in> set ccs. call_clock_ok net local cc \<and> lead_us (call_of cc stream samples) (cc_attempt cc 0) f timing >
      strict_us (call_of cc stream samples) (unat (af_samples f))"
  shows "\<exists>s'. read_run ccs stream samples timing buffer stats out = Some (replicate (length ccs) (unat (af_samples f)), s') \<and>
    pl_timing s' = timing \<and> pl_buffer s' = buffer \<and>
    (ccs \<noteq> [] \<longrightarrow> take (unat (af_samples f) * 2) (pl_out s') = replicate (unat (af_samples f) * 2) 0)"
  using out ccs
proof (induction ccs arbitrary: out)
  case (Cons cc ccs)
  let ?out = "put_at out 0 (replicate (unat (af_samples f) * 2) 0)"
  have room: "unat (af_samples f) * 2 \<le> length out" using n(2) Cons.prems(1) by linarith
  have "audio_timing_read cc stream samples timing buffer stats out = Some (unat (af_samples f),
    \<lparr>pl_timing = timing, pl_buffer = buffer, pl_stats = stats, pl_out = ?out, pl_dropped_late = tm_late_drop_active timing\<rparr>)"
    using Cons.prems by (intro early_pending_is_kept [OF b t n _ rate]) simp_all
  moreover obtain s' where s': "read_run ccs stream samples timing buffer stats ?out = Some (replicate (length ccs) (unat (af_samples f)), s')"
    "pl_timing s' = timing" "pl_buffer s' = buffer"
    "ccs \<noteq> [] \<longrightarrow> take (unat (af_samples f) * 2) (pl_out s') = replicate (unat (af_samples f) * 2) 0"
    using Cons.IH [of ?out] Cons.prems room by auto
  moreover have "take (unat (af_samples f) * 2) ?out = replicate (unat (af_samples f) * 2) 0" by (simp add: put_at_def)
  moreover have "ccs = [] \<longrightarrow> pl_out s' = ?out" using s'(1) by auto
  ultimately show ?case by (cases "ccs = []") (simp_all del: read_run.simps(1))
qed simp


subsection \<open>The servo ignores spikes\<close>

fun servo_run :: "int list \<Rightarrow> audio_timing \<Rightarrow> (int list \<times> audio_timing) mem" where
  "servo_run [] timing = Some ([], timing)"
| "servo_run (err # errs) timing = do {
     (timing, adjust) \<leftarrow> servo_step err timing;
     (adjusts, timing) \<leftarrow> servo_run errs timing;
     Some (adjust # adjusts, timing)
   }"

lemma servo_step_quiet:
  assumes "\<bar>err\<bar> \<le> 2 ^ 61" "\<bar>tm_pos_err_filtered_us t\<bar> + 93 \<le> 5000" "\<not> tm_servo_engaged t"
  obtains f where "servo_step err t = Some (t\<lparr>tm_pos_err_filtered_us := f\<rparr>, 0)" "\<bar>f\<bar> \<le> \<bar>tm_pos_err_filtered_us t\<bar> + 93"
    "servo_filter err t = Some (t\<lparr>tm_pos_err_filtered_us := f\<rparr>)"
proof -
  have "\<bar>tm_pos_err_filtered_us t\<bar> \<le> 2 ^ 61" using assms(2) by simp
  then obtain f where f: "servo_filter err t = Some (t\<lparr>tm_pos_err_filtered_us := f\<rparr>)" "\<bar>f - tm_pos_err_filtered_us t\<bar> \<le> 93"
    using servo_filter_step [OF assms(1)] by metis
  have b: "\<bar>f\<bar> \<le> \<bar>tm_pos_err_filtered_us t\<bar> + 93" using f(2) by linarith
  then have "i64 \<bar>f\<bar> = Some \<bar>f\<bar>" using assms(2) by (simp add: i64_eq_Some)
  then have "servo_step err t = Some (t\<lparr>tm_pos_err_filtered_us := f\<rparr>, 0)"
    using b assms(2,3) by (simp add: servo_step_decide f(1) servo_decide_def POS_SERVO_ENGAGE_US_def)
  then show thesis using that b f(1) by blast
qed

lemma servo_run_quiet:
  assumes "\<forall>e \<in> set errs. \<bar>e\<bar> \<le> 2 ^ 61" "\<bar>tm_pos_err_filtered_us t\<bar> + 93 * int (length errs) \<le> 5000" "\<not> tm_servo_engaged t"
  shows "\<exists>t'. servo_run errs t = Some (replicate (length errs) 0, t') \<and> \<not> tm_servo_engaged t'"
  using assms
proof (induction errs arbitrary: t)
  case (Cons e errs)
  obtain f where f: "servo_step e t = Some (t\<lparr>tm_pos_err_filtered_us := f\<rparr>, 0)" "\<bar>f\<bar> \<le> \<bar>tm_pos_err_filtered_us t\<bar> + 93"
    using servo_step_quiet [of e t] Cons.prems by auto
  show ?case using f Cons.IH [of "t\<lparr>tm_pos_err_filtered_us := f\<rparr>"] Cons.prems by auto
qed simp

lemma servo_filter_far:
  assumes "tm_pos_err_filtered_us t = 93 * int k" "k \<le> 53" "6500 \<le> err" "err \<le> 2 ^ 61"
  shows "servo_filter err t = Some (t\<lparr>tm_pos_err_filtered_us := 93 * int (Suc k)\<rparr>)"
proof -
  have "(1500 :: int) sdiv 16 = 93" by (simp add: signed_divide_int_def)
  then show ?thesis using assms
    by (simp add: servo_filter_def POS_SERVO_INNOV_CLAMP_US_def POS_SERVO_FILTER_DIV_def Let_def i64_eq_Some algebra_simps)
qed

lemma servo_step_engages:
  assumes "tm_pos_err_filtered_us t = 93 * int 53" "\<not> tm_servo_engaged t" "6500 \<le> err" "err \<le> 2 ^ 61"
  shows "\<exists>t'. servo_step err t = Some (t', 0) \<and> tm_servo_engaged t'"
  using servo_filter_far [OF assms(1) order_refl assms(3,4)] assms(2)
  by (simp add: servo_step_decide servo_decide_def POS_SERVO_ENGAGE_US_def POS_SERVO_TRIM_INTERVAL_def POS_SERVO_DISENGAGE_US_def
      i64_def Let_def word_le_nat_alt)

lemma servo_run_far:
  assumes "\<forall>e \<in> set errs. 6500 \<le> e \<and> e \<le> 2 ^ 61" "length errs + k = 54" "k \<le> 53"
    "tm_pos_err_filtered_us t = 93 * int k" "\<not> tm_servo_engaged t"
  shows "\<exists>as t'. servo_run errs t = Some (as, t') \<and> tm_servo_engaged t'"
  using assms
proof (induction errs arbitrary: t k)
  case (Cons e errs)
  show ?case
  proof (cases "k = 53")
    case True
    then show ?thesis using servo_step_engages [of t e] Cons.prems by auto
  next
    case False
    have e: "\<bar>e\<bar> \<le> 2 ^ 61" using Cons.prems(1) by auto
    have small: "\<bar>tm_pos_err_filtered_us t\<bar> + 93 \<le> 5000" using Cons.prems(3,4) False by simp
    obtain f where f: "servo_step e t = Some (t\<lparr>tm_pos_err_filtered_us := f\<rparr>, 0)"
      "servo_filter e t = Some (t\<lparr>tm_pos_err_filtered_us := f\<rparr>)"
      using servo_step_quiet [OF e small Cons.prems(5)] by blast
    have far: "servo_filter e t = Some (t\<lparr>tm_pos_err_filtered_us := 93 * int (Suc k)\<rparr>)"
      using Cons.prems by (intro servo_filter_far) simp_all
    have "f = 93 * int (Suc k)"
      using arg_cong [OF trans [OF f(2) [symmetric] far], of "\<lambda>r. tm_pos_err_filtered_us (the r)"] by simp
    then have "\<exists>as t'. servo_run errs (t\<lparr>tm_pos_err_filtered_us := f\<rparr>) = Some (as, t') \<and> tm_servo_engaged t'"
      using Cons.prems False by (intro Cons.IH [of "Suc k"]) simp_all
    then show ?thesis using f(1) by auto
  qed
qed simp

text \<open>
  The position servo reacts to a standing error and not to spikes: after a reset of the continuity
  state, no run of fewer than 54 played frames engages it or trims a sample, whatever the measurements
  are (below 73,000 years), and 54 frames in a row that are 6.5 ms or more early do engage it.
\<close>

theorem servo_needs_54_frames:
  "((\<forall>e \<in> set errs. \<bar>e\<bar> \<le> 2 ^ 61) \<and> length errs < 54 \<longrightarrow>
     (\<exists>t'. servo_run errs (audio_timing_reset_continuity t) = Some (replicate (length errs) 0, t') \<and> \<not> tm_servo_engaged t')) \<and>
   ((\<forall>e \<in> set errs. 6500 \<le> e \<and> e \<le> 2 ^ 61) \<and> length errs = 54 \<longrightarrow>
     (\<exists>as t'. servo_run errs (audio_timing_reset_continuity t) = Some (as, t') \<and> tm_servo_engaged t'))"
  using servo_run_quiet [of errs "audio_timing_reset_continuity t"] servo_run_far [of errs 0 "audio_timing_reset_continuity t"]
  by (auto simp: audio_timing_reset_continuity_def)

lemma servo_needs_54_frames_witness:
  "\<exists>as t'. servo_run (replicate 54 7000) (audio_timing_reset_continuity timing_zero) = Some (as, t') \<and> tm_servo_engaged t'"
  using servo_needs_54_frames [of "replicate 54 7000" timing_zero] by auto


subsection \<open>Other operations keep the engine well formed\<close>

lemma audio_timing_init_ok:
  assumes "length (af_pcm f) = (capacity - 8) div 2" "capacity < 2 ^ 32"
  shows "timing_ok 0 0 (audio_timing_init (Some f) capacity)" "timing_ok 0 0 (audio_timing_init None capacity)"
  using assms by (simp_all add: audio_timing_init_def timing_zero_def timing_ok_def pending_ok_def Let_def)

lemma audio_timing_reset_ok: "timing_ok net local t \<Longrightarrow> timing_ok net local (audio_timing_reset t)"
  by (simp add: audio_timing_reset_def timing_ok_def audio_timing_reset_continuity_def pending_ok_def split: option.splits)

lemma audio_timing_set_playing_ok: "timing_ok net local t \<Longrightarrow> timing_ok net local (audio_timing_set_playing p t)"
  by (auto simp: audio_timing_set_playing_def timing_ok_def pending_ok_def Let_def split: option.splits)

lemma audio_timing_set_anchor_ok:
  assumes "timing_ok net local t" "audio_timing_set_anchor now locked net' rtp t = Some t'"
  shows "timing_ok net' (now * 1000) t'"
  using assms by (auto simp: audio_timing_set_anchor_def timing_ok_def i64_eq_Some bind_eq_Some_conv)

lemma frame_of_fits:
  assumes "samples * channels \<le> slot_pcm" "0 < channels" "channels < 256" "samples < 2 ^ 16"
  shows "frame_fits (frame_of ts pcm samples channels area)"
proof -
  have "unat (of_nat channels :: u8) = channels" "unat (of_nat samples :: u16) = samples"
    using assms(3,4) by (simp_all add: unat_of_nat_id)
  moreover from this have "(of_nat channels :: u8) \<noteq> 0" using assms(2) by (metis unat_0 less_irrefl)
  ultimately show ?thesis using assms(1) by (simp add: frame_fits_def frame_of_def)
qed

subsection \<open>A sample engine\<close>

definition sample_frame :: audio_frame where
  "sample_frame = \<lparr>af_timestamp = 1000, af_samples = 2, af_channels = 2, af_pcm = replicate slot_pcm 7\<rparr>"

definition sample_buffer :: audio_buffer where
  "sample_buffer = \<lparr>ab_pool = Some [sample_frame], ab_sorted = [0], ab_free = [], ab_capacity = 1, ab_ready = 1, ab_decode_capacity = None\<rparr>"

definition sample_timing :: "int \<Rightarrow> audio_timing" where
  "sample_timing local = (audio_timing_init (Some sample_frame) 1416)\<lparr>tm_playout_started := True, tm_anchor_valid := True,
     tm_anchor_rtp_time := 1000, tm_anchor_local_time_ns := local\<rparr>"

definition sample_reading :: clock_reading where
  "sample_reading = \<lparr>cr_ptp = ptp_zero, cr_ntp = idle_timing, cr_output = Some (0, 0), cr_now_us = 0, cr_latency_us = 0\<rparr>"

definition sample_clock :: call_clock where
  "sample_clock = \<lparr>cc_now_us = 0, cc_now_ms = 0, cc_drain_us = 0, cc_ptp = ptp_zero, cc_ntp = idle_timing,
     cc_attempt = (\<lambda>k. \<lparr>ac_now_us = 0, ac_gap_us = 0, ac_gate = sample_reading, ac_servo = sample_reading\<rparr>)\<rparr>"

definition sample_stream :: audio_stream where
  "sample_stream = \<lparr>as_buffered_ops = False, as_type = AUDIO_STREAM_REALTIME, as_running = True,
     as_format = format_zero\<lparr>fm_sample_rate := 44100, fm_channels := 2, fm_frame_size := 352\<rparr>, as_encrypt = encrypt_zero\<rparr>"

lemma sample_buffer_ok: "ab_ok sample_buffer []" "frames_fit sample_buffer (ab_sorted sample_buffer)"
  "slot_ptr sample_buffer 0 = Some sample_frame"
  by (simp_all add: sample_buffer_def ab_ok_def sample_frame_def frames_fit_def slot_ptr_def frame_fits_def slot_pcm_eq rd_def)

lemma sample_timing_ok: "timing_ok 0 local (sample_timing local)"
  by (simp add: sample_timing_def audio_timing_init_def timing_zero_def timing_ok_def pending_ok_def Let_def sample_frame_def
      slot_pcm_eq)

lemma sample_clock_ok: "\<bar>local\<bar> \<le> 2 ^ 60 \<Longrightarrow> call_clock_ok 0 local sample_clock"
  by (simp add: sample_clock_def call_clock_ok_def attempt_clock_ok_def sample_reading_def reading_ok_def
      ptp_clock_get_offset_ns_def ntp_clock_get_offset_ns_def ptp_zero_def idle_timing_def)

lemma sample_sync: "sync_mode_of sample_clock = SYNC_MODE_NONE"
  by (simp add: sync_mode_of_def sample_clock_def ptp_clock_is_locked_def ntp_clock_is_locked_def ptp_zero_def idle_timing_def Let_def)

lemma sample_gate: "ac_gate (cc_attempt sample_clock k) = sample_reading"
  by (simp add: sample_clock_def)

lemma sample_rate: "fm_sample_rate (as_format sample_stream) = 44100"
  by (simp add: sample_stream_def)

lemma sample_early:
  "early_of (sample_timing (local * 1000)) (as_format sample_stream) 1000 SYNC_MODE_NONE sample_reading = local - 5000"
  by (simp add: early_of_def base_ns_def output_delay_def sample_timing_def audio_timing_init_def timing_zero_def Let_def
      sample_reading_def PIPELINE_LATENCY_US_def signed_divide_int_def sample_stream_def sgn_if)



lemma stuck_anchor_never_given_up_witness:
  "\<exists>s'. read_run (replicate 100 sample_clock) sample_stream 2
      ((sample_timing (10 ^ 15))\<lparr>tm_pending_valid := True, tm_pending_frame_len := 16\<rparr>) sample_buffer None [1, 2, 3, 4] =
      Some (replicate 100 2, s') \<and> tm_anchor_valid (pl_timing s') \<and> pl_buffer s' = sample_buffer"
proof -
  let ?t = "(sample_timing (10 ^ 15))\<lparr>tm_pending_valid := True, tm_pending_frame_len := 16\<rparr>"
  have ok: "timing_ok 0 (10 ^ 15) ?t"
    using sample_timing_ok [of "10 ^ 15"]
    by (simp add: timing_ok_def pending_ok_def sample_timing_def audio_timing_init_def timing_zero_def Let_def sample_frame_def
        frame_fits_def item_bytes_def slot_pcm_eq)
  have t: "tm_playing ?t" "tm_pending_valid ?t" "tm_pending_frame ?t = Some sample_frame" "tm_playout_started ?t"
    "\<not> tm_deferred_flush_pending ?t" "tm_anchor_valid ?t" "tm_consecutive_early_frames ?t \<le> MAX_CONSECUTIVE_EARLY"
    by (simp_all add: sample_timing_def audio_timing_init_def timing_zero_def Let_def MAX_CONSECUTIVE_EARLY_def)
  have n: "0 < unat (af_samples sample_frame)" "unat (af_samples sample_frame) \<le> 2" by (simp_all add: sample_frame_def)
  have "early_of ?t (as_format sample_stream) 1000 SYNC_MODE_NONE sample_reading = 10 ^ 12 - 5000"
    using sample_early [of "10 ^ 12"] by (simp add: early_of_def base_ns_def)
  then have e: "lead_us (call_of sample_clock sample_stream 2) (cc_attempt sample_clock 0) sample_frame ?t >
      strict_us (call_of sample_clock sample_stream 2) (unat (af_samples sample_frame))"
    by (simp add: lead_us_def sample_sync sample_frame_def sample_gate strict_us_def sample_rate signed_divide_int_def)
  have "\<exists>s'. read_run (replicate 100 sample_clock) sample_stream 2 ?t sample_buffer None [1, 2, 3, 4] =
      Some (replicate (length (replicate 100 sample_clock)) (unat (af_samples sample_frame)), s') \<and>
    pl_timing s' = ?t \<and> pl_buffer s' = sample_buffer \<and>
    (replicate 100 sample_clock \<noteq> [] \<longrightarrow> take (unat (af_samples sample_frame) * 2) (pl_out s') = replicate (unat (af_samples sample_frame) * 2) 0)"
    by (rule stuck_anchor_never_given_up [OF sample_buffer_ok(1,2) ok t n])
      (use e sample_clock_ok [of "10 ^ 15"] in \<open>simp_all add: sample_rate\<close>)
  then obtain s' where s': "read_run (replicate 100 sample_clock) sample_stream 2 ?t sample_buffer None [1, 2, 3, 4] =
      Some (replicate 100 (unat (af_samples sample_frame)), s')" "pl_timing s' = ?t" "pl_buffer s' = sample_buffer"
    by auto
  moreover have "unat (af_samples sample_frame) = 2" by (simp add: sample_frame_def)
  ultimately show ?thesis using t(6) by (intro exI [of _ s']) simp
qed

end
