(* ===== verification/Audio_Decoder.thy ===== *)
theory Audio_Decoder
  imports Audio_Format C_String
begin

section \<open>The audio decoder (main/audio/audio_decoder.c, main/alac_magic_cookie.c)\<close>

text \<open>
  The wrapper around the codecs. The ALAC and AAC decoders are closed libraries: an open decoder is
  its configuration and the frames it was given so far, and \<open>codec_lib\<close> says what it stores for the
  next frame, given the size it is told the output has: the channel count it reports and the 16-bit
  samples, or an error. Whether a codec can be opened and memory be allocated are arguments.
\<close>

record codec_lib =
  alac_decode :: "bytes \<Rightarrow> bytes list \<Rightarrow> bytes \<Rightarrow> nat \<Rightarrow> (int \<times> u16 list) option"
  aac_decode :: "int \<times> int \<times> int \<Rightarrow> bytes list \<Rightarrow> bytes \<Rightarrow> nat \<Rightarrow> (int \<times> u16 list) option"

text \<open>The documented contract: a codec never stores more than the size it is told.\<close>

definition codec_ok :: "codec_lib \<Rightarrow> bool" where
  "codec_ok L \<longleftrightarrow>
    (\<forall>cfg hist input len ch pcm. alac_decode L cfg hist input len = Some (ch, pcm) \<longrightarrow> 2 * length pcm \<le> len) \<and>
    (\<forall>cfg hist input len ch pcm. aac_decode L cfg hist input len = Some (ch, pcm) \<longrightarrow> 2 * length pcm \<le> len)"

definition ADTS_HEADER_LEN :: nat where "ADTS_HEADER_LEN = 7"
definition MAX_FALLBACK_CHANNELS :: int where "MAX_FALLBACK_CHANNELS = 2"
definition ALAC_MAGIC_COOKIE_SIZE :: nat where "ALAC_MAGIC_COOKIE_SIZE = 24"

datatype audio_decoder_kind = AUDIO_DECODER_NONE | AUDIO_DECODER_PCM | AUDIO_DECODER_ALAC | AUDIO_DECODER_AAC

text \<open>Open codecs are given by the frames they have seen; the buffer for AAC frames by its size.\<close>

record audio_decoder =
  dc_kind :: audio_decoder_kind
  dc_format :: audio_format
  dc_alac :: "bytes list option"
  dc_aac :: "bytes list option"
  dc_cookie :: bytes
  dc_aac_buffer :: "nat option"

subsection \<open>Codec names and headers\<close>

definition codec_is_alac :: "bytes \<Rightarrow> bool" where
  "codec_is_alac codec \<longleftrightarrow> codec = ascii ''AppleLossless'' \<or> codec = ascii ''ALAC''"

definition codec_is_aac :: "bytes \<Rightarrow> bool" where
  "codec_is_aac codec \<longleftrightarrow> find_sub (ascii ''AAC'') codec \<noteq> None \<or> find_sub (ascii ''aac'') codec \<noteq> None \<or>
     find_sub (ascii ''mpeg4-generic'') codec \<noteq> None"

definition aac_has_adts_header :: "bytes \<Rightarrow> bool" where
  "aac_has_adts_header data \<longleftrightarrow> length data \<ge> 2 \<and> data ! 0 = 0xFF \<and> data ! 1 AND 0xF0 = 0xF0"

definition build_adts_header :: "nat \<Rightarrow> bytes" where
  "build_adts_header frame_len =
    (let profile = 2; freq_idx = 4; chan_cfg = 2; packet_len = (of_nat (frame_len + ADTS_HEADER_LEN) :: u32) in
     [0xFF, 0xF1,
      ucast (push_bit 6 (profile - 1) + push_bit 2 freq_idx + drop_bit 2 chan_cfg :: u32),
      ucast (push_bit 6 (chan_cfg AND 3) + drop_bit 11 packet_len),
      ucast (drop_bit 3 (packet_len AND 0x7FF)),
      ucast (push_bit 5 (packet_len AND 7) + 0x1F),
      0xFC])"

text \<open>\<open>build_alac_magic_cookie\<close>: a field that is 0 is replaced by its default.\<close>

definition or_else :: "'a::len word \<Rightarrow> 'a word \<Rightarrow> 'a word" where
  "or_else v d = (if v \<noteq> 0 then v else d)"

definition int_or :: "int \<Rightarrow> int \<Rightarrow> int" where
  "int_or v d = (if v \<noteq> 0 then v else d)"

definition build_alac_magic_cookie :: "audio_format \<Rightarrow> bytes" where
  "build_alac_magic_cookie fmt =
    (let frame_length = or_else (fm_max_samples_per_frame fmt)
           (if fm_frame_size fmt > 0 then of_int (fm_frame_size fmt) else 352);
         bit_depth = or_else (fm_sample_size fmt) (of_int (int_or (fm_bits_per_sample fmt) 16));
         pb = or_else (fm_rice_history_mult fmt) 40;
         mb = or_else (fm_rice_initial_history fmt) 10;
         kb = or_else (fm_rice_limit fmt) 14;
         num_channels = or_else (fm_num_channels fmt) (of_int (int_or (fm_channels fmt) 2));
         max_run = or_else (fm_max_run fmt) 255;
         max_frame_bytes = fm_max_coded_frame_size fmt;
         avg_bit_rate = fm_avg_bit_rate fmt;
         sample_rate = or_else (fm_sample_rate_config fmt) (of_int (int_or (fm_sample_rate fmt) 44100)) in
     be_bytes 4 (ucast frame_length) @ [0, bit_depth, pb, mb, kb, num_channels] @ be_bytes 2 (ucast max_run) @
     be_bytes 4 (ucast max_frame_bytes) @ be_bytes 4 (ucast avg_bit_rate) @ be_bytes 4 (ucast sample_rate))"

subsection \<open>Life cycle\<close>

definition aac_config :: "audio_format \<Rightarrow> int \<times> int \<times> int" where
  "aac_config fmt = (fm_sample_rate fmt, fm_channels fmt,
     if fm_bits_per_sample fmt \<noteq> 0 then fm_bits_per_sample fmt else 16)"

definition aac_decoder_reset :: "bool \<Rightarrow> audio_decoder \<Rightarrow> audio_decoder" where
  "aac_decoder_reset opened d = d\<lparr>dc_aac := if opened then Some [] else None\<rparr>"

definition audio_decoder_create :: "bool \<Rightarrow> bool \<Rightarrow> audio_format \<Rightarrow> audio_decoder option mem" where
  "audio_decoder_create allocated opened format =
    (if \<not> allocated then Some None
     else do {
       codec \<leftarrow> c_string (fm_codec format);
       let d = \<lparr>dc_kind = AUDIO_DECODER_NONE, dc_format = format, dc_alac = None, dc_aac = None,
             dc_cookie = replicate ALAC_MAGIC_COOKIE_SIZE 0, dc_aac_buffer = None\<rparr>;
       Some (Some (
         if codec_is_alac codec then
           let d = d\<lparr>dc_cookie := build_alac_magic_cookie format\<rparr> in
           if opened then d\<lparr>dc_kind := AUDIO_DECODER_ALAC, dc_alac := Some []\<rparr> else d
         else if codec_is_aac codec then
           if opened then d\<lparr>dc_kind := AUDIO_DECODER_AAC, dc_aac := Some []\<rparr> else d
         else if codec = ascii ''L16'' \<or> codec = ascii ''PCM'' then d\<lparr>dc_kind := AUDIO_DECODER_PCM\<rparr>
         else d))
     })"

definition audio_decoder_is_aac :: "audio_decoder option \<Rightarrow> bool" where
  "audio_decoder_is_aac d \<longleftrightarrow> (case d of None \<Rightarrow> False | Some d \<Rightarrow> dc_kind d = AUDIO_DECODER_AAC)"

definition audio_decoder_is_alac :: "audio_decoder option \<Rightarrow> bool" where
  "audio_decoder_is_alac d \<longleftrightarrow> (case d of None \<Rightarrow> False | Some d \<Rightarrow> dc_kind d = AUDIO_DECODER_ALAC)"

subsection \<open>Decoding\<close>

text \<open>
  The outcome of a frame: the samples per channel, the channels, and the words stored at the start of
  the output, which is an object of \<open>room\<close> words; none when the code returns -1.
\<close>

type_synonym decoded = "(nat \<times> int \<times> u16 list) option"

definition decode_channels :: "audio_decoder \<Rightarrow> int" where
  "decode_channels d = (if fm_channels (dc_format d) \<le> 0 then MAX_FALLBACK_CHANNELS else fm_channels (dc_format d))"

text \<open>Big-endian 16-bit samples.\<close>

fun be_samples :: "bytes \<Rightarrow> u16 list" where
  "be_samples (a # b # bs) = (push_bit 8 (ucast a) OR ucast b) # be_samples bs"
| "be_samples _ = []"

definition decode_pcm :: "bytes \<Rightarrow> int \<Rightarrow> nat \<Rightarrow> nat \<Rightarrow> decoded mem" where
  "decode_pcm input channels room capacity =
    (let decoded_samples = length input div (nat channels * 2);
         decoded_samples = (if decoded_samples > capacity then capacity else decoded_samples);
         n = sz_mul decoded_samples (nat channels) in
     if n > room then None else do {
       src \<leftarrow> rd_block input 0 (2 * n);
       Some (Some (decoded_samples, channels, be_samples src))
     })"

text \<open>What the wrapper makes of a frame a codec stored.\<close>

definition codec_frame :: "int \<Rightarrow> nat \<Rightarrow> nat \<Rightarrow> int \<times> u16 list \<Rightarrow> decoded mem" where
  "codec_frame channels room capacity frame =
    (let (channel, pcm) = frame in
     if length pcm > room then None
     else
       let dec_channels = (if channel > 0 then channel else channels);
           decoded_samples = 2 * length pcm div (nat dec_channels * 2);
           decoded_samples = (if decoded_samples > capacity then capacity else decoded_samples) in
       Some (Some (decoded_samples, dec_channels, pcm)))"

definition output_bytes :: "nat \<Rightarrow> int \<Rightarrow> nat" where
  "output_bytes capacity channels = sz_mul (sz_mul capacity (nat channels)) 2"

definition decode_alac :: "codec_lib \<Rightarrow> audio_decoder \<Rightarrow> bytes \<Rightarrow> int \<Rightarrow> nat \<Rightarrow> nat \<Rightarrow> (decoded \<times> audio_decoder) mem" where
  "decode_alac L d input channels room capacity =
    (case dc_alac d of
       None \<Rightarrow> Some (None, d)
     | Some hist \<Rightarrow>
         let d = d\<lparr>dc_alac := Some (hist @ [input])\<rparr> in
         case alac_decode L (dc_cookie d) hist input (output_bytes capacity channels) of
           None \<Rightarrow> Some (None, d)
         | Some frame \<Rightarrow> do { r \<leftarrow> codec_frame channels room capacity frame; Some (r, d) })"

text \<open>The frame with an ADTS header, in a buffer that grows; none when it cannot.\<close>

definition adts_frame :: "bool \<Rightarrow> audio_decoder \<Rightarrow> bytes \<Rightarrow> (bytes \<times> audio_decoder) option" where
  "adts_frame realloc d input =
    (if aac_has_adts_header input then Some (input, d)
     else
       let needed = length input + ADTS_HEADER_LEN;
           grow = (case dc_aac_buffer d of None \<Rightarrow> True | Some n \<Rightarrow> n < needed) in
       if grow \<and> \<not> realloc then None
       else Some (build_adts_header (length input) @ input,
         if grow then d\<lparr>dc_aac_buffer := Some needed\<rparr> else d))"

definition decode_aac :: "codec_lib \<Rightarrow> bool \<Rightarrow> bool \<Rightarrow> audio_decoder \<Rightarrow> bytes \<Rightarrow> int \<Rightarrow> nat \<Rightarrow> nat \<Rightarrow>
    (decoded \<times> audio_decoder) mem" where
  "decode_aac L realloc reopen d input channels room capacity =
    (case dc_aac d of
       None \<Rightarrow> Some (None, d)
     | Some hist \<Rightarrow>
         (case adts_frame realloc d input of
            None \<Rightarrow> Some (None, d)
          | Some (data, d) \<Rightarrow>
              (case aac_decode L (aac_config (dc_format d)) hist data (output_bytes capacity channels) of
                 None \<Rightarrow> Some (None, aac_decoder_reset reopen d)
               | Some frame \<Rightarrow> do {
                   r \<leftarrow> codec_frame channels room capacity frame;
                   Some (r, d\<lparr>dc_aac := Some (hist @ [data])\<rparr>)
                 })))"

definition audio_decoder_decode :: "codec_lib \<Rightarrow> bool \<Rightarrow> bool \<Rightarrow> audio_decoder \<Rightarrow> bytes \<Rightarrow> nat \<Rightarrow> nat \<Rightarrow>
    (decoded \<times> audio_decoder) mem" where
  "audio_decoder_decode L realloc reopen d input room capacity =
    (if capacity = 0 then Some (None, d)
     else let channels = decode_channels d in
       case dc_kind d of
         AUDIO_DECODER_PCM \<Rightarrow> do { r \<leftarrow> decode_pcm input channels room capacity; Some (r, d) }
       | AUDIO_DECODER_ALAC \<Rightarrow> decode_alac L d input channels room capacity
       | AUDIO_DECODER_AAC \<Rightarrow> decode_aac L realloc reopen d input channels room capacity
       | AUDIO_DECODER_NONE \<Rightarrow> Some (None, d))"

subsection \<open>Facts\<close>

lemma decode_channels_pos [simp]: "0 < decode_channels d"
  by (simp add: decode_channels_def MAX_FALLBACK_CHANNELS_def)

lemma length_be_samples: "length (be_samples bs) = length bs div 2"
  by (induction bs rule: be_samples.induct) auto

text \<open>
  A decoded frame: its samples are among the words stored, which are in the output. \<open>fits\<close> says that
  the output has the room the wrapper believes in.
\<close>

definition decoded_ok :: "nat \<Rightarrow> nat \<Rightarrow> decoded \<Rightarrow> bool" where
  "decoded_ok room capacity r \<longleftrightarrow> (case r of None \<Rightarrow> True
     | Some (n, channels, pcm) \<Rightarrow> n \<le> capacity \<and> 0 < channels \<and> n * nat channels \<le> length pcm \<and> length pcm \<le> room)"

lemma decode_pcm_ok:
  assumes "0 < channels" "channels < 2 ^ 31" "length input \<le> 2 * room" "length input < 2 ^ 32"
  shows "\<exists>r. decode_pcm input channels room capacity = Some (Some r) \<and> decoded_ok room capacity (Some r) \<and>
    snd (snd r) = be_samples (take (2 * (fst r * nat (fst (snd r)))) input) \<and>
    fst r = min capacity (length input div (nat channels * 2)) \<and> fst (snd r) = channels"
proof -
  let ?n = "min capacity (length input div (nat channels * 2))"
  have n: "?n = (if length input div (nat channels * 2) > capacity then capacity
      else length input div (nat channels * 2))" by simp
  have "?n * (nat channels * 2) \<le> length input div (nat channels * 2) * (nat channels * 2)"
    by (rule mult_right_mono) simp_all
  also have "\<dots> \<le> length input" by (rule div_times_less_eq_dividend)
  finally have le: "2 * (?n * nat channels) \<le> length input" by (simp only: mult_ac)
  then have sz: "sz_mul ?n (nat channels) = ?n * nat channels" using assms(4) by (intro sz_mul_id) simp
  have room: "\<not> ?n * nat channels > room" using le assms(3) by linarith
  have "decode_pcm input channels room capacity =
      Some (Some (?n, channels, be_samples (take (2 * (?n * nat channels)) input)))"
    using le room unfolding decode_pcm_def Let_def n [symmetric] sz by simp
  then show ?thesis using le room assms(1) by (simp add: decoded_ok_def length_be_samples)
qed

lemma codec_frame_ok:
  assumes "length pcm \<le> room" "0 < channels"
  shows "\<exists>r. codec_frame channels room capacity (channel, pcm) = Some r \<and> decoded_ok room capacity r"
proof -
  define dec where "dec = (if channel > 0 then channel else channels)"
  define n where "n = 2 * length pcm div (nat dec * 2)"
  have dec: "0 < dec" using assms(2) by (simp add: dec_def)
  have "n * (nat dec * 2) \<le> 2 * length pcm" unfolding n_def by (rule div_times_less_eq_dividend)
  then have n: "n * nat dec \<le> length pcm" by simp
  have "min capacity n * nat dec \<le> n * nat dec" by (rule mult_right_mono) simp_all
  then have "min capacity n * nat dec \<le> length pcm" using n by (rule order_trans)
  moreover have "codec_frame channels room capacity (channel, pcm) =
      Some (Some (if n > capacity then capacity else n, dec, pcm))"
    using assms(1) unfolding codec_frame_def Let_def prod.case dec_def [symmetric] n_def [symmetric] by simp
  then have "codec_frame channels room capacity (channel, pcm) = Some (Some (min capacity n, dec, pcm))"
    by (simp add: min_def)
  ultimately show ?thesis using dec assms(1) by (simp add: decoded_ok_def)
qed

lemma output_bytes_two:
  assumes "channels \<le> 2" "2 * capacity \<le> room" "room < 2 ^ 31"
  shows "output_bytes capacity channels \<le> 2 * room"
proof -
  have "nat channels \<le> 2" using assms(1) by simp
  then have "capacity * nat channels \<le> capacity * 2" by (rule mult_left_mono) simp
  then have c: "capacity * nat channels \<le> room" using assms(2) by linarith
  then have "capacity * nat channels < 2 ^ 32" "capacity * nat channels * 2 < 2 ^ 32" using assms(3) by simp_all
  then show ?thesis unfolding output_bytes_def using c by simp
qed

lemma codec_room:
  assumes "codec_ok L" "2 * capacity \<le> room" "room < 2 ^ 31" "channels \<le> 2"
  shows "alac_decode L cfg hist input (output_bytes capacity channels) = Some (ch, pcm) \<Longrightarrow> length pcm \<le> room"
    and "aac_decode L cfg' hist input (output_bytes capacity channels) = Some (ch, pcm) \<Longrightarrow> length pcm \<le> room"
proof -
  have out: "output_bytes capacity channels \<le> 2 * room" by (rule output_bytes_two [OF assms(4,2,3)])
  show "length pcm \<le> room"
    if "alac_decode L cfg hist input (output_bytes capacity channels) = Some (ch, pcm)"
  proof -
    have "2 * length pcm \<le> output_bytes capacity channels" using assms(1) that unfolding codec_ok_def by blast
    then show ?thesis using out by simp
  qed
  show "length pcm \<le> room"
    if "aac_decode L cfg' hist input (output_bytes capacity channels) = Some (ch, pcm)"
  proof -
    have "2 * length pcm \<le> output_bytes capacity channels" using assms(1) that unfolding codec_ok_def by blast
    then show ?thesis using out by simp
  qed
qed

text \<open>What every decoding routine keeps.\<close>

definition decode_result_ok :: "audio_decoder \<Rightarrow> nat \<Rightarrow> nat \<Rightarrow> (decoded \<times> audio_decoder) mem \<Rightarrow> bool" where
  "decode_result_ok d room capacity r \<longleftrightarrow> (\<exists>q d'. r = Some (q, d') \<and> decoded_ok room capacity q \<and>
     dc_format d' = dc_format d \<and> dc_kind d' = dc_kind d)"

lemma decode_result_none [simp]:
  "dc_format d' = dc_format d \<Longrightarrow> dc_kind d' = dc_kind d \<Longrightarrow> decode_result_ok d room capacity (Some (None, d'))"
  by (simp add: decode_result_ok_def decoded_ok_def)

lemma decode_alac_ok:
  assumes "codec_ok L" "2 * capacity \<le> room" "room < 2 ^ 31" "0 < channels" "channels \<le> 2"
  shows "decode_result_ok d room capacity (decode_alac L d input channels room capacity)"
proof (cases "dc_alac d")
  case None
  then show ?thesis by (simp add: decode_alac_def)
next
  case (Some hist)
  show ?thesis
  proof (cases "alac_decode L (dc_cookie d) hist input (output_bytes capacity channels)")
    case None
    then show ?thesis using Some by (simp add: decode_alac_def)
  next
    case f: (Some frame)
    obtain ch pcm where frame: "frame = (ch, pcm)" by force
    obtain r where "codec_frame channels room capacity (ch, pcm) = Some r" "decoded_ok room capacity r"
      using codec_frame_ok [OF codec_room(1) [OF assms(1-3,5) f [unfolded frame]] assms(4)] by blast
    then show ?thesis using Some f frame by (simp add: decode_alac_def decode_result_ok_def)
  qed
qed

lemma adts_frame_same:
  "adts_frame realloc d input = Some (data, d') \<Longrightarrow>
    dc_format d' = dc_format d \<and> dc_kind d' = dc_kind d \<and> dc_aac d' = dc_aac d"
  by (auto simp: adts_frame_def Let_def split: if_splits option.splits)

lemma decode_aac_ok:
  assumes "codec_ok L" "2 * capacity \<le> room" "room < 2 ^ 31" "0 < channels" "channels \<le> 2"
  shows "decode_result_ok d room capacity (decode_aac L realloc reopen d input channels room capacity)"
proof (cases "dc_aac d")
  case None
  then show ?thesis by (simp add: decode_aac_def)
next
  case (Some hist)
  show ?thesis
  proof (cases "adts_frame realloc d input")
    case None
    then show ?thesis using Some by (simp add: decode_aac_def)
  next
    case a: (Some r)
    obtain data d2 where r: "r = (data, d2)" by force
    note same = adts_frame_same [OF a [unfolded r]]
    show ?thesis
    proof (cases "aac_decode L (aac_config (dc_format d2)) hist data (output_bytes capacity channels)")
      case None
      then show ?thesis using Some a r same by (simp add: decode_aac_def aac_decoder_reset_def)
    next
      case f: (Some frame)
      obtain ch pcm where frame: "frame = (ch, pcm)" by force
      obtain q where "codec_frame channels room capacity (ch, pcm) = Some q" "decoded_ok room capacity q"
        using codec_frame_ok [OF codec_room(2) [OF assms(1-3,5) f [unfolded frame]] assms(4)] by blast
      then show ?thesis using Some a r f frame same by (simp add: decode_aac_def decode_result_ok_def)
    qed
  qed
qed

lemma audio_decoder_decode_ok:
  assumes "codec_ok L" "decode_channels d \<le> 2" "2 * capacity \<le> room" "room < 2 ^ 31" "length input \<le> 2 * room"
  shows "decode_result_ok d room capacity (audio_decoder_decode L realloc reopen d input room capacity)"
proof -
  note ch = decode_channels_pos [of d]
  have "decode_channels d < 2 ^ 31" "length input < 2 ^ 32" using assms(2,4,5) by simp_all
  then obtain r where pcm: "decode_pcm input (decode_channels d) room capacity = Some (Some r)"
      "decoded_ok room capacity (Some r)"
    using decode_pcm_ok [OF ch _ assms(5)] by blast
  note alac = decode_alac_ok [OF assms(1,3,4) ch assms(2)]
  note aac = decode_aac_ok [OF assms(1,3,4) ch assms(2)]
  show ?thesis
    by (cases "dc_kind d") (simp_all add: audio_decoder_decode_def alac aac pcm decode_result_ok_def [of d _ _ "Some (Some _, _)"])
qed

end
