(* ===== verification/Audio_Stream.thy ===== *)
theory Audio_Stream
  imports Audio_Decoder Audio_Timing
begin

section \<open>The receiver state and decoding into the buffer (audio_receiver_internal.h, audio_stream.c)\<close>

text \<open>
  The state all parts of the receiver share. A task handle is whether the task exists, a heap buffer
  is its size, and \<open>rv_stream\<close> tells which of the two stream objects is the current one.
\<close>

subsection \<open>State\<close>

definition MAX_RTP_PACKET_SIZE :: nat where "MAX_RTP_PACKET_SIZE = 2048"

datatype stream_ref = Realtime_stream | Buffered_stream

record receiver =
  rv_stream :: "stream_ref option"
  rv_realtime :: "audio_stream option"
  rv_buffered :: "audio_stream option"
  rv_decoder :: "audio_decoder option"
  rv_buffer :: audio_buffer
  rv_timing :: audio_timing
  rv_stats :: audio_stats
  rv_data_socket :: int
  rv_control_socket :: int
  rv_task :: bool
  rv_control_task :: bool
  rv_data_port :: u16
  rv_control_port :: u16
  rv_buffered_listen_socket :: int
  rv_buffered_client_socket :: int
  rv_buffered_port :: u16
  rv_buffered_task :: bool
  rv_buffered_recv_buffer :: "nat option"
  rv_decrypt_buffer :: "nat option"
  rv_decrypt_buffer_size :: nat
  rv_blocks_read :: u64
  rv_blocks_in_sequence :: u64
  rv_client_control :: "u32 \<times> u16"
  rv_retransmit_enabled :: bool
  rv_last_resend_error_us :: int
  rv_rtp_sequence_valid :: bool
  rv_resend_first :: u16
  rv_resend_mask :: u64
  rv_resend_last_request_us :: int
  rv_discard_before :: u32
  rv_discard_before_valid :: bool
  rv_discard_above :: u32
  rv_discard_above_valid :: bool
  rv_arm_gate :: bool
  rv_discard_all :: bool
  rv_paused_rtp :: u32
  rv_paused_rtp_valid :: bool

text \<open>The current stream object.\<close>

definition stream_of :: "receiver \<Rightarrow> stream_ref \<Rightarrow> audio_stream option" where
  "stream_of r ref = (case ref of Realtime_stream \<Rightarrow> rv_realtime r | Buffered_stream \<Rightarrow> rv_buffered r)"

definition put_stream :: "stream_ref \<Rightarrow> audio_stream \<Rightarrow> receiver \<Rightarrow> receiver" where
  "put_stream ref s r =
    (case ref of Realtime_stream \<Rightarrow> r\<lparr>rv_realtime := Some s\<rparr> | Buffered_stream \<Rightarrow> r\<lparr>rv_buffered := Some s\<rparr>)"

definition current_stream :: "receiver \<Rightarrow> audio_stream option" where
  "current_stream r = Option.bind (rv_stream r) (stream_of r)"

definition on_stats :: "(audio_stats \<Rightarrow> audio_stats) \<Rightarrow> receiver \<Rightarrow> receiver" where
  "on_stats f r = r\<lparr>rv_stats := f (rv_stats r)\<rparr>"

definition count_dropped :: "receiver \<Rightarrow> receiver" where
  "count_dropped = on_stats (\<lambda>s. s\<lparr>st_packets_dropped := st_packets_dropped s + 1\<rparr>)"

subsection \<open>The gates\<close>

definition audio_stream_accept_timestamp :: "u32 \<Rightarrow> receiver \<Rightarrow> bool \<times> receiver" where
  "audio_stream_accept_timestamp timestamp r =
    (if rv_discard_all r then (False, r)
     else if rv_discard_before_valid r \<and> sint (timestamp - rv_discard_before r) < 0 then (False, r)
     else let r = r\<lparr>rv_discard_before_valid := False\<rparr> in
       if rv_discard_above_valid r \<and> sint (timestamp - rv_discard_above r) > 0 then (False, r)
       else (True, r\<lparr>rv_discard_above_valid := False\<rparr>))"

definition timestamp_is_gated :: "receiver \<Rightarrow> u32 \<Rightarrow> bool" where
  "timestamp_is_gated r timestamp \<longleftrightarrow> rv_discard_all r \<or>
     (rv_discard_before_valid r \<and> sint (timestamp - rv_discard_before r) < 0) \<or>
     (rv_discard_above_valid r \<and> sint (timestamp - rv_discard_above r) > 0)"

subsection \<open>Decoding and queueing\<close>

text \<open>
  The mute of the first blocks of a sequence, on the words the decoder stored. The words behind them
  keep what was there, which nobody reads.
\<close>

definition apply_aac_transient_mute :: "receiver \<Rightarrow> u16 list \<Rightarrow> nat \<Rightarrow> int \<Rightarrow> u16 list mem" where
  "apply_aac_transient_mute r buffer samples channels =
    (if \<not> audio_decoder_is_aac (rv_decoder r) then Some buffer
     else if rv_blocks_in_sequence r \<le> 2 \<and> rv_blocks_in_sequence r \<noteq> rv_blocks_read r
     then wr buffer 0 (replicate (samples * nat channels) 0)
     else Some buffer)"

text \<open>
  What the environment decides during one frame: whether \<open>realloc\<close> has memory, whether a codec can be
  opened again, and what another task did to the gates of the receiver while the frame was decoded.
\<close>

record frame_env =
  fe_codec :: codec_lib
  fe_realloc :: bool
  fe_reopen :: bool
  fe_meanwhile :: "receiver \<Rightarrow> receiver"

definition audio_stream_process_accepted_frame :: "frame_env \<Rightarrow> u32 \<Rightarrow> bytes \<Rightarrow> receiver \<Rightarrow> (bool \<times> receiver) mem" where
  "audio_stream_process_accepted_frame E timestamp audio_data r =
    (case rv_decoder r of
       None \<Rightarrow> Some (False, r)
     | Some d \<Rightarrow>
         let capacity = audio_buffer_get_decode_buffer (rv_buffer r) in
         if capacity = 0 then Some (False, r)
         else do {
           (decoded, d) \<leftarrow> audio_decoder_decode (fe_codec E) (fe_realloc E) (fe_reopen E) d audio_data
             (capacity * AUDIO_MAX_CHANNELS) capacity;
           let r = r\<lparr>rv_decoder := Some d\<rparr>;
           case decoded of
             None \<Rightarrow> Some (False, r)
           | Some (samples, channels, pcm) \<Rightarrow>
               if samples = 0 then Some (False, r)
               else do {
                 stream \<leftarrow> current_stream r;
                 let channels = (if channels > 0 then channels else fm_channels (as_format stream));
                 let channels = (if channels \<le> 0 then 2 else channels);
                 pcm \<leftarrow> apply_aac_transient_mute r pcm samples channels;
                 let r = fe_meanwhile E r;
                 if timestamp_is_gated r timestamp then Some (False, r)
                 else do {
                   (ok, b, stats) \<leftarrow> audio_buffer_queue_decoded (rv_buffer r) (Some (rv_stats r)) timestamp pcm
                     samples channels;
                   Some (ok, r\<lparr>rv_buffer := b, rv_stats := the stats\<rparr>)
                 }
               }
         })"

definition audio_stream_process_frame :: "frame_env \<Rightarrow> u32 \<Rightarrow> bytes \<Rightarrow> receiver \<Rightarrow> (bool \<times> receiver) mem" where
  "audio_stream_process_frame E timestamp audio_data r =
    (let (ok, r) = audio_stream_accept_timestamp timestamp r in
     if \<not> ok then Some (False, r) else audio_stream_process_accepted_frame E timestamp audio_data r)"

end
