(* ===== verification/Rtp_Resend.thy ===== *)
theory Rtp_Resend
  imports Audio_Stream
begin

section \<open>RTP headers and lost packets (main/audio/audio_stream_realtime.c)\<close>

text \<open>
  The realtime transport parses RTP headers and keeps a window of 64 sequence numbers in which it
  remembers the packets that are missing: bit \<open>i\<close> of the mask stands for \<open>resend_window_first + i\<close>.
  Requests for missing packets go to the sender's control port; the datagrams that are sent are
  collected in order.
\<close>

definition RTP_HEADER_SIZE :: nat where "RTP_HEADER_SIZE = 12"
definition RESEND_WINDOW_BITS :: nat where "RESEND_WINDOW_BITS = 64"
definition RESEND_RETRY_INTERVAL_US :: int where "RESEND_RETRY_INTERVAL_US = 250000"
definition RESEND_ERROR_BACKOFF_US :: int where "RESEND_ERROR_BACKOFF_US = 300000"
definition MAX_RESEND_GAP :: nat where "MAX_RESEND_GAP = RESEND_WINDOW_BITS"

subsection \<open>Headers\<close>

definition be16_at :: "bytes \<Rightarrow> nat \<Rightarrow> u16 mem" where
  "be16_at p i = do { bs \<leftarrow> rd_block p i 2; Some (of_nat (be_val bs)) }"

definition be32_at :: "bytes \<Rightarrow> nat \<Rightarrow> u32 mem" where
  "be32_at p i = do { bs \<leftarrow> rd_block p i 4; Some (of_nat (be_val bs)) }"

text \<open>Sequence number, timestamp and payload of a packet; none when it is malformed.\<close>

definition parse_rtp :: "bytes \<Rightarrow> (u16 \<times> u32 \<times> bytes) option mem" where
  "parse_rtp packet =
    (if length packet < RTP_HEADER_SIZE then Some None
     else do {
       flags \<leftarrow> rd packet 0;
       if drop_bit 6 flags AND 3 \<noteq> 2 then Some None
       else do {
         seq \<leftarrow> be16_at packet 2;
         timestamp \<leftarrow> be32_at packet 4;
         if flags AND 0x10 \<noteq> 0 \<and> length packet < RTP_HEADER_SIZE + 4 then Some None
         else do {
           extension \<leftarrow> (if flags AND 0x10 \<noteq> 0
             then do { n \<leftarrow> be16_at packet (RTP_HEADER_SIZE + 2); Some (4 + unat n * 4) } else Some 0);
           let header_len = RTP_HEADER_SIZE + extension + unat (flags AND 0x0F) * 4;
           if length packet \<le> header_len then Some None
           else Some (Some (seq, timestamp, drop header_len packet))
         }
       }
     })"

subsection \<open>The window\<close>

definition resend_mask_for_count :: "nat \<Rightarrow> u64" where
  "resend_mask_for_count cnt = (if cnt \<ge> RESEND_WINDOW_BITS then -1 else push_bit cnt 1 - 1)"

function slide_loop :: "u64 \<Rightarrow> u16 \<Rightarrow> u64 \<times> u16" where
  "slide_loop missing first =
    (if missing \<noteq> 0 \<and> missing AND 1 = 0 then slide_loop (drop_bit 1 missing) (first + 1) else (missing, first))"
  by auto

termination
proof (relation "measure (\<lambda>(missing, first). unat missing)", goal_cases)
  case (2 missing first)
  then have "unat missing > 0" by (metis neq0_conv unat_eq_zero)
  then show ?case by (simp add: unat_drop_bit)
qed simp

declare slide_loop.simps [simp del]

definition resend_slide_window :: "receiver \<Rightarrow> receiver" where
  "resend_slide_window r =
    (let (missing, first) = slide_loop (rv_resend_mask r) (rv_resend_first r);
         r = r\<lparr>rv_resend_mask := missing, rv_resend_first := first\<rparr> in
     if missing = 0 then r\<lparr>rv_resend_last_request_us := 0\<rparr> else r)"

definition resend_mark_received :: "u16 \<Rightarrow> receiver \<Rightarrow> bool \<times> receiver" where
  "resend_mark_received seq r =
    (if rv_resend_mask r = 0 then (False, r)
     else let offset = unat (seq - rv_resend_first r) in
       if offset \<ge> RESEND_WINDOW_BITS then (False, r)
       else let b = push_bit offset 1 in
         if rv_resend_mask r AND b = 0 then (False, r)
         else (True, resend_slide_window (r\<lparr>rv_resend_mask := rv_resend_mask r AND NOT b\<rparr>)))"

definition resend_track_missing :: "u16 \<Rightarrow> nat \<Rightarrow> receiver \<Rightarrow> receiver" where
  "resend_track_missing first_seq cnt r =
    (if cnt = 0 \<or> cnt > MAX_RESEND_GAP then r
     else if rv_resend_mask r = 0 then
       r\<lparr>rv_resend_first := first_seq, rv_resend_mask := resend_mask_for_count cnt\<rparr>
     else let offset = unat (first_seq - rv_resend_first r) in
       if offset \<ge> RESEND_WINDOW_BITS \<or> offset + cnt > RESEND_WINDOW_BITS then
         r\<lparr>rv_resend_first := first_seq, rv_resend_mask := resend_mask_for_count cnt\<rparr>
       else r\<lparr>rv_resend_mask := rv_resend_mask r OR push_bit offset (resend_mask_for_count cnt)\<rparr>)"

text \<open>The first run of missing packets; the skipping loop is the one that slides the window.\<close>

function run_loop :: "u64 \<Rightarrow> nat \<Rightarrow> nat" where
  "run_loop missing range_count =
    (if missing AND 1 \<noteq> 0 \<and> range_count < RESEND_WINDOW_BITS then run_loop (drop_bit 1 missing) (range_count + 1)
     else range_count)"
  by auto

termination
  by (relation "measure (\<lambda>(missing, n). RESEND_WINDOW_BITS - n)") auto

declare run_loop.simps [simp del]

definition resend_next_range :: "receiver \<Rightarrow> (u16 \<times> nat) option" where
  "resend_next_range r =
    (if rv_resend_mask r = 0 then None
     else let (missing, first) = slide_loop (rv_resend_mask r) (rv_resend_first r);
              range_count = run_loop missing 0 in
       if range_count > 0 then Some (first, range_count) else None)"

subsection \<open>Requests\<close>

text \<open>
  What a request meets: the time at its start, whether \<open>sendto\<close> succeeds, and the time after it.
  Times are readings of the same clock since boot, so their differences do not overflow.
\<close>

record resend_env =
  rq_now_us :: int
  rq_sent :: bool
  rq_after_us :: int

definition resend_datagram :: "u16 \<Rightarrow> nat \<Rightarrow> bytes" where
  "resend_datagram first_seq cnt =
    [0x80, 0xD5, 0, 1, ucast (drop_bit 8 first_seq), ucast first_seq,
     ucast (drop_bit 8 (of_nat cnt :: u16)), ucast (of_nat cnt :: u16)]"

definition send_resend_request :: "resend_env \<Rightarrow> u16 \<Rightarrow> nat \<Rightarrow> receiver \<times> bytes list \<Rightarrow> bool \<times> receiver \<times> bytes list" where
  "send_resend_request E first_seq cnt s =
    (let (r, sent) = s in
     if \<not> rv_retransmit_enabled r \<or> rv_control_socket r \<le> 0 \<or> cnt = 0 then (False, r, sent)
     else if rv_last_resend_error_us r > 0 \<and> rq_now_us E - rv_last_resend_error_us r < RESEND_ERROR_BACKOFF_US
     then (False, r, sent)
     else if \<not> rq_sent E then (False, r\<lparr>rv_last_resend_error_us := rq_now_us E\<rparr>, sent)
     else (True, r\<lparr>rv_last_resend_error_us := 0\<rparr>, sent @ [resend_datagram first_seq cnt]))"

definition resend_request_range :: "resend_env \<Rightarrow> u16 \<Rightarrow> nat \<Rightarrow> receiver \<times> bytes list \<Rightarrow> receiver \<times> bytes list" where
  "resend_request_range E first_seq cnt s =
    (let (ok, r, sent) = send_resend_request E first_seq cnt s in
     if ok then (r\<lparr>rv_resend_last_request_us := rq_after_us E\<rparr>, sent) else (r, sent))"

definition resend_retry_if_due :: "int \<Rightarrow> resend_env \<Rightarrow> receiver \<times> bytes list \<Rightarrow> receiver \<times> bytes list" where
  "resend_retry_if_due now_us E s =
    (case resend_next_range (fst s) of
       None \<Rightarrow> s
     | Some (first_seq, cnt) \<Rightarrow>
         if rv_resend_last_request_us (fst s) = 0 \<or>
            now_us - rv_resend_last_request_us (fst s) \<ge> RESEND_RETRY_INTERVAL_US
         then resend_request_range E first_seq cnt s
         else s)"

text \<open>Sequence numbers of regular packets: whether the packet is to be used.\<close>

definition track_regular_rtp_sequence :: "resend_env \<Rightarrow> u16 \<Rightarrow> receiver \<times> bytes list \<Rightarrow> bool \<times> receiver \<times> bytes list" where
  "track_regular_rtp_sequence E seq s =
    (let (r, sent) = s; seen = on_stats (\<lambda>st. st\<lparr>st_last_seq := seq\<rparr>) in
     if \<not> rv_rtp_sequence_valid r then (True, seen (r\<lparr>rv_rtp_sequence_valid := True\<rparr>), sent)
     else
       let expected_seq = st_last_seq (rv_stats r) + 1;
           delta = sint (seq - expected_seq) in
       if delta = 0 then (True, seen r, sent)
       else if delta > 0 then
         let gap = nat delta;
             (r, sent) = (if gap \<le> MAX_RESEND_GAP then
                 let r = on_stats (\<lambda>st. st\<lparr>st_packets_dropped := st_packets_dropped st + of_nat gap\<rparr>) r in
                 resend_request_range E expected_seq gap (resend_track_missing expected_seq gap r, sent)
               else (r, sent)) in
         (True, seen r, sent)
       else
         let (ok, r) = resend_mark_received seq r in (ok, r, sent))"

subsection \<open>The window as a list of holes\<close>

text \<open>The missing sequence numbers, oldest first, and the abstract operations on them.\<close>

definition holes_of :: "u64 \<Rightarrow> u16 \<Rightarrow> u16 list" where
  "holes_of missing first = map (\<lambda>i. first + of_nat i) (filter (bit missing) [0..<64])"

definition holes :: "receiver \<Rightarrow> u16 list" where
  "holes r = holes_of (rv_resend_mask r) (rv_resend_first r)"

definition seq_run :: "u16 \<Rightarrow> nat \<Rightarrow> u16 list" where
  "seq_run first n = map (\<lambda>i. first + of_nat i) [0..<n]"

text \<open>The window starts with a hole unless there is none.\<close>

definition window_ok :: "receiver \<Rightarrow> bool" where
  "window_ok r \<longleftrightarrow> rv_resend_mask r = 0 \<or> bit (rv_resend_mask r) 0"

definition lose :: "u16 \<Rightarrow> nat \<Rightarrow> u16 list \<Rightarrow> u16 list" where
  "lose first n xs =
    (if n = 0 \<or> n > 64 then xs
     else case xs of
       [] \<Rightarrow> seq_run first n
     | oldest # _ \<Rightarrow>
         if unat (first - oldest) + n > 64 then seq_run first n
         else filter (\<lambda>s. s \<in> set xs \<union> set (seq_run first n)) (seq_run oldest 64))"

lemma and_one_bit: "(w :: 'a::len word) AND 1 = 0 \<longleftrightarrow> \<not> bit w 0"
  by (simp add: and_one_eq bit_0 mod_2_eq_odd)

lemma mask_zero_iff: "(missing :: u64) = 0 \<longleftrightarrow> filter (bit missing) [0..<64] = []"
proof
  assume none: "filter (bit missing) [0..<64] = []"
  show "missing = 0"
  proof (rule bit_word_eqI)
    fix n assume "n < LENGTH(64)"
    then show "bit missing n \<longleftrightarrow> bit (0 :: u64) n" using none by (auto simp: filter_empty_conv)
  qed
qed (simp add: filter_empty_conv)

lemma holes_of_Nil [simp]: "holes_of missing first = [] \<longleftrightarrow> missing = 0"
  by (simp add: holes_of_def mask_zero_iff)

lemma holes_of_zero [simp]: "holes_of 0 first = []"
  by simp

lemma holes_of_hd: "bit missing 0 \<Longrightarrow> \<exists>xs. holes_of missing first = first # xs"
  by (simp add: holes_of_def upt_conv_Cons)

lemma not_bit_64: "64 \<le> n \<Longrightarrow> \<not> bit (missing :: u64) n"
  using bit_imp_le_length [of missing n] by auto

lemma holes_of_shift:
  assumes "\<not> bit missing 0"
  shows "holes_of (drop_bit 1 missing) (first + 1) = holes_of missing first"
proof -
  have "[0..<64] = 0 # map Suc [0..<63]" by (simp add: upt_conv_Cons map_Suc_upt)
  then have "filter (bit missing) [0..<64] = map Suc (filter (\<lambda>i. bit missing (Suc i)) [0..<63])"
    using assms by (simp add: filter_map o_def)
  moreover have "[0..<64] = [0..<63] @ [63::nat]" by (simp flip: upt_Suc_append)
  then have "filter (bit (drop_bit 1 missing)) [0..<64] = filter (\<lambda>i. bit missing (Suc i)) [0..<63]"
    using not_bit_64 [of 64 missing] by (simp add: bit_drop_bit_eq o_def)
  ultimately show ?thesis by (simp add: holes_of_def o_def add.assoc)
qed

lemma slide_loop_holes:
  "slide_loop missing first = (missing', first') \<Longrightarrow>
    holes_of missing' first' = holes_of missing first \<and> (missing' = 0 \<or> bit missing' 0)"
proof (induction missing first rule: slide_loop.induct)
  case (1 missing first)
  show ?case
  proof (cases "missing \<noteq> 0 \<and> missing AND 1 = 0")
    case True
    then have "slide_loop (drop_bit 1 missing) (first + 1) = (missing', first')"
      using 1(2) by (subst (asm) slide_loop.simps) simp
    then show ?thesis using 1(1) True holes_of_shift [of missing first] by (simp add: and_one_bit)
  next
    case False
    then have "missing' = missing" "first' = first" using 1(2) by (subst (asm) slide_loop.simps, auto)+
    then show ?thesis using False by (auto simp: and_one_bit)
  qed
qed

lemma set_holes_of: "s \<in> set (holes_of missing first) \<longleftrightarrow> bit missing (unat (s - first))"
proof
  assume "s \<in> set (holes_of missing first)"
  then obtain i where "i < 64" "bit missing i" "s = first + of_nat i" by (auto simp: holes_of_def)
  then show "bit missing (unat (s - first))" by (simp add: unat_of_nat_id)
next
  assume b: "bit missing (unat (s - first))"
  then have "unat (s - first) < 64" using not_bit_64 not_less by blast
  moreover have "s = first + of_nat (unat (s - first))" by simp
  ultimately show "s \<in> set (holes_of missing first)"
    using b by (auto simp: holes_of_def intro!: image_eqI [of _ _ "unat (s - first)"])
qed

lemma set_holes: "s \<in> set (holes r) \<longleftrightarrow> bit (rv_resend_mask r) (unat (s - rv_resend_first r))"
  by (simp add: holes_def set_holes_of)

lemma set_seq_run: "s \<in> set (seq_run first n) \<longleftrightarrow> unat (s - first) < n" if "n \<le> 65536"
proof
  assume "s \<in> set (seq_run first n)"
  then show "unat (s - first) < n" using that by (auto simp: seq_run_def unat_of_nat_id)
next
  assume "unat (s - first) < n"
  then show "s \<in> set (seq_run first n)"
    by (auto simp: seq_run_def intro!: image_eqI [of _ _ "unat (s - first)"])
qed

lemma holes_of_bits:
  assumes "\<And>i. i < 64 \<Longrightarrow> bit missing i \<longleftrightarrow> Q i"
  shows "holes_of missing first = map (\<lambda>i. first + of_nat i) (filter Q [0..<64])"
proof -
  have "filter (bit missing) [0..<64] = filter Q [0..<64]" using assms by (intro filter_cong) simp_all
  then show ?thesis by (simp add: holes_of_def)
qed

lemma holes_of_eqI:
  "(\<And>i. i < 64 \<Longrightarrow> bit missing i \<longleftrightarrow> P (first + of_nat i)) \<Longrightarrow> holes_of missing first = filter P (seq_run first 64)"
  by (subst holes_of_bits [of missing "\<lambda>i. P (first + of_nat i)"]) (simp_all add: seq_run_def filter_map o_def)

lemma bit_mask_for_count: "n \<le> 64 \<Longrightarrow> bit (resend_mask_for_count n) i \<longleftrightarrow> i < n"
proof -
  assume n: "n \<le> 64"
  have m: "push_bit n 1 - 1 = (mask n :: u64)" by (simp add: mask_eq_exp_minus_1)
  have "bit (push_bit n 1 - 1 :: u64) i \<longleftrightarrow> i < n" unfolding m using n by (simp add: bit_mask_iff) auto
  moreover have "bit (-1 :: u64) i \<longleftrightarrow> i < 64" by (simp add: bit_minus_1_iff)
  ultimately show ?thesis using n by (simp add: resend_mask_for_count_def RESEND_WINDOW_BITS_def)
qed

lemma holes_of_run:
  assumes "n \<le> 64"
  shows "holes_of (resend_mask_for_count n) first = seq_run first n"
proof -
  have "[0..<64] = [0..<n] @ [n..<64]" using assms upt_add_eq_append [of 0 n "64 - n"] by simp
  then have "filter (\<lambda>i. i < n) [0..<64] = [0..<n]" by (simp add: filter_empty_conv)
  then show ?thesis using holes_of_bits [of "resend_mask_for_count n" "\<lambda>i. i < n" first] assms
    by (simp add: seq_run_def bit_mask_for_count)
qed

lemma mask_for_count_nonzero: "0 < n \<Longrightarrow> n \<le> 64 \<Longrightarrow> bit (resend_mask_for_count n) 0"
  by (simp add: bit_mask_for_count)

subsection \<open>The operations on the holes\<close>

lemma filter_holes_of:
  "(\<And>i. i < 64 \<Longrightarrow> bit missing' i \<longleftrightarrow> bit missing i \<and> P (first + of_nat i)) \<Longrightarrow>
    holes_of missing' first = filter P (holes_of missing first)"
  by (subst holes_of_bits [of missing' "\<lambda>i. bit missing i \<and> P (first + of_nat i)"])
    (simp_all add: holes_of_def filter_map o_def conj_commute)

lemma resend_slide_window_holes:
  "holes (resend_slide_window r) = holes r \<and> window_ok (resend_slide_window r)"
proof -
  obtain missing first where s: "slide_loop (rv_resend_mask r) (rv_resend_first r) = (missing, first)" by force
  then show ?thesis using slide_loop_holes [OF s]
    by (auto simp: resend_slide_window_def holes_def window_ok_def Let_def)
qed

lemma offset_eq:
  assumes "i < 64"
  shows "first + of_nat i \<noteq> seq \<longleftrightarrow> i \<noteq> unat (seq - first :: u16)"
proof -
  have "unat (of_nat i :: u16) = i" using assms by (simp add: unat_of_nat_id)
  then have "i = unat (seq - first) \<longleftrightarrow> of_nat i = seq - first" by (metis of_nat_unat ucast_id)
  then show ?thesis by (simp add: eq_diff_eq add.commute)
qed

lemma run_offset:
  assumes "i < 64" "off + n \<le> 64" "0 < n"
  shows "unat (of_nat i - of_nat off :: u16) < n \<longleftrightarrow> off \<le> i \<and> i < off + n"
proof (cases "off \<le> i")
  case True
  then have e: "(of_nat i - of_nat off :: u16) = of_nat (i - off)" by (simp add: of_nat_diff)
  have "unat (of_nat i - of_nat off :: u16) = i - off" unfolding e using assms by (intro unat_of_nat_id) simp
  then show ?thesis using True assms(3) by arith
next
  case False
  have "(of_nat (i + 65536 - off) :: u16) = of_nat (i + 65536) - of_nat off"
    using assms by (intro of_nat_diff) simp
  then have e: "(of_nat i - of_nat off :: u16) = of_nat (i + 65536 - off)" by simp
  have "unat (of_nat i - of_nat off :: u16) = i + 65536 - off"
    unfolding e using False assms by (intro unat_of_nat_id) simp
  then show ?thesis using False assms by simp
qed

lemma resend_mark_received_holes:
  assumes "window_ok r"
  shows "fst (resend_mark_received seq r) \<longleftrightarrow> seq \<in> set (holes r)"
    and "holes (snd (resend_mark_received seq r)) = filter (\<lambda>s. s \<noteq> seq) (holes r)"
    and "window_ok (snd (resend_mark_received seq r))"
proof -
  let ?off = "unat (seq - rv_resend_first r)"
  have same: "filter (\<lambda>s. s \<noteq> seq) (holes r) = holes r" if "seq \<notin> set (holes r)"
    using that by (metis (mono_tags, lifting) filter_True)
  have bit: "rv_resend_mask r AND push_bit ?off 1 = 0 \<longleftrightarrow> \<not> bit (rv_resend_mask r) ?off"
    by (simp add: bit_iff_and_push_bit_not_eq_0)
  show r1: "fst (resend_mark_received seq r) \<longleftrightarrow> seq \<in> set (holes r)"
    using not_bit_64 [of ?off "rv_resend_mask r"] bit
    by (auto simp: resend_mark_received_def Let_def set_holes RESEND_WINDOW_BITS_def)
  show "holes (snd (resend_mark_received seq r)) = filter (\<lambda>s. s \<noteq> seq) (holes r)"
  proof (cases "seq \<in> set (holes r)")
    case False
    then have "snd (resend_mark_received seq r) = r"
      using r1 by (auto simp: resend_mark_received_def Let_def split: if_splits)
    then show ?thesis using same [OF False] by simp
  next
    case True
    let ?r = "r\<lparr>rv_resend_mask := rv_resend_mask r AND NOT (push_bit ?off 1)\<rparr>"
    have "snd (resend_mark_received seq r) = resend_slide_window ?r"
      using True r1 by (auto simp: resend_mark_received_def Let_def split: if_splits)
    moreover have "holes_of (rv_resend_mask r AND NOT (push_bit ?off 1)) (rv_resend_first r) =
        filter (\<lambda>s. s \<noteq> seq) (holes_of (rv_resend_mask r) (rv_resend_first r))"
    proof (rule filter_holes_of)
      fix i :: nat assume "i < 64"
      then show "bit (rv_resend_mask r AND NOT (push_bit ?off 1)) i \<longleftrightarrow>
          bit (rv_resend_mask r) i \<and> rv_resend_first r + of_nat i \<noteq> seq"
        using offset_eq [of i "rv_resend_first r" seq] by (auto simp: bit_and_iff bit_not_iff bit_exp_iff)
    qed
    then have "holes ?r = filter (\<lambda>s. s \<noteq> seq) (holes r)" by (simp add: holes_def)
    ultimately show ?thesis using resend_slide_window_holes by metis
  qed
  show "window_ok (snd (resend_mark_received seq r))"
    using assms resend_slide_window_holes by (auto simp: resend_mark_received_def Let_def)
qed

lemma resend_track_missing_holes:
  assumes "window_ok r"
  shows "holes (resend_track_missing first n r) = lose first n (holes r)"
    and "window_ok (resend_track_missing first n r)"
proof -
  let ?f = "rv_resend_first r" and ?m = "rv_resend_mask r"
  let ?off = "unat (first - ?f)"
  note gap = MAX_RESEND_GAP_def RESEND_WINDOW_BITS_def
  have "holes (resend_track_missing first n r) = lose first n (holes r) \<and> window_ok (resend_track_missing first n r)"
  proof (cases "n = 0 \<or> n > 64")
    case True
    then show ?thesis using assms by (auto simp: resend_track_missing_def lose_def gap)
  next
    case n: False
    note run = holes_of_run [of n first] mask_for_count_nonzero [of n]
    show ?thesis
    proof (cases "?m = 0")
      case True
      then show ?thesis using n run by (simp add: resend_track_missing_def lose_def holes_def window_ok_def gap)
    next
      case m: False
      then have b0: "bit ?m 0" using assms by (simp add: window_ok_def)
      then obtain xs where xs: "holes r = ?f # xs" using holes_of_hd [of ?m ?f] by (auto simp: holes_def)
      show ?thesis
      proof (cases "?off + n > 64")
        case True
        then show ?thesis using n m run xs by (auto simp: resend_track_missing_def lose_def holes_def window_ok_def gap Let_def)
      next
        case fits: False
        let ?m' = "?m OR push_bit ?off (resend_mask_for_count n)"
        have r': "resend_track_missing first n r = r\<lparr>rv_resend_mask := ?m'\<rparr>"
          using n m fits by (simp add: resend_track_missing_def gap Let_def)
        have "holes_of ?m' ?f = filter (\<lambda>s. s \<in> set (holes r) \<union> set (seq_run first n)) (seq_run ?f 64)"
        proof (rule holes_of_eqI)
          fix i :: nat assume i: "i < 64"
          have "?f + of_nat i - first = of_nat i - of_nat ?off" by simp
          then have "unat (?f + of_nat i - first) < n \<longleftrightarrow> ?off \<le> i \<and> i < ?off + n"
            using run_offset [OF i, of ?off n] n fits by (simp only:) simp
          moreover have "bit (push_bit ?off (resend_mask_for_count n)) i \<longleftrightarrow> ?off \<le> i \<and> i < ?off + n"
            using i n bit_mask_for_count [of n "i - ?off"] by (auto simp: bit_push_bit_iff)
          ultimately show "bit ?m' i \<longleftrightarrow> ?f + of_nat i \<in> set (holes r) \<union> set (seq_run first n)"
            using i n by (simp add: bit_or_iff set_holes set_seq_run unat_of_nat_id)
        qed
        moreover have "lose first n (holes r) = filter (\<lambda>s. s \<in> set (holes r) \<union> set (seq_run first n)) (seq_run ?f 64)"
          using n fits xs by (simp add: lose_def)
        moreover have "bit ?m' 0" using b0 by (simp add: bit_or_iff)
        ultimately show ?thesis by (simp add: r' holes_def window_ok_def)
      qed
    qed
  qed
  then show "holes (resend_track_missing first n r) = lose first n (holes r)"
    and "window_ok (resend_track_missing first n r)" by blast+
qed

text \<open>The range to request is the first run of holes.\<close>

fun run_length :: "u16 \<Rightarrow> u16 list \<Rightarrow> nat" where
  "run_length s [] = 0"
| "run_length s (x # xs) = (if x = s then 1 + run_length (s + 1) xs else 0)"

definition first_range :: "u16 list \<Rightarrow> (u16 \<times> nat) option" where
  "first_range xs = (case xs of [] \<Rightarrow> None | oldest # _ \<Rightarrow> Some (oldest, run_length oldest xs))"

lemma run_loop_bits:
  "n \<le> 64 \<Longrightarrow> run_loop missing n = n + length (takeWhile (bit missing) [0..<64 - n])"
proof (induction missing n rule: run_loop.induct)
  case (1 missing n)
  show ?case
  proof (cases "bit missing 0 \<and> n < 64")
    case True
    then have "[0..<64 - n] = 0 # map Suc [0..<64 - Suc n]"
      by (metis map_Suc_upt Suc_diff_Suc upt_conv_Cons zero_less_diff)
    then have "takeWhile (bit missing) [0..<64 - n] =
        0 # map Suc (takeWhile (bit (drop_bit 1 missing)) [0..<64 - Suc n])"
      using True by (simp add: takeWhile_map o_def bit_drop_bit_eq)
    then show ?thesis using 1 True
      by (subst run_loop.simps) (simp add: and_one_bit RESEND_WINDOW_BITS_def)
  next
    case False
    have "length (takeWhile (bit missing) [0..<64 - n]) = 0"
    proof (cases "n = 64")
      case neq: False
      then have "[0..<64 - n] = 0 # [1..<64 - n]" using 1(2) by (simp add: upt_conv_Cons)
      then show ?thesis using False neq 1(2) by simp
    qed simp
    then show ?thesis using False by (subst run_loop.simps) (auto simp: and_one_bit RESEND_WINDOW_BITS_def)
  qed
qed

lemma run_length_bits:
  "k + n = 64 \<Longrightarrow> run_length (first + of_nat k) (map (\<lambda>i. first + of_nat i) (filter (bit missing) [k..<64])) =
    length (takeWhile (bit missing) [k..<64])"
proof (induction n arbitrary: k)
  case 0
  then show ?case by simp
next
  case (Suc n)
  then have k: "[k..<64] = k # [Suc k..<64]" by (simp add: upt_conv_Cons)
  show ?case
  proof (cases "bit missing k")
    case True
    then show ?thesis using Suc.IH [of "Suc k"] Suc.prems k by (simp add: add_ac)
  next
    case False
    have "run_length (first + of_nat k) (map (\<lambda>i. first + of_nat i) (filter (bit missing) [Suc k..<64])) = 0"
    proof (cases "filter (bit missing) [Suc k..<64]")
      case (Cons i rest)
      then have "i \<in> set [Suc k..<64]" by (metis filter_is_subset list.set_intros(1) subsetD)
      then have i: "k < i" "i < 64" by simp_all
      have "first + of_nat i \<noteq> first + of_nat k"
      proof
        assume "first + of_nat i = first + of_nat k"
        then have "unat (of_nat i :: u16) = unat (of_nat k :: u16)" by simp
        then show False using i by (simp add: unat_of_nat_id)
      qed
      then show ?thesis using Cons by simp
    qed simp
    then show ?thesis using False k by simp
  qed
qed

lemma resend_next_range_holes:
  assumes "window_ok r"
  shows "resend_next_range r = first_range (holes r)"
proof (cases "rv_resend_mask r = 0")
  case True
  then show ?thesis by (simp add: resend_next_range_def first_range_def holes_def)
next
  case False
  let ?f = "rv_resend_first r" and ?m = "rv_resend_mask r"
  have b: "bit ?m 0" using False assms by (simp add: window_ok_def)
  then obtain xs where xs: "holes r = ?f # xs" using holes_of_hd [of ?m ?f] by (auto simp: holes_def)
  have "slide_loop ?m ?f = (?m, ?f)" using b by (subst slide_loop.simps) (simp add: and_one_bit)
  moreover have len: "run_loop ?m 0 = run_length ?f (holes r)"
    using run_loop_bits [of 0 ?m] run_length_bits [of 0 64 ?f ?m] by (simp add: holes_def holes_of_def)
  moreover have "0 < run_length ?f (holes r)" by (simp add: xs)
  ultimately show ?thesis using False xs by (simp add: resend_next_range_def first_range_def)
qed

end
