(* ===== verification/Resend_Log.thy ===== *)
theory Resend_Log
  imports Rtp_Resend
begin

section \<open>The record of missing packets as an abstract log\<close>

text \<open>
  What the receive path relies on: a log of missing sequence numbers in which losses are entered and
  arrivals are crossed out. The window of 64 bits is such a log.
\<close>

datatype resend_op = Got u16 | Lost u16 nat

definition resend_step :: "resend_op \<Rightarrow> receiver \<Rightarrow> receiver" where
  "resend_step op r = (case op of Got s \<Rightarrow> snd (resend_mark_received s r) | Lost first n \<Rightarrow> resend_track_missing first n r)"

definition hole_step :: "resend_op \<Rightarrow> u16 list \<Rightarrow> u16 list" where
  "hole_step op xs = (case op of Got s \<Rightarrow> filter (\<lambda>x. x \<noteq> s) xs | Lost first n \<Rightarrow> lose first n xs)"

locale missing_log =
  fixes inv :: "'q \<Rightarrow> bool" and items :: "'q \<Rightarrow> u16 list"
    and got :: "u16 \<Rightarrow> 'q \<Rightarrow> bool \<times> 'q" and lost :: "u16 \<Rightarrow> nat \<Rightarrow> 'q \<Rightarrow> 'q"
    and next_range :: "'q \<Rightarrow> (u16 \<times> nat) option"
  assumes got_result: "inv q \<Longrightarrow> fst (got s q) \<longleftrightarrow> s \<in> set (items q)"
    and got_items: "inv q \<Longrightarrow> items (snd (got s q)) = filter (\<lambda>x. x \<noteq> s) (items q)"
    and got_inv: "inv q \<Longrightarrow> inv (snd (got s q))"
    and lost_items: "inv q \<Longrightarrow> items (lost first n q) = lose first n (items q)"
    and lost_inv: "inv q \<Longrightarrow> inv (lost first n q)"
    and next_items: "inv q \<Longrightarrow> next_range q = first_range (items q)"
begin

definition step :: "resend_op \<Rightarrow> 'q \<Rightarrow> 'q" where
  "step op q = (case op of Got s \<Rightarrow> snd (got s q) | Lost first n \<Rightarrow> lost first n q)"

lemma step_refines: "inv q \<Longrightarrow> inv (step op q) \<and> items (step op q) = hole_step op (items q)"
  by (cases op) (simp_all add: step_def hole_step_def got_items got_inv lost_items lost_inv)

lemma steps_refine: "inv q \<Longrightarrow> inv (fold step ops q) \<and> items (fold step ops q) = fold hole_step ops (items q)"
  by (induction ops arbitrary: q) (simp_all add: step_refines)

text \<open>An arrival is accepted once: crossed out, it is not missing any more.\<close>

lemma got_once: "inv q \<Longrightarrow> \<not> fst (got s (snd (got s q)))"
  by (simp add: got_result got_inv got_items)

end

interpretation rw: missing_log window_ok holes resend_mark_received resend_track_missing resend_next_range
  by unfold_locales
    (simp_all add: resend_mark_received_holes resend_track_missing_holes resend_next_range_holes)

lemma resend_step_eq: "rw.step = resend_step"
  by (intro ext) (simp add: rw.step_def resend_step_def split: resend_op.split)

text \<open>
  C26. The 64-bit window of missing packets refines a list of missing sequence numbers: after any
  sequence of losses and arrivals the window stands for the list on which the same losses were
  entered and the arrivals crossed out; an arrival is accepted exactly when it is on the list, a second
  arrival of it never, and the range requested next is the first run of consecutive numbers on it.
\<close>

theorem resend_window_refines_list:
  assumes "window_ok r"
  shows "let r' = fold resend_step ops r in holes r' = fold hole_step ops (holes r) \<and>
    resend_next_range r' = first_range (holes r') \<and>
    (\<forall>s. fst (resend_mark_received s r') \<longleftrightarrow> s \<in> set (holes r')) \<and>
    (\<forall>s. \<not> fst (resend_mark_received s (snd (resend_mark_received s r'))))"
proof -
  have "window_ok (fold resend_step ops r)" "holes (fold resend_step ops r) = fold hole_step ops (holes r)"
    using rw.steps_refine [OF assms, of ops] by (simp_all add: resend_step_eq)
  then show ?thesis by (simp add: Let_def rw.next_items rw.got_result rw.got_once)
qed

subsection \<open>A receiver for concrete runs\<close>

definition stats_zero :: audio_stats where
  "stats_zero = \<lparr>st_packets_received = 0, st_packets_decoded = 0, st_packets_dropped = 0, st_decrypt_errors = 0,
     st_buffer_underruns = 0, st_buffer_overruns = 0, st_late_frames = 0, st_last_seq = 0, st_last_timestamp = 0\<rparr>"

text \<open>The static receiver of \<open>audio_receiver.c\<close> before its initialisation.\<close>

definition receiver_zero :: receiver where
  "receiver_zero = \<lparr>rv_stream = None, rv_realtime = None, rv_buffered = None, rv_decoder = None,
     rv_buffer = \<lparr>ab_pool = None, ab_sorted = [], ab_free = [], ab_capacity = 0, ab_ready = 0, ab_decode_capacity = None\<rparr>,
     rv_timing = timing_zero, rv_stats = stats_zero, rv_data_socket = 0, rv_control_socket = 0, rv_task = False,
     rv_control_task = False, rv_data_port = 0, rv_control_port = 0, rv_buffered_listen_socket = 0,
     rv_buffered_client_socket = 0, rv_buffered_port = 0, rv_buffered_task = False, rv_buffered_recv_buffer = None,
     rv_decrypt_buffer = None, rv_decrypt_buffer_size = 0, rv_blocks_read = 0, rv_blocks_in_sequence = 0,
     rv_client_control = (0, 0), rv_retransmit_enabled = False, rv_last_resend_error_us = 0,
     rv_rtp_sequence_valid = False, rv_resend_first = 0, rv_resend_mask = 0, rv_resend_last_request_us = 0,
     rv_discard_before = 0, rv_discard_before_valid = False, rv_discard_above = 0, rv_discard_above_valid = False,
     rv_arm_gate = False, rv_discard_all = False, rv_paused_rtp = 0, rv_paused_rtp_valid = False\<rparr>"

lemma resend_window_refines_list_witness:
  "holes (fold resend_step [Lost 10 3, Lost 20 1, Got 11, Got 99] receiver_zero) = [10, 12, 20]"
proof -
  have "window_ok receiver_zero" by (simp add: window_ok_def receiver_zero_def)
  note refines = resend_window_refines_list [OF this, of "[Lost 10 3, Lost 20 1, Got 11, Got 99]"]
  have "holes receiver_zero = []" by (simp add: holes_def receiver_zero_def)
  moreover have "seq_run 10 3 = [10, 11, 12]" by (simp add: seq_run_def upt_rec)
  moreover have "set (seq_run 20 1) = {20}" by (simp add: seq_run_def)
  moreover have "filter (\<lambda>s. s \<in> {10, 11, 12} \<union> {20}) (seq_run 10 64) = [10, 11, 12, 20]"
    by (simp add: seq_run_def upt_rec)
  ultimately show ?thesis using refines by (simp add: Let_def hole_step_def lose_def)
qed

subsection \<open>Sequence numbers are taken at face value\<close>

lemma sint_u16_of_int: "- (2 ^ 15) \<le> k \<Longrightarrow> k < 2 ^ 15 \<Longrightarrow> sint (of_int k :: u16) = k"
  by (simp add: signed_of_int signed_take_bit_int_eq_self)



end
