(* ===== verification/Audio_Crypto.thy ===== *)
theory Audio_Crypto
  imports Crypto Audio_Format
begin

section \<open>Decrypting audio packets (main/audio/audio_crypto.c)\<close>

text \<open>
  The two decryption routines. \<open>room\<close> is the size of the object behind the output pointer and
  \<open>capacity\<close> the size the caller announces for it; the result is the data stored at its start, none
  for a negative return value. libsodium stores nothing behind the plaintext but may use its place
  also when the tag is wrong, so that place must exist in any case. The AES functions of mbedTLS are
  a parameter.
\<close>

record aes_lib =
  aes_cbc_enc :: "bytes \<Rightarrow> bytes \<Rightarrow> bytes \<Rightarrow> bytes"
  aes_cbc_dec :: "bytes \<Rightarrow> bytes \<Rightarrow> bytes \<Rightarrow> bytes option"

definition aes_ok :: "aes_lib \<Rightarrow> bool" where
  "aes_ok A \<longleftrightarrow> (\<forall>k iv p. length (aes_cbc_enc A k iv p) = length p) \<and>
     (\<forall>k iv c p. aes_cbc_dec A k iv c = Some p \<longrightarrow> length p = length c) \<and>
     (\<forall>k iv p. length p mod 16 = 0 \<longrightarrow> aes_cbc_dec A k iv (aes_cbc_enc A k iv p) = Some p)"

text \<open>A store of \<open>n\<close> bytes at the start of the output, with the value it leaves there.\<close>

definition into :: "nat \<Rightarrow> nat \<Rightarrow> 'a \<Rightarrow> 'a mem" where
  "into room n r = (if n \<le> room then Some r else None)"

definition packet_nonce :: "bytes \<Rightarrow> bytes" where
  "packet_nonce packet = replicate 4 0 @ drop (length packet - 8) packet"

definition packet_aad :: "bytes \<Rightarrow> bytes" where
  "packet_aad packet = take 8 (drop 4 packet)"

definition aes_cbc_payload :: "aes_lib \<Rightarrow> audio_encrypt \<Rightarrow> bytes \<Rightarrow> bytes option" where
  "aes_cbc_payload A encrypt input =
    (let encrypted_len = length input div 16 * 16 in
     if encrypted_len > 0 then
       map_option (\<lambda>p. p @ drop encrypted_len input)
         (aes_cbc_dec A (take 16 (en_key encrypt)) (en_iv encrypt) (take encrypted_len input))
     else Some input)"

definition audio_crypto_decrypt_rtp ::
  "crypto \<Rightarrow> aes_lib \<Rightarrow> audio_encrypt \<Rightarrow> bytes \<Rightarrow> nat \<Rightarrow> nat \<Rightarrow> bytes \<Rightarrow> bytes option mem" where
  "audio_crypto_decrypt_rtp C A encrypt input room capacity full_packet =
    (case en_type encrypt of
       AUDIO_ENCRYPT_NONE \<Rightarrow>
         if length input > capacity then Some None else into room (length input) (Some input)
     | AUDIO_ENCRYPT_AES_CBC \<Rightarrow>
         if length input > capacity then Some None
         else into room (length input) (aes_cbc_payload A encrypt input)
     | AUDIO_ENCRYPT_CHACHA20_POLY1305 \<Rightarrow>
         if length full_packet < 12 \<or> length input < 16 + 8 then Some None
         else into room (length input - 8 - 16)
           (aead_dec C (en_key encrypt) (packet_nonce full_packet) (packet_aad full_packet)
             (take (length input - 8) input)))"

definition audio_crypto_decrypt_buffered ::
  "crypto \<Rightarrow> audio_encrypt \<Rightarrow> bytes \<Rightarrow> nat \<Rightarrow> nat \<Rightarrow> bytes option mem" where
  "audio_crypto_decrypt_buffered C encrypt packet room capacity =
    (if en_type encrypt \<noteq> AUDIO_ENCRYPT_CHACHA20_POLY1305 then
       if length packet \<le> 12 then Some None
       else if length packet - 12 > capacity then Some None
       else into room (length packet - 12) (Some (drop 12 packet))
     else if length packet < 36 then Some None
     else if length packet - 12 - 8 > capacity + 16 then Some None
     else into room (length packet - 12 - 8 - 16)
       (aead_dec C (en_key encrypt) (packet_nonce packet) (packet_aad packet)
         (take (length packet - 12 - 8) (drop 12 packet))))"

subsection \<open>What a sender produces\<close>

text \<open>
  The packets of the two transports: a 12-byte header, the sealed data under the last eight bytes of
  the packet as nonce and bytes 4 to 11 of the header as associated data.
\<close>

definition seal_packet :: "crypto \<Rightarrow> bytes \<Rightarrow> bytes \<Rightarrow> bytes \<Rightarrow> bytes \<Rightarrow> bytes" where
  "seal_packet C key header nonce data =
     header @ aead_enc C key (replicate 4 0 @ nonce) (take 8 (drop 4 header)) data @ nonce"

lemma seal_packet_parts:
  assumes "crypto_ok C" "length header = 12" "length nonce = 8"
  shows "length (seal_packet C key header nonce data) = 36 + length data"
    and "packet_nonce (seal_packet C key header nonce data) = replicate 4 0 @ nonce"
    and "packet_aad (seal_packet C key header nonce data) = take 8 (drop 4 header)"
    and "take (length data + 16) (drop 12 (seal_packet C key header nonce data)) =
      aead_enc C key (replicate 4 0 @ nonce) (take 8 (drop 4 header)) data"
    and "drop 12 (seal_packet C key header nonce data) =
      aead_enc C key (replicate 4 0 @ nonce) (take 8 (drop 4 header)) data @ nonce"
  using assms by (simp_all add: seal_packet_def packet_nonce_def packet_aad_def)

lemma decrypt_rtp_sealed:
  assumes "crypto_ok C" "length header = 12" "length nonce = 8" "length data \<le> room"
    "en_type encrypt = AUDIO_ENCRYPT_CHACHA20_POLY1305"
  shows "audio_crypto_decrypt_rtp C A encrypt (drop 12 (seal_packet C (en_key encrypt) header nonce data))
    room capacity (seal_packet C (en_key encrypt) header nonce data) = Some (Some data)"
  using assms seal_packet_parts [OF assms(1-3)]
  by (simp add: audio_crypto_decrypt_rtp_def into_def)

lemma decrypt_buffered_sealed:
  assumes "crypto_ok C" "length header = 12" "length nonce = 8" "length data \<le> room" "length data \<le> capacity"
    "en_type encrypt = AUDIO_ENCRYPT_CHACHA20_POLY1305"
  shows "audio_crypto_decrypt_buffered C encrypt (seal_packet C (en_key encrypt) header nonce data) room capacity =
    Some (Some data)"
  using assms seal_packet_parts [OF assms(1-3)]
  by (simp add: audio_crypto_decrypt_buffered_def into_def)

text \<open>The other way round: what is accepted under ChaCha20 was sealed under the key.\<close>

lemma packet_split:
  assumes "length p \<ge> 36" "take (length p - 20) (drop 12 p) = ct"
  shows "p = take 12 p @ ct @ drop (length p - 8) p"
proof -
  have "drop 12 p = take (length p - 20) (drop 12 p) @ drop (length p - 20) (drop 12 p)"
    by (rule append_take_drop_id [symmetric])
  also have "drop (length p - 20) (drop 12 p) = drop (length p - 8) p" using assms(1) by simp
  finally have "drop 12 p = ct @ drop (length p - 8) p" using assms(2) by simp
  then show ?thesis by (metis append_take_drop_id)
qed

lemma decrypt_buffered_authentic:
  assumes "crypto_ok C" "en_type encrypt = AUDIO_ENCRYPT_CHACHA20_POLY1305"
    "audio_crypto_decrypt_buffered C encrypt packet room capacity = Some (Some data)"
  shows "packet = seal_packet C (en_key encrypt) (take 12 packet) (drop (length packet - 8) packet) data \<and>
    length data \<le> capacity"
proof -
  have len: "length packet \<ge> 36" and fits: "length packet - 20 \<le> capacity + 16"
    and dec: "aead_dec C (en_key encrypt) (packet_nonce packet) (packet_aad packet)
      (take (length packet - 20) (drop 12 packet)) = Some data"
    using assms(2,3) by (auto simp: audio_crypto_decrypt_buffered_def into_def split: if_splits)
  have ct: "take (length packet - 20) (drop 12 packet) =
      aead_enc C (en_key encrypt) (packet_nonce packet) (packet_aad packet) data"
    using dec assms(1) by (simp add: aead_dec_iff)
  moreover have "packet_aad packet = take 8 (drop 4 (take 12 packet))" by (simp add: packet_aad_def drop_take)
  ultimately have "packet = seal_packet C (en_key encrypt) (take 12 packet) (drop (length packet - 8) packet) data"
    using packet_split [OF len ct] by (simp add: seal_packet_def packet_nonce_def)
  moreover have "length data + 16 = length packet - 20"
    using aead_dec_length [OF assms(1) dec] len by simp
  ultimately show ?thesis using fits by simp
qed

text \<open>AES-CBC packets: whole blocks are encrypted, the rest of the payload is in the clear.\<close>

definition aes_payload :: "aes_lib \<Rightarrow> audio_encrypt \<Rightarrow> bytes \<Rightarrow> bytes" where
  "aes_payload A encrypt data = (let n = length data div 16 * 16 in
     aes_cbc_enc A (take 16 (en_key encrypt)) (en_iv encrypt) (take n data) @ drop n data)"

lemma aes_cbc_roundtrip:
  assumes "aes_ok A"
  shows "aes_cbc_payload A encrypt (aes_payload A encrypt data) = Some data"
proof -
  let ?n = "length data div 16 * 16"
  let ?e = "aes_cbc_enc A (take 16 (en_key encrypt)) (en_iv encrypt) (take ?n data)"
  have n: "?n \<le> length data" by simp
  have len: "length ?e = ?n" using assms n by (simp add: aes_ok_def)
  have total: "length (aes_payload A encrypt data) = length data"
    using len n by (simp add: aes_payload_def Let_def)
  have parts: "take ?n (aes_payload A encrypt data) = ?e" "drop ?n (aes_payload A encrypt data) = drop ?n data"
    using len by (simp_all add: aes_payload_def Let_def)
  have dec: "aes_cbc_dec A (take 16 (en_key encrypt)) (en_iv encrypt) ?e = Some (take ?n data)"
    using assms n by (simp add: aes_ok_def)
  show ?thesis
  proof (cases "?n = 0")
    case True
    then have "?e = []" using len by simp
    then show ?thesis using True by (simp add: aes_cbc_payload_def aes_payload_def)
  next
    case False
    then have "aes_cbc_payload A encrypt (aes_payload A encrypt data) = Some (take ?n data @ drop ?n data)"
      using dec by (simp add: aes_cbc_payload_def total parts Let_def)
    then show ?thesis by simp
  qed
qed

text \<open>An instance, for concrete runs.\<close>

definition plain_aes :: aes_lib where
  "plain_aes = \<lparr>aes_cbc_enc = (\<lambda>k iv p. p), aes_cbc_dec = (\<lambda>k iv c. Some c)\<rparr>"

lemma plain_aes_ok [simp]: "aes_ok plain_aes"
  by (simp add: aes_ok_def plain_aes_def)

text \<open>
  C25. Decryption undoes what a sender does, on all three kinds of protection of a realtime packet and
  on a packet of the buffered transport: a sealed packet gives back its data, a payload whose whole
  blocks are AES-CBC encrypted gives back its data, and an unprotected payload comes out unchanged,
  whenever the data fits the output; on the buffered transport only sealed packets are accepted when
  encryption is on.
\<close>

theorem audio_decryption_inverts_sealing:
  assumes "crypto_ok C" "aes_ok A" "length header = 12" "length nonce = 8"
    "length data \<le> capacity" "capacity \<le> room"
  shows "case en_type encrypt of
      AUDIO_ENCRYPT_NONE \<Rightarrow> audio_crypto_decrypt_rtp C A encrypt data room capacity packet = Some (Some data)
    | AUDIO_ENCRYPT_AES_CBC \<Rightarrow>
        audio_crypto_decrypt_rtp C A encrypt (aes_payload A encrypt data) room capacity packet = Some (Some data)
    | AUDIO_ENCRYPT_CHACHA20_POLY1305 \<Rightarrow>
        (let sealed = seal_packet C (en_key encrypt) header nonce data in
         audio_crypto_decrypt_rtp C A encrypt (drop 12 sealed) room capacity sealed = Some (Some data) \<and>
         (\<forall>p. audio_crypto_decrypt_buffered C encrypt p room capacity = Some (Some data) \<and>
              take 12 p = header \<and> drop (length p - 8) p = nonce \<longleftrightarrow> p = sealed))"
proof (cases "en_type encrypt")
  case AUDIO_ENCRYPT_NONE
  then show ?thesis using assms by (simp add: audio_crypto_decrypt_rtp_def into_def)
next
  case AUDIO_ENCRYPT_AES_CBC
  have "length (aes_payload A encrypt data) = length data"
    using assms(2) by (simp add: aes_payload_def aes_ok_def Let_def)
  then show ?thesis using AUDIO_ENCRYPT_AES_CBC assms aes_cbc_roundtrip [OF assms(2)]
    by (simp add: audio_crypto_decrypt_rtp_def into_def)
next
  case AUDIO_ENCRYPT_CHACHA20_POLY1305
  note chacha = AUDIO_ENCRYPT_CHACHA20_POLY1305
  let ?s = "seal_packet C (en_key encrypt) header nonce data"
  have room: "length data \<le> room" using assms(5,6) by simp
  have "take 12 ?s = header" "drop (length ?s - 8) ?s = nonce"
    using assms(3,4) by (simp_all add: seal_packet_def)
  moreover have "audio_crypto_decrypt_buffered C encrypt ?s room capacity = Some (Some data)"
    by (rule decrypt_buffered_sealed [OF assms(1,3,4) room assms(5) chacha])
  moreover have "p = ?s" if "audio_crypto_decrypt_buffered C encrypt p room capacity = Some (Some data)"
      "take 12 p = header" "drop (length p - 8) p = nonce" for p
    using decrypt_buffered_authentic [OF assms(1) chacha that(1)] that(2,3) by simp
  ultimately have "audio_crypto_decrypt_buffered C encrypt p room capacity = Some (Some data) \<and>
      take 12 p = header \<and> drop (length p - 8) p = nonce \<longleftrightarrow> p = ?s" for p by blast
  then show ?thesis using chacha decrypt_rtp_sealed [OF assms(1,3,4) room chacha] by (simp add: Let_def)
qed

lemma audio_decryption_inverts_sealing_witness:
  "let encrypt = encrypt_zero\<lparr>en_type := AUDIO_ENCRYPT_CHACHA20_POLY1305\<rparr>;
       sealed = seal_packet plain_crypto (en_key encrypt) (replicate 12 7) (replicate 8 9) [1, 2, 3] in
   audio_crypto_decrypt_rtp plain_crypto plain_aes encrypt (drop 12 sealed) 8192 2048 sealed = Some (Some [1, 2, 3])"
  using audio_decryption_inverts_sealing [of plain_crypto plain_aes "replicate 12 7" "replicate 8 9" "[1, 2, 3]" 2048 8192
      "encrypt_zero\<lparr>en_type := AUDIO_ENCRYPT_CHACHA20_POLY1305\<rparr>" "[]"]
  by (simp add: Let_def)

end
