(* ===== verification/Realtime.thy ===== *)
theory Realtime
  imports Resend_Log Audio_Crypto
begin

section \<open>The realtime transport (main/audio/audio_stream_realtime.c, main/network/socket_utils.c)\<close>

text \<open>
  Audio packets over UDP: one call of the receive loop, and starting and stopping the transport. What
  the network and the scheduler do is an argument of each call.
\<close>

subsection \<open>Bound sockets\<close>

text \<open>
  The results of the socket calls: the descriptor of the new socket, whether it could be bound and
  put into the listening state, and the port it got. The outcome is the descriptor or -1, the bound
  port (unchanged on failure) and the descriptors that were closed.
\<close>

record bind_env =
  be_fd :: int
  be_bind :: bool
  be_listen :: bool
  be_port :: u16

definition socket_utils_bind_udp :: "bind_env \<Rightarrow> u16 \<Rightarrow> int \<times> u16 \<times> int list" where
  "socket_utils_bind_udp E bound_port =
    (if be_fd E < 0 then (-1, bound_port, [])
     else if \<not> be_bind E then (-1, bound_port, [be_fd E])
     else (be_fd E, be_port E, []))"

definition socket_utils_bind_tcp_listener :: "bind_env \<Rightarrow> u16 \<Rightarrow> int \<times> u16 \<times> int list" where
  "socket_utils_bind_tcp_listener E bound_port =
    (if be_fd E < 0 then (-1, bound_port, [])
     else if \<not> be_bind E then (-1, bound_port, [be_fd E])
     else if \<not> be_listen E then (-1, bound_port, [be_fd E])
     else (be_fd E, be_port E, []))"

subsection \<open>Receiving a packet\<close>

datatype datagram = Dg bytes | Dg_again | Dg_error

text \<open>
  The libraries, what happens while the frame is decoded, and the clock and the socket for the
  requests of missing packets: for a gap in the sequence and for the repetition.
\<close>

record rx_env =
  rx_crypto :: crypto
  rx_aes :: aes_lib
  rx_frame :: frame_env
  rx_gap :: resend_env
  rx_now_us :: int
  rx_retry :: resend_env

definition retry_if_due :: "rx_env \<Rightarrow> receiver \<times> bytes list \<Rightarrow> receiver \<times> bytes list" where
  "retry_if_due E = resend_retry_if_due (rx_now_us E) (rx_retry E)"

text \<open>Whether the packet is to be played, by its sequence number.\<close>

definition accept_sequence :: "rx_env \<Rightarrow> bool \<Rightarrow> u16 \<Rightarrow> u32 \<Rightarrow> receiver \<times> bytes list \<Rightarrow> bool \<times> receiver \<times> bytes list" where
  "accept_sequence E is_retransmit seq timestamp s =
    (if is_retransmit then
       let (ok, r) = resend_mark_received seq (fst s) in
       if \<not> ok then (False, r, snd s) else (True, retry_if_due E (r, snd s))
     else
       let (ok, r, sent) = track_regular_rtp_sequence (rx_gap E) seq s in
       if \<not> ok then (False, r, sent)
       else (True, retry_if_due E (on_stats (\<lambda>st. st\<lparr>st_last_timestamp := timestamp\<rparr>) r, sent)))"

text \<open>Decrypting the payload and decoding it into the buffer.\<close>

definition play_payload :: "rx_env \<Rightarrow> u32 \<Rightarrow> bytes \<Rightarrow> bytes \<Rightarrow> receiver \<Rightarrow> receiver mem" where
  "play_payload E timestamp payload rtp_data r = do {
     stream \<leftarrow> rv_realtime r;
     audio \<leftarrow> (if en_type (as_encrypt stream) \<noteq> AUDIO_ENCRYPT_NONE \<and> rv_decrypt_buffer r \<noteq> None
       then audio_crypto_decrypt_rtp (rx_crypto E) (rx_aes E) (as_encrypt stream) payload
         (the (rv_decrypt_buffer r)) MAX_RTP_PACKET_SIZE rtp_data
       else Some (Some payload));
     case audio of
       None \<Rightarrow> Some (count_dropped (on_stats (\<lambda>st. st\<lparr>st_decrypt_errors := st_decrypt_errors st + 1\<rparr>) r))
     | Some audio_data \<Rightarrow> do {
         (ok, r) \<leftarrow> audio_stream_process_frame (rx_frame E) timestamp audio_data r;
         Some (if ok then r else count_dropped r)
       }
   }"

text \<open>One turn of the receive loop; the result tells whether the loop goes on.\<close>

definition realtime_receive_packet :: "rx_env \<Rightarrow> datagram \<Rightarrow> receiver \<times> bytes list \<Rightarrow> (bool \<times> receiver \<times> bytes list) mem" where
  "realtime_receive_packet E d s =
    (case d of
       Dg_again \<Rightarrow> Some (True, retry_if_due E s)
     | Dg_error \<Rightarrow> Some (False, s)
     | Dg bs \<Rightarrow>
         let packet = take MAX_RTP_PACKET_SIZE bs in
         if packet = [] then Some (True, s)
         else do {
           let r = on_stats (\<lambda>st. st\<lparr>st_packets_received := st_packets_received st + 1\<rparr>) (fst s);
           let is_retransmit = (length packet \<ge> 16 \<and> packet ! 1 AND 0x7F = 0x56);
           let rtp_data = (if is_retransmit then drop 4 packet else packet);
           parsed \<leftarrow> parse_rtp rtp_data;
           case parsed of
             None \<Rightarrow> Some (True, count_dropped r, snd s)
           | Some (seq, timestamp, payload) \<Rightarrow>
               let (ok, r, sent) = accept_sequence E is_retransmit seq timestamp (r, snd s) in
               if \<not> ok then Some (True, r, sent)
               else do {
                 let r = r\<lparr>rv_blocks_read := rv_blocks_read r + 1,
                   rv_blocks_in_sequence := rv_blocks_in_sequence r + 1\<rparr>;
                 r \<leftarrow> play_payload E timestamp payload rtp_data r;
                 Some (True, r, sent)
               }
         })"

text \<open>
  The task: one datagram after the other, each with its environment, until one is an error or the
  stream is stopped (the end of the list).
\<close>

fun receive_loop :: "(rx_env \<times> datagram) list \<Rightarrow> receiver \<times> bytes list \<Rightarrow> (receiver \<times> bytes list) mem" where
  "receive_loop [] s = Some s"
| "receive_loop ((E, d) # ds) s = do {
     (go, s) \<leftarrow> realtime_receive_packet E d s;
     if go then receive_loop ds s else Some s
   }"

definition receiver_task :: "bool \<Rightarrow> (rx_env \<times> datagram) list \<Rightarrow> receiver \<times> bytes list \<Rightarrow> (receiver \<times> bytes list) mem" where
  "receiver_task allocated ds s =
    (if \<not> allocated then Some ((fst s)\<lparr>rv_task := False\<rparr>, snd s)
     else do { (r, sent) \<leftarrow> receive_loop ds s; Some (r\<lparr>rv_task := False\<rparr>, sent) })"

subsection \<open>Starting and stopping\<close>

text \<open>
  The environment of a start or a stop: the sockets, whether the tasks can be created, and whether
  they end within the time the code waits for them. The descriptors closed are collected.
\<close>

record start_env =
  se_data :: bind_env
  se_control :: bind_env
  se_task :: bool
  se_control_task :: bool
  se_task_ends :: bool
  se_control_ends :: bool

definition realtime_wait_for_tasks_stopped :: "start_env \<Rightarrow> receiver \<Rightarrow> bool \<times> receiver" where
  "realtime_wait_for_tasks_stopped E r =
    (let r = r\<lparr>rv_task := rv_task r \<and> \<not> se_task_ends E, rv_control_task := rv_control_task r \<and> \<not> se_control_ends E\<rparr> in
     (\<not> rv_task r \<and> \<not> rv_control_task r, r))"

definition set_running :: "stream_ref \<Rightarrow> bool \<Rightarrow> receiver \<Rightarrow> receiver" where
  "set_running ref v r = (case stream_of r ref of None \<Rightarrow> r | Some s \<Rightarrow> put_stream ref (s\<lparr>as_running := v\<rparr>) r)"

definition is_running :: "stream_ref \<Rightarrow> receiver \<Rightarrow> bool" where
  "is_running ref r = (case stream_of r ref of None \<Rightarrow> False | Some s \<Rightarrow> as_running s)"

definition close_pos :: "int \<Rightarrow> int list" where
  "close_pos fd = (if fd > 0 then [fd] else [])"

text \<open>Creating the two tasks, with everything undone when one cannot be created.\<close>

definition realtime_start_tasks :: "start_env \<Rightarrow> receiver \<Rightarrow> int list \<Rightarrow> esp_err \<times> receiver \<times> int list" where
  "realtime_start_tasks E r closed =
    (if \<not> se_task E then
       let closed = closed @ close_pos (rv_control_socket r) @ [rv_data_socket r];
           r = r\<lparr>rv_task := False, rv_control_socket := if rv_control_socket r > 0 then 0 else rv_control_socket r,
             rv_data_socket := 0\<rparr> in
       (ESP_FAIL, set_running Realtime_stream False r, closed)
     else let r = r\<lparr>rv_task := True\<rparr> in
       if rv_control_socket r > 0 then
         if \<not> se_control_task E then
           let closed = closed @ [rv_control_socket r, rv_data_socket r];
               r = set_running Realtime_stream False (r\<lparr>rv_control_task := False, rv_control_socket := 0, rv_data_socket := 0\<rparr>) in
           (ESP_FAIL, snd (realtime_wait_for_tasks_stopped E r), closed)
         else (ESP_OK, r\<lparr>rv_control_task := True\<rparr>, closed)
       else (ESP_OK, r, closed))"

definition realtime_start :: "start_env \<Rightarrow> u16 \<Rightarrow> receiver \<Rightarrow> esp_err \<times> receiver \<times> int list" where
  "realtime_start E port r =
    (if is_running Realtime_stream r then (ESP_OK, r, [])
     else
       let (stopped, r) = (if rv_task r \<or> rv_control_task r then realtime_wait_for_tasks_stopped E r else (True, r)) in
       if \<not> stopped then (ESP_ERR_INVALID_STATE, r, [])
       else
         let (fd, bound_port, closed) = socket_utils_bind_udp (se_data E) port;
             r = r\<lparr>rv_data_socket := fd\<rparr> in
         if fd < 0 then (ESP_FAIL, r, closed)
         else
           let r = r\<lparr>rv_data_port := bound_port\<rparr> in
           if rv_control_port r > 0 then
             let (cfd, ctrl_bound, closed') = socket_utils_bind_udp (se_control E) (rv_control_port r);
                 r = r\<lparr>rv_control_socket := cfd\<rparr>; closed = closed @ closed' in
             if cfd < 0 then (ESP_FAIL, r\<lparr>rv_data_socket := 0\<rparr>, closed @ [fd])
             else realtime_start_tasks E (set_running Realtime_stream True (r\<lparr>rv_control_port := ctrl_bound\<rparr>)) closed
           else realtime_start_tasks E (set_running Realtime_stream True r) closed)"

definition realtime_stop :: "start_env \<Rightarrow> receiver \<Rightarrow> receiver \<times> int list" where
  "realtime_stop E r =
    (if \<not> is_running Realtime_stream r \<and> \<not> rv_task r \<and> \<not> rv_control_task r then (r, [])
     else
       let r = set_running Realtime_stream False r;
           closed = close_pos (rv_data_socket r) @ close_pos (rv_control_socket r);
           r = r\<lparr>rv_data_socket := if rv_data_socket r > 0 then 0 else rv_data_socket r,
             rv_control_socket := if rv_control_socket r > 0 then 0 else rv_control_socket r\<rparr> in
       (snd (realtime_wait_for_tasks_stopped E r), closed))"

text \<open>Destroying the stream frees it unless a task still runs; the result tells whether it was freed.\<close>

definition realtime_destroy :: "start_env \<Rightarrow> receiver \<Rightarrow> bool \<times> receiver \<times> int list" where
  "realtime_destroy E r =
    (let (r, closed) = realtime_stop E r in (\<not> rv_task r \<and> \<not> rv_control_task r, r, closed))"

end
