(* ===== verification/Buffered.thy ===== *)
theory Buffered
  imports Realtime Sockets
begin

section \<open>The buffered transport (main/audio/audio_stream_buffered.c)\<close>

text \<open>
  Audio packets over TCP: each packet is preceded by its length, two bytes that count themselves. The
  task reads the stream packet by packet, drops what the gates reject, and decrypts and decodes the rest.
\<close>

definition BUFFERED_AUDIO_PACKET_SIZE :: nat where "BUFFERED_AUDIO_PACKET_SIZE = 8192"

subsection \<open>Reading\<close>

text \<open>
  What the task sees of the flags other tasks set, when the events \<open>es\<close> are still to come on the
  socket: whether the stream runs and whether playback is on.
\<close>

record task_view =
  tv_running :: "rx_event list \<Rightarrow> bool"
  tv_playing :: "rx_event list \<Rightarrow> bool"

text \<open>The bytes when exactly \<open>n\<close> could be read; none for the results 0 and -1.\<close>

function read_exact :: "task_view \<Rightarrow> nat \<Rightarrow> rx_event list \<Rightarrow> bytes option \<times> rx_event list" where
  "read_exact V n es =
    (if n = 0 \<or> \<not> tv_running V es then (if n = 0 \<and> tv_running V es then Some [] else None, es)
     else case recv_from n es of
       (R_bytes bs, es') \<Rightarrow>
         if bs = [] then (None, es')
         else let (rest, es'') = read_exact V (n - length bs) es' in (map_option ((@) bs) rest, es'')
     | (R_again, es') \<Rightarrow> if \<not> tv_playing V es' then read_exact V n es' else (None, es')
     | (R_error, es') \<Rightarrow> (None, es'))"
  by auto

termination
  by (relation "measure (\<lambda>(V, n, es). rx_size es)") (auto dest: rx_size_bytes [OF sym] rx_size_again [OF sym])

declare read_exact.simps [simp del]

subsection \<open>One packet\<close>

text \<open>Where the decrypted data goes: the size of the place and the capacity the code passes on.\<close>

definition decrypt_place :: "receiver \<Rightarrow> nat \<Rightarrow> nat \<times> nat" where
  "decrypt_place r packet_len =
    (case rv_decrypt_buffer r of
       Some n \<Rightarrow> (n, rv_decrypt_buffer_size r)
     | None \<Rightarrow> (the (rv_buffered_recv_buffer r) - 12, if packet_len > 12 then packet_len - 12 else 0))"

definition buffered_packet :: "crypto \<Rightarrow> frame_env \<Rightarrow> bytes \<Rightarrow> receiver \<Rightarrow> receiver mem" where
  "buffered_packet C E packet r = do {
     let r = on_stats (\<lambda>st. st\<lparr>st_packets_received := st_packets_received st + 1\<rparr>) r;
     seq_no \<leftarrow> be16_at packet 2;
     timestamp \<leftarrow> be32_at packet 4;
     let (ok, r) = audio_stream_accept_timestamp timestamp r;
     if \<not> ok then Some (count_dropped r)
     else do {
       stream \<leftarrow> rv_buffered r;
       let (room, capacity) = decrypt_place r (length packet);
       decrypted \<leftarrow> audio_crypto_decrypt_buffered C (as_encrypt stream) packet room capacity;
       case decrypted of
         None \<Rightarrow> Some (count_dropped (on_stats (\<lambda>st. st\<lparr>st_decrypt_errors := st_decrypt_errors st + 1\<rparr>) r))
       | Some data \<Rightarrow> do {
           let r = on_stats (\<lambda>st. st\<lparr>st_last_seq := seq_no, st_last_timestamp := timestamp\<rparr>) r;
           let r = r\<lparr>rv_blocks_read := rv_blocks_read r + 1, rv_blocks_in_sequence := rv_blocks_in_sequence r + 1\<rparr>;
           (ok, r) \<leftarrow> audio_stream_process_accepted_frame E timestamp data r;
           Some (if ok then r else count_dropped r)
         }
     }
   }"

subsection \<open>A connection\<close>

text \<open>
  The environment of a connection: the flags, the libraries, what happens while a frame is decoded,
  and what the other tasks have made of the receiver when the wait for room in the buffer is over.
\<close>

record conn_env =
  cn_view :: task_view
  cn_crypto :: crypto
  cn_frame :: "rx_event list \<Rightarrow> frame_env"
  cn_wait :: "rx_event list \<Rightarrow> receiver \<Rightarrow> receiver"

lemma read_exact_size: "read_exact V n es = (r, es') \<Longrightarrow> rx_size es' \<le> rx_size es \<and> (0 < n \<and> r \<noteq> None \<longrightarrow> rx_size es' < rx_size es)"
proof (induction V n es arbitrary: r es' rule: read_exact.induct)
  case (1 V n es)
  show ?case
  proof (cases "n = 0 \<or> \<not> tv_running V es")
    case True
    then show ?thesis using 1(3) by (auto simp: read_exact.simps [of V n es])
  next
    case False
    obtain x es1 where x: "recv_from n es = (x, es1)" by force
    show ?thesis
    proof (cases x)
      case (R_bytes bs)
      show ?thesis
      proof (cases "bs = []")
        case True
        then show ?thesis using 1(3) False x R_bytes rx_size_from [OF x] by (subst (asm) read_exact.simps) simp
      next
        case ne: False
        obtain r2 es2 where r2: "read_exact V (n - length bs) es1 = (r2, es2)" by force
        have "rx_size es2 \<le> rx_size es1" using 1(1) [OF False x [unfolded R_bytes, symmetric] refl ne r2] by blast
        moreover have "rx_size es1 < rx_size es" using rx_size_bytes x R_bytes ne by blast
        moreover have "es' = es2" using 1(3) False x R_bytes ne r2 by (subst (asm) read_exact.simps) simp
        ultimately show ?thesis by simp
      qed
    next
      case R_again
      show ?thesis
      proof (cases "tv_playing V es1")
        case True
        then show ?thesis using 1(3) False x R_again rx_size_from [OF x] by (subst (asm) read_exact.simps) simp
      next
        case np: False
        then have "read_exact V n es1 = (r, es')" using 1(3) False x R_again by (subst (asm) read_exact.simps) simp
        then have "rx_size es' \<le> rx_size es1"
          using 1(2) [OF False x [unfolded R_again, symmetric] refl np] by blast
        then show ?thesis using rx_size_again [of n es es1] x R_again by simp
      qed
    next
      case R_error
      then show ?thesis using 1(3) False x rx_size_from [OF x] by (subst (asm) read_exact.simps) simp
    qed
  qed
qed

text \<open>The loop of one connection: the receiver when it ends and what is left on the socket.\<close>

function buffered_connection :: "conn_env \<Rightarrow> rx_event list \<Rightarrow> receiver \<Rightarrow> (receiver \<times> rx_event list) mem" where
  "buffered_connection E es r =
    (if \<not> tv_running (cn_view E) es then Some (r, es)
     else
       let r = cn_wait E es r in
       case read_exact (cn_view E) 2 es of
         (None, es1) \<Rightarrow> Some (r, es1)
       | (Some len_buf, es1) \<Rightarrow>
           let data_len = be_val len_buf in
           if data_len < 2 \<or> data_len > BUFFERED_AUDIO_PACKET_SIZE then Some (r, es1)
           else
             (case read_exact (cn_view E) (data_len - 2) es1 of
                (None, es2) \<Rightarrow> Some (r, es2)
              | (Some packet, es2) \<Rightarrow>
                  if length packet > the (rv_buffered_recv_buffer r) then None
                  else if length packet < 8 then Some (r, es2)
                  else do {
                    r \<leftarrow> buffered_packet (cn_crypto E) (cn_frame E es2) packet r;
                    buffered_connection E es2 r
                  }))"
  by auto

termination
proof (relation "measure (\<lambda>(E, es, r). rx_size es)", goal_cases)
  case (2 E es r r1 x es1 len_buf y z es2 packet ra)
  then show ?case
    using read_exact_size [of "cn_view E" 2 es "Some len_buf" es1]
      read_exact_size [of "cn_view E" "be_val len_buf - 2" es1 "Some packet" es2] by simp
qed simp

declare buffered_connection.simps [simp del]

text \<open>A client: the packet buffer is allocated once; the connection is closed at the end.\<close>

datatype accept_result = Accepted int "rx_event list" | Accept_failed

definition buffered_client :: "conn_env \<Rightarrow> bool \<Rightarrow> int \<Rightarrow> rx_event list \<Rightarrow> receiver \<Rightarrow> (receiver \<times> int list) mem" where
  "buffered_client E allocated client_sock es r =
    (let r = r\<lparr>rv_buffered_client_socket := client_sock\<rparr> in
     if rv_buffered_recv_buffer r = None \<and> \<not> allocated
     then Some (r\<lparr>rv_buffered_client_socket := -1\<rparr>, [client_sock])
     else do {
       let r = (if rv_buffered_recv_buffer r = None
         then r\<lparr>rv_buffered_recv_buffer := Some BUFFERED_AUDIO_PACKET_SIZE\<rparr> else r);
       (r, es) \<leftarrow> buffered_connection E es r;
       Some (r\<lparr>rv_buffered_client_socket := -1\<rparr>, [client_sock])
     })"

text \<open>The task: one accept after the other, while the stream runs.\<close>

fun buffered_audio_task :: "conn_env \<Rightarrow> (accept_result \<times> bool) list \<Rightarrow> receiver \<Rightarrow> (receiver \<times> int list) mem" where
  "buffered_audio_task E [] r = Some (r\<lparr>rv_buffered_task := False\<rparr>, [])"
| "buffered_audio_task E ((Accept_failed, allocated) # accepts) r = buffered_audio_task E accepts r"
| "buffered_audio_task E ((Accepted client_sock es, allocated) # accepts) r = do {
     (r, closed) \<leftarrow> buffered_client E allocated client_sock es r;
     (r, closed') \<leftarrow> buffered_audio_task E accepts r;
     Some (r, closed @ closed')
   }"

subsection \<open>Starting and stopping\<close>

definition buffered_wait_for_task_stopped :: "bool \<Rightarrow> receiver \<Rightarrow> bool \<times> receiver" where
  "buffered_wait_for_task_stopped ends r =
    (let r = r\<lparr>rv_buffered_task := rv_buffered_task r \<and> \<not> ends\<rparr> in (\<not> rv_buffered_task r, r))"

definition buffered_start :: "start_env \<Rightarrow> u16 \<Rightarrow> receiver \<Rightarrow> esp_err \<times> receiver \<times> int list" where
  "buffered_start E port r =
    (if is_running Buffered_stream r then (ESP_OK, r, [])
     else
       let (stopped, r) = (if rv_buffered_task r then buffered_wait_for_task_stopped (se_task_ends E) r else (True, r)) in
       if \<not> stopped then (ESP_ERR_INVALID_STATE, r, [])
       else
         let (fd, bound_port, closed) = socket_utils_bind_tcp_listener (se_data E) port;
             r = r\<lparr>rv_buffered_listen_socket := fd\<rparr> in
         if fd < 0 then (ESP_FAIL, r, closed)
         else
           let r = set_running Buffered_stream True (r\<lparr>rv_buffered_port := bound_port\<rparr>) in
           if \<not> se_task E then
             (ESP_FAIL, set_running Buffered_stream False (r\<lparr>rv_buffered_task := False, rv_buffered_listen_socket := -1\<rparr>),
               closed @ [fd])
           else (ESP_OK, r\<lparr>rv_buffered_task := True\<rparr>, closed))"

definition buffered_stop :: "start_env \<Rightarrow> receiver \<Rightarrow> receiver \<times> int list" where
  "buffered_stop E r =
    (if \<not> is_running Buffered_stream r \<and> \<not> rv_buffered_task r then (r, [])
     else
       let r = set_running Buffered_stream False r;
           closed = close_pos (rv_buffered_client_socket r) @ close_pos (rv_buffered_listen_socket r);
           r = r\<lparr>rv_buffered_client_socket := if rv_buffered_client_socket r > 0 then -1 else rv_buffered_client_socket r,
             rv_buffered_listen_socket := if rv_buffered_listen_socket r > 0 then -1 else rv_buffered_listen_socket r\<rparr>;
           (stopped, r) = buffered_wait_for_task_stopped (se_task_ends E) r in
       if \<not> stopped then (r, closed)
       else (r\<lparr>rv_buffered_recv_buffer := None, rv_buffered_port := 0\<rparr>, closed))"

definition buffered_destroy :: "start_env \<Rightarrow> receiver \<Rightarrow> bool \<times> receiver \<times> int list" where
  "buffered_destroy E r = (let (r, closed) = buffered_stop E r in (\<not> rv_buffered_task r, r, closed))"

end
