(* ===== verification/Audio_Receiver.thy ===== *)
theory Audio_Receiver
  imports Buffered Audio_Playout
begin

section \<open>The audio receiver (main/audio/audio_receiver.c)\<close>

text \<open>
  The interface of the audio part: every function changes the one receiver, some of them the PTP
  clock. Descriptors that are closed are collected. \<open>None\<close> is an access through a null or dangling
  pointer or an overflow of a signed integer.
\<close>

definition DECRYPT_BUFFER_SIZE :: nat where "DECRYPT_BUFFER_SIZE = 8192"

definition i32 :: "int \<Rightarrow> int mem" where
  "i32 x = (if - (2 ^ 31) \<le> x \<and> x < 2 ^ 31 then Some x else None)"

subsection \<open>Resets\<close>

definition audio_receiver_reset_stats :: "receiver \<Rightarrow> receiver" where
  "audio_receiver_reset_stats r = r\<lparr>rv_stats := stats_zero\<rparr>"

definition audio_receiver_reset_resend_state :: "receiver \<Rightarrow> receiver" where
  "audio_receiver_reset_resend_state r = r\<lparr>rv_rtp_sequence_valid := False, rv_resend_first := 0, rv_resend_mask := 0,
     rv_resend_last_request_us := 0, rv_last_resend_error_us := 0\<rparr>"

definition audio_receiver_reset_blocks :: "receiver \<Rightarrow> receiver" where
  "audio_receiver_reset_blocks r = r\<lparr>rv_blocks_read := 0, rv_blocks_in_sequence := 0\<rparr>"

definition on_timing :: "(audio_timing \<Rightarrow> audio_timing) \<Rightarrow> receiver \<Rightarrow> receiver" where
  "on_timing f r = r\<lparr>rv_timing := f (rv_timing r)\<rparr>"

definition flush_buffer :: "receiver \<Rightarrow> receiver mem" where
  "flush_buffer r = do { b \<leftarrow> audio_buffer_flush (rv_buffer r); Some (r\<lparr>rv_buffer := b\<rparr>) }"

subsection \<open>Initialisation\<close>

text \<open>What the allocators return: the two streams, the memory of the buffer, the decryption buffer, the pending frame.\<close>

record init_env =
  ie_realtime :: bool
  ie_buffered :: bool
  ie_pool :: "audio_frame list option"
  ie_arrays :: bool
  ie_semaphore :: bool
  ie_frame_buffer :: bool
  ie_decrypt :: bool
  ie_pending :: "audio_frame option"

definition default_format :: audio_format where
  "default_format = format_zero\<lparr>fm_codec := ascii ''AppleLossless'' @ replicate 19 0, fm_sample_rate := 44100,
     fm_channels := 2, fm_bits_per_sample := 16, fm_frame_size := 352\<rparr>"

definition with_format :: "audio_format \<Rightarrow> receiver \<Rightarrow> receiver" where
  "with_format format r = r\<lparr>rv_realtime := map_option (\<lambda>s. s\<lparr>as_format := format\<rparr>) (rv_realtime r),
     rv_buffered := map_option (\<lambda>s. s\<lparr>as_format := format\<rparr>) (rv_buffered r)\<rparr>"

definition drop_streams :: "receiver \<Rightarrow> receiver" where
  "drop_streams r = r\<lparr>rv_realtime := None, rv_buffered := None\<rparr>"

definition audio_receiver_init :: "init_env \<Rightarrow> receiver \<Rightarrow> esp_err \<times> receiver" where
  "audio_receiver_init E r =
    (if ab_pool (rv_buffer r) \<noteq> None then (ESP_OK, r)
     else
       let r = r\<lparr>rv_realtime := audio_stream_create_realtime (ie_realtime E),
             rv_buffered := audio_stream_create_buffered (ie_buffered E)\<rparr> in
       if rv_realtime r = None \<or> rv_buffered r = None then (ESP_ERR_NO_MEM, drop_streams r)
       else
         let r = with_format default_format (r\<lparr>rv_stream := Some Realtime_stream\<rparr>);
             (err, b) = audio_buffer_init (ie_pool E) (ie_arrays E) (ie_semaphore E) (ie_frame_buffer E);
             r = r\<lparr>rv_buffer := b\<rparr> in
         if err \<noteq> ESP_OK then (err, drop_streams r)
         else
           let r = r\<lparr>rv_decrypt_buffer_size := DECRYPT_BUFFER_SIZE,
                 rv_decrypt_buffer := if ie_decrypt E then Some DECRYPT_BUFFER_SIZE else rv_decrypt_buffer r\<rparr> in
           if rv_decrypt_buffer r = None then
             (ESP_ERR_NO_MEM, drop_streams (r\<lparr>rv_buffer := audio_buffer_deinit (rv_buffer r)\<rparr>))
           else
             let timing = audio_timing_init (ie_pending E) (8 + MAX_SAMPLES_PER_FRAME * AUDIO_MAX_CHANNELS * 2);
                 r = r\<lparr>rv_timing := audio_timing_set_format default_format timing,
                   rv_buffered_listen_socket := -1, rv_buffered_client_socket := -1\<rparr> in
             (ESP_OK, audio_receiver_reset_blocks r))"

subsection \<open>Settings\<close>

text \<open>\<open>allocated\<close> and \<open>opened\<close> are the outcomes of \<open>calloc\<close> and of opening the codec.\<close>

definition audio_receiver_set_format :: "bool \<Rightarrow> bool \<Rightarrow> audio_format \<Rightarrow> receiver \<Rightarrow> receiver mem" where
  "audio_receiver_set_format allocated opened format r =
    (if rv_realtime r = None \<or> rv_buffered r = None then Some r
     else do {
       d \<leftarrow> audio_decoder_create allocated opened format;
       Some (on_timing (audio_timing_set_format format) ((with_format format r)\<lparr>rv_decoder := d\<rparr>))
     })"

definition audio_receiver_set_encryption :: "audio_encrypt option \<Rightarrow> receiver \<Rightarrow> receiver" where
  "audio_receiver_set_encryption encrypt r =
    (if rv_realtime r = None \<or> rv_buffered r = None then r
     else let e = (case encrypt of None \<Rightarrow> encrypt_zero | Some e \<Rightarrow> e) in
       r\<lparr>rv_realtime := map_option (\<lambda>s. s\<lparr>as_encrypt := e\<rparr>) (rv_realtime r),
         rv_buffered := map_option (\<lambda>s. s\<lparr>as_encrypt := e\<rparr>) (rv_buffered r)\<rparr>)"

definition audio_receiver_set_playout_latency_samples :: "u32 \<Rightarrow> receiver \<Rightarrow> receiver" where
  "audio_receiver_set_playout_latency_samples n = on_timing (audio_timing_set_playout_latency n)"

definition audio_receiver_set_output_latency_us :: "u32 \<Rightarrow> receiver \<Rightarrow> receiver mem" where
  "audio_receiver_set_output_latency_us us r =
    (if rv_stream r = None then Some r
     else do {
       s \<leftarrow> current_stream r;
       Some (on_timing (audio_timing_set_output_latency (as_format s) us) r)
     })"

definition audio_receiver_get_output_latency_us :: "receiver \<Rightarrow> u32" where
  "audio_receiver_get_output_latency_us r = audio_timing_get_output_latency (rv_timing r)"

definition audio_receiver_get_advertised_latency_us :: "u32 \<Rightarrow> receiver \<Rightarrow> u32" where
  "audio_receiver_get_advertised_latency_us hardware r = audio_timing_get_advertised_latency hardware (rv_timing r)"

subsection \<open>Anchors\<close>

definition stream_rate :: "audio_stream \<Rightarrow> int" where
  "stream_rate s = (if fm_sample_rate (as_format s) \<le> 0 then 44100 else fm_sample_rate (as_format s))"

definition arm_gates :: "u32 \<Rightarrow> u32 \<Rightarrow> receiver \<Rightarrow> receiver" where
  "arm_gates rtp_time gate_window r = r\<lparr>rv_discard_before := rtp_time, rv_discard_before_valid := True,
     rv_discard_above := rtp_time + gate_window, rv_discard_above_valid := True\<rparr>"

text \<open>The flush of both seek detections.\<close>

definition seek_reset :: "audio_timing \<Rightarrow> audio_timing" where
  "seek_reset t = (audio_timing_reset_continuity (t\<lparr>tm_playout_started := False, tm_pending_valid := False,
     tm_pending_frame_len := 0, tm_ready_time_us := 0, tm_deferred_flush_pending := False\<rparr>))\<lparr>tm_quick_start := True\<rparr>"

definition flush_for_seek :: "receiver \<Rightarrow> receiver mem" where
  "flush_for_seek r = do { r \<leftarrow> flush_buffer r; Some (on_timing seek_reset (r\<lparr>rv_blocks_in_sequence := 0\<rparr>)) }"

text \<open>The samples played since the anchor was set, by the local clock, at most for ten minutes.\<close>

definition elapsed_samples :: "int \<Rightarrow> int \<Rightarrow> audio_timing \<Rightarrow> u32 mem" where
  "elapsed_samples now_us sample_rate t = do {
     elapsed_us \<leftarrow> i64 (now_us - tm_anchor_local_time_ns t sdiv 1000);
     let elapsed_us = (if elapsed_us < 0 then 0 else elapsed_us);
     let elapsed_us = (if elapsed_us > 600000000 then 600000000 else elapsed_us);
     n \<leftarrow> i64 (elapsed_us * sample_rate);
     Some (of_int (n sdiv 1000000))
   }"

text \<open>The position the new anchor is compared with: the snapshot of the last pause or an estimate.\<close>

definition reference_position :: "int \<Rightarrow> int \<Rightarrow> receiver \<times> ptp_state \<Rightarrow> (u32 \<times> receiver \<times> ptp_state) mem" where
  "reference_position now_us sample_rate s =
    (let (r, p) = s; t = rv_timing r in
     if rv_paused_rtp_valid r then do {
       let played = sint (rv_paused_rtp r - tm_anchor_rtp_time t);
       offset_us \<leftarrow> i64 (played * 1000000);
       pause_time_us \<leftarrow> i64 (tm_anchor_local_time_ns t sdiv 1000 + offset_us sdiv sample_rate);
       pause_us \<leftarrow> i64 (now_us - pause_time_us);
       Some (rv_paused_rtp r, r\<lparr>rv_paused_rtp_valid := False\<rparr>,
         ptp_clock_notify_resume (if pause_us > 0 then of_int (pause_us sdiv 1000) else 0) p)
     }
     else do {
       n \<leftarrow> elapsed_samples now_us sample_rate t;
       Some (tm_anchor_rtp_time t + n, r, p)
     })"

text \<open>The readings of the clocks in a call of \<open>audio_receiver_set_anchor_time\<close>.\<close>

record anchor_clock =
  ac_now :: int
  ac_set_us :: int
  ac_now_ms :: u32

text \<open>Path B: an anchor far from the expected position. The result tells whether the gates are armed.\<close>

definition anchor_change :: "int \<Rightarrow> int \<Rightarrow> u32 \<Rightarrow> int \<Rightarrow> u32 \<Rightarrow> receiver \<times> ptp_state \<Rightarrow> (bool \<times> receiver \<times> ptp_state) mem" where
  "anchor_change now_us sample_rate gate_window seek_threshold rtp_time s = do {
     (reference_rtp, r, p) \<leftarrow> reference_position now_us sample_rate s;
     abs_delta \<leftarrow> i32 \<bar>sint (rtp_time - reference_rtp)\<bar>;
     if abs_delta > seek_threshold then do {
       r \<leftarrow> flush_for_seek r;
       Some (True, arm_gates rtp_time gate_window r, p)
     }
     else Some (False, r, p)
   }"

text \<open>Phase 2: stale data in the buffer.\<close>

definition stale_buffer :: "bool \<Rightarrow> u32 \<Rightarrow> int \<Rightarrow> u32 \<Rightarrow> receiver \<Rightarrow> receiver mem" where
  "stale_buffer gates_armed gate_window seek_threshold rtp_time r = do {
     oldest \<leftarrow> audio_buffer_oldest_timestamp (rv_buffer r);
     case oldest of
       None \<Rightarrow> Some r
     | Some oldest_rtp \<Rightarrow> do {
         abs_ahead \<leftarrow> i32 \<bar>sint (oldest_rtp - rtp_time)\<bar>;
         if abs_ahead > seek_threshold then do {
           r \<leftarrow> flush_for_seek r;
           Some (if gates_armed then r else arm_gates rtp_time gate_window r)
         }
         else Some r
       }
   }"

definition audio_receiver_set_anchor_time ::
  "anchor_clock \<Rightarrow> u64 \<Rightarrow> u64 \<Rightarrow> u32 \<Rightarrow> receiver \<times> ptp_state \<Rightarrow> (receiver \<times> ptp_state) mem" where
  "audio_receiver_set_anchor_time E clock_id network_time_ns rtp_time s =
    (let (r, p) = s in
     if rv_stream r = None then Some (r, p)
     else do {
       stream \<leftarrow> current_stream r;
       let sample_rate = stream_rate stream;
       window \<leftarrow> i32 (10 * sample_rate);
       seek_threshold \<leftarrow> i32 (5 * sample_rate);
       let gate_window = (of_int window :: u32);
       let gates_armed = rv_arm_gate r;
       let r = (if rv_arm_gate r then arm_gates rtp_time gate_window (r\<lparr>rv_arm_gate := False\<rparr>) else r);
       (gates_armed, r, p) \<leftarrow> (if \<not> gates_armed \<and> tm_anchor_valid (rv_timing r)
         then anchor_change (ac_now E) sample_rate gate_window seek_threshold rtp_time (r, p)
         else Some (gates_armed, r, p));
       r \<leftarrow> stale_buffer gates_armed gate_window seek_threshold rtp_time (r\<lparr>rv_discard_all := False\<rparr>);
       let p = (if clock_id \<noteq> 0 then ptp_clock_set_master_clock_id clock_id p else p);
       let (locked, p) = ptp_clock_is_locked (ac_now_ms E) p;
       timing \<leftarrow> audio_timing_set_anchor (ac_set_us E) locked network_time_ns rtp_time (rv_timing r);
       Some (r\<lparr>rv_timing := timing\<rparr>, p)
     })"

definition audio_receiver_set_playing :: "int \<Rightarrow> bool \<Rightarrow> receiver \<Rightarrow> receiver mem" where
  "audio_receiver_set_playing now_us playing r =
    (let r = on_timing (audio_timing_set_playing playing) r in
     if playing then Some r
     else
       let r = r\<lparr>rv_blocks_in_sequence := 0\<rparr> in
       if tm_anchor_valid (rv_timing r) \<and> rv_stream r \<noteq> None then do {
         stream \<leftarrow> current_stream r;
         n \<leftarrow> elapsed_samples now_us (stream_rate stream) (rv_timing r);
         Some (r\<lparr>rv_paused_rtp := tm_anchor_rtp_time (rv_timing r) + n, rv_paused_rtp_valid := True\<rparr>)
       }
       else Some r)"

definition audio_receiver_reset_timing :: "receiver \<Rightarrow> receiver" where
  "audio_receiver_reset_timing = on_timing audio_timing_reset"

definition audio_receiver_is_playing :: "receiver \<Rightarrow> bool" where
  "audio_receiver_is_playing r = tm_playing (rv_timing r)"

subsection \<open>Streams\<close>

text \<open>The operations of a stream, by its table.\<close>

definition stream_stop :: "start_env \<Rightarrow> audio_stream \<Rightarrow> receiver \<Rightarrow> receiver \<times> int list" where
  "stream_stop E s r = (if as_buffered_ops s then buffered_stop E r else realtime_stop E r)"

definition stream_start :: "start_env \<Rightarrow> audio_stream \<Rightarrow> u16 \<Rightarrow> receiver \<Rightarrow> esp_err \<times> receiver \<times> int list" where
  "stream_start E s port r = (if as_buffered_ops s then buffered_start E port r else realtime_start E port r)"

definition audio_receiver_copy_stream_state :: "stream_ref \<Rightarrow> audio_stream \<Rightarrow> receiver \<Rightarrow> receiver" where
  "audio_receiver_copy_stream_state dst src r =
    (case stream_of r dst of
       None \<Rightarrow> r
     | Some s \<Rightarrow> put_stream dst (s\<lparr>as_format := as_format src, as_encrypt := as_encrypt src\<rparr>) r)"

definition set_type :: "u32 \<Rightarrow> stream_ref \<Rightarrow> receiver \<Rightarrow> receiver mem" where
  "set_type type ref r = do { s \<leftarrow> stream_of r ref; Some (put_stream ref (s\<lparr>as_type := type\<rparr>) r) }"

definition audio_receiver_set_stream_type :: "start_env \<Rightarrow> u32 \<Rightarrow> receiver \<Rightarrow> (receiver \<times> int list) mem" where
  "audio_receiver_set_stream_type E type r =
    (if rv_realtime r = None \<or> rv_buffered r = None then Some (r, [])
     else let target = (if type = AUDIO_STREAM_BUFFERED then Buffered_stream else Realtime_stream) in
       case rv_stream r of
         None \<Rightarrow> do { r \<leftarrow> set_type type target (r\<lparr>rv_stream := Some target\<rparr>); Some (r, []) }
       | Some ref \<Rightarrow>
           if ref = target then do { r \<leftarrow> set_type type target r; Some (r, []) }
           else do {
             s \<leftarrow> stream_of r ref;
             let r = audio_receiver_copy_stream_state target s r;
             let (r, closed) = (if as_running s then stream_stop E s r else (r, []));
             r \<leftarrow> set_type type target (r\<lparr>rv_stream := Some target\<rparr>);
             Some (r, closed)
           })"

text \<open>The reset before a stream starts.\<close>

definition fresh_stream :: "u32 \<Rightarrow> receiver \<times> ptp_state \<Rightarrow> (receiver \<times> ptp_state) mem" where
  "fresh_stream now_ms s = do {
     let (r, p) = s;
     r \<leftarrow> flush_buffer (audio_receiver_reset_stats r);
     let r = audio_receiver_reset_resend_state (on_timing audio_timing_reset r);
     let (locked, p) = ptp_clock_is_locked now_ms p;
     let r = audio_receiver_reset_blocks (on_timing (\<lambda>t. t\<lparr>tm_ptp_locked := locked\<rparr>) r);
     Some (r, p)
   }"

text \<open>The environments of the stop of the other stream, of a stop of the stream itself, and of the start.\<close>

record receiver_env =
  rc_switch :: start_env
  rc_stop :: start_env
  rc_start :: start_env
  rc_now_ms :: u32

definition audio_receiver_start ::
  "receiver_env \<Rightarrow> u16 \<Rightarrow> u16 \<Rightarrow> receiver \<times> ptp_state \<Rightarrow> (esp_err \<times> (receiver \<times> ptp_state) \<times> int list) mem" where
  "audio_receiver_start E data_port control_port s = do {
     (r, closed) \<leftarrow> audio_receiver_set_stream_type (rc_switch E) AUDIO_STREAM_REALTIME (fst s);
     case rv_stream r of
       None \<Rightarrow> Some (ESP_FAIL, (r, snd s), closed)
     | Some ref \<Rightarrow> do {
         stream \<leftarrow> stream_of r ref;
         let (r, closed') = (if as_running stream then stream_stop (rc_stop E) stream r else (r, []));
         (r, p) \<leftarrow> fresh_stream (rc_now_ms E) (r\<lparr>rv_data_port := data_port, rv_control_port := control_port\<rparr>, snd s);
         let (err, r, closed'') = stream_start (rc_start E) stream data_port r;
         Some (err, (r, p), closed @ closed' @ closed'')
       }
   }"

definition audio_receiver_start_buffered ::
  "receiver_env \<Rightarrow> u16 \<Rightarrow> receiver \<times> ptp_state \<Rightarrow> (esp_err \<times> (receiver \<times> ptp_state) \<times> int list) mem" where
  "audio_receiver_start_buffered E tcp_port s = do {
     (r, closed) \<leftarrow> audio_receiver_set_stream_type (rc_switch E) AUDIO_STREAM_BUFFERED (fst s);
     case rv_stream r of
       None \<Rightarrow> Some (ESP_FAIL, (r, snd s), closed)
     | Some ref \<Rightarrow> do {
         stream \<leftarrow> stream_of r ref;
         if as_running stream then Some (ESP_OK, (r, snd s), closed)
         else do {
           (r, p) \<leftarrow> fresh_stream (rc_now_ms E) (r, snd s);
           let (err, r, closed') = stream_start (rc_start E) stream tcp_port r;
           Some (err, (r, p), closed @ closed')
         }
       }
   }"

definition audio_receiver_start_stream ::
  "receiver_env \<Rightarrow> u16 \<Rightarrow> u16 \<Rightarrow> u16 \<Rightarrow> receiver \<times> ptp_state \<Rightarrow> (esp_err \<times> (receiver \<times> ptp_state) \<times> int list) mem" where
  "audio_receiver_start_stream E data_port control_port tcp_port s =
    (if rv_stream (fst s) = None then Some (ESP_FAIL, s, [])
     else do {
       stream \<leftarrow> current_stream (fst s);
       if as_type stream = AUDIO_STREAM_BUFFERED then audio_receiver_start_buffered E tcp_port s
       else audio_receiver_start E data_port control_port s
     })"

definition audio_receiver_get_stream_port :: "receiver \<Rightarrow> u16 mem" where
  "audio_receiver_get_stream_port r =
    (if rv_stream r = None then Some 0
     else do { s \<leftarrow> current_stream r; Some (if as_buffered_ops s then rv_buffered_port r else rv_data_port r) })"

definition audio_receiver_set_client_control :: "u32 \<Rightarrow> u16 \<Rightarrow> receiver \<Rightarrow> receiver" where
  "audio_receiver_set_client_control client_ip client_control_port r =
    (if client_ip = 0 \<or> client_control_port = 0 then audio_receiver_reset_resend_state (r\<lparr>rv_retransmit_enabled := False\<rparr>)
     else audio_receiver_reset_resend_state (r\<lparr>rv_client_control := (client_ip, client_control_port),
       rv_retransmit_enabled := True\<rparr>))"

subsection \<open>Flush, stop and reading\<close>

definition audio_receiver_flush :: "receiver \<Rightarrow> receiver mem" where
  "audio_receiver_flush r = do {
     r \<leftarrow> flush_buffer r;
     Some ((audio_receiver_reset_resend_state (on_timing audio_timing_reset r))\<lparr>rv_discard_before_valid := False,
       rv_discard_above_valid := False, rv_arm_gate := False, rv_discard_all := False, rv_paused_rtp_valid := False,
       rv_blocks_in_sequence := 1\<rparr>)
   }"

definition audio_receiver_seek_flush :: "receiver \<Rightarrow> receiver mem" where
  "audio_receiver_seek_flush r = do {
     r \<leftarrow> audio_receiver_flush r;
     Some ((on_timing (\<lambda>t. t\<lparr>tm_quick_start := True\<rparr>) r)\<lparr>rv_arm_gate := True, rv_discard_all := True\<rparr>)
   }"

definition audio_receiver_set_deferred_flush :: "u32 \<Rightarrow> receiver \<Rightarrow> receiver" where
  "audio_receiver_set_deferred_flush flush_until_ts r =
    (if rv_stream r = None then r
     else on_timing (\<lambda>t. t\<lparr>tm_flush_until_ts := flush_until_ts, tm_deferred_flush_pending := True\<rparr>) r)"

definition audio_receiver_pause :: "receiver \<Rightarrow> receiver" where
  "audio_receiver_pause r = (on_timing (audio_timing_set_playing False) r)\<lparr>rv_blocks_in_sequence := 0\<rparr>"

definition without_encryption :: "receiver \<Rightarrow> receiver" where
  "without_encryption r = r\<lparr>rv_realtime := map_option (\<lambda>s. s\<lparr>as_encrypt := encrypt_zero\<rparr>) (rv_realtime r),
     rv_buffered := map_option (\<lambda>s. s\<lparr>as_encrypt := encrypt_zero\<rparr>) (rv_buffered r)\<rparr>"

definition stop_if :: "start_env \<Rightarrow> audio_stream option \<Rightarrow> receiver \<Rightarrow> receiver \<times> int list" where
  "stop_if E s r = (case s of None \<Rightarrow> (r, []) | Some s \<Rightarrow> stream_stop E s r)"

definition audio_receiver_stop :: "start_env \<Rightarrow> start_env \<Rightarrow> receiver \<Rightarrow> (receiver \<times> int list) mem" where
  "audio_receiver_stop E1 E2 r =
    (let (r, closed) = stop_if E1 (rv_realtime r) r;
         (r, closed') = stop_if E2 (rv_buffered r) r;
         r = audio_receiver_reset_resend_state ((without_encryption r)\<lparr>rv_decoder := None,
           rv_retransmit_enabled := False, rv_client_control := (0, 0)\<rparr>) in do {
       r \<leftarrow> audio_receiver_flush r;
       Some (r, closed @ closed')
     })"

definition audio_receiver_stop_buffered_only :: "start_env \<Rightarrow> receiver \<Rightarrow> receiver \<times> int list" where
  "audio_receiver_stop_buffered_only E r = stop_if E (rv_buffered r) r"

definition audio_receiver_get_stats :: "receiver \<Rightarrow> audio_stats" where
  "audio_receiver_get_stats r = rv_stats r"

definition audio_receiver_get_buffered_port :: "receiver \<Rightarrow> u16" where
  "audio_receiver_get_buffered_port r = rv_buffered_port r"

definition audio_receiver_has_data :: "receiver \<Rightarrow> bool" where
  "audio_receiver_has_data r \<longleftrightarrow> audio_buffer_get_frame_count (rv_buffer r) > 0 \<or> tm_pending_valid (rv_timing r)"

text \<open>Reading for the output: the number of samples, the receiver and the contents of the output.\<close>

definition audio_receiver_read :: "call_clock \<Rightarrow> nat \<Rightarrow> receiver \<Rightarrow> u16 list \<Rightarrow> (nat \<times> receiver \<times> u16 list) mem" where
  "audio_receiver_read cc samples r out =
    (if ab_pool (rv_buffer r) = None \<or> samples = 0 \<or> rv_stream r = None then Some (0, r, out)
     else do {
       stream \<leftarrow> current_stream r;
       (n, s) \<leftarrow> audio_timing_read cc stream samples (rv_timing r) (rv_buffer r) (Some (rv_stats r)) out;
       Some (n, r\<lparr>rv_timing := pl_timing s, rv_buffer := pl_buffer s, rv_stats := the (pl_stats s)\<rparr>, pl_out s)
     })"

subsection \<open>Control packets (control_receiver_task)\<close>

text \<open>
  One datagram of the control port: an anchor by NTP or PTP time, or a retransmitted packet, which is
  sent on to the data socket (the last component).
\<close>

definition be64_at :: "bytes \<Rightarrow> nat \<Rightarrow> u64 mem" where
  "be64_at p i = do { bs \<leftarrow> rd_block p i 8; Some (of_nat (be_val bs)) }"

definition control_packet ::
  "anchor_clock \<Rightarrow> bytes \<Rightarrow> receiver \<times> ptp_state \<Rightarrow> ((receiver \<times> ptp_state) \<times> bytes list) mem" where
  "control_packet E bs s =
    (let packet = take MAX_RTP_PACKET_SIZE bs in
     if length packet < 2 then Some (s, [])
     else
       let packet_type = packet ! 1 AND 0x7F in
       if packet_type = 0x54 then
         if length packet \<ge> 20 then do {
           rtp_timestamp \<leftarrow> be32_at packet 4;
           ntp_secs \<leftarrow> be32_at packet 8;
           ntp_frac \<leftarrow> be32_at packet 12;
           let network_time_ns = (ucast ntp_secs * 1000000000 + drop_bit 32 (ucast ntp_frac * 1000000000) :: u64);
           s \<leftarrow> audio_receiver_set_anchor_time E 0 network_time_ns rtp_timestamp s;
           Some (s, [])
         }
         else Some (s, [])
       else if packet_type = 0x57 then
         if length packet \<ge> 28 then do {
           frame_1 \<leftarrow> be32_at packet 4;
           network_time_ns \<leftarrow> be64_at packet 8;
           clock_id \<leftarrow> be64_at packet 20;
           s \<leftarrow> audio_receiver_set_anchor_time E clock_id network_time_ns frame_1 s;
           Some (s, [])
         }
         else Some (s, [])
       else if packet_type = 0x56 then
         if length packet < 8 \<or> rv_data_socket (fst s) \<le> 0 then Some (s, [])
         else Some (s, [packet[1 := 0x56]])
       else Some (s, []))"

text \<open>The task of the control port; the last component collects what is sent to the data socket.\<close>

fun control_loop :: "(anchor_clock \<times> datagram) list \<Rightarrow> receiver \<times> ptp_state \<Rightarrow> ((receiver \<times> ptp_state) \<times> bytes list) mem" where
  "control_loop [] s = Some (s, [])"
| "control_loop ((E, Dg bs) # ds) s = do {
     (s, sent) \<leftarrow> control_packet E bs s;
     (s, sent') \<leftarrow> control_loop ds s;
     Some (s, sent @ sent')
   }"
| "control_loop ((E, Dg_again) # ds) s = control_loop ds s"
| "control_loop ((E, Dg_error) # ds) s = Some (s, [])"

definition control_receiver_task ::
  "bool \<Rightarrow> (anchor_clock \<times> datagram) list \<Rightarrow> receiver \<times> ptp_state \<Rightarrow> ((receiver \<times> ptp_state) \<times> bytes list) mem" where
  "control_receiver_task allocated ds s = do {
     ((r, p), sent) \<leftarrow> (if allocated then control_loop ds s else Some (s, []));
     Some ((r\<lparr>rv_control_task := False\<rparr>, p), sent)
   }"

end
