(* ===== verification/Receiver_Safe.thy ===== *)
theory Receiver_Safe
  imports Audio_Receiver Playout_Play
begin

section \<open>The receiver as a whole stays well formed\<close>

text \<open>
  The invariant of the receiver, and that the two transports, the control port and the playback keep
  it, whatever arrives from the network.
\<close>

subsection \<open>Queueing decoded audio\<close>

definition buffer_ok :: "audio_buffer \<Rightarrow> bool" where
  "buffer_ok b \<longleftrightarrow> ab_ok b [] \<and> frames_fit b (ab_sorted b)"

lemma buffer_ok_sem [simp]: "buffer_ok (sem_give b) = buffer_ok b"
  by (simp add: buffer_ok_def frames_fit_pool [of "sem_give b" b])

lemma queue_critical_fits:
  assumes "buffer_ok b" "samples * channels \<le> slot_pcm" "samples * channels \<le> length pcm"
    "0 < channels" "channels < 256" "samples < 2 ^ 16"
  shows "\<exists>ok b'. queue_critical b ts pcm samples channels = Some (ok, b') \<and> buffer_ok b'"
proof -
  have ok: "ab_ok b []" and fit: "frames_fit b (ab_sorted b)" using assms(1) by (simp_all add: buffer_ok_def)
  have drained: "frames_fit b1 (ab_sorted b1)" if "drain_oldest b = Some b1" for b1
  proof -
    obtain b2 where b2: "drain_oldest b = Some b2" "ab_pool b2 = ab_pool b"
        "ab_sorted b2 = ab_sorted b \<or> ab_sorted b2 = tl (ab_sorted b)"
      using drain_oldest_ok [OF ok] by metis
    have "set (ab_sorted b2) \<subseteq> set (ab_sorted b)" using b2(3) by (cases "ab_sorted b") auto
    then have "frames_fit b2 (ab_sorted b2)"
      using fit unfolding frames_fit_pool [OF b2(2)] by (auto simp: frames_fit_def)
    then show ?thesis using b2(1) that by simp
  qed
  from ok assms(2,3) show ?thesis
  proof (cases rule: queue_critical_cases [where ts = ts])
    case (1 b1)
    then show ?thesis using drained by (auto simp: buffer_ok_def)
  next
    case (2 b1 b2 slot free pool pos)
    let ?f = "frame_of ts pcm samples channels (af_pcm (pool ! slot))"
    let ?sorted = "take pos (ab_sorted b1) @ slot # drop pos (ab_sorted b1)"
    have "frame_fits f'" if "s \<in> set ?sorted" "slot_ptr (b2\<lparr>ab_sorted := ?sorted\<rparr>) s = Some f'" for s f'
    proof (cases "s = slot")
      case True
      then have "f' = ?f" using that(2) 2(5,7) by (simp add: slot_ptr_def)
      then show ?thesis by (simp only: frame_of_fits [OF assms(2,4,5,6)])
    next
      case False
      have "set ?sorted \<subseteq> insert slot (set (ab_sorted b1))" by (auto dest: in_set_takeD in_set_dropD)
      then have "s \<in> set (ab_sorted b1)" using that(1) False by blast
      moreover have "slot_ptr b1 s = Some f'"
        using that(2) 2(4,7) False by (auto simp: slot_ptr_def rd_def split: if_splits)
      ultimately show ?thesis using drained [OF 2(1)] by (auto simp: frames_fit_def)
    qed
    then have "frames_fit (b2\<lparr>ab_sorted := ?sorted\<rparr>) ?sorted" unfolding frames_fit_def by blast
    then show ?thesis using 2(10,11) by (simp add: buffer_ok_def ex_bool_eq)
  qed
qed

lemma queue_chunk_fits:
  assumes "buffer_ok b" "samples \<le> 352" "0 < channels" "channels \<le> 2" "samples * channels \<le> length pcm"
  shows "\<exists>ok b' st'. audio_buffer_queue_chunk b (Some st) ts pcm samples channels = Some (ok, b', Some st') \<and> buffer_ok b'"
proof (cases "samples = 0")
  case True
  then show ?thesis using assms(1) by (simp add: audio_buffer_queue_chunk_def ex_bool_eq)
next
  case False
  have "samples * channels \<le> 352 * 2" using assms(2,4) by (rule mult_le_mono)
  then have "samples * channels \<le> slot_pcm" by (simp add: slot_pcm_eq)
  then obtain ok b' where "queue_critical b ts pcm samples channels = Some (ok, b')" "buffer_ok b'"
    using queue_critical_fits [OF assms(1) _ assms(5,3)] assms(2,4) by fastforce
  then show ?thesis using False
    by (cases ok) (simp_all add: audio_buffer_queue_chunk_def bump_underruns_def bump_decoded_def ex_bool_eq)
qed

lemma queue_decoded_loop_fits:
  assumes "0 < channels" "channels \<le> 2"
  shows "buffer_ok b \<Longrightarrow> samples * channels \<le> length pcm \<Longrightarrow>
    \<exists>ok b' st'. queue_decoded_loop b (Some st) ts pcm samples channels = Some (ok, b', Some st') \<and> buffer_ok b'"
proof (induction samples arbitrary: b st ts pcm rule: less_induct)
  case (less samples)
  show ?case
  proof (cases "samples > 0")
    case False
    then show ?thesis using less.prems by (subst queue_decoded_loop.simps) (simp add: ex_bool_eq)
  next
    case True
    let ?n = "if samples > AAC_FRAMES_PER_PACKET then AAC_FRAMES_PER_PACKET else samples"
    have n: "?n \<le> 352" "0 < ?n" "?n \<le> samples" using True by (simp_all add: AAC_FRAMES_PER_PACKET_def)
    have "?n * channels \<le> samples * channels" by (rule mult_right_mono [OF n(3)]) simp
    then have "?n * channels \<le> length pcm" using less.prems(2) by (rule order_trans)
    then obtain ok b' st' where q: "audio_buffer_queue_chunk b (Some st) ts pcm ?n channels = Some (ok, b', Some st')"
        "buffer_ok b'"
      using queue_chunk_fits [OF less.prems(1) n(1) assms] by blast
    show ?thesis
    proof (cases ok)
      case False
      then show ?thesis using True q by (subst queue_decoded_loop.simps) (simp add: Let_def ex_bool_eq)
    next
      case ok: True
      have "(samples - ?n) * channels = samples * channels - ?n * channels" by (rule diff_mult_distrib)
      then have "(samples - ?n) * channels \<le> length (drop (?n * channels) pcm)" using less.prems(2) by simp
      then obtain ok2 b2 st2 where "queue_decoded_loop b' (Some st') (ts + of_nat ?n) (drop (?n * channels) pcm)
            (samples - ?n) channels = Some (ok2, b2, Some st2)" "buffer_ok b2"
        using less.IH [OF _ q(2)] n(2) True by (metis diff_less)
      then show ?thesis using True q ok by (subst queue_decoded_loop.simps) (simp add: Let_def)
    qed
  qed
qed

lemma audio_buffer_queue_decoded_fits:
  assumes "buffer_ok b" "0 < channels" "channels \<le> 2" "samples * nat channels \<le> length pcm"
  shows "\<exists>ok b' st'. audio_buffer_queue_decoded b (Some st) ts pcm samples channels = Some (ok, b', Some st') \<and> buffer_ok b'"
proof -
  have "0 < nat channels" "nat channels \<le> 2" using assms(2,3) by simp_all
  from queue_decoded_loop_fits [OF this assms(1,4), of st ts] show ?thesis
    using assms by (auto simp: audio_buffer_queue_decoded_def)
qed

subsection \<open>The invariant\<close>

text \<open>Formats: a terminated codec name, at most two channels, and a rate that ten seconds fit an \<open>int\<close>.\<close>

definition format_ok :: "audio_format \<Rightarrow> bool" where
  "format_ok f \<longleftrightarrow> 0 \<in> set (fm_codec f) \<and> fm_channels f \<le> 2 \<and> fm_sample_rate f \<noteq> 0 \<and> fm_sample_rate f \<le> 214748364"

definition stream_ok :: "audio_stream option \<Rightarrow> bool" where
  "stream_ok s \<longleftrightarrow> (\<exists>s'. s = Some s' \<and> format_ok (as_format s'))"

definition decoder_ok :: "audio_decoder option \<Rightarrow> bool" where
  "decoder_ok d \<longleftrightarrow> (\<forall>d'. d = Some d' \<longrightarrow> fm_channels (dc_format d') \<le> 2)"

definition anchored_ok :: "audio_timing \<Rightarrow> bool" where
  "anchored_ok t \<longleftrightarrow> timing_ok (tm_anchor_network_time_ns t) (tm_anchor_local_time_ns t) t \<and>
     \<bar>tm_anchor_local_time_ns t\<bar> \<le> 2 ^ 60"

definition receiver_ok :: "receiver \<Rightarrow> bool" where
  "receiver_ok r \<longleftrightarrow> stream_ok (rv_realtime r) \<and> stream_ok (rv_buffered r) \<and> rv_stream r \<noteq> None \<and>
     decoder_ok (rv_decoder r) \<and> buffer_ok (rv_buffer r) \<and> anchored_ok (rv_timing r) \<and>
     rv_decrypt_buffer r = Some DECRYPT_BUFFER_SIZE \<and> rv_decrypt_buffer_size r = DECRYPT_BUFFER_SIZE \<and>
     rv_buffered_recv_buffer r \<in> {None, Some BUFFERED_AUDIO_PACKET_SIZE}"

lemma receiver_okD:
  assumes "receiver_ok r"
  shows "stream_ok (rv_realtime r)" "stream_ok (rv_buffered r)" "rv_stream r \<noteq> None" "decoder_ok (rv_decoder r)"
    "buffer_ok (rv_buffer r)" "anchored_ok (rv_timing r)" "rv_decrypt_buffer r = Some DECRYPT_BUFFER_SIZE"
    "rv_decrypt_buffer_size r = DECRYPT_BUFFER_SIZE" "rv_buffered_recv_buffer r \<in> {None, Some BUFFERED_AUDIO_PACKET_SIZE}"
  using assms by (simp_all add: receiver_ok_def)

text \<open>Updates that the invariant does not look at.\<close>

lemma receiver_ok_updates [simp]:
  "receiver_ok (rv_stats_update f1 r) = receiver_ok r"
  "receiver_ok (rv_data_socket_update f2 r) = receiver_ok r"
  "receiver_ok (rv_control_socket_update f2 r) = receiver_ok r"
  "receiver_ok (rv_task_update f3 r) = receiver_ok r"
  "receiver_ok (rv_control_task_update f3 r) = receiver_ok r"
  "receiver_ok (rv_data_port_update f4 r) = receiver_ok r"
  "receiver_ok (rv_control_port_update f4 r) = receiver_ok r"
  "receiver_ok (rv_buffered_listen_socket_update f2 r) = receiver_ok r"
  "receiver_ok (rv_buffered_client_socket_update f2 r) = receiver_ok r"
  "receiver_ok (rv_buffered_port_update f4 r) = receiver_ok r"
  "receiver_ok (rv_buffered_task_update f3 r) = receiver_ok r"
  "receiver_ok (rv_blocks_read_update f5 r) = receiver_ok r"
  "receiver_ok (rv_blocks_in_sequence_update f5 r) = receiver_ok r"
  "receiver_ok (rv_client_control_update f6 r) = receiver_ok r"
  "receiver_ok (rv_retransmit_enabled_update f3 r) = receiver_ok r"
  "receiver_ok (rv_last_resend_error_us_update f2 r) = receiver_ok r"
  "receiver_ok (rv_rtp_sequence_valid_update f3 r) = receiver_ok r"
  "receiver_ok (rv_resend_first_update f4 r) = receiver_ok r"
  "receiver_ok (rv_resend_mask_update f5 r) = receiver_ok r"
  "receiver_ok (rv_resend_last_request_us_update f2 r) = receiver_ok r"
  "receiver_ok (rv_discard_before_update f7 r) = receiver_ok r"
  "receiver_ok (rv_discard_before_valid_update f3 r) = receiver_ok r"
  "receiver_ok (rv_discard_above_update f7 r) = receiver_ok r"
  "receiver_ok (rv_discard_above_valid_update f3 r) = receiver_ok r"
  "receiver_ok (rv_arm_gate_update f3 r) = receiver_ok r"
  "receiver_ok (rv_discard_all_update f3 r) = receiver_ok r"
  "receiver_ok (rv_paused_rtp_update f7 r) = receiver_ok r"
  "receiver_ok (rv_paused_rtp_valid_update f3 r) = receiver_ok r"
  by (simp_all add: receiver_ok_def)

lemma receiver_ok_stats [simp]: "receiver_ok (on_stats f r) = receiver_ok r" "receiver_ok (count_dropped r) = receiver_ok r"
  by (simp_all add: on_stats_def count_dropped_def)

lemma receiver_ok_buffer: "receiver_ok r \<Longrightarrow> buffer_ok b \<Longrightarrow> receiver_ok (r\<lparr>rv_buffer := b\<rparr>)"
  by (simp add: receiver_ok_def)

lemma receiver_ok_decoder: "receiver_ok r \<Longrightarrow> decoder_ok d \<Longrightarrow> receiver_ok (r\<lparr>rv_decoder := d\<rparr>)"
  by (simp add: receiver_ok_def)

lemma receiver_ok_timing: "receiver_ok r \<Longrightarrow> anchored_ok (f (rv_timing r)) \<Longrightarrow> receiver_ok (on_timing f r)"
  by (simp add: receiver_ok_def on_timing_def)

lemma stream_of_ok: "receiver_ok r \<Longrightarrow> stream_ok (stream_of r ref)"
  by (cases ref) (simp_all add: receiver_ok_def stream_of_def)

lemma current_stream_ok:
  assumes "receiver_ok r"
  obtains s where "current_stream r = Some s" "format_ok (as_format s)"
proof -
  obtain ref where ref: "rv_stream r = Some ref" using receiver_okD(3) [OF assms] by blast
  obtain s where "stream_of r ref = Some s" "format_ok (as_format s)"
    using stream_of_ok [OF assms, of ref] unfolding stream_ok_def by blast
  then show thesis using that ref by (simp add: current_stream_def)
qed

subsection \<open>Decoding a packet\<close>

text \<open>
  The environment of a frame: codecs keep their contract and report at most two channels, and what
  other tasks do meanwhile keeps the invariant (no task frees the packet buffer while the transport runs).
\<close>

definition codec_stereo :: "codec_lib \<Rightarrow> bool" where
  "codec_stereo L \<longleftrightarrow>
    (\<forall>cfg hist input len ch pcm. alac_decode L cfg hist input len = Some (ch, pcm) \<longrightarrow> ch \<le> 2) \<and>
    (\<forall>cfg hist input len ch pcm. aac_decode L cfg hist input len = Some (ch, pcm) \<longrightarrow> ch \<le> 2)"

definition frame_env_ok :: "frame_env \<Rightarrow> bool" where
  "frame_env_ok E \<longleftrightarrow> codec_ok (fe_codec E) \<and> codec_stereo (fe_codec E) \<and>
     (\<forall>r. receiver_ok r \<longrightarrow> receiver_ok (fe_meanwhile E r) \<and>
       rv_buffered_recv_buffer (fe_meanwhile E r) = rv_buffered_recv_buffer r)"

lemma codec_frame_stereo:
  "codec_frame channels room capacity (ch, pcm) = Some (Some (n, c, out)) \<Longrightarrow> ch \<le> 2 \<Longrightarrow> channels \<le> 2 \<Longrightarrow> c \<le> 2"
  by (auto simp: codec_frame_def Let_def split: if_splits)

lemma decode_stereo:
  assumes "codec_stereo L" "decode_channels d \<le> 2"
    "audio_decoder_decode L realloc reopen d input room capacity = Some (Some (n, c, out), d')"
  shows "c \<le> 2"
proof -
  have a: "ch \<le> 2" if "alac_decode L cfg hist i len = Some (ch, pcm)" for cfg hist i len ch pcm
    using assms(1) that unfolding codec_stereo_def by blast
  have b: "ch \<le> 2" if "aac_decode L cfg hist i len = Some (ch, pcm)" for cfg hist i len ch pcm
    using assms(1) that unfolding codec_stereo_def by blast
  show ?thesis
  proof (cases "dc_kind d")
    case AUDIO_DECODER_PCM
    then show ?thesis using assms(2,3)
      by (auto simp: audio_decoder_decode_def decode_pcm_def Let_def bind_eq_Some_conv split: if_splits)
  next
    case AUDIO_DECODER_ALAC
    then show ?thesis using assms(2,3)
      by (auto simp: audio_decoder_decode_def decode_alac_def Let_def bind_eq_Some_conv
          split: if_splits option.splits dest!: a codec_frame_stereo)
  next
    case AUDIO_DECODER_AAC
    then show ?thesis using assms(2,3)
      by (auto simp: audio_decoder_decode_def decode_aac_def Let_def bind_eq_Some_conv
          split: if_splits option.splits dest!: b codec_frame_stereo)
  qed (use assms(3) in \<open>simp add: audio_decoder_decode_def Let_def split: if_splits\<close>)
qed

end
