(* ===== verification/Receiver_Steps.thy ===== *)
theory Receiver_Steps
  imports Receiver_Safe
begin

section \<open>Every operation of the receiver keeps the invariant\<close>

text \<open>
  The transports, the control port, the calls of the RTSP layer and the playback, one lemma each: the
  operation returns and the receiver is well formed afterwards.
\<close>

subsection \<open>Packets\<close>

text \<open>The invariant, and that the packet buffer of the buffered transport stays what it is.\<close>

definition ok_with :: "nat option \<Rightarrow> receiver \<Rightarrow> bool" where
  "ok_with b r \<longleftrightarrow> receiver_ok r \<and> rv_buffered_recv_buffer r = b"

definition keeps :: "nat option \<Rightarrow> ('a \<times> receiver) mem \<Rightarrow> bool" where
  "keeps b = ensures (\<lambda>(x, r). ok_with b r)"

lemma keeps_Some [simp]: "keeps b (Some (x, r)) = ok_with b r"
  by (simp add: keeps_def)

lemma ok_with_stats [simp]: "ok_with b (on_stats f r) = ok_with b r" "ok_with b (count_dropped r) = ok_with b r"
  "ok_with b (rv_blocks_read_update f5 r) = ok_with b r" "ok_with b (rv_blocks_in_sequence_update f5 r) = ok_with b r"
  by (simp_all add: ok_with_def) (simp_all add: on_stats_def count_dropped_def)

lemma accept_timestamp_ok: "audio_stream_accept_timestamp ts r = (ok, r') \<Longrightarrow> ok_with b r \<Longrightarrow> ok_with b r'"
  by (auto simp: audio_stream_accept_timestamp_def ok_with_def Let_def split: if_splits)

lemma mute_ok:
  assumes "n * nat channels \<le> length pcm"
  shows "ensures (\<lambda>pcm'. length pcm' = length pcm) (apply_aac_transient_mute r pcm n channels)"
  using assms by (simp add: apply_aac_transient_mute_def wr_put)

lemma queue_decoded_keeps:
  assumes "ok_with b0 r" "0 < channels" "channels \<le> 2" "n * nat channels \<le> length pcm"
  shows "keeps b0 (audio_buffer_queue_decoded (rv_buffer r) (Some (rv_stats r)) ts pcm n channels \<bind>
    (\<lambda>(ok, b, stats). Some (ok, r\<lparr>rv_buffer := b, rv_stats := the stats\<rparr>)))"
proof -
  have r: "receiver_ok r" using assms(1) by (simp add: ok_with_def)
  obtain ok b st where "audio_buffer_queue_decoded (rv_buffer r) (Some (rv_stats r)) ts pcm n channels = Some (ok, b, Some st)"
      "buffer_ok b"
    using audio_buffer_queue_decoded_fits [OF receiver_okD(5) [OF r] assms(2-4)] by blast
  then show ?thesis using receiver_ok_buffer [OF r] assms(1) by (simp add: ok_with_def)
qed

lemma process_accepted_frame_ok:
  assumes ok: "ok_with b r" and E: "frame_env_ok E" and len: "length data \<le> 16384"
  shows "keeps b (audio_stream_process_accepted_frame E ts data r)"
proof -
  have r: "receiver_ok r" using ok by (simp add: ok_with_def)
  show ?thesis
proof (cases "rv_decoder r")
  case None
  then show ?thesis using ok by (simp add: audio_stream_process_accepted_frame_def)
next
  case (Some d)
  have d: "decode_channels d \<le> 2"
    using receiver_okD(4) [OF r] Some by (simp add: decoder_ok_def decode_channels_def MAX_FALLBACK_CHANNELS_def)
  show ?thesis
  proof (cases "audio_buffer_get_decode_buffer (rv_buffer r) = 0")
    case True
    then show ?thesis using Some ok by (simp add: audio_stream_process_accepted_frame_def)
  next
    case False
    then have cap: "audio_buffer_get_decode_buffer (rv_buffer r) = 4096"
      using receiver_okD(5) [OF r] by (auto simp: buffer_ok_def ab_ok_def decode_area_ok_def audio_buffer_get_decode_buffer_def
          MAX_SAMPLES_PER_FRAME_def split: option.splits)
    have "decode_result_ok d (4096 * AUDIO_MAX_CHANNELS) 4096
        (audio_decoder_decode (fe_codec E) (fe_realloc E) (fe_reopen E) d data (4096 * AUDIO_MAX_CHANNELS) 4096)"
      using E d len by (intro audio_decoder_decode_ok) (simp_all add: frame_env_ok_def AUDIO_MAX_CHANNELS_def)
    then obtain q d' where dec: "audio_decoder_decode (fe_codec E) (fe_realloc E) (fe_reopen E) d data
        (4096 * AUDIO_MAX_CHANNELS) 4096 = Some (q, d')" "decoded_ok (4096 * AUDIO_MAX_CHANNELS) 4096 q"
        "dc_format d' = dc_format d"
      unfolding decode_result_ok_def by blast
    let ?r = "r\<lparr>rv_decoder := Some d'\<rparr>"
    have r': "receiver_ok ?r" "ok_with b ?r"
      using receiver_ok_decoder [OF r] receiver_okD(4) [OF r] Some dec(3) ok by (simp_all add: decoder_ok_def ok_with_def)
    show ?thesis
    proof (cases q)
      case None
      then show ?thesis using Some cap dec r' by (simp add: audio_stream_process_accepted_frame_def)
    next
      case q: (Some frame)
      obtain n channels pcm where frame: "frame = (n, channels, pcm)" by (cases frame)
      have f: "0 < channels" "n * nat channels \<le> length pcm"
        using dec(2) q frame by (simp_all add: decoded_ok_def)
      have c: "channels \<le> 2"
        using decode_stereo [OF _ d dec(1) [unfolded q frame]] E by (simp add: frame_env_ok_def)
      obtain stream where stream: "current_stream ?r = Some stream" by (rule current_stream_ok [OF r'(1)])
      obtain pcm' where mute: "apply_aac_transient_mute ?r pcm n channels = Some pcm'" "length pcm' = length pcm"
        using mute_ok [OF f(2), of ?r] by (auto simp: ensures_def)
      have m: "ok_with b (fe_meanwhile E ?r)" using E r' by (simp add: frame_env_ok_def ok_with_def)
      then have "keeps b (audio_buffer_queue_decoded (rv_buffer (fe_meanwhile E ?r)) (Some (rv_stats (fe_meanwhile E ?r))) ts pcm' n channels \<bind>
          (\<lambda>(ok, b, stats). Some (ok, (fe_meanwhile E ?r)\<lparr>rv_buffer := b, rv_stats := the stats\<rparr>)))"
        using f c mute(2) by (intro queue_decoded_keeps) simp_all
      then show ?thesis
        using Some cap dec(1) q frame r' stream mute(1) f(1) m
        by (simp add: audio_stream_process_accepted_frame_def Let_def)
    qed
  qed
qed
qed

lemma process_frame_ok:
  assumes "ok_with b r" "frame_env_ok E" "length data \<le> 16384"
  shows "keeps b (audio_stream_process_frame E ts data r)"
proof -
  obtain ok r' where a: "audio_stream_accept_timestamp ts r = (ok, r')" by force
  then have "ok_with b r'" using accept_timestamp_ok [OF a assms(1)] by simp
  then show ?thesis using a process_accepted_frame_ok [OF _ assms(2,3)] by (simp add: audio_stream_process_frame_def)
qed

subsection \<open>The realtime transport\<close>

lemma parse_rtp_ok:
  "ensures (\<lambda>p. \<forall>seq ts payload. p = Some (seq, ts, payload) \<longrightarrow> length payload \<le> length packet) (parse_rtp packet)"
proof (cases "length packet < 12")
  case True
  then show ?thesis by (simp add: parse_rtp_def RTP_HEADER_SIZE_def)
next
  case False
  then have "packet \<noteq> []" "2 + 2 \<le> length packet" "4 + 4 \<le> length packet"
    "\<not> length packet < 16 \<Longrightarrow> 14 + 2 \<le> length packet" by auto
  then show ?thesis using False
    by (auto simp: parse_rtp_def be16_at_def be32_at_def RTP_HEADER_SIZE_def Let_def)
qed

definition rx_env_ok :: "rx_env \<Rightarrow> bool" where
  "rx_env_ok E \<longleftrightarrow> crypto_ok (rx_crypto E) \<and> aes_ok (rx_aes E) \<and> frame_env_ok (rx_frame E)"

lemma decrypt_rtp_ok:
  assumes "crypto_ok C" "aes_ok A" "length input \<le> 2048"
  shows "ensures (\<lambda>d. \<forall>p. d = Some p \<longrightarrow> length p \<le> 2048) (audio_crypto_decrypt_rtp C A e input 8192 2048 full)"
proof (cases "en_type e")
  case AUDIO_ENCRYPT_NONE
  then show ?thesis using assms(3) by (simp add: audio_crypto_decrypt_rtp_def into_def)
next
  case AUDIO_ENCRYPT_AES_CBC
  have "length p \<le> 2048" if "aes_cbc_payload A e input = Some p" for p
    using that assms(2,3) by (auto simp: aes_cbc_payload_def aes_ok_def Let_def split: if_splits)
  then show ?thesis using AUDIO_ENCRYPT_AES_CBC assms(3) by (simp add: audio_crypto_decrypt_rtp_def into_def)
next
  case AUDIO_ENCRYPT_CHACHA20_POLY1305
  have "length p \<le> 2048" if "aead_dec C k n a (take (length input - 8) input) = Some p" for k n a p
    using aead_dec_length [OF assms(1) that] assms(3) by simp
  then show ?thesis using AUDIO_ENCRYPT_CHACHA20_POLY1305 assms(3) by (auto simp: audio_crypto_decrypt_rtp_def into_def)
qed

text \<open>The record of missing packets touches nothing the invariant speaks of.\<close>

lemma slide_ok [simp]: "ok_with b (resend_slide_window r) = ok_with b r"
  by (simp add: resend_slide_window_def ok_with_def Let_def split: prod.split)

lemma mark_ok [simp]: "ok_with b (snd (resend_mark_received seq r)) = ok_with b r"
  by (auto simp: resend_mark_received_def Let_def) (simp_all add: ok_with_def)

lemma track_ok [simp]: "ok_with b (resend_track_missing first n r) = ok_with b r"
  by (simp add: resend_track_missing_def ok_with_def Let_def)

lemma request_ok [simp]: "ok_with b (fst (resend_request_range E first n s)) = ok_with b (fst s)"
  by (cases s) (simp add: resend_request_range_def send_resend_request_def ok_with_def Let_def)

lemma retry_ok [simp]: "ok_with b (fst (retry_if_due E s)) = ok_with b (fst s)"
  by (simp add: retry_if_due_def resend_retry_if_due_def split: option.split prod.split)

lemma track_sequence_ok:
  assumes "ok_with b (fst s)"
  shows "ok_with b (fst (snd (track_regular_rtp_sequence E seq s)))"
proof -
  obtain r sent where s: "s = (r, sent)" by force
  let ?e = "st_last_seq (rv_stats r) + 1"
  let ?gap = "nat (sint (seq - ?e))"
  let ?r = "on_stats (\<lambda>st. st\<lparr>st_packets_dropped := st_packets_dropped st + of_nat ?gap\<rparr>) r"
  have "ok_with b (rv_rtp_sequence_valid_update f r)" for f using assms s by (simp add: ok_with_def)
  moreover have "ok_with b (fst (resend_request_range E ?e ?gap (resend_track_missing ?e ?gap ?r, sent)))"
    using assms s by simp
  ultimately show ?thesis using assms s
    by (auto simp: track_regular_rtp_sequence_def Let_def split_beta)
qed

lemma accept_sequence_ok:
  "ok_with b (fst s) \<Longrightarrow> ok_with b (fst (snd (accept_sequence E re seq ts s)))"
  using track_sequence_ok [of b s "rx_gap E" seq]
  by (auto simp: accept_sequence_def Let_def split_beta)

lemma play_payload_ok:
  assumes r: "ok_with b r" and E: "rx_env_ok E" and len: "length payload \<le> 2048"
  shows "ensures (ok_with b) (play_payload E ts payload rtp_data r)"
proof -
  obtain stream where s: "rv_realtime r = Some stream" using r by (auto simp: ok_with_def receiver_ok_def stream_ok_def)
  have dec: "rv_decrypt_buffer r = Some 8192" using r by (simp add: ok_with_def receiver_ok_def DECRYPT_BUFFER_SIZE_def)
  let ?plain = "if en_type (as_encrypt stream) \<noteq> AUDIO_ENCRYPT_NONE
       then audio_crypto_decrypt_rtp (rx_crypto E) (rx_aes E) (as_encrypt stream) payload 8192 2048 rtp_data
       else Some (Some payload)"
  have "ensures (\<lambda>d. \<forall>p. d = Some p \<longrightarrow> length p \<le> 2048) ?plain"
    using decrypt_rtp_ok [OF _ _ len] E len by (simp add: rx_env_ok_def)
  then obtain audio where a: "?plain = Some audio" "\<And>p. audio = Some p \<Longrightarrow> length p \<le> 2048"
    by (auto simp: ensures_def)
  have eq: "play_payload E ts payload rtp_data r = ?plain \<bind> (\<lambda>audio. case audio of
       None \<Rightarrow> Some (count_dropped (on_stats (\<lambda>st. st\<lparr>st_decrypt_errors := st_decrypt_errors st + 1\<rparr>) r))
     | Some audio_data \<Rightarrow> audio_stream_process_frame (rx_frame E) ts audio_data r \<bind>
         (\<lambda>(ok, r). Some (if ok then r else count_dropped r)))"
    by (simp add: play_payload_def s dec MAX_RTP_PACKET_SIZE_def)
  show ?thesis unfolding eq a(1) bind.bind_lunit
  proof (cases audio)
    case None
    then show "ensures (ok_with b) (case audio of
       None \<Rightarrow> Some (count_dropped (on_stats (\<lambda>st. st\<lparr>st_decrypt_errors := st_decrypt_errors st + 1\<rparr>) r))
     | Some audio_data \<Rightarrow> audio_stream_process_frame (rx_frame E) ts audio_data r \<bind>
         (\<lambda>(ok, r). Some (if ok then r else count_dropped r)))" using r by simp
  next
    case (Some p)
    have "keeps b (audio_stream_process_frame (rx_frame E) ts p r)"
      using E a(2) [OF Some] by (intro process_frame_ok [OF r]) (simp_all add: rx_env_ok_def)
    then obtain ok r' where "audio_stream_process_frame (rx_frame E) ts p r = Some (ok, r')" "ok_with b r'"
      by (auto simp: keeps_def ensures_def)
    then show "ensures (ok_with b) (case audio of
       None \<Rightarrow> Some (count_dropped (on_stats (\<lambda>st. st\<lparr>st_decrypt_errors := st_decrypt_errors st + 1\<rparr>) r))
     | Some audio_data \<Rightarrow> audio_stream_process_frame (rx_frame E) ts audio_data r \<bind>
         (\<lambda>(ok, r). Some (if ok then r else count_dropped r)))" using Some by simp
  qed
qed

lemma realtime_receive_packet_ok:
  assumes "ok_with b (fst s)" "rx_env_ok E"
  shows "ensures (\<lambda>(go, s'). ok_with b (fst s')) (realtime_receive_packet E d s)"
proof (cases d)
  case (Dg bs)
  let ?p = "take MAX_RTP_PACKET_SIZE bs"
  let ?r = "on_stats (\<lambda>st. st\<lparr>st_packets_received := st_packets_received st + 1\<rparr>) (fst s)"
  let ?re = "length ?p \<ge> 16 \<and> ?p ! 1 AND 0x7F = 0x56"
  let ?rtp = "if ?re then drop 4 ?p else ?p"
  have "length (if b then drop 4 p else p) \<le> length p" for b :: bool and p :: bytes by simp
  then have "length ?rtp \<le> length ?p" .
  also have "length ?p \<le> 2048" by (simp add: MAX_RTP_PACKET_SIZE_def)
  finally have len: "length ?rtp \<le> 2048" .
  obtain parsed where p: "parse_rtp ?rtp = Some parsed"
      "\<And>seq ts payload. parsed = Some (seq, ts, payload) \<Longrightarrow> length payload \<le> length ?rtp"
    using parse_rtp_ok [of ?rtp] unfolding ensures_def by blast
  show ?thesis
  proof (cases "?p = []")
    case True
    then show ?thesis using Dg assms(1) by (simp add: realtime_receive_packet_def)
  next
    case ne: False
    show ?thesis
    proof (cases parsed)
      case None
      then show ?thesis using Dg ne p(1) assms(1) by (simp add: realtime_receive_packet_def Let_def)
    next
      case (Some q)
      obtain seq ts payload where q: "q = (seq, ts, payload)" by (cases q)
      obtain ok r' sent where a: "accept_sequence E ?re seq ts (?r, snd s) = (ok, r', sent)"
        by (cases "accept_sequence E ?re seq ts (?r, snd s)")
      have r': "ok_with b r'" using accept_sequence_ok [of b "(?r, snd s)" E ?re seq ts] assms(1) a by simp
      let ?r' = "r'\<lparr>rv_blocks_read := rv_blocks_read r' + 1, rv_blocks_in_sequence := rv_blocks_in_sequence r' + 1\<rparr>"
      have "length payload \<le> 2048" by (rule order_trans [OF p(2) [OF Some [unfolded q]] len])
      then have "ensures (ok_with b) (play_payload E ts payload ?rtp ?r')"
        using r' by (intro play_payload_ok assms(2)) simp_all
      then obtain r2 where r2: "play_payload E ts payload ?rtp ?r' = Some r2" "ok_with b r2" by (auto simp: ensures_def)
      have "realtime_receive_packet E d s = (if \<not> ok then Some (True, r', sent) else Some (True, r2, sent))"
        unfolding realtime_receive_packet_def Dg datagram.case Let_def if_not_P [OF ne] p(1) Some q bind.bind_lunit
          option.case prod.case a r2(1) by simp
      then show ?thesis using r' r2(2) by simp
    qed
  qed
qed (use assms in \<open>simp_all add: realtime_receive_packet_def\<close>)

subsection \<open>The buffered transport\<close>

lemma decrypt_buffered_ok:
  assumes "crypto_ok C" "length packet \<le> 8192"
  shows "ensures (\<lambda>d. \<forall>p. d = Some p \<longrightarrow> length p \<le> 8192) (audio_crypto_decrypt_buffered C e packet 8192 8192)"
proof -
  have "length p \<le> 8192" if "aead_dec C k n a (take (length packet - 20) (drop 12 packet)) = Some p" for k n a p
    using aead_dec_length [OF assms(1) that] assms(2) by simp
  then show ?thesis using assms(2) by (auto simp: audio_crypto_decrypt_buffered_def into_def)
qed

lemma buffered_packet_ok:
  assumes r: "ok_with b r" and C: "crypto_ok C" and E: "frame_env_ok E" and len: "8 \<le> length packet" "length packet \<le> 8192"
  shows "ensures (ok_with b) (buffered_packet C E packet r)"
proof -
  let ?r = "on_stats (\<lambda>st. st\<lparr>st_packets_received := st_packets_received st + 1\<rparr>) r"
  obtain seq ts where hdr: "be16_at packet 2 = Some seq" "be32_at packet 4 = Some ts"
    using len(1) by (simp add: be16_at_def be32_at_def)
  obtain ok r1 where a: "audio_stream_accept_timestamp ts ?r = (ok, r1)" by force
  have r1: "ok_with b r1" using accept_timestamp_ok [OF a] r by simp
  obtain stream where s: "rv_buffered r1 = Some stream" using r1 by (auto simp: ok_with_def receiver_ok_def stream_ok_def)
  have place: "decrypt_place r1 (length packet) = (8192, 8192)"
    using r1 by (simp add: decrypt_place_def ok_with_def receiver_ok_def DECRYPT_BUFFER_SIZE_def)
  obtain d where d: "audio_crypto_decrypt_buffered C (as_encrypt stream) packet 8192 8192 = Some d"
      "\<And>p. d = Some p \<Longrightarrow> length p \<le> 8192"
    using decrypt_buffered_ok [OF C len(2), of "as_encrypt stream"] by (auto simp: ensures_def)
  let ?r2 = "(on_stats (\<lambda>st. st\<lparr>st_last_seq := seq, st_last_timestamp := ts\<rparr>) r1)"
  let ?r3 = "?r2\<lparr>rv_blocks_read := rv_blocks_read ?r2 + 1, rv_blocks_in_sequence := rv_blocks_in_sequence ?r2 + 1\<rparr>"
  have "keeps b (audio_stream_process_accepted_frame E ts p ?r3)" if "d = Some p" for p
    using d(2) [OF that] r1 E by (intro process_accepted_frame_ok) simp_all
  then have play: "ensures (ok_with b) (audio_stream_process_accepted_frame E ts p ?r3 \<bind>
      (\<lambda>(ok, r). Some (if ok then r else count_dropped r)))" if "d = Some p" for p
    using that by (auto simp: keeps_def intro!: ensures_bind)
  show ?thesis
    using hdr a r1 s place d(1) play by (cases d) (simp_all add: buffered_packet_def Let_def)
qed

definition conn_env_ok :: "conn_env \<Rightarrow> bool" where
  "conn_env_ok E \<longleftrightarrow> crypto_ok (cn_crypto E) \<and> (\<forall>es. frame_env_ok (cn_frame E es)) \<and>
     (\<forall>es r b. ok_with b r \<longrightarrow> ok_with b (cn_wait E es r))"

lemma read_exact_length: "read_exact V n es = (Some bs, es') \<Longrightarrow> length bs = n"
proof (induction V n es arbitrary: bs es' rule: read_exact.induct)
  case (1 V n es)
  show ?case
  proof (cases "n = 0 \<or> \<not> tv_running V es")
    case True
    then show ?thesis using 1(3) by (auto simp: read_exact.simps [of V n es] split: if_splits)
  next
    case False
    obtain x es1 where x: "recv_from n es = (x, es1)" by force
    show ?thesis
    proof (cases x)
      case (R_bytes bs1)
      then obtain rest where ne: "bs1 \<noteq> []" "read_exact V (n - length bs1) es1 = (Some rest, es')" "bs = bs1 @ rest"
        using 1(3) False x by (subst (asm) read_exact.simps) (auto split: if_splits prod.splits)
      have "length rest = n - length bs1"
        by (rule 1(1) [OF False x [unfolded R_bytes, symmetric] refl ne(1) ne(2)])
      moreover have "length bs1 \<le> n" using recv_from_bytes_length x R_bytes by blast
      ultimately show ?thesis using ne(3) by simp
    next
      case R_again
      then have np: "\<not> tv_playing V es1" "read_exact V n es1 = (Some bs, es')"
        using 1(3) False x by (subst (asm) read_exact.simps, auto split: if_splits)+
      show ?thesis by (rule 1(2) [OF False x [unfolded R_again, symmetric] refl np])
    next
      case R_error
      then show ?thesis using 1(3) False x by (subst (asm) read_exact.simps) simp
    qed
  qed
qed

lemma buffered_connection_ok:
  assumes "conn_env_ok E"
  shows "ok_with (Some 8192) r \<Longrightarrow> ensures (\<lambda>(r, es). ok_with (Some 8192) r) (buffered_connection E es r)"
proof (induction "rx_size es" arbitrary: es r rule: less_induct)
  case less
  let ?r = "cn_wait E es r"
  have w: "ok_with (Some 8192) ?r" using assms less.prems by (simp add: conn_env_ok_def)
  show ?case
  proof (cases "tv_running (cn_view E) es")
    case False
    then show ?thesis using less.prems by (subst buffered_connection.simps) simp
  next
    case run: True
    obtain hd es1 where h: "read_exact (cn_view E) 2 es = (hd, es1)" by force
    show ?thesis
    proof (cases hd)
      case None
      then show ?thesis using run h w by (subst buffered_connection.simps) (simp add: Let_def)
    next
      case (Some lb)
      let ?n = "be_val lb"
      show ?thesis
      proof (cases "?n < 2 \<or> ?n > BUFFERED_AUDIO_PACKET_SIZE")
        case True
        then show ?thesis using run h w Some by (subst buffered_connection.simps) (simp add: Let_def)
      next
        case n: False
        obtain q es2 where q: "read_exact (cn_view E) (?n - 2) es1 = (q, es2)" by force
        show ?thesis
        proof (cases q)
          case None
          then show ?thesis using run h w Some n q by (subst buffered_connection.simps) (simp add: Let_def)
        next
          case p: (Some packet)
          have len: "length packet = ?n - 2" using read_exact_length q p by blast
          have "?n \<le> 8192" using n by (simp add: BUFFERED_AUDIO_PACKET_SIZE_def)
          then have size: "\<not> length packet > the (rv_buffered_recv_buffer ?r)" "length packet \<le> 8192"
            using len w by (simp_all add: ok_with_def)
          have less_es: "rx_size es2 < rx_size es"
            using read_exact_size [OF h] read_exact_size [OF q] Some by simp
          show ?thesis
          proof (cases "length packet < 8")
            case True
            then show ?thesis using run h w Some n q p size by (subst buffered_connection.simps) (simp add: Let_def)
          next
            case False
            have "ensures (ok_with (Some 8192)) (buffered_packet (cn_crypto E) (cn_frame E es2) packet ?r)"
              using assms False size(2) by (intro buffered_packet_ok [OF w]) (simp_all add: conn_env_ok_def)
            then obtain r' where r': "buffered_packet (cn_crypto E) (cn_frame E es2) packet ?r = Some r'" "ok_with (Some 8192) r'"
              by (auto simp: ensures_def)
            have "buffered_connection E es r = buffered_connection E es2 r'"
              using run h Some n q p size False r'(1) by (subst buffered_connection.simps) (simp add: Let_def)
            then show ?thesis using less.hyps [OF less_es r'(2)] by simp
          qed
        qed
      qed
    qed
  qed
qed

lemma buffered_client_ok:
  assumes "conn_env_ok E" "receiver_ok r"
  shows "ensures (\<lambda>(r, closed). receiver_ok r) (buffered_client E allocated fd es r)"
proof (cases "rv_buffered_recv_buffer r = None \<and> \<not> allocated")
  case True
  then show ?thesis using assms(2) by (simp add: buffered_client_def)
next
  case False
  let ?r = "r\<lparr>rv_buffered_client_socket := fd\<rparr>"
  let ?r' = "if rv_buffered_recv_buffer ?r = None then ?r\<lparr>rv_buffered_recv_buffer := Some BUFFERED_AUDIO_PACKET_SIZE\<rparr> else ?r"
  have "ok_with (Some 8192) ?r'"
    using assms(2) by (auto simp: ok_with_def receiver_ok_def BUFFERED_AUDIO_PACKET_SIZE_def)
  then obtain r2 es2 where "buffered_connection E es ?r' = Some (r2, es2)" "ok_with (Some 8192) r2"
    using buffered_connection_ok [OF assms(1)] by (fastforce simp: ensures_def)
  then show ?thesis using False assms(2) unfolding buffered_client_def Let_def by (simp add: ok_with_def)
qed

end
