(* ===== verification/Receiver_Anchor.thy ===== *)
theory Receiver_Anchor
  imports Receiver_Steps
begin

section \<open>Anchors, flushes and settings keep the receiver well formed\<close>

text \<open>
  The calls of the RTSP layer and of the control port on the receiver, one lemma each: the operation
  returns and the invariant holds afterwards.
\<close>

subsection \<open>The timing state\<close>

lemma anchored_ok_updates [simp]:
  "anchored_ok (tm_playout_latency_samples_update f1 t) = anchored_ok t"
  "anchored_ok (tm_output_latency_us_update f1 t) = anchored_ok t"
  "anchored_ok (tm_ptp_locked_update f2 t) = anchored_ok t"
  "anchored_ok (tm_quick_start_update f2 t) = anchored_ok t"
  "anchored_ok (tm_flush_until_ts_update f1 t) = anchored_ok t"
  "anchored_ok (tm_deferred_flush_pending_update f2 t) = anchored_ok t"
  "anchored_ok (tm_nominal_frame_samples_update f1 t) = anchored_ok t"
  "anchored_ok (tm_target_buffer_frames_update f1 t) = anchored_ok t"
  by (simp_all add: anchored_ok_def timing_ok_def)

lemma anchored_ok_targets [simp]: "anchored_ok (update_timing_targets f t) = anchored_ok t"
  by (simp add: update_timing_targets_def Let_def)

lemma anchored_ok_reset: "anchored_ok t \<Longrightarrow> anchored_ok (audio_timing_reset t)"
  using audio_timing_reset_ok [of "tm_anchor_network_time_ns t" "tm_anchor_local_time_ns t" t]
  by (simp add: anchored_ok_def audio_timing_reset_def audio_timing_reset_continuity_def)

lemma anchored_ok_playing: "anchored_ok t \<Longrightarrow> anchored_ok (audio_timing_set_playing p t)"
  using audio_timing_set_playing_ok [of "tm_anchor_network_time_ns t" "tm_anchor_local_time_ns t" t p]
  by (simp add: anchored_ok_def audio_timing_set_playing_def Let_def split: if_splits)

lemma anchored_ok_seek: "anchored_ok t \<Longrightarrow> anchored_ok (seek_reset t)"
  by (auto simp: seek_reset_def audio_timing_reset_continuity_def anchored_ok_def timing_ok_def pending_ok_def
      split: option.splits)

lemma seek_reset_anchor [simp]:
  "tm_anchor_valid (seek_reset t) = tm_anchor_valid t" "tm_anchor_rtp_time (seek_reset t) = tm_anchor_rtp_time t"
  "tm_anchor_local_time_ns (seek_reset t) = tm_anchor_local_time_ns t"
  by (simp_all add: seek_reset_def audio_timing_reset_continuity_def)

lemma set_anchor_ok:
  assumes "anchored_ok t" "\<bar>now\<bar> \<le> 2 ^ 50"
  shows "ensures anchored_ok (audio_timing_set_anchor now locked net rtp t)"
proof -
  have "\<bar>now * 1000\<bar> \<le> 2 ^ 60" using assms(2) by (simp add: abs_mult)
  then show ?thesis using assms(1)
    by (simp add: audio_timing_set_anchor_def anchored_ok_def timing_ok_def i64_def abs_le_iff)
qed

subsection \<open>Flushes\<close>

lemma flush_buffer_ok:
  assumes "receiver_ok r"
  obtains b where "flush_buffer r = Some (r\<lparr>rv_buffer := b\<rparr>)" "receiver_ok (r\<lparr>rv_buffer := b\<rparr>)" "ab_sorted b = []"
proof -
  let ?b = "rv_buffer r"
  let ?b' = "?b\<lparr>ab_sorted := [], ab_free := rev (ab_sorted ?b) @ ab_free ?b\<rparr>"
  have ok: "ab_ok ?b []" using receiver_okD(5) [OF assms] by (simp add: buffer_ok_def)
  have pool: "ab_pool ?b \<noteq> None" using ok by (auto simp: ab_ok_def)
  have "ab_ok (drain_semaphore ?b') []" using flush_critical_ok(2) [OF ok] by (simp add: drain_semaphore_def ab_ok_def)
  then have "buffer_ok (drain_semaphore ?b')" by (simp add: buffer_ok_def frames_fit_def drain_semaphore_def)
  then have "receiver_ok (r\<lparr>rv_buffer := drain_semaphore ?b'\<rparr>)" using receiver_ok_buffer [OF assms] by simp
  moreover have "audio_buffer_flush ?b = Some (drain_semaphore ?b')"
    using pool flush_critical_ok(1) [OF ok] by (auto simp: audio_buffer_flush_def)
  ultimately show thesis using that by (simp add: flush_buffer_def drain_semaphore_def)
qed

lemma resend_state_ok [simp]: "receiver_ok (audio_receiver_reset_resend_state r) = receiver_ok r"
  "receiver_ok (audio_receiver_reset_stats r) = receiver_ok r" "receiver_ok (audio_receiver_reset_blocks r) = receiver_ok r"
  by (simp_all add: audio_receiver_reset_resend_state_def audio_receiver_reset_stats_def audio_receiver_reset_blocks_def)

lemma arm_gates_ok [simp]: "receiver_ok (arm_gates rtp w r) = receiver_ok r"
  by (simp add: arm_gates_def)

lemma arm_gates_same [simp]: "rv_timing (arm_gates rtp w r) = rv_timing r" "rv_buffer (arm_gates rtp w r) = rv_buffer r"
  "rv_stream (arm_gates rtp w r) = rv_stream r" "rv_paused_rtp_valid (arm_gates rtp w r) = rv_paused_rtp_valid r"
  "rv_paused_rtp (arm_gates rtp w r) = rv_paused_rtp r"
  by (simp_all add: arm_gates_def)

lemma flush_for_seek_ok:
  assumes "receiver_ok r"
  obtains r' where "flush_for_seek r = Some r'" "receiver_ok r'" "ab_sorted (rv_buffer r') = []"
proof -
  obtain b where b: "flush_buffer r = Some (r\<lparr>rv_buffer := b\<rparr>)" "receiver_ok (r\<lparr>rv_buffer := b\<rparr>)" "ab_sorted b = []"
    by (rule flush_buffer_ok [OF assms])
  let ?r = "on_timing seek_reset (r\<lparr>rv_buffer := b, rv_blocks_in_sequence := 0\<rparr>)"
  have "receiver_ok ?r"
    using b(2) anchored_ok_seek [OF receiver_okD(6) [OF assms]] by (intro receiver_ok_timing) simp_all
  then show thesis using that [of ?r] b by (simp add: flush_for_seek_def on_timing_def)
qed

lemma audio_receiver_flush_ok:
  assumes "receiver_ok r"
  shows "ensures receiver_ok (audio_receiver_flush r)"
proof -
  obtain b where b: "flush_buffer r = Some (r\<lparr>rv_buffer := b\<rparr>)" "receiver_ok (r\<lparr>rv_buffer := b\<rparr>)"
    by (rule flush_buffer_ok [OF assms])
  then have "receiver_ok (on_timing audio_timing_reset (r\<lparr>rv_buffer := b\<rparr>))"
    using anchored_ok_reset [OF receiver_okD(6) [OF assms]] by (intro receiver_ok_timing) simp_all
  then show ?thesis using b(1) by (simp add: audio_receiver_flush_def)
qed

lemma audio_receiver_seek_flush_ok:
  assumes "receiver_ok r"
  shows "ensures receiver_ok (audio_receiver_seek_flush r)"
proof -
  obtain r' where "audio_receiver_flush r = Some r'" "receiver_ok r'"
    using audio_receiver_flush_ok [OF assms] by (auto simp: ensures_def)
  then show ?thesis using receiver_ok_timing [of r' "\<lambda>t. t\<lparr>tm_quick_start := True\<rparr>"] receiver_okD(6) [of r']
    by (simp add: audio_receiver_seek_flush_def)
qed

lemma deferred_flush_keeps_ok: "receiver_ok r \<Longrightarrow> receiver_ok (audio_receiver_set_deferred_flush ts r)"
  using receiver_okD(6) [of r] by (auto simp: audio_receiver_set_deferred_flush_def intro!: receiver_ok_timing)

lemma pause_keeps_ok: "receiver_ok r \<Longrightarrow> receiver_ok (audio_receiver_pause r)"
  using receiver_okD(6) [of r] by (simp add: audio_receiver_pause_def receiver_ok_timing anchored_ok_playing)

subsection \<open>Anchors\<close>

text \<open>
  The distance of the new anchor from the reference position, and from the oldest frame queued, has an
  absolute value: the code negates it as a 32-bit integer.
\<close>

definition anchor_fits :: "int \<Rightarrow> u32 \<Rightarrow> receiver \<times> ptp_state \<Rightarrow> bool" where
  "anchor_fits now rtp_time s \<longleftrightarrow>
    (\<forall>stream ref s'. current_stream (fst s) = Some stream \<longrightarrow>
       reference_position now (stream_rate stream) s = Some (ref, s') \<longrightarrow> rtp_time - ref \<noteq> 0x80000000) \<and>
    (\<forall>oldest. audio_buffer_oldest_timestamp (rv_buffer (fst s)) = Some (Some oldest) \<longrightarrow> oldest - rtp_time \<noteq> 0x80000000)"

lemma i32_abs_sint: "i32 \<bar>sint (w :: u32)\<bar> = (if w = 0x80000000 then None else Some \<bar>sint w\<bar>)"
proof (cases "w = 0x80000000")
  case False
  have "sint w \<noteq> - (2 ^ 31)"
  proof
    assume "sint w = - (2 ^ 31)"
    then have "of_int (sint w) = (of_int (- (2 ^ 31)) :: u32)" by simp
    then show False using False by simp
  qed
  then have "- (2 ^ 31) < sint w" using sint_u32_bounds(1) [of w] by simp
  then have "\<bar>sint w\<bar> < 2 ^ 31" using sint_u32_bounds(2) [of w] by (simp add: abs_less_iff)
  then show ?thesis using False by (simp add: i32_def)
qed (simp add: i32_def)

lemma stream_rate_ok: "format_ok (as_format s) \<Longrightarrow> 0 < stream_rate s \<and> stream_rate s \<le> 214748364"
  by (simp add: stream_rate_def format_ok_def)

lemma elapsed_samples_ok:
  assumes "anchored_ok t" "\<bar>now\<bar> \<le> 2 ^ 50" "0 < rate" "rate \<le> 214748364"
  shows "\<exists>n. elapsed_samples now rate t = Some n"
proof -
  have "\<bar>tm_anchor_local_time_ns t sdiv 1000\<bar> \<le> 2 ^ 60"
    using assms(1) abs_sdiv_le [of 1000 "tm_anchor_local_time_ns t"] by (simp add: anchored_ok_def)
  then have e: "i64 (now - tm_anchor_local_time_ns t sdiv 1000) = Some (now - tm_anchor_local_time_ns t sdiv 1000)"
    using assms(2) by (simp add: i64_eq_Some abs_le_iff)
  let ?e = "now - tm_anchor_local_time_ns t sdiv 1000"
  let ?c = "if (if ?e < 0 then 0 else ?e) > 600000000 then 600000000 else (if ?e < 0 then 0 else ?e)"
  have c: "0 \<le> ?c" "?c \<le> 600000000" by simp_all
  have "?c * rate \<le> 600000000 * 214748364" using c assms(3,4) by (intro mult_mono) simp_all
  moreover have "0 \<le> ?c * rate" using c(1) assms(3) by simp
  ultimately have "i64 (?c * rate) = Some (?c * rate)" by (simp add: i64_eq_Some)
  then show ?thesis using e unfolding elapsed_samples_def Let_def by simp
qed

lemma reference_position_ok:
  assumes r: "receiver_ok (fst s)" and now: "\<bar>now\<bar> \<le> 2 ^ 50" and rate: "0 < rate" "rate \<le> 214748364"
  obtains ref r' p' where "reference_position now rate s = Some (ref, r', p')" "receiver_ok r'"
    "rv_timing r' = rv_timing (fst s)" "rv_buffer r' = rv_buffer (fst s)"
proof -
  obtain r p where s: "s = (r, p)" by force
  let ?t = "rv_timing r"
  have t: "anchored_ok ?t" using receiver_okD(6) [OF r] s by simp
  obtain n where n: "elapsed_samples now rate ?t = Some n" using elapsed_samples_ok [OF t now rate] by blast
  show thesis
  proof (cases "rv_paused_rtp_valid r")
    case False
    then show thesis using that r n s by (simp add: reference_position_def Let_def)
  next
    case True
    let ?played = "sint (rv_paused_rtp r - tm_anchor_rtp_time ?t)"
    have "\<bar>?played\<bar> \<le> 2 ^ 31" using sint_u32_bounds [of "rv_paused_rtp r - tm_anchor_rtp_time ?t"] by (simp add: abs_le_iff)
    then have o1: "\<bar>?played * 1000000\<bar> \<le> 2 ^ 52" by (simp add: abs_mult)
    let ?off = "?played * 1000000 sdiv rate" and ?l = "tm_anchor_local_time_ns ?t sdiv 1000"
    have o2: "\<bar>?off\<bar> \<le> 2 ^ 52" by (rule order_trans [OF abs_sdiv_le [OF rate(1)] o1])
    have l: "\<bar>?l\<bar> \<le> 2 ^ 60"
      using t abs_sdiv_le [of 1000 "tm_anchor_local_time_ns ?t"] by (simp add: anchored_ok_def)
    have "i64 (?played * 1000000) = Some (?played * 1000000)" using o1 by (simp add: i64_eq_Some abs_le_iff)
    moreover have "i64 (?l + ?off) = Some (?l + ?off)" using l o2 by (simp add: i64_eq_Some abs_le_iff)
    moreover have "i64 (now - (?l + ?off)) = Some (now - (?l + ?off))" using l o2 now by (simp add: i64_eq_Some abs_le_iff)
    ultimately show thesis
      using that [of "rv_paused_rtp r" "r\<lparr>rv_paused_rtp_valid := False\<rparr>"] True r s
      by (simp add: reference_position_def Let_def)
  qed
qed

lemma oldest_timestamp_ok:
  assumes "buffer_ok b"
  shows "\<exists>o'. audio_buffer_oldest_timestamp b = Some o'"
proof -
  have ok: "ab_ok b []" using assms by (simp add: buffer_ok_def)
  obtain pool where pool: "ab_pool b = Some pool" "length pool = ab_capacity b" using ok by (auto simp: ab_ok_def)
  show ?thesis
  proof (cases "ab_sorted b")
    case (Cons slot rest)
    then have "slot \<in># mset (ab_sorted b @ ab_free b @ [])" by simp
    then have "slot < ab_capacity b" using ok by (simp only: ab_ok_def) simp
    then show ?thesis using Cons pool
      by (simp add: audio_buffer_oldest_timestamp_def slot_timestamp_def slot_ptr_def rd_def)
  qed (simp add: audio_buffer_oldest_timestamp_def pool)
qed

end
