(* ===== verification/Receiver_Events.thy ===== *)
theory Receiver_Events
  imports Receiver_Anchor Resend_Log
begin

section \<open>The receiver never fails\<close>

text \<open>
  The remaining operations, the events that change the receiver, and the theorem that in every
  reachable state every event is handled.
\<close>

subsection \<open>Setting the anchor\<close>

definition anchor_clock_ok :: "anchor_clock \<Rightarrow> bool" where
  "anchor_clock_ok E \<longleftrightarrow> \<bar>ac_now E\<bar> \<le> 2 ^ 50 \<and> \<bar>ac_set_us E\<bar> \<le> 2 ^ 50"

lemma anchor_change_ok:
  assumes r: "receiver_ok (fst s)" and now: "\<bar>now\<bar> \<le> 2 ^ 50" and rate: "0 < rate" "rate \<le> 214748364"
    and fits: "\<And>ref s'. reference_position now rate s = Some (ref, s') \<Longrightarrow> rtp - ref \<noteq> 0x80000000"
  obtains armed r' p' where "anchor_change now rate w thr rtp s = Some (armed, r', p')" "receiver_ok r'"
    "rv_buffer r' = rv_buffer (fst s) \<or> ab_sorted (rv_buffer r') = []"
proof -
  obtain ref r1 p1 where p: "reference_position now rate s = Some (ref, r1, p1)" "receiver_ok r1"
      "rv_timing r1 = rv_timing (fst s)" "rv_buffer r1 = rv_buffer (fst s)"
    by (rule reference_position_ok [OF r now rate])
  have d: "i32 \<bar>sint (rtp - ref)\<bar> = Some \<bar>sint (rtp - ref)\<bar>" using fits [OF p(1)] by (simp add: i32_abs_sint)
  obtain r2 where r2: "flush_for_seek r1 = Some r2" "receiver_ok r2" "ab_sorted (rv_buffer r2) = []"
    by (rule flush_for_seek_ok [OF p(2)])
  show thesis
  proof (cases "\<bar>sint (rtp - ref)\<bar> > thr")
    case True
    then show thesis using that [of True "arm_gates rtp w r2" p1] p(1) d r2 by (simp add: anchor_change_def)
  next
    case False
    then show thesis using that [of False r1 p1] p d by (simp add: anchor_change_def)
  qed
qed

lemma stale_buffer_ok:
  assumes r: "receiver_ok r"
    and fits: "\<And>oldest. audio_buffer_oldest_timestamp (rv_buffer r) = Some (Some oldest) \<Longrightarrow> oldest - rtp \<noteq> 0x80000000"
  shows "ensures receiver_ok (stale_buffer armed w thr rtp r)"
proof -
  obtain o' where o': "audio_buffer_oldest_timestamp (rv_buffer r) = Some o'"
    using oldest_timestamp_ok [OF receiver_okD(5) [OF r]] by blast
  obtain r2 where r2: "flush_for_seek r = Some r2" "receiver_ok r2" by (rule flush_for_seek_ok [OF r])
  show ?thesis
  proof (cases o')
    case None
    then show ?thesis using o' r by (simp add: stale_buffer_def)
  next
    case (Some oldest)
    have "i32 \<bar>sint (oldest - rtp)\<bar> = Some \<bar>sint (oldest - rtp)\<bar>"
      using fits o' Some by (simp add: i32_abs_sint)
    then show ?thesis using o' Some r r2 by (simp add: stale_buffer_def)
  qed
qed

lemma oldest_empty: "ab_sorted b = [] \<Longrightarrow> audio_buffer_oldest_timestamp b = Some None"
  by (simp add: audio_buffer_oldest_timestamp_def)

lemma set_anchor_time_ok:
  assumes r: "receiver_ok (fst s)" and E: "anchor_clock_ok E" and fits: "anchor_fits (ac_now E) rtp s"
  shows "ensures (\<lambda>s'. receiver_ok (fst s')) (audio_receiver_set_anchor_time E clock net rtp s)"
proof -
  obtain r p where s: "s = (r, p)" by force
  have r0: "receiver_ok r" using r s by simp
  obtain stream where st: "current_stream r = Some stream" "format_ok (as_format stream)"
    by (rule current_stream_ok [OF r0])
  let ?rate = "stream_rate stream"
  have rate: "0 < ?rate" "?rate \<le> 214748364" using stream_rate_ok [OF st(2)] by simp_all
  have i: "i32 (10 * ?rate) = Some (10 * ?rate)" "i32 (5 * ?rate) = Some (5 * ?rate)" using rate by (simp_all add: i32_def)
  let ?w = "of_int (10 * ?rate) :: u32" and ?thr = "5 * ?rate"
  let ?r = "if rv_arm_gate r then arm_gates rtp ?w (r\<lparr>rv_arm_gate := False\<rparr>) else r"
  let ?change = "if \<not> rv_arm_gate r \<and> tm_anchor_valid (rv_timing ?r)
         then anchor_change (ac_now E) ?rate ?w ?thr rtp (?r, p) else Some (rv_arm_gate r, ?r, p)"
  have now: "\<bar>ac_now E\<bar> \<le> 2 ^ 50" "\<bar>ac_set_us E\<bar> \<le> 2 ^ 50" using E by (simp_all add: anchor_clock_ok_def)
  have "\<exists>armed r' p'. ?change = Some (armed, r', p') \<and> receiver_ok r' \<and> (rv_buffer r' = rv_buffer r \<or> ab_sorted (rv_buffer r') = [])"
  proof (cases "\<not> rv_arm_gate r \<and> tm_anchor_valid (rv_timing ?r)")
    case True
    then have same: "?r = r" by simp
    have nofit: "rtp - ref \<noteq> 0x80000000" if "reference_position (ac_now E) ?rate (r, p) = Some (ref, s')" for ref s'
      using fits that st(1) s by (simp add: anchor_fits_def)
    obtain armed r' p' where "anchor_change (ac_now E) ?rate ?w ?thr rtp (r, p) = Some (armed, r', p')" "receiver_ok r'"
        "rv_buffer r' = rv_buffer r \<or> ab_sorted (rv_buffer r') = []"
      by (rule anchor_change_ok [of "(r, p)" "ac_now E" ?rate rtp ?w ?thr, unfolded fst_conv, OF r0 now(1) rate nofit])
    then show ?thesis unfolding same if_P [OF True [unfolded same]] by blast
  next
    case False
    then show ?thesis using r0 by (simp only: if_False) simp
  qed
  then obtain armed r1 p1 where c: "?change = Some (armed, r1, p1)" "receiver_ok r1"
      "rv_buffer r1 = rv_buffer r \<or> ab_sorted (rv_buffer r1) = []" by blast
  have "oldest - rtp \<noteq> 0x80000000"
    if "audio_buffer_oldest_timestamp (rv_buffer (r1\<lparr>rv_discard_all := False\<rparr>)) = Some (Some oldest)" for oldest
    using c(3) that fits s by (auto simp: anchor_fits_def oldest_empty)
  then obtain r2 where r2: "stale_buffer armed ?w ?thr rtp (r1\<lparr>rv_discard_all := False\<rparr>) = Some r2" "receiver_ok r2"
    using stale_buffer_ok [of "r1\<lparr>rv_discard_all := False\<rparr>" rtp armed ?w ?thr] c(2) by (auto simp: ensures_def)
  let ?p = "if clock \<noteq> 0 then ptp_clock_set_master_clock_id clock p1 else p1"
  obtain locked p2 where l: "ptp_clock_is_locked (ac_now_ms E) ?p = (locked, p2)" by force
  obtain t where t: "audio_timing_set_anchor (ac_set_us E) locked net rtp (rv_timing r2) = Some t" "anchored_ok t"
    using set_anchor_ok [OF receiver_okD(6) [OF r2(2)] now(2), of locked net rtp] by (auto simp: ensures_def)
  have "receiver_ok (r2\<lparr>rv_timing := t\<rparr>)" using r2(2) t(2) by (simp add: receiver_ok_def)
  then show ?thesis
    unfolding audio_receiver_set_anchor_time_def s prod.case if_not_P [OF receiver_okD(3) [OF r0]] st(1) Let_def bind.bind_lunit
      i c(1) r2(1) l t(1) by simp
qed

subsection \<open>Settings\<close>

lemma with_format_ok [simp]: "receiver_ok r \<Longrightarrow> format_ok f \<Longrightarrow> receiver_ok (with_format f r)"
  by (auto simp: with_format_def receiver_ok_def stream_ok_def)

lemma decoder_create_ok:
  assumes "format_ok f"
  shows "ensures decoder_ok (audio_decoder_create allocated opened f)"
proof -
  obtain codec where "c_string (fm_codec f) = Some codec"
    using assms by (auto simp: c_string_def format_ok_def)
  then show ?thesis using assms
    by (auto simp: audio_decoder_create_def decoder_ok_def format_ok_def Let_def)
qed

lemma set_format_ok:
  assumes "receiver_ok r" "format_ok f"
  shows "ensures receiver_ok (audio_receiver_set_format allocated opened f r)"
proof -
  obtain d where d: "audio_decoder_create allocated opened f = Some d" "decoder_ok d"
    using decoder_create_ok [OF assms(2)] by (auto simp: ensures_def)
  have ok: "receiver_ok ((with_format f r)\<lparr>rv_decoder := d\<rparr>)"
    using assms d(2) by (intro receiver_ok_decoder) simp_all
  then have "receiver_ok (on_timing (audio_timing_set_format f) ((with_format f r)\<lparr>rv_decoder := d\<rparr>))"
    using receiver_okD(6) [OF ok] by (intro receiver_ok_timing) (simp_all add: audio_timing_set_format_def)
  then show ?thesis using assms(1) d(1) by (simp add: audio_receiver_set_format_def)
qed

lemma set_encryption_ok: "receiver_ok r \<Longrightarrow> receiver_ok (audio_receiver_set_encryption e r)"
  by (auto simp: audio_receiver_set_encryption_def receiver_ok_def stream_ok_def Let_def)

lemma playout_latency_ok: "receiver_ok r \<Longrightarrow> receiver_ok (audio_receiver_set_playout_latency_samples n r)"
  using receiver_okD(6) [of r]
  by (simp add: audio_receiver_set_playout_latency_samples_def receiver_ok_timing audio_timing_set_playout_latency_def)

lemma output_latency_ok:
  assumes "receiver_ok r"
  shows "ensures receiver_ok (audio_receiver_set_output_latency_us us r)"
proof -
  obtain s where "current_stream r = Some s" by (rule current_stream_ok [OF assms])
  then show ?thesis using assms receiver_okD(3,6) [OF assms]
    by (simp add: audio_receiver_set_output_latency_us_def receiver_ok_timing audio_timing_set_output_latency_def)
qed

lemma client_control_ok [simp]: "receiver_ok (audio_receiver_set_client_control ip port r) = receiver_ok r"
  by (simp add: audio_receiver_set_client_control_def)

lemma set_playing_ok:
  assumes "receiver_ok r" "\<bar>now\<bar> \<le> 2 ^ 50"
  shows "ensures receiver_ok (audio_receiver_set_playing now playing r)"
proof -
  let ?r = "(on_timing (audio_timing_set_playing playing) r)\<lparr>rv_blocks_in_sequence := 0\<rparr>"
  have ok: "receiver_ok (on_timing (audio_timing_set_playing playing) r)"
    using assms(1) receiver_okD(6) [OF assms(1)] by (simp add: receiver_ok_timing anchored_ok_playing)
  then have r: "receiver_ok ?r" by simp
  obtain s where s: "current_stream ?r = Some s" "format_ok (as_format s)" by (rule current_stream_ok [OF r])
  obtain n where "elapsed_samples now (stream_rate s) (rv_timing ?r) = Some n"
    using elapsed_samples_ok [OF receiver_okD(6) [OF r] assms(2)] stream_rate_ok [OF s(2)] by blast
  then show ?thesis using ok s(1) by (cases playing) (simp_all add: audio_receiver_set_playing_def Let_def)
qed

subsection \<open>Streams\<close>

lemma put_stream_ok: "receiver_ok r \<Longrightarrow> stream_ok (Some s) \<Longrightarrow> receiver_ok (put_stream ref s r)"
  by (cases ref) (simp_all add: put_stream_def receiver_ok_def)

lemma set_running_ok [simp]: "receiver_ok r \<Longrightarrow> receiver_ok (set_running ref v r)"
  using stream_of_ok [of r ref] by (auto simp: set_running_def stream_ok_def intro!: put_stream_ok split: option.split)

lemma set_running_same [simp]:
  "rv_stream (set_running ref v r) = rv_stream r" "rv_task (set_running ref v r) = rv_task r"
  by (cases ref; simp add: set_running_def put_stream_def split: option.split)+

lemma wait_ok [simp]: "receiver_ok (snd (realtime_wait_for_tasks_stopped E r)) = receiver_ok r"
  by (simp add: realtime_wait_for_tasks_stopped_def)

lemma realtime_stop_ok: "receiver_ok r \<Longrightarrow> receiver_ok (fst (realtime_stop E r))"
  by (simp add: realtime_stop_def Let_def)

lemma realtime_start_tasks_ok: "receiver_ok r \<Longrightarrow> receiver_ok (fst (snd (realtime_start_tasks E r closed)))"
  by (simp add: realtime_start_tasks_def Let_def)

lemma realtime_start_ok:
  assumes "receiver_ok r"
  shows "receiver_ok (fst (snd (realtime_start E port r)))"
proof -
  obtain stopped r1 where w: "(if rv_task r \<or> rv_control_task r then realtime_wait_for_tasks_stopped E r else (True, r)) = (stopped, r1)"
    by force
  have "receiver_ok r1" using assms w wait_ok [of E r] by (metis prod.sel(2))
  then show ?thesis using assms w
    by (auto simp: realtime_start_def Let_def intro!: realtime_start_tasks_ok split: prod.split)
qed

lemma free_recv_buffer_ok: "receiver_ok r \<Longrightarrow> receiver_ok (r\<lparr>rv_buffered_recv_buffer := None\<rparr>)"
  by (simp add: receiver_ok_def)

lemma buffered_stop_ok: "receiver_ok r \<Longrightarrow> receiver_ok (fst (buffered_stop E r))"
  by (simp add: buffered_stop_def buffered_wait_for_task_stopped_def Let_def free_recv_buffer_ok)

lemma buffered_start_ok: "receiver_ok r \<Longrightarrow> receiver_ok (fst (snd (buffered_start E port r)))"
  by (simp add: buffered_start_def buffered_wait_for_task_stopped_def Let_def split: prod.split)

lemma stream_start_ok: "receiver_ok r \<Longrightarrow> receiver_ok (fst (snd (stream_start E s port r)))"
  by (simp add: stream_start_def buffered_start_ok realtime_start_ok)

lemma stream_stop_ok: "receiver_ok r \<Longrightarrow> receiver_ok (fst (stream_stop E s r))"
  by (simp add: stream_stop_def buffered_stop_ok realtime_stop_ok)

lemma stop_if_ok: "receiver_ok r \<Longrightarrow> receiver_ok (fst (stop_if E s r))"
  by (simp add: stop_if_def stream_stop_ok split: option.split)

lemma copy_stream_state_ok:
  "receiver_ok r \<Longrightarrow> format_ok (as_format s) \<Longrightarrow> receiver_ok (audio_receiver_copy_stream_state ref s r)"
  by (simp add: audio_receiver_copy_stream_state_def put_stream_ok stream_ok_def split: option.split)

lemma select_stream_ok: "receiver_ok r \<Longrightarrow> receiver_ok (r\<lparr>rv_stream := Some ref\<rparr>)"
  by (simp add: receiver_ok_def)

lemma set_type_ok:
  assumes "receiver_ok r"
  shows "ensures (\<lambda>r'. receiver_ok r' \<and> rv_stream r' = rv_stream r) (set_type type ref r)"
proof -
  obtain s where "stream_of r ref = Some s" "format_ok (as_format s)"
    using stream_of_ok [OF assms, of ref] by (auto simp: stream_ok_def)
  then show ?thesis using put_stream_ok [OF assms, of "s\<lparr>as_type := type\<rparr>" ref]
    by (cases ref) (simp_all add: set_type_def stream_ok_def put_stream_def)
qed

lemma set_stream_type_ok:
  assumes r: "receiver_ok r"
  shows "ensures (\<lambda>(r', closed). receiver_ok r') (audio_receiver_set_stream_type E type r)"
proof -
  let ?target = "if type = AUDIO_STREAM_BUFFERED then Buffered_stream else Realtime_stream"
  obtain ref where ref: "rv_stream r = Some ref" using receiver_okD(3) [OF r] by blast
  obtain s where s: "stream_of r ref = Some s" "format_ok (as_format s)"
    using stream_of_ok [OF r, of ref] by (auto simp: stream_ok_def)
  have present: "rv_realtime r \<noteq> None" "rv_buffered r \<noteq> None" using r by (auto simp: receiver_ok_def stream_ok_def)
  show ?thesis
  proof (cases "ref = ?target")
    case True
    then show ?thesis using ref present set_type_ok [OF r, of type ?target]
      by (auto simp: audio_receiver_set_stream_type_def Let_def intro!: ensures_bind)
  next
    case False
    let ?r = "audio_receiver_copy_stream_state ?target s r"
    obtain r1 closed where q: "(if as_running s then stream_stop E s ?r else (?r, [])) = (r1, closed)" by force
    have "receiver_ok r1"
      using copy_stream_state_ok [OF r s(2), of ?target] stream_stop_ok [of ?r E s] q by (auto split: if_splits)
    then obtain r2 where r2: "set_type type ?target (r1\<lparr>rv_stream := Some ?target\<rparr>) = Some r2" "receiver_ok r2"
      using set_type_ok [OF select_stream_ok] unfolding ensures_def by blast
    have "audio_receiver_set_stream_type E type r = Some (r2, closed)"
      using ref present s(1) False unfolding audio_receiver_set_stream_type_def
      by (simp only: option.case Let_def if_False if_not_P [OF False] bind.bind_lunit q prod.case r2(1) simp_thms)
    then show ?thesis using r2(2) by simp
  qed
qed

lemma fresh_stream_ok:
  assumes "receiver_ok r"
  shows "ensures (\<lambda>(r', p'). receiver_ok r') (fresh_stream now (r, p))"
proof -
  have r: "receiver_ok (audio_receiver_reset_stats r)" using assms by simp
  obtain b where b: "flush_buffer (audio_receiver_reset_stats r) = Some ((audio_receiver_reset_stats r)\<lparr>rv_buffer := b\<rparr>)"
      "receiver_ok ((audio_receiver_reset_stats r)\<lparr>rv_buffer := b\<rparr>)"
    by (rule flush_buffer_ok [OF r])
  obtain locked p' where l: "ptp_clock_is_locked now p = (locked, p')" by force
  let ?r = "on_timing audio_timing_reset ((audio_receiver_reset_stats r)\<lparr>rv_buffer := b\<rparr>)"
  have ok: "receiver_ok ?r" 
    using receiver_ok_timing [of _ audio_timing_reset, OF b(2)] anchored_ok_reset [OF receiver_okD(6) [OF b(2)]] by blast
  then have "receiver_ok (on_timing (\<lambda>t. t\<lparr>tm_ptp_locked := locked\<rparr>) (audio_receiver_reset_resend_state ?r))"
    using receiver_okD(6) [OF ok] by (intro receiver_ok_timing) (simp_all add: audio_receiver_reset_resend_state_def)
  then show ?thesis using b(1) l by (simp add: fresh_stream_def)
qed

text \<open>Every way to start a stream.\<close>

lemma audio_receiver_start_ok:
  assumes "receiver_ok (fst s)"
  shows "ensures (\<lambda>(err, s', closed). receiver_ok (fst s')) (audio_receiver_start E data_port control_port s)"
proof -
  obtain r closed where t: "audio_receiver_set_stream_type (rc_switch E) AUDIO_STREAM_REALTIME (fst s) = Some (r, closed)"
      "receiver_ok r"
    using set_stream_type_ok [OF assms] by (fastforce simp: ensures_def)
  obtain ref where ref: "rv_stream r = Some ref" using receiver_okD(3) [OF t(2)] by blast
  obtain st where st: "stream_of r ref = Some st" using stream_of_ok [OF t(2), of ref] by (auto simp: stream_ok_def)
  obtain r1 closed1 where q: "(if as_running st then stream_stop (rc_stop E) st r else (r, [])) = (r1, closed1)" by force
  have "receiver_ok r1" using t(2) stream_stop_ok [of r "rc_stop E" st] q by (auto split: if_splits)
  then have "receiver_ok (r1\<lparr>rv_data_port := data_port, rv_control_port := control_port\<rparr>)" by simp
  then obtain r2 p2 where f: "fresh_stream (rc_now_ms E) (r1\<lparr>rv_data_port := data_port, rv_control_port := control_port\<rparr>, snd s) =
      Some (r2, p2)" "receiver_ok r2"
    using fresh_stream_ok by (fastforce simp: ensures_def)
  obtain err r3 closed2 where g: "stream_start (rc_start E) st data_port r2 = (err, r3, closed2)" by (rule prod_cases3)
  have "receiver_ok r3" using stream_start_ok [OF f(2), of "rc_start E" st data_port] g by simp
  moreover have "audio_receiver_start E data_port control_port s = Some (err, (r3, p2), closed @ closed1 @ closed2)"
    unfolding audio_receiver_start_def
    by (simp only: t(1) bind.bind_lunit prod.case ref option.case st q f(1) g Let_def)
  ultimately show ?thesis by simp
qed

lemma audio_receiver_start_buffered_ok:
  assumes "receiver_ok (fst s)"
  shows "ensures (\<lambda>(err, s', closed). receiver_ok (fst s')) (audio_receiver_start_buffered E port s)"
proof -
  obtain r closed where t: "audio_receiver_set_stream_type (rc_switch E) AUDIO_STREAM_BUFFERED (fst s) = Some (r, closed)"
      "receiver_ok r"
    using set_stream_type_ok [OF assms] by (fastforce simp: ensures_def)
  obtain ref where ref: "rv_stream r = Some ref" using receiver_okD(3) [OF t(2)] by blast
  obtain st where st: "stream_of r ref = Some st" using stream_of_ok [OF t(2), of ref] by (auto simp: stream_ok_def)
  obtain r2 p2 where f: "fresh_stream (rc_now_ms E) (r, snd s) = Some (r2, p2)" "receiver_ok r2"
    using fresh_stream_ok [OF t(2)] by (fastforce simp: ensures_def)
  obtain err r3 closed2 where g: "stream_start (rc_start E) st port r2 = (err, r3, closed2)" by (rule prod_cases3)
  have "receiver_ok r3" using stream_start_ok [OF f(2), of "rc_start E" st port] g by simp
  then show ?thesis using t ref st f(1) g by (simp add: audio_receiver_start_buffered_def)
qed

lemma audio_receiver_start_stream_ok:
  assumes "receiver_ok (fst s)"
  shows "ensures (\<lambda>(err, s', closed). receiver_ok (fst s')) (audio_receiver_start_stream E data_port control_port tcp_port s)"
proof -
  obtain st where "current_stream (fst s) = Some st" by (rule current_stream_ok [OF assms])
  then show ?thesis
    using receiver_okD(3) [OF assms] audio_receiver_start_ok [OF assms] audio_receiver_start_buffered_ok [OF assms]
    by (simp add: audio_receiver_start_stream_def assms)
qed

lemma audio_receiver_stop_ok:
  assumes "receiver_ok r"
  shows "ensures (\<lambda>(r', closed). receiver_ok r') (audio_receiver_stop E1 E2 r)"
proof -
  obtain r1 c1 where s1: "stop_if E1 (rv_realtime r) r = (r1, c1)" by force
  obtain r2 c2 where s2: "stop_if E2 (rv_buffered r1) r1 = (r2, c2)" by force
  have "receiver_ok r2" using stop_if_ok [OF assms, of E1 "rv_realtime r"] stop_if_ok [of r1 E2 "rv_buffered r1"] s1 s2 by simp
  then have "receiver_ok ((without_encryption r2)\<lparr>rv_decoder := None\<rparr>)"
    by (auto simp: without_encryption_def receiver_ok_def stream_ok_def decoder_ok_def)
  then show ?thesis using audio_receiver_flush_ok s1 s2
    by (simp add: audio_receiver_stop_def Let_def) (auto intro!: ensures_bind)
qed

lemma audio_receiver_read_ok:
  assumes r: "receiver_ok r" and out: "samples * 2 \<le> length out"
    and cc: "call_clock_ok (tm_anchor_network_time_ns (rv_timing r)) (tm_anchor_local_time_ns (rv_timing r)) cc"
  shows "ensures (\<lambda>(n, r', out'). receiver_ok r' \<and> n \<le> samples \<and> length out' = length out) (audio_receiver_read cc samples r out)"
proof (cases "ab_pool (rv_buffer r) = None \<or> samples = 0 \<or> rv_stream r = None")
  case True
  then show ?thesis using r by (auto simp: audio_receiver_read_def)
next
  case False
  obtain st where st: "current_stream r = Some st" "format_ok (as_format st)" by (rule current_stream_ok [OF r])
  let ?net = "tm_anchor_network_time_ns (rv_timing r)" and ?local = "tm_anchor_local_time_ns (rv_timing r)"
  have b: "ab_ok (rv_buffer r) []" "frames_fit (rv_buffer r) (ab_sorted (rv_buffer r))"
    using receiver_okD(5) [OF r] by (simp_all add: buffer_ok_def)
  have t: "timing_ok ?net ?local (rv_timing r)" "\<bar>?local\<bar> \<le> 2 ^ 60"
    using receiver_okD(6) [OF r] by (simp_all add: anchored_ok_def)
  obtain n s where n: "audio_timing_read cc st samples (rv_timing r) (rv_buffer r) (Some (rv_stats r)) out = Some (n, s)"
      "n \<le> samples" "ab_ok (pl_buffer s) []" "frames_fit (pl_buffer s) (ab_sorted (pl_buffer s))"
      "timing_ok ?net ?local (pl_timing s)" "length (pl_out s) = length out"
    using audio_timing_read_ok [OF b t(1) out _ cc, of st "Some (rv_stats r)"] st(2) by (auto simp: format_ok_def)
  have "anchored_ok (pl_timing s)" using n(5) t(2) by (simp add: anchored_ok_def timing_ok_def)
  then have "receiver_ok (r\<lparr>rv_timing := pl_timing s, rv_buffer := pl_buffer s\<rparr>)"
    using r n(3,4) by (simp add: receiver_ok_def buffer_ok_def)
  then show ?thesis using False st(1) n r by (simp add: audio_receiver_read_def)
qed

subsection \<open>The control port\<close>

text \<open>The anchor a control packet carries, if it carries one, must have a distance that can be negated.\<close>

definition control_fits :: "anchor_clock \<Rightarrow> bytes \<Rightarrow> receiver \<times> ptp_state \<Rightarrow> bool" where
  "control_fits E bs s \<longleftrightarrow> (\<forall>rtp. be32_at (take MAX_RTP_PACKET_SIZE bs) 4 = Some rtp \<longrightarrow> anchor_fits (ac_now E) rtp s)"

lemma be_at_ok:
  "k + 4 \<le> length p \<Longrightarrow> \<exists>w. be32_at p k = Some w" "k + 8 \<le> length p \<Longrightarrow> \<exists>w. be64_at p k = Some w"
  by (simp_all add: be32_at_def be64_at_def)

lemma control_packet_ok:
  assumes r: "receiver_ok (fst s)" and E: "anchor_clock_ok E" and fits: "control_fits E bs s"
  shows "ensures (\<lambda>(s', sent). receiver_ok (fst s')) (control_packet E bs s)"
proof -
  define p where "p = take MAX_RTP_PACKET_SIZE bs"
  have anchor: "ensures (\<lambda>(s', sent). receiver_ok (fst s'))
      (audio_receiver_set_anchor_time E c n rtp s \<bind> (\<lambda>s. Some (s, [])))" if "be32_at p 4 = Some rtp" for c n rtp
    using set_anchor_time_ok [OF r E, of rtp c n] fits that by (auto simp: control_fits_def p_def intro!: ensures_bind)
  have sync: "\<exists>a b c. be32_at p 4 = Some a \<and> be32_at p 8 = Some b \<and> be32_at p 12 = Some c" if "20 \<le> length p"
    using be_at_ok(1) [of 4 p] be_at_ok(1) [of 8 p] be_at_ok(1) [of 12 p] that by auto
  have ptp: "\<exists>a b c. be32_at p 4 = Some a \<and> be64_at p 8 = Some b \<and> be64_at p 20 = Some c" if "28 \<le> length p"
    using be_at_ok(1) [of 4 p] be_at_ok(2) [of 8 p] be_at_ok(2) [of 20 p] that by auto
  have "ensures (\<lambda>(s', sent). receiver_ok (fst s'))
     (do { a \<leftarrow> be32_at p 4; b \<leftarrow> be32_at p 8; c \<leftarrow> be32_at p 12; s \<leftarrow> audio_receiver_set_anchor_time E 0
         (ucast b * 1000000000 + drop_bit 32 (ucast c * 1000000000)) a s; Some (s, []) })" if "20 \<le> length p"
    using sync [OF that] anchor by fastforce
  moreover have "ensures (\<lambda>(s', sent). receiver_ok (fst s'))
     (do { a \<leftarrow> be32_at p 4; b \<leftarrow> be64_at p 8; c \<leftarrow> be64_at p 20; s \<leftarrow> audio_receiver_set_anchor_time E c b a s; Some (s, []) })"
    if "28 \<le> length p"
    using ptp [OF that] anchor by fastforce
  ultimately show ?thesis using r unfolding control_packet_def p_def [symmetric] Let_def
    by - (intro ensures_if; simp)
qed

subsection \<open>Events\<close>

text \<open>
  What changes the receiver: the calls of the RTSP layer, the playback task, a datagram on the data or
  the control port, and a client of the buffered transport, each with its environment.
\<close>

datatype receiver_event =
    Ev_format bool bool audio_format
  | Ev_encryption "audio_encrypt option"
  | Ev_playout_latency u32
  | Ev_output_latency u32
  | Ev_client_control u32 u16
  | Ev_stream_type start_env u32
  | Ev_start receiver_env u16 u16 u16
  | Ev_stop start_env start_env
  | Ev_stop_buffered start_env
  | Ev_anchor anchor_clock u64 u64 u32
  | Ev_playing int bool
  | Ev_reset_timing
  | Ev_flush
  | Ev_seek_flush
  | Ev_deferred_flush u32
  | Ev_pause
  | Ev_read call_clock nat "u16 list"
  | Ev_data rx_env datagram
  | Ev_control anchor_clock bytes
  | Ev_client conn_env bool int "rx_event list"

definition on_receiver :: "(receiver \<Rightarrow> receiver mem) \<Rightarrow> receiver \<times> ptp_state \<Rightarrow> (receiver \<times> ptp_state) mem" where
  "on_receiver f s = do { r \<leftarrow> f (fst s); Some (r, snd s) }"

fun receiver_step :: "receiver_event \<Rightarrow> receiver \<times> ptp_state \<Rightarrow> (receiver \<times> ptp_state) mem" where
  "receiver_step (Ev_format allocated opened f) s = on_receiver (audio_receiver_set_format allocated opened f) s"
| "receiver_step (Ev_encryption e) s = on_receiver (\<lambda>r. Some (audio_receiver_set_encryption e r)) s"
| "receiver_step (Ev_playout_latency n) s = on_receiver (\<lambda>r. Some (audio_receiver_set_playout_latency_samples n r)) s"
| "receiver_step (Ev_output_latency us) s = on_receiver (audio_receiver_set_output_latency_us us) s"
| "receiver_step (Ev_client_control ip port) s = on_receiver (\<lambda>r. Some (audio_receiver_set_client_control ip port r)) s"
| "receiver_step (Ev_stream_type E type) s = on_receiver (\<lambda>r. map_option fst (audio_receiver_set_stream_type E type r)) s"
| "receiver_step (Ev_start E data_port control_port tcp_port) s =
     do { (err, s, closed) \<leftarrow> audio_receiver_start_stream E data_port control_port tcp_port s; Some s }"
| "receiver_step (Ev_stop E1 E2) s = on_receiver (\<lambda>r. map_option fst (audio_receiver_stop E1 E2 r)) s"
| "receiver_step (Ev_stop_buffered E) s = on_receiver (\<lambda>r. Some (fst (audio_receiver_stop_buffered_only E r))) s"
| "receiver_step (Ev_anchor E clock net rtp) s = audio_receiver_set_anchor_time E clock net rtp s"
| "receiver_step (Ev_playing now playing) s = on_receiver (audio_receiver_set_playing now playing) s"
| "receiver_step Ev_reset_timing s = on_receiver (\<lambda>r. Some (audio_receiver_reset_timing r)) s"
| "receiver_step Ev_flush s = on_receiver audio_receiver_flush s"
| "receiver_step Ev_seek_flush s = on_receiver audio_receiver_seek_flush s"
| "receiver_step (Ev_deferred_flush ts) s = on_receiver (\<lambda>r. Some (audio_receiver_set_deferred_flush ts r)) s"
| "receiver_step Ev_pause s = on_receiver (\<lambda>r. Some (audio_receiver_pause r)) s"
| "receiver_step (Ev_read cc samples out) s =
     on_receiver (\<lambda>r. do { (n, r, out) \<leftarrow> audio_receiver_read cc samples r out; Some r }) s"
| "receiver_step (Ev_data E d) s = on_receiver (\<lambda>r. do { (go, r, sent) \<leftarrow> realtime_receive_packet E d (r, []); Some r }) s"
| "receiver_step (Ev_control E bs) s = do { (s, sent) \<leftarrow> control_packet E bs s; Some s }"
| "receiver_step (Ev_client E allocated fd es) s =
     on_receiver (\<lambda>r. do { (r, closed) \<leftarrow> buffered_client E allocated fd es r; Some r }) s"

text \<open>What is asked of the environment of an event.\<close>

fun event_ok :: "receiver_event \<Rightarrow> receiver \<times> ptp_state \<Rightarrow> bool" where
  "event_ok (Ev_format allocated opened f) s \<longleftrightarrow> format_ok f"
| "event_ok (Ev_anchor E clock net rtp) s \<longleftrightarrow> anchor_clock_ok E \<and> anchor_fits (ac_now E) rtp s"
| "event_ok (Ev_control E bs) s \<longleftrightarrow> anchor_clock_ok E \<and> control_fits E bs s"
| "event_ok (Ev_playing now playing) s \<longleftrightarrow> \<bar>now\<bar> \<le> 2 ^ 50"
| "event_ok (Ev_read cc samples out) s \<longleftrightarrow> samples * 2 \<le> length out \<and>
     call_clock_ok (tm_anchor_network_time_ns (rv_timing (fst s))) (tm_anchor_local_time_ns (rv_timing (fst s))) cc"
| "event_ok (Ev_data E d) s \<longleftrightarrow> rx_env_ok E"
| "event_ok (Ev_client E allocated fd es) s \<longleftrightarrow> conn_env_ok E"
| "event_ok _ s \<longleftrightarrow> True"

lemma on_receiver_ok: "ensures receiver_ok (f (fst s)) \<Longrightarrow> ensures (\<lambda>s'. receiver_ok (fst s')) (on_receiver f s)"
  by (auto simp: on_receiver_def intro!: ensures_bind)

lemma ensures_fst: "ensures (\<lambda>(r, c). P r) m \<Longrightarrow> ensures P (map_option fst m)"
  by (auto simp: ensures_def)

lemma receiver_step_ok:
  assumes r: "receiver_ok (fst s)" and e: "event_ok e s"
  shows "ensures (\<lambda>s'. receiver_ok (fst s')) (receiver_step e s)"
proof (cases e)
  case (Ev_start E data_port control_port tcp_port)
  then show ?thesis using audio_receiver_start_stream_ok [OF r] by (auto intro!: ensures_bind)
next
  case (Ev_stop E1 E2)
  then show ?thesis by (simp add: on_receiver_ok ensures_fst audio_receiver_stop_ok r)
next
  case (Ev_stream_type E type)
  then show ?thesis by (simp add: on_receiver_ok ensures_fst set_stream_type_ok r)
next
  case (Ev_read cc samples out)
  then show ?thesis using e audio_receiver_read_ok [OF r, of samples out cc]
    by (auto intro!: on_receiver_ok elim!: ensures_bind)
next
  case (Ev_data E d)
  have "ok_with (rv_buffered_recv_buffer (fst s)) (fst (fst s, []))" using r by (simp add: ok_with_def)
  from realtime_receive_packet_ok [OF this, of E d] show ?thesis using Ev_data e
    by (auto simp: ok_with_def intro!: on_receiver_ok elim!: ensures_bind)
next
  case (Ev_control E bs)
  then show ?thesis using e control_packet_ok [OF r, of E bs] by (auto elim!: ensures_bind)
next
  case (Ev_client E allocated fd es)
  then show ?thesis using e buffered_client_ok [OF _ r, of E allocated fd es]
    by (auto intro!: on_receiver_ok elim!: ensures_bind)
next
  case Ev_reset_timing
  then show ?thesis using anchored_ok_reset [OF receiver_okD(6) [OF r]]
    by (simp add: on_receiver_ok audio_receiver_reset_timing_def receiver_ok_timing r)
qed (use r e in \<open>simp_all add: on_receiver_ok set_format_ok set_encryption_ok playout_latency_ok output_latency_ok
    set_playing_ok audio_receiver_flush_ok audio_receiver_seek_flush_ok deferred_flush_keeps_ok pause_keeps_ok
    audio_receiver_stop_buffered_only_def stop_if_ok set_anchor_time_ok\<close>)

subsection \<open>Reachable states\<close>

text \<open>The allocators return memory of the size asked for; the memory of the pending frame may be missing.\<close>

definition init_env_ok :: "init_env \<Rightarrow> bool" where
  "init_env_ok E \<longleftrightarrow>
     (\<forall>pool. ie_pool E = Some pool \<longrightarrow> length pool = MAX_RING_BUFFER_FRAMES \<and> (\<forall>f\<in>set pool. length (af_pcm f) = slot_pcm)) \<and>
     (\<forall>f. ie_pending E = Some f \<longrightarrow> length (af_pcm f) = MAX_SAMPLES_PER_FRAME * AUDIO_MAX_CHANNELS)"

lemma default_format_ok: "format_ok default_format"
  by (simp add: default_format_def format_ok_def)

lemma audio_receiver_init_ok:
  assumes E: "init_env_ok E" and init: "audio_receiver_init E receiver_zero = (ESP_OK, r)"
  shows "receiver_ok r"
proof -
  obtain pool b where b: "ie_pool E = Some pool" "audio_buffer_init (Some pool) True True True = (ESP_OK, b)"
      "rv_buffer r = b"
    using init by (auto simp: audio_receiver_init_def audio_buffer_init_def receiver_zero_def Let_def
        audio_receiver_reset_blocks_def split: if_splits option.splits)
  have "ab_ok b []" using E b(1) by (intro audio_buffer_init_ok [OF _ _ b(2)]) (simp_all add: init_env_ok_def)
  moreover have "ab_sorted b = []" using b(2) by (auto simp: audio_buffer_init_def Let_def)
  ultimately have buffer: "buffer_ok b" by (simp add: buffer_ok_def frames_fit_def)
  have "anchored_ok (audio_timing_init (ie_pending E) (8 + MAX_SAMPLES_PER_FRAME * AUDIO_MAX_CHANNELS * 2))"
    using E by (cases "ie_pending E") (simp_all add: audio_timing_init_def timing_zero_def anchored_ok_def
        timing_ok_def pending_ok_def init_env_ok_def MAX_SAMPLES_PER_FRAME_def AUDIO_MAX_CHANNELS_def)
  then have anchored: "anchored_ok (audio_timing_set_format default_format
      (audio_timing_init (ie_pending E) (8 + MAX_SAMPLES_PER_FRAME * AUDIO_MAX_CHANNELS * 2)))"
    by (simp only: audio_timing_set_format_def anchored_ok_targets)
  have streams: "stream_ok (Some s)" if "as_format s = default_format" for s
    using default_format_ok that by (simp add: stream_ok_def)
  show ?thesis
    using init b buffer anchored streams
    by (auto simp: audio_receiver_init_def receiver_zero_def receiver_ok_def with_format_def decoder_ok_def Let_def
        audio_receiver_reset_blocks_def audio_buffer_init_def audio_stream_create_realtime_def
        audio_stream_create_buffered_def split: if_splits option.splits)
qed

text \<open>The states of the initialised receiver, with the PTP clock in any state.\<close>

inductive receiver_reaches :: "init_env \<Rightarrow> receiver \<times> ptp_state \<Rightarrow> bool" for E where
  initialised: "audio_receiver_init E receiver_zero = (ESP_OK, r) \<Longrightarrow> receiver_reaches E (r, p)"
| happens: "receiver_reaches E s \<Longrightarrow> event_ok e s \<Longrightarrow> receiver_step e s = Some s' \<Longrightarrow> receiver_reaches E s'"

lemma receiver_reaches_ok:
  assumes "receiver_reaches E s" "init_env_ok E"
  shows "receiver_ok (fst s)"
  using assms
proof induction
  case (initialised r p)
  then show ?case using audio_receiver_init_ok by simp
next
  case (happens s e s')
  then show ?case using receiver_step_ok [of s e] by (simp add: ensures_def)
qed


subsection \<open>A concrete run\<close>

definition sample_init :: init_env where
  "sample_init = \<lparr>ie_realtime = True, ie_buffered = True,
     ie_pool = Some (replicate MAX_RING_BUFFER_FRAMES \<lparr>af_timestamp = 0, af_samples = 0, af_channels = 0, af_pcm = replicate slot_pcm 0\<rparr>),
     ie_arrays = True, ie_semaphore = True, ie_frame_buffer = True, ie_decrypt = True, ie_pending = None\<rparr>"

definition silent_codecs :: codec_lib where
  "silent_codecs = \<lparr>alac_decode = (\<lambda>cfg hist input len. Some (2, replicate (len div 4) 0)), aac_decode = (\<lambda>cfg hist input len. None)\<rparr>"

definition sample_rx :: rx_env where
  "sample_rx = \<lparr>rx_crypto = plain_crypto, rx_aes = plain_aes,
     rx_frame = \<lparr>fe_codec = silent_codecs, fe_realloc = True, fe_reopen = True, fe_meanwhile = (\<lambda>r. r)\<rparr>,
     rx_gap = \<lparr>rq_now_us = 0, rq_sent = True, rq_after_us = 0\<rparr>, rx_now_us = 0,
     rx_retry = \<lparr>rq_now_us = 0, rq_sent = True, rq_after_us = 0\<rparr>\<rparr>"

lemma sample_init_ok: "init_env_ok sample_init" "\<exists>r. audio_receiver_init sample_init receiver_zero = (ESP_OK, r)"
  by (simp_all add: sample_init_def init_env_ok_def audio_receiver_init_def receiver_zero_def Let_def with_format_def
      audio_buffer_init_def audio_stream_create_realtime_def audio_stream_create_buffered_def)

lemma sample_rx_ok: "rx_env_ok sample_rx"
  by (auto simp: rx_env_ok_def sample_rx_def frame_env_ok_def codec_ok_def codec_stereo_def silent_codecs_def)


end
