(* ===== verification/Receiver_Facts.thy ===== *)
theory Receiver_Facts
  imports Receiver_Events
begin

section \<open>What the transports deliver\<close>

subsection \<open>Packets of the buffered transport\<close>

text \<open>The stream the sender writes: every packet behind its length.\<close>

definition framed :: "bytes \<Rightarrow> bytes" where
  "framed packet = be_bytes 2 (of_nat (length packet + 2)) @ packet"

fun play_packets :: "crypto \<Rightarrow> frame_env \<Rightarrow> bytes list \<Rightarrow> receiver \<Rightarrow> receiver mem" where
  "play_packets C F [] r = Some r"
| "play_packets C F (p # ps) r = do { r \<leftarrow> buffered_packet C F p r; play_packets C F ps r }"

text \<open>The stream runs, and the socket times out only while playback is paused.\<close>

definition steady :: "task_view \<Rightarrow> rx_event list \<Rightarrow> bool" where
  "steady V es \<longleftrightarrow> (\<forall>es. tv_running V es) \<and> rx_flows es \<and> (Rx_timeout \<in> set es \<longrightarrow> (\<forall>es. \<not> tv_playing V es))"

lemma read_exact_steady:
  "steady V es \<Longrightarrow> n \<le> length (rx_bytes es) \<Longrightarrow>
    \<exists>es'. read_exact V n es = (Some (take n (rx_bytes es)), es') \<and> steady V es' \<and> rx_bytes es' = drop n (rx_bytes es)"
proof (induction es arbitrary: n)
  case Nil
  then show ?case by (simp add: read_exact.simps [of _ n] read_exact.simps [of _ 0] steady_def)
next
  case (Cons e es)
  have steady: "steady V es" using Cons.prems(1) by (cases e) (auto simp: steady_def)
  show ?case
  proof (cases e)
    case (Rx_data bs)
    show ?thesis
    proof (cases "n = 0 \<or> n < length bs")
      case True
      then show ?thesis using Cons.prems(1) Rx_data
        by (auto simp: read_exact.simps [of _ n] read_exact.simps [of _ 0] steady_def)
    next
      case False
      then obtain es' where "read_exact V (n - length bs) es = (Some (take (n - length bs) (rx_bytes es)), es')"
          "steady V es'" "rx_bytes es' = drop (n - length bs) (rx_bytes es)"
        using Cons.IH [OF steady, of "n - length bs"] Cons.prems(2) Rx_data by force
      then show ?thesis using False Cons.prems(1) Rx_data by (subst read_exact.simps) (simp add: steady_def)
    qed
  next
    case Rx_timeout
    then have idle: "\<forall>es. \<not> tv_playing V es" using Cons.prems(1) by (auto simp: steady_def)
    show ?thesis
    proof (cases "n = 0")
      case True
      then show ?thesis using Cons.prems(1) Rx_timeout by (auto simp: read_exact.simps [of _ 0] steady_def)
    next
      case False
      then have "read_exact V n (e # es) = read_exact V n es"
        using Cons.prems(1) Rx_timeout idle by (subst read_exact.simps) (simp add: steady_def)
      then show ?thesis using Cons.IH [OF steady, of n] Cons.prems(2) Rx_timeout by simp
    qed
  next
    case Rx_error
    then show ?thesis using Cons.prems(1) by (simp add: steady_def)
  qed
qed

text \<open>At the end of the stream the sender has closed the connection.\<close>

lemma read_exact_end:
  "steady V es \<Longrightarrow> rx_bytes es = [] \<Longrightarrow> 0 < n \<Longrightarrow> read_exact V n es = (None, [])"
proof (induction es)
  case Nil
  then show ?case by (simp add: read_exact.simps [of _ n] steady_def)
next
  case (Cons e es)
  show ?case
  proof (cases e)
    case Rx_timeout
    then have "steady V es" "\<forall>es. \<not> tv_playing V es" using Cons.prems(1) by (auto simp: steady_def)
    then show ?thesis using Cons Rx_timeout by (subst read_exact.simps) (simp add: steady_def)
  qed (use Cons.prems in \<open>auto simp: steady_def\<close>)
qed

lemma framed_take:
  assumes "length p \<le> 8190"
  shows "be_val (take 2 (framed p @ rest)) = length p + 2" "drop 2 (framed p @ rest) = p @ rest"
proof -
  have "unat (of_nat (length p + 2) :: u64) = length p + 2" by (rule unat_of_nat_id) (use assms in simp)
  then have "be_val (be_bytes 2 (of_nat (length p + 2))) = length p + 2"
    using assms by (simp only: be_val_be_bytes) simp
  then show "be_val (take 2 (framed p @ rest)) = length p + 2" "drop 2 (framed p @ rest) = p @ rest"
    by (simp_all add: framed_def)
qed

lemma connection_step:
  assumes E: "steady (cn_view E) es" "cn_wait E = (\<lambda>es r. r)" "cn_frame E = (\<lambda>es. F)"
    and es: "rx_bytes es = framed p @ rest" and len: "8 \<le> length p" "length p \<le> 8190"
    and r: "rv_buffered_recv_buffer r = Some 8192"
  shows "\<exists>es'. steady (cn_view E) es' \<and> rx_bytes es' = rest \<and>
    buffered_connection E es r = (buffered_packet (cn_crypto E) F p r \<bind> buffered_connection E es')"
proof -
  note ft = framed_take [OF len(2), of rest]
  have "2 \<le> length (rx_bytes es)" by (simp add: es framed_def)
  then obtain es1 where e1: "read_exact (cn_view E) 2 es = (Some (take 2 (framed p @ rest)), es1)" "steady (cn_view E) es1"
      "rx_bytes es1 = p @ rest"
    using read_exact_steady [OF E(1), of 2] ft(2) es by auto
  obtain es2 where e2: "read_exact (cn_view E) (length p) es1 = (Some p, es2)" "steady (cn_view E) es2" "rx_bytes es2 = rest"
    using read_exact_steady [OF e1(2), of "length p"] e1(3) by auto
  have run: "tv_running (cn_view E) es" using E(1) by (simp add: steady_def)
  have "buffered_connection E es r = (buffered_packet (cn_crypto E) F p r \<bind> buffered_connection E es2)"
    using run e1(1) e2(1) ft(1) len r E(2,3)
    by (subst buffered_connection.simps) (simp add: Let_def BUFFERED_AUDIO_PACKET_SIZE_def)
  then show ?thesis using e2 by blast
qed

text \<open>
  C29. The buffered transport plays the packets the sender framed, in order, however the network cuts
  them: when the stream carries the packets \<open>ps\<close>, each behind its 16-bit length, in pieces of any size
  and with time-outs while playback is paused, the task decrypts and queues exactly \<open>ps\<close> one after the
  other and ends with the connection.
\<close>

theorem buffered_packets_in_order:
  assumes "conn_env_ok E" "cn_wait E = (\<lambda>es r. r)" "cn_frame E = (\<lambda>es. F)"
    and "steady (cn_view E) es" "rx_bytes es = concat (map framed ps)"
    and "\<forall>p\<in>set ps. 8 \<le> length p \<and> length p \<le> 8190"
    and "receiver_ok r" "rv_buffered_recv_buffer r = Some BUFFERED_AUDIO_PACKET_SIZE"
  shows "\<exists>r'. play_packets (cn_crypto E) F ps r = Some r' \<and> buffered_connection E es r = Some (r', [])"
  using assms(4-8)
proof (induction ps arbitrary: es r)
  case Nil
  then show ?case using assms(2) read_exact_end [of "cn_view E" es 2]
    by (subst buffered_connection.simps) (simp add: steady_def Let_def)
next
  case (Cons p ps)
  have r: "rv_buffered_recv_buffer r = Some 8192" "ok_with (Some 8192) r"
    using Cons.prems by (simp_all add: ok_with_def BUFFERED_AUDIO_PACKET_SIZE_def)
  obtain es' where es': "steady (cn_view E) es'" "rx_bytes es' = concat (map framed ps)"
      "buffered_connection E es r = (buffered_packet (cn_crypto E) F p r \<bind> buffered_connection E es')"
    using connection_step [OF Cons.prems(1) assms(2,3), of p "concat (map framed ps)" r] Cons.prems r(1) by auto
  have "crypto_ok (cn_crypto E)" "frame_env_ok F" using assms(1,3) by (simp_all add: conn_env_ok_def)
  then obtain r1 where r1: "buffered_packet (cn_crypto E) F p r = Some r1" "ok_with (Some 8192) r1"
    using buffered_packet_ok [OF r(2)] Cons.prems(3) unfolding ensures_def by fastforce
  have "\<exists>r'. play_packets (cn_crypto E) F ps r1 = Some r' \<and> buffered_connection E es' r1 = Some (r', [])"
    using Cons.prems(3) r1(2) by (intro Cons.IH es') (simp_all add: ok_with_def BUFFERED_AUDIO_PACKET_SIZE_def)
  then show ?case using r1(1) es'(3) by simp
qed

definition sample_conn :: conn_env where
  "sample_conn = \<lparr>cn_view = \<lparr>tv_running = (\<lambda>es. True), tv_playing = (\<lambda>es. True)\<rparr>, cn_crypto = plain_crypto,
     cn_frame = (\<lambda>es. rx_frame sample_rx), cn_wait = (\<lambda>es r. r)\<rparr>"

lemma buffered_packets_in_order_witness:
  "\<exists>r r'. audio_receiver_init sample_init receiver_zero = (ESP_OK, r) \<and>
     buffered_connection sample_conn [Rx_data [0], Rx_data [10, 1, 2, 3], Rx_data [4, 5, 6, 7, 8]]
       (r\<lparr>rv_buffered_recv_buffer := Some BUFFERED_AUDIO_PACKET_SIZE\<rparr>) = Some (r', [])"
proof -
  obtain r where r: "audio_receiver_init sample_init receiver_zero = (ESP_OK, r)" using sample_init_ok(2) by blast
  let ?r = "r\<lparr>rv_buffered_recv_buffer := Some BUFFERED_AUDIO_PACKET_SIZE\<rparr>"
  have ok: "receiver_ok ?r" using audio_receiver_init_ok [OF sample_init_ok(1) r] by (simp add: receiver_ok_def)
  have E: "conn_env_ok sample_conn" using sample_rx_ok by (simp add: conn_env_ok_def sample_conn_def rx_env_ok_def)
  have bytes: "rx_bytes [Rx_data [0], Rx_data [10, 1, 2, 3], Rx_data [4, 5, 6, 7, 8]] = concat (map framed [[1, 2, 3, 4, 5, 6, 7, 8]])"
    by (simp add: framed_def be_bytes_def upt_rec)
  obtain r' where "buffered_connection sample_conn [Rx_data [0], Rx_data [10, 1, 2, 3], Rx_data [4, 5, 6, 7, 8]] ?r = Some (r', [])"
    using buffered_packets_in_order [OF E _ _ _ bytes _ ok, of "rx_frame sample_rx"] by (auto simp: sample_conn_def steady_def)
  then show ?thesis using r by blast
qed

subsection \<open>Formats with more than two channels\<close>

lemma queue_critical_overflows:
  assumes "buffer_ok b" "slot_pcm < samples * channels" "ab_capacity b \<noteq> 0"
  shows "queue_critical b ts pcm samples channels = None"
proof -
  have ok: "ab_ok b []" using assms(1) by (simp add: buffer_ok_def)
  obtain b1 where b1: "drain_oldest b = Some b1" "ab_ok b1 []" "ab_free b1 \<noteq> []"
    using drain_oldest_ok [OF ok] assms(3) by (metis neq0_conv)
  obtain slot free where free: "ab_free b1 = slot # free" using b1(3) by (cases "ab_free b1") auto
  obtain pool where pool: "ab_pool b1 = Some pool" "\<forall>f\<in>set pool. length (af_pcm f) = slot_pcm"
    using b1(2) by (auto simp: ab_ok_def)
  have "wr (af_pcm f) 0 bs = None" if "rd pool slot = Some f" "rd_block pcm 0 (samples * channels) = Some bs" for f bs
  proof -
    have "f \<in> set pool" using that(1) by (auto simp: rd_def split: if_splits)
    then have "length (af_pcm f) = slot_pcm" using pool(2) by blast
    moreover have "length bs = samples * channels" using that(2) by (auto simp: rd_block_def split: if_splits)
    ultimately show ?thesis using assms(2) by (simp add: wr_def)
  qed
  then show ?thesis using b1(1) free pool(1)
    by (cases "rd pool slot"; cases "rd_block pcm 0 (samples * channels)") (simp_all add: queue_critical_def)
qed

lemma queue_decoded_overflows:
  assumes "buffer_ok b" "slot_pcm < min 352 samples * nat channels" "ab_capacity b \<noteq> 0"
  shows "audio_buffer_queue_decoded b stats ts pcm samples channels = None"
proof -
  let ?n = "if samples > AAC_FRAMES_PER_PACKET then AAC_FRAMES_PER_PACKET else samples"
  have n: "?n = min 352 samples" "samples \<noteq> 0" "0 < channels"
    using assms(2) by (auto simp: AAC_FRAMES_PER_PACKET_def intro: ccontr)
  have "queue_critical b ts pcm ?n (nat channels) = None"
    unfolding n(1) by (rule queue_critical_overflows [OF assms(1,2,3)])
  then have "audio_buffer_queue_chunk b stats ts pcm ?n (nat channels) = None"
    using n(1,2) by (simp add: audio_buffer_queue_chunk_def)
  then show ?thesis using n(2,3)
    by (simp add: audio_buffer_queue_decoded_def queue_decoded_loop.simps [of b] Let_def)
qed

text \<open>
  C30. An announced format with too many channels makes the next packet write outside its slot: after
  any well-formed receiver was told to expect uncompressed audio with \<open>c > 2\<close> channels, a frame with
  more than 704 words in its first 352 samples overruns the slot of the ring buffer, which has
  room for two channels. Nothing between the announcement and the copy bounds the number of channels.
\<close>

theorem wide_format_overflows_slot:
  assumes "receiver_ok r" "ab_capacity (rv_buffer r) \<noteq> 0" "ab_decode_capacity (rv_buffer r) \<noteq> None"
    and "fm_codec f = ascii ''L16'' @ 0 # pad" "2 < fm_channels f" "fm_channels f < 2 ^ 31"
    and "length data \<le> 16384" "704 < min 352 (length data div (nat (fm_channels f) * 2)) * nat (fm_channels f)"
    and "\<And>r. fe_meanwhile F r = r" "\<not> timestamp_is_gated r ts"
  shows "do { r \<leftarrow> audio_receiver_set_format True opened f r; audio_stream_process_accepted_frame F ts data r } = None"
proof -
  have "c_string (fm_codec f) = Some (ascii ''L16'')" by (simp add: assms(4) c_string_def ascii_def cstr_def)
  then obtain d where d: "audio_decoder_create True opened f = Some (Some d)" "dc_kind d = AUDIO_DECODER_PCM" "dc_format d = f"
    by (auto simp: audio_decoder_create_def Let_def codec_is_alac_def codec_is_aac_def ascii_def)
  let ?r = "on_timing (audio_timing_set_format f) ((with_format f r)\<lparr>rv_decoder := Some d\<rparr>)"
  have set: "audio_receiver_set_format True opened f r = Some ?r"
    using d(1) assms(1) by (auto simp: audio_receiver_set_format_def receiver_ok_def stream_ok_def)
  have same: "rv_buffer ?r = rv_buffer r" "rv_decoder ?r = Some d" "\<not> timestamp_is_gated ?r ts"
    using assms(10) by (simp_all add: on_timing_def with_format_def timestamp_is_gated_def)
  have cap: "audio_buffer_get_decode_buffer (rv_buffer r) = 4096"
    using receiver_okD(5) [OF assms(1)] assms(3) by (auto simp: buffer_ok_def ab_ok_def decode_area_ok_def
        audio_buffer_get_decode_buffer_def MAX_SAMPLES_PER_FRAME_def)
  let ?c = "fm_channels f"
  have ch: "decode_channels d = ?c" using d(3) assms(5) by (simp add: decode_channels_def)
  obtain q where q: "decode_pcm data ?c 8192 4096 = Some (Some q)" "fst q = min 4096 (length data div (nat ?c * 2))"
      "fst (snd q) = ?c"
    using decode_pcm_ok [of ?c data 8192 4096] assms(5-7) by auto
  obtain n c pcm where p: "q = (n, c, pcm)" by (rule prod_cases3)
  let ?r2 = "?r\<lparr>rv_decoder := Some d\<rparr>"
  have n: "n = min 4096 (length data div (nat ?c * 2))" "c = ?c" using q p by simp_all
  have wide: "slot_pcm < min 352 n * nat c" using assms(8) n by (simp add: slot_pcm_eq min.assoc)
  have dec: "audio_decoder_decode (fe_codec F) (fe_realloc F) (fe_reopen F) d data (4096 * AUDIO_MAX_CHANNELS) 4096 =
      Some (Some (n, c, pcm), d)"
    using d(2) ch q(1) p by (simp add: audio_decoder_decode_def AUDIO_MAX_CHANNELS_def)
  have stream: "\<exists>s. current_stream ?r2 = Some s"
    using assms(1) by (auto simp: current_stream_def stream_of_def on_timing_def with_format_def receiver_ok_def stream_ok_def
        split: stream_ref.split)
  have "apply_aac_transient_mute ?r2 pcm n c = Some pcm"
    using d(2) by (simp add: apply_aac_transient_mute_def audio_decoder_is_aac_def)
  moreover have "n \<noteq> 0" using wide by (auto intro: ccontr)
  moreover have "audio_buffer_queue_decoded (rv_buffer r) stats ts pcm n c = None" for stats
    by (rule queue_decoded_overflows [OF receiver_okD(5) [OF assms(1)] wide assms(2)])
  ultimately show ?thesis
    using set same cap dec stream assms(5,9) n(2)
    by (auto simp: audio_stream_process_accepted_frame_def Let_def timestamp_is_gated_def)
qed

lemma wide_format_overflows_slot_witness:
  "\<exists>r. audio_receiver_init sample_init receiver_zero = (ESP_OK, r) \<and>
     do { r \<leftarrow> audio_receiver_set_format True True (default_format\<lparr>fm_codec := ascii ''L16'' @ 0 # replicate 28 0, fm_channels := 3\<rparr>) r;
          audio_stream_process_accepted_frame (rx_frame sample_rx) 1000 (replicate 1440 0) r } = None"
proof -
  obtain r where r: "audio_receiver_init sample_init receiver_zero = (ESP_OK, r)" using sample_init_ok(2) by blast
  have ok: "receiver_ok r" by (rule audio_receiver_init_ok [OF sample_init_ok(1) r])
  have buffer: "ab_capacity (rv_buffer r) \<noteq> 0" "ab_decode_capacity (rv_buffer r) \<noteq> None" "\<not> timestamp_is_gated r 1000"
    using r by (auto simp: audio_receiver_init_def receiver_zero_def audio_buffer_init_def sample_init_def Let_def
        MAX_RING_BUFFER_FRAMES_def audio_stream_create_realtime_def audio_stream_create_buffered_def with_format_def
        audio_receiver_reset_blocks_def timestamp_is_gated_def)
  let ?f = "default_format\<lparr>fm_codec := ascii ''L16'' @ 0 # replicate 28 0, fm_channels := 3\<rparr>"
  have "do { r \<leftarrow> audio_receiver_set_format True True ?f r;
      audio_stream_process_accepted_frame (rx_frame sample_rx) 1000 (replicate 1440 0) r } = None"
    by (rule wide_format_overflows_slot [OF ok buffer(1,2) _ _ _ _ _ _ buffer(3)]) (simp_all add: sample_rx_def)
  then show ?thesis using r by blast
qed

end
