(* ===== verification/Rtsp_Rsa.thy ===== *)
theory Rtsp_Rsa
  imports C_String Crypto
begin

section \<open>The RSA operations and the FairPlay replies (main/rtsp/rtsp_rsa.c, rtsp_fairplay.c)\<close>

text \<open>
  The answer to an Apple-Challenge and the decryption of the AES key of an announced stream. The
  libraries underneath are parameters: \<open>rl_base64 padded text room\<close> is \<open>sodium_base642bin\<close> without or
  with padding (whether it succeeded, and the bytes it has stored), \<open>rl_sign\<close> and \<open>rl_oaep\<close> are the
  private-key operations, \<open>rl_encode\<close> is \<open>sodium_bin2base64\<close>.
\<close>

record rsa_lib =
  rl_seed :: int
  rl_parse :: int
  rl_base64 :: "bool \<Rightarrow> bytes \<Rightarrow> nat \<Rightarrow> bool \<times> bytes"
  rl_malloc :: "nat \<Rightarrow> bytes option"
  rl_len :: nat
  rl_sign :: "bytes \<Rightarrow> bytes option"
  rl_oaep :: "bytes \<Rightarrow> nat \<Rightarrow> bytes option"
  rl_encode :: "bytes \<Rightarrow> nat \<Rightarrow> bytes option"

text \<open>What the libraries promise: they store no more than the room they are given.\<close>

definition rsa_lib_ok :: "rsa_lib \<Rightarrow> bool" where
  "rsa_lib_ok L \<longleftrightarrow> (\<forall>p t n. length (snd (rl_base64 L p t n)) \<le> n) \<and>
     (\<forall>n b. rl_malloc L n = Some b \<longrightarrow> length b = n) \<and>
     (\<forall>d s. rl_sign L d = Some s \<longrightarrow> length s = rl_len L) \<and>
     (\<forall>e n k. rl_oaep L e n = Some k \<longrightarrow> length k \<le> n) \<and>
     (\<forall>d n t. rl_encode L d n = Some t \<longrightarrow> length t < n \<and> 0 \<notin> set t)"

text \<open>The key is parsed once; the state is whether that has happened.\<close>

definition ensure_pk_initialized :: "rsa_lib \<Rightarrow> bool \<Rightarrow> int \<times> bool" where
  "ensure_pk_initialized L ready =
    (if ready then (0, True)
     else if rl_seed L \<noteq> 0 then (-1, False)
     else if rl_parse L \<noteq> 0 then (-1, False)
     else (0, True))"

text \<open>Decodes into \<open>out\<close>: whether a variant succeeded, the buffer, and the length.\<close>

definition b64_decode :: "rsa_lib \<Rightarrow> bytes \<Rightarrow> bytes \<Rightarrow> (bool \<times> bytes \<times> nat) mem" where
  "b64_decode L b64 out =
    (let (ok, bs) = rl_base64 L False b64 (length out) in do {
       out \<leftarrow> wr out 0 bs;
       if ok then Some (True, out, length bs)
       else let (ok, bs) = rl_base64 L True b64 (length out) in do {
         out \<leftarrow> wr out 0 bs;
         if ok then Some (True, out, length bs) else Some (False, out, 0)
       }
     })"

definition le_bytes32 :: "u32 \<Rightarrow> bytes" where
  "le_bytes32 w = map (\<lambda>i. ucast (drop_bit (8 * i) w)) [0..<4]"

text \<open>
  The response, or none on failure; the second component is the key state. \<open>scratch\<close> are the initial
  contents of the challenge buffer.
\<close>

definition challenge_data :: "bytes \<Rightarrow> nat \<Rightarrow> u32 \<Rightarrow> bytes \<Rightarrow> bytes mem" where
  "challenge_data challenge challenge_len ip_addr mac =
    (let challenge_len = (if challenge_len > 22 then 22 else challenge_len) in do {
       bs \<leftarrow> rd_block challenge 0 challenge_len;
       data \<leftarrow> wr (replicate 32 0) 0 bs;
       data \<leftarrow> wr data challenge_len (le_bytes32 ip_addr);
       wr data (challenge_len + 4) mac
     })"

definition rsa_apple_challenge_response ::
  "rsa_lib \<Rightarrow> bytes \<Rightarrow> u32 \<Rightarrow> bytes \<Rightarrow> nat \<Rightarrow> bytes \<Rightarrow> bool \<Rightarrow> (bytes option \<times> bool) mem" where
  "rsa_apple_challenge_response L challenge_b64 ip_addr mac out_b64_size scratch ready =
    (let (ret, ready) = ensure_pk_initialized L ready in
     if ret \<noteq> 0 then Some (None, ready)
     else do {
       (ok, challenge, challenge_len) \<leftarrow> b64_decode L challenge_b64 scratch;
       if \<not> ok then Some (None, ready)
       else do {
         data \<leftarrow> challenge_data challenge challenge_len ip_addr mac;
         case rl_malloc L (rl_len L) of
           None \<Rightarrow> Some (None, ready)
         | Some rsa_out \<Rightarrow>
             (case rl_sign L data of
                None \<Rightarrow> Some (None, ready)
              | Some signature \<Rightarrow> do {
                  rsa_out \<leftarrow> wr rsa_out 0 signature;
                  Some (rl_encode L rsa_out out_b64_size, ready)
                })
       }
     })"

text \<open>The decrypted key. The length of the decoded text is not used: the whole buffer is decrypted.\<close>

definition rsa_decrypt_aes_key :: "rsa_lib \<Rightarrow> bytes \<Rightarrow> nat \<Rightarrow> bytes \<Rightarrow> bool \<Rightarrow> (bytes option \<times> bool) mem" where
  "rsa_decrypt_aes_key L encrypted_b64 out_key_size scratch ready =
    (let (ret, ready) = ensure_pk_initialized L ready in
     if ret \<noteq> 0 then Some (None, ready)
     else do {
       (ok, encrypted, encrypted_len) \<leftarrow> b64_decode L encrypted_b64 scratch;
       if \<not> ok then Some (None, ready) else Some (rl_oaep L encrypted out_key_size, ready)
     })"

subsection \<open>Safety\<close>

lemma b64_decode_ok:
  assumes "rsa_lib_ok L"
  shows "ensures (\<lambda>(ok, out', n). length out' = length out \<and> n \<le> length out) (b64_decode L t out)"
proof -
  obtain ok bs where 1: "rl_base64 L False t (length out) = (ok, bs)" by force
  obtain ok' bs' where 2: "rl_base64 L True t (length out) = (ok', bs')" by force
  have len: "length bs \<le> length out" "length bs' \<le> length out"
    using assms 1 2 unfolding rsa_lib_ok_def by (metis sndI)+
  then show ?thesis using 1 2 by (simp add: b64_decode_def wr_put)
qed

lemma challenge_data_ok:
  assumes "n \<le> length c" "length mac = 6"
  shows "ensures (\<lambda>d. length d = 32) (challenge_data c n ip mac)"
  using assms by (simp add: challenge_data_def wr_put le_bytes32_def Let_def)

lemma challenge_response_ok:
  assumes L: "rsa_lib_ok L" and "length mac = 6" "length scratch = 32"
  shows "ensures (\<lambda>(r, ready). \<forall>t. r = Some t \<longrightarrow> length t < n \<and> 0 \<notin> set t)
    (rsa_apple_challenge_response L c ip mac n scratch ready)"
proof -
  obtain ok ch k where d: "b64_decode L c scratch = Some (ok, ch, k)" "length ch = 32" "k \<le> 32"
    using b64_decode_ok [OF L, of scratch c] assms(3) by (auto simp: ensures_def)
  obtain data where data: "challenge_data ch k ip mac = Some data"
    using challenge_data_ok [of k ch mac ip] d assms(2) by (auto simp: ensures_def)
  have "wr b 0 s = Some (put_at b 0 s)" if "rl_malloc L (rl_len L) = Some b" "rl_sign L data = Some s" for b s
    using L that by (simp add: rsa_lib_ok_def wr_put)
  then show ?thesis using L d data
    by (auto simp: rsa_apple_challenge_response_def ensures_def rsa_lib_ok_def split: prod.split option.split)
qed

lemma decrypt_aes_key_ok:
  assumes L: "rsa_lib_ok L"
  shows "ensures (\<lambda>(r, ready). \<forall>k. r = Some k \<longrightarrow> length k \<le> n) (rsa_decrypt_aes_key L t n scratch ready)"
proof -
  obtain ok e k where d: "b64_decode L t scratch = Some (ok, e, k)"
    using b64_decode_ok [OF L, of scratch t] by (auto simp: ensures_def)
  then show ?thesis using L
    by (auto simp: rsa_decrypt_aes_key_def rsa_lib_ok_def split: prod.split)
qed

subsection \<open>FairPlay\<close>

text \<open>
  The handshake is answered from tables: the first message by one of four fixed replies, chosen by its
  mode, the second by a header and the last twenty bytes of the message. \<open>malloc\<close> gives the block for a
  size, with any contents.
\<close>

definition FP_REPLY_SIZE :: nat where "FP_REPLY_SIZE = 142"
definition FP_HEADER_SIZE :: nat where "FP_HEADER_SIZE = 12"
definition FP_SETUP2_SUFFIX_LEN :: nat where "FP_SETUP2_SUFFIX_LEN = 20"

definition fp_reply1 :: bytes where
  "fp_reply1 = [
    0x46, 0x50, 0x4c, 0x59, 0x03, 0x01, 0x02, 0x00, 0x00, 0x00, 0x00, 0x82, 0x02, 0x00, 0x0f, 0x9f,
    0x3f, 0x9e, 0x0a, 0x25, 0x21, 0xdb, 0xdf, 0x31, 0x2a, 0xb2, 0xbf, 0xb2, 0x9e, 0x8d, 0x23, 0x2b,
    0x63, 0x76, 0xa8, 0xc8, 0x18, 0x70, 0x1d, 0x22, 0xae, 0x93, 0xd8, 0x27, 0x37, 0xfe, 0xaf, 0x9d,
    0xb4, 0xfd, 0xf4, 0x1c, 0x2d, 0xba, 0x9d, 0x1f, 0x49, 0xca, 0xaa, 0xbf, 0x65, 0x91, 0xac, 0x1f,
    0x7b, 0xc6, 0xf7, 0xe0, 0x66, 0x3d, 0x21, 0xaf, 0xe0, 0x15, 0x65, 0x95, 0x3e, 0xab, 0x81, 0xf4,
    0x18, 0xce, 0xed, 0x09, 0x5a, 0xdb, 0x7c, 0x3d, 0x0e, 0x25, 0x49, 0x09, 0xa7, 0x98, 0x31, 0xd4,
    0x9c, 0x39, 0x82, 0x97, 0x34, 0x34, 0xfa, 0xcb, 0x42, 0xc6, 0x3a, 0x1c, 0xd9, 0x11, 0xa6, 0xfe,
    0x94, 0x1a, 0x8a, 0x6d, 0x4a, 0x74, 0x3b, 0x46, 0xc3, 0xa7, 0x64, 0x9e, 0x44, 0xc7, 0x89, 0x55,
    0xe4, 0x9d, 0x81, 0x55, 0x00, 0x95, 0x49, 0xc4, 0xe2, 0xf7, 0xa3, 0xf6, 0xd5, 0xba]"

definition fp_reply2 :: bytes where
  "fp_reply2 = [
    0x46, 0x50, 0x4c, 0x59, 0x03, 0x01, 0x02, 0x00, 0x00, 0x00, 0x00, 0x82, 0x02, 0x01, 0xcf, 0x32,
    0xa2, 0x57, 0x14, 0xb2, 0x52, 0x4f, 0x8a, 0xa0, 0xad, 0x7a, 0xf1, 0x64, 0xe3, 0x7b, 0xcf, 0x44,
    0x24, 0xe2, 0x00, 0x04, 0x7e, 0xfc, 0x0a, 0xd6, 0x7a, 0xfc, 0xd9, 0x5d, 0xed, 0x1c, 0x27, 0x30,
    0xbb, 0x59, 0x1b, 0x96, 0x2e, 0xd6, 0x3a, 0x9c, 0x4d, 0xed, 0x88, 0xba, 0x8f, 0xc7, 0x8d, 0xe6,
    0x4d, 0x91, 0xcc, 0xfd, 0x5c, 0x7b, 0x56, 0xda, 0x88, 0xe3, 0x1f, 0x5c, 0xce, 0xaf, 0xc7, 0x43,
    0x19, 0x95, 0xa0, 0x16, 0x65, 0xa5, 0x4e, 0x19, 0x39, 0xd2, 0x5b, 0x94, 0xdb, 0x64, 0xb9, 0xe4,
    0x5d, 0x8d, 0x06, 0x3e, 0x1e, 0x6a, 0xf0, 0x7e, 0x96, 0x56, 0x16, 0x2b, 0x0e, 0xfa, 0x40, 0x42,
    0x75, 0xea, 0x5a, 0x44, 0xd9, 0x59, 0x1c, 0x72, 0x56, 0xb9, 0xfb, 0xe6, 0x51, 0x38, 0x98, 0xb8,
    0x02, 0x27, 0x72, 0x19, 0x88, 0x57, 0x16, 0x50, 0x94, 0x2a, 0xd9, 0x46, 0x68, 0x8a]"

definition fp_reply3 :: bytes where
  "fp_reply3 = [
    0x46, 0x50, 0x4c, 0x59, 0x03, 0x01, 0x02, 0x00, 0x00, 0x00, 0x00, 0x82, 0x02, 0x02, 0xc1, 0x69,
    0xa3, 0x52, 0xee, 0xed, 0x35, 0xb1, 0x8c, 0xdd, 0x9c, 0x58, 0xd6, 0x4f, 0x16, 0xc1, 0x51, 0x9a,
    0x89, 0xeb, 0x53, 0x17, 0xbd, 0x0d, 0x43, 0x36, 0xcd, 0x68, 0xf6, 0x38, 0xff, 0x9d, 0x01, 0x6a,
    0x5b, 0x52, 0xb7, 0xfa, 0x92, 0x16, 0xb2, 0xb6, 0x54, 0x82, 0xc7, 0x84, 0x44, 0x11, 0x81, 0x21,
    0xa2, 0xc7, 0xfe, 0xd8, 0x3d, 0xb7, 0x11, 0x9e, 0x91, 0x82, 0xaa, 0xd7, 0xd1, 0x8c, 0x70, 0x63,
    0xe2, 0xa4, 0x57, 0x55, 0x59, 0x10, 0xaf, 0x9e, 0x0e, 0xfc, 0x76, 0x34, 0x7d, 0x16, 0x40, 0x43,
    0x80, 0x7f, 0x58, 0x1e, 0xe4, 0xfb, 0xe4, 0x2c, 0xa9, 0xde, 0xdc, 0x1b, 0x5e, 0xb2, 0xa3, 0xaa,
    0x3d, 0x2e, 0xcd, 0x59, 0xe7, 0xee, 0xe7, 0x0b, 0x36, 0x29, 0xf2, 0x2a, 0xfd, 0x16, 0x1d, 0x87,
    0x73, 0x53, 0xdd, 0xb9, 0x9a, 0xdc, 0x8e, 0x07, 0x00, 0x6e, 0x56, 0xf8, 0x50, 0xce]"

definition fp_reply4 :: bytes where
  "fp_reply4 = [
    0x46, 0x50, 0x4c, 0x59, 0x03, 0x01, 0x02, 0x00, 0x00, 0x00, 0x00, 0x82, 0x02, 0x03, 0x90, 0x01,
    0xe1, 0x72, 0x7e, 0x0f, 0x57, 0xf9, 0xf5, 0x88, 0x0d, 0xb1, 0x04, 0xa6, 0x25, 0x7a, 0x23, 0xf5,
    0xcf, 0xff, 0x1a, 0xbb, 0xe1, 0xe9, 0x30, 0x45, 0x25, 0x1a, 0xfb, 0x97, 0xeb, 0x9f, 0xc0, 0x01,
    0x1e, 0xbe, 0x0f, 0x3a, 0x81, 0xdf, 0x5b, 0x69, 0x1d, 0x76, 0xac, 0xb2, 0xf7, 0xa5, 0xc7, 0x08,
    0xe3, 0xd3, 0x28, 0xf5, 0x6b, 0xb3, 0x9d, 0xbd, 0xe5, 0xf2, 0x9c, 0x8a, 0x17, 0xf4, 0x81, 0x48,
    0x7e, 0x3a, 0xe8, 0x63, 0xc6, 0x78, 0x32, 0x54, 0x22, 0xe6, 0xf7, 0x8e, 0x16, 0x6d, 0x18, 0xaa,
    0x7f, 0xd6, 0x36, 0x25, 0x8b, 0xce, 0x28, 0x72, 0x6f, 0x66, 0x1f, 0x73, 0x88, 0x93, 0xce, 0x44,
    0x31, 0x1e, 0x4b, 0xe6, 0xc0, 0x53, 0x51, 0x93, 0xe5, 0xef, 0x72, 0xe8, 0x68, 0x62, 0x33, 0x72,
    0x9c, 0x22, 0x7d, 0x82, 0x0c, 0x99, 0x94, 0x45, 0xd8, 0x92, 0x46, 0xc8, 0xc3, 0x59]"

definition fp_header :: bytes where
  "fp_header = [
    0x46, 0x50, 0x4c, 0x59, 0x03, 0x01, 0x04, 0x00, 0x00, 0x00, 0x00, 0x14]"

definition fp_reply :: "u8 \<Rightarrow> bytes" where
  "fp_reply mode = (if mode = 0 then fp_reply1 else if mode = 1 then fp_reply2 else if mode = 2 then fp_reply3
     else if mode = 3 then fp_reply4 else fp_reply1)"

text \<open>The response, or none when the message is refused or memory is short.\<close>

definition rtsp_fairplay_handle :: "(nat \<Rightarrow> bytes option) \<Rightarrow> bytes \<Rightarrow> nat \<Rightarrow> bytes option mem" where
  "rtsp_fairplay_handle malloc body body_len =
    (if body_len < 16 then Some None
     else do {
       version \<leftarrow> rd body 4;
       type \<leftarrow> rd body 5;
       seq \<leftarrow> rd body 6;
       mode \<leftarrow> rd body 14;
       if version \<noteq> 3 \<or> type \<noteq> 1 then Some None
       else if seq = 1 then
         (case malloc FP_REPLY_SIZE of
            None \<Rightarrow> Some None
          | Some response \<Rightarrow> do {
              reply \<leftarrow> rd_block (fp_reply mode) 0 FP_REPLY_SIZE;
              response \<leftarrow> wr response 0 reply;
              Some (Some response)
            })
       else if seq = 3 then
         (case malloc (FP_HEADER_SIZE + FP_SETUP2_SUFFIX_LEN) of
            None \<Rightarrow> Some None
          | Some response \<Rightarrow> do {
              head \<leftarrow> rd_block fp_header 0 FP_HEADER_SIZE;
              response \<leftarrow> wr response 0 head;
              suffix \<leftarrow> (if body_len \<ge> FP_SETUP2_SUFFIX_LEN
                then rd_block body (body_len - FP_SETUP2_SUFFIX_LEN) FP_SETUP2_SUFFIX_LEN
                else Some (replicate FP_SETUP2_SUFFIX_LEN 0));
              response \<leftarrow> wr response FP_HEADER_SIZE suffix;
              Some (Some response)
            })
       else Some None
     })"

lemmas fp_sizes = FP_REPLY_SIZE_def FP_HEADER_SIZE_def FP_SETUP2_SUFFIX_LEN_def

lemma fp_reply_length: "length (fp_reply mode) = FP_REPLY_SIZE"
  by (simp add: fp_reply_def fp_sizes fp_reply1_def fp_reply2_def fp_reply3_def fp_reply4_def)

lemma fp_header_length: "length fp_header = FP_HEADER_SIZE"
  by (simp add: fp_header_def fp_sizes)

text \<open>Every byte sent is one of the tables or of the message: nothing of the allocated block is left.\<close>

lemma fairplay_response:
  assumes "body_len \<le> length body" "\<And>n b. malloc n = Some b \<Longrightarrow> length b = n"
  shows "ensures (\<lambda>r. \<forall>t. r = Some t \<longrightarrow> t \<in> {fp_reply (body ! 14),
    fp_header @ (if body_len \<ge> 20 then take 20 (drop (body_len - 20) body) else replicate 20 0)})
    (rtsp_fairplay_handle malloc body body_len)"
proof -
  have store: "wr b 0 (fp_reply m) = Some (fp_reply m)" if "malloc FP_REPLY_SIZE = Some b" for b m
    using assms(2) [OF that] fp_reply_length [of m] by (simp add: wr_def)
  have pair: "wr b 0 fp_header \<bind> (\<lambda>r. wr r FP_HEADER_SIZE t \<bind> f) = f (fp_header @ t)"
    if "malloc (FP_HEADER_SIZE + FP_SETUP2_SUFFIX_LEN) = Some b" "length t = FP_SETUP2_SUFFIX_LEN" for b t f
    using assms(2) [OF that(1)] that(2) fp_header_length by (simp add: wr_def)
  have block: "rd_block (fp_reply m) 0 FP_REPLY_SIZE = Some (fp_reply m)" "rd_block fp_header 0 FP_HEADER_SIZE = Some fp_header" for m
    using fp_reply_length [of m] fp_header_length by simp_all
  show ?thesis
  proof (cases "body_len < 16")
    case True
    then show ?thesis by (simp add: rtsp_fairplay_handle_def)
  next
    case False
    then show ?thesis using assms(1)
      by (auto simp: rtsp_fairplay_handle_def block store pair FP_SETUP2_SUFFIX_LEN_def
          bind_assoc split: option.split)
  qed
qed

end
