(* ===== verification/C_Scan.thy ===== *)
theory C_Scan
  imports C_String Complex_Main
begin

section \<open>Reading numbers from text (sscanf, strtof) and floating-point values\<close>

text \<open>
  The numeric conversions of \<open>sscanf\<close> the code uses: white space is skipped, a sign is optional, at
  least one digit is needed, and a value out of range is clamped, as the C library of the platform does.
\<close>

definition scan_digits :: "bytes \<Rightarrow> ((bool \<times> nat) \<times> bytes) option" where
  "scan_digits s =
    (let s = dropWhile c_space s;
         (neg, t) = (case s of [] \<Rightarrow> (False, []) | c # t \<Rightarrow> if c = 45 then (True, t) else if c = 43 then (False, t) else (False, c # t));
         ds = takeWhile c_digit t in
     if ds = [] then None else Some ((neg, digits_val ds), drop (length ds) t))"

definition scan_int :: "bytes \<Rightarrow> (int \<times> bytes) option" where
  "scan_int s = map_option (\<lambda>((neg, n), t).
     (max (- (2 ^ 31)) (min (2 ^ 31 - 1) (if neg then - int n else int n)), t)) (scan_digits s)"

definition scan_uint :: "bytes \<Rightarrow> (u32 \<times> bytes) option" where
  "scan_uint s = map_option (\<lambda>((neg, n), t).
     (if n \<ge> 2 ^ 32 then -1 else if neg then - of_nat n else of_nat n, t)) (scan_digits s)"

definition scan_u64 :: "bytes \<Rightarrow> (u64 \<times> bytes) option" where
  "scan_u64 s = map_option (\<lambda>((neg, n), t).
     (if n \<ge> 2 ^ 64 then -1 else if neg then - of_nat n else of_nat n, t)) (scan_digits s)"

text \<open>A literal character of a format.\<close>

definition scan_char :: "u8 \<Rightarrow> bytes \<Rightarrow> bytes option" where
  "scan_char c s = (case s of [] \<Rightarrow> None | x # t \<Rightarrow> if x = c then Some t else None)"

text \<open>A list of unsigned numbers separated by blanks: those read before the first failure.\<close>

fun scan_uints :: "nat \<Rightarrow> bytes \<Rightarrow> u32 list" where
  "scan_uints 0 s = []"
| "scan_uints (Suc n) s = (case scan_uint s of None \<Rightarrow> [] | Some (v, t) \<Rightarrow> v # scan_uints n t)"

subsection \<open>Single-precision values\<close>

text \<open>
  A \<open>float\<close> is not a number, an infinity, or a sign and a magnitude. Arithmetic is that of the real
  numbers followed by the rounding \<open>fl\<close> of the platform. What is used of \<open>fl\<close> is the documented
  behaviour of IEEE 754 single precision: it is monotone, odd, and exact on small integers and on
  powers of two.
\<close>

datatype c_float = NaN | Infinite bool | Num bool real

definition fl_ok :: "(real \<Rightarrow> real) \<Rightarrow> bool" where
  "fl_ok fl \<longleftrightarrow> (\<forall>x y. x \<le> y \<longrightarrow> fl x \<le> fl y) \<and> (\<forall>x. fl (- x) = - fl x) \<and>
     (\<forall>i. \<bar>i\<bar> \<le> 2 ^ 24 \<longrightarrow> fl (of_int i) = of_int i) \<and> (\<forall>k \<le> 127. fl (2 ^ k) = 2 ^ k)"

lemma fl_ok_id: "fl_ok (\<lambda>x. x)"
  by (simp add: fl_ok_def)

lemma fl_okD:
  assumes "fl_ok fl"
  shows "x \<le> y \<Longrightarrow> fl x \<le> fl y" "fl (- x) = - fl x" "\<bar>i\<bar> \<le> 2 ^ 24 \<Longrightarrow> fl (of_int i) = of_int i"
    "k \<le> 127 \<Longrightarrow> fl (2 ^ k) = 2 ^ k"
  using assms by (simp_all add: fl_ok_def)

definition float_value :: "bool \<Rightarrow> real \<Rightarrow> real" where
  "float_value neg x = (if neg then - x else x)"

text \<open>Rounding with overflow to infinity.\<close>

definition to_float :: "(real \<Rightarrow> real) \<Rightarrow> bool \<Rightarrow> real \<Rightarrow> c_float" where
  "to_float fl neg x = (if fl x \<ge> 2 ^ 128 then Infinite neg else Num neg (fl x))"

text \<open>
  \<open>strtof\<close>: an optional sign, then \<open>nan\<close>, \<open>inf\<close>, or a decimal number with an optional fraction and
  exponent; without a number the result is zero. Hexadecimal notation is not covered.
\<close>

definition exponent_part :: "bytes \<Rightarrow> int" where
  "exponent_part s =
    (case s of
       [] \<Rightarrow> 0
     | c # t \<Rightarrow>
         if c = 101 \<or> c = 69 then
           let (neg, t) = (case t of [] \<Rightarrow> (False, []) | c # u \<Rightarrow> if c = 45 then (True, u) else if c = 43 then (False, u) else (False, c # u));
               n = int (digits_val (takeWhile c_digit t)) in
           if neg then - n else n
         else 0)"

definition decimal_value :: "bytes \<Rightarrow> real" where
  "decimal_value s =
    (let i = takeWhile c_digit s;
         t = drop (length i) s;
         f = (case t of c # u \<Rightarrow> if c = 46 then takeWhile c_digit u else [] | [] \<Rightarrow> []);
         t = (case t of c # u \<Rightarrow> if c = 46 then drop (length f) u else t | [] \<Rightarrow> []) in
     if i @ f = [] then 0
     else real (digits_val (i @ f)) * 10 powi (exponent_part t - int (length f)))"

definition strtof :: "(real \<Rightarrow> real) \<Rightarrow> bytes \<Rightarrow> c_float" where
  "strtof fl s =
    (let s = dropWhile c_space s;
         (neg, t) = (case s of [] \<Rightarrow> (False, []) | c # t \<Rightarrow> if c = 45 then (True, t) else if c = 43 then (False, t) else (False, c # t));
         low = map to_lower t in
     if take 3 low = ascii ''nan'' then NaN
     else if take 3 low = ascii ''inf'' then Infinite neg
     else to_float fl neg (decimal_value t))"

subsection \<open>Reading back printed numbers\<close>

definition stops :: "bytes \<Rightarrow> bool" where
  "stops t \<longleftrightarrow> t = [] \<or> \<not> c_digit (hd t)"

lemma takeWhile_stops: "\<forall>c \<in> set ds. c_digit c \<Longrightarrow> stops t \<Longrightarrow> takeWhile c_digit (ds @ t) = ds"
  by (cases t) (simp_all add: stops_def)

end
