(* ===== verification/Rtsp_Metadata.thy ===== *)
theory Rtsp_Metadata
  imports Rtsp_Message C_Scan
begin

section \<open>Track metadata and its listeners (main/rtsp/rtsp_events.c, rtsp_handlers.c)\<close>

text \<open>
  The metadata of a track, the parsers that fill it in (DMAP items and the progress line), and the
  table of listeners that are told about it. A text of the metadata is a character array of 64 bytes.
\<close>

definition METADATA_STRING_MAX :: nat where "METADATA_STRING_MAX = 64"
definition DMAP_MAX_NESTING :: nat where "DMAP_MAX_NESTING = 8"

record rtsp_metadata =
  md_title :: bytes
  md_artist :: bytes
  md_album :: bytes
  md_genre :: bytes
  md_duration_secs :: u32
  md_position_secs :: u32
  md_has_artwork :: bool

definition metadata_zero :: rtsp_metadata where
  "metadata_zero = \<lparr>md_title = replicate 64 0, md_artist = replicate 64 0, md_album = replicate 64 0,
     md_genre = replicate 64 0, md_duration_secs = 0, md_position_secs = 0, md_has_artwork = False\<rparr>"

datatype rtsp_event = RTSP_EVENT_CLIENT_CONNECTED | RTSP_EVENT_PLAYING | RTSP_EVENT_PAUSED |
  RTSP_EVENT_DISCONNECTED | RTSP_EVENT_METADATA

subsection \<open>Listeners\<close>

text \<open>
  A listener is a callback, known by its address, and its user data; the table keeps at most four of
  them, each callback once, in the order of registration. An event goes to all of them in this order.
\<close>

definition MAX_LISTENERS :: nat where "MAX_LISTENERS = 4"

definition rtsp_events_register :: "nat option \<Rightarrow> 'u \<Rightarrow> (nat \<times> 'u) list \<Rightarrow> int \<times> (nat \<times> 'u) list" where
  "rtsp_events_register callback user_data listeners =
    (case callback of
       None \<Rightarrow> (-1, listeners)
     | Some cb \<Rightarrow>
         if length listeners \<ge> MAX_LISTENERS then (-1, listeners)
         else if cb \<in> fst ` set listeners then (0, listeners)
         else (0, listeners @ [(cb, user_data)]))"

fun rtsp_events_unregister :: "nat option \<Rightarrow> (nat \<times> 'u) list \<Rightarrow> (nat \<times> 'u) list" where
  "rtsp_events_unregister callback [] = []"
| "rtsp_events_unregister callback (l # ls) =
    (if Some (fst l) = callback then ls else l # rtsp_events_unregister callback ls)"

definition rtsp_events_emit ::
  "rtsp_event \<Rightarrow> rtsp_metadata option \<Rightarrow> (nat \<times> 'u) list \<Rightarrow> (nat \<times> 'u \<times> rtsp_event \<times> rtsp_metadata option) list" where
  "rtsp_events_emit event data listeners = map (\<lambda>(cb, user_data). (cb, user_data, event, data)) listeners"

definition listeners_ok :: "(nat \<times> 'u) list \<Rightarrow> bool" where
  "listeners_ok ls \<longleftrightarrow> length ls \<le> MAX_LISTENERS \<and> distinct (map fst ls)"

lemma unregister_subset: "set (rtsp_events_unregister cb ls) \<subseteq> set ls"
  by (induction ls) auto

lemma unregister_length: "length (rtsp_events_unregister cb ls) \<le> length ls"
  by (induction ls) auto

lemma unregister_distinct: "distinct (map fst ls) \<Longrightarrow> distinct (map fst (rtsp_events_unregister cb ls))"
  using unregister_subset by (induction ls) fastforce+

lemma unregister_gone: "distinct (map fst ls) \<Longrightarrow> cb \<notin> fst ` set (rtsp_events_unregister (Some cb) ls)"
  by (induction ls) (auto simp: image_iff)

lemma listeners_ok_ops:
  assumes "listeners_ok ls"
  shows "listeners_ok (snd (rtsp_events_register cb u ls))" "listeners_ok (rtsp_events_unregister cb ls)"
  using assms unregister_length [of cb ls] unregister_distinct [of ls cb]
  by (auto simp: listeners_ok_def rtsp_events_register_def image_iff split: option.split)

subsection \<open>Times\<close>

text \<open>Minutes and seconds, formatted into a buffer.\<close>

definition mmss_text :: "u32 \<Rightarrow> bytes" where
  "mmss_text seconds = (let mins = seconds div 60; secs = seconds mod 60 in
     dec_nat (unat mins) @ [58] @ (if unat secs < 10 then [48] else []) @ dec_nat (unat secs))"

definition format_time_mmss :: "u32 \<Rightarrow> bytes \<Rightarrow> bytes mem" where
  "format_time_mmss seconds out = do { (_, out) \<leftarrow> snprintf_at (mmss_text seconds) out 0 (length out); Some out }"

subsection \<open>DMAP items\<close>

text \<open>Copies the text of an item, cut to the size of the field.\<close>

definition dmap_text :: "bytes \<Rightarrow> nat \<Rightarrow> nat \<Rightarrow> bytes \<Rightarrow> bytes mem" where
  "dmap_text data pos item_len field =
    (let copy_len = (if item_len < METADATA_STRING_MAX - 1 then item_len else METADATA_STRING_MAX - 1) in do {
       bs \<leftarrow> rd_block data pos copy_len;
       field \<leftarrow> wr field 0 bs;
       wr field copy_len [0]
     })"

definition dmap_container :: "bytes \<Rightarrow> bool" where
  "dmap_container tag \<longleftrightarrow> tag = ascii ''mlit'' \<or> tag = ascii ''cmst'' \<or> tag = ascii ''mdst''"

text \<open>
  \<open>parse_dmap_metadata\<close>, entered with \<open>pos = 0\<close>. It recurses into containers and loops over the items,
  with the additions of \<open>size_t\<close> as they are; that it ends on every input is a theorem.
\<close>

partial_function (option) parse_dmap_metadata ::
  "bytes \<Rightarrow> nat \<Rightarrow> nat \<Rightarrow> nat \<Rightarrow> rtsp_metadata \<Rightarrow> rtsp_metadata option" where
  "parse_dmap_metadata data len depth pos meta =
    (if depth > DMAP_MAX_NESTING then Some meta
     else if sz_add pos 8 \<le> len then do {
       tag \<leftarrow> rd_block data pos 4;
       size_bytes \<leftarrow> rd_block data (sz_add pos 4) 4;
       let item_len = be_val size_bytes;
       let pos = sz_add pos 8;
       if item_len > sz_sub len pos then Some meta
       else do {
         meta \<leftarrow> (if tag = ascii ''minm'' \<and> item_len > 0
           then do { t \<leftarrow> dmap_text data pos item_len (md_title meta); Some (meta\<lparr>md_title := t\<rparr>) }
           else if tag = ascii ''asar'' \<and> item_len > 0
           then do { t \<leftarrow> dmap_text data pos item_len (md_artist meta); Some (meta\<lparr>md_artist := t\<rparr>) }
           else if tag = ascii ''asal'' \<and> item_len > 0
           then do { t \<leftarrow> dmap_text data pos item_len (md_album meta); Some (meta\<lparr>md_album := t\<rparr>) }
           else if tag = ascii ''asgn'' \<and> item_len > 0
           then do { t \<leftarrow> dmap_text data pos item_len (md_genre meta); Some (meta\<lparr>md_genre := t\<rparr>) }
           else if dmap_container tag then parse_dmap_metadata (drop pos data) item_len (depth + 1) 0 meta
           else Some meta);
         parse_dmap_metadata data len depth (sz_add pos item_len) meta
       }
     }
     else Some meta)"

text \<open>What holds of the fields at all times.\<close>

definition field_ok :: "bytes \<Rightarrow> bool" where
  "field_ok t \<longleftrightarrow> length t = METADATA_STRING_MAX \<and> 0 \<in> set t"

definition metadata_ok :: "rtsp_metadata \<Rightarrow> bool" where
  "metadata_ok m \<longleftrightarrow> field_ok (md_title m) \<and> field_ok (md_artist m) \<and> field_ok (md_album m) \<and> field_ok (md_genre m)"

lemma metadata_zero_ok: "metadata_ok metadata_zero"
  by (simp add: metadata_ok_def metadata_zero_def field_ok_def METADATA_STRING_MAX_def)

lemma metadata_ok_times [simp]:
  "metadata_ok (m\<lparr>md_position_secs := p\<rparr>) = metadata_ok m"
  "metadata_ok (m\<lparr>md_duration_secs := p\<rparr>) = metadata_ok m"
  "metadata_ok (m\<lparr>md_has_artwork := a\<rparr>) = metadata_ok m"
  by (simp_all add: metadata_ok_def)

lemma cstr_take_nul: "cstr (take n c @ 0 # r) = cstr (take n c)"
  by (induction c arbitrary: n) (auto simp: cstr_def take_Cons split: nat.split)

lemma dmap_text_ok:
  assumes "pos + item_len \<le> length data" "field_ok f"
  obtains f' where "dmap_text data pos item_len f = Some f'" "field_ok f'"
    "cstr f' = cstr (take (METADATA_STRING_MAX - 1) (take item_len (drop pos data)))"
proof -
  let ?n = "min item_len (METADATA_STRING_MAX - 1)"
  let ?bs = "take ?n (drop pos data)"
  have len: "length f = METADATA_STRING_MAX" "length ?bs = ?n" "?n < METADATA_STRING_MAX"
    using assms by (auto simp: field_ok_def METADATA_STRING_MAX_def)
  have n: "(if item_len < METADATA_STRING_MAX - 1 then item_len else METADATA_STRING_MAX - 1) = ?n" by simp
  let ?f = "put_at f 0 (?bs @ [0])"
  have "dmap_text data pos item_len f = Some ?f"
    unfolding dmap_text_def n Let_def using assms len by (simp add: wr_put put_at_put_at)
  moreover have "?f = ?bs @ 0 # drop (Suc ?n) f" using len by (simp add: put_at_def)
  then have "field_ok ?f" "cstr ?f = cstr ?bs"
    using len by (auto simp: field_ok_def cstr_take_nul)
  moreover have "?bs = take (METADATA_STRING_MAX - 1) (take item_len (drop pos data))"
    by (simp add: min.commute)
  ultimately show thesis using that by simp
qed

subsection \<open>The parser ends\<close>

text \<open>One item is parsed, whatever surrounds it.\<close>

definition dmap_step :: "bytes \<Rightarrow> nat \<Rightarrow> nat \<Rightarrow> nat \<Rightarrow> bytes \<Rightarrow> rtsp_metadata \<Rightarrow> rtsp_metadata mem" where
  "dmap_step data pos item_len depth tag meta =
    (if tag = ascii ''minm'' \<and> item_len > 0
     then do { t \<leftarrow> dmap_text data pos item_len (md_title meta); Some (meta\<lparr>md_title := t\<rparr>) }
     else if tag = ascii ''asar'' \<and> item_len > 0
     then do { t \<leftarrow> dmap_text data pos item_len (md_artist meta); Some (meta\<lparr>md_artist := t\<rparr>) }
     else if tag = ascii ''asal'' \<and> item_len > 0
     then do { t \<leftarrow> dmap_text data pos item_len (md_album meta); Some (meta\<lparr>md_album := t\<rparr>) }
     else if tag = ascii ''asgn'' \<and> item_len > 0
     then do { t \<leftarrow> dmap_text data pos item_len (md_genre meta); Some (meta\<lparr>md_genre := t\<rparr>) }
     else if dmap_container tag then parse_dmap_metadata (drop pos data) item_len (depth + 1) 0 meta
     else Some meta)"

lemma parse_dmap_unfold:
  assumes "depth \<le> DMAP_MAX_NESTING" "pos + 8 \<le> len" "len \<le> length data" "len < 2 ^ 32 - 8"
    and "tag = take 4 (drop pos data)" "n = be_val (take 4 (drop (pos + 4) data))"
  shows "parse_dmap_metadata data len depth pos m =
    (if n > len - (pos + 8) then Some m
     else dmap_step data (pos + 8) n depth tag m \<bind> parse_dmap_metadata data len depth (sz_add (pos + 8) n))"
proof -
  have "\<not> DMAP_MAX_NESTING < depth" "sz_add pos 8 = pos + 8" "sz_add pos 4 = pos + 4" "sz_sub len (pos + 8) = len - (pos + 8)"
    "rd_block data pos 4 = Some tag" "rd_block data (pos + 4) 4 = Some (take 4 (drop (pos + 4) data))"
    using assms by simp_all
  then show ?thesis
    unfolding parse_dmap_metadata.simps [of data len depth pos m] dmap_step_def
    by (simp only: if_False if_True bind.bind_lunit Let_def assms(2,6))
qed

lemma field_update_ok:
  assumes "pos + item_len \<le> length data" "field_ok f" "\<And>f'. field_ok f' \<Longrightarrow> metadata_ok (g f')"
  shows "ensures metadata_ok (do { t \<leftarrow> dmap_text data pos item_len f; Some (g t) })"
  using assms by (metis dmap_text_ok bind.bind_lunit ensures_Some)

lemma parse_dmap_ok:
  "pos \<le> len \<Longrightarrow> len \<le> length data \<Longrightarrow> len < 2 ^ 32 - 8 \<Longrightarrow> metadata_ok m \<Longrightarrow>
    ensures metadata_ok (parse_dmap_metadata data len depth pos m)"
proof (induction "len - pos" arbitrary: data len depth pos m rule: less_induct)
  case less
  show ?case
  proof (cases "depth > DMAP_MAX_NESTING \<or> \<not> pos + 8 \<le> len")
    case True
    then show ?thesis using less.prems by (subst parse_dmap_metadata.simps) auto
  next
    case False
    then have go: "\<not> depth > DMAP_MAX_NESTING" "pos + 8 \<le> len" by auto
    let ?tag = "take 4 (drop pos data)" and ?n = "be_val (take 4 (drop (pos + 4) data))"
    have u: "parse_dmap_metadata data len depth pos m =
        (if ?n > len - (pos + 8) then Some m
         else dmap_step data (pos + 8) ?n depth ?tag m \<bind> parse_dmap_metadata data len depth (sz_add (pos + 8) ?n))"
      by (rule parse_dmap_unfold) (use go less.prems in simp_all)
    show ?thesis
    proof (cases "?n > len - (pos + 8)")
      case True
      then show ?thesis using u less.prems by simp
    next
      case fits: False
      have room: "pos + 8 + ?n \<le> len" "pos + 8 + ?n \<le> length data" using fits go less.prems by linarith+
      have fields: "field_ok (md_title m)" "field_ok (md_artist m)" "field_ok (md_album m)" "field_ok (md_genre m)"
        using less.prems(4) by (simp_all add: metadata_ok_def)
      have inner: "ensures metadata_ok (parse_dmap_metadata (drop (pos + 8) data) ?n (depth + 1) 0 m)"
        by (rule less.hyps) (use room less.prems go in simp_all)
      have item: "ensures metadata_ok (dmap_step data (pos + 8) ?n depth ?tag m)"
        unfolding dmap_step_def using less.prems(4)
        by (intro ensures_if field_update_ok inner) (simp_all add: room fields metadata_ok_def)
      have "ensures metadata_ok (dmap_step data (pos + 8) ?n depth ?tag m \<bind> parse_dmap_metadata data len depth (pos + 8 + ?n))"
        by (rule ensures_bind [OF item], rule less.hyps) (use room less.prems go in auto)
      then show ?thesis using u fits room less.prems by simp
    qed
  qed
qed

text \<open>
  C33. Whatever bytes a client sends as DMAP data, the recursive parser returns: it neither loops for
  ever nor reads outside the data, although item lengths are taken from it and containers may claim
  any size, and the texts it fills in are terminated within their 64 bytes.
\<close>

theorem dmap_parser_returns:
  assumes "len \<le> length data" "len < 2 ^ 32 - 8" "metadata_ok m"
  shows "\<exists>m'. parse_dmap_metadata data len 0 0 m = Some m' \<and> metadata_ok m'"
  using parse_dmap_ok [OF le0 assms] by (simp add: ensures_def)

text \<open>A container whose length field claims all 32 bits, inside a container.\<close>

definition hostile_dmap :: bytes where
  "hostile_dmap = ascii ''mlit'' @ [0, 0, 0, 8] @ ascii ''mlit'' @ [255, 255, 255, 255]"

lemma dmap_parser_returns_witness:
  "\<exists>m'. parse_dmap_metadata hostile_dmap 16 0 0 metadata_zero = Some m' \<and> metadata_ok m'"
  by (rule dmap_parser_returns) (simp_all add: hostile_dmap_def metadata_zero_ok)

subsection \<open>The items of a message\<close>

text \<open>DMAP data as a forest, its encoding, and the track it describes.\<close>

datatype dmap = Dmap_text bytes bytes | Dmap_list bytes "dmap list"

fun dmap_enc :: "dmap \<Rightarrow> bytes" where
  "dmap_enc (Dmap_text tag c) = tag @ be_bytes 4 (of_nat (length c)) @ c"
| "dmap_enc (Dmap_list tag ds) = (let c = concat (map dmap_enc ds) in tag @ be_bytes 4 (of_nat (length c)) @ c)"

fun dmap_wf :: "dmap \<Rightarrow> bool" where
  "dmap_wf (Dmap_text tag c) \<longleftrightarrow> length tag = 4 \<and> \<not> dmap_container tag"
| "dmap_wf (Dmap_list tag ds) \<longleftrightarrow> dmap_container tag \<and> (\<forall>d \<in> set ds. dmap_wf d)"

record track =
  tr_title :: bytes
  tr_artist :: bytes
  tr_album :: bytes
  tr_genre :: bytes

definition track_of :: "rtsp_metadata \<Rightarrow> track" where
  "track_of m = \<lparr>tr_title = cstr (md_title m), tr_artist = cstr (md_artist m), tr_album = cstr (md_album m),
     tr_genre = cstr (md_genre m)\<rparr>"

definition shown :: "bytes \<Rightarrow> bytes" where
  "shown c = cstr (take 63 c)"

definition dmap_item :: "bytes \<Rightarrow> bytes \<Rightarrow> track \<Rightarrow> track" where
  "dmap_item tag c t =
    (if c = [] then t
     else if tag = ascii ''minm'' then t\<lparr>tr_title := shown c\<rparr>
     else if tag = ascii ''asar'' then t\<lparr>tr_artist := shown c\<rparr>
     else if tag = ascii ''asal'' then t\<lparr>tr_album := shown c\<rparr>
     else if tag = ascii ''asgn'' then t\<lparr>tr_genre := shown c\<rparr>
     else t)"

text \<open>Items are taken in document order; lists nested deeper than the limit are passed over.\<close>

fun dmap_track :: "nat \<Rightarrow> dmap \<Rightarrow> track \<Rightarrow> track" where
  "dmap_track depth (Dmap_text tag c) t = dmap_item tag c t"
| "dmap_track depth (Dmap_list tag ds) t = (if depth \<ge> DMAP_MAX_NESTING then t else fold (dmap_track (depth + 1)) ds t)"

lemma dmap_iteration:
  assumes "drop pos data = tag @ be_bytes 4 (of_nat n) @ c @ rest" "length tag = 4" "n = length c"
    and "pos + 8 + n \<le> len" "len \<le> length data" "len < 2 ^ 32 - 8" "depth \<le> DMAP_MAX_NESTING"
  shows "parse_dmap_metadata data len depth pos m =
    dmap_step data (pos + 8) n depth tag m \<bind> parse_dmap_metadata data len depth (pos + 8 + n)"
proof -
  have n: "n = be_val (take 4 (drop (pos + 4) data))"
    unfolding drop_drop [symmetric, of 4] add.commute [of pos] assms(1)
    using assms(2,4,6) by (simp add: be_val_be_bytes unat_of_nat_id)
  have tag: "tag = take 4 (drop pos data)" unfolding assms(1) using assms(2) by simp
  have pos: "pos + 8 \<le> len" using assms(4) by simp
  have "parse_dmap_metadata data len depth pos m =
    (if n > len - (pos + 8) then Some m
     else dmap_step data (pos + 8) n depth tag m \<bind> parse_dmap_metadata data len depth (sz_add (pos + 8) n))"
    by (rule parse_dmap_unfold [OF assms(7) pos assms(5,6) tag n])
  moreover have "\<not> n > len - (pos + 8)" "sz_add (pos + 8) n = pos + 8 + n" using assms(4-6) by auto
  ultimately show ?thesis by simp
qed

lemma dmap_step_text:
  assumes "pos + length c \<le> length data" "take (length c) (drop pos data) = c" "metadata_ok m" "\<not> dmap_container tag"
  obtains m' where "dmap_step data pos (length c) depth tag m = Some m'" "metadata_ok m'"
    "track_of m' = dmap_item tag c (track_of m)"
proof -
  have f: "field_ok (md_title m)" "field_ok (md_artist m)" "field_ok (md_album m)" "field_ok (md_genre m)"
    using assms(3) by (simp_all add: metadata_ok_def)
  have copied: "\<exists>f'. dmap_text data pos (length c) f = Some f' \<and> field_ok f' \<and> cstr f' = shown c" if "field_ok f" for f
    using dmap_text_ok [OF assms(1) that] assms(2) by (auto simp: shown_def METADATA_STRING_MAX_def)
  have "\<exists>m'. dmap_step data pos (length c) depth tag m = Some m' \<and> metadata_ok m' \<and>
      track_of m' = dmap_item tag c (track_of m)"
    using copied [OF f(1)] copied [OF f(2)] copied [OF f(3)] copied [OF f(4)] assms(3,4)
    by (cases "c = []") (auto simp: dmap_step_def dmap_item_def metadata_ok_def track_of_def f)
  then show thesis using that by blast
qed

lemma parse_dmap_end: "len < pos + 8 \<Longrightarrow> len < 2 ^ 32 - 8 \<Longrightarrow> pos \<le> len \<Longrightarrow> parse_dmap_metadata data len depth pos m = Some m"
  by (subst parse_dmap_metadata.simps) simp

lemma parse_dmap_deep: "DMAP_MAX_NESTING < depth \<Longrightarrow> parse_dmap_metadata data len depth pos m = Some m"
  by (subst parse_dmap_metadata.simps) simp

lemma container_length: "dmap_container tag \<Longrightarrow> length tag = 4"
  by (auto simp: dmap_container_def)

lemma parse_dmap_forest:
  "drop pos data = concat (map dmap_enc ds) @ rest \<Longrightarrow> len = pos + length (concat (map dmap_enc ds)) \<Longrightarrow>
    len \<le> length data \<Longrightarrow> len < 2 ^ 32 - 8 \<Longrightarrow> depth \<le> DMAP_MAX_NESTING \<Longrightarrow> \<forall>d \<in> set ds. dmap_wf d \<Longrightarrow> metadata_ok m \<Longrightarrow>
    \<exists>m'. parse_dmap_metadata data len depth pos m = Some m' \<and> metadata_ok m' \<and>
      track_of m' = fold (dmap_track depth) ds (track_of m)"
proof (induction "size_list size ds" arbitrary: ds data pos rest len depth m rule: less_induct)
  case less
  show ?case
  proof (cases ds)
    case Nil
    then show ?thesis using less.prems parse_dmap_end [of len pos data depth m] by simp
  next
    case (Cons d ds')
    obtain tag c where tc: "dmap_enc d = tag @ be_bytes 4 (of_nat (length c)) @ c" "length tag = 4"
      "(\<exists>xs. d = Dmap_list tag xs \<and> c = concat (map dmap_enc xs)) \<or> (d = Dmap_text tag c \<and> \<not> dmap_container tag)"
      using less.prems(6) Cons by (cases d) (auto simp: Let_def dest: container_length)
    let ?p = "pos + 8 + length c"
    have len: "length (dmap_enc d) = 8 + length c" "?p \<le> len" "len = ?p + length (concat (map dmap_enc ds'))"
      using tc(1,2) less.prems(2) Cons by simp_all
    have here: "drop pos data = tag @ be_bytes 4 (of_nat (length c)) @ c @ concat (map dmap_enc ds') @ rest"
      using less.prems(1) tc(1) Cons by simp
    have at: "drop (pos + 8) data = c @ concat (map dmap_enc ds') @ rest" "drop ?p data = concat (map dmap_enc ds') @ rest"
      using arg_cong [OF here, of "drop 8"] arg_cong [OF here, of "drop (8 + length c)"] tc(2) by (simp_all add: ac_simps)
    have it: "parse_dmap_metadata data len depth pos m =
        dmap_step data (pos + 8) (length c) depth tag m \<bind> parse_dmap_metadata data len depth ?p"
      by (rule dmap_iteration [OF here tc(2) refl]) (use len less.prems in simp_all)
    obtain m1 where m1: "dmap_step data (pos + 8) (length c) depth tag m = Some m1" "metadata_ok m1"
      "track_of m1 = dmap_track depth d (track_of m)"
    proof (cases "\<exists>xs. d = Dmap_list tag xs")
      case True
      then obtain xs where xs: "d = Dmap_list tag xs" "c = concat (map dmap_enc xs)" using tc(3) by auto
      have tag: "dmap_container tag" "\<forall>d \<in> set xs. dmap_wf d" using less.prems(6) Cons xs(1) by auto
      then have st: "dmap_step data (pos + 8) (length c) depth tag m =
          parse_dmap_metadata (drop (pos + 8) data) (length c) (depth + 1) 0 m"
        by (auto simp: dmap_step_def dmap_container_def ascii_def)
      show thesis
      proof (cases "depth \<ge> DMAP_MAX_NESTING")
        case True
        then show thesis using that [of m] st less.prems(7) parse_dmap_deep [of "depth + 1"] xs(1) by simp
      next
        case False
        have "\<exists>m'. parse_dmap_metadata (drop (pos + 8) data) (length c) (depth + 1) 0 m = Some m' \<and> metadata_ok m' \<and>
            track_of m' = fold (dmap_track (depth + 1)) xs (track_of m)"
          by (rule less.hyps) (use xs at(1) len less.prems tag(2) False Cons in auto)
        then show thesis using that st False xs(1) by auto
      qed
    next
      case False
      then have leaf: "d = Dmap_text tag c" "\<not> dmap_container tag" using tc(3) by auto
      have "pos + 8 + length c \<le> length data" "take (length c) (drop (pos + 8) data) = c"
        using len less.prems(3) at(1) by auto
      then show thesis using dmap_step_text [OF _ _ less.prems(7) leaf(2)] that leaf(1) by (metis dmap_track.simps(1))
    qed
    have "\<exists>m'. parse_dmap_metadata data len depth ?p m1 = Some m' \<and> metadata_ok m' \<and>
        track_of m' = fold (dmap_track depth) ds' (track_of m1)"
      by (rule less.hyps) (use at(2) len less.prems m1 Cons in auto)
    then show ?thesis using it m1 Cons by simp
  qed
qed

text \<open>
  C34. The parser computes the track a DMAP message describes: for any well-formed items, nested in any
  lists, the four texts are those of the last item of their kind in document order, cut to 63 bytes;
  unknown items are skipped and lists nested deeper than eight levels are passed over.
\<close>

theorem dmap_parser_reads_track:
  assumes "\<forall>d \<in> set ds. dmap_wf d" "length (concat (map dmap_enc ds)) < 2 ^ 32 - 8" "metadata_ok m"
  shows "map_option track_of (parse_dmap_metadata (concat (map dmap_enc ds) @ rest)
      (length (concat (map dmap_enc ds))) 0 0 m) = Some (fold (dmap_track 0) ds (track_of m))"
  using parse_dmap_forest [of 0 "concat (map dmap_enc ds) @ rest" ds rest _ 0 m] assms by auto

definition example_track :: "dmap list" where
  "example_track = [Dmap_list (ascii ''mlit'')
     [Dmap_text (ascii ''asar'') (ascii ''X''), Dmap_text (ascii ''abcd'') [1, 2], Dmap_text (ascii ''minm'') (ascii ''Song'')]]"

lemma dmap_parser_reads_track_witness:
  "map_option track_of (parse_dmap_metadata (concat (map dmap_enc example_track) @ [])
      (length (concat (map dmap_enc example_track))) 0 0 metadata_zero) =
    Some (fold (dmap_track 0) example_track (track_of metadata_zero))"
  by (rule dmap_parser_reads_track)
    (simp_all add: example_track_def dmap_container_def ascii_def metadata_zero_ok)

lemma example_track_read:
  "tr_title (fold (dmap_track 0) example_track t) = ascii ''Song'' \<and> tr_artist (fold (dmap_track 0) example_track t) = ascii ''X''"
  by (simp add: example_track_def dmap_item_def ascii_def shown_def cstr_def DMAP_MAX_NESTING_def)

subsection \<open>The progress line\<close>

text \<open>\<open>start/current/end\<close>, in units of the RTP timestamps.\<close>

definition scan_progress :: "bytes \<Rightarrow> (u64 \<times> u64 \<times> u64) option" where
  "scan_progress s = do {
     (start, s) \<leftarrow> scan_u64 s;
     s \<leftarrow> scan_char 47 s;
     (current, s) \<leftarrow> scan_u64 s;
     s \<leftarrow> scan_char 47 s;
     (stop, _) \<leftarrow> scan_u64 s;
     Some (start, current, stop)
   }"

definition parse_progress :: "bytes \<Rightarrow> u32 \<Rightarrow> rtsp_metadata \<Rightarrow> rtsp_metadata" where
  "parse_progress progress_str sample_rate meta =
    (case scan_progress progress_str of
       None \<Rightarrow> meta
     | Some (start, current, stop) \<Rightarrow>
         let sample_rate = (if sample_rate = 0 then 44100 else sample_rate) in
         meta\<lparr>md_position_secs := ucast ((current - start) div ucast sample_rate),
           md_duration_secs := ucast ((stop - start) div ucast sample_rate)\<rparr>)"

lemma parse_progress_ok [simp]: "metadata_ok (parse_progress s r m) = metadata_ok m"
  by (simp add: parse_progress_def Let_def split: option.split)

definition progress_text :: "nat \<Rightarrow> nat \<Rightarrow> nat \<Rightarrow> bytes" where
  "progress_text a b c = dec_nat a @ 47 # dec_nat b @ 47 # dec_nat c"

lemma scan_digits_dec:
  assumes "stops t"
  shows "scan_digits (dec_nat n @ t) = Some ((False, n), t)"
proof -
  obtain c s where c: "dec_nat n = c # s" "c_digit c" using dec_nat_digits [of n] by (cases "dec_nat n") auto
  have "takeWhile c_digit (dec_nat n @ t) = dec_nat n" by (rule takeWhile_stops) (use dec_nat_digits assms in auto)
  then show ?thesis using c c_digit_bounds [OF c(2)] dec_nat_digits [of n] by (simp add: scan_digits_def)
qed

lemma scan_u64_dec: "stops t \<Longrightarrow> n < 2 ^ 64 \<Longrightarrow> scan_u64 (dec_nat n @ t) = Some (of_nat n, t)"
  by (simp add: scan_u64_def scan_digits_dec)

lemma slash_stops [simp]: "stops (47 # t)" "stops []"
  by (simp_all add: stops_def c_digit_def)

lemma scan_progress_text:
  assumes "a < 2 ^ 64" "b < 2 ^ 64" "c < 2 ^ 64"
  shows "scan_progress (progress_text a b c) = Some (of_nat a, of_nat b, of_nat c)"
  using assms scan_u64_dec [of "[]" c]
  by (simp add: scan_progress_def progress_text_def scan_u64_dec scan_char_def)

lemma seconds_of:
  assumes "a \<le> b" "b < 2 ^ 64" "rate = 44100"
  shows "(ucast ((of_nat b - of_nat a :: u64) div rate) :: u32) = of_nat ((b - a) div 44100)"
proof -
  have "(of_nat b - of_nat a :: u64) = of_nat (b - a)" using assms(1) by (rule of_nat_diff [symmetric])
  then have "unat ((of_nat b - of_nat a :: u64) div rate) = (b - a) div 44100"
    using assms(2,3) by (simp only: unat_div_distrib) (simp add: unat_of_nat_id)
  then show ?thesis by (metis of_nat_unat)
qed

text \<open>
  The position and the duration of a printed progress line are the played and the whole seconds.
  An RTP timestamp has 32 bits: when it wraps around within a track, \<open>current\<close> or \<open>end\<close> is below
  \<open>start\<close>, the difference is taken in 64 bits, and the position shown is far beyond any track.
\<close>

lemma parse_progress_text:
  assumes "a \<le> b" "b \<le> c" "c < 2 ^ 64"
  shows "parse_progress (progress_text a b c) 44100 m =
    m\<lparr>md_position_secs := of_nat ((b - a) div 44100), md_duration_secs := of_nat ((c - a) div 44100)\<rparr>"
  using assms seconds_of [of a b 44100] seconds_of [of a c 44100]
  by (simp add: parse_progress_def scan_progress_text)

lemma progress_wraps:
  "md_position_secs (parse_progress (progress_text 4294950000 7704 26475000) 44100 m) = 2356388520"
  by (simp add: parse_progress_def scan_progress_text)

end
