(* ===== verification/Rtsp_Sdp.thy ===== *)
theory Rtsp_Sdp
  imports Rtsp_Rsa Rtsp_Metadata Receiver_Safe
begin

section \<open>The session description of ANNOUNCE (main/rtsp/rtsp_handlers.c)\<close>

text \<open>
  \<open>parse_sdp\<close>: the audio format and, for AirPlay 1, the encrypted key of the announced stream. The
  description is a C string; positions in it are indices.
\<close>

definition strlcpy :: "bytes \<Rightarrow> bytes \<Rightarrow> bytes mem" where
  "strlcpy dst src = wr dst 0 (take (length dst - 1) src @ [0])"

subsection \<open>The format\<close>

definition sdp_default_format :: "audio_format mem" where
  "sdp_default_format = do {
     codec \<leftarrow> wr (fm_codec format_zero) 0 (ascii ''AppleLossless'' @ [0]);
     Some (format_zero\<lparr>fm_sample_rate := 44100, fm_channels := 2, fm_bits_per_sample := 16, fm_frame_size := 352,
       fm_codec := codec\<rparr>)
   }"

text \<open>The word of the codec, and the sample rate and channels behind its slashes.\<close>

definition rtpmap_word :: "bytes \<Rightarrow> bytes option" where
  "rtpmap_word s =
    (case scan_digits s of
       None \<Rightarrow> None
     | Some (_, t) \<Rightarrow> map_option fst (scan_word 31 t))"

definition rtpmap_rate :: "bytes \<Rightarrow> audio_format \<Rightarrow> audio_format" where
  "rtpmap_rate s f =
    (case scan_int s of
       None \<Rightarrow> f
     | Some (sr, t) \<Rightarrow>
         let ch = (case scan_char 47 t of
             None \<Rightarrow> 0
           | Some t \<Rightarrow> (case scan_int t of None \<Rightarrow> 0 | Some (ch, _) \<Rightarrow> ch));
             f = (if sr > 0 then f\<lparr>fm_sample_rate := sr\<rparr> else f) in
         if ch > 0 then f\<lparr>fm_channels := ch\<rparr> else f)"

definition sdp_rtpmap :: "bytes \<Rightarrow> audio_format \<Rightarrow> audio_format mem" where
  "sdp_rtpmap sdp f =
    (case find_sub (ascii ''a=rtpmap:'') sdp of
       None \<Rightarrow> Some f
     | Some i \<Rightarrow> do {
         codec \<leftarrow> (case rtpmap_word (drop (i + 9) sdp) of
             None \<Rightarrow> Some (fm_codec f)
           | Some w \<Rightarrow> wr (fm_codec f) 0 (w @ [0]));
         word \<leftarrow> c_string codec;
         case find_sub [47] word of
           None \<Rightarrow> Some (f\<lparr>fm_codec := codec\<rparr>)
         | Some k \<Rightarrow> do {
             codec \<leftarrow> wr codec k [0];
             Some (rtpmap_rate (drop (k + 1) word) (f\<lparr>fm_codec := codec\<rparr>))
           }
       })"

text \<open>The eleven numbers of the format parameters; at least seven are needed.\<close>

definition fmtp_numbers :: "bytes \<Rightarrow> u32 list" where
  "fmtp_numbers s = (case scan_digits s of None \<Rightarrow> [] | Some (_, t) \<Rightarrow> scan_uints 11 t)"

definition fmtp_apply :: "u32 list \<Rightarrow> audio_format \<Rightarrow> audio_format" where
  "fmtp_apply vs f =
    (let matched = length vs in
     if matched \<ge> 7 then
       let f = f\<lparr>fm_max_samples_per_frame := vs ! 0, fm_sample_size := ucast (vs ! 2),
           fm_rice_history_mult := ucast (vs ! 3), fm_rice_initial_history := ucast (vs ! 4),
           fm_rice_limit := ucast (vs ! 5), fm_num_channels := ucast (vs ! 6),
           fm_channels := sint (vs ! 6), fm_bits_per_sample := sint (vs ! 2)\<rparr>;
         f = (if matched \<ge> 8 then f\<lparr>fm_max_run := ucast (vs ! 7)\<rparr> else f);
         f = (if matched \<ge> 9 then f\<lparr>fm_max_coded_frame_size := vs ! 8\<rparr> else f);
         f = (if matched \<ge> 10 then f\<lparr>fm_avg_bit_rate := vs ! 9\<rparr> else f) in
       if matched \<ge> 11 then f\<lparr>fm_sample_rate_config := vs ! 10, fm_sample_rate := sint (vs ! 10)\<rparr> else f
     else f)"

definition sdp_fmtp :: "bytes \<Rightarrow> audio_format \<Rightarrow> audio_format" where
  "sdp_fmtp sdp f =
    (case find_sub (ascii ''a=fmtp:'') sdp of
       None \<Rightarrow> f
     | Some i \<Rightarrow> fmtp_apply (fmtp_numbers (drop (i + 7) sdp)) f)"

definition contains :: "bytes \<Rightarrow> bytes \<Rightarrow> bool" where
  "contains s pat \<longleftrightarrow> find_sub pat s \<noteq> None"

definition sdp_aac_frame :: "audio_format \<Rightarrow> audio_format mem" where
  "sdp_aac_frame f = do {
     codec \<leftarrow> c_string (fm_codec f);
     Some (if (contains codec (ascii ''AAC'') \<or> contains codec (ascii ''aac'') \<or>
           contains codec (ascii ''mpeg4-generic'') \<or> contains codec (ascii ''MPEG4-GENERIC'')) \<and>
         fm_max_samples_per_frame f = 0
       then f\<lparr>fm_frame_size := 1024, fm_max_samples_per_frame := 1024\<rparr> else f)
   }"

definition sdp_format :: "bytes \<Rightarrow> audio_format mem" where
  "sdp_format sdp = do {
     f \<leftarrow> sdp_default_format;
     f \<leftarrow> sdp_rtpmap sdp f;
     sdp_aac_frame (sdp_fmtp sdp f)
   }"

subsection \<open>The key\<close>

definition blank :: "u8 \<Rightarrow> bool" where
  "blank c \<longleftrightarrow> c = 32 \<or> c = 9"

text \<open>
  The characters of the key: blanks and line ends inside it are left out, and it ends where a line
  that starts with \<open>a=\<close> follows.
\<close>

fun sdp_key_text :: "nat \<Rightarrow> bytes \<Rightarrow> bytes" where
  "sdp_key_text room [] = []"
| "sdp_key_text room (c # s) =
    (if room = 0 then []
     else if c = 13 \<or> c = 10 then
       if take 2 (dropWhile (\<lambda>c. c = 13 \<or> c = 10 \<or> c = 32) s) = ascii ''a='' then [] else sdp_key_text room s
     else if \<not> blank c then c # sdp_key_text (room - 1) s
     else sdp_key_text room s)"

definition sdp_iv_text :: "bytes \<Rightarrow> bytes" where
  "sdp_iv_text s = take 63 (takeWhile (\<lambda>c. c \<noteq> 13 \<and> c \<noteq> 10) (dropWhile blank s))"

text \<open>The vector is decoded in place, without padding first; a failure leaves what was stored.\<close>

definition sdp_decode_iv :: "rsa_lib \<Rightarrow> bytes \<Rightarrow> bytes \<Rightarrow> bytes mem" where
  "sdp_decode_iv L text_b64 iv =
    (let (ok, bs) = rl_base64 L False text_b64 (length iv) in do {
       iv \<leftarrow> wr iv 0 bs;
       if ok then Some iv else wr iv 0 (snd (rl_base64 L True text_b64 (length iv)))
     })"

text \<open>
  The encryption of an AirPlay 1 stream: whether key and vector are there (then the connection speaks
  version 1), the encryption, and the state of the RSA key.
\<close>

definition sdp_encryption :: "rsa_lib \<Rightarrow> bytes \<Rightarrow> bytes \<Rightarrow> bool \<Rightarrow> (bool \<times> audio_encrypt \<times> bool) mem" where
  "sdp_encryption L scratch sdp ready =
    (case (find_sub_nocase (ascii ''rsaaeskey:'') sdp, find_sub_nocase (ascii ''aesiv:'') sdp) of
       (Some k, Some v) \<Rightarrow> do {
         let key_b64 = sdp_key_text 511 (dropWhile blank (drop (k + 10) sdp));
         (key, ready) \<leftarrow> rsa_decrypt_aes_key L key_b64 32 scratch ready;
         case key of
           Some aes_key \<Rightarrow>
             if length aes_key \<ge> 16 then do {
               bs \<leftarrow> wr (en_key encrypt_zero) 0 aes_key;
               iv \<leftarrow> sdp_decode_iv L (sdp_iv_text (drop (v + 6) sdp)) (en_iv encrypt_zero);
               Some (True, \<lparr>en_type = AUDIO_ENCRYPT_AES_CBC, en_key = bs, en_iv = iv, en_key_len = length aes_key\<rparr>, ready)
             }
             else Some (True, encrypt_zero, ready)
         | None \<Rightarrow> Some (True, encrypt_zero, ready)
       }
     | _ \<Rightarrow> Some (False, encrypt_zero, ready))"

subsection \<open>Memory safety\<close>

definition codec_ok :: "audio_format \<Rightarrow> bool" where
  "codec_ok f \<longleftrightarrow> length (fm_codec f) = 32 \<and> 0 \<in> set (fm_codec f)"

lemma codec_ok_word:
  assumes "codec_ok f" "length w \<le> 31"
  shows "wr (fm_codec f) 0 (w @ [0]) = Some (put_at (fm_codec f) 0 (w @ [0]))"
    "codec_ok (f\<lparr>fm_codec := put_at (fm_codec f) 0 (w @ [0])\<rparr>)"
  using assms by (auto simp: codec_ok_def wr_put) (simp add: put_at_def)

lemma scan_word_length: "scan_word n s = Some (w, t) \<Longrightarrow> length w \<le> n"
  by (auto simp: scan_word_def Let_def split: if_splits)

lemma rtpmap_word_length: "rtpmap_word s = Some w \<Longrightarrow> length w \<le> 31"
  using scan_word_length by (auto simp: rtpmap_word_def split: option.splits)

lemma rtpmap_rate_codec [simp]: "fm_codec (rtpmap_rate s f) = fm_codec f"
  by (simp add: rtpmap_rate_def Let_def split: option.split)

lemma fmtp_apply_codec [simp]: "fm_codec (fmtp_apply vs f) = fm_codec f"
  by (simp add: fmtp_apply_def Let_def)

lemma find_sub_less: "find_sub pat s = Some k \<Longrightarrow> pat \<noteq> [] \<Longrightarrow> k < length s"
  by (induction s arbitrary: k) (auto split: if_splits)

lemma sdp_rtpmap_ok:
  assumes "codec_ok f"
  shows "ensures codec_ok (sdp_rtpmap sdp f)"
proof (cases "find_sub (ascii ''a=rtpmap:'') sdp")
  case None
  then show ?thesis using assms by (simp add: sdp_rtpmap_def)
next
  case (Some i)
  obtain c where c: "(case rtpmap_word (drop (i + 9) sdp) of None \<Rightarrow> Some (fm_codec f)
      | Some w \<Rightarrow> wr (fm_codec f) 0 (w @ [0])) = Some c" "codec_ok (f\<lparr>fm_codec := c\<rparr>)"
    using assms codec_ok_word [OF assms rtpmap_word_length]
    by (cases "rtpmap_word (drop (i + 9) sdp)") auto
  then have word: "c_string c = Some (cstr c)" by (simp add: c_string_def codec_ok_def)
  show ?thesis
  proof (cases "find_sub [47] (cstr c)")
    case None
    then show ?thesis using c word Some by (simp add: sdp_rtpmap_def)
  next
    case k: (Some k)
    have "length (cstr c) \<le> length c" by (simp add: cstr_def length_takeWhile_le)
    then have "k < length c" using find_sub_less [OF k] by simp
    then have "wr c k [0] = Some (put_at c k [0])" "codec_ok (f\<lparr>fm_codec := put_at c k [0]\<rparr>)"
      using c(2) by (auto simp: wr_put codec_ok_def) (simp add: put_at_def)
    then show ?thesis using c word Some k by (simp add: sdp_rtpmap_def codec_ok_def)
  qed
qed

lemma sdp_default_ok: "ensures codec_ok sdp_default_format"
  by (simp add: sdp_default_format_def format_zero_def wr_put codec_ok_def) (simp add: put_at_def)

lemma sdp_format_ok: "ensures codec_ok (sdp_format sdp)"
proof -
  have last: "ensures codec_ok (sdp_aac_frame (sdp_fmtp sdp f))" if "codec_ok f" for f
    using that by (auto simp: sdp_aac_frame_def sdp_fmtp_def codec_ok_def c_string_def split: option.split)
  show ?thesis unfolding sdp_format_def
    by (rule ensures_bind [OF sdp_default_ok], rule ensures_bind [OF sdp_rtpmap_ok], simp, erule last)
qed

lemma sdp_decode_iv_ok:
  assumes "rsa_lib_ok L"
  shows "ensures (\<lambda>iv'. length iv' = length iv) (sdp_decode_iv L t iv)"
proof -
  have len: "length (snd (rl_base64 L p t (length iv))) \<le> length iv" for p using assms by (simp add: rsa_lib_ok_def)
  obtain ok bs where "rl_base64 L False t (length iv) = (ok, bs)" by force
  then show ?thesis using len [of False] len [of True] by (simp add: sdp_decode_iv_def wr_put)
qed

lemma sdp_encryption_ok:
  assumes L: "rsa_lib_ok L"
  shows "ensures (\<lambda>(v1, e, ready). length (en_key e) = 32 \<and> length (en_iv e) = 16 \<and> en_key_len e \<le> 32)
    (sdp_encryption L scratch sdp ready)"
proof -
  have zero: "length (en_key encrypt_zero) = 32" "length (en_iv encrypt_zero) = 16" "en_key_len encrypt_zero = 0"
    by (simp_all add: encrypt_zero_def)
  obtain k v where kv: "(find_sub_nocase (ascii ''rsaaeskey:'') sdp, find_sub_nocase (ascii ''aesiv:'') sdp) = (k, v)"
    by force
  show ?thesis
  proof (cases "k = None \<or> v = None")
    case True
    then show ?thesis using kv zero by (cases k; cases v) (simp_all add: sdp_encryption_def)
  next
    case False
    then obtain i j where ij: "k = Some i" "v = Some j" by auto
    let ?t = "sdp_key_text 511 (dropWhile blank (drop (i + 10) sdp))"
    obtain key ready' where key: "rsa_decrypt_aes_key L ?t 32 scratch ready = Some (key, ready')"
      "\<And>a. key = Some a \<Longrightarrow> length a \<le> 32"
      using decrypt_aes_key_ok [OF L, of 32 ?t scratch ready] by (auto simp: ensures_def)
    obtain iv where iv: "sdp_decode_iv L (sdp_iv_text (drop (j + 6) sdp)) (en_iv encrypt_zero) = Some iv" "length iv = 16"
      using sdp_decode_iv_ok [OF L, of "en_iv encrypt_zero"] zero by (auto simp: ensures_def)
    show ?thesis using kv ij key iv zero by (auto simp: sdp_encryption_def wr_put split: option.split)
  qed
qed

subsection \<open>An announced format is read back\<close>

text \<open>The two lines that describe the format, as AirPlay 1 senders write them.\<close>

definition rtpmap_line :: "nat \<Rightarrow> bytes \<Rightarrow> bytes" where
  "rtpmap_line pt codec = ascii ''a=rtpmap:'' @ dec_nat pt @ 32 # codec"

definition fmtp_line :: "nat \<Rightarrow> u32 list \<Rightarrow> bytes" where
  "fmtp_line pt vs = ascii ''a=fmtp:'' @ dec_nat pt @ concat (map (\<lambda>v. 32 # dec_nat (unat v)) vs)"

lemma scan_uint_dec: "stops t \<Longrightarrow> scan_uint (32 # dec_nat (unat v) @ t) = Some (v, t)"
proof -
  assume t: "stops t"
  have "scan_digits (32 # dec_nat (unat v) @ t) = scan_digits (dec_nat (unat v) @ t)"
    by (simp add: scan_digits_def)
  moreover have "unat v < 2 ^ 32" using unat_less_exp [of v] by simp
  ultimately show ?thesis using t by (simp add: scan_uint_def scan_digits_dec)
qed

lemma scan_uints_dec:
  "scan_uints (length vs) (concat (map (\<lambda>v. 32 # dec_nat (unat v)) vs) @ 13 # t) = vs"
proof (induction vs)
  case (Cons v vs)
  have "stops (concat (map (\<lambda>v. 32 # dec_nat (unat v)) vs) @ 13 # t)"
    by (cases vs) (simp_all add: stops_def c_digit_def word_le_nat_alt)
  then show ?case using Cons by (simp add: scan_uint_dec)
qed simp

lemma fmtp_numbers_line:
  assumes "length vs = 11"
  shows "fmtp_numbers (drop 7 (fmtp_line pt vs @ 13 # t)) = vs"
proof -
  let ?r = "concat (map (\<lambda>v. 32 # dec_nat (unat v)) vs) @ 13 # t"
  have "stops ?r" using assms by (cases vs) (simp_all add: stops_def c_digit_def word_le_nat_alt)
  then have "scan_digits (dec_nat pt @ ?r) = Some ((False, pt), ?r)" by (rule scan_digits_dec)
  then show ?thesis using scan_uints_dec [of vs t] assms
    by (simp add: fmtp_numbers_def fmtp_line_def)
qed

definition codec_word :: "bytes \<Rightarrow> bool" where
  "codec_word w \<longleftrightarrow> w \<noteq> [] \<and> length w \<le> 31 \<and> (\<forall>c \<in> set w. \<not> c_space c \<and> c \<noteq> 0 \<and> c \<noteq> 47)"

lemma rtpmap_word_line:
  assumes "codec_word w"
  shows "rtpmap_word (drop 9 (rtpmap_line pt w @ 13 # t)) = Some w"
proof -
  have "stops (32 # w @ 13 # t)" by (simp add: stops_def c_digit_def word_le_nat_alt)
  then have d: "scan_digits (dec_nat pt @ 32 # w @ 13 # t) = Some ((False, pt), 32 # w @ 13 # t)" by (rule scan_digits_dec)
  have sp: "c_space 13" by (simp add: c_space_def word_le_nat_alt)
  have "takeWhile (\<lambda>c. \<not> c_space c) (w @ 13 # t) = w"
    using assms sp by (subst takeWhile_append2) (auto simp: codec_word_def)
  moreover have "dropWhile c_space (w @ 13 # t) = w @ 13 # t" using assms by (cases w) (auto simp: codec_word_def)
  ultimately have "scan_word 31 (32 # w @ 13 # t) = Some (w, 13 # t)"
    using assms by (simp add: scan_word_def codec_word_def)
  then show ?thesis using d by (simp add: rtpmap_word_def rtpmap_line_def)
qed

lemma no_slash: "47 \<notin> set s \<Longrightarrow> find_sub [47] s = None"
  by (induction s) auto

definition lossless_buffer :: bytes where
  "lossless_buffer = put_at (replicate 32 0) 0 (ascii ''AppleLossless'' @ [0])"

definition sdp_lines :: "bytes list \<Rightarrow> nat \<Rightarrow> bytes \<Rightarrow> u32 list \<Rightarrow> bytes \<Rightarrow> bytes" where
  "sdp_lines ls pt codec vs rest = lines_text (ls @ [rtpmap_line pt codec]) @ fmtp_line pt vs @ crlf @ rest"

lemma sdp_finds:
  assumes "\<forall>l \<in> set ls. find_sub (ascii ''a=rtpmap:'') l = None \<and> find_sub (ascii ''a=fmtp:'') l = None"
    and "find_sub (ascii ''a=fmtp:'') (rtpmap_line pt codec) = None"
  shows "find_sub (ascii ''a=rtpmap:'') (sdp_lines ls pt codec vs rest) = Some (length (lines_text ls))"
    "find_sub (ascii ''a=fmtp:'') (sdp_lines ls pt codec vs rest) = Some (length (lines_text (ls @ [rtpmap_line pt codec])))"
proof -
  have "find_sub (ascii ''a=rtpmap:'') (lines_text ls @ rtpmap_line pt codec @ crlf @ fmtp_line pt vs @ crlf @ rest) =
      Some (length (lines_text ls))"
    using assms(1) find_sub_here [of "ascii ''a=rtpmap:''"]
    by (subst find_sub_lines) (simp_all add: ascii_def rtpmap_line_def)
  then show "find_sub (ascii ''a=rtpmap:'') (sdp_lines ls pt codec vs rest) = Some (length (lines_text ls))"
    by (simp add: sdp_lines_def lines_text_append crlf_def)
  show "find_sub (ascii ''a=fmtp:'') (sdp_lines ls pt codec vs rest) = Some (length (lines_text (ls @ [rtpmap_line pt codec])))"
    unfolding sdp_lines_def using assms find_sub_here [of "ascii ''a=fmtp:''"]
    by (subst find_sub_lines) (auto simp: ascii_def fmtp_line_def)
qed



end
