(* ===== verification/Airplay_Volume.thy ===== *)
theory Airplay_Volume
  imports Rtsp_Conn Plist_Xml C_Scan
begin

section \<open>The volume (main/rtsp/rtsp_server.c, main/settings.c)\<close>

text \<open>
  The volume of the device: the setting in decibels, which the settings keep in memory, its Q15 form
  for the audio output, and what is still to be handed to the next AirPlay connection. The rounding
  \<open>fl\<close> is that of the platform. A conversion of a value that does not fit its integer type, or of
  NaN, is undefined in C: its result is \<open>None\<close>.
\<close>

record volume =
  vl_q15 :: int
  vl_synced :: bool
  vl_last_set_db :: c_float
  vl_stored_db :: c_float
  vl_loaded :: bool

definition minus_db :: "real \<Rightarrow> c_float" where
  "minus_db x = Num True x"

definition volume_init :: volume where
  "volume_init = \<lparr>vl_q15 = 8192, vl_synced = True, vl_last_set_db = Num False 0, vl_stored_db = minus_db 15,
     vl_loaded = False\<rparr>"

text \<open>Equality of floating-point values: NaN is equal to nothing, the two zeros are equal.\<close>

fun float_eq :: "c_float \<Rightarrow> c_float \<Rightarrow> bool" where
  "float_eq (Infinite a) (Infinite b) = (a = b)"
| "float_eq (Num a x) (Num b y) = (float_value a x = float_value b y)"
| "float_eq _ _ = False"

text \<open>The conversion to a 32-bit integer, which drops the fraction.\<close>

definition float_to_int :: "c_float \<Rightarrow> int mem" where
  "float_to_int v =
    (case v of
       Num neg x \<Rightarrow> let i = (if neg then - \<lfloor>x\<rfloor> else \<lfloor>x\<rfloor>) in
         if - (2 ^ 31) \<le> i \<and> i < 2 ^ 31 then Some i else None
     | _ \<Rightarrow> None)"

subsection \<open>The curve\<close>

definition airplay_volume_db_to_q15 :: "(real \<Rightarrow> real) \<Rightarrow> c_float \<Rightarrow> int mem" where
  "airplay_volume_db_to_q15 fl volume_db =
    (case volume_db of
       NaN \<Rightarrow> float_to_int NaN
     | Infinite neg \<Rightarrow> Some (if neg then 0 else 32768)
     | Num neg x \<Rightarrow>
         let db = float_value neg x in
         if db \<le> -30 then Some 0
         else if db \<ge> 0 then Some 32768
         else
           let normalized = fl (fl (db + 30) / 30);
               curved = fl (normalized * normalized) in
           float_to_int (Num False (fl (curved * 32768))))"

definition airplay_q15_to_volume_db :: "(real \<Rightarrow> real) \<Rightarrow> int \<Rightarrow> c_float" where
  "airplay_q15_to_volume_db fl q15 =
    (if q15 \<le> 0 then minus_db 30
     else if q15 \<ge> 32768 then Num False 0
     else
       let curved = fl (fl (of_int q15) / 32768);
           normalized = fl (sqrt curved);
           db = fl (fl (normalized * 30) - 30) in
       Num (db < 0) \<bar>db\<bar>)"

subsection \<open>The stored volume\<close>

definition settings_get_volume :: "volume \<Rightarrow> c_float option" where
  "settings_get_volume v = (if vl_loaded v then Some (vl_stored_db v) else None)"

text \<open>The second component is the volume handed to the DAC, if it is told.\<close>

definition settings_set_volume :: "c_float \<Rightarrow> volume \<Rightarrow> volume \<times> c_float option" where
  "settings_set_volume db v =
    (if vl_loaded v \<and> float_eq db (vl_stored_db v) then (v, None)
     else (v\<lparr>vl_stored_db := db, vl_loaded := True\<rparr>, Some db))"

definition float_times :: "(real \<Rightarrow> real) \<Rightarrow> c_float \<Rightarrow> real \<Rightarrow> c_float" where
  "float_times fl v k = (case v of NaN \<Rightarrow> NaN | Infinite neg \<Rightarrow> Infinite neg | Num neg x \<Rightarrow> to_float fl neg (x * k))"

text \<open>
  The volume in flash, in hundredths of a decibel. The settings store is reached through \<open>opened\<close>,
  \<open>set_ok\<close> and \<open>committed\<close>, the results of its calls; the value is what is handed to it.
\<close>

definition settings_persist_volume ::
  "(real \<Rightarrow> real) \<Rightarrow> esp_err \<Rightarrow> esp_err \<Rightarrow> esp_err \<Rightarrow> volume \<Rightarrow> (esp_err \<times> int option) mem" where
  "settings_persist_volume fl opened set_ok committed v =
    (if \<not> vl_loaded v then Some (ESP_OK, None)
     else if opened \<noteq> ESP_OK then Some (opened, None)
     else do {
       vol_fixed \<leftarrow> float_to_int (float_times fl (vl_stored_db v) 100);
       Some (if set_ok = ESP_OK then committed else set_ok, Some vol_fixed)
     })"

text \<open>Loading it at the start.\<close>

definition settings_load_volume :: "(real \<Rightarrow> real) \<Rightarrow> int option \<Rightarrow> volume \<Rightarrow> volume" where
  "settings_load_volume fl vol_fixed v =
    (case vol_fixed of
       None \<Rightarrow> v
     | Some i \<Rightarrow> v\<lparr>vl_stored_db := Num (i < 0) (fl (fl (of_int \<bar>i\<bar>) / 100)), vl_loaded := True\<rparr>)"

subsection \<open>Setting and reading the volume\<close>

text \<open>The slot of a client connection; \<open>cs_conn\<close> is the address of its connection object.\<close>

record client_slot =
  cs_conn :: "nat option"
  cs_task :: bool
  cs_socket :: int
  cs_should_stop :: bool
  cs_is_old :: bool
  cs_has_session :: bool

definition airplay_apply_volume_db :: "(real \<Rightarrow> real) \<Rightarrow> c_float \<Rightarrow> volume \<Rightarrow> (volume \<times> c_float option) mem" where
  "airplay_apply_volume_db fl volume_db v = do {
     q15 \<leftarrow> airplay_volume_db_to_q15 fl volume_db;
     Some (settings_set_volume volume_db (v\<lparr>vl_q15 := q15, vl_last_set_db := volume_db\<rparr>))
   }"

definition airplay_set_volume :: "(real \<Rightarrow> real) \<Rightarrow> client_slot \<Rightarrow> c_float \<Rightarrow> volume \<Rightarrow> (volume \<times> c_float option) mem" where
  "airplay_set_volume fl c volume_db v =
    (if cs_has_session c \<and> \<not> cs_is_old c then airplay_apply_volume_db fl volume_db v else Some (v, None))"

definition airplay_set_volume_q15 :: "(real \<Rightarrow> real) \<Rightarrow> client_slot \<Rightarrow> int \<Rightarrow> volume \<Rightarrow> (volume \<times> c_float option) mem" where
  "airplay_set_volume_q15 fl c q15 v =
    (let db = airplay_q15_to_volume_db fl q15 in
     if cs_has_session c \<and> \<not> cs_is_old c then airplay_apply_volume_db fl db v
     else do {
       q15 \<leftarrow> airplay_volume_db_to_q15 fl db;
       let (v, dac) = settings_set_volume db (v\<lparr>vl_last_set_db := db, vl_q15 := q15\<rparr>);
       Some (v\<lparr>vl_synced := False\<rparr>, dac)
     })"

definition airplay_take_volume_pending_sync :: "volume \<Rightarrow> bool \<times> volume" where
  "airplay_take_volume_pending_sync v = (if vl_synced v then (False, v) else (True, v\<lparr>vl_synced := True\<rparr>))"

definition airplay_get_pending_volume_db :: "volume \<Rightarrow> c_float" where
  "airplay_get_pending_volume_db v = vl_last_set_db v"

definition airplay_get_volume_q15 :: "volume \<Rightarrow> int" where
  "airplay_get_volume_q15 v = vl_q15 v"

definition airplay_get_volume_db :: "volume \<Rightarrow> c_float" where
  "airplay_get_volume_db v = (case settings_get_volume v of Some db \<Rightarrow> db | None \<Rightarrow> minus_db 15)"

text \<open>The start of the server: the stored volume waits for the first connection.\<close>

definition boot_volume :: "(real \<Rightarrow> real) \<Rightarrow> volume \<Rightarrow> volume mem" where
  "boot_volume fl v =
    (let boot_db = airplay_get_volume_db v in do {
       q15 \<leftarrow> airplay_volume_db_to_q15 fl boot_db;
       Some (v\<lparr>vl_last_set_db := boot_db, vl_q15 := q15, vl_synced := False\<rparr>)
     })"

text \<open>\<open>%.2f\<close>: rounded to the nearest hundredth, a tie to the even one.\<close>

definition hundredths :: "real \<Rightarrow> nat" where
  "hundredths x =
    (let n = nat \<lfloor>100 * x\<rfloor>; rest = 100 * x - real n in
     if rest > 1 / 2 \<or> (rest = 1 / 2 \<and> odd n) then n + 1 else n)"

definition format_2f :: "c_float \<Rightarrow> bytes" where
  "format_2f v =
    (case v of
       NaN \<Rightarrow> ascii ''nan''
     | Infinite neg \<Rightarrow> (if neg then [45] else []) @ ascii ''inf''
     | Num neg x \<Rightarrow>
         let n = hundredths x; cents = n mod 100 in
         (if neg then [45] else []) @ dec_nat (n div 100) @ [46] @ (if cents < 10 then [48] else []) @ dec_nat cents)"

definition volume_text :: "volume \<Rightarrow> bytes" where
  "volume_text v = ascii ''volume: '' @ format_2f (airplay_get_volume_db v) @ [13, 10]"

subsection \<open>The curve is monotone and bounded\<close>

lemma fl_int: "fl_ok fl \<Longrightarrow> fl 0 = 0 \<and> fl 1 = 1 \<and> fl 30 = 30 \<and> fl 32768 = 32768"
  using fl_okD(3) [of fl 0] fl_okD(3) [of fl 1] fl_okD(3) [of fl 30] fl_okD(3) [of fl 32768] by simp

definition volume_curve :: "(real \<Rightarrow> real) \<Rightarrow> real \<Rightarrow> real" where
  "volume_curve fl db = (let normalized = fl (fl (db + 30) / 30); curved = fl (normalized * normalized) in fl (curved * 32768))"

lemma volume_curve_mono:
  assumes fl: "fl_ok fl" and "-30 \<le> a" "a \<le> b"
  shows "volume_curve fl a \<le> volume_curve fl b"
proof -
  let ?n = "\<lambda>db. fl (fl (db + 30) / 30)"
  have "0 \<le> fl (a + 30)" using fl_okD(1) [OF fl, of 0 "a + 30"] fl_int [OF fl] assms(2) by simp
  then have 0: "0 \<le> ?n a" using fl_okD(1) [OF fl, of 0 "fl (a + 30) / 30"] fl_int [OF fl] by simp
  have "fl (a + 30) \<le> fl (b + 30)" using assms(3) by (intro fl_okD(1) [OF fl]) simp
  then have n: "?n a \<le> ?n b" by (intro fl_okD(1) [OF fl, of "fl (a + 30) / 30"] divide_right_mono) simp_all
  have "?n a * ?n a \<le> ?n b * ?n b" using 0 n by (intro mult_mono) auto
  then have "fl (?n a * ?n a) \<le> fl (?n b * ?n b)" by (rule fl_okD(1) [OF fl])
  then have "fl (?n a * ?n a) * 32768 \<le> fl (?n b * ?n b) * 32768" by simp
  then show ?thesis unfolding volume_curve_def Let_def by (rule fl_okD(1) [OF fl])
qed

lemma volume_curve_bounds:
  assumes "fl_ok fl" "-30 \<le> db" "db \<le> 0"
  shows "0 \<le> volume_curve fl db" "volume_curve fl db \<le> 32768"
  using volume_curve_mono [OF assms(1), of "-30" db] volume_curve_mono [OF assms(1), of db 0] fl_int [OF assms(1)] assms(2,3)
  by (simp_all add: volume_curve_def)

text \<open>The value of a volume that is a number, infinities at the ends.\<close>

fun float_le :: "c_float \<Rightarrow> c_float \<Rightarrow> bool" where
  "float_le (Infinite True) v = (v \<noteq> NaN)"
| "float_le v (Infinite False) = (v \<noteq> NaN)"
| "float_le (Num a x) (Num b y) = (float_value a x \<le> float_value b y)"
| "float_le _ _ = False"

lemma db_to_q15_number:
  assumes "fl_ok fl"
  shows "airplay_volume_db_to_q15 fl (Num neg x) = Some (let db = float_value neg x in
    if db \<le> -30 then 0 else if db \<ge> 0 then 32768 else \<lfloor>volume_curve fl db\<rfloor>)"
proof -
  let ?db = "float_value neg x"
  have "float_to_int (Num False (volume_curve fl ?db)) = Some \<lfloor>volume_curve fl ?db\<rfloor>" if "-30 \<le> ?db" "?db \<le> 0"
  proof -
    have "\<lfloor>volume_curve fl ?db\<rfloor> \<le> 32768" "0 \<le> \<lfloor>volume_curve fl ?db\<rfloor>"
      using volume_curve_bounds [OF assms that] by linarith+
    then show ?thesis by (simp add: float_to_int_def)
  qed
  then show ?thesis by (simp add: airplay_volume_db_to_q15_def Let_def volume_curve_def)
qed

definition gain_of :: "(real \<Rightarrow> real) \<Rightarrow> c_float \<Rightarrow> int" where
  "gain_of fl v = the (airplay_volume_db_to_q15 fl v)"

lemma gain_bounds:
  assumes "fl_ok fl" "v \<noteq> NaN"
  shows "airplay_volume_db_to_q15 fl v = Some (gain_of fl v)" "0 \<le> gain_of fl v" "gain_of fl v \<le> 32768"
proof -
  have "\<exists>q. airplay_volume_db_to_q15 fl v = Some q \<and> 0 \<le> q \<and> q \<le> 32768"
  proof (cases v)
    case NaN
    then show ?thesis using assms(2) by simp
  next
    case (Infinite neg)
    then show ?thesis by (simp add: airplay_volume_db_to_q15_def)
  next
    case (Num neg x)
    then show ?thesis using volume_curve_bounds [OF assms(1), of "float_value neg x"]
      by (simp add: db_to_q15_number [OF assms(1)] Let_def) linarith
  qed
  then show "airplay_volume_db_to_q15 fl v = Some (gain_of fl v)" "0 \<le> gain_of fl v" "gain_of fl v \<le> 32768"
    by (auto simp: gain_of_def)
qed

text \<open>
  C36. The gain of the audio output follows the volume: for every rounding of single-precision
  arithmetic, a higher volume never gives a lower gain, and the gain stays between silence and one.
\<close>

theorem volume_curve_monotone:
  assumes "fl_ok fl" "float_le v w"
  shows "\<exists>a b. airplay_volume_db_to_q15 fl v = Some a \<and> airplay_volume_db_to_q15 fl w = Some b \<and>
    0 \<le> a \<and> a \<le> b \<and> b \<le> 32768"
proof -
  have num: "v \<noteq> NaN" "w \<noteq> NaN" using assms(2) by (cases "(v, w)" rule: float_le.cases; simp)+
  have "gain_of fl v \<le> gain_of fl w"
  proof (cases "\<exists>a x b y. v = Num a x \<and> w = Num b y")
    case True
    then obtain a x b y where vw: "v = Num a x" "w = Num b y" "float_value a x \<le> float_value b y"
      using assms(2) by auto
    have "\<lfloor>volume_curve fl (float_value a x)\<rfloor> \<le> \<lfloor>volume_curve fl (float_value b y)\<rfloor>" if "-30 \<le> float_value a x"
      using volume_curve_mono [OF assms(1) that vw(3)] by (rule floor_mono)
    then show ?thesis
      using vw gain_bounds(2,3) [OF assms(1), of v] gain_bounds(2,3) [OF assms(1), of w] num
      by (auto simp: gain_of_def db_to_q15_number [OF assms(1)] Let_def)
  next
    case False
    have ends: "gain_of fl (Infinite neg) = (if neg then 0 else 32768)" for neg
      by (simp add: gain_of_def airplay_volume_db_to_q15_def)
    show ?thesis using False assms(2) num gain_bounds(2,3) [OF assms(1) num(1)] gain_bounds(2,3) [OF assms(1) num(2)] ends
      by (cases v; cases w) (auto split: if_splits)
  qed
  then show ?thesis using gain_bounds [OF assms(1) num(1)] gain_bounds [OF assms(1) num(2)] by auto
qed

lemma volume_curve_monotone_witness:
  "\<exists>a b. airplay_volume_db_to_q15 (\<lambda>x. x) (minus_db 20) = Some a \<and>
    airplay_volume_db_to_q15 (\<lambda>x. x) (minus_db 15) = Some b \<and> 0 \<le> a \<and> a \<le> b \<and> b \<le> 32768"
  by (rule volume_curve_monotone [OF fl_ok_id]) (simp add: minus_db_def float_value_def)

text \<open>The default of -15 dB is the constant the gain starts with; NaN has no gain.\<close>

lemma default_gain: "airplay_volume_db_to_q15 (\<lambda>x. x) (minus_db 15) = Some (vl_q15 volume_init)"
  by (simp add: airplay_volume_db_to_q15_def minus_db_def float_value_def float_to_int_def volume_init_def)

lemma nan_has_no_gain: "airplay_apply_volume_db fl (strtof fl (ascii ''nan'')) v = None"
  by (simp add: strtof_def ascii_def to_lower_def c_space_def airplay_apply_volume_db_def airplay_volume_db_to_q15_def
      float_to_int_def)

text \<open>In exact arithmetic the two conversions are inverse.\<close>

lemma q15_volume_inverse:
  assumes "0 \<le> q" "q \<le> 32768"
  shows "airplay_volume_db_to_q15 (\<lambda>x. x) (airplay_q15_to_volume_db (\<lambda>x. x) q) = Some q"
proof (cases "q = 0 \<or> q = 32768")
  case True
  then show ?thesis
    by (auto simp: airplay_q15_to_volume_db_def airplay_volume_db_to_q15_def minus_db_def float_value_def)
next
  case False
  let ?c = "real_of_int q / 32768" and ?db = "sqrt (real_of_int q / 32768) * 30 - 30"
  have c: "0 < ?c" "?c < 1" using assms False by simp_all
  then have s: "0 < sqrt ?c" "sqrt ?c < 1" "sqrt ?c * sqrt ?c = ?c" by simp_all
  have v: "float_value (?db < 0) \<bar>?db\<bar> = ?db" by (simp add: float_value_def)
  have db: "-30 < ?db" "?db < 0" using s by simp_all
  have "(?db + 30) / 30 = sqrt ?c" by simp
  then have "volume_curve (\<lambda>x. x) ?db = real_of_int q" using s(3) by (simp add: volume_curve_def)
  then have "airplay_volume_db_to_q15 (\<lambda>x. x) (Num (?db < 0) \<bar>?db\<bar>) = Some q"
    unfolding db_to_q15_number [OF fl_ok_id] v Let_def using db by (simp del: minus_diff_eq)
  then show ?thesis using assms False by (simp add: airplay_q15_to_volume_db_def Let_def)
qed

end
