(* ===== verification/Rtsp_World.thy ===== *)
theory Rtsp_World
  imports Rtsp_Sdp Airplay_Volume Bplist_Info Bplist_Streams Hap_Pair Ntp_Clock Receiver_Events Rtsp_Response
begin

section \<open>What the RTSP handlers work on (main/rtsp/rtsp_handlers.c)\<close>

text \<open>
  The state the handlers share with the rest of the device, and the surroundings of one request. Calls
  that leave the modelled parts (events, the remote-control session, the yield to AirPlay, the flush
  of the output, closed descriptors, the DAC) are collected as effects in the order of the calls.
\<close>

datatype rtsp_effect =
  Emitted rtsp_event "rtsp_metadata option"
| Dacp_session bytes bytes u32
| Dacp_cleared
| Yielded
| Output_flushed
| Closed_fd int
| Dac_told c_float

record event_port =
  ep_client :: int
  ep_listen :: int
  ep_task :: bool
  ep_stop :: bool

definition event_port_init :: event_port where
  "event_port_init = \<lparr>ep_client = -1, ep_listen = -1, ep_task = False, ep_stop = False\<rparr>"

record server =
  sv_receiver :: receiver
  sv_ptp :: ptp_state
  sv_ntp :: ntp_state
  sv_sock :: sock
  sv_volume :: volume
  sv_event_port :: event_port
  sv_rsa_ready :: bool
  sv_effects :: "rtsp_effect list"

type_synonym session = "rtsp_conn \<times> server"

text \<open>
  The surroundings of a request: libraries, memory, configuration, identity, clocks, and the results of
  the system calls its handler makes. \<open>he_stack n\<close> are the initial contents of a local array of \<open>n\<close>
  bytes.
\<close>

record handler_env =
  he_crypto :: crypto
  he_rsa :: rsa_lib
  he_fl :: "real \<Rightarrow> real"
  he_alloc :: "nat \<Rightarrow> bool"
  he_malloc :: "nat \<Rightarrow> bytes option"
  he_stack :: "nat \<Rightarrow> bytes"
  he_force_v1 :: bool
  he_artwork :: bool
  he_bluetooth :: bool
  he_buffer_kb :: nat
  he_mac :: bytes
  he_name :: bytes
  he_pk :: bytes
  he_ip :: "u32 option"
  he_session :: "((bytes \<times> bytes) \<times> (bytes \<times> bytes)) option"
  he_srp_alloc :: bool
  he_mpi_ok :: "nat \<Rightarrow> bool"
  he_srp_salt :: bytes
  he_srp_secret :: bytes
  he_now_us :: int
  he_anchor :: anchor_clock
  he_switch :: start_env
  he_switch_again :: start_env
  he_buffered :: receiver_env
  he_start :: receiver_env
  he_stop_realtime :: start_env
  he_stop_buffered :: start_env
  he_decoder :: "bool \<times> bool"
  he_ntp :: "bool \<times> int \<times> bool"
  he_ptp_exits :: bool
  he_bind_data :: bind_env
  he_bind_control :: bind_env
  he_bind_timing :: bind_env
  he_bind_event :: bind_env
  he_event_exits :: "bool \<times> bool"
  he_event_task :: bool

definition effect :: "rtsp_effect \<Rightarrow> server \<Rightarrow> server" where
  "effect e v = v\<lparr>sv_effects := sv_effects v @ [e]\<rparr>"

definition closing :: "int list \<Rightarrow> server \<Rightarrow> server" where
  "closing fds v = v\<lparr>sv_effects := sv_effects v @ map Closed_fd fds\<rparr>"

definition at_receiver :: "(receiver \<Rightarrow> receiver) \<Rightarrow> server \<Rightarrow> server" where
  "at_receiver f v = v\<lparr>sv_receiver := f (sv_receiver v)\<rparr>"

definition receiver_does :: "(receiver \<Rightarrow> receiver mem) \<Rightarrow> server \<Rightarrow> server mem" where
  "receiver_does f v = do { r \<leftarrow> f (sv_receiver v); Some (v\<lparr>sv_receiver := r\<rparr>) }"

definition receiver_closes :: "(receiver \<Rightarrow> (receiver \<times> int list) mem) \<Rightarrow> server \<Rightarrow> server mem" where
  "receiver_closes f v = do { (r, closed) \<leftarrow> f (sv_receiver v); Some (closing closed (v\<lparr>sv_receiver := r\<rparr>)) }"

definition receiver_starts ::
  "(receiver \<times> ptp_state \<Rightarrow> (esp_err \<times> (receiver \<times> ptp_state) \<times> int list) mem) \<Rightarrow> server \<Rightarrow> (esp_err \<times> server) mem" where
  "receiver_starts f v = do {
     (err, (r, p), closed) \<leftarrow> f (sv_receiver v, sv_ptp v);
     Some (err, closing closed (v\<lparr>sv_receiver := r, sv_ptp := p\<rparr>))
   }"

text \<open>\<open>audio_receiver_notify_yield\<close>: the callback of the main program takes the output away from local sources.\<close>

definition audio_receiver_notify_yield :: "server \<Rightarrow> server" where
  "audio_receiver_notify_yield = effect Yielded"

subsection \<open>Responses\<close>

definition respond ::
  "handler_env \<Rightarrow> int \<Rightarrow> string \<Rightarrow> int \<Rightarrow> bytes option \<Rightarrow> bytes option \<Rightarrow> nat \<Rightarrow> session \<Rightarrow> session mem" where
  "respond E status_code status_text cseq extra body body_len s = do {
     (ok, c, sk) \<leftarrow> rtsp_send_response (he_crypto E) (he_alloc E) (he_malloc E) (fst s) status_code (ascii status_text)
       cseq extra body body_len (sv_sock (snd s));
     Some (c, (snd s)\<lparr>sv_sock := sk\<rparr>)
   }"

definition respond_http ::
  "handler_env \<Rightarrow> int \<Rightarrow> string \<Rightarrow> string \<Rightarrow> bytes option \<Rightarrow> nat \<Rightarrow> session \<Rightarrow> session mem" where
  "respond_http E status_code status_text content_type body body_len s = do {
     (ok, c, sk) \<leftarrow> rtsp_send_http_response (he_crypto E) (he_alloc E) (he_malloc E) (fst s) status_code
       (ascii status_text) (ascii content_type) body body_len (sv_sock (snd s));
     Some (c, (snd s)\<lparr>sv_sock := sk\<rparr>)
   }"

definition respond_ok :: "handler_env \<Rightarrow> int \<Rightarrow> session \<Rightarrow> session mem" where
  "respond_ok E cseq = respond E 200 ''OK'' cseq None None 0"

definition internal_error :: "handler_env \<Rightarrow> int \<Rightarrow> session \<Rightarrow> session mem" where
  "internal_error E cseq = respond E 500 ''Internal Error'' cseq None None 0"

definition content_line :: "string \<Rightarrow> bytes option" where
  "content_line type = Some (ascii ''Content-Type: '' @ ascii type @ crlf)"

text \<open>A text formatted into a local array of \<open>n\<close> bytes, and the C string then held there.\<close>

definition formatted :: "handler_env \<Rightarrow> nat \<Rightarrow> bytes \<Rightarrow> bytes mem" where
  "formatted E n t = do { (_, b) \<leftarrow> snprintf_at t (he_stack E n) 0 n; c_string b }"

subsection \<open>Requests\<close>

text \<open>The body of a request: the object of its bytes, and the memory from its start on, as a C string.\<close>

definition body_of :: "rtsp_request \<Rightarrow> bytes \<Rightarrow> bytes option mem" where
  "body_of req raw =
    (case rq_body req of
       None \<Rightarrow> Some None
     | Some i \<Rightarrow> do { bs \<leftarrow> rd_block raw i (rq_body_len req); Some (Some bs) })"

definition body_string :: "rtsp_request \<Rightarrow> bytes \<Rightarrow> bytes option mem" where
  "body_string req raw =
    (case rq_body req of
       None \<Rightarrow> Some None
     | Some i \<Rightarrow> do { s \<leftarrow> c_string (drop i raw); Some (Some s) })"

definition is_bplist :: "bytes \<Rightarrow> bool" where
  "is_bplist body \<longleftrightarrow> length body \<ge> 8 \<and> take 8 body = ascii ''bplist00''"

definition plist_body :: "bytes option \<Rightarrow> bytes option" where
  "plist_body body = (case body of None \<Rightarrow> None | Some b \<Rightarrow> if is_bplist b then Some b else None)"

text \<open>A named header of the request, looked up line by line without regard to case.\<close>

function raw_header_loop :: "bytes \<Rightarrow> bytes \<Rightarrow> bytes option" where
  "raw_header_loop h name =
    (if h = [] then None
     else
       let line = takeWhile (\<lambda>c. c \<noteq> 13 \<and> c \<noteq> 10) h in
       if length line \<ge> length name \<and> map to_lower (take (length name) line) = map to_lower name
       then Some (cstr (take 63 (dropWhile blank (drop (length name) line))))
       else raw_header_loop (dropWhile (\<lambda>c. c = 13 \<or> c = 10) (drop (length line) h)) name)"
  by auto

termination
proof (relation "measure (length \<circ> fst)")
  fix h name :: bytes and line
  assume a: "h \<noteq> []" "line = takeWhile (\<lambda>c. c \<noteq> 13 \<and> c \<noteq> 10) h"
  have le: "length (dropWhile (\<lambda>c. c = 13 \<or> c = 10) (drop (length line) h)) \<le> length (drop (length line) h)"
    by (rule length_dropWhile_le)
  show "((dropWhile (\<lambda>c. c = 13 \<or> c = 10) (drop (length line) h), name), h, name) \<in> measure (length \<circ> fst)"
  proof (cases "line = []")
    case True
    then obtain c t where h: "h = c # t" "c = 13 \<or> c = 10" using a by (cases h) (auto split: if_splits)
    then show ?thesis using True length_dropWhile_le [of "\<lambda>c. c = 13 \<or> c = 10" t] by auto
  next
    case False
    then show ?thesis using le a(1) by (cases h; cases line) auto
  qed
qed simp

declare raw_header_loop.simps [simp del]

definition parse_raw_header :: "bytes \<Rightarrow> nat \<Rightarrow> string \<Rightarrow> bytes option mem" where
  "parse_raw_header raw raw_len name = do {
     header_end \<leftarrow> rtsp_find_header_end raw raw_len;
     case header_end of
       None \<Rightarrow> Some None
     | Some e \<Rightarrow> do { head \<leftarrow> rd_block raw 0 e; Some (raw_header_loop head (ascii name)) }
   }"

definition request_uses_rtsp :: "rtsp_request \<Rightarrow> bool" where
  "request_uses_rtsp req \<longleftrightarrow> map to_lower (take 5 (rq_protocol req)) = ascii ''rtsp/''"

subsection \<open>Numbers of a property list\<close>

text \<open>
  The value of the bits of a double (\<open>None\<close> for an infinity or NaN), dropped to an integer; and the
  conversion to \<open>uint32_t\<close>, which is undefined out of range.
\<close>

definition double_trunc :: "u64 \<Rightarrow> int option" where
  "double_trunc w =
    (let neg = bit w 63;
         e = unat (drop_bit 52 w AND 0x7FF);
         f = int (unat (w AND 0xFFFFFFFFFFFFF));
         m = (if e = 0 then f else f + 2 ^ 52);
         k = (if e = 0 then 1 else int e) - 1075;
         i = (if k \<ge> 0 then m * 2 ^ nat k else m div 2 ^ nat (- k)) in
     if e = 0x7FF then None else Some (if neg then - i else i))"

definition single_trunc :: "u32 \<Rightarrow> int option" where
  "single_trunc w =
    (let neg = bit w 31;
         e = unat (drop_bit 23 w AND 0xFF);
         f = int (unat (w AND 0x7FFFFF));
         m = (if e = 0 then f else f + 2 ^ 23);
         k = (if e = 0 then 1 else int e) - 150;
         i = (if k \<ge> 0 then m * 2 ^ nat k else m div 2 ^ nat (- k)) in
     if e = 0xFF then None else Some (if neg then - i else i))"

definition real_to_u32 :: "bp_real \<Rightarrow> u32 mem" where
  "real_to_u32 x =
    (case (case x of Single w \<Rightarrow> single_trunc w | Double w \<Rightarrow> double_trunc w | Of_Int i \<Rightarrow> Some i) of
       None \<Rightarrow> None
     | Some i \<Rightarrow> if 0 \<le> i \<and> i < 2 ^ 32 then Some (of_int i) else None)"

definition real_is_zero :: "bp_real \<Rightarrow> bool" where
  "real_is_zero x = (case x of Single w \<Rightarrow> w AND 0x7FFFFFFF = 0 | Double w \<Rightarrow> w AND 0x7FFFFFFFFFFFFFFF = 0 | Of_Int i \<Rightarrow> i = 0)"

end
