(* ===== verification/Rtsp_Event_Port.thy ===== *)
theory Rtsp_Event_Port
  imports Rtsp_World
begin

section \<open>The event port and the RTP ports of a connection (main/rtsp/rtsp_handlers.c)\<close>

text \<open>
  The task that keeps the event connection of AirPlay 2, its start and stop, and the allocation of the
  ports named in the response to SETUP.
\<close>

subsection \<open>The task\<close>

text \<open>
  One call of \<open>select\<close>: an error, a time-out, or a readable socket with what the following \<open>accept\<close>
  (on the listener) or \<open>recv\<close> (on the client) returns; and the stop flag before and after it.
\<close>

datatype ep_select = Sel_error | Sel_timeout | Sel_ready int

definition event_port_end :: "event_port \<Rightarrow> event_port \<times> rtsp_effect list" where
  "event_port_end p =
    (p\<lparr>ep_client := if ep_client p \<ge> 0 then -1 else ep_client p, ep_listen := -1, ep_task := False\<rparr>,
     if ep_client p \<ge> 0 then [Closed_fd (ep_client p)] else [])"

definition with_effects :: "rtsp_effect list \<Rightarrow> event_port \<times> rtsp_effect list \<Rightarrow> event_port \<times> rtsp_effect list" where
  "with_effects es r = (fst r, es @ snd r)"

text \<open>
  The two nested loops: \<open>inner\<close> tells whether a client is watched. When the list of calls is used up the
  task waits in the next one.
\<close>

function event_port_loop :: "bool \<Rightarrow> (bool \<times> ep_select \<times> bool) list \<Rightarrow> event_port \<Rightarrow> event_port \<times> rtsp_effect list" where
  "event_port_loop inner [] p = (p, [])"
| "event_port_loop False ((stop_before, sel, stop_after) # es) p =
    (if stop_before \<or> stop_after then event_port_end p
     else case sel of
       Sel_error \<Rightarrow> event_port_end p
     | Sel_timeout \<Rightarrow> event_port_loop False es p
     | Sel_ready client \<Rightarrow>
         if client < 0 then event_port_end p
         else with_effects ((if ep_client p \<ge> 0 then [Closed_fd (ep_client p)] else []) @ [Emitted RTSP_EVENT_CLIENT_CONNECTED None])
           (event_port_loop True es (p\<lparr>ep_client := client\<rparr>)))"
| "event_port_loop True ((stop_before, sel, stop_after) # es) p =
    (if ep_client p < 0 \<or> stop_before then event_port_loop False ((stop_before, sel, stop_after) # es) p
     else case sel of
       Sel_error \<Rightarrow> event_port_loop False es p
     | Sel_timeout \<Rightarrow> event_port_loop (\<not> stop_after) es p
     | Sel_ready n \<Rightarrow>
         if stop_after then event_port_loop False es p
         else if n \<le> 0 then with_effects [Closed_fd (ep_client p)] (event_port_loop False es (p\<lparr>ep_client := -1\<rparr>))
         else event_port_loop True es p)"
  by pat_completeness auto

termination
  by (relation "measure (\<lambda>(inner, es, p). 2 * length es + of_bool inner)") auto

definition event_port_task :: "int \<Rightarrow> (bool \<times> ep_select \<times> bool) list \<Rightarrow> event_port \<Rightarrow> event_port \<times> rtsp_effect list" where
  "event_port_task listen_socket es p = event_port_loop False es (p\<lparr>ep_listen := listen_socket\<rparr>)"

subsection \<open>Start and stop\<close>

text \<open>
  Waiting for the task: \<open>exits\<close> tells whether it ends within the second, then it has cleaned up. The
  shut-downs before only wake it up.
\<close>

definition event_port_wait_for_task_stopped :: "bool \<Rightarrow> event_port \<Rightarrow> bool \<times> event_port \<times> rtsp_effect list" where
  "event_port_wait_for_task_stopped exits p =
    (if \<not> ep_task p then (True, p, [])
     else if exits then (True, event_port_end p) else (False, p, []))"

definition rtsp_stop_event_port_task :: "bool \<Rightarrow> event_port \<Rightarrow> event_port \<times> rtsp_effect list" where
  "rtsp_stop_event_port_task exits p =
    (if \<not> ep_task p then (p, [])
     else snd (event_port_wait_for_task_stopped exits (p\<lparr>ep_stop := True\<rparr>)))"

definition rtsp_start_event_port_task :: "bool \<times> bool \<Rightarrow> bool \<Rightarrow> int \<Rightarrow> event_port \<Rightarrow> esp_err \<times> event_port \<times> rtsp_effect list" where
  "rtsp_start_event_port_task exits created listen_socket p =
    (let (p, closes) = rtsp_stop_event_port_task (fst exits) p;
         (stopped, p, closes') = event_port_wait_for_task_stopped (snd exits) p in
     if \<not> stopped then (ESP_ERR_INVALID_STATE, p, closes @ closes')
     else let p = p\<lparr>ep_stop := False, ep_listen := -1, ep_task := False\<rparr> in
       if \<not> created then (ESP_FAIL, p, closes @ closes')
       else (ESP_OK, p\<lparr>ep_task := True\<rparr>, closes @ closes'))"

definition rtsp_event_port_listen_socket :: "event_port \<Rightarrow> int" where
  "rtsp_event_port_listen_socket p = ep_listen p"

subsection \<open>Sockets and ports\<close>

text \<open>The descriptor or -1, the port (unchanged on failure), and the descriptors closed.\<close>

definition rtsp_create_udp_socket :: "bind_env \<Rightarrow> u16 \<Rightarrow> int \<times> u16 \<times> int list" where
  "rtsp_create_udp_socket E port =
    (let (sock, bound_port, closed) = socket_utils_bind_udp E 0 in
     if sock < 0 then (-1, port, closed) else (sock, bound_port, closed))"

definition rtsp_create_event_socket :: "bind_env \<Rightarrow> u16 \<Rightarrow> int \<times> u16 \<times> int list" where
  "rtsp_create_event_socket E port =
    (let (sock, bound_port, closed) = socket_utils_bind_tcp_listener E 0 in
     if sock < 0 then (-1, port, closed) else (sock, bound_port, closed))"

text \<open>One port that is still zero: bound to find a free one, and released at once.\<close>

definition free_port :: "bind_env \<Rightarrow> u16 \<Rightarrow> u16 \<times> int list" where
  "free_port E port =
    (if port = 0 then
       let (sock, port, closed) = rtsp_create_udp_socket E port in
       (port, closed @ (if sock > 0 then [sock] else []))
     else (port, []))"

definition ensure_stream_ports :: "handler_env \<Rightarrow> bool \<Rightarrow> rtsp_conn \<Rightarrow> rtsp_conn \<times> int list" where
  "ensure_stream_ports E buffered c =
    (let (data, closed) = (if buffered then (rc_data_port c, []) else free_port (he_bind_data E) (rc_data_port c));
         (control, closed') = free_port (he_bind_control E) (rc_control_port c);
         (timing, closed'') = free_port (he_bind_timing E) (rc_timing_port c) in
     (c\<lparr>rc_data_port := data, rc_control_port := control, rc_timing_port := timing\<rparr>, closed @ closed' @ closed''))"

subsection \<open>No descriptor is lost or closed twice\<close>

text \<open>
  The clients a run accepts and the descriptors it closes: each accepted client is closed once, except
  the one that is being served when the run stops.
\<close>

fun closed_fds :: "rtsp_effect list \<Rightarrow> int list" where
  "closed_fds [] = []"
| "closed_fds (Closed_fd fd # es) = fd # closed_fds es"
| "closed_fds (e # es) = closed_fds es"

lemma closed_fds_append [simp]: "closed_fds (es @ es') = closed_fds es @ closed_fds es'"
  by (induction es rule: closed_fds.induct) simp_all

definition served :: "event_port \<Rightarrow> int list" where
  "served p = (if ep_client p \<ge> 0 then [ep_client p] else [])"

text \<open>The descriptors a run takes over from \<open>accept\<close>, in order.\<close>

function accepted :: "bool \<Rightarrow> (bool \<times> ep_select \<times> bool) list \<Rightarrow> event_port \<Rightarrow> int list" where
  "accepted inner [] p = []"
| "accepted False ((stop_before, sel, stop_after) # es) p =
    (if stop_before \<or> stop_after then []
     else case sel of
       Sel_error \<Rightarrow> []
     | Sel_timeout \<Rightarrow> accepted False es p
     | Sel_ready client \<Rightarrow> if client < 0 then [] else client # accepted True es (p\<lparr>ep_client := client\<rparr>))"
| "accepted True ((stop_before, sel, stop_after) # es) p =
    (if ep_client p < 0 \<or> stop_before then accepted False ((stop_before, sel, stop_after) # es) p
     else case sel of
       Sel_error \<Rightarrow> accepted False es p
     | Sel_timeout \<Rightarrow> accepted (\<not> stop_after) es p
     | Sel_ready n \<Rightarrow>
         if stop_after then accepted False es p
         else if n \<le> 0 then accepted False es (p\<lparr>ep_client := -1\<rparr>)
         else accepted True es p)"
  by pat_completeness auto

termination
  by (relation "measure (\<lambda>(inner, es, p). 2 * length es + of_bool inner)") auto

lemma event_port_end_simps [simp]:
  "served (fst (event_port_end p)) = []" "closed_fds (snd (event_port_end p)) = served p"
  by (simp_all add: event_port_end_def served_def)

lemma with_effects_simps [simp]:
  "fst (with_effects es r) = fst r" "snd (with_effects es r) = es @ snd r"
  by (simp_all add: with_effects_def)

lemma closed_served: "closed_fds (if ep_client p \<ge> 0 then [Closed_fd (ep_client p)] else []) = served p"
  by (simp add: served_def)

lemma event_port_loop_closes:
  "closed_fds (snd (event_port_loop inner es p)) @ served (fst (event_port_loop inner es p)) =
    served p @ accepted inner es p"
proof (induction inner es p rule: event_port_loop.induct)
  case (2 stop_before sel stop_after es p)
  have s: "served (p\<lparr>ep_client := c\<rparr>) = [c]" if "\<not> c < 0" for c using that by (simp add: served_def)
  show ?case
  proof (cases "stop_before \<or> stop_after")
    case False
    then show ?thesis using 2 s by (cases sel) (auto simp: closed_served)
  qed auto
next
  case (3 stop_before sel stop_after es p)
  show ?case
  proof (cases "ep_client p < 0 \<or> stop_before")
    case True
    then show ?thesis using 3(1) by simp
  next
    case False
    have s: "served (p\<lparr>ep_client := -1\<rparr>) = []" "served p = [ep_client p]" using False by (simp_all add: served_def)
    then show ?thesis using 3 False by (cases sel) auto
  qed
qed simp


end
