(* ===== verification/Rtsp_Handlers.thy ===== *)
theory Rtsp_Handlers
  imports Rtsp_Event_Port Bplist_Responses
begin

section \<open>The handlers of the RTSP methods, without SETUP (main/rtsp/rtsp_handlers.c)\<close>

text \<open>
  Each handler takes the surroundings, the parsed request and the memory of the raw request, and
  changes the connection and the server state. \<open>None\<close> is an access outside an object or another
  undefined operation.
\<close>

type_synonym handler = "handler_env \<Rightarrow> rtsp_request \<Rightarrow> bytes \<Rightarrow> nat \<Rightarrow> session \<Rightarrow> session mem"

subsection \<open>OPTIONS\<close>

definition public_methods :: bytes where
  "public_methods = ascii ''Public: ANNOUNCE, SETUP, RECORD, PAUSE, FLUSH, FLUSHBUFFERED, TEARDOWN, OPTIONS, POST, GET, SET_PARAMETER, GET_PARAMETER, SETPEERS, SETRATEANCHORTIME'' @ crlf"

definition handle_options :: handler where
  "handle_options E req raw raw_len s = do {
     let (c, v) = s;
     challenge \<leftarrow> parse_raw_header raw raw_len ''Apple-Challenge:'';
     case challenge of
       None \<Rightarrow> respond E 200 ''OK'' (rq_cseq req) (Some public_methods) None 0 (c, v)
     | Some text_b64 \<Rightarrow>
         let c = c\<lparr>rc_protocol_version := 1\<rparr> in
         (case he_ip E of
            None \<Rightarrow> respond E 200 ''OK'' (rq_cseq req) (Some public_methods) None 0 (c, v)
          | Some ip \<Rightarrow> do {
              (response, ready) \<leftarrow> rsa_apple_challenge_response (he_rsa E) text_b64 ip (he_mac E) 512 (he_stack E 32) (sv_rsa_ready v);
              let v = v\<lparr>sv_rsa_ready := ready\<rparr>;
              case response of
                None \<Rightarrow> respond E 200 ''OK'' (rq_cseq req) (Some public_methods) None 0 (c, v)
              | Some response_b64 \<Rightarrow> do {
                  headers \<leftarrow> formatted E 768 (public_methods @ ascii ''Apple-Response: '' @ response_b64 @ crlf);
                  respond E 200 ''OK'' (rq_cseq req) (Some headers) None 0 (c, v)
                }
            })
   }"

subsection \<open>GET\<close>

definition airplay_features :: "bool \<Rightarrow> u64" where
  "airplay_features force_v1 = (if force_v1 then push_bit 32 0x0 OR 0x5C4A00 else push_bit 32 0x1C340 OR 0x405C4A00)"

definition latency_entry :: "u64 \<Rightarrow> bw \<Rightarrow> bw mem" where
  "latency_entry type p = do {
     p \<leftarrow> plist_dict_begin p;
     p \<leftarrow> plist_dict_int (ascii ''type'') type p;
     p \<leftarrow> plist_dict_int (ascii ''audioType'') 0x64 p;
     p \<leftarrow> plist_dict_int (ascii ''inputLatencyMicros'') 0 p;
     p \<leftarrow> plist_dict_int (ascii ''outputLatencyMicros'') 0 p;
     plist_dict_end p
   }"

definition info_xml :: "bytes \<Rightarrow> bytes \<Rightarrow> bytes \<Rightarrow> bytes \<Rightarrow> u64 \<Rightarrow> u64 \<Rightarrow> (nat \<times> bw) mem" where
  "info_xml body device_id device_name pk features protocol_version = do {
     p \<leftarrow> plist_init body;
     p \<leftarrow> plist_begin p;
     p \<leftarrow> plist_dict_begin p;
     p \<leftarrow> plist_dict_string (ascii ''deviceid'') device_id p;
     p \<leftarrow> plist_dict_uint (ascii ''features'') features p;
     p \<leftarrow> plist_dict_string (ascii ''model'') (ascii ''AudioAccessory5,1'') p;
     p \<leftarrow> plist_dict_string (ascii ''protovers'') (ascii ''1.1'') p;
     p \<leftarrow> plist_dict_string (ascii ''srcvers'') (ascii ''377.40.00'') p;
     p \<leftarrow> plist_dict_int (ascii ''vv'') protocol_version p;
     p \<leftarrow> plist_dict_int (ascii ''statusFlags'') 4 p;
     p \<leftarrow> plist_dict_data (ascii ''pk'') pk p;
     p \<leftarrow> plist_dict_string (ascii ''pi'') (ascii ''00000000-0000-0000-0000-000000000000'') p;
     p \<leftarrow> plist_dict_string (ascii ''name'') device_name p;
     p \<leftarrow> plist_dict_array_begin (ascii ''audioFormats'') p;
     p \<leftarrow> plist_dict_begin p;
     p \<leftarrow> plist_dict_int (ascii ''type'') 96 p;
     p \<leftarrow> plist_dict_int (ascii ''audioInputFormats'') 0x01000000 p;
     p \<leftarrow> plist_dict_int (ascii ''audioOutputFormats'') 0x01000000 p;
     p \<leftarrow> plist_dict_end p;
     p \<leftarrow> plist_array_end p;
     p \<leftarrow> plist_dict_array_begin (ascii ''audioLatencies'') p;
     p \<leftarrow> latency_entry 96 p;
     p \<leftarrow> latency_entry 103 p;
     p \<leftarrow> plist_array_end p;
     p \<leftarrow> plist_dict_end p;
     plist_end p
   }"

definition handle_get :: handler where
  "handle_get E req raw raw_len s =
    (if rq_path req = ascii ''/info'' then
       let device_id = device_id_string (he_mac E);
           features = airplay_features (he_force_v1 E);
           protocol_version = (if he_force_v1 E then 1 else 2) in
       if request_uses_rtsp req then do {
         (body, body_len) \<leftarrow> bplist_build_info_response (he_stack E 1024) device_id (he_name E) (he_pk E) features
           (int protocol_version);
         if body_len = 0 then internal_error E (rq_cseq req) s
         else respond E 200 ''OK'' (rq_cseq req) (content_line ''application/x-apple-binary-plist'') (Some body) body_len s
       }
       else do {
         (body_len, (body, _)) \<leftarrow> info_xml (he_stack E 4096) device_id (he_name E) (he_pk E) features (of_nat protocol_version);
         respond_http E 200 ''OK'' ''text/x-apple-plist+xml'' (Some body) body_len s
       }
     else if request_uses_rtsp req
     then respond E 404 ''Not Found'' (rq_cseq req) (content_line ''text/plain'') (Some (ascii ''Not Found'')) 9 s
     else respond_http E 404 ''Not Found'' ''text/plain'' (Some (ascii ''Not Found'')) 9 s)"

subsection \<open>POST\<close>

definition octet_response :: "handler_env \<Rightarrow> int \<Rightarrow> bytes \<Rightarrow> nat \<Rightarrow> session \<Rightarrow> session mem" where
  "octet_response E cseq body body_len =
     respond E 200 ''OK'' cseq (content_line ''application/octet-stream'') (Some body) body_len"

text \<open>The pairing session of the connection, created when there is none.\<close>

definition ensure_session :: "handler_env \<Rightarrow> rtsp_conn \<Rightarrow> hap_session option" where
  "ensure_session E c =
    (case rc_hap_session c of
       Some h \<Rightarrow> Some h
     | None \<Rightarrow> (case he_session E of None \<Rightarrow> None | Some (device, ephemeral) \<Rightarrow> Some (hap_session_create device ephemeral)))"

text \<open>The state item of a pairing message, when there is one of one byte.\<close>

definition tlv_state :: "bytes \<Rightarrow> u8 option mem" where
  "tlv_state body = do {
     r \<leftarrow> tlv8_find body TLV_TYPE_STATE;
     case r of
       Some (k, n) \<Rightarrow> if n = 1 then do { b \<leftarrow> rd body k; Some (Some b) } else Some None
     | None \<Rightarrow> Some None
   }"

definition pair_setup_step :: "handler_env \<Rightarrow> hap_session \<Rightarrow> bytes option \<Rightarrow> bytes \<Rightarrow> pair_result" where
  "pair_setup_step E h body response =
    (case body of
       None \<Rightarrow> Some (ESP_FAIL, h, response, None)
     | Some b \<Rightarrow> if length b = 0 then Some (ESP_FAIL, h, response, None)
         else do {
           state \<leftarrow> tlv_state b;
           if state = Some 1 then hap_pair_setup_m1 (he_crypto E) (he_srp_alloc E) (he_mpi_ok E) (he_srp_salt E) (he_srp_secret E) h b response
           else if state = Some 3 then hap_pair_setup_m3 (he_crypto E) (he_mpi_ok E) h b response
           else if state = Some 5 then hap_pair_setup_m5 (he_crypto E) h b response
           else Some (ESP_FAIL, h, response, None)
         })"

definition filled :: "nat option \<Rightarrow> nat" where
  "filled n = (case n of None \<Rightarrow> 0 | Some k \<Rightarrow> k)"

definition post_pair_setup :: "handler_env \<Rightarrow> rtsp_request \<Rightarrow> bytes option \<Rightarrow> session \<Rightarrow> session mem" where
  "post_pair_setup E req body s =
    (let (c, v) = s; c = c\<lparr>rc_protocol_version := 2\<rparr> in
     case ensure_session E c of
       None \<Rightarrow> internal_error E (rq_cseq req) (c, v)
     | Some h \<Rightarrow>
         let c = c\<lparr>rc_hap_session := Some h\<rparr> in
         (case he_malloc E 2048 of
            None \<Rightarrow> internal_error E (rq_cseq req) (c, v)
          | Some response \<Rightarrow> do {
              (err, h, response, n) \<leftarrow> pair_setup_step E h body response;
              let c = c\<lparr>rc_hap_session := Some h\<rparr>;
              if err = ESP_OK \<and> filled n > 0 then do {
                (c, v) \<leftarrow> octet_response E (rq_cseq req) response (filled n) (c, v);
                Some (case rc_hap_session c of
                    None \<Rightarrow> (c, v)
                  | Some h \<Rightarrow> if hs_pair_setup_state h = 4 \<and> hs_session_established h
                      then (c\<lparr>rc_encrypted_mode := True\<rparr>, v) else (c, v))
              }
              else octet_response E (rq_cseq req) [0x06, 0x01, 0x02, 0x07, 0x01, 0x02] 6 (c, v)
            }))"

text \<open>The result of a step of pair-verify, and whether the connection switches to the encrypted mode.\<close>

definition pair_verify_step :: "handler_env \<Rightarrow> hap_session \<Rightarrow> bytes option \<Rightarrow> bytes \<Rightarrow> ((esp_err \<times> hap_session \<times> bytes \<times> nat option) \<times> bool) mem" where
  "pair_verify_step E h body response =
    (case body of
       None \<Rightarrow> Some ((ESP_FAIL, h, response, None), False)
     | Some b \<Rightarrow> if length b = 0 then Some ((ESP_FAIL, h, response, None), False)
         else do {
           state \<leftarrow> tlv_state b;
           case state of
             Some st \<Rightarrow>
               if st = 1 then do { r \<leftarrow> hap_pair_verify_m1 (he_crypto E) (he_mac E) h b response; Some (r, False) }
               else if st = 3 then do {
                 (err, h, response, n) \<leftarrow> hap_pair_verify_m3 (he_crypto E) h b response;
                 Some ((err, h, response, n), err = ESP_OK \<and> hs_pair_verify_state h = 4)
               }
               else Some ((ESP_FAIL, h, response, None), False)
           | None \<Rightarrow>
               if hs_pair_verify_state h = 0 then do { r \<leftarrow> hap_pair_verify_m1_raw (he_crypto E) h b response; Some (r, False) }
               else if hs_pair_verify_state h = 2 then do { r \<leftarrow> hap_pair_verify_m3_raw (he_crypto E) h b response; Some (r, False) }
               else Some ((ESP_FAIL, h, response, None), False)
         })"

definition post_pair_verify :: "handler_env \<Rightarrow> rtsp_request \<Rightarrow> bytes option \<Rightarrow> session \<Rightarrow> session mem" where
  "post_pair_verify E req body s =
    (let (c, v) = s; c = c\<lparr>rc_protocol_version := 2\<rparr> in
     case ensure_session E c of
       None \<Rightarrow> internal_error E (rq_cseq req) (c, v)
     | Some h \<Rightarrow>
         let c = c\<lparr>rc_hap_session := Some h\<rparr> in
         (case he_malloc E 1024 of
            None \<Rightarrow> internal_error E (rq_cseq req) (c, v)
          | Some response \<Rightarrow> do {
              ((err, h, response, n), encrypt) \<leftarrow> pair_verify_step E h body response;
              let c = c\<lparr>rc_hap_session := Some h, rc_encrypted_mode := rc_encrypted_mode c \<or> encrypt\<rparr>;
              if err = ESP_OK \<and> filled n > 0 then octet_response E (rq_cseq req) response (filled n) (c, v)
              else octet_response E (rq_cseq req) [0x06, 0x01, 0x04, 0x07, 0x01, 0x02] 6 (c, v)
            }))"

definition post_fp_setup :: "handler_env \<Rightarrow> rtsp_request \<Rightarrow> bytes option \<Rightarrow> session \<Rightarrow> session mem" where
  "post_fp_setup E req body s = do {
     response \<leftarrow> (case body of
         None \<Rightarrow> Some None
       | Some b \<Rightarrow> if length b \<ge> 16 then rtsp_fairplay_handle (he_malloc E) b (length b) else Some None);
     case response of
       Some r \<Rightarrow> octet_response E (rq_cseq req) r (length r) s
     | None \<Rightarrow> octet_response E (rq_cseq req) [0, 0] 1 s
   }"

text \<open>A lookup whose result is only logged.\<close>

definition look_up :: "bytes option \<Rightarrow> string \<Rightarrow> unit mem" where
  "look_up body key =
    (case plist_body body of None \<Rightarrow> Some () | Some b \<Rightarrow> do { _ \<leftarrow> bplist_find_int b (ascii key); Some () })"

definition post_feedback :: "handler_env \<Rightarrow> rtsp_request \<Rightarrow> bytes option \<Rightarrow> session \<Rightarrow> session mem" where
  "post_feedback E req body s = do {
     _ \<leftarrow> look_up body ''networkTimeSecs'';
     if rc_stream_type (fst s) = 103 then do {
       (response, response_len) \<leftarrow> bplist_build_feedback_response (he_stack E 128) (rc_stream_type (fst s)) 0x40E5888000000000;
       if response_len > 0
       then respond E 200 ''OK'' (rq_cseq req) (content_line ''application/x-apple-binary-plist'') (Some response) response_len s
       else respond_ok E (rq_cseq req) s
     }
     else respond_ok E (rq_cseq req) s
   }"

definition handle_post :: handler where
  "handle_post E req raw raw_len s = do {
     body \<leftarrow> body_of req raw;
     if contains (rq_path req) (ascii ''/pair-setup'') then post_pair_setup E req body s
     else if contains (rq_path req) (ascii ''/pair-verify'') then post_pair_verify E req body s
     else if contains (rq_path req) (ascii ''/fp-setup'') then post_fp_setup E req body s
     else if contains (rq_path req) (ascii ''/command'') then do { _ \<leftarrow> look_up body ''type''; respond_ok E (rq_cseq req) s }
     else if contains (rq_path req) (ascii ''/feedback'') then post_feedback E req body s
     else respond_ok E (rq_cseq req) s
   }"

subsection \<open>ANNOUNCE and RECORD\<close>

definition parse_sdp :: "handler_env \<Rightarrow> bytes \<Rightarrow> session \<Rightarrow> session mem" where
  "parse_sdp E sdp s = do {
     let (c, v) = s;
     format \<leftarrow> sdp_format sdp;
     (v1, encrypt, ready) \<leftarrow> sdp_encryption (he_rsa E) (he_stack E 512) sdp (sv_rsa_ready v);
     codec \<leftarrow> c_string (fm_codec format);
     conn_codec \<leftarrow> strlcpy (rc_codec c) codec;
     let c = c\<lparr>rc_protocol_version := if v1 then 1 else rc_protocol_version c, rc_codec := conn_codec,
       rc_sample_rate := fm_sample_rate format, rc_channels := fm_channels format,
       rc_bits_per_sample := fm_bits_per_sample format\<rparr>;
     v \<leftarrow> receiver_does (audio_receiver_set_format (fst (he_decoder E)) (snd (he_decoder E)) format) (v\<lparr>sv_rsa_ready := ready\<rparr>);
     Some (c, if en_type encrypt \<noteq> AUDIO_ENCRYPT_NONE then at_receiver (audio_receiver_set_encryption (Some encrypt)) v else v)
   }"

definition handle_announce :: handler where
  "handle_announce E req raw raw_len s = do {
     sdp \<leftarrow> body_string req raw;
     s \<leftarrow> (case sdp of
         Some text_sdp \<Rightarrow> if rq_body_len req > 0 then parse_sdp E text_sdp s else Some s
       | None \<Rightarrow> Some s);
     (c, v) \<leftarrow> respond_ok E (rq_cseq req) s;
     Some (c, audio_receiver_notify_yield v)
   }"

text \<open>The result tells whether the receiver runs; if not, the request is answered.\<close>

definition start_audio_receiver_or_fail :: "handler_env \<Rightarrow> rtsp_request \<Rightarrow> int \<Rightarrow> session \<Rightarrow> (bool \<times> session) mem" where
  "start_audio_receiver_or_fail E req stream_type s = do {
     let (c, v) = s;
     v \<leftarrow> receiver_closes (audio_receiver_set_stream_type (he_switch_again E) (of_int stream_type)) v;
     (err, v) \<leftarrow> receiver_starts (audio_receiver_start_stream (he_start E) (rc_data_port c) (rc_control_port c) (rc_buffered_port c)) v;
     if err \<noteq> ESP_OK then do { s \<leftarrow> internal_error E (rq_cseq req) (c, v); Some (False, s) }
     else Some (True, (c, v))
   }"

definition set_client_control :: "rtsp_conn \<Rightarrow> server \<Rightarrow> server" where
  "set_client_control c v =
    (if rc_client_control_port c > 0 \<and> rc_client_ip c \<noteq> 0
     then at_receiver (audio_receiver_set_client_control (rc_client_ip c) (rc_client_control_port c)) v else v)"

text \<open>With Bluetooth, the DAC is put back to the volume of AirPlay.\<close>

definition restore_dac_volume :: "handler_env \<Rightarrow> server \<Rightarrow> server" where
  "restore_dac_volume E v = (if he_bluetooth E then effect (Dac_told (airplay_get_volume_db (sv_volume v))) v else v)"

definition handle_record :: handler where
  "handle_record E req raw raw_len s = do {
     let (c, v) = s;
     let v = restore_dac_volume E v;
     (ok, (c, v)) \<leftarrow> (if rc_stream_paused c then do {
         v \<leftarrow> receiver_does (audio_receiver_set_playing (he_now_us E) True) v;
         Some (True, (c, v))
       }
       else do {
         (ok, (c, v)) \<leftarrow> start_audio_receiver_or_fail E req (rc_stream_type c) (c, v);
         if \<not> ok then Some (False, (c, v))
         else do {
           v \<leftarrow> receiver_does (audio_receiver_set_playing (he_now_us E) True) (set_client_control c v);
           Some (True, (c, v))
         }
       });
     if \<not> ok then Some (c, v)
     else do {
       headers \<leftarrow> formatted E 128 (ascii ''Audio-Latency: '' @ dec_nat 0 @ crlf @ ascii ''Audio-Jack-Status: connected'' @ crlf);
       (c, v) \<leftarrow> respond E 200 ''OK'' (rq_cseq req) (Some headers) None 0
         (c\<lparr>rc_stream_paused := False\<rparr>, effect (Emitted RTSP_EVENT_PLAYING None) v);
       Some (c, audio_receiver_notify_yield v)
     }
   }"

end
