(* ===== verification/Rtsp_Control.thy ===== *)
theory Rtsp_Control
  imports Rtsp_Handlers
begin

section \<open>The handlers of the playback controls (main/rtsp/rtsp_handlers.c)\<close>

text \<open>
  SET_PARAMETER, GET_PARAMETER, PAUSE, FLUSH, FLUSHBUFFERED, TEARDOWN, SETRATEANCHORTIME and SETPEERS.
\<close>

subsection \<open>SET_PARAMETER\<close>

definition apply_volume :: "handler_env \<Rightarrow> c_float \<Rightarrow> server \<Rightarrow> server mem" where
  "apply_volume E volume_db v = do {
     (vol, dac) \<leftarrow> airplay_apply_volume_db (he_fl E) volume_db (sv_volume v);
     let v = v\<lparr>sv_volume := vol\<rparr>;
     Some (case dac of None \<Rightarrow> v | Some db \<Rightarrow> effect (Dac_told db) v)
   }"

definition spaces_skipped :: "bytes \<Rightarrow> bytes" where
  "spaces_skipped s = dropWhile (\<lambda>c. c = 32) s"

text \<open>The metadata gathered so far, and whether any was found.\<close>

type_synonym gathered = "rtsp_metadata \<times> bool"

text \<open>A progress line anywhere in the request, copied to a local array of 64 bytes.\<close>

definition progress_header :: "bytes \<Rightarrow> gathered \<Rightarrow> gathered mem" where
  "progress_header raw g = do {
     s \<leftarrow> c_string raw;
     let hdr = (case find_sub (ascii ''progress:'') s of
         Some i \<Rightarrow> Some i
       | None \<Rightarrow> find_sub (ascii ''Progress:'') s);
     Some (case hdr of
         None \<Rightarrow> g
       | Some i \<Rightarrow>
           let h = drop i s in
           (case find_sub [13, 10] h of
              None \<Rightarrow> g
            | Some line_end \<Rightarrow>
                let val = spaces_skipped (drop 9 h);
                    val_len = sz_sub line_end (length h - length val) in
                if val_len < 64 then (parse_progress (take val_len val) 44100 (fst g), True) else g))
   }"

definition set_text_parameters :: "handler_env \<Rightarrow> bytes \<Rightarrow> gathered \<times> server \<Rightarrow> (gathered \<times> server) mem" where
  "set_text_parameters E body x = do {
     let (g, v) = x;
     v \<leftarrow> (case find_sub (ascii ''volume:'') body of
         Some i \<Rightarrow> apply_volume E (strtof (he_fl E) (drop (i + 7) body)) v
       | None \<Rightarrow> Some v);
     Some (case find_sub (ascii ''progress:'') body of
         Some i \<Rightarrow> ((parse_progress (spaces_skipped (drop (i + 9) body)) 44100 (fst g), True), v)
       | None \<Rightarrow> (g, v))
   }"

text \<open>One text of a property list.\<close>

definition plist_text_field :: "handler_env \<Rightarrow> bytes \<Rightarrow> string \<Rightarrow> bytes \<Rightarrow> (bytes \<times> bool) mem" where
  "plist_text_field E body key dst = do {
     (found, str_val) \<leftarrow> bplist_find_string body (ascii key) (he_stack E 64);
     if found then do {
       t \<leftarrow> c_string str_val;
       dst \<leftarrow> strlcpy dst t;
       Some (dst, True)
     }
     else Some (dst, False)
   }"

definition plist_metadata :: "handler_env \<Rightarrow> bytes \<Rightarrow> gathered \<Rightarrow> gathered mem" where
  "plist_metadata E body g = do {
     _ \<leftarrow> bplist_find_int body (ascii ''networkTimeSecs'');
     _ \<leftarrow> bplist_find_real body (ascii ''rate'');
     let (m, has) = g;
     (t, found) \<leftarrow> plist_text_field E body ''itemName'' (md_title m);
     let m = m\<lparr>md_title := t\<rparr>;
     (t, found') \<leftarrow> plist_text_field E body ''artistName'' (md_artist m);
     let m = m\<lparr>md_artist := t\<rparr>;
     (t, found'') \<leftarrow> plist_text_field E body ''albumName'' (md_album m);
     let m = m\<lparr>md_album := t\<rparr>;
     let has = (has \<or> found \<or> found' \<or> found'');
     elapsed \<leftarrow> bplist_find_real body (ascii ''elapsed'');
     case elapsed of
       None \<Rightarrow> Some (m, has)
     | Some x \<Rightarrow> do {
         pos \<leftarrow> real_to_u32 x;
         let m = m\<lparr>md_position_secs := pos\<rparr>;
         duration \<leftarrow> bplist_find_real body (ascii ''duration'');
         case duration of
           None \<Rightarrow> Some (m, True)
         | Some y \<Rightarrow> do { dur \<leftarrow> real_to_u32 y; Some (m\<lparr>md_duration_secs := dur\<rparr>, True) }
       }
   }"

definition set_parameter_body :: "handler_env \<Rightarrow> rtsp_request \<Rightarrow> bytes \<Rightarrow> gathered \<times> server \<Rightarrow> (gathered \<times> server) mem" where
  "set_parameter_body E req raw x =
    (let ct = rq_content_type req; (g, v) = x in
     if contains ct (ascii ''text/parameters'') then do {
       body \<leftarrow> body_string req raw;
       case body of None \<Rightarrow> Some (g, v) | Some b \<Rightarrow> set_text_parameters E b (g, v)
     }
     else if contains ct (ascii ''application/x-dmap-tagged'') then do {
       body \<leftarrow> body_of req raw;
       case body of
         None \<Rightarrow> Some (g, v)
       | Some b \<Rightarrow>
           if length b > 0 then do {
             m \<leftarrow> parse_dmap_metadata b (length b) 0 0 (fst g);
             Some ((m, True), v)
           }
           else Some (g, v)
     }
     else if contains ct (ascii ''image/jpeg'') \<or> contains ct (ascii ''image/png'') then
       Some (if he_artwork E then (((fst g)\<lparr>md_has_artwork := True\<rparr>, True), v) else (g, v))
     else if contains ct (ascii ''application/x-apple-binary-plist'') then do {
       body \<leftarrow> body_of req raw;
       case plist_body body of
         None \<Rightarrow> Some (g, v)
       | Some b \<Rightarrow> do { g \<leftarrow> plist_metadata E b g; Some (g, v) }
     }
     else Some (g, v))"

definition handle_set_parameter :: handler where
  "handle_set_parameter E req raw raw_len s = do {
     let (c, v) = s;
     g \<leftarrow> progress_header raw (metadata_zero, False);
     ((m, has_metadata), v) \<leftarrow> set_parameter_body E req raw (g, v);
     let v = (if has_metadata then effect (Emitted RTSP_EVENT_METADATA (Some m)) v else v);
     respond_ok E (rq_cseq req) (c, v)
   }"

subsection \<open>GET_PARAMETER\<close>

text \<open>
  The volume is formatted into an array of 32 bytes and sent with the length of the whole text.
\<close>

definition handle_get_parameter :: handler where
  "handle_get_parameter E req raw raw_len s = do {
     body \<leftarrow> body_string req raw;
     case body of
       Some b \<Rightarrow>
         if rq_body_len req > 0 \<and> contains b (ascii ''volume'') then do {
           (vol_len, vol_response) \<leftarrow> snprintf_at (volume_text (sv_volume (snd s))) (he_stack E 32) 0 32;
           respond E 200 ''OK'' (rq_cseq req) (content_line ''text/parameters'') (Some vol_response)
             (nat (vol_len mod 2 ^ 32)) s
         }
         else respond_ok E (rq_cseq req) s
     | None \<Rightarrow> respond_ok E (rq_cseq req) s
   }"

subsection \<open>PAUSE and FLUSH\<close>

definition handle_pause :: handler where
  "handle_pause E req raw raw_len s =
    (let (c, v) = s; v = effect Output_flushed (at_receiver audio_receiver_pause v) in
     respond_ok E (rq_cseq req) (c\<lparr>rc_stream_paused := True\<rparr>, v))"

definition seek_flush :: "session \<Rightarrow> session mem" where
  "seek_flush s = do {
     v \<leftarrow> receiver_does audio_receiver_seek_flush (snd s);
     Some (fst s, effect Output_flushed v)
   }"

definition handle_flush :: handler where
  "handle_flush E req raw raw_len s = do {
     s \<leftarrow> seek_flush s;
     respond_ok E (rq_cseq req) s
   }"

text \<open>The time stamp of a deferred flush, when all four fields are there.\<close>

definition deferred_flush :: "bytes \<Rightarrow> u32 option mem" where
  "deferred_flush body = do {
     from_seq \<leftarrow> bplist_find_int body (ascii ''flushFromSeq'');
     from_ts \<leftarrow> bplist_find_int body (ascii ''flushFromTS'');
     until_seq \<leftarrow> bplist_find_int body (ascii ''flushUntilSeq'');
     until_ts \<leftarrow> bplist_find_int body (ascii ''flushUntilTS'');
     Some (if from_seq \<noteq> None \<and> from_ts \<noteq> None \<and> until_seq \<noteq> None then map_option of_int until_ts else None)
   }"

definition handle_flushbuffered :: handler where
  "handle_flushbuffered E req raw raw_len s = do {
     body \<leftarrow> body_of req raw;
     deferred \<leftarrow> (case plist_body body of None \<Rightarrow> Some None | Some b \<Rightarrow> deferred_flush b);
     s \<leftarrow> (case deferred of
         Some ts \<Rightarrow> Some (fst s, at_receiver (audio_receiver_set_deferred_flush ts) (snd s))
       | None \<Rightarrow> seek_flush s);
     respond_ok E (rq_cseq req) s
   }"

subsection \<open>TEARDOWN\<close>

definition has_streams :: "bytes option \<Rightarrow> nat option mem" where
  "has_streams body = (case plist_body body of None \<Rightarrow> Some None | Some b \<Rightarrow> bplist_get_streams_count b)"

text \<open>The end of the session, not only of its streams.\<close>

definition full_teardown :: "handler_env \<Rightarrow> session \<Rightarrow> session mem" where
  "full_teardown E s = do {
     let (c, v) = s;
     (c, v) \<leftarrow> (if rc_protocol_version c \<noteq> 1 then do {
         dacp_id \<leftarrow> wr (rc_dacp_id c) 0 [0];
         active_remote \<leftarrow> wr (rc_active_remote c) 0 [0];
         Some (c\<lparr>rc_dacp_id := dacp_id, rc_active_remote := active_remote\<rparr>, effect Dacp_cleared v)
       }
       else Some (c, v));
     let (n, closed) = ntp_clock_stop (fst (he_ntp E)) (sv_ntp v);
     Some (c\<lparr>rc_timing_port := 0\<rparr>, closing closed (v\<lparr>sv_ntp := n\<rparr>))
   }"

definition handle_teardown :: handler where
  "handle_teardown E req raw raw_len s = do {
     let (c, v) = s;
     body \<leftarrow> body_of req raw;
     streams \<leftarrow> has_streams body;
     v \<leftarrow> (if streams \<noteq> None then do {
         v \<leftarrow> receiver_does (audio_receiver_set_playing (he_now_us E) False) v;
         Some (effect (Emitted RTSP_EVENT_PAUSED None) v)
       }
       else Some v);
     v \<leftarrow> receiver_closes (audio_receiver_stop (he_stop_realtime E) (he_stop_buffered E)) v;
     let v = effect Output_flushed v;
     let v = v\<lparr>sv_ptp := ptp_clock_clear (sv_ptp v)\<rparr>;
     let c = c\<lparr>rc_stream_active := False, rc_stream_paused := (streams \<noteq> None)\<rparr>;
     s \<leftarrow> (if streams = None then full_teardown E (c, v) else Some (c, v));
     respond_ok E (rq_cseq req) s
   }"

subsection \<open>SETRATEANCHORTIME and SETPEERS\<close>

text \<open>The rate, and the anchor when its seconds and its RTP time are not zero.\<close>

definition plist_u64 :: "bytes \<Rightarrow> string \<Rightarrow> u64 mem" where
  "plist_u64 body key = do { v \<leftarrow> bplist_find_int body (ascii key); Some (case v of None \<Rightarrow> 0 | Some i \<Rightarrow> of_int i) }"

definition rate_anchor :: "bytes \<Rightarrow> (bp_real \<times> (u64 \<times> u64 \<times> u32) option) mem" where
  "rate_anchor body = do {
     r \<leftarrow> bplist_find_real body (ascii ''rate'');
     rate \<leftarrow> (case r of
         Some x \<Rightarrow> Some x
       | None \<Rightarrow> do {
           i \<leftarrow> bplist_find_int body (ascii ''rate'');
           Some (case i of Some i \<Rightarrow> Of_Int i | None \<Rightarrow> Of_Int 1)
         });
     clock_id \<leftarrow> plist_u64 body ''networkTimeTimelineID'';
     network_time_secs \<leftarrow> plist_u64 body ''networkTimeSecs'';
     network_time_frac \<leftarrow> plist_u64 body ''networkTimeFrac'';
     rtp_time \<leftarrow> plist_u64 body ''rtpTime'';
     Some (rate,
       if network_time_secs \<noteq> 0 \<and> rtp_time \<noteq> 0 then
         let frac = drop_bit 32 network_time_frac;
             frac = drop_bit 32 (frac * 1000000000) in
         Some (clock_id, network_time_secs * 1000000000 + frac, ucast rtp_time)
       else None)
   }"

definition handle_setrateanchortime :: handler where
  "handle_setrateanchortime E req raw raw_len s = do {
     let (c, v) = s;
     body \<leftarrow> body_of req raw;
     (rate, anchor) \<leftarrow> (case plist_body body of None \<Rightarrow> Some (Of_Int 1, None) | Some b \<Rightarrow> rate_anchor b);
     v \<leftarrow> (case anchor of
         None \<Rightarrow> Some v
       | Some (clock_id, network_time_ns, rtp_time) \<Rightarrow> do {
           (r, p) \<leftarrow> audio_receiver_set_anchor_time (he_anchor E) clock_id network_time_ns rtp_time (sv_receiver v, sv_ptp v);
           Some (v\<lparr>sv_receiver := r, sv_ptp := p\<rparr>)
         });
     if real_is_zero rate then
       let v = effect (Emitted RTSP_EVENT_PAUSED None) v;
           v = effect Output_flushed (at_receiver audio_receiver_pause v) in
       respond_ok E (rq_cseq req) (c\<lparr>rc_stream_paused := True\<rparr>, v)
     else do {
       v \<leftarrow> receiver_does (audio_receiver_set_playing (he_now_us E) True) v;
       respond_ok E (rq_cseq req) (c\<lparr>rc_stream_paused := False\<rparr>, effect (Emitted RTSP_EVENT_PLAYING None) v)
     }
   }"

definition handle_setpeers :: handler where
  "handle_setpeers E req raw raw_len s = respond_ok E (rq_cseq req) s"

end
