(* ===== verification/Rtsp_Setup.thy ===== *)
theory Rtsp_Setup
  imports Rtsp_Control
begin

section \<open>SETUP (main/rtsp/rtsp_handlers.c)\<close>

text \<open>
  The handler of SETUP serves three requests: the first SETUP of an AirPlay 2 session, the SETUP of its
  streams, and the SETUP of AirPlay 1 with a Transport header. It is modelled in the parts the code has:
  the codecs of the streams, the keys, the event port, and the three ways to finish.
\<close>

subsection \<open>Codecs\<close>

definition configure_codec :: "string \<Rightarrow> int \<Rightarrow> int \<Rightarrow> audio_format \<Rightarrow> audio_format mem" where
  "configure_codec name sr spf f = do {
     codec \<leftarrow> wr (fm_codec f) 0 (ascii name @ [0]);
     Some (f\<lparr>fm_codec := codec, fm_sample_rate := sint (of_int sr :: u32), fm_channels := 2, fm_bits_per_sample := 16,
       fm_frame_size := sint (of_int spf :: u32), fm_max_samples_per_frame := of_int spf, fm_sample_size := 16,
       fm_num_channels := 2, fm_sample_rate_config := of_int sr\<rparr>)
   }"

definition codec_registry :: "(string \<times> int) list" where
  "codec_registry = [(''ALAC'', 2), (''AAC'', 4), (''AAC-ELD'', 8), (''OPUS'', 64)]"

definition rtsp_codec_configure :: "int \<Rightarrow> audio_format \<Rightarrow> int \<Rightarrow> int \<Rightarrow> (bool \<times> audio_format) mem" where
  "rtsp_codec_configure type_id f sample_rate samples_per_frame =
    (case find (\<lambda>codec. snd codec = type_id) codec_registry of
       Some codec \<Rightarrow> do { f \<leftarrow> configure_codec (fst codec) sample_rate samples_per_frame f; Some (True, f) }
     | None \<Rightarrow> do { f \<leftarrow> configure_codec ''ALAC'' sample_rate samples_per_frame f; Some (False, f) })"

definition set_codec :: "handler_env \<Rightarrow> int \<Rightarrow> int \<Rightarrow> int \<Rightarrow> server \<Rightarrow> server mem" where
  "set_codec E codec_type sample_rate samples_per_frame v = do {
     (_, format) \<leftarrow> rtsp_codec_configure codec_type format_zero sample_rate samples_per_frame;
     receiver_does (audio_receiver_set_format (fst (he_decoder E)) (snd (he_decoder E)) format) v
   }"

text \<open>The entries of a stream that choose its codec, and the control port of the client.\<close>

record stream_params =
  sp_codec_type :: int
  sp_sample_rate :: int
  sp_samples_per_frame :: int
  sp_control_port :: u16

definition stream_param :: "kv_info \<Rightarrow> stream_params \<Rightarrow> stream_params" where
  "stream_param kv p =
    (if kv_type kv \<noteq> VALUE_INT then p
     else if kv_key kv = ascii ''ct'' then p\<lparr>sp_codec_type := kv_int kv\<rparr>
     else if kv_key kv = ascii ''sr'' then p\<lparr>sp_sample_rate := kv_int kv\<rparr>
     else if kv_key kv = ascii ''spf'' then p\<lparr>sp_samples_per_frame := kv_int kv\<rparr>
     else if kv_key kv = ascii ''controlPort'' then p\<lparr>sp_control_port := of_int (kv_int kv)\<rparr>
     else p)"

definition stream_params_of :: "u16 \<Rightarrow> kv_info list \<Rightarrow> stream_params" where
  "stream_params_of control_port kvs = fold stream_param kvs
     \<lparr>sp_codec_type = -1, sp_sample_rate = 44100, sp_samples_per_frame = 352, sp_control_port = control_port\<rparr>"

text \<open>One stream of the request.\<close>

definition setup_stream_codec :: "handler_env \<Rightarrow> bytes \<Rightarrow> nat \<Rightarrow> session \<Rightarrow> session mem" where
  "setup_stream_codec E body i s = do {
     info \<leftarrow> bplist_get_stream_info body i;
     case info of
       None \<Rightarrow> Some s
     | Some si \<Rightarrow> do {
         (c, v) \<leftarrow> (if i = 0 then do {
             v \<leftarrow> receiver_closes (audio_receiver_set_stream_type (he_switch E) (of_int (si_type si))) (snd s);
             Some ((fst s)\<lparr>rc_stream_type := si_type si\<rparr>, v)
           }
           else Some s);
         kvs \<leftarrow> bplist_get_stream_kv_info body i 16;
         case kvs of
           None \<Rightarrow> Some (c, v)
         | Some kvs \<Rightarrow> do {
             let p = stream_params_of (rc_client_control_port c) kvs;
             v \<leftarrow> set_codec E (sp_codec_type p) (sp_sample_rate p) (sp_samples_per_frame p) v;
             Some (c\<lparr>rc_client_control_port := sp_control_port p\<rparr>, v)
           }
       }
   }"

fun setup_stream_codecs :: "handler_env \<Rightarrow> bytes \<Rightarrow> nat list \<Rightarrow> session \<Rightarrow> session mem" where
  "setup_stream_codecs E body [] s = Some s"
| "setup_stream_codecs E body (i # is) s = do { s \<leftarrow> setup_stream_codec E body i s; setup_stream_codecs E body is s }"

subsection \<open>Keys\<close>

text \<open>A key looked up anywhere in the property list, when its stream does not carry one.\<close>

definition deep_field :: "bytes \<Rightarrow> string \<Rightarrow> crypto_field \<Rightarrow> crypto_field mem" where
  "deep_field body key f =
    (case cf_buf f of
       None \<Rightarrow> Some f
     | Some buf \<Rightarrow> do {
         r \<leftarrow> bplist_find_data_deep body (ascii key) buf;
         Some (case r of None \<Rightarrow> f | Some (buf, n) \<Rightarrow> f\<lparr>cf_buf := Some buf, cf_len := n\<rparr>)
       })"

definition setup_key_fields :: "handler_env \<Rightarrow> int \<Rightarrow> bytes \<Rightarrow> crypto_fields mem" where
  "setup_key_fields E stream_type body = do {
     (has_stream_crypto, (ekey, eiv, shk)) \<leftarrow> bplist_find_stream_crypto body (if stream_type > 0 then stream_type else 96)
       (Some (he_stack E 64)) (Some (he_stack E 16)) (Some (he_stack E 32));
     if \<not> has_stream_crypto \<or> (cf_len ekey = 0 \<and> cf_len shk = 0) then do {
       ekey \<leftarrow> deep_field body ''ekey'' ekey;
       eiv \<leftarrow> deep_field body ''eiv'' eiv;
       shk \<leftarrow> deep_field body ''shk'' shk;
       Some (ekey, eiv, shk)
     }
     else Some (ekey, eiv, shk)
   }"

definition field_data :: "crypto_field \<Rightarrow> nat \<Rightarrow> bytes mem" where
  "field_data f n = (case cf_buf f of None \<Rightarrow> None | Some buf \<Rightarrow> rd_block buf 0 n)"

text \<open>A ChaCha20 key of at most 32 bytes, with the vector of the stream when it has all of it.\<close>

definition chacha_encryption :: "bytes \<Rightarrow> crypto_field \<Rightarrow> audio_encrypt mem" where
  "chacha_encryption key eiv = do {
     let n = (if length key > 32 then 32 else length key);
     k \<leftarrow> wr (en_key encrypt_zero) 0 (take n key);
     iv \<leftarrow> (if cf_len eiv \<ge> 16 then do { b \<leftarrow> field_data eiv 16; wr (en_iv encrypt_zero) 0 b } else Some (en_iv encrypt_zero));
     Some \<lparr>en_type = AUDIO_ENCRYPT_CHACHA20_POLY1305, en_key = k, en_iv = iv, en_key_len = n\<rparr>
   }"

definition established_session :: "rtsp_conn \<Rightarrow> hap_session option" where
  "established_session c = (case rc_hap_session c of None \<Rightarrow> None | Some h \<Rightarrow> if hs_session_established h then Some h else None)"

text \<open>The key the sender encrypted with the shared secret of the pairing.\<close>

definition decrypted_ekey :: "handler_env \<Rightarrow> hap_session \<Rightarrow> crypto_field \<Rightarrow> bytes option mem" where
  "decrypted_ekey E h ekey = do {
     ciphertext \<leftarrow> field_data ekey (cf_len ekey);
     case aead_dec (he_crypto E) (hs_shared_secret h) (replicate 12 0) [] ciphertext of
       None \<Rightarrow> Some None
     | Some p \<Rightarrow> do {
         _ \<leftarrow> wr (he_stack E 64) 0 p;
         Some (if length p \<ge> 16 then Some p else None)
       }
   }"

text \<open>The encryption of the request, if any: the shared key, the encrypted key, or the derived key.\<close>

definition setup_encryption :: "handler_env \<Rightarrow> rtsp_conn \<Rightarrow> bytes \<Rightarrow> audio_encrypt option mem" where
  "setup_encryption E c body = do {
     (ekey, eiv, shk) \<leftarrow> setup_key_fields E (rc_stream_type c) body;
     if cf_len shk \<ge> 16 then do {
       key \<leftarrow> field_data shk (cf_len shk);
       e \<leftarrow> chacha_encryption key eiv;
       Some (Some e)
     }
     else case established_session c of
       None \<Rightarrow> Some None
     | Some h \<Rightarrow> do {
         key \<leftarrow> (if cf_len ekey > 16 then decrypted_ekey E h ekey else Some None);
         case key of
           Some k \<Rightarrow> do { e \<leftarrow> chacha_encryption k eiv; Some (Some e) }
         | None \<Rightarrow>
             (case hap_derive_audio_key (he_crypto E) h 32 of
                Inl _ \<Rightarrow> Some None
              | Inr k \<Rightarrow> do { e \<leftarrow> chacha_encryption k eiv; Some (Some e) })
       }
   }"

definition setup_keys :: "handler_env \<Rightarrow> bytes option \<Rightarrow> session \<Rightarrow> session mem" where
  "setup_keys E body s =
    (case body of
       None \<Rightarrow> Some s
     | Some b \<Rightarrow>
         if length b = 0 then Some s
         else do {
           e \<leftarrow> setup_encryption E (fst s) b;
           Some (fst s, case e of None \<Rightarrow> snd s | Some e \<Rightarrow> at_receiver (audio_receiver_set_encryption (Some e)) (snd s))
         })"

subsection \<open>The event port\<close>

text \<open>The result tells whether to go on; if not, the request is answered.\<close>

definition setup_event_port :: "handler_env \<Rightarrow> rtsp_request \<Rightarrow> session \<Rightarrow> (bool \<times> session) mem" where
  "setup_event_port E req s =
    (let (c, v) = s in
     if rc_event_port c \<noteq> 0 then Some (True, s)
     else
       let (sock, port, closed) = rtsp_create_event_socket (he_bind_event E) (rc_event_port c);
           c = c\<lparr>rc_event_socket := sock, rc_event_port := port\<rparr>;
           v = closing closed v in
       if sock < 0 then Some (True, (c, v))
       else
         let (err, p, effects) = rtsp_start_event_port_task (he_event_exits E) (he_event_task E) sock (sv_event_port v);
             v = v\<lparr>sv_event_port := p, sv_effects := sv_effects v @ effects\<rparr> in
         if err = ESP_OK then Some (True, (c, v))
         else do {
           s \<leftarrow> internal_error E (rq_cseq req) (c\<lparr>rc_event_socket := -1, rc_event_port := 0\<rparr>, closing [sock] v);
           Some (False, s)
         })"

subsection \<open>Timing and transport of AirPlay 1\<close>

definition start_ntp_timing_or_fail :: "handler_env \<Rightarrow> rtsp_request \<Rightarrow> session \<Rightarrow> (bool \<times> session) mem" where
  "start_ntp_timing_or_fail E req s =
    (let (c, v) = s; (exits, sock, created) = he_ntp E in
     if rc_client_timing_port c = 0 \<or> rc_client_ip c = 0 then Some (True, s)
     else
       let (err, n, closed) = ntp_clock_start_client exits sock created (rc_client_ip c) (rc_client_timing_port c) (sv_ntp v);
           v = closing closed (v\<lparr>sv_ntp := n\<rparr>) in
       if err \<noteq> ESP_OK then do { s \<leftarrow> internal_error E (rq_cseq req) (c, v); Some (False, s) }
       else Some (True, (c, v)))"

definition transport_text :: "rtsp_conn \<Rightarrow> bytes" where
  "transport_text c = ascii ''Transport: RTP/AVP/UDP;unicast;mode=record;server_port='' @ dec_nat (unat (rc_data_port c)) @
     ascii '';control_port='' @ dec_nat (unat (rc_control_port c)) @
     ascii '';timing_port='' @ dec_nat (unat (rc_timing_port c)) @ crlf @ ascii ''Session: 1'' @ crlf"

definition client_ports :: "bytes \<Rightarrow> rtsp_conn \<Rightarrow> rtsp_conn mem" where
  "client_ports raw c = do {
     (control, timing) \<leftarrow> rtsp_parse_transport raw;
     Some (c\<lparr>rc_client_control_port := control, rc_client_timing_port := timing\<rparr>)
   }"

definition respond_transport :: "handler_env \<Rightarrow> rtsp_request \<Rightarrow> session \<Rightarrow> session mem" where
  "respond_transport E req s = do {
     t \<leftarrow> formatted E 256 (transport_text (fst s));
     respond E 200 ''OK'' (rq_cseq req) (Some t) None 0 s
   }"

definition finish_v1 :: "handler_env \<Rightarrow> rtsp_request \<Rightarrow> session \<Rightarrow> session mem" where
  "finish_v1 E req s = do {
     let (c, closed) = ensure_stream_ports E False (fst s);
     (c, v) \<leftarrow> respond_transport E req (c, closing closed (snd s));
     v \<leftarrow> set_codec E 2 44100 352 v;
     v \<leftarrow> receiver_closes (audio_receiver_set_stream_type (he_switch E) 96) v;
     let (p, closed) = ptp_clock_stop (he_ptp_exits E) (sv_ptp v);
     Some (c\<lparr>rc_stream_active := True\<rparr>, closing closed (v\<lparr>sv_ptp := p\<rparr>))
   }"

definition setup_v1 :: "handler_env \<Rightarrow> rtsp_request \<Rightarrow> bytes \<Rightarrow> session \<Rightarrow> session mem" where
  "setup_v1 E req raw s = do {
     c \<leftarrow> client_ports raw ((fst s)\<lparr>rc_protocol_version := 1, rc_stream_type := 96\<rparr>);
     (ok, s) \<leftarrow> start_ntp_timing_or_fail E req (c, snd s);
     if \<not> ok then Some s else finish_v1 E req s
   }"

subsection \<open>The first SETUP of a session\<close>

definition setup_initial :: "handler_env \<Rightarrow> rtsp_request \<Rightarrow> bool \<Rightarrow> session \<Rightarrow> session mem" where
  "setup_initial E req bplist s =
    (if bplist then do {
       (body, plist_len) \<leftarrow> bplist_build_initial_setup (he_stack E 128) (rc_event_port (fst s));
       if plist_len = 0 then internal_error E (rq_cseq req) s
       else respond E 200 ''OK'' (rq_cseq req) (content_line ''application/x-apple-binary-plist'') (Some body) plist_len s
     }
     else respond_ok E (rq_cseq req) s)"

subsection \<open>The SETUP of the streams\<close>

definition AIRPLAY_RT_LATENCY_DEFAULT_SAMPLES :: int where "AIRPLAY_RT_LATENCY_DEFAULT_SAMPLES = 11025"

definition latency_entry_of :: "kv_info list \<Rightarrow> int" where
  "latency_entry_of kvs =
    (case find (\<lambda>kv. kv_type kv = VALUE_INT \<and> kv_key kv = ascii ''latencyMin'') kvs of None \<Rightarrow> 0 | Some kv \<Rightarrow> kv_int kv)"

definition playout_latency :: "bytes option \<Rightarrow> bool \<Rightarrow> bool \<Rightarrow> u32 mem" where
  "playout_latency body bplist buffered =
    (if \<not> bplist \<or> buffered then Some 0
     else do {
       latency_min \<leftarrow> (case body of
           None \<Rightarrow> Some 0
         | Some b \<Rightarrow> if length b = 0 then Some 0
             else do {
               kvs \<leftarrow> bplist_get_stream_kv_info b 0 16;
               Some (case kvs of None \<Rightarrow> 0 | Some kvs \<Rightarrow> latency_entry_of kvs)
             });
       Some (of_int (if latency_min > 0 \<and> latency_min \<le> 5 * 44100 then latency_min else AIRPLAY_RT_LATENCY_DEFAULT_SAMPLES))
     })"

text \<open>The response; the result tells whether the stream is set up.\<close>

definition stop_receiver :: "handler_env \<Rightarrow> server \<Rightarrow> server mem" where
  "stop_receiver E = receiver_closes (audio_receiver_stop (he_stop_realtime E) (he_stop_buffered E))"

definition respond_plist_setup :: "handler_env \<Rightarrow> rtsp_request \<Rightarrow> int \<Rightarrow> u16 \<Rightarrow> session \<Rightarrow> (bool \<times> session) mem" where
  "respond_plist_setup E req stream_type data_port s = do {
     (body, plist_len) \<leftarrow> bplist_build_stream_setup (he_stack E 256) stream_type data_port (rc_control_port (fst s))
       (of_nat (he_buffer_kb E * 1024));
     if plist_len = 0 then do {
       v \<leftarrow> stop_receiver E (snd s);
       s \<leftarrow> internal_error E (rq_cseq req) (fst s, v);
       Some (False, s)
     }
     else do {
       s \<leftarrow> respond E 200 ''OK'' (rq_cseq req) (content_line ''application/x-apple-binary-plist'') (Some body) plist_len s;
       Some (True, s)
     }
   }"

definition respond_v1_setup :: "handler_env \<Rightarrow> rtsp_request \<Rightarrow> bytes \<Rightarrow> session \<Rightarrow> (bool \<times> session) mem" where
  "respond_v1_setup E req raw s = do {
     c \<leftarrow> client_ports raw (fst s);
     (ok, s) \<leftarrow> start_ntp_timing_or_fail E req (c, snd s);
     if \<not> ok then do {
       v \<leftarrow> stop_receiver E (snd s);
       Some (False, (fst s, v))
     }
     else do {
       s \<leftarrow> respond_transport E req s;
       Some (True, s)
     }
   }"

definition respond_stream_setup :: "handler_env \<Rightarrow> rtsp_request \<Rightarrow> bytes \<Rightarrow> bool \<Rightarrow> int \<Rightarrow> u16 \<Rightarrow> session \<Rightarrow> (bool \<times> session) mem" where
  "respond_stream_setup E req raw bplist stream_type data_port s =
    (if bplist then respond_plist_setup E req stream_type data_port s else respond_v1_setup E req raw s)"

text \<open>A buffered stream listens before its port is named; the result tells whether to go on.\<close>

definition setup_buffered :: "handler_env \<Rightarrow> rtsp_request \<Rightarrow> bool \<Rightarrow> session \<Rightarrow> (bool \<times> session) mem" where
  "setup_buffered E req buffered s =
    (if \<not> buffered then Some (True, s)
     else do {
       (err, v) \<leftarrow> receiver_starts (audio_receiver_start_buffered (he_buffered E) 0) (snd s);
       if err \<noteq> ESP_OK then do { s \<leftarrow> internal_error E (rq_cseq req) (fst s, v); Some (False, s) }
       else Some (True, ((fst s)\<lparr>rc_buffered_port := audio_receiver_get_buffered_port (sv_receiver v)\<rparr>, v))
     })"

definition finish_streams :: "handler_env \<Rightarrow> session \<Rightarrow> session mem" where
  "finish_streams E s = do {
     v \<leftarrow> receiver_does (audio_receiver_set_playing (he_now_us E) True) (restore_dac_volume E (set_client_control (fst s) (snd s)));
     Some ((fst s)\<lparr>rc_stream_paused := False, rc_stream_active := True\<rparr>, effect (Emitted RTSP_EVENT_PLAYING None) v)
   }"

text \<open>The ports and the receiver, before the response.\<close>

definition start_streams :: "handler_env \<Rightarrow> rtsp_request \<Rightarrow> int \<Rightarrow> bool \<Rightarrow> session \<Rightarrow> (bool \<times> session) mem" where
  "start_streams E req stream_type buffered s = do {
     (ok, s) \<leftarrow> setup_buffered E req buffered s;
     if \<not> ok then Some (False, s)
     else
       let (c, closed) = ensure_stream_ports E buffered (fst s) in
       start_audio_receiver_or_fail E req stream_type (c, closing closed (snd s))
   }"

definition setup_streams :: "handler_env \<Rightarrow> rtsp_request \<Rightarrow> bytes \<Rightarrow> bytes option \<Rightarrow> bool \<Rightarrow> session \<Rightarrow> session mem" where
  "setup_streams E req raw body bplist s = do {
     let stream_type = (if rc_stream_type (fst s) = 0 then 96 else rc_stream_type (fst s));
     let buffered = audio_stream_uses_buffer (of_int stream_type);
     (ok, s) \<leftarrow> start_streams E req stream_type buffered (fst s, audio_receiver_notify_yield (snd s));
     if \<not> ok then Some s
     else do {
       let data_port = (if buffered then rc_buffered_port (fst s) else rc_data_port (fst s));
       latency \<leftarrow> playout_latency body bplist buffered;
       let v = at_receiver (audio_receiver_set_playout_latency_samples latency) (snd s);
       (ok, s) \<leftarrow> respond_stream_setup E req raw bplist stream_type data_port (fst s, v);
       if \<not> ok then Some s else finish_streams E s
     }
   }"

subsection \<open>The handler\<close>

definition handle_setup :: handler where
  "handle_setup E req raw raw_len s = do {
     body \<leftarrow> body_of req raw;
     let bplist = contains (rq_content_type req) (ascii ''application/x-apple-binary-plist'');
     streams \<leftarrow> has_streams body;
     transport \<leftarrow> parse_raw_header raw raw_len ''Transport:'';
     let is_v1 = (streams = None \<and> transport \<noteq> None);
     s \<leftarrow> (case (body, streams) of
         (Some b, Some n) \<Rightarrow>
           if bplist then setup_stream_codecs E b [0..<n] ((fst s)\<lparr>rc_protocol_version := 2\<rparr>, snd s) else Some s
       | _ \<Rightarrow> Some s);
     s \<leftarrow> setup_keys E body s;
     (ok, s) \<leftarrow> (if is_v1 then Some (True, s) else setup_event_port E req s);
     if \<not> ok then Some s
     else if streams = None then
       (if is_v1 then setup_v1 E req raw s else setup_initial E req bplist s)
     else setup_streams E req raw body bplist s
   }"

end
