(* ===== verification/Rtsp_Dispatch.thy ===== *)
theory Rtsp_Dispatch
  imports Rtsp_Setup
begin

section \<open>The dispatch of requests (main/rtsp/rtsp_handlers.c)\<close>

text \<open>
  The table of methods, and \<open>rtsp_dispatch\<close>: it takes the identifiers of the remote control from the
  request, runs the handler of the method, and answers unknown methods itself.
\<close>

definition method_handlers :: "(string \<times> handler) list" where
  "method_handlers = [
     (''OPTIONS'', handle_options),
     (''GET'', handle_get),
     (''POST'', handle_post),
     (''ANNOUNCE'', handle_announce),
     (''SETUP'', handle_setup),
     (''RECORD'', handle_record),
     (''SET_PARAMETER'', handle_set_parameter),
     (''GET_PARAMETER'', handle_get_parameter),
     (''PAUSE'', handle_pause),
     (''FLUSH'', handle_flush),
     (''FLUSHBUFFERED'', handle_flushbuffered),
     (''TEARDOWN'', handle_teardown),
     (''SETRATEANCHORTIME'', handle_setrateanchortime),
     (''SETPEERS'', handle_setpeers),
     (''SETPEERSX'', handle_setpeers)]"

definition same_nocase :: "bytes \<Rightarrow> bytes \<Rightarrow> bool" where
  "same_nocase s t \<longleftrightarrow> map to_lower s = map to_lower t"

definition method_handler :: "bytes \<Rightarrow> handler option" where
  "method_handler name = map_option snd (find (\<lambda>h. same_nocase name (ascii (fst h))) method_handlers)"

text \<open>An identifier of the remote control: kept once it is set, else taken from its header.\<close>

definition take_header :: "bytes \<Rightarrow> nat \<Rightarrow> string \<Rightarrow> bytes \<Rightarrow> bytes mem" where
  "take_header raw raw_len name dst = do {
     first \<leftarrow> rd dst 0;
     if first \<noteq> 0 then Some dst
     else do {
       val \<leftarrow> parse_raw_header raw raw_len name;
       case val of None \<Rightarrow> Some dst | Some t \<Rightarrow> strlcpy dst t
     }
   }"

definition remote_control :: "bytes \<Rightarrow> nat \<Rightarrow> session \<Rightarrow> session mem" where
  "remote_control raw raw_len s = do {
     let (c, v) = s;
     dacp_id \<leftarrow> take_header raw raw_len ''DACP-ID:'' (rc_dacp_id c);
     active_remote \<leftarrow> take_header raw raw_len ''Active-Remote:'' (rc_active_remote c);
     let c = c\<lparr>rc_dacp_id := dacp_id, rc_active_remote := active_remote\<rparr>;
     d \<leftarrow> c_string dacp_id;
     a \<leftarrow> c_string active_remote;
     Some (c, if d \<noteq> [] \<and> a \<noteq> [] then effect (Dacp_session d a (rc_client_ip c)) v else v)
   }"

definition not_implemented :: "handler_env \<Rightarrow> rtsp_request \<Rightarrow> session \<Rightarrow> session mem" where
  "not_implemented E req s =
    (if request_uses_rtsp req
     then respond E 501 ''Not Implemented'' (rq_cseq req) (content_line ''text/plain'') (Some (ascii ''Not Implemented'')) 15 s
     else respond_http E 501 ''Not Implemented'' ''text/plain'' (Some (ascii ''Not Implemented'')) 15 s)"

text \<open>The result is 0, or -1 for a request that is not accepted.\<close>

definition rtsp_dispatch :: "handler_env \<Rightarrow> bytes \<Rightarrow> nat \<Rightarrow> session \<Rightarrow> (int \<times> session) mem" where
  "rtsp_dispatch E raw raw_len s = do {
     parsed \<leftarrow> rtsp_request_parse raw raw_len;
     case parsed of
       None \<Rightarrow> Some (-1, s)
     | Some req \<Rightarrow> do {
         s \<leftarrow> remote_control raw raw_len s;
         s \<leftarrow> (case method_handler (rq_method req) of
             Some h \<Rightarrow> h E req raw raw_len s
           | None \<Rightarrow> not_implemented E req s);
         Some (0, s)
       }
   }"

lemma method_handler_cases:
  assumes "method_handler name = Some h"
  shows "h \<in> {handle_options, handle_get, handle_post, handle_announce, handle_setup, handle_record,
      handle_set_parameter, handle_get_parameter, handle_pause, handle_flush, handle_flushbuffered, handle_teardown,
      handle_setrateanchortime, handle_setpeers}"
proof -
  obtain m where "find (\<lambda>h. same_nocase name (ascii (fst h))) method_handlers = Some (m, h)"
    using assms by (auto simp: method_handler_def)
  then have "(m, h) \<in> set method_handlers" unfolding find_Some_iff by (metis nth_mem)
  then show ?thesis by (auto simp: method_handlers_def)
qed

end
