(* ===== verification/Rtsp_Sample.thy ===== *)
theory Rtsp_Sample
  imports Rtsp_Dispatch
begin

section \<open>A concrete device\<close>

text \<open>
  A device on which every call succeeds, with libraries that do nothing, and a request whose method it
  does not know: the properties of the dispatch are applied to them.
\<close>

definition sample_bind :: bind_env where
  "sample_bind = \<lparr>be_fd = 3, be_bind = True, be_listen = True, be_port = 6000\<rparr>"

definition sample_start :: start_env where
  "sample_start = \<lparr>se_data = sample_bind, se_control = sample_bind, se_task = True, se_control_task = True,
     se_task_ends = True, se_control_ends = True\<rparr>"

definition sample_receiver_env :: receiver_env where
  "sample_receiver_env = \<lparr>rc_switch = sample_start, rc_stop = sample_start, rc_start = sample_start, rc_now_ms = 0\<rparr>"

definition sample_rsa :: rsa_lib where
  "sample_rsa = \<lparr>rl_seed = 0, rl_parse = 0, rl_base64 = (\<lambda>p t n. (True, replicate (min 16 n) 0)),
     rl_malloc = (\<lambda>n. Some (replicate n 0)), rl_len = 256, rl_sign = (\<lambda>d. Some (replicate 256 0)),
     rl_oaep = (\<lambda>e n. Some (replicate (min 16 n) 0)), rl_encode = (\<lambda>d n. None)\<rparr>"

definition sample_device :: handler_env where
  "sample_device = \<lparr>he_crypto = plain_crypto, he_rsa = sample_rsa, he_fl = (\<lambda>x. x), he_alloc = (\<lambda>n. True),
     he_malloc = (\<lambda>n. Some (replicate n 0)), he_stack = (\<lambda>n. replicate n 0), he_force_v1 = False, he_artwork = False,
     he_bluetooth = False, he_buffer_kb = 2048, he_mac = replicate 6 0, he_name = ascii ''speaker'', he_pk = replicate 32 0,
     he_ip = None, he_session = None, he_srp_alloc = True, he_mpi_ok = (\<lambda>n. True), he_srp_salt = replicate 16 0,
     he_srp_secret = replicate 32 1, he_now_us = 0, he_anchor = \<lparr>ac_now = 0, ac_set_us = 0, ac_now_ms = 0\<rparr>,
     he_switch = sample_start, he_switch_again = sample_start, he_buffered = sample_receiver_env,
     he_start = sample_receiver_env, he_stop_realtime = sample_start, he_stop_buffered = sample_start,
     he_decoder = (True, True), he_ntp = (True, 4, True), he_ptp_exits = True, he_bind_data = sample_bind,
     he_bind_control = sample_bind, he_bind_timing = sample_bind, he_bind_event = sample_bind,
     he_event_exits = (True, True), he_event_task = True\<rparr>"

definition idle_client :: ntp_state where
  "idle_client = \<lparr>nt_running = False, nt_task = False, nt_socket = -1, nt_remote_ip = 0, nt_remote_port = 0, nt_locked = False,
     nt_offset_ns = 0, nt_measurements = replicate 8 0, nt_dispersions = replicate 8 0, nt_count = 0, nt_index = 0\<rparr>"

definition sample_server :: server where
  "sample_server = \<lparr>sv_receiver = receiver_zero, sv_ptp = ptp_zero, sv_ntp = idle_client,
     sv_sock = \<lparr>sk_rx = [], sk_tx = [], sk_send = (\<lambda>n. n)\<rparr>, sv_volume = volume_init, sv_event_port = event_port_init,
     sv_rsa_ready = False, sv_effects = []\<rparr>"

definition sample_request :: bytes where
  "sample_request = ascii ''PLAY /stream RTSP/1.0'' @ crlf @ ascii ''CSeq: 7'' @ crlf @ crlf"

lemma sample_bytes:
  "sample_request = [80, 76, 65, 89, 32, 47, 115, 116, 114, 101, 97, 109, 32, 82, 84, 83, 80, 47, 49, 46, 48, 13, 10,
     67, 83, 101, 113, 58, 32, 55, 13, 10, 13, 10]"
  by (simp add: sample_request_def ascii_def crlf_def)

lemma sample_head: "rtsp_find_header_end (sample_request @ [0]) 34 = Some (Some 30)"
  by (subst rtsp_find_header_end_find) (simp_all add: sample_bytes)

definition sample_parse :: rtsp_request where
  "sample_parse = \<lparr>rq_method = ascii ''PLAY'', rq_path = ascii ''/stream'', rq_protocol = ascii ''RTSP/1.0'', rq_cseq = 7,
     rq_content_type = [], rq_content_length = 0, rq_body = Some 34, rq_body_len = 0\<rparr>"

lemma sample_string: "c_string (sample_request @ [0]) = Some sample_request"
  by (simp add: sample_bytes c_string_def cstr_def)

lemma sample_block: "rd_block (sample_request @ [0]) 0 30 = Some (take 30 sample_request)"
  by (simp add: sample_bytes rd_block_def)

lemma sample_parsed: "rtsp_request_parse (sample_request @ [0]) 34 = Some (Some sample_parse)"
proof -
  have cs: "rtsp_parse_cseq (sample_request @ [0]) = Some 7"
    by (simp add: rtsp_parse_cseq_def sample_string,
        simp add: sample_bytes ascii_def strtol_def signed_digits_def Let_def c_space_def c_digit_def digits_val_def)
  have cl: "rtsp_parse_content_length (sample_request @ [0]) = Some 0"
    by (simp add: rtsp_parse_content_length_def sample_string, simp add: sample_bytes ascii_def)
  have line: "takeWhile (\<lambda>c. c \<noteq> 10) (take 30 sample_request) = take 22 sample_request" "10 \<in> set (take 30 sample_request)"
    by (simp_all add: sample_bytes)
  have scan: "scan_request_line (cstr (take 21 sample_request)) =
      Some (empty_request\<lparr>rq_method := ascii ''PLAY'', rq_path := ascii ''/stream'', rq_protocol := ascii ''RTSP/1.0''\<rparr>)"
    by (simp add: sample_bytes cstr_def scan_request_line_def scan_word_def Let_def c_space_def ascii_def)
  have "last (take 22 sample_request) = 13 \<and> butlast (take 22 sample_request) = take 21 sample_request \<and>
      length (take 21 sample_request) < 320 \<and> take 22 sample_request \<noteq> []"
    by (simp add: sample_bytes)
  moreover have "find_sub (ascii ''Content-Type:'') sample_request = None" "find_sub [13, 10, 13, 10] sample_request = Some 30"
    by (simp_all add: sample_bytes ascii_def)
  ultimately show ?thesis
    by (simp add: rtsp_request_parse_def sample_head sample_block cs cl sample_string rtsp_get_body_def line scan empty_request_def
        sample_parse_def)
qed

lemma sample_remote: "remote_control (sample_request @ [0]) 34 (rtsp_conn_create, v) = Some (rtsp_conn_create, v)"
proof -
  have none: "raw_header_loop (take 30 sample_request) (ascii ''DACP-ID:'') = None"
    "raw_header_loop (take 30 sample_request) (ascii ''Active-Remote:'') = None"
    by (simp_all add: sample_bytes ascii_def to_lower_def raw_header_loop.simps)
  show ?thesis
    by (simp add: remote_control_def take_header_def parse_raw_header_def sample_head sample_block none rtsp_conn_create_def
        rd_def c_string_def cstr_def)
qed

lemma sample_answered:
  "\<exists>s'. not_implemented sample_device sample_parse (rtsp_conn_create, sample_server) = Some s'"
proof -
  let ?b = "Some (ascii ''Not Implemented'')" and ?n = "length (ascii ''Not Implemented'')"
  let ?t = "response_text 501 (ascii ''Not Implemented'') 7 (content_line ''text/plain'') (Some 15)"
  have "length ?t < 1024"
    by (simp add: response_text_def content_line_def dec_int_def dec_nat.simps crlf_def)
  then have sent: "\<exists>r. send_message plain_crypto (\<lambda>n. True) (\<lambda>n. Some (replicate n 0)) rtsp_conn_create 1024 ?t ?b ?n (sv_sock sample_server) = Some r"
    by (subst send_message_eq [where blk = "replicate (length ?t + ?n) 0"])
      (simp_all add: body_given_def rtsp_conn_create_def split: prod.split)
  have n: "?n = 15" by (simp add: ascii_def)
  have "request_uses_rtsp sample_parse"
    by (simp add: request_uses_rtsp_def sample_parse_def ascii_def to_lower_def)
  moreover have "rq_cseq sample_parse = 7" by (simp add: sample_parse_def)
  ultimately show ?thesis
    using sent [unfolded n] by (auto simp: not_implemented_def respond_def rtsp_send_response_def sample_device_def)
qed

lemma sample_dispatched:
  "\<exists>s'. rtsp_dispatch sample_device (sample_request @ [0]) 34 (rtsp_conn_create, sample_server) = Some (0, s')"
proof -
  have "method_handler (rq_method sample_parse) = None"
    by (simp add: method_handler_def sample_parse_def method_handlers_def same_nocase_def ascii_def to_lower_def)
  then show ?thesis using sample_answered by (auto simp: rtsp_dispatch_def sample_parsed sample_remote)
qed

end
