(* ===== verification/Rtsp_Answers.thy ===== *)
theory Rtsp_Answers
  imports Rtsp_Sample
begin

section \<open>Every request is answered exactly once\<close>

text \<open>
  What a handler puts on the socket is the output of one call of \<open>rtsp_send_response\<close> with the sequence
  number of the request, or, for the requests of plain HTTP, of one \<open>rtsp_send_http_response\<close>. The
  rules below follow the structure of the handlers: steps that leave the socket alone, then the answer,
  then again steps that leave it alone.
\<close>

definition sent_response :: "handler_env \<Rightarrow> int \<Rightarrow> sock \<Rightarrow> sock \<Rightarrow> bool" where
  "sent_response E cseq sk sk' \<longleftrightarrow>
    (\<exists>c status_code status_text extra body n ok c'.
       rtsp_send_response (he_crypto E) (he_alloc E) (he_malloc E) c status_code status_text cseq extra body n sk =
         Some (ok, c', sk')) \<or>
    (\<exists>c status_code status_text type body n ok c'.
       rtsp_send_http_response (he_crypto E) (he_alloc E) (he_malloc E) c status_code status_text type body n sk =
         Some (ok, c', sk'))"

text \<open>If the computation returns, its state has the property.\<close>

definition leads :: "('a \<Rightarrow> bool) \<Rightarrow> 'a mem \<Rightarrow> bool" where
  "leads P m \<longleftrightarrow> (\<forall>x. m = Some x \<longrightarrow> P x)"

abbreviation answers :: "handler_env \<Rightarrow> int \<Rightarrow> sock \<Rightarrow> session mem \<Rightarrow> bool" where
  "answers E cseq sk \<equiv> leads (\<lambda>s. sent_response E cseq sk (sv_sock (snd s)))"

abbreviation quiet_server :: "sock \<Rightarrow> server mem \<Rightarrow> bool" where
  "quiet_server sk \<equiv> leads (\<lambda>v. sv_sock v = sk)"

abbreviation quiet_session :: "sock \<Rightarrow> session mem \<Rightarrow> bool" where
  "quiet_session sk \<equiv> leads (\<lambda>s. sv_sock (snd s) = sk)"

text \<open>A step that may have answered: either it goes on with the socket as it was, or it has answered.\<close>

definition went_on :: "handler_env \<Rightarrow> int \<Rightarrow> sock \<Rightarrow> bool \<times> session \<Rightarrow> bool" where
  "went_on E cseq sk r \<longleftrightarrow> (if fst r then sv_sock (snd (snd r)) = sk else sent_response E cseq sk (sv_sock (snd (snd r))))"

abbreviation goes_on :: "handler_env \<Rightarrow> int \<Rightarrow> sock \<Rightarrow> (bool \<times> session) mem \<Rightarrow> bool" where
  "goes_on E cseq sk \<equiv> leads (went_on E cseq sk)"

lemma went_on_simps [simp]:
  "went_on E q sk (True, s) = (sv_sock (snd s) = sk)" "went_on E q sk (False, s) = sent_response E q sk (sv_sock (snd s))"
  by (simp_all add: went_on_def)

lemma leads_Some [simp]: "leads P (Some x) = P x"
  by (simp add: leads_def)

lemma leads_None [simp]: "leads P None"
  by (simp add: leads_def)

lemma leads_bind: "leads Q m \<Longrightarrow> (\<And>x. Q x \<Longrightarrow> leads P (f x)) \<Longrightarrow> leads P (m \<bind> f)"
  by (cases m) (auto simp: leads_def)

lemma leads_any: "(\<And>x. leads P (f x)) \<Longrightarrow> leads P (m \<bind> f)"
  by (cases m) (auto simp: leads_def)

lemma leads_if: "(b \<Longrightarrow> leads P x) \<Longrightarrow> (\<not> b \<Longrightarrow> leads P y) \<Longrightarrow> leads P (if b then x else y)"
  by simp

lemma leads_option: "(m = None \<Longrightarrow> leads P x) \<Longrightarrow> (\<And>y. m = Some y \<Longrightarrow> leads P (f y)) \<Longrightarrow> leads P (case m of None \<Rightarrow> x | Some y \<Rightarrow> f y)"
  by (cases m) auto

subsection \<open>Steps\<close>

lemma sock_effects [simp]:
  "sv_sock (effect e v) = sv_sock v" "sv_sock (closing fds v) = sv_sock v" "sv_sock (at_receiver f v) = sv_sock v"
  "sv_sock (audio_receiver_notify_yield v) = sv_sock v" "sv_sock (set_client_control c v) = sv_sock v"
  "sv_sock (restore_dac_volume E v) = sv_sock v"
  by (simp_all add: effect_def closing_def at_receiver_def audio_receiver_notify_yield_def set_client_control_def
      restore_dac_volume_def)

lemma receiver_does_quiet: "sv_sock v = sk \<Longrightarrow> quiet_server sk (receiver_does f v)"
  by (auto simp: receiver_does_def leads_def bind_eq_Some_conv)

lemma receiver_closes_quiet: "sv_sock v = sk \<Longrightarrow> quiet_server sk (receiver_closes f v)"
  by (auto simp: receiver_closes_def leads_def bind_eq_Some_conv)

lemma receiver_starts_quiet: "sv_sock v = sk \<Longrightarrow> leads (\<lambda>(err, v'). sv_sock v' = sk) (receiver_starts f v)"
  by (auto simp: receiver_starts_def leads_def bind_eq_Some_conv)

lemma set_codec_quiet: "sv_sock v = sk \<Longrightarrow> quiet_server sk (set_codec E t r n v)"
  unfolding set_codec_def by (rule leads_any) (auto intro: receiver_does_quiet)

lemma apply_volume_quiet: "sv_sock v = sk \<Longrightarrow> quiet_server sk (apply_volume E db v)"
  by (auto simp: apply_volume_def leads_def Let_def bind_eq_Some_conv split: option.splits)

lemma seek_flush_quiet: "sv_sock (snd s) = sk \<Longrightarrow> quiet_session sk (seek_flush s)"
  unfolding seek_flush_def by (rule leads_bind [OF receiver_does_quiet]) auto

lemma respond_answers: "sv_sock (snd s) = sk \<Longrightarrow> answers E q sk (respond E code t q extra body n s)"
  by (auto simp: respond_def leads_def sent_response_def bind_eq_Some_conv)

lemma respond_http_answers: "sv_sock (snd s) = sk \<Longrightarrow> answers E q sk (respond_http E code t ty body n s)"
  by (auto simp: respond_http_def leads_def sent_response_def bind_eq_Some_conv)

lemma short_answers:
  "sv_sock (snd s) = sk \<Longrightarrow> answers E q sk (respond_ok E q s)"
  "sv_sock (snd s) = sk \<Longrightarrow> answers E q sk (internal_error E q s)"
  "sv_sock (snd s) = sk \<Longrightarrow> answers E q sk (octet_response E q body n s)"
  by (simp_all add: respond_ok_def internal_error_def octet_response_def respond_answers)

lemmas answering = respond_answers respond_http_answers short_answers

lemma internal_error_stops: "sv_sock (snd s) = sk \<Longrightarrow> goes_on E q sk (do { s \<leftarrow> internal_error E q s; Some (False, s) })"
  by (rule leads_bind [OF short_answers(2)]) auto

lemma start_receiver_goes_on: "sv_sock (snd s) = sk \<Longrightarrow> goes_on E (rq_cseq req) sk (start_audio_receiver_or_fail E req t s)"
  unfolding start_audio_receiver_or_fail_def Let_def
  by (cases s) (auto intro!: leads_bind [OF receiver_closes_quiet] leads_bind [OF receiver_starts_quiet] internal_error_stops)

lemma start_ntp_goes_on: "sv_sock (snd s) = sk \<Longrightarrow> goes_on E (rq_cseq req) sk (start_ntp_timing_or_fail E req s)"
  unfolding start_ntp_timing_or_fail_def Let_def
  by (cases s) (auto intro!: internal_error_stops split: prod.split)

lemma event_port_goes_on: "sv_sock (snd s) = sk \<Longrightarrow> goes_on E (rq_cseq req) sk (setup_event_port E req s)"
  unfolding setup_event_port_def Let_def
  by (cases s) (auto intro!: internal_error_stops split: prod.split)

lemma respond_transport_answers: "sv_sock (snd s) = sk \<Longrightarrow> answers E (rq_cseq req) sk (respond_transport E req s)"
  unfolding respond_transport_def by (rule leads_any) (rule respond_answers)

subsection \<open>Handlers\<close>

lemma options_answers: "answers E (rq_cseq req) (sv_sock (snd s)) (handle_options E req raw n s)"
  unfolding handle_options_def Let_def
  by (cases s) (auto intro!: leads_any leads_option respond_answers split: prod.split)

lemma get_answers: "answers E (rq_cseq req) (sv_sock (snd s)) (handle_get E req raw n s)"
  unfolding handle_get_def Let_def
  by (auto intro!: leads_any answering split: prod.split)

lemma pair_setup_answers: "answers E (rq_cseq req) (sv_sock (snd s)) (post_pair_setup E req body s)"
proof -
  have tail: "answers E q sk (do { (c, v) \<leftarrow> octet_response E q r k s;
      Some (case rc_hap_session c of None \<Rightarrow> (c, v) | Some h \<Rightarrow> if g h then (f c, v) else (c, v)) })"
    if "sv_sock (snd s) = sk" for q sk r k g f and s :: session
    using short_answers(3) [OF that] by (auto simp: leads_def bind_eq_Some_conv split: option.splits if_splits)
  show ?thesis unfolding post_pair_setup_def Let_def
    by (cases s) (auto intro!: leads_any leads_option answering tail [unfolded Let_def] split: prod.split)
qed

lemma pair_verify_answers: "answers E (rq_cseq req) (sv_sock (snd s)) (post_pair_verify E req body s)"
  unfolding post_pair_verify_def Let_def
  by (cases s) (auto intro!: leads_any leads_option answering split: prod.split)

lemma post_answers: "answers E (rq_cseq req) (sv_sock (snd s)) (handle_post E req raw n s)"
  unfolding handle_post_def post_fp_setup_def post_feedback_def
  by (auto intro!: leads_any leads_option answering pair_setup_answers pair_verify_answers split: prod.split)

lemma parse_sdp_quiet: "quiet_session (sv_sock (snd s)) (parse_sdp E sdp s)"
proof -
  obtain c v where s: "s = (c, v)" by force
  show ?thesis unfolding s parse_sdp_def Let_def prod.case snd_conv
    by (rule leads_any, rule leads_any, split prod.split, intro allI impI, split prod.split, intro allI impI,
        rule leads_any, rule leads_any, rule leads_bind [OF receiver_does_quiet [where sk = "sv_sock v"]]) simp_all
qed

lemma yield_answered:
  "answers E q sk m \<Longrightarrow> answers E q sk (do { (c, v) \<leftarrow> m; Some (f c v, audio_receiver_notify_yield v) })"
  by (rule leads_bind, assumption) auto

lemma announce_answers: "answers E (rq_cseq req) (sv_sock (snd s)) (handle_announce E req raw n s)"
proof -
  have "quiet_session (sv_sock (snd s)) (case sdp of None \<Rightarrow> Some s
      | Some t \<Rightarrow> if rq_body_len req > 0 then parse_sdp E t s else Some s)" for sdp
    by (auto intro!: leads_option parse_sdp_quiet)
  then show ?thesis unfolding handle_announce_def
    by - (rule leads_any, rule leads_bind, assumption, rule yield_answered [where f = "\<lambda>c v. c"], rule short_answers)
qed

lemma record_answers: "answers E (rq_cseq req) (sv_sock (snd s)) (handle_record E req raw n s)"
proof -
  obtain c v where s: "s = (c, v)" by force
  let ?v = "restore_dac_volume E v"
  let ?play = "\<lambda>c v. do { v \<leftarrow> receiver_does (audio_receiver_set_playing (he_now_us E) True) v; Some (True, (c, v)) }"
  have play: "goes_on E q (sv_sock v) (?play c v')" if "sv_sock v' = sv_sock v" for q c v'
    by (rule leads_bind [OF receiver_does_quiet [OF that]]) simp
  have "goes_on E (rq_cseq req) (sv_sock v) (if rc_stream_paused c then ?play c ?v
      else do {
        (ok, (c, v)) \<leftarrow> start_audio_receiver_or_fail E req (rc_stream_type c) (c, ?v);
        if \<not> ok then Some (False, (c, v)) else ?play c (set_client_control c v)
      })"
    by (auto intro!: play leads_bind [OF start_receiver_goes_on])
  then show ?thesis unfolding handle_record_def s Let_def prod.case snd_conv
    by (rule leads_bind) (auto intro!: leads_any yield_answered respond_answers)
qed

lemma quiet_text: "leads (\<lambda>(g, v'). sv_sock v' = sv_sock v) (set_text_parameters E b (g, v))"
  unfolding set_text_parameters_def Let_def prod.case
proof (rule leads_bind [where Q = "\<lambda>v'. sv_sock v' = sv_sock v"])
  show "quiet_server (sv_sock v) (case find_sub (ascii ''volume:'') b of None \<Rightarrow> Some v
      | Some i \<Rightarrow> apply_volume E (strtof (he_fl E) (drop (i + 7) b)) v)"
    by (auto intro!: leads_option apply_volume_quiet)
qed (auto split: option.split)

lemma quiet_body: "leads (\<lambda>(g, v'). sv_sock v' = sv_sock v) (set_parameter_body E req raw (g, v))"
  unfolding set_parameter_body_def Let_def prod.case
  by (intro leads_if leads_any leads_option quiet_text) (auto intro!: leads_any leads_option)

lemma set_parameter_answers: "answers E (rq_cseq req) (sv_sock (snd s)) (handle_set_parameter E req raw n s)"
  unfolding handle_set_parameter_def Let_def
  by (cases s) (auto intro!: leads_any leads_bind [OF quiet_body] short_answers)

lemma get_parameter_answers: "answers E (rq_cseq req) (sv_sock (snd s)) (handle_get_parameter E req raw n s)"
  unfolding handle_get_parameter_def
  by (auto intro!: leads_any leads_option answering split: prod.split)

lemma pause_answers: "answers E (rq_cseq req) (sv_sock (snd s)) (handle_pause E req raw n s)"
  unfolding handle_pause_def Let_def by (cases s) (auto intro!: short_answers)

lemma flush_answers: "answers E (rq_cseq req) (sv_sock (snd s)) (handle_flush E req raw n s)"
  unfolding handle_flush_def by (rule leads_bind [OF seek_flush_quiet]) (auto intro!: short_answers)

lemma flushbuffered_answers: "answers E (rq_cseq req) (sv_sock (snd s)) (handle_flushbuffered E req raw n s)"
proof -
  have "quiet_session (sv_sock (snd s)) (case d of Some ts \<Rightarrow> Some (fst s, at_receiver (audio_receiver_set_deferred_flush ts) (snd s))
      | None \<Rightarrow> seek_flush s)" for d
    by (auto intro!: leads_option seek_flush_quiet)
  then show ?thesis unfolding handle_flushbuffered_def
    by - (rule leads_any, rule leads_any, rule leads_bind, assumption, rule short_answers)
qed

lemma full_teardown_quiet: "quiet_session (sv_sock (snd s)) (full_teardown E s)"
proof -
  obtain c v where s: "s = (c, v)" by force
  show ?thesis unfolding s full_teardown_def Let_def prod.case snd_conv
    by (rule leads_bind [where Q = "\<lambda>s. sv_sock (snd s) = sv_sock v"]) (auto intro!: leads_any split: prod.split)
qed

lemma teardown_answers: "answers E (rq_cseq req) (sv_sock (snd s)) (handle_teardown E req raw n s)"
proof -
  obtain c v where s: "s = (c, v)" by force
  have stop: "quiet_server (sv_sock v) (if streams \<noteq> None then do {
         v \<leftarrow> receiver_does (audio_receiver_set_playing (he_now_us E) False) v;
         Some (effect (Emitted RTSP_EVENT_PAUSED None) v)
       } else Some v)" for streams :: "nat option"
    by (auto intro!: leads_bind [OF receiver_does_quiet])
  have last: "quiet_session (sv_sock v) (if streams = None then full_teardown E (c', v') else Some (c', v'))"
    if "sv_sock v' = sv_sock v" for streams :: "nat option" and c' v'
    using full_teardown_quiet [of "(c', v')" E] that by auto
  show ?thesis unfolding handle_teardown_def s Let_def prod.case snd_conv
    by (rule leads_any, rule leads_any, rule leads_bind [OF stop], rule leads_bind [OF receiver_closes_quiet], assumption,
        rule leads_bind [OF last], simp, rule short_answers)
qed

lemma setrate_answers: "answers E (rq_cseq req) (sv_sock (snd s)) (handle_setrateanchortime E req raw n s)"
proof -
  obtain c v where s: "s = (c, v)" by force
  have anchor: "quiet_server (sv_sock v) (case a of None \<Rightarrow> Some v
      | Some (clock, net, rtp) \<Rightarrow> do {
          (r, p) \<leftarrow> audio_receiver_set_anchor_time (he_anchor E) clock net rtp (sv_receiver v, sv_ptp v);
          Some (v\<lparr>sv_receiver := r, sv_ptp := p\<rparr>) })" for a
    by (auto intro!: leads_option leads_any split: prod.split)
  have rest: "answers E q (sv_sock v) (if real_is_zero rate
      then respond_ok E q (c1, effect Output_flushed (at_receiver audio_receiver_pause (effect (Emitted RTSP_EVENT_PAUSED None) v')))
      else do {
        v \<leftarrow> receiver_does (audio_receiver_set_playing (he_now_us E) True) v';
        respond_ok E q (c2, effect (Emitted RTSP_EVENT_PLAYING None) v)
      })" if "sv_sock v' = sv_sock v" for q rate c1 c2 v'
    using that by (auto intro!: leads_bind [OF receiver_does_quiet] short_answers)
  show ?thesis unfolding handle_setrateanchortime_def s Let_def prod.case snd_conv
    by (rule leads_any, rule leads_any, split prod.split, intro allI impI, rule leads_bind [OF anchor], rule rest)
qed

subsection \<open>SETUP\<close>

lemma stream_codec_quiet: "sv_sock (snd s) = sk \<Longrightarrow> quiet_session sk (setup_stream_codec E body i s)"
proof -
  assume sk: "sv_sock (snd s) = sk"
  have first: "quiet_session sk (if i = 0 then do {
      v \<leftarrow> receiver_closes (audio_receiver_set_stream_type (he_switch E) (of_int (si_type si))) (snd s);
      Some ((fst s)\<lparr>rc_stream_type := si_type si\<rparr>, v) } else Some s)" for si
    using sk by (auto intro!: leads_bind [OF receiver_closes_quiet])
  have rest: "quiet_session sk (case kvs of None \<Rightarrow> Some (c, v) | Some kvs \<Rightarrow> do {
      let p = stream_params_of (rc_client_control_port c) kvs;
      v \<leftarrow> set_codec E (sp_codec_type p) (sp_sample_rate p) (sp_samples_per_frame p) v;
      Some (c\<lparr>rc_client_control_port := sp_control_port p\<rparr>, v) })" if "sv_sock v = sk" for kvs c v
    using that by (auto simp: Let_def intro!: leads_option leads_bind [OF set_codec_quiet])
  show ?thesis unfolding setup_stream_codec_def
    by (rule leads_any, rule leads_option, simp add: sk, rule leads_bind [OF first], split prod.split, intro allI impI,
        rule leads_any, rule rest) simp
qed

lemma stream_codecs_quiet: "sv_sock (snd s) = sk \<Longrightarrow> quiet_session sk (setup_stream_codecs E body is s)"
  by (induction "is" arbitrary: s) (simp_all add: leads_bind [OF stream_codec_quiet])

lemma keys_quiet: "quiet_session (sv_sock (snd s)) (setup_keys E body s)"
  unfolding setup_keys_def by (auto intro!: leads_option leads_any split: option.split)

lemma initial_answers: "answers E (rq_cseq req) (sv_sock (snd s)) (setup_initial E req bplist s)"
  unfolding setup_initial_def by (auto intro!: leads_any answering split: prod.split)

lemma buffered_goes_on: "sv_sock (snd s) = sk \<Longrightarrow> goes_on E (rq_cseq req) sk (setup_buffered E req buffered s)"
  unfolding setup_buffered_def
  by (auto intro!: leads_bind [OF receiver_starts_quiet] internal_error_stops)

lemma finish_v1_answers:
  assumes "sv_sock (snd s) = sk"
  shows "answers E (rq_cseq req) sk (finish_v1 E req s)"
proof -
  obtain c closed where p: "ensure_stream_ports E False (fst s) = (c, closed)" by force
  have tail: "answers E q sk (do {
      v \<leftarrow> set_codec E 2 44100 352 v1;
      v \<leftarrow> receiver_closes (audio_receiver_set_stream_type (he_switch E) 96) v;
      let (p, closed) = ptp_clock_stop (he_ptp_exits E) (sv_ptp v);
      Some (c1\<lparr>rc_stream_active := True\<rparr>, closing closed (v\<lparr>sv_ptp := p\<rparr>)) })"
    if "sent_response E q sk (sv_sock v1)" for q c1 and v1 :: server
    by (rule leads_bind [OF set_codec_quiet [OF refl]], rule leads_bind [OF receiver_closes_quiet], assumption)
      (simp add: Let_def that split: prod.split)
  show ?thesis unfolding finish_v1_def p Let_def prod.case
    by (rule leads_bind [OF respond_transport_answers], simp add: assms, split prod.split, intro allI impI,
        rule tail [unfolded Let_def], simp)
qed

lemma went_on_if:
  "went_on E q sk x \<Longrightarrow> (\<And>s. sv_sock (snd s) = sk \<Longrightarrow> leads P (f s)) \<Longrightarrow>
    (\<And>s. sent_response E q sk (sv_sock (snd s)) \<Longrightarrow> leads P (g s)) \<Longrightarrow>
    leads P (case x of (ok, s) \<Rightarrow> if \<not> ok then g s else f s)"
  by (cases x; cases "fst x") simp_all

lemma v1_answers: "answers E (rq_cseq req) (sv_sock (snd s)) (setup_v1 E req raw s)"
  unfolding setup_v1_def
  by (rule leads_any, rule leads_bind [OF start_ntp_goes_on], rule snd_conv [THEN arg_cong], erule went_on_if)
    (simp_all add: finish_v1_answers)

text \<open>A step that has answered in any case.\<close>

definition has_answered :: "handler_env \<Rightarrow> int \<Rightarrow> sock \<Rightarrow> bool \<times> session \<Rightarrow> bool" where
  "has_answered E cseq sk r \<longleftrightarrow> sent_response E cseq sk (sv_sock (snd (snd r)))"

lemma has_answered_then: "answers E q sk m \<Longrightarrow> leads (has_answered E q sk) (do { s \<leftarrow> m; Some (b, s) })"
  by (rule leads_bind, assumption) (simp add: has_answered_def)

lemma stop_receiver_quiet: "sv_sock v = sk \<Longrightarrow> quiet_server sk (stop_receiver E v)"
  unfolding stop_receiver_def by (rule receiver_closes_quiet)

lemma plist_setup_answered: "sv_sock (snd s) = sk \<Longrightarrow> leads (has_answered E (rq_cseq req) sk) (respond_plist_setup E req t port s)"
  unfolding respond_plist_setup_def
  by (rule leads_any, split prod.split, intro allI impI leads_if)
    (auto intro!: leads_bind [OF stop_receiver_quiet] has_answered_then answering)

lemma v1_setup_answered: "sv_sock (snd s) = sk \<Longrightarrow> leads (has_answered E (rq_cseq req) sk) (respond_v1_setup E req raw s)"
  unfolding respond_v1_setup_def
  by (rule leads_any, rule leads_bind [OF start_ntp_goes_on], simp, erule went_on_if)
    (auto simp: has_answered_def intro!: has_answered_then respond_transport_answers leads_bind [OF stop_receiver_quiet [OF refl]])

lemma start_streams_goes_on: "sv_sock (snd s) = sk \<Longrightarrow> goes_on E (rq_cseq req) sk (start_streams E req t buffered s)"
  unfolding start_streams_def
  by (rule leads_bind [OF buffered_goes_on], assumption, erule went_on_if)
    (auto intro!: start_receiver_goes_on split: prod.split)

lemma finish_streams_answered:
  "sent_response E q sk (sv_sock (snd s)) \<Longrightarrow> answers E q sk (finish_streams E s)"
  unfolding finish_streams_def by (rule leads_bind [OF receiver_does_quiet [OF refl]]) simp

lemma streams_answers: "answers E (rq_cseq req) (sv_sock (snd s)) (setup_streams E req raw body bplist s)"
proof -
  have rest: "answers E (rq_cseq req) sk (do {
      (ok, s) \<leftarrow> respond_stream_setup E req raw bplist t port s;
      if \<not> ok then Some s else finish_streams E s })" if "sv_sock (snd s) = sk" for t port sk s
    by (rule leads_bind [where Q = "has_answered E (rq_cseq req) sk"])
      (auto simp: respond_stream_setup_def that has_answered_def [symmetric] intro!: plist_setup_answered v1_setup_answered
        finish_streams_answered, auto simp: has_answered_def)
  show ?thesis unfolding setup_streams_def Let_def
    by (rule leads_bind [OF start_streams_goes_on], simp, erule went_on_if) (auto intro!: leads_any rest)
qed

lemma setup_answers: "answers E (rq_cseq req) (sv_sock (snd s)) (handle_setup E req raw n s)"
proof -
  have codecs: "quiet_session (sv_sock (snd s)) (case (body, streams) of (Some b, Some n) \<Rightarrow>
      if bp then setup_stream_codecs E b [0..<n] ((fst s)\<lparr>rc_protocol_version := 2\<rparr>, snd s) else Some s | _ \<Rightarrow> Some s)"
    for body :: "bytes option" and streams and bp :: bool
    by (auto intro!: stream_codecs_quiet split: option.split)
  have port: "goes_on E (rq_cseq req) sk (if v1 then Some (True, s') else setup_event_port E req s')"
    if "sv_sock (snd s') = sk" for v1 sk s'
    using event_port_goes_on [OF that] that by simp
  have rest: "answers E (rq_cseq req) sk (if streams = None
      then (if v1 then setup_v1 E req raw s' else setup_initial E req bp s')
      else setup_streams E req raw body bp s')" if "sv_sock (snd s') = sk" for sk s' v1 body bp and streams :: "nat option"
    using v1_answers [of E req s' raw] initial_answers [of E req s' bp] streams_answers [of E req s' raw body bp] that by simp
  show ?thesis unfolding handle_setup_def Let_def
    by (rule leads_any, rule leads_any, rule leads_any, rule leads_bind [OF codecs], rule leads_bind [OF keys_quiet],
        rule leads_bind [OF port], simp, erule went_on_if, erule rest) simp
qed

subsection \<open>The dispatch\<close>

lemmas handlers_answer = options_answers get_answers post_answers announce_answers setup_answers record_answers
  set_parameter_answers get_parameter_answers pause_answers flush_answers flushbuffered_answers teardown_answers
  setrate_answers

lemma handler_answers:
  assumes "method_handler name = Some h"
  shows "answers E (rq_cseq req) (sv_sock (snd s)) (h E req raw n s)"
proof -
  have "answers E (rq_cseq req) (sv_sock (snd s)) (handle_setpeers E req raw n s)"
    by (simp add: handle_setpeers_def short_answers)
  with method_handler_cases [OF assms] show ?thesis by (auto simp only: insert_iff empty_iff intro!: handlers_answer)
qed

lemma remote_control_quiet: "quiet_session (sv_sock (snd s)) (remote_control raw n s)"
  unfolding remote_control_def Let_def by (cases s) (auto intro!: leads_any)



end
