(* ===== verification/Rtsp_Volume.thy ===== *)
theory Rtsp_Volume
  imports Rtsp_Sample
begin

section \<open>The volume in requests\<close>

text \<open>
  What SET_PARAMETER stores and GET_PARAMETER reports: the text of the volume does not fit the array
  it is formatted into once a large volume has been set.
\<close>

lemma dec_nat_long: "10 ^ k \<le> n \<Longrightarrow> k < length (dec_nat n)"
proof (induction k arbitrary: n)
  case 0
  then show ?case by (cases "n < 10") (simp_all add: dec_nat.simps [of n])
next
  case (Suc k)
  have "10 ^ k \<le> n div 10" using div_le_mono [OF Suc.prems, of 10] by simp
  moreover have "(10 :: nat) \<le> 10 ^ Suc k" by simp
  then have "\<not> n < 10" using Suc.prems by linarith
  ultimately show ?case using Suc.IH [of "n div 10"] by (simp add: dec_nat.simps [of n])
qed

lemma hundredths_bounds:
  assumes "0 \<le> x"
  shows "100 * x - 1 \<le> real (hundredths x)" "real (hundredths x) \<le> 100 * x + 1"
proof -
  let ?n = "nat \<lfloor>100 * x\<rfloor>"
  have "real ?n \<le> 100 * x" "100 * x < real ?n + 1" using assms by linarith+
  moreover have "?n \<le> hundredths x" "hundredths x \<le> ?n + 1" by (auto simp: hundredths_def Let_def)
  ultimately show "100 * x - 1 \<le> real (hundredths x)" "real (hundredths x) \<le> 100 * x + 1" by linarith+
qed

lemma long_volume_text:
  assumes "10 ^ 29 \<le> x" "x \<le> 10 ^ 31"
  shows "length (format_2f (Num False x)) \<in> {32..36}"
proof -
  let ?n = "hundredths x"
  have "real (10 ^ 30) \<le> real ?n" "real ?n < real (10 ^ 34)"
    using hundredths_bounds [of x] assms by simp_all
  then have n: "10 ^ 30 \<le> ?n" "?n < 10 ^ 34" by (simp_all only: of_nat_le_iff of_nat_less_iff)
  have "10 ^ 28 \<le> ?n div 100" using div_le_mono [OF n(1), of 100] by simp
  moreover have "?n div 100 < 10 ^ 32" using n(2) by (simp add: div_less_iff_less_mult)
  ultimately have "length (dec_nat (?n div 100)) \<in> {29..32}"
    using dec_nat_long [of 28 "?n div 100"] length_dec_nat [of 32 "?n div 100"] by simp
  moreover have "?n mod 100 div 10 < 10" by (simp add: div_less_iff_less_mult)
  then have "length (dec_nat (?n mod 100)) = (if ?n mod 100 < 10 then 1 else 2)"
    by (simp add: dec_nat.simps [of "?n mod 100"] dec_nat.simps [of "?n mod 100 div 10"])
  ultimately show ?thesis by (auto simp: format_2f_def Let_def)
qed

text \<open>The text \<open>1e30\<close> is a float close to it.\<close>

definition loud :: bytes where
  "loud = ascii ''1e30''"

lemma strtof_loud:
  assumes "fl_ok fl"
  shows "\<exists>x. strtof fl loud = Num False x \<and> 10 ^ 29 \<le> x \<and> x \<le> 10 ^ 31"
proof -
  have v: "decimal_value loud = 10 ^ 30"
    by (simp add: loud_def ascii_def decimal_value_def Let_def c_digit_def digits_val_def exponent_part_def)
  have "fl (2 ^ 99) \<le> fl (10 ^ 30)" "fl (10 ^ 30) \<le> fl (2 ^ 100)" by (auto intro!: fl_okD(1) [OF assms])
  then have "2 ^ 99 \<le> fl (10 ^ 30)" "fl (10 ^ 30) \<le> 2 ^ 100"
    using fl_okD(4) [OF assms, of 99] fl_okD(4) [OF assms, of 100] by simp_all
  moreover have "strtof fl loud = to_float fl False (decimal_value loud)"
    by (simp add: strtof_def loud_def ascii_def to_lower_def c_space_def)
  ultimately show ?thesis by (simp add: v to_float_def)
qed

text \<open>The stored volume has a sign and a magnitude.\<close>

definition volume_wf :: "volume \<Rightarrow> bool" where
  "volume_wf v \<longleftrightarrow> (\<forall>neg x. vl_stored_db v = Num neg x \<longrightarrow> 0 \<le> x)"

lemma loud_volume_text:
  assumes "fl_ok fl" "volume_wf v" "airplay_apply_volume_db fl (strtof fl loud) v = Some (v', dac)"
  shows "length (volume_text v') \<in> {42..46}"
proof -
  obtain x where x: "strtof fl loud = Num False x" "10 ^ 29 \<le> x" "x \<le> 10 ^ 31" using strtof_loud [OF assms(1)] by blast
  have "x > 0" using x(2) by (rule less_le_trans [rotated]) simp
  then have "airplay_get_volume_db v' = Num False x"
    using assms(2,3) x(1)
    by (auto simp: airplay_apply_volume_db_def bind_eq_Some_conv settings_set_volume_def airplay_get_volume_db_def
        settings_get_volume_def volume_wf_def float_value_def split: if_splits elim!: float_eq.elims)
  then show ?thesis using long_volume_text [OF x(2,3)] by (simp add: volume_text_def)
qed

lemma send_message_overread:
  assumes "\<And>n. \<exists>b. malloc n = Some b \<and> length b = n" "length b < n" "n < 2 ^ 31"
  shows "send_message C alloc malloc c room head (Some b) n sk = None"
proof -
  have "rd_block b 0 n = None" "0 < n" using assms(2) by (simp_all add: rd_block_def)
  moreover have "malloc k \<noteq> None" for k using assms(1) [of k] by auto
  ultimately show ?thesis
    by (cases "snprintf_at head (replicate room 0) 0 room")
      (auto simp: send_message_def Let_def bind_eq_None_conv split: option.split)
qed

text \<open>
  C37. GET_PARAMETER sends memory it does not own: after SET_PARAMETER with \<open>volume: 1e30\<close> the text of the
  volume is longer than the 32 bytes it is formatted into, and the response is copied with the length of
  the whole text.
\<close>

theorem get_parameter_overreads:
  assumes "fl_ok (he_fl E)" "\<And>n. \<exists>b. he_malloc E n = Some b \<and> length b = n" "length (he_stack E 32) = 32"
    and "volume_wf (sv_volume v)" "apply_volume E (strtof (he_fl E) loud) v = Some v'"
    and "body_string req raw = Some (Some body)" "rq_body_len req > 0" "contains body (ascii ''volume'')"
  shows "handle_get_parameter E req raw n (c, v') = None"
proof -
  obtain w dac where w: "airplay_apply_volume_db (he_fl E) (strtof (he_fl E) loud) (sv_volume v) = Some (w, dac)"
    "sv_volume v' = w"
    using assms(5) by (auto simp: apply_volume_def bind_eq_Some_conv effect_def Let_def split: option.splits)
  let ?t = "volume_text (sv_volume v')"
  have len: "length ?t \<in> {42..46}" using loud_volume_text [OF assms(1,4) w(1)] w(2) by simp
  obtain t where t: "snprintf_at ?t (he_stack E 32) 0 32 = Some (int (length ?t), t)" "length t = 32"
    using len assms(3) by (auto simp: snprintf_at_def wr_put)
  have "nat (int (length ?t) mod 2 ^ 32) = length ?t" using len by simp
  then show ?thesis
    using assms(6-8) t len send_message_overread [OF assms(2), of t "length ?t"]
    by (simp add: handle_get_parameter_def respond_def rtsp_send_response_def)
qed

lemma get_parameter_overreads_witness:
  "\<exists>v'. apply_volume sample_device (strtof (\<lambda>x. x) loud) sample_server = Some v' \<and>
     handle_get_parameter sample_device (sample_parse\<lparr>rq_body := Some 0, rq_body_len := 8\<rparr>) (ascii ''volume'' @ [13, 10, 0]) 8
       (rtsp_conn_create, v') = None"
proof -
  let ?req = "sample_parse\<lparr>rq_body := Some 0, rq_body_len := 8\<rparr>" and ?raw = "ascii ''volume'' @ [13, 10, 0]"
  obtain x where "strtof (\<lambda>x. x) loud = Num False x" using strtof_loud [OF fl_ok_id] by blast
  then obtain v' where v': "apply_volume sample_device (strtof (\<lambda>x. x) loud) sample_server = Some v'"
    by (auto simp: apply_volume_def airplay_apply_volume_db_def db_to_q15_number [OF fl_ok_id] sample_device_def
        settings_set_volume_def sample_server_def volume_init_def Let_def split: option.split)
  have body: "body_string ?req ?raw = Some (Some (ascii ''volume'' @ [13, 10]))"
    by (simp add: body_string_def c_string_def cstr_def ascii_def)
  have has: "contains (ascii ''volume'' @ [13, 10]) (ascii ''volume'')" by (simp add: contains_def ascii_def)
  have fl: "he_fl sample_device = (\<lambda>x. x)" "\<And>n. he_malloc sample_device n = Some (replicate n 0)"
    "length (he_stack sample_device 32) = 32" by (simp_all add: sample_device_def)
  have "volume_wf (sv_volume sample_server)" by (simp add: volume_wf_def sample_server_def volume_init_def minus_db_def)
  from get_parameter_overreads [of sample_device sample_server v' ?req ?raw, OF _ _ _ this _ body _ has] v'
  show ?thesis using fl fl_ok_id by auto
qed

end
