(* ===== verification/Rtsp_Session_End.thy ===== *)
theory Rtsp_Session_End
  imports Rtsp_Volume
begin

section \<open>The end of a client session (main/rtsp/rtsp_server.c)\<close>

text \<open>
  What the task of a client does after its connection has ended: it stops the audio, waits out the
  grace period in which an AirPlay 1 client may come back, announces the end, restarts the timing and
  releases the connection.
\<close>

subsection \<open>The start\<close>

text \<open>
  A new connection takes over the volume that is still to be handed to AirPlay, and the address of its
  client when the system tells it. Whether connection and buffer can be allocated is in the slots.
\<close>

definition client_task_start :: "handler_env \<Rightarrow> u32 option \<Rightarrow> server \<Rightarrow> session mem" where
  "client_task_start E peer v = do {
     let c = rtsp_conn_create;
     let (pending, vol) = airplay_take_volume_pending_sync (sv_volume v);
     let v = v\<lparr>sv_volume := vol\<rparr>;
     v \<leftarrow> (if pending then apply_volume E (airplay_get_pending_volume_db vol) v else Some v);
     Some (case peer of None \<Rightarrow> c | Some ip \<Rightarrow> c\<lparr>rc_client_ip := ip\<rparr>, v)
   }"

subsection \<open>The grace period\<close>

text \<open>
  The flags of the slot and of the resume button change while the task sleeps: a tick is one sleep of
  500 ms with the stop flag and the resume request it ends with. The probes are the answers of
  \<open>dacp_probe_service\<close>. \<open>None\<close> means that the task still waits when ticks or probes are used up.
\<close>

type_synonym tick = "bool \<times> bool"

text \<open>The first three seconds, which end early on a resume request.\<close>

fun grace_settle :: "nat \<Rightarrow> bool \<Rightarrow> tick list \<Rightarrow> (bool \<times> bool \<times> tick list) option" where
  "grace_settle 0 stop ts = Some (stop, False, ts)"
| "grace_settle (Suc i) True ts = Some (True, False, ts)"
| "grace_settle (Suc i) False [] = None"
| "grace_settle (Suc i) False ((stop, resume) # ts) = (if resume then Some (stop, True, ts) else grace_settle i stop ts)"

text \<open>Five seconds between two probes; a resume request in them is only taken note of.\<close>

fun grace_round :: "nat \<Rightarrow> bool \<Rightarrow> tick list \<Rightarrow> (bool \<times> tick list) option" where
  "grace_round 0 stop ts = Some (stop, ts)"
| "grace_round (Suc i) True ts = Some (True, ts)"
| "grace_round (Suc i) False [] = None"
| "grace_round (Suc i) False ((stop, resume) # ts) = grace_round i stop ts"

text \<open>The service is probed for as long as it answers. The result is what is left of the ticks.\<close>

fun grace_wait :: "bool \<Rightarrow> bool list \<Rightarrow> tick list \<Rightarrow> tick list option" where
  "grace_wait False probes ts = Some ts"
| "grace_wait True probes ts =
    (case grace_round 10 False ts of
       None \<Rightarrow> None
     | Some (stop, ts) \<Rightarrow>
         if stop then Some ts
         else (case probes of [] \<Rightarrow> None | stay # probes \<Rightarrow> grace_wait stay probes ts))"

definition grace_period :: "bool list \<Rightarrow> tick list \<Rightarrow> tick list option" where
  "grace_period probes ts =
    (case grace_settle 6 False ts of
       None \<Rightarrow> None
     | Some (stop, resume, ts) \<Rightarrow>
         if stop then Some ts
         else (case probes of [] \<Rightarrow> None | stay # probes \<Rightarrow> grace_wait (stay \<or> resume) probes ts))"

lemma grace_settle_quiet: "length ts = n \<Longrightarrow> \<forall>t \<in> set ts. t = (False, False) \<Longrightarrow> grace_settle n False (ts @ us) = Some (False, False, us)"
  by (induction ts arbitrary: n) (auto simp: Suc_length_conv)

lemma grace_round_quiet: "length ts = n \<Longrightarrow> \<forall>t \<in> set ts. \<not> fst t \<Longrightarrow> grace_round n False (ts @ us) = Some (False, us)"
proof (induction ts arbitrary: n)
  case (Cons t ts)
  then show ?case by (cases t; cases n) auto
qed auto

subsection \<open>The clean-up\<close>

text \<open>
  The surroundings of the clean-up: whether the task is told to stop when the connection ends, the
  probes and ticks of the grace period, whether a new client has replaced this one by its end, the
  sockets and the task of the new PTP clock, and the results of the calls that store the volume.
\<close>

record session_end_env =
  se_stop :: bool
  se_probes :: "bool list"
  se_ticks :: "tick list"
  se_replaced :: bool
  se_ptp :: "int \<times> int \<times> bool"
  se_store :: "esp_err \<times> esp_err \<times> esp_err"

definition has_dacp_remote :: "rtsp_conn \<Rightarrow> bool mem" where
  "has_dacp_remote c = do {
     d \<leftarrow> rd (rc_dacp_id c) 0;
     a \<leftarrow> rd (rc_active_remote c) 0;
     Some (rc_protocol_version c = 1 \<and> d \<noteq> 0 \<and> a \<noteq> 0)
   }"

definition disconnected :: "server \<Rightarrow> server" where
  "disconnected v = effect (Emitted RTSP_EVENT_DISCONNECTED None) (effect Dacp_cleared v)"

text \<open>The announcement of the end; \<open>None\<close> inside: still in the grace period.\<close>

definition announce_end :: "session_end_env \<Rightarrow> bool \<Rightarrow> server \<Rightarrow> server option" where
  "announce_end D remote v =
    (if remote \<and> \<not> se_stop D then
       (let v = effect (Emitted RTSP_EVENT_PAUSED None) v in
        case grace_period (se_probes D) (se_ticks D) of
          None \<Rightarrow> None
        | Some _ \<Rightarrow> Some (if se_replaced D then v else disconnected v))
     else Some (disconnected v))"

text \<open>Only the last client restarts PTP and stops the event port; a replaced one stops it when it is still its own.\<close>

definition stop_event_port :: "handler_env \<Rightarrow> server \<Rightarrow> server" where
  "stop_event_port E v =
    (let (p, effects) = rtsp_stop_event_port_task (fst (he_event_exits E)) (sv_event_port v) in
     v\<lparr>sv_event_port := p, sv_effects := sv_effects v @ effects\<rparr>)"

definition hand_over :: "handler_env \<Rightarrow> session_end_env \<Rightarrow> rtsp_conn \<Rightarrow> server \<Rightarrow> server" where
  "hand_over E D c v =
    (if \<not> se_replaced D then
       (let (event, general, created) = se_ptp D;
            (err, p, closed) = ptp_clock_init event general created (sv_ptp v) in
        stop_event_port E (closing closed (v\<lparr>sv_ptp := p\<rparr>)))
     else if rtsp_event_port_listen_socket (sv_event_port v) \<ge> 0 \<and>
         rtsp_event_port_listen_socket (sv_event_port v) = rc_event_socket c
     then stop_event_port E v
     else v)"

text \<open>What the connection asks of the device when it is cleaned up and released.\<close>

fun conn_effects :: "conn_effect list \<Rightarrow> server \<Rightarrow> server" where
  "conn_effects [] v = v"
| "conn_effects (Close_socket fd # es) v = conn_effects es (closing [fd] v)"
| "conn_effects (Clear_ptp_clock # es) v = conn_effects es (v\<lparr>sv_ptp := ptp_clock_clear (sv_ptp v)\<rparr>)"
| "conn_effects (e # es) v = conn_effects es v"

definition release_conn :: "handler_env \<Rightarrow> session_end_env \<Rightarrow> session \<Rightarrow> server mem" where
  "release_conn E D s = do {
     let (c, v) = s;
     let (c, v) = (if rc_event_socket c \<ge> 0 then (c\<lparr>rc_event_socket := -1\<rparr>, closing [rc_event_socket c] v) else (c, v));
     let (c, effects) = rtsp_conn_cleanup c;
     let v = conn_effects effects v;
     let (opened, set_ok, committed) = se_store D;
     _ \<leftarrow> settings_persist_volume (he_fl E) opened set_ok committed (sv_volume v);
     Some (conn_effects (rtsp_conn_free c) v)
   }"

text \<open>
  The part of the client task after its loop. The outer result is \<open>None\<close> for an undefined operation, the
  inner one while the task is still in the grace period.
\<close>

definition client_task_end :: "handler_env \<Rightarrow> session_end_env \<Rightarrow> session \<Rightarrow> server option mem" where
  "client_task_end E D s = do {
     let (c, v) = s;
     v \<leftarrow> stop_receiver E v;
     let v = effect Output_flushed v;
     let (n, closed) = ntp_clock_stop (fst (he_ntp E)) (sv_ntp v);
     let v = closing closed (v\<lparr>sv_ntp := n\<rparr>);
     remote \<leftarrow> has_dacp_remote c;
     case announce_end D remote v of
       None \<Rightarrow> Some None
     | Some v \<Rightarrow> do {
         v \<leftarrow> release_conn E D (c, hand_over E D c v);
         Some (Some v)
       }
   }"

subsection \<open>What a session leaves behind\<close>

lemma conn_effects_simps [simp]:
  "sv_receiver (conn_effects es v) = sv_receiver v" "sv_ntp (conn_effects es v) = sv_ntp v"
  "sv_event_port (conn_effects es v) = sv_event_port v" "sv_volume (conn_effects es v) = sv_volume v"
  by (induction es v rule: conn_effects.induct) (simp_all add: closing_def)

lemma conn_effects_ptp: "sv_ptp (conn_effects es v) = (if Clear_ptp_clock \<in> set es then ptp_clock_clear (sv_ptp v) else sv_ptp v)"
proof (induction es v rule: conn_effects.induct)
  case (3 es v)
  have "ptp_clock_clear (ptp_clock_clear p) = ptp_clock_clear p" for p by (simp add: ptp_clock_clear_def)
  then show ?case using 3 by simp
qed (simp_all add: closing_def)

lemma release_conn_state:
  assumes "release_conn E D (c, v) = Some v'"
  shows "sv_receiver v' = sv_receiver v" "sv_ntp v' = sv_ntp v" "sv_event_port v' = sv_event_port v"
    "sv_ptp v' = ptp_clock_clear (sv_ptp v)"
  using assms
  by (auto simp: release_conn_def bind_eq_Some_conv conn_effects_ptp rtsp_conn_cleanup_def closing_def ptp_clock_clear_def
      rtsp_conn_free_def split: prod.splits if_splits)

text \<open>A receiver that plays nothing: no decoder, no frames, no anchor, no control address.\<close>

definition silenced :: "receiver \<Rightarrow> bool" where
  "silenced r \<longleftrightarrow> rv_decoder r = None \<and> audio_buffer_get_frame_count (rv_buffer r) = 0 \<and>
     \<not> tm_anchor_valid (rv_timing r) \<and> rv_client_control r = (0, 0) \<and> \<not> rv_retransmit_enabled r"

lemma flush_silences:
  assumes "receiver_ok r" "audio_receiver_flush r = Some r'"
  shows "audio_buffer_get_frame_count (rv_buffer r') = 0 \<and> \<not> tm_anchor_valid (rv_timing r') \<and> rv_decoder r' = rv_decoder r \<and>
    rv_client_control r' = rv_client_control r \<and> rv_retransmit_enabled r' = rv_retransmit_enabled r"
proof -
  have "ab_ok (rv_buffer r) []" using receiver_okD(5) [OF assms(1)] by (simp add: buffer_ok_def)
  moreover have "ab_pool (rv_buffer r) \<noteq> None" using calculation by (auto simp: ab_ok_def)
  ultimately show ?thesis using assms(2) flush_critical_ok(1)
    by (auto simp: audio_receiver_flush_def flush_buffer_def audio_buffer_flush_def drain_semaphore_def on_timing_def
        audio_timing_reset_def audio_timing_reset_continuity_def audio_receiver_reset_resend_state_def
        audio_buffer_get_frame_count_def bind_eq_Some_conv)
qed

lemma stop_silences:
  assumes "receiver_ok r"
  shows "\<exists>r' closed. audio_receiver_stop E1 E2 r = Some (r', closed) \<and> receiver_ok r' \<and> silenced r'"
proof -
  obtain r' closed where r': "audio_receiver_stop E1 E2 r = Some (r', closed)" "receiver_ok r'"
    using audio_receiver_stop_ok [OF assms, of E1 E2] by (auto simp: ensures_def)
  obtain r1 c1 where s1: "stop_if E1 (rv_realtime r) r = (r1, c1)" by force
  obtain r2 c2 where s2: "stop_if E2 (rv_buffered r1) r1 = (r2, c2)" by force
  have "receiver_ok r2" using stop_if_ok [OF assms, of E1 "rv_realtime r"] stop_if_ok [of r1 E2 "rv_buffered r1"] s1 s2 by simp
  then have "receiver_ok ((without_encryption r2)\<lparr>rv_decoder := None\<rparr>)"
    by (auto simp: without_encryption_def receiver_ok_def stream_ok_def decoder_ok_def)
  then have ok: "receiver_ok (audio_receiver_reset_resend_state ((without_encryption r2)\<lparr>rv_decoder := None,
      rv_retransmit_enabled := False, rv_client_control := (0, 0)\<rparr>))" (is "receiver_ok ?r3") by simp
  have "audio_receiver_flush ?r3 = Some r'"
    using r'(1) s1 s2 by (auto simp: audio_receiver_stop_def Let_def bind_eq_Some_conv)
  from flush_silences [OF ok this] have "silenced r'"
    by (auto simp: silenced_def audio_receiver_reset_resend_state_def)
  then show ?thesis using r' by blast
qed

text \<open>The events told to the listeners, in order.\<close>

definition events :: "server \<Rightarrow> rtsp_event list" where
  "events v = concat (map (\<lambda>e. case e of Emitted ev _ \<Rightarrow> [ev] | _ \<Rightarrow> []) (sv_effects v))"

lemma events_simps [simp]:
  "events (closing fds v) = events v" "events (v\<lparr>sv_receiver := r\<rparr>) = events v" "events (v\<lparr>sv_ptp := p\<rparr>) = events v"
  "events (v\<lparr>sv_ntp := n\<rparr>) = events v" "events (effect Output_flushed v) = events v" "events (effect Dacp_cleared v) = events v"
  "events (effect (Emitted ev m) v) = events v @ [ev]" "events (conn_effects es v) = events v"
proof -
  show c: "events (closing fds v) = events v" for fds v by (simp add: events_def closing_def)
  show "events (conn_effects es v) = events v" for v
    by (induction es v rule: conn_effects.induct) (simp_all add: c, simp add: events_def)
qed (simp_all add: events_def effect_def)

lemma stop_event_port_state:
  "sv_receiver (stop_event_port E v) = sv_receiver v" "sv_ntp (stop_event_port E v) = sv_ntp v" "sv_ptp (stop_event_port E v) = sv_ptp v"
  "sv_volume (stop_event_port E v) = sv_volume v" "events (stop_event_port E v) = events v"
  "fst (he_event_exits E) \<Longrightarrow> \<not> ep_task (sv_event_port (stop_event_port E v))"
  by (auto simp: stop_event_port_def rtsp_stop_event_port_task_def event_port_wait_for_task_stopped_def event_port_end_def
      events_def Let_def split: prod.split)

lemma hand_over_state:
  "sv_receiver (hand_over E D c v) = sv_receiver v" "sv_ntp (hand_over E D c v) = sv_ntp v"
  "sv_volume (hand_over E D c v) = sv_volume v" "events (hand_over E D c v) = events v"
  "se_replaced D \<Longrightarrow> sv_ptp (hand_over E D c v) = sv_ptp v"
  "\<not> se_replaced D \<Longrightarrow> fst (he_event_exits E) \<Longrightarrow> \<not> ep_task (sv_event_port (hand_over E D c v))"
  by (auto simp: hand_over_def Let_def stop_event_port_state closing_def split: prod.split) (simp_all add: events_def)

lemma effect_fields [simp]:
  "sv_receiver (effect e v) = sv_receiver v" "sv_ntp (effect e v) = sv_ntp v" "sv_ptp (effect e v) = sv_ptp v"
  "sv_volume (effect e v) = sv_volume v"
  by (simp_all add: effect_def)

lemma announce_end_state:
  assumes "grace_period (se_probes D) (se_ticks D) \<noteq> None"
  shows "\<exists>v'. announce_end D remote v = Some v' \<and> sv_receiver v' = sv_receiver v \<and> sv_ntp v' = sv_ntp v \<and>
    sv_ptp v' = sv_ptp v \<and> sv_volume v' = sv_volume v \<and>
    events v' = events v @ (if remote \<and> \<not> se_stop D then [RTSP_EVENT_PAUSED] else []) @
      (if remote \<and> \<not> se_stop D \<and> se_replaced D then [] else [RTSP_EVENT_DISCONNECTED])"
  using assms
  by (cases "remote \<and> \<not> se_stop D"; cases "se_replaced D") (auto simp: announce_end_def disconnected_def Let_def)

text \<open>The volume that is stored at the end can be converted.\<close>

definition volume_storable :: "handler_env \<Rightarrow> session_end_env \<Rightarrow> volume \<Rightarrow> bool" where
  "volume_storable E D vol \<longleftrightarrow>
    (let (opened, set_ok, committed) = se_store D in settings_persist_volume (he_fl E) opened set_ok committed vol \<noteq> None)"

lemma release_conn_returns:
  assumes "volume_storable E D (sv_volume v)"
  shows "\<exists>v'. release_conn E D (c, v) = Some v' \<and> events v' = events v"
proof -
  obtain o1 o2 o3 where st: "se_store D = (o1, o2, o3)" by (cases "se_store D") auto
  obtain x where x: "settings_persist_volume (he_fl E) o1 o2 o3 (sv_volume v) = Some x"
    using assms st by (auto simp: volume_storable_def)
  have "sv_volume (closing fds v) = sv_volume v" for fds by (simp add: closing_def)
  then show ?thesis using x st
    by (cases "rc_event_socket c \<ge> 0") (simp_all add: release_conn_def Let_def split: prod.split)
qed

lemma client_task_end_returns:
  assumes "receiver_ok (sv_receiver v)" "rc_dacp_id c \<noteq> []" "rc_active_remote c \<noteq> []"
    and "volume_storable E D (sv_volume v)" "grace_period (se_probes D) (se_ticks D) \<noteq> None"
  obtains v' remote where "client_task_end E D (c, v) = Some (Some v')" "has_dacp_remote c = Some remote"
    "silenced (sv_receiver v')" "\<not> nt_running (sv_ntp v')"
    "se_replaced D \<Longrightarrow> sv_ptp v' = ptp_clock_clear (sv_ptp v)"
    "\<not> se_replaced D \<Longrightarrow> fst (he_event_exits E) \<Longrightarrow> \<not> ep_task (sv_event_port v')"
    "events v' = events v @ (if remote \<and> \<not> se_stop D then [RTSP_EVENT_PAUSED] else []) @
      (if remote \<and> \<not> se_stop D \<and> se_replaced D then [] else [RTSP_EVENT_DISCONNECTED])"
proof -
  obtain r closed where r: "audio_receiver_stop (he_stop_realtime E) (he_stop_buffered E) (sv_receiver v) = Some (r, closed)"
    "silenced r"
    using stop_silences [OF assms(1)] by blast
  obtain n closed' where n: "ntp_clock_stop (fst (he_ntp E)) (sv_ntp v) = (n, closed')" by force
  have off: "\<not> nt_running n" using n by (auto simp: ntp_clock_stop_def Let_def split: if_splits)
  define v1 where "v1 = closing closed' ((effect Output_flushed (closing closed (v\<lparr>sv_receiver := r\<rparr>)))\<lparr>sv_ntp := n\<rparr>)"
  have v1: "sv_receiver v1 = r" "sv_ntp v1 = n" "sv_ptp v1 = sv_ptp v" "sv_volume v1 = sv_volume v" "events v1 = events v"
    unfolding v1_def by (simp_all add: closing_def effect_def) (simp add: events_def)
  obtain remote where remote: "has_dacp_remote c = Some remote"
    using assms(2,3) by (cases "rc_dacp_id c"; cases "rc_active_remote c") (simp_all add: has_dacp_remote_def rd_def)
  obtain v2 where v2: "announce_end D remote v1 = Some v2" "sv_receiver v2 = r" "sv_ntp v2 = n" "sv_ptp v2 = sv_ptp v"
    "sv_volume v2 = sv_volume v" "events v2 = events v @ (if remote \<and> \<not> se_stop D then [RTSP_EVENT_PAUSED] else []) @
      (if remote \<and> \<not> se_stop D \<and> se_replaced D then [] else [RTSP_EVENT_DISCONNECTED])"
    using v1 announce_end_state [OF assms(5), of remote v1] by auto
  let ?v3 = "hand_over E D c v2"
  have "volume_storable E D (sv_volume ?v3)" using assms(4) v2(5) by (simp add: hand_over_state)
  then obtain v4 where v4: "release_conn E D (c, ?v3) = Some v4" "events v4 = events ?v3"
    using release_conn_returns by blast
  show thesis
  proof
    show "client_task_end E D (c, v) = Some (Some v4)"
      using r(1) n remote v2(1) v4(1) by (simp add: client_task_end_def stop_receiver_def receiver_closes_def v1_def Let_def effect_def closing_def)
  qed (use release_conn_state [OF v4(1)] hand_over_state v2 v4(2) remote r(2) off in simp_all)
qed


text \<open>
  C40. The end of a client that has been replaced disturbs its successor: the clean-up stops the receiver
  and the timing client the successor may have started, and forgets the master clock it has set.
\<close>

theorem replaced_client_silences_successor:
  assumes "receiver_ok (sv_receiver v)" "rc_dacp_id c \<noteq> []" "rc_active_remote c \<noteq> []"
    and "volume_storable E D (sv_volume v)" "grace_period (se_probes D) (se_ticks D) \<noteq> None" "se_replaced D"
  shows "\<exists>v'. client_task_end E D (c, v) = Some (Some v') \<and> silenced (sv_receiver v') \<and> \<not> nt_running (sv_ntp v') \<and>
    pt_expected_clock_id (sv_ptp v') = 0 \<and> \<not> pt_locked (sv_ptp v')"
proof -
  obtain v' where v': "client_task_end E D (c, v) = Some (Some v')" "silenced (sv_receiver v')" "\<not> nt_running (sv_ntp v')"
    "sv_ptp v' = ptp_clock_clear (sv_ptp v)"
    by (rule client_task_end_returns [OF assms(1-5)]) (use assms(6) that in blast)
  then show ?thesis by (simp add: ptp_clock_clear_def)
qed

text \<open>A device that has been initialised, and a client that is told to go.\<close>

definition sample_end :: "bool \<Rightarrow> session_end_env" where
  "sample_end replaced = \<lparr>se_stop = replaced, se_probes = [False], se_ticks = replicate 6 (False, False), se_replaced = replaced,
     se_ptp = (5, 6, True), se_store = (ESP_OK, ESP_OK, ESP_OK)\<rparr>"

lemma sample_end_ready:
  obtains r where "audio_receiver_init sample_init receiver_zero = (ESP_OK, r)" "receiver_ok r"
    "rc_dacp_id rtsp_conn_create \<noteq> []" "rc_active_remote rtsp_conn_create \<noteq> []"
    "\<And>b. volume_storable sample_device (sample_end b) (sv_volume (sample_server\<lparr>sv_receiver := r\<rparr>))"
    "\<And>b. grace_period (se_probes (sample_end b)) (se_ticks (sample_end b)) \<noteq> None" "fst (he_event_exits sample_device)"
proof -
  obtain r where r: "audio_receiver_init sample_init receiver_zero = (ESP_OK, r)" using sample_init_ok(2) by blast
  show thesis
  proof
    show "audio_receiver_init sample_init receiver_zero = (ESP_OK, r)" by (rule r)
    show "receiver_ok r" by (rule audio_receiver_init_ok [OF sample_init_ok(1) r])
    show "volume_storable sample_device (sample_end b) (sv_volume (sample_server\<lparr>sv_receiver := r\<rparr>))" for b
      by (simp add: volume_storable_def sample_end_def settings_persist_volume_def sample_server_def volume_init_def)
    show "grace_period (se_probes (sample_end b)) (se_ticks (sample_end b)) \<noteq> None" for b
      by (simp add: grace_period_def sample_end_def numeral_eq_Suc)
  qed (simp_all add: rtsp_conn_create_def sample_device_def)
qed


lemma replaced_client_silences_successor_witness:
  "\<exists>r v'. audio_receiver_init sample_init receiver_zero = (ESP_OK, r) \<and>
     client_task_end sample_device (sample_end True) (rtsp_conn_create, sample_server\<lparr>sv_receiver := r\<rparr>) = Some (Some v') \<and>
     silenced (sv_receiver v')"
proof -
  obtain r where r: "audio_receiver_init sample_init receiver_zero = (ESP_OK, r)" "receiver_ok r"
    "rc_dacp_id rtsp_conn_create \<noteq> []" "rc_active_remote rtsp_conn_create \<noteq> []"
    "volume_storable sample_device (sample_end True) (sv_volume (sample_server\<lparr>sv_receiver := r\<rparr>))"
    "grace_period (se_probes (sample_end True)) (se_ticks (sample_end True)) \<noteq> None"
    using sample_end_ready by metis
  have "receiver_ok (sv_receiver (sample_server\<lparr>sv_receiver := r\<rparr>))" "se_replaced (sample_end True)"
    using r(2) by (simp_all add: sample_end_def)
  with replaced_client_silences_successor [OF this(1) r(3-6) this(2)] r(1) show ?thesis by auto
qed

end
