(* ===== verification/Rtsp_Slots.thy ===== *)
theory Rtsp_Slots
  imports Airplay_Volume
begin

section \<open>The two client slots (main/rtsp/rtsp_server.c)\<close>

text \<open>
  The task that accepts connections and the tasks of the clients share two slots. This is their
  interleaving: a step is one or a few adjacent statements of a task that touch shared state. Objects
  are known by their addresses: \<open>rt_conns\<close> are the connection objects that are allocated, \<open>rt_open\<close> the
  open descriptors, \<open>rt_shut\<close> the descriptors that were shut down to wake up their task and \<open>rt_reclosed\<close>
  the ones closed when they were not open, both in order.
\<close>

text \<open>Where a client task is; the argument is its connection object.\<close>

datatype client_at =
  No_task
| Begin
| Connected nat
| Linked nat
| Visible nat
| Serving nat
| Leaving nat
| Closed nat
| Ending nat
| Ended nat
| Hidden nat
| Unlinked nat
| Freed
| Dropping nat
| Dropped nat
| Refused
| Refused_closed

text \<open>Where the server task is; the argument is the descriptor it has accepted.\<close>

datatype server_at =
  Accepting
| Accepted int
| Stopping int
| Waiting int nat
| Signalling int
| Shutting int
| Setting_up int
| Creating int
| Created int
| Halting nat
| Halted

record rtsp_tasks =
  rt_slots :: "nat \<Rightarrow> client_slot"
  rt_at :: "nat \<Rightarrow> client_at"
  rt_current :: nat
  rt_server :: server_at
  rt_running :: bool
  rt_conns :: "nat set"
  rt_open :: "int set"
  rt_shut :: "int list"
  rt_reclosed :: "int list"
  rt_late :: "(nat \<times> bool) list"

definition empty_slot :: client_slot where
  "empty_slot = \<lparr>cs_conn = None, cs_task = False, cs_socket = -1, cs_should_stop = False, cs_is_old = False, cs_has_session = False\<rparr>"

text \<open>After the initialisation of the slots and the start of the listener.\<close>

definition slots_init :: rtsp_tasks where
  "slots_init = \<lparr>rt_slots = (\<lambda>_. empty_slot), rt_at = (\<lambda>_. No_task), rt_current = 0, rt_server = Accepting, rt_running = True,
     rt_conns = {}, rt_open = {}, rt_shut = [], rt_reclosed = [], rt_late = []\<rparr>"

definition on_slot :: "nat \<Rightarrow> (client_slot \<Rightarrow> client_slot) \<Rightarrow> rtsp_tasks \<Rightarrow> rtsp_tasks" where
  "on_slot i f s = s\<lparr>rt_slots := (rt_slots s)(i := f (rt_slots s i))\<rparr>"

definition goto :: "nat \<Rightarrow> client_at \<Rightarrow> rtsp_tasks \<Rightarrow> rtsp_tasks" where
  "goto i pc s = s\<lparr>rt_at := (rt_at s)(i := pc)\<rparr>"

definition close_fd :: "int \<Rightarrow> rtsp_tasks \<Rightarrow> rtsp_tasks" where
  "close_fd fd s = (if fd \<in> rt_open s then s\<lparr>rt_open := rt_open s - {fd}\<rparr> else s\<lparr>rt_reclosed := rt_reclosed s @ [fd]\<rparr>)"

definition shut_down :: "int \<Rightarrow> rtsp_tasks \<Rightarrow> rtsp_tasks" where
  "shut_down fd s = (if fd \<ge> 0 then s\<lparr>rt_shut := rt_shut s @ [fd]\<rparr> else s)"

subsection \<open>The client task\<close>

text \<open>
  \<open>conn\<close> is the address the allocation of the connection returns, \<open>buffer\<close> whether the buffer is
  allocated. The loop that serves requests and the end of the session are one state each: they touch
  no slot. A finished task resets the two flags of its slot last, when the slot may be in use again.
\<close>

definition client_step :: "nat \<Rightarrow> nat option \<Rightarrow> bool \<Rightarrow> rtsp_tasks \<Rightarrow> rtsp_tasks option" where
  "client_step i conn buffer s =
    (case rt_at s i of
       No_task \<Rightarrow> None
     | Begin \<Rightarrow>
         (case conn of
            None \<Rightarrow> Some (goto i Refused s)
          | Some a \<Rightarrow> if a \<in> rt_conns s then None else Some (goto i (Connected a) (s\<lparr>rt_conns := insert a (rt_conns s)\<rparr>)))
     | Connected a \<Rightarrow> Some (goto i (Linked a) (on_slot i (\<lambda>c. c\<lparr>cs_conn := Some a\<rparr>) s))
     | Linked a \<Rightarrow> Some (goto i (Visible a) (on_slot i (\<lambda>c. c\<lparr>cs_has_session := True\<rparr>) s))
     | Visible a \<Rightarrow>
         if buffer then Some (goto i (Serving a) s)
         else Some (goto i (Dropping a) (on_slot i (\<lambda>c. c\<lparr>cs_has_session := False\<rparr>) s))
     | Serving a \<Rightarrow> Some (goto i (Leaving a) s)
     | Leaving a \<Rightarrow> Some (goto i (Closed a) (close_fd (cs_socket (rt_slots s i)) s))
     | Closed a \<Rightarrow> Some (goto i (Ending a) (on_slot i (\<lambda>c. c\<lparr>cs_socket := -1\<rparr>) s))
     | Ending a \<Rightarrow> Some (goto i (Ended a) s)
     | Ended a \<Rightarrow> Some (goto i (Hidden a) (on_slot i (\<lambda>c. c\<lparr>cs_has_session := False\<rparr>) s))
     | Hidden a \<Rightarrow> Some (goto i (Unlinked a) (on_slot i (\<lambda>c. c\<lparr>cs_conn := None\<rparr>) s))
     | Unlinked a \<Rightarrow> Some (goto i Freed (s\<lparr>rt_conns := rt_conns s - {a}\<rparr>))
     | Freed \<Rightarrow> Some (goto i No_task (on_slot i (\<lambda>c. c\<lparr>cs_socket := -1, cs_task := False\<rparr>) (s\<lparr>rt_late := rt_late s @ [(i, True)]\<rparr>)))
     | Dropping a \<Rightarrow> Some (goto i (Dropped a) (on_slot i (\<lambda>c. c\<lparr>cs_conn := None\<rparr>) s))
     | Dropped a \<Rightarrow> Some (goto i Refused (s\<lparr>rt_conns := rt_conns s - {a}\<rparr>))
     | Refused \<Rightarrow> Some (goto i Refused_closed (close_fd (cs_socket (rt_slots s i)) s))
     | Refused_closed \<Rightarrow> Some (goto i No_task (on_slot i (\<lambda>c. c\<lparr>cs_socket := -1, cs_task := False\<rparr>) s)))"

text \<open>The last statements of a finished task: \<open>should_stop\<close>, then \<open>is_old\<close>.\<close>

definition late_step :: "nat \<Rightarrow> rtsp_tasks \<Rightarrow> rtsp_tasks option" where
  "late_step k s =
    (if k \<ge> length (rt_late s) then None
     else let (i, first) = rt_late s ! k in
       Some (if first then on_slot i (\<lambda>c. c\<lparr>cs_should_stop := False\<rparr>) (s\<lparr>rt_late := (rt_late s)[k := (i, False)]\<rparr>)
         else on_slot i (\<lambda>c. c\<lparr>cs_is_old := False\<rparr>) (s\<lparr>rt_late := take k (rt_late s) @ drop (k + 1) (rt_late s)\<rparr>)))"

subsection \<open>The server task\<close>

text \<open>\<open>fd\<close> is what \<open>accept\<close> returns, a descriptor that is not open; \<open>created\<close> whether the task is created.\<close>

definition server_step :: "int \<Rightarrow> bool \<Rightarrow> rtsp_tasks \<Rightarrow> rtsp_tasks option" where
  "server_step fd created s =
    (let cur = rt_current s; new = 1 - cur in
     case rt_server s of
       Accepting \<Rightarrow>
         if \<not> rt_running s then Some (s\<lparr>rt_server := Halting 0\<rparr>)
         else if fd < 0 then Some s
         else if fd \<in> rt_open s then None
         else Some (s\<lparr>rt_open := insert fd (rt_open s), rt_server := Accepted fd\<rparr>)
     | Accepted f \<Rightarrow>
         if cs_task (rt_slots s new) then Some ((on_slot new (\<lambda>c. c\<lparr>cs_should_stop := True\<rparr>) s)\<lparr>rt_server := Stopping f\<rparr>)
         else Some (s\<lparr>rt_server := Signalling f\<rparr>)
     | Stopping f \<Rightarrow> Some ((shut_down (cs_socket (rt_slots s new)) s)\<lparr>rt_server := Waiting f 30\<rparr>)
     | Waiting f k \<Rightarrow>
         if \<not> cs_task (rt_slots s new) then Some (s\<lparr>rt_server := Signalling f\<rparr>)
         else if k > 0 then Some (s\<lparr>rt_server := Waiting f (k - 1)\<rparr>)
         else Some ((close_fd f s)\<lparr>rt_server := Accepting\<rparr>)
     | Signalling f \<Rightarrow>
         if cs_task (rt_slots s cur)
         then Some ((on_slot cur (\<lambda>c. c\<lparr>cs_is_old := True, cs_should_stop := True\<rparr>) s)\<lparr>rt_server := Shutting f\<rparr>)
         else Some (s\<lparr>rt_server := Setting_up f\<rparr>)
     | Shutting f \<Rightarrow> Some ((shut_down (cs_socket (rt_slots s cur)) s)\<lparr>rt_server := Setting_up f\<rparr>)
     | Setting_up f \<Rightarrow>
         Some ((on_slot new (\<lambda>c. c\<lparr>cs_socket := f, cs_should_stop := False, cs_is_old := False, cs_task := False\<rparr>) s)\<lparr>rt_server := Creating f\<rparr>)
     | Creating f \<Rightarrow>
         if created then Some (goto new Begin ((on_slot new (\<lambda>c. c\<lparr>cs_task := True\<rparr>) s)\<lparr>rt_server := Created f\<rparr>))
         else Some ((on_slot new (\<lambda>c. c\<lparr>cs_socket := -1\<rparr>) (close_fd f s))\<lparr>rt_server := Accepting\<rparr>)
     | Created f \<Rightarrow>
         if cs_task (rt_slots s new) then Some (s\<lparr>rt_current := new, rt_server := Accepting\<rparr>)
         else Some ((on_slot new (\<lambda>c. c\<lparr>cs_socket := -1\<rparr>) (close_fd f s))\<lparr>rt_server := Accepting\<rparr>)
     | Halting i \<Rightarrow>
         if i \<ge> 2 then Some (s\<lparr>rt_server := Halted\<rparr>)
         else Some ((if cs_task (rt_slots s i)
             then shut_down (cs_socket (rt_slots s i)) (on_slot i (\<lambda>c. c\<lparr>cs_should_stop := True\<rparr>) s) else s)\<lparr>rt_server := Halting (i + 1)\<rparr>)
     | Halted \<Rightarrow> None)"

datatype slot_action = Client nat "nat option" bool | Late nat | Server int bool | Stop_server

fun slot_step :: "slot_action \<Rightarrow> rtsp_tasks \<Rightarrow> rtsp_tasks option" where
  "slot_step (Client i conn buffer) s = client_step i conn buffer s"
| "slot_step (Late k) s = late_step k s"
| "slot_step (Server fd created) s = server_step fd created s"
| "slot_step Stop_server s = Some (s\<lparr>rt_running := False\<rparr>)"

inductive slots_reach :: "rtsp_tasks \<Rightarrow> bool" where
  initial: "slots_reach slots_init"
| step: "slots_reach s \<Longrightarrow> slot_step a s = Some s' \<Longrightarrow> slots_reach s'"

subsection \<open>Ownership\<close>

text \<open>The connection object of a task, whether it still holds its descriptor, and what its slot shows.\<close>

fun conn_at :: "client_at \<Rightarrow> nat option" where
  "conn_at (Connected a) = Some a"
| "conn_at (Linked a) = Some a"
| "conn_at (Visible a) = Some a"
| "conn_at (Serving a) = Some a"
| "conn_at (Leaving a) = Some a"
| "conn_at (Closed a) = Some a"
| "conn_at (Ending a) = Some a"
| "conn_at (Ended a) = Some a"
| "conn_at (Hidden a) = Some a"
| "conn_at (Unlinked a) = Some a"
| "conn_at (Dropping a) = Some a"
| "conn_at (Dropped a) = Some a"
| "conn_at _ = None"

definition holds_fd :: "client_at \<Rightarrow> bool" where
  "holds_fd pc \<longleftrightarrow> (case pc of No_task \<Rightarrow> False | Closed a \<Rightarrow> False | Ending a \<Rightarrow> False | Ended a \<Rightarrow> False | Hidden a \<Rightarrow> False |
     Unlinked a \<Rightarrow> False | Freed \<Rightarrow> False | Refused_closed \<Rightarrow> False | _ \<Rightarrow> True)"

definition links :: "client_at \<Rightarrow> bool" where
  "links pc \<longleftrightarrow> (case pc of Connected a \<Rightarrow> False | Unlinked a \<Rightarrow> False | Dropped a \<Rightarrow> False | _ \<Rightarrow> True)"

definition shown_at :: "client_at \<Rightarrow> bool" where
  "shown_at pc \<longleftrightarrow> (case pc of Visible a \<Rightarrow> True | Serving a \<Rightarrow> True | Leaving a \<Rightarrow> True | Closed a \<Rightarrow> True | Ending a \<Rightarrow> True |
     Ended a \<Rightarrow> True | _ \<Rightarrow> False)"

text \<open>The descriptor the server task holds, and whether it counts on the new slot being free.\<close>

fun server_fd :: "server_at \<Rightarrow> int option" where
  "server_fd (Accepted f) = Some f"
| "server_fd (Stopping f) = Some f"
| "server_fd (Waiting f k) = Some f"
| "server_fd (Signalling f) = Some f"
| "server_fd (Shutting f) = Some f"
| "server_fd (Setting_up f) = Some f"
| "server_fd (Creating f) = Some f"
| "server_fd _ = None"

definition needs_free :: "server_at \<Rightarrow> bool" where
  "needs_free pc \<longleftrightarrow> (case pc of Signalling f \<Rightarrow> True | Shutting f \<Rightarrow> True | Setting_up f \<Rightarrow> True | Creating f \<Rightarrow> True | _ \<Rightarrow> False)"

definition slot_ok :: "client_slot \<Rightarrow> client_at \<Rightarrow> bool" where
  "slot_ok c pc \<longleftrightarrow> (cs_task c \<longleftrightarrow> pc \<noteq> No_task) \<and> cs_conn c = (if links pc then conn_at pc else None) \<and>
     (cs_has_session c \<longleftrightarrow> shown_at pc)"

definition fd_of :: "rtsp_tasks \<Rightarrow> nat \<Rightarrow> int option" where
  "fd_of s i = (if holds_fd (rt_at s i) then Some (cs_socket (rt_slots s i)) else None)"

text \<open>What the server task knows of the slot it is filling: after the creation only that no other has its descriptor.\<close>

definition new_slot_ok :: "rtsp_tasks \<Rightarrow> bool" where
  "new_slot_ok s \<longleftrightarrow>
    (case rt_server s of
       Creating f \<Rightarrow> cs_socket (rt_slots s (1 - rt_current s)) = f
     | Created f \<Rightarrow> \<forall>j. fd_of s j = Some f \<longrightarrow> j = 1 - rt_current s
     | _ \<Rightarrow> True)"

text \<open>
  The descriptors and connections that are open are those the tasks hold, and no two tasks hold the
  same; the slots show exactly the connections of their tasks.
\<close>

definition slots_ok :: "rtsp_tasks \<Rightarrow> bool" where
  "slots_ok s \<longleftrightarrow> rt_current s < 2 \<and> (\<forall>i \<ge> 2. rt_at s i = No_task) \<and> (\<forall>i. slot_ok (rt_slots s i) (rt_at s i)) \<and>
     rt_conns s = {a. \<exists>i. conn_at (rt_at s i) = Some a} \<and>
     (\<forall>i j a. conn_at (rt_at s i) = Some a \<longrightarrow> conn_at (rt_at s j) = Some a \<longrightarrow> i = j) \<and>
     rt_open s = {fd. server_fd (rt_server s) = Some fd \<or> (\<exists>i. fd_of s i = Some fd)} \<and>
     (\<forall>i fd. fd_of s i = Some fd \<longrightarrow> server_fd (rt_server s) \<noteq> Some fd) \<and>
     (\<forall>i j fd. fd_of s i = Some fd \<longrightarrow> fd_of s j = Some fd \<longrightarrow> i = j) \<and>
     (needs_free (rt_server s) \<longrightarrow> rt_at s (1 - rt_current s) = No_task) \<and>
     new_slot_ok s"

lemma slots_init_ok: "slots_ok slots_init"
  by (simp add: slots_ok_def slots_init_def slot_ok_def empty_slot_def fd_of_def holds_fd_def links_def shown_at_def needs_free_def new_slot_ok_def)

lemmas at_defs = holds_fd_def links_def shown_at_def

text \<open>A step of the task of slot \<open>i\<close> that changes nothing but its slot, its object and its descriptor.\<close>

lemma slots_ok_client:
  assumes ok: "slots_ok s" and i: "i < 2"
    and s': "rt_current s' = rt_current s" "rt_server s' = rt_server s" "rt_slots s' = (rt_slots s)(i := c)" "rt_at s' = (rt_at s)(i := pc)"
    and c: "c = rt_slots s' i" "pc = rt_at s' i" "slot_ok c pc" "rt_at s i \<noteq> No_task"
    and C: "rt_conns s' = (case conn_at (rt_at s i) of Some a \<Rightarrow> rt_conns s - {a} | None \<Rightarrow> rt_conns s) \<union> set_option (conn_at pc)"
      "\<And>a. conn_at pc = Some a \<Longrightarrow> conn_at (rt_at s i) = Some a \<or> a \<notin> rt_conns s"
    and D: "if holds_fd pc then holds_fd (rt_at s i) \<and> cs_socket c = cs_socket (rt_slots s i) \<and> rt_open s' = rt_open s
      else rt_open s' = (if holds_fd (rt_at s i) then rt_open s - {cs_socket (rt_slots s i)} else rt_open s)"
  shows "slots_ok s'"
proof -
  note k = ok [unfolded slots_ok_def]
  have fd: "fd_of s' j = (if j = i then if holds_fd pc then fd_of s i else None else fd_of s j)" for j
    using D by (auto simp: fd_of_def s')
  have conn: "conn_at (rt_at s' j) = (if j = i then conn_at pc else conn_at (rt_at s j))" for j by (simp add: s')
  note srv = s'(2)
  have free: "needs_free (rt_server s) \<Longrightarrow> 1 - rt_current s \<noteq> i" using k c(4) by auto
  have "rt_conns s' = {a. \<exists>j. conn_at (rt_at s' j) = Some a}"
  proof -
    have old: "rt_conns s = {a. \<exists>j. conn_at (rt_at s j) = Some a}" using k by simp
    have inj: "conn_at (rt_at s i) = Some b \<Longrightarrow> conn_at (rt_at s j) = Some b \<Longrightarrow> j = i" for j b using k by blast
    have "a \<in> rt_conns s' \<longleftrightarrow> conn_at pc = Some a \<or> (\<exists>j. j \<noteq> i \<and> conn_at (rt_at s j) = Some a)" for a
    proof (cases "conn_at (rt_at s i)")
      case None
      have "(\<exists>j. conn_at (rt_at s j) = Some a) \<longleftrightarrow> (\<exists>j. j \<noteq> i \<and> conn_at (rt_at s j) = Some a)"
        using None by (metis option.distinct(1))
      then show ?thesis unfolding C(1) old None by auto
    next
      case (Some b)
      have "(\<exists>j. conn_at (rt_at s j) = Some a) \<and> a \<noteq> b \<longleftrightarrow> (\<exists>j. j \<noteq> i \<and> conn_at (rt_at s j) = Some a)"
        using Some inj [OF Some] by (metis option.inject)
      then show ?thesis unfolding C(1) old Some by auto
    qed
    then show ?thesis by (simp add: s'(4) set_eq_iff) metis
  qed
  moreover have "\<forall>j k a. conn_at (rt_at s' j) = Some a \<longrightarrow> conn_at (rt_at s' k) = Some a \<longrightarrow> j = k"
  proof -
    have "conn_at pc = Some a \<Longrightarrow> conn_at (rt_at s j) = Some a \<Longrightarrow> j = i" for j a
      using k C(2) [of a] by blast
    then show ?thesis using k by (auto simp: conn split: if_splits)
  qed
  moreover have "rt_open s' = {fd. server_fd (rt_server s') = Some fd \<or> (\<exists>j. fd_of s' j = Some fd)}"
  proof -
    have old: "rt_open s = {fd. server_fd (rt_server s) = Some fd \<or> (\<exists>j. fd_of s j = Some fd)}" using k by simp
    have "rt_open s' = {fd. server_fd (rt_server s) = Some fd \<or> (\<exists>j. fd_of s' j = Some fd)}"
    proof (cases "holds_fd pc")
      case True
      then have "fd_of s' = fd_of s" "rt_open s' = rt_open s" using D by (auto simp: fd)
      then show ?thesis using old by simp
    next
      case False
      then have D': "rt_open s' = (if holds_fd (rt_at s i) then rt_open s - {cs_socket (rt_slots s i)} else rt_open s)" using D by simp
      have new: "(\<exists>j. fd_of s' j = Some f) \<longleftrightarrow> (\<exists>j. j \<noteq> i \<and> fd_of s j = Some f)" for f
        using False by (auto simp: fd)
      have "f \<in> rt_open s' \<longleftrightarrow> server_fd (rt_server s) = Some f \<or> (\<exists>j. j \<noteq> i \<and> fd_of s j = Some f)" for f
      proof (cases "holds_fd (rt_at s i)")
        case True
        then have f0: "fd_of s i = Some (cs_socket (rt_slots s i))" by (simp add: fd_of_def)
        have "server_fd (rt_server s) \<noteq> Some (cs_socket (rt_slots s i))"
          "fd_of s j = Some (cs_socket (rt_slots s i)) \<Longrightarrow> j = i" for j using k f0 by blast+
        then show ?thesis unfolding D' old using True f0 by auto (metis option.inject)+
      next
        case False
        then have "fd_of s i = None" by (simp add: fd_of_def)
        then show ?thesis unfolding D' old using False by auto (metis option.distinct(1))+
      qed
      then show ?thesis by (simp add: set_eq_iff new)
    qed
    then show ?thesis by (simp add: s')
  qed
  moreover have "slot_ok (rt_slots s' j) (rt_at s' j)" for j using k c(3) by (simp add: s')
  moreover have "new_slot_ok s'"
    using k free unfolding new_slot_ok_def by (cases "rt_server s") (auto simp: fd s'(1-3) needs_free_def)
  moreover have "needs_free (rt_server s') \<longrightarrow> rt_at s' (1 - rt_current s') = No_task" using k free by (simp add: s')
  moreover have "\<forall>j f. fd_of s' j = Some f \<longrightarrow> server_fd (rt_server s') \<noteq> Some f"
    "\<forall>j l f. fd_of s' j = Some f \<longrightarrow> fd_of s' l = Some f \<longrightarrow> j = l"
    using k unfolding srv by (auto simp: fd split: if_splits)
  moreover have "rt_current s' < 2" "\<forall>j \<ge> 2. rt_at s' j = No_task" using k i by (auto simp: s')
  ultimately show ?thesis unfolding slots_ok_def by blast
qed

lemma client_step_ok:
  assumes ok: "slots_ok s" and st: "client_step i conn buffer s = Some s'"
  shows "slots_ok s'"
proof -
  have i: "i < 2" using ok st by (cases "i < 2") (auto simp: slots_ok_def client_step_def)
  have c: "slot_ok (rt_slots s i) (rt_at s i)" using ok by (simp add: slots_ok_def)
  have live: "conn_at (rt_at s i) = Some a \<Longrightarrow> a \<in> rt_conns s" for a using ok by (auto simp: slots_ok_def)
  have held: "holds_fd (rt_at s i) \<Longrightarrow> cs_socket (rt_slots s i) \<in> rt_open s" using ok by (auto simp: slots_ok_def fd_of_def)
  note upd = client_step_def goto_def on_slot_def close_fd_def slot_ok_def holds_fd_def links_def shown_at_def insert_absorb
  show ?thesis
    by (cases "rt_at s i"; rule slots_ok_client [OF ok i _ _ _ _ refl refl])
      (use st c live held in \<open>auto simp: upd split: if_splits option.splits\<close>)
qed

text \<open>The flags of the slots play no role, nor do the sockets of slots without a task.\<close>

lemma slots_ok_same:
  assumes ok: "slots_ok s" and "rt_at s' = rt_at s" "rt_current s' = rt_current s" "rt_conns s' = rt_conns s"
    and "\<And>j. cs_task (rt_slots s' j) = cs_task (rt_slots s j) \<and> cs_conn (rt_slots s' j) = cs_conn (rt_slots s j) \<and>
      cs_has_session (rt_slots s' j) = cs_has_session (rt_slots s j) \<and>
      (rt_at s j \<noteq> No_task \<longrightarrow> cs_socket (rt_slots s' j) = cs_socket (rt_slots s j))"
    and "rt_open s' = {fd. server_fd (rt_server s') = Some fd \<or> (\<exists>i. fd_of s i = Some fd)}"
    and "\<And>i fd. fd_of s i = Some fd \<Longrightarrow> server_fd (rt_server s') \<noteq> Some fd"
    and "needs_free (rt_server s') \<Longrightarrow> rt_at s (1 - rt_current s) = No_task"
    and "new_slot_ok s'"
  shows "slots_ok s'"
proof -
  have "fd_of s' j = fd_of s j" for j
    using assms(2,5) by (cases "rt_at s j = No_task") (auto simp: fd_of_def holds_fd_def)
  moreover have "slot_ok (rt_slots s' j) (rt_at s' j)" for j
    using ok assms(2,5) by (simp add: slots_ok_def slot_ok_def)
  ultimately show ?thesis using ok assms unfolding slots_ok_def by simp
qed

lemma slots_ok_flags:
  assumes ok: "slots_ok s" and "rt_at s' = rt_at s" "rt_current s' = rt_current s" "rt_conns s' = rt_conns s"
    "rt_open s' = rt_open s" "rt_server s' = rt_server s"
    and "\<And>j. cs_task (rt_slots s' j) = cs_task (rt_slots s j) \<and> cs_conn (rt_slots s' j) = cs_conn (rt_slots s j) \<and>
      cs_has_session (rt_slots s' j) = cs_has_session (rt_slots s j) \<and> cs_socket (rt_slots s' j) = cs_socket (rt_slots s j)"
  shows "slots_ok s'"
proof (rule slots_ok_same [OF ok])
  have "fd_of s' j = fd_of s j" for j using assms(2,7) by (simp add: fd_of_def)
  then show "new_slot_ok s'" using ok assms(3,6,7) by (cases "rt_server s") (simp_all add: slots_ok_def new_slot_ok_def)
qed (use ok assms(2-) in \<open>simp_all add: slots_ok_def\<close>)

lemma late_step_ok:
  assumes "slots_ok s" "late_step k s = Some s'"
  shows "slots_ok s'"
proof -
  obtain i b where "rt_late s ! k = (i, b)" by force
  then show ?thesis using assms(2)
    by (intro slots_ok_flags [OF assms(1)]) (cases b; auto simp: late_step_def on_slot_def split: if_splits)+
qed

lemma server_step_ok:
  assumes ok: "slots_ok s" and st: "server_step fd created s = Some s'"
  shows "slots_ok s'"
proof -
  let ?new = "1 - rt_current s"
  note k = ok [unfolded slots_ok_def]
  have op: "rt_open s = {fd. server_fd (rt_server s) = Some fd \<or> (\<exists>i. fd_of s i = Some fd)}" using k by blast
  have own: "fd_of s i = Some f \<Longrightarrow> server_fd (rt_server s) \<noteq> Some f" for i f using k by blast
  have task: "cs_task (rt_slots s j) \<longleftrightarrow> rt_at s j \<noteq> No_task" for j using k by (simp add: slot_ok_def)
  note upd = server_step_def on_slot_def goto_def close_fd_def shut_down_def needs_free_def Let_def new_slot_ok_def
  note same = slots_ok_same [OF ok, of s']
  show ?thesis
  proof (cases "rt_server s")
    case Accepting
    show ?thesis by (rule same) (use st Accepting op own k in \<open>auto simp: upd split: if_splits\<close>)
  next
    case (Creating f)
    then have free: "rt_at s ?new = No_task" "cs_socket (rt_slots s ?new) = f"
      using k by (auto simp: needs_free_def new_slot_ok_def)
    show ?thesis
    proof (cases created)
      case False
      have other: "fd_of s j \<noteq> Some f" for j using own [of j f] Creating by auto
      show ?thesis by (rule same) (use st Creating False op free other in \<open>auto simp: upd split: if_splits\<close>)
    next
      case True
      then have s': "rt_at s' = (rt_at s)(?new := client_at.Begin)" "rt_slots s' = (rt_slots s)(?new := (rt_slots s ?new)\<lparr>cs_task := True\<rparr>)"
        "rt_current s' = rt_current s" "rt_server s' = Created f" "rt_conns s' = rt_conns s" "rt_open s' = rt_open s"
        using st Creating by (auto simp: upd)
      have fd: "fd_of s' j = (if j = ?new then Some f else fd_of s j)" for j
        using free by (simp add: fd_of_def s' holds_fd_def)
      have none: "fd_of s ?new = None" "conn_at (rt_at s ?new) = None" "conn_at client_at.Begin = None"
        using free(1) by (simp_all add: fd_of_def holds_fd_def)
      have conn: "conn_at (rt_at s' j) = conn_at (rt_at s j)" for j using none by (simp add: s')
      have other: "fd_of s j \<noteq> Some f" for j using own [of j f] Creating by auto
      show ?thesis unfolding slots_ok_def
      proof (intro conjI)
        show "rt_open s' = {fd. server_fd (rt_server s') = Some fd \<or> (\<exists>i. fd_of s' i = Some fd)}"
        proof -
          have "(\<exists>i. fd_of s' i = Some x) \<longleftrightarrow> x = f \<or> (\<exists>i. fd_of s i = Some x)" for x
            using none(1) by (simp add: fd) (metis option.distinct(1))
          then show ?thesis unfolding s'(6) op by (auto simp: s'(4) Creating)
        qed
        show "\<forall>j. slot_ok (rt_slots s' j) (rt_at s' j)"
          using k free(1) by (auto simp: s' slot_ok_def links_def shown_at_def)
        show "rt_conns s' = {a. \<exists>i. conn_at (rt_at s' i) = Some a}" unfolding conn s'(5) using k by blast
        show "\<forall>i j a. conn_at (rt_at s' i) = Some a \<longrightarrow> conn_at (rt_at s' j) = Some a \<longrightarrow> i = j"
          unfolding conn using k by blast
        show "\<forall>i j fd. fd_of s' i = Some fd \<longrightarrow> fd_of s' j = Some fd \<longrightarrow> i = j"
          using k other by (auto simp: fd split: if_splits)
      qed (use k other in \<open>auto simp: s' needs_free_def new_slot_ok_def fd\<close>)
    qed
  next
    case (Created f)
    show ?thesis
    proof (cases "cs_task (rt_slots s ?new)")
      case True
      then have "s' = s\<lparr>rt_current := ?new, rt_server := Accepting\<rparr>" using st Created by (simp add: upd)
      then show ?thesis using k Created by (auto simp: slots_ok_def fd_of_def needs_free_def new_slot_ok_def)
    next
      case False
      then have free: "rt_at s ?new = No_task" using task by simp
      have "fd_of s ?new = None" using free by (simp add: fd_of_def holds_fd_def)
      moreover have "fd_of s j = Some f \<Longrightarrow> j = ?new" for j using k Created by (simp add: new_slot_ok_def)
      ultimately have other: "fd_of s j \<noteq> Some f" for j by fastforce
      show ?thesis by (rule same) (use st Created False op free other in \<open>auto simp: upd split: if_splits\<close>)
    qed
  next
    case (Setting_up f)
    then have free: "rt_at s ?new = No_task" using k by (auto simp: needs_free_def)
    show ?thesis by (rule same) (use st Setting_up op own free task in \<open>auto simp: upd split: if_splits\<close>)
  next
    case (Waiting f n)
    have other: "fd_of s j \<noteq> Some f" for j using own [of j f] Waiting by auto
    show ?thesis by (rule same) (use st Waiting op task other in \<open>auto simp: upd split: if_splits\<close>)
  qed (rule same; use st op own task k in \<open>auto simp: upd split: if_splits\<close>)+
qed

lemma slot_step_ok:
  assumes ok: "slots_ok s" and st: "slot_step a s = Some s'"
  shows "slots_ok s'"
proof (cases a)
  case (Client i conn buffer)
  then show ?thesis using client_step_ok [OF ok] st by simp
next
  case (Late k)
  then show ?thesis using late_step_ok [OF ok] st by simp
next
  case (Server fd created)
  then show ?thesis using server_step_ok [OF ok] st by simp
next
  case Stop_server
  then show ?thesis using st by (intro slots_ok_flags [OF ok]) auto
qed

lemma slots_ok_reach: "slots_reach s \<Longrightarrow> slots_ok s"
proof (induction rule: slots_reach.induct)
  case initial
  show ?case by (rule slots_init_ok)
next
  case (step s a s')
  show ?case by (rule slot_step_ok [OF step.IH step.hyps(2)])
qed

subsection \<open>Starting and stopping the server\<close>

text \<open>
  The handle of the server task, whether it runs and its socket. \<open>gone k\<close> says whether the task has
  cleared its handle at the \<open>k\<close>-th look at it; \<open>created\<close> whether \<open>xTaskCreate\<close> succeeds.
\<close>

record rtsp_server =
  sv_task :: bool
  sv_running :: bool
  sv_socket :: int

fun rtsp_server_wait_for_task_stopped :: "(nat \<Rightarrow> bool) \<Rightarrow> nat \<Rightarrow> nat \<Rightarrow> bool" where
  "rtsp_server_wait_for_task_stopped gone k 0 = (gone k \<or> gone (k + 1))"
| "rtsp_server_wait_for_task_stopped gone k (Suc ticks) =
    (gone k \<or> rtsp_server_wait_for_task_stopped gone (k + 1) ticks)"

definition rtsp_server_start :: "(nat \<Rightarrow> bool) \<Rightarrow> bool \<Rightarrow> rtsp_server \<Rightarrow> esp_err \<times> rtsp_server" where
  "rtsp_server_start gone created v =
    (if sv_task v \<and> sv_running v then (ESP_ERR_INVALID_STATE, v)
     else if sv_task v \<and> \<not> rtsp_server_wait_for_task_stopped gone 0 40 then (ESP_ERR_INVALID_STATE, v)
     else if created then (ESP_OK, v\<lparr>sv_task := True\<rparr>) else (ESP_FAIL, v\<lparr>sv_task := False\<rparr>))"

definition rtsp_server_stop :: "(nat \<Rightarrow> bool) \<Rightarrow> rtsp_server \<Rightarrow> rtsp_server" where
  "rtsp_server_stop gone v =
    v\<lparr>sv_running := False, sv_socket := (if sv_socket v \<ge> 0 then -1 else sv_socket v),
      sv_task := (sv_task v \<and> \<not> rtsp_server_wait_for_task_stopped gone 0 40)\<rparr>"

lemma wait_for_task_stopped_iff:
  assumes "\<And>k. gone k \<Longrightarrow> gone (Suc k)"
  shows "rtsp_server_wait_for_task_stopped gone k ticks \<longleftrightarrow> gone (k + ticks + 1)"
proof -
  have later: "gone j \<Longrightarrow> j \<le> l \<Longrightarrow> gone l" for j l using assms by (induction l) (auto simp: le_Suc_eq)
  show ?thesis by (induction ticks arbitrary: k) (auto intro: later)
qed

text \<open>A server can be started again after it was stopped if its task ends within two seconds.\<close>

lemma restart_after_stop:
  assumes "\<And>k. gone k \<Longrightarrow> gone (Suc k)" "gone 41"
  shows "fst (rtsp_server_start gone' True (rtsp_server_stop gone v)) = ESP_OK"
  using wait_for_task_stopped_iff [of gone 0 40] assms by (simp add: rtsp_server_start_def rtsp_server_stop_def)

subsection \<open>What the slots guarantee\<close>

text \<open>
  C39. However the server task and the client tasks interleave, whatever is accepted, refused, out of
  memory or stopped: a connection that a slot publishes is allocated, an allocated one belongs to
  exactly one task, and the open descriptors are exactly those that one task still has to close.
\<close>

theorem published_connections_are_owned:
  assumes "slots_reach s"
  shows "(\<forall>i. case cs_conn (rt_slots s i) of None \<Rightarrow> \<not> cs_has_session (rt_slots s i) | Some a \<Rightarrow> a \<in> rt_conns s \<and> cs_task (rt_slots s i)) \<and>
    (\<forall>a \<in> rt_conns s. \<exists>!i. conn_at (rt_at s i) = Some a) \<and>
    (\<forall>fd. fd \<in> rt_open s \<longleftrightarrow> (server_fd (rt_server s) = Some fd) \<noteq> (\<exists>!i. fd_of s i = Some fd))"
proof -
  note k = slots_ok_reach [OF assms, unfolded slots_ok_def]
  have "case cs_conn (rt_slots s i) of None \<Rightarrow> \<not> cs_has_session (rt_slots s i) | Some a \<Rightarrow> a \<in> rt_conns s \<and> cs_task (rt_slots s i)" for i
  proof -
    have ok: "slot_ok (rt_slots s i) (rt_at s i)" using k by blast
    have "conn_at (rt_at s i) = Some a \<Longrightarrow> a \<in> rt_conns s" for a using k by blast
    then show ?thesis using ok by (cases "rt_at s i") (simp_all add: slot_ok_def links_def shown_at_def)
  qed
  moreover have "\<exists>!i. conn_at (rt_at s i) = Some a" if "a \<in> rt_conns s" for a using that k by blast
  moreover have "fd \<in> rt_open s \<longleftrightarrow> (server_fd (rt_server s) = Some fd) \<noteq> (\<exists>!i. fd_of s i = Some fd)" for fd
  proof -
    have "fd \<in> rt_open s \<longleftrightarrow> server_fd (rt_server s) = Some fd \<or> (\<exists>i. fd_of s i = Some fd)" using k by blast
    moreover have "fd_of s i = Some fd \<Longrightarrow> fd_of s j = Some fd \<Longrightarrow> i = j" "fd_of s i = Some fd \<Longrightarrow> server_fd (rt_server s) \<noteq> Some fd" for i j
      using k by blast+
    ultimately show ?thesis by metis
  qed
  ultimately show ?thesis by blast
qed

text \<open>Runs: a list of actions.\<close>

fun slot_run :: "slot_action list \<Rightarrow> rtsp_tasks \<Rightarrow> rtsp_tasks option" where
  "slot_run [] s = Some s"
| "slot_run (a # as) s = (case slot_step a s of None \<Rightarrow> None | Some s' \<Rightarrow> slot_run as s')"

lemma slots_reach_run: "slots_reach s \<Longrightarrow> slot_run as s = Some s' \<Longrightarrow> slots_reach s'"
  by (induction as arbitrary: s) (auto split: option.splits intro: slots_reach.step)

text \<open>One client is accepted with descriptor \<open>fd\<close> and starts serving.\<close>

definition first_client :: "int \<Rightarrow> slot_action list" where
  "first_client fd = [Server fd True, Server 0 True, Server 0 True, Server 0 True, Server 0 True, Server 0 True]"

lemma published_connections_are_owned_witness:
  "case slot_run (first_client 54 @ replicate 4 (Client 1 (Some 7) True)) slots_init of
     None \<Rightarrow> False
   | Some s \<Rightarrow> cs_conn (rt_slots s 1) = Some 7 \<and> 7 \<in> rt_conns s"
proof -
  obtain s where s: "slot_run (first_client 54 @ replicate 4 (Client 1 (Some 7) True)) slots_init = Some s"
      "cs_conn (rt_slots s 1) = Some 7"
    by (simp add: first_client_def slots_init_def empty_slot_def server_step_def client_step_def on_slot_def goto_def numeral_eq_Suc)
  have "slots_reach s" by (rule slots_reach_run [OF slots_reach.initial s(1)])
  from published_connections_are_owned [OF this] have "7 \<in> rt_conns s" using s(2) by (auto split: option.splits dest!: spec [of _ 1])
  then show ?thesis using s by simp
qed

text \<open>
  A finished client closes its descriptor before it clears the number in its slot, so a client that
  is accepted in between gets the same number, and the server, which shuts down the number it reads in
  the old slot, cuts off the client it has just accepted.
\<close>

theorem new_client_cut_off:
  "\<exists>s. slots_reach s \<and> rt_shut s = [54] \<and> rt_server s = Setting_up 54 \<and> 54 \<in> rt_open s \<and> \<not> holds_fd (rt_at s 1)"
proof -
  let ?run = "first_client 54 @ replicate 6 (Client 1 (Some 7) True) @ [Server 54 True, Server 0 True, Server 0 True, Server 0 True]"
  have "\<exists>s. slot_run ?run slots_init = Some s \<and> rt_shut s = [54] \<and> rt_server s = Setting_up 54 \<and> 54 \<in> rt_open s \<and> \<not> holds_fd (rt_at s 1)"
    by (simp add: first_client_def slots_init_def empty_slot_def server_step_def client_step_def on_slot_def goto_def close_fd_def
      shut_down_def holds_fd_def numeral_eq_Suc)
  then show ?thesis by (meson slots_reach_run slots_reach.initial)
qed

text \<open>A client task that fails before the server has checked its creation makes the server close its descriptor again.\<close>

lemma refused_descriptor_closed_again: "\<exists>s. slots_reach s \<and> rt_reclosed s = [54] \<and> rt_current s = 0"
proof -
  let ?run = "butlast (first_client 54) @ replicate 3 (Client 1 None True) @ [Server 0 True]"
  have "\<exists>s. slot_run ?run slots_init = Some s \<and> rt_reclosed s = [54] \<and> rt_current s = 0"
    by (simp add: first_client_def slots_init_def empty_slot_def server_step_def client_step_def on_slot_def goto_def close_fd_def
      shut_down_def holds_fd_def numeral_eq_Suc)
  then show ?thesis by (meson slots_reach_run slots_reach.initial)
qed

end
