(* ===== verification/Spec2Isabelle.thy ===== *)
theory Spec2Isabelle
  imports Prelude Base64 Bplist_Info Tlv8 Plist_Xml Audio_Play Audio_Steps Hap_Pair_Session Rtsp_Client Ptp_Facts Ntp_Facts Playout_Play Receiver_Facts Rtsp_Answers Rtsp_Session_End Rtsp_Slots
begin

text \<open>
  A model of the AirPlay receiver in \<open>main/\<close>.
\<close>

end
